(* ===== verification/Prelude.thy ===== *)
theory Prelude
  imports Main "HOL-Library.AList"
begin

text \<open>
  Shared notions of the development: the collections its simplification rules are
  declared into, Rust's iterator adaptors (\<open>min_by_key\<close>, \<open>max_by_key\<close>), a hash map as an
  association list with the map interface it implements, and the machinery for
  state machines (a step function, its runs, and invariants over them).
\<close>

named_theorems shape \<open>how an operation changes each field of a record\<close>
named_theorems keeps \<open>operations that keep an invariant\<close>

section \<open>Iterator adaptors of the Rust standard library\<close>

text \<open>\<open>Iterator::min_by_key\<close> returns the first of several minimal elements,
  \<open>Iterator::max_by_key\<close> the last of several maximal ones.\<close>

fun min_by_key :: "('a \<Rightarrow> nat) \<Rightarrow> 'a list \<Rightarrow> 'a option" where
  "min_by_key f [] = None"
| "min_by_key f (x # xs) =
     (case min_by_key f xs of None \<Rightarrow> Some x
      | Some y \<Rightarrow> if f x \<le> f y then Some x else Some y)"

fun max_by_key :: "('a \<Rightarrow> nat) \<Rightarrow> 'a list \<Rightarrow> 'a option" where
  "max_by_key f [] = None"
| "max_by_key f (x # xs) =
     (case max_by_key f xs of None \<Rightarrow> Some x
      | Some y \<Rightarrow> if f x \<le> f y then Some y else Some x)"

definition abs_diff :: "nat \<Rightarrow> nat \<Rightarrow> nat" where
  "abs_diff a b = (if a < b then b - a else a - b)"

lemma min_by_key_None [simp]: "min_by_key f xs = None \<longleftrightarrow> xs = []"
  by (cases xs) (auto split: option.splits)

lemma max_by_key_None [simp]: "max_by_key f xs = None \<longleftrightarrow> xs = []"
  by (cases xs) (auto split: option.splits)

lemma min_by_key_Some:
  "min_by_key f xs = Some y \<Longrightarrow> y \<in> set xs \<and> (\<forall>x \<in> set xs. f y \<le> f x)"
  by (induction xs arbitrary: y) (fastforce split: option.splits if_splits)+

lemma max_by_key_Some:
  "max_by_key f xs = Some y \<Longrightarrow> y \<in> set xs \<and> (\<forall>x \<in> set xs. f x \<le> f y)"
  by (induction xs arbitrary: y) (fastforce split: option.splits if_splits)+

lemma find_Some_in: "List.find P xs = Some x \<Longrightarrow> x \<in> set xs \<and> P x"
  by (auto simp: find_Some_iff)

section \<open>Hash maps\<close>

text \<open>A \<open>HashMap\<close> is an association list with distinct keys: the order of the list is one
  possible iteration order of the map. \<open>keyed_map\<close> is the interface its clients use.\<close>

locale keyed_map =
  fixes empty :: 'm
    and lookup :: "'m \<Rightarrow> 'k \<Rightarrow> 'v option"
    and insert :: "'k \<Rightarrow> 'v \<Rightarrow> 'm \<Rightarrow> 'm"
    and remove :: "'k \<Rightarrow> 'm \<Rightarrow> 'm"
    and inv :: "'m \<Rightarrow> bool"
  assumes lookup_empty: "lookup empty k = None"
    and lookup_insert: "lookup (insert k v m) k' = (if k' = k then Some v else lookup m k')"
    and lookup_remove: "inv m \<Longrightarrow> lookup (remove k m) k' = (if k' = k then None else lookup m k')"
    and inv_empty: "inv empty"
    and inv_insert: "inv m \<Longrightarrow> inv (insert k v m)"
    and inv_remove: "inv m \<Longrightarrow> inv (remove k m)"
begin

lemma lookup_insert_same: "lookup (insert k v m) k = Some v"
  by (simp add: lookup_insert)

lemma lookup_insert_other: "k' \<noteq> k \<Longrightarrow> lookup (insert k v m) k' = lookup m k'"
  by (simp add: lookup_insert)

lemma insert_overwrites: "lookup (insert k v (insert k w m)) = lookup (insert k v m)"
  by (rule ext) (simp add: lookup_insert)

lemma remove_insert: "inv m \<Longrightarrow> lookup (remove k (insert k v m)) k' = (if k' = k then None else lookup m k')"
  by (simp add: lookup_remove lookup_insert inv_insert)

lemma inv_fold_insert: "inv m \<Longrightarrow> inv (fold (\<lambda>(k, v). insert k v) kvs m)"
  by (induction kvs arbitrary: m) (auto simp: inv_insert)

lemma inv_fold_remove: "inv m \<Longrightarrow> inv (fold remove ks m)"
  by (induction ks arbitrary: m) (auto simp: inv_remove)

end

abbreviation distinct_keys :: "('k \<times> 'v) list \<Rightarrow> bool" where
  "distinct_keys m \<equiv> distinct (map fst m)"

lemma map_of_delete_if: "map_of (AList.delete k m) k' = (if k' = k then None else map_of m k')"
  by (simp add: delete_conv)

interpretation hash_map: keyed_map "[]" map_of AList.update AList.delete distinct_keys
  by unfold_locales (auto simp: update_conv map_of_delete_if distinct_update distinct_delete)

lemma map_of_update_if [simp]:
  "map_of (AList.update k v m) k' = (if k' = k then Some v else map_of m k')"
  by (simp add: update_conv)

declare map_of_delete_if [simp]

definition has_key :: "('k \<times> 'v) list \<Rightarrow> 'k \<Rightarrow> bool" where
  "has_key m k \<longleftrightarrow> map_of m k \<noteq> None"

lemma has_key_iff: "has_key m k \<longleftrightarrow> k \<in> fst ` set m"
  by (auto simp: has_key_def map_of_eq_None_iff)

lemma map_of_in_set: "map_of m k = Some v \<Longrightarrow> (k, v) \<in> set m"
  by (rule map_of_SomeD)

text \<open>Replacing every value through a function keeps keys and order.\<close>

definition map_values :: "('k \<Rightarrow> 'v \<Rightarrow> 'w) \<Rightarrow> ('k \<times> 'v) list \<Rightarrow> ('k \<times> 'w) list" where
  "map_values f m = map (\<lambda>(k, v). (k, f k v)) m"

lemma map_of_map_values [simp]: "map_of (map_values f m) k = map_option (f k) (map_of m k)"
  by (induction m) (auto simp: map_values_def)

lemma keys_map_values [simp]: "map fst (map_values f m) = map fst m"
  by (auto simp: map_values_def)

section \<open>State machines\<close>

text \<open>A component is a step function over its state; \<open>run\<close> feeds it a list of inputs.\<close>

definition run :: "('s \<Rightarrow> 'e \<Rightarrow> 's) \<Rightarrow> 's \<Rightarrow> 'e list \<Rightarrow> 's" where
  "run step s es = foldl step s es"

lemma run_simps [simp]:
  "run step s [] = s"
  "run step s (e # es) = run step (step s e) es"
  by (simp_all add: run_def)

lemma run_append [simp]: "run step s (es @ fs) = run step (run step s es) fs"
  by (simp add: run_def)

text \<open>Inputs the environment promises never to send are outside \<open>ok\<close>.\<close>

locale machine =
  fixes step :: "'s \<Rightarrow> 'e \<Rightarrow> 's"
    and inv :: "'s \<Rightarrow> bool"
    and ok :: "'e \<Rightarrow> bool"
  assumes step_inv: "inv s \<Longrightarrow> ok e \<Longrightarrow> inv (step s e)"
begin

lemma run_inv: "inv s \<Longrightarrow> list_all ok es \<Longrightarrow> inv (run step s es)"
  by (induction es arbitrary: s) (auto intro: step_inv)

lemma run_prefix_inv: "inv s \<Longrightarrow> list_all ok es \<Longrightarrow> inv (run step s (take n es))"
  by (rule run_inv) (auto simp: list_all_iff dest: in_set_takeD)

end

section \<open>Lists\<close>

lemma filter_eq_id_conv: "(\<forall>x \<in> set xs. P x) \<Longrightarrow> filter P xs = xs"
  by (rule filter_True) simp

lemma distinct_map_filterI: "distinct (map f xs) \<Longrightarrow> distinct (map f (filter P xs))"
  by (induction xs) auto

lemma keys_map_pair: "map fst (map (\<lambda>(k, x). (k, f x)) m) = map fst m"
  by (induction m) auto

lemma distinct_keys_filter: "distinct_keys m \<Longrightarrow> distinct_keys (filter P m)"
  by (rule distinct_map_filterI)

lemma distinct_keys_map_pair: "distinct_keys m \<Longrightarrow> distinct_keys (map (\<lambda>(k, x). (k, f x)) m)"
  unfolding keys_map_pair .

lemma sum_list_map_append: "sum_list (map f (xs @ ys)) = sum_list (map f xs) + sum_list (map f ys)"
  by simp

end
