(* ===== verification/Rust_Text.thy ===== *)
theory Rust_Text
  imports Prelude
begin

text \<open>
  Rust's \<open>str\<close> operations on lines. A string is a list of characters; \<open>nl\<close> and \<open>cr\<close> are
  its newline and carriage return. The hunk tracker uses them on UTF-8 bytes
  (\<open>char\<close>), the patch engine on code points.
\<close>

section \<open>Splitting and joining\<close>

text \<open>\<open>str::split_inclusive\<close>: each piece keeps its terminator.\<close>

fun split_inclusive :: "'a \<Rightarrow> 'a list \<Rightarrow> 'a list list" where
  "split_inclusive nl [] = []"
| "split_inclusive nl (x # xs) =
     (if x = nl then [x] # split_inclusive nl xs
      else (case split_inclusive nl xs of [] \<Rightarrow> [[x]] | l # ls \<Rightarrow> (x # l) # ls))"

text \<open>\<open>str::split\<close> on one character: one piece more than there are separators.\<close>

fun split_on :: "'a \<Rightarrow> 'a list \<Rightarrow> 'a list list" where
  "split_on sep [] = [[]]"
| "split_on sep (x # xs) =
     (if x = sep then [] # split_on sep xs
      else (case split_on sep xs of [] \<Rightarrow> [[x]] | l # ls \<Rightarrow> (x # l) # ls))"

fun join :: "'a list \<Rightarrow> 'a list list \<Rightarrow> 'a list" where
  "join sep [] = []"
| "join sep [l] = l"
| "join sep (l # ls) = l @ sep @ join sep ls"

definition ends_with :: "'a \<Rightarrow> 'a list \<Rightarrow> bool" where
  "ends_with c s \<longleftrightarrow> s \<noteq> [] \<and> last s = c"

text \<open>\<open>str::lines\<close>: a final newline and a carriage return before it are dropped; a carriage
  return that no newline follows stays.\<close>

definition strip_terminator :: "'a \<Rightarrow> 'a \<Rightarrow> 'a list \<Rightarrow> 'a list" where
  "strip_terminator nl cr l =
     (if ends_with nl l
      then (let l' = butlast l in if ends_with cr l' then butlast l' else l')
      else l)"

definition str_lines :: "'a \<Rightarrow> 'a \<Rightarrow> 'a list \<Rightarrow> 'a list list" where
  "str_lines nl cr s = map (strip_terminator nl cr) (split_inclusive nl s)"

lemma split_on_nonempty [simp]: "split_on sep s \<noteq> []"
  by (cases s) (auto split: list.splits)

lemma concat_split_inclusive [simp]: "concat (split_inclusive nl s) = s"
  by (induction s) (auto split: list.splits)

lemma split_inclusive_eq_Nil [simp]: "split_inclusive nl s = [] \<longleftrightarrow> s = []"
  by (cases s) (auto split: list.splits)

lemma split_inclusive_nonempty: "l \<in> set (split_inclusive nl s) \<Longrightarrow> l \<noteq> []"
  by (induction s arbitrary: l) (auto split: list.splits if_splits)

lemma join_Cons: "ls \<noteq> [] \<Longrightarrow> join sep (l # ls) = l @ sep @ join sep ls"
  by (cases ls) auto

lemma join_append:
  "xs \<noteq> [] \<Longrightarrow> ys \<noteq> [] \<Longrightarrow> join sep (xs @ ys) = join sep xs @ sep @ join sep ys"
  by (induction sep xs rule: join.induct) (auto simp: join_Cons)

lemma join_empty_sep [simp]: "join [] ls = concat ls"
  by (induction "[] :: 'a list" ls rule: join.induct) auto

lemma join_cons_head: "join sep ((x # l) # ls) = x # join sep (l # ls)"
  by (cases ls) auto

lemma join_split_on [simp]: "join [sep] (split_on sep s) = s"
  by (induction s) (auto simp: join_Cons join_cons_head split: list.splits)

lemma ends_with_simps [simp]:
  "\<not> ends_with c []"
  "ends_with c (s @ [d]) \<longleftrightarrow> c = d"
  "ends_with c (x # s) \<longleftrightarrow> (if s = [] then x = c else ends_with c s)"
  by (auto simp: ends_with_def)

section \<open>Pieces that end in a newline\<close>

definition is_line :: "'a \<Rightarrow> 'a list \<Rightarrow> bool" where
  "is_line nl l \<longleftrightarrow> (\<exists>b. l = b @ [nl] \<and> nl \<notin> set b)"

lemma split_inclusive_line_append:
  "nl \<notin> set b \<Longrightarrow> split_inclusive nl (b @ nl # s) = (b @ [nl]) # split_inclusive nl s"
  by (induction b) auto

lemma split_inclusive_no_nl:
  "nl \<notin> set b \<Longrightarrow> b \<noteq> [] \<Longrightarrow> split_inclusive nl b = [b]"
proof (induction b)
  case (Cons a b)
  then show ?case by (cases "b = []") auto
qed simp

lemma split_inclusive_concat_lines:
  "\<forall>l \<in> set ls. is_line nl l \<Longrightarrow> split_inclusive nl (concat ls @ s) = ls @ split_inclusive nl s"
  by (induction ls) (auto simp: is_line_def split_inclusive_line_append)

lemma split_inclusive_lines:
  "s = [] \<or> ends_with nl s \<Longrightarrow> l \<in> set (split_inclusive nl s) \<Longrightarrow> is_line nl l"
proof (induction s arbitrary: l)
  case Nil
  then show ?case by simp
next
  case (Cons x s)
  show ?case
  proof (cases "x = nl")
    case True
    with Cons show ?thesis by (auto simp: is_line_def split: if_splits)
  next
    case False
    with Cons.prems(1) have s: "s \<noteq> []" "ends_with nl s" by (auto split: if_splits)
    then obtain m ms where m: "split_inclusive nl s = m # ms"
      by (cases "split_inclusive nl s") auto
    have "is_line nl m" using Cons.IH[of m] s m by simp
    then have "is_line nl (x # m)" using False by (auto simp: is_line_def)
    with Cons False m s show ?thesis by auto
  qed
qed

text \<open>The pieces of a whole text: every piece but the last ends in a newline.\<close>

lemma split_inclusive_butlast:
  "l \<in> set (butlast (split_inclusive nl s)) \<Longrightarrow> is_line nl l"
proof (induction s arbitrary: l)
  case Nil
  then show ?case by simp
next
  case (Cons x s)
  show ?case
  proof (cases "split_inclusive nl s")
    case Nil
    with Cons show ?thesis by (auto split: if_splits)
  next
    case (Cons m ms)
    show ?thesis
    proof (cases "x = nl")
      case True
      with Cons.IH Cons.prems Cons show ?thesis by (auto simp: is_line_def split: if_splits)
    next
      case False
      have "is_line nl (x # m)" if "is_line nl m" using that False by (auto simp: is_line_def)
      with Cons.IH Cons.prems Cons False show ?thesis by (auto split: if_splits)
    qed
  qed
qed

lemma strip_terminator_line:
  "cr \<notin> set b \<Longrightarrow> strip_terminator nl cr (b @ [nl]) = b"
  by (auto simp: strip_terminator_def Let_def ends_with_def)

lemma strip_terminator_no_nl: "nl \<notin> set b \<Longrightarrow> strip_terminator nl cr b = b"
  by (auto simp: strip_terminator_def ends_with_def)

text \<open>For text without carriage returns whose lines all end in a newline, dropping and
  adding back the terminators is the identity.\<close>

definition unterminated :: "'a \<Rightarrow> 'a list \<Rightarrow> bool" where
  "unterminated nl l \<longleftrightarrow> nl \<notin> set l"

lemma join_lines:
  "ls \<noteq> [] \<Longrightarrow> join [nl] ls @ [nl] = concat (map (\<lambda>l. l @ [nl]) ls)"
  by (induction "[nl]" ls rule: join.induct) auto

lemma join_eq_Nil: "join [nl] ls = [] \<longleftrightarrow> ls = [] \<or> ls = [[]]"
  by (cases ls; cases "tl ls") (auto simp: join_Cons)

lemma split_inclusive_terminated:
  "\<forall>l \<in> set ls. nl \<notin> set l \<Longrightarrow>
   split_inclusive nl (concat (map (\<lambda>l. l @ [nl]) ls)) = map (\<lambda>l. l @ [nl]) ls"
  using split_inclusive_concat_lines[of "map (\<lambda>l. l @ [nl]) ls" nl "[]"]
  by (auto simp: is_line_def)

lemma str_lines_terminated:
  "\<forall>l \<in> set ls. nl \<notin> set l \<and> cr \<notin> set l \<Longrightarrow>
   str_lines nl cr (concat (map (\<lambda>l. l @ [nl]) ls)) = ls"
  by (simp add: str_lines_def split_inclusive_terminated strip_terminator_line
      o_def map_idI)

end
