(* ===== verification/Unicode_Text.thy ===== *)
theory Unicode_Text
  imports Rust_Text
begin

text \<open>
  Strings as code points, for the components whose behaviour depends on Unicode
  whitespace: \<open>trim\<close>, \<open>trim_end\<close>, \<open>strip_prefix\<close> and the parsing of unsigned numbers of
  the Rust standard library.
\<close>

type_synonym ustr = "nat list"

definition u :: "string \<Rightarrow> ustr" where
  "u s = map of_char s"

abbreviation LF :: nat where "LF \<equiv> 10"

definition ulines :: "ustr \<Rightarrow> ustr list" where
  "ulines s = str_lines 10 13 s"

text \<open>The \<open>White_Space\<close> property.\<close>

definition is_ws :: "nat \<Rightarrow> bool" where
  "is_ws c \<longleftrightarrow> (9 \<le> c \<and> c \<le> 13) \<or> c = 32 \<or> c = 133 \<or> c = 160 \<or> c = 5760 \<or>
     (8192 \<le> c \<and> c \<le> 8202) \<or> c = 8232 \<or> c = 8233 \<or> c = 8239 \<or> c = 8287 \<or> c = 12288"

definition trim_start :: "ustr \<Rightarrow> ustr" where
  "trim_start s = dropWhile is_ws s"

definition trim_end :: "ustr \<Rightarrow> ustr" where
  "trim_end s = rev (dropWhile is_ws (rev s))"

definition trim :: "ustr \<Rightarrow> ustr" where
  "trim s = trim_end (trim_start s)"

fun strip_pre :: "ustr \<Rightarrow> ustr \<Rightarrow> ustr option" where
  "strip_pre [] s = Some s"
| "strip_pre (p # ps) [] = None"
| "strip_pre (p # ps) (c # cs) = (if p = c then strip_pre ps cs else None)"

lemma strip_pre_Some: "strip_pre p s = Some r \<longleftrightarrow> s = p @ r"
  by (induction p s rule: strip_pre.induct) auto

lemma strip_pre_append [simp]: "strip_pre p (p @ r) = Some r"
  by (simp add: strip_pre_Some)

definition ends_in :: "ustr \<Rightarrow> ustr \<Rightarrow> bool" where
  "ends_in suffix s \<longleftrightarrow> length suffix \<le> length s \<and> drop (length s - length suffix) s = suffix"

text \<open>\<open>str::parse\<close> at an unsigned type: an optional plus sign, then digits; out of range fails.\<close>

fun digits :: "nat \<Rightarrow> ustr \<Rightarrow> nat option" where
  "digits acc [] = Some acc"
| "digits acc (c # cs) = (if 48 \<le> c \<and> c \<le> 57 then digits (10 * acc + (c - 48)) cs else None)"

definition parse_unsigned :: "nat \<Rightarrow> ustr \<Rightarrow> nat option" where
  "parse_unsigned max_value s =
     (let ds = (case s of c # cs \<Rightarrow> if c = 43 \<and> cs \<noteq> [] then cs else s | [] \<Rightarrow> [])
      in if ds = [] then None
         else (case digits 0 ds of None \<Rightarrow> None | Some n \<Rightarrow> if n \<le> max_value then Some n else None))"

definition parse_bool :: "ustr \<Rightarrow> bool option" where
  "parse_bool s = (if s = u ''true'' then Some True else if s = u ''false'' then Some False else None)"

lemma parse_unsigned_bound: "parse_unsigned m s = Some n \<Longrightarrow> n \<le> m"
  by (auto simp: parse_unsigned_def Let_def split: if_splits option.splits)

section \<open>Trimming\<close>

lemma trim_Nil [simp]: "trim [] = []" "trim_end [] = []" "trim_start [] = []"
  by (simp_all add: trim_def trim_end_def trim_start_def)

lemma trim_clean:
  assumes "s \<noteq> []" "\<not> is_ws (hd s)" "\<not> is_ws (last s)"
  shows "trim s = s"
proof -
  have a: "trim_start s = s" using assms(1,2) by (cases s) (auto simp: trim_start_def)
  obtain xs x where s: "s = xs @ [x]" using assms(1) by (cases s rule: rev_cases) auto
  then have "trim_end s = s" using assms(3) by (simp add: trim_end_def)
  with a show ?thesis by (simp add: trim_def)
qed

text \<open>Trimming at the end leaves a prefix, and trimming both ends the middle.\<close>

lemma trim_end_split: "\<exists>w. s = trim_end s @ w \<and> list_all is_ws w"
proof -
  have "s = rev (takeWhile is_ws (rev s) @ dropWhile is_ws (rev s))" by simp
  then have "s = trim_end s @ rev (takeWhile is_ws (rev s))" unfolding trim_end_def rev_append .
  moreover have "list_all is_ws (rev (takeWhile is_ws (rev s)))"
    by (auto simp: list_all_iff dest: set_takeWhileD)
  ultimately show ?thesis by blast
qed

lemma trim_end_append_ws: "list_all is_ws w \<Longrightarrow> trim_end (s @ w) = trim_end s"
proof -
  assume "list_all is_ws w"
  then have "dropWhile is_ws (rev w @ rev s) = dropWhile is_ws (rev s)"
    by (intro dropWhile_append2) (simp add: list_all_iff)
  then show ?thesis by (simp add: trim_end_def)
qed

lemma trim_start_trim_end: "trim_start (trim_end s) = trim_end (trim_start s)"
proof (induction s)
  case (Cons c s)
  show ?case
  proof (cases "list_all is_ws (c # s)")
    case True
    then have "trim_end (c # s) = []" "trim_start (c # s) = []"
      using trim_end_append_ws[of "c # s" "[]"] by (simp_all add: trim_start_def list_all_iff)
    then show ?thesis by simp
  next
    case False
    show ?thesis
    proof (cases "is_ws c")
      case ws: True
      then have "\<not> list_all is_ws s" using False by simp
      then have "\<exists>x \<in> set (rev s). \<not> is_ws x" by (auto simp: list_all_iff)
      then have "trim_end (c # s) = c # trim_end s"
        by (auto simp: trim_end_def dropWhile_append1)
      then show ?thesis using Cons ws by (simp add: trim_start_def)
    next
      case nws: False
      have "trim_end (c # s) = c # trim_end s"
        using nws by (cases "\<exists>x \<in> set (rev s). \<not> is_ws x")
          (auto simp: trim_end_def dropWhile_append1 dropWhile_append3)
      then show ?thesis using nws by (simp add: trim_start_def)
    qed
  qed
qed simp

lemma trim_of_trim_end: "trim_end s = trim_end t \<Longrightarrow> trim s = trim t"
  unfolding trim_def by (metis trim_start_trim_end)

end
