(* ===== verification/Shell_Words.thy ===== *)
theory Shell_Words
  imports Unicode_Text
begin

text \<open>
  The word-level part of \<open>permission/bash_command_splitting.rs\<close> in \<open>xai-grok-workspace\<close>: peeling
  wrappers (\<open>timeout\<close>, \<open>env\<close>, \<open>nice\<close>, ...) and shell prefixes (\<open>exec\<close>, \<open>command\<close>, \<open>builtin\<close>) from
  the argument vector of a command. A slice of the vector is the list of its words; every peel
  returns a suffix. Splitting a script into commands is the crate \<open>tree-sitter-bash\<close>, not modelled
  here.
\<close>

type_synonym words = "ustr list"

section \<open>Words\<close>

definition has_pre :: "ustr \<Rightarrow> ustr \<Rightarrow> bool" where
  "has_pre p w \<longleftrightarrow> strip_pre p w \<noteq> None"

definition dashed :: "ustr \<Rightarrow> bool" where
  "dashed w = has_pre (u ''-'') w"

definition double_dashed :: "ustr \<Rightarrow> bool" where
  "double_dashed w = has_pre (u ''--'') w"

text \<open>The part behind the last slash or backslash.\<close>

definition base_name :: "ustr \<Rightarrow> ustr" where
  "base_name w = rev (takeWhile (\<lambda>c. c \<noteq> 47 \<and> c \<noteq> 92) (rev w))"

definition head_name :: "words \<Rightarrow> ustr option" where
  "head_name cmd = (case cmd of [] \<Rightarrow> None | w # _ \<Rightarrow> Some (base_name w))"

definition is_setup_command :: "words \<Rightarrow> bool" where
  "is_setup_command cmd =
     (case cmd of [] \<Rightarrow> True
      | w # _ \<Rightarrow> w \<in> set (map u [''cd'', ''pushd'', ''popd'', ''export'', ''unset'', ''set'', ''sleep'', ''timeout'']))"

definition ascii_alpha :: "nat \<Rightarrow> bool" where
  "ascii_alpha c \<longleftrightarrow> 65 \<le> c \<and> c \<le> 90 \<or> 97 \<le> c \<and> c \<le> 122"

definition ascii_digit :: "nat \<Rightarrow> bool" where
  "ascii_digit c \<longleftrightarrow> 48 \<le> c \<and> c \<le> 57"

definition is_env_assignment :: "ustr \<Rightarrow> bool" where
  "is_env_assignment tok \<longleftrightarrow>
     61 \<in> set tok \<and>
     (let name = takeWhile (\<lambda>c. c \<noteq> 61) tok in
       name \<noteq> [] \<and> (ascii_alpha (hd name) \<or> hd name = 95) \<and>
       list_all (\<lambda>c. ascii_alpha c \<or> ascii_digit c \<or> c = 95) name)"

section \<open>Quotes\<close>

text \<open>The first argument is the open quote.\<close>

fun decode_quoted :: "nat option \<Rightarrow> ustr \<Rightarrow> ustr option" where
  "decode_quoted q [] = (if q = None then Some [] else None)"
| "decode_quoted q (c # cs) =
     (if q = None \<and> (c = 39 \<or> c = 34) then decode_quoted (Some c) cs
      else if q = Some c then decode_quoted None cs
      else if q = None \<and> c = 92 then
        (case cs of [] \<Rightarrow> None | n # cs' \<Rightarrow> map_option ((#) n) (decode_quoted q cs'))
      else if q = Some 34 \<and> c = 92 then
        (case cs of
           [] \<Rightarrow> None
         | n # cs' \<Rightarrow>
             map_option ((@) (if n = 36 \<or> n = 96 \<or> n = 34 \<or> n = 92 \<or> n = 10 then [n] else [92, n]))
               (decode_quoted q cs'))
      else map_option ((#) c) (decode_quoted q cs))"

definition decode_shell_literal_spelling :: "ustr \<Rightarrow> ustr option" where
  "decode_shell_literal_spelling raw = decode_quoted None raw"

definition decode_env_option_token :: "ustr \<Rightarrow> ustr" where
  "decode_env_option_token raw =
     (if \<not> (39 \<in> set raw \<or> 34 \<in> set raw) then raw
      else case decode_shell_literal_spelling raw of Some d \<Rightarrow> d | None \<Rightarrow> raw)"

definition is_high_confidence_env_s_payload :: "ustr \<Rightarrow> bool" where
  "is_high_confidence_env_s_payload s \<longleftrightarrow>
     s \<noteq> [] \<and> 0 \<notin> set s \<and> list_all (\<lambda>c. c \<notin> {39, 34, 92, 35, 96, 36, 10, 13}) s"

definition take_high_confidence_payload :: "ustr \<Rightarrow> ustr option" where
  "take_high_confidence_payload raw = (if is_high_confidence_env_s_payload raw then Some raw else None)"

section \<open>The options of env\<close>

datatype env_short =
  SplitStringNext
| SplitStringGlued ustr
| SplitStringDetect
| NoArg
| ArgNeedNext nat
| ArgGlued nat
| Uncertain

fun env_short_body :: "ustr \<Rightarrow> env_short" where
  "env_short_body [] = NoArg"
| "env_short_body (c # cs) =
     (if c = 105 \<or> c = 118 \<or> c = 48 then env_short_body cs
      else if c = 83 then SplitStringDetect
      else if c = 117 \<or> c = 67 \<or> c = 80 \<or> c = 97 then (if cs \<noteq> [] then ArgGlued c else ArgNeedNext c)
      else Uncertain)"

definition classify_env_short :: "ustr \<Rightarrow> env_short" where
  "classify_env_short tok =
     (if \<not> dashed tok \<or> double_dashed tok \<or> tok = u ''-'' then Uncertain
      else let body = tl tok in
        if body = [] then Uncertain
        else if hd body = 83 then (if tl body = [] then SplitStringNext else SplitStringGlued (tl body))
        else env_short_body body)"

record env_scan_result =
  es_chdir :: "ustr option"
  es_split :: bool
  es_uncertain :: bool
  es_script :: "ustr option"
  es_rest :: words

abbreviation scan_end :: "ustr option \<Rightarrow> words \<Rightarrow> env_scan_result" where
  "scan_end d ws \<equiv> \<lparr>es_chdir = d, es_split = False, es_uncertain = False, es_script = None, es_rest = ws\<rparr>"

abbreviation scan_uncertain :: "ustr option \<Rightarrow> words \<Rightarrow> env_scan_result" where
  "scan_uncertain d ws \<equiv> \<lparr>es_chdir = d, es_split = False, es_uncertain = True, es_script = None, es_rest = ws\<rparr>"

abbreviation scan_split :: "ustr option \<Rightarrow> ustr option \<Rightarrow> words \<Rightarrow> env_scan_result" where
  "scan_split d s ws \<equiv> \<lparr>es_chdir = d, es_split = True, es_uncertain = False, es_script = s, es_rest = ws\<rparr>"

definition next_payload :: "words \<Rightarrow> ustr option" where
  "next_payload ws = (case ws of [] \<Rightarrow> None | raw # _ \<Rightarrow> take_high_confidence_payload raw)"

definition glued_payload :: "ustr \<Rightarrow> ustr \<Rightarrow> ustr option" where
  "glued_payload tok payload =
     take_high_confidence_payload
       (case strip_pre (u ''--split-string='') (decode_env_option_token tok) of Some p \<Rightarrow> p | None \<Rightarrow> payload)"

definition glued_chdir :: "ustr \<Rightarrow> ustr" where
  "glued_chdir tok = (case strip_pre (u ''-C'') tok of Some d \<Rightarrow> d | None \<Rightarrow> [])"

text \<open>One turn of the loop, on the current word and those behind it, with the directory found so far:
  it ends the scan or goes on behind the words it has used.\<close>

datatype scan_turn = Halt env_scan_result | Next "ustr option" words

definition with_operand :: "ustr option \<Rightarrow> ustr \<Rightarrow> words \<Rightarrow> (ustr \<Rightarrow> ustr option) \<Rightarrow> scan_turn" where
  "with_operand d tok ws f =
     (case ws of [] \<Rightarrow> Halt (scan_uncertain d (tok # ws)) | v # ws' \<Rightarrow> Next (f v) ws')"

definition long_turn :: "ustr option \<Rightarrow> ustr \<Rightarrow> words \<Rightarrow> scan_turn" where
  "long_turn d tok ws =
     (if tok = u ''--chdir'' then with_operand d tok ws Some
      else if has_pre (u ''--chdir='') tok then Next (strip_pre (u ''--chdir='') tok) ws
      else if tok = u ''--unset'' \<or> tok = u ''--path'' \<or> tok = u ''--argv0'' then with_operand d tok ws (\<lambda>_. d)
      else if has_pre (u ''--unset='') tok \<or> has_pre (u ''--path='') tok \<or> has_pre (u ''--argv0='') tok then Next d ws
      else if tok \<in> set (map u [''--ignore-environment'', ''--null'', ''--debug'', ''--version'', ''--help'']) then
        Next d ws
      else if tok = u ''--split-string'' then Halt (scan_split d (next_payload ws) (tok # ws))
      else (case strip_pre (u ''--split-string='') tok of
          Some payload \<Rightarrow> Halt (scan_split d (glued_payload tok payload) (tok # ws))
        | None \<Rightarrow> Halt (scan_uncertain d (tok # ws))))"

definition short_turn :: "ustr option \<Rightarrow> ustr \<Rightarrow> words \<Rightarrow> scan_turn" where
  "short_turn d tok ws =
     (case classify_env_short (decode_env_option_token tok) of
        SplitStringNext \<Rightarrow> Halt (scan_split d (next_payload ws) (tok # ws))
      | SplitStringGlued payload \<Rightarrow> Halt (scan_split d (take_high_confidence_payload payload) (tok # ws))
      | SplitStringDetect \<Rightarrow> Halt (scan_split d None (tok # ws))
      | NoArg \<Rightarrow> Next d ws
      | ArgNeedNext kind \<Rightarrow> with_operand d tok ws (\<lambda>v. if kind = 67 then Some v else d)
      | ArgGlued kind \<Rightarrow> Next (if kind = 67 then Some (glued_chdir tok) else d) ws
      | Uncertain \<Rightarrow> Halt (scan_uncertain d (tok # ws)))"

definition env_turn :: "ustr option \<Rightarrow> ustr \<Rightarrow> words \<Rightarrow> scan_turn" where
  "env_turn d tok ws =
     (if tok = u ''--'' then Halt (scan_end d ws)
      else if tok = u ''-'' then Next d ws
      else if \<not> dashed tok then
        (if is_env_assignment tok then Next d ws else Halt (scan_end d (tok # ws)))
      else if double_dashed tok then long_turn d tok ws
      else short_turn d tok ws)"

lemma with_operand_shorter: "with_operand d tok ws f = Next d' ws' \<Longrightarrow> length ws' \<le> length ws"
  by (auto simp: with_operand_def split: list.splits)

lemma env_turn_shorter: "env_turn d tok ws = Next d' ws' \<Longrightarrow> length ws' \<le> length ws"
  unfolding env_turn_def long_turn_def short_turn_def
  by (auto simp del: list.map set_map split: if_splits option.splits env_short.splits dest: with_operand_shorter)

function env_scan_from :: "ustr option \<Rightarrow> words \<Rightarrow> env_scan_result" where
  "env_scan_from d [] = scan_end d []"
| "env_scan_from d (tok # ws) =
     (case env_turn d tok ws of Halt r \<Rightarrow> r | Next d' ws' \<Rightarrow> env_scan_from d' ws')"
  by pat_completeness auto
termination
  by (relation "measure (length \<circ> snd)") (auto simp: less_Suc_eq_le dest: env_turn_shorter)

definition env_scan :: "words \<Rightarrow> env_scan_result" where
  "env_scan cmd = env_scan_from None (tl cmd)"

definition env_split_string_script :: "words \<Rightarrow> ustr option" where
  "env_split_string_script ws =
     (if head_name ws \<noteq> Some (u ''env'') then None
      else if \<not> es_split (env_scan ws) then None
      else es_script (env_scan ws))"

section \<open>Wrappers\<close>

text \<open>Skipping options: those in the first argument take the next word with them.\<close>

fun skip_options :: "ustr list \<Rightarrow> words \<Rightarrow> words" where
  "skip_options valued [] = []"
| "skip_options valued [w] = (if dashed w then [] else [w])"
| "skip_options valued (w # v # ws) =
     (if \<not> dashed w then w # v # ws
      else if w \<in> set valued then skip_options valued ws
      else skip_options valued (v # ws))"

definition nonempty_words :: "words \<Rightarrow> words option" where
  "nonempty_words ws = (if ws = [] then None else Some ws)"

definition strip_wrapper_command :: "words \<Rightarrow> words option" where
  "strip_wrapper_command cmd =
     (case head_name cmd of
        None \<Rightarrow> None
      | Some h \<Rightarrow>
          let args = tl cmd in
          if h = u ''timeout'' then
            nonempty_words (tl (skip_options (map u [''-k'', ''-s'', ''--kill-after'', ''--signal'']) args))
          else if h = u ''nice'' then nonempty_words (skip_options (map u [''-n'', ''--adjustment'']) args)
          else if h = u ''ionice'' then
            nonempty_words (skip_options (map u [''-c'', ''-n'', ''-p'', ''-P'', ''-u'', ''--class'',
              ''--classdata'', ''--pid'', ''--pgid'', ''--uid'']) args)
          else if h = u ''chrt'' then nonempty_words (tl (skip_options [] args))
          else if h = u ''stdbuf'' then nonempty_words (skip_options (map u [''-i'', ''-o'', ''-e'']) args)
          else if h = u ''env'' then
            (let scan = env_scan cmd in
             if es_split scan \<or> es_uncertain scan then None else nonempty_words (es_rest scan))
          else None)"

definition is_wrapper_command :: "words \<Rightarrow> bool" where
  "is_wrapper_command ws \<longleftrightarrow>
     head_name ws \<in> set (map (\<lambda>w. Some (u w)) [''timeout'', ''nice'', ''ionice'', ''chrt'', ''stdbuf'', ''env''])"

definition max_wrapper_depth :: nat where "max_wrapper_depth = 8"

definition max_inline_shell_depth :: nat where "max_inline_shell_depth = 8"

record wrapper_peel =
  wp_words :: words
  wp_chdir :: bool
  wp_split :: bool
  wp_uncertain :: bool
  wp_exhausted :: bool

definition note_env :: "words \<Rightarrow> wrapper_peel \<Rightarrow> wrapper_peel" where
  "note_env ws p =
     (if head_name ws = Some (u ''env'') then
        (let scan = env_scan ws in
         p\<lparr>wp_chdir := wp_chdir p \<or> es_chdir scan \<noteq> None, wp_split := wp_split p \<or> es_split scan,
           wp_uncertain := wp_uncertain p \<or> es_uncertain scan\<rparr>)
      else p)"

definition still_wrapped :: "words \<Rightarrow> bool" where
  "still_wrapped ws \<longleftrightarrow> is_wrapper_command ws \<and> strip_wrapper_command ws \<noteq> None"

fun unwrap_rounds :: "nat \<Rightarrow> wrapper_peel \<Rightarrow> wrapper_peel" where
  "unwrap_rounds 0 p = p\<lparr>wp_exhausted := still_wrapped (wp_words p)\<rparr>"
| "unwrap_rounds (Suc n) p =
     (let p1 = note_env (wp_words p) p in
      case strip_wrapper_command (wp_words p) of
        Some inner \<Rightarrow> unwrap_rounds n (p1\<lparr>wp_words := inner\<rparr>)
      | None \<Rightarrow> p1\<lparr>wp_exhausted := False\<rparr>)"

definition unwrap_wrappers_checked :: "words \<Rightarrow> wrapper_peel" where
  "unwrap_wrappers_checked ws =
     unwrap_rounds max_wrapper_depth
       \<lparr>wp_words = ws, wp_chdir = False, wp_split = False, wp_uncertain = False, wp_exhausted = False\<rparr>"

definition unwrap_wrappers :: "words \<Rightarrow> words" where
  "unwrap_wrappers ws = wp_words (unwrap_wrappers_checked ws)"

section \<open>Shell prefixes\<close>

datatype transparent_strip = NotPrefix | Peeled words | Ambiguous

definition peeled :: "words \<Rightarrow> transparent_strip" where
  "peeled ws = (if ws = [] then NotPrefix else Peeled ws)"

fun exec_options :: "words \<Rightarrow> transparent_strip" where
  "exec_options [] = NotPrefix"
| "exec_options (tok # ws) =
     (if tok = u ''--'' then peeled ws
      else if tok = u ''-'' \<or> \<not> dashed tok then Peeled (tok # ws)
      else if tok \<in> set (map u [''-c'', ''-l'', ''-cl'', ''-lc'']) then exec_options ws
      else if tok = u ''-a'' then
        (case ws of
           [] \<Rightarrow> Ambiguous
         | v # ws' \<Rightarrow> if v \<noteq> [0] \<and> v \<noteq> [] then exec_options ws' else Ambiguous)
      else if has_pre (u ''-a'') tok then (if drop 2 tok = [0] then Ambiguous else exec_options ws)
      else if \<not> double_dashed tok \<and> list_all (\<lambda>c. c = 99 \<or> c = 108) (tl tok) then exec_options ws
      else Ambiguous)"

fun command_options :: "words \<Rightarrow> transparent_strip" where
  "command_options [] = NotPrefix"
| "command_options (tok # ws) =
     (if tok = u ''--'' then peeled ws
      else if tok = u ''-'' \<or> \<not> dashed tok then Peeled (tok # ws)
      else if tok \<in> set (map u [''-v'', ''-V'', ''--help'', ''--version'']) \<or>
          \<not> double_dashed tok \<and> list_ex (\<lambda>c. c = 118 \<or> c = 86) (tl tok) then NotPrefix
      else if tok = u ''-p'' \<or> \<not> double_dashed tok \<and> list_all (\<lambda>c. c = 112) (tl tok) then command_options ws
      else Ambiguous)"

definition builtin_options :: "words \<Rightarrow> transparent_strip" where
  "builtin_options ws =
     (case ws of
        [] \<Rightarrow> NotPrefix
      | tok # _ \<Rightarrow> if dashed tok \<and> tok \<noteq> u ''-'' then Ambiguous else Peeled ws)"

definition strip_transparent_prefix :: "words \<Rightarrow> transparent_strip" where
  "strip_transparent_prefix cmd =
     (case cmd of
        [] \<Rightarrow> NotPrefix
      | h # args \<Rightarrow>
          if h = [] \<or> h = [0] then NotPrefix
          else if base_name h = u ''exec'' then exec_options args
          else if base_name h = u ''command'' then command_options args
          else if base_name h = u ''builtin'' then builtin_options args
          else NotPrefix)"

definition max_transparent_prefix_depth :: nat where "max_transparent_prefix_depth = 8"

definition max_normalize_rounds :: nat where
  "max_normalize_rounds = max_wrapper_depth + max_transparent_prefix_depth"

text \<open>\<open>None\<close> is an ambiguous prefix.\<close>

fun peel_rounds :: "nat \<Rightarrow> words \<Rightarrow> words option" where
  "peel_rounds 0 ws = (case strip_transparent_prefix ws of NotPrefix \<Rightarrow> Some ws | _ \<Rightarrow> None)"
| "peel_rounds (Suc n) ws =
     (case strip_transparent_prefix ws of
        NotPrefix \<Rightarrow> Some ws
      | Peeled inner \<Rightarrow> peel_rounds n inner
      | Ambiguous \<Rightarrow> None)"

definition peel_transparent_prefixes :: "words \<Rightarrow> words option" where
  "peel_transparent_prefixes ws = peel_rounds max_transparent_prefix_depth ws"

section \<open>Normalization\<close>

record normalized =
  nc_words :: words
  nc_chdir :: bool
  nc_split :: bool
  nc_uncertain :: bool
  nc_exhausted :: bool
  nc_ambiguous :: bool

definition note_peel :: "wrapper_peel \<Rightarrow> normalized \<Rightarrow> normalized" where
  "note_peel p n =
     n\<lparr>nc_words := wp_words p, nc_chdir := nc_chdir n \<or> wp_chdir p, nc_split := nc_split n \<or> wp_split p,
       nc_uncertain := nc_uncertain n \<or> wp_uncertain p, nc_exhausted := nc_exhausted n \<or> wp_exhausted p\<rparr>"

text \<open>A round that leaves the length unchanged has peeled nothing, as every peel is a suffix.\<close>

fun normalize_rounds :: "nat \<Rightarrow> normalized \<Rightarrow> normalized" where
  "normalize_rounds 0 n = n"
| "normalize_rounds (Suc k) n =
     (let n1 = note_peel (unwrap_wrappers_checked (nc_words n)) n in
      if nc_split n1 \<or> nc_uncertain n1 then n1
      else case peel_transparent_prefixes (nc_words n1) of
        None \<Rightarrow> n1\<lparr>nc_ambiguous := True\<rparr>
      | Some inner \<Rightarrow>
          (let n2 = n1\<lparr>nc_words := inner\<rparr> in
           if length inner = length (nc_words n) then n2 else normalize_rounds k n2))"

definition normalize_command_words :: "words \<Rightarrow> normalized" where
  "normalize_command_words ws =
     (let n = normalize_rounds max_normalize_rounds
                \<lparr>nc_words = ws, nc_chdir = False, nc_split = False, nc_uncertain = False,
                 nc_exhausted = False, nc_ambiguous = False\<rparr>
      in if \<not> nc_ambiguous n \<and> \<not> nc_split n \<and> \<not> nc_uncertain n \<and>
           (still_wrapped (nc_words n) \<or> strip_transparent_prefix (nc_words n) \<noteq> NotPrefix)
         then n\<lparr>nc_exhausted := True\<rparr> else n)"

end
