(* ===== verification/Path_Text.thy ===== *)
theory Path_Text
  imports Unicode_Text
begin

text \<open>
  Paths as text with the Unix rules of \<open>std::path\<close>: components, joining, and the lexical normalization
  of \<open>xai-grok-paths/src/lib.rs\<close>.
\<close>

definition is_absolute :: "ustr \<Rightarrow> bool" where
  "is_absolute p \<longleftrightarrow> p \<noteq> [] \<and> hd p = 47"

definition join_path :: "ustr \<Rightarrow> ustr \<Rightarrow> ustr" where
  "join_path base p =
     (if p \<noteq> [] \<and> hd p = 47 then p
      else if base = [] \<or> last base = 47 then base @ p
      else base @ [47] @ p)"

datatype path_comp = Root_Dir | Cur_Dir | Parent_Dir | Normal ustr

definition comp_of :: "ustr \<Rightarrow> path_comp" where
  "comp_of s = (if s = [46, 46] then Parent_Dir else Normal s)"

text \<open>Empty components and dots are dropped, except for a dot that starts a relative path.\<close>

definition components :: "ustr \<Rightarrow> path_comp list" where
  "components p =
     (let parts = split_on 47 p in
      (if is_absolute p then [Root_Dir] else if hd parts = [46] then [Cur_Dir] else []) @
      map comp_of (filter (\<lambda>s. s \<noteq> [] \<and> s \<noteq> [46]) parts))"

fun comp_text :: "path_comp \<Rightarrow> ustr" where
  "comp_text Root_Dir = []"
| "comp_text Cur_Dir = [46]"
| "comp_text Parent_Dir = [46, 46]"
| "comp_text (Normal s) = s"

definition path_text :: "path_comp list \<Rightarrow> ustr" where
  "path_text cs = (if cs = [Root_Dir] then [47] else join [47] (map comp_text cs))"

text \<open>The components kept so far, last first.\<close>

fun lexical_step :: "path_comp \<Rightarrow> path_comp list \<Rightarrow> path_comp list" where
  "lexical_step Cur_Dir kept = kept"
| "lexical_step Parent_Dir (Normal s # kept) = kept"
| "lexical_step Parent_Dir (Root_Dir # kept) = Root_Dir # kept"
| "lexical_step c kept = c # kept"

definition normalize_components :: "path_comp list \<Rightarrow> path_comp list" where
  "normalize_components cs = rev (fold lexical_step cs [])"

definition normalize_lexically :: "ustr \<Rightarrow> ustr" where
  "normalize_lexically p =
     (let cs = normalize_components (components p) in if cs = [] then [46] else path_text cs)"

definition strip_path_prefix :: "ustr \<Rightarrow> ustr \<Rightarrow> path_comp list option" where
  "strip_path_prefix base p =
     (let bs = components base; cs = components p in
      if take (length bs) cs = bs then Some (drop (length bs) cs) else None)"

section \<open>Normalized paths\<close>

text \<open>A normalized path is absolute without dots, or climbs first and then descends.\<close>

definition lexical_ok :: "path_comp list \<Rightarrow> bool" where
  "lexical_ok cs \<longleftrightarrow>
     (\<exists>names. cs = Root_Dir # map Normal names) \<or>
     (\<exists>names n. cs = replicate n Parent_Dir @ map Normal names)"

definition root_first :: "path_comp list \<Rightarrow> bool" where
  "root_first cs \<longleftrightarrow> Root_Dir \<notin> set (tl cs)"

lemma components_root_first: "root_first (components p)"
proof -
  have no_root: "Root_Dir \<notin> set (map comp_of ss)" for ss by (auto simp: comp_of_def)
  then have "Root_Dir \<notin> set (tl (map comp_of ss))" for ss by (metis list.set_sel(2) list.sel(2))
  moreover have "Root_Dir \<notin> comp_of ` S" for S by (auto simp: comp_of_def)
  ultimately show ?thesis by (simp add: root_first_def components_def Let_def)
qed

text \<open>The invariant of the loop, on the components kept last first.\<close>

definition kept_ok :: "path_comp list \<Rightarrow> bool" where
  "kept_ok kept \<longleftrightarrow> lexical_ok (rev kept)"

lemma kept_okI: "kept_ok (map Normal names @ [Root_Dir])" "kept_ok (map Normal names @ replicate n Parent_Dir)"
  by (auto simp: kept_ok_def lexical_ok_def rev_map)

lemma kept_okE:
  assumes "kept_ok kept"
  obtains names where "kept = map Normal names @ [Root_Dir]"
  | names n where "kept = map Normal names @ replicate n Parent_Dir"
proof -
  have "kept = rev cs \<longleftrightarrow> rev kept = cs" for cs by auto
  then show ?thesis using assms that unfolding kept_ok_def lexical_ok_def
    by (metis rev.simps(2) rev_append rev_map rev_replicate)
qed

lemma kept_ok_step:
  assumes "kept_ok kept" "c \<noteq> Root_Dir"
  shows "kept_ok (lexical_step c kept)"
  using assms(1)
proof (cases rule: kept_okE)
  case (1 names)
  show ?thesis
  proof (cases c)
    case (Normal s)
    then show ?thesis using 1 kept_okI(1)[of "s # names"] by simp
  next
    case Parent_Dir
    then show ?thesis using 1 kept_okI(1)[of "[]"] kept_okI(1)[of "tl names"] by (cases names) simp_all
  qed (use 1 assms kept_okI(1) in simp_all)
next
  case (2 names n)
  show ?thesis
  proof (cases c)
    case (Normal s)
    then show ?thesis using 2 kept_okI(2)[of "s # names" n] by simp
  next
    case Parent_Dir
    then show ?thesis using 2 kept_okI(2)[of "[]" "Suc n"] kept_okI(2)[of "tl names" n]
      by (cases names; cases n) simp_all
  qed (use 2 assms kept_okI(2) in simp_all)
qed

lemma kept_ok_fold: "kept_ok kept \<Longrightarrow> Root_Dir \<notin> set cs \<Longrightarrow> kept_ok (fold lexical_step cs kept)"
proof (induction cs arbitrary: kept)
  case (Cons c cs)
  then show ?case using kept_ok_step[of kept c] by force
qed simp

lemma normalize_lexical_ok: "lexical_ok (normalize_components (components p))"
proof (cases "components p")
  case Nil
  then show ?thesis by (simp add: normalize_components_def lexical_ok_def)
next
  case (Cons c rest)
  have "kept_ok []" "kept_ok [Root_Dir]" using kept_okI(2)[of "[]" 0] kept_okI(1)[of "[]"] by simp_all
  then have "kept_ok (lexical_step c [])" using kept_ok_step[of "[]" c] by (cases c) simp_all
  moreover have "Root_Dir \<notin> set rest" using components_root_first[of p] Cons by (simp add: root_first_def)
  ultimately have "kept_ok (fold lexical_step (components p) [])" using kept_ok_fold Cons by simp
  then show ?thesis by (simp add: normalize_components_def kept_ok_def)
qed

end
