(* ===== verification/Exec_Risk.thy ===== *)
theory Exec_Risk
  imports Shell_Words Path_Text
begin

text \<open>
  Execution risk of the words of a command (\<open>permission/exec_risk.rs\<close>): options of \<open>sort\<close> and \<open>git\<close> that
  run programs, the read-only \<open>git\<close> queries, and the directories whose \<open>git\<close> configuration a script
  would use. Reading that configuration is the crate \<open>git2\<close> and stays a parameter of its users.
\<close>

section \<open>Normalization\<close>

text \<open>\<open>None\<close> fails closed. Slices of one vector are compared by length, as each is a suffix of the one
  before.\<close>

fun exec_rounds :: "nat \<Rightarrow> words \<Rightarrow> words option" where
  "exec_rounds 0 ws = None"
| "exec_rounds (Suc n) ws =
     (let p = unwrap_wrappers_checked ws in
      if wp_exhausted p \<or> wp_split p \<or> wp_chdir p then None
      else case peel_transparent_prefixes (wp_words p) of
          None \<Rightarrow> None
        | Some inner \<Rightarrow>
            if length inner = length ws then Some inner
            else if length inner = length (wp_words p) then Some inner
            else exec_rounds n inner)"

definition normalize_for_exec_risk :: "words \<Rightarrow> words option" where
  "normalize_for_exec_risk ws = exec_rounds max_normalize_rounds ws"

section \<open>Names and options\<close>

definition ascii_lower :: "nat \<Rightarrow> nat" where
  "ascii_lower c = (if 65 \<le> c \<and> c \<le> 90 then c + 32 else c)"

definition strip_exe :: "ustr \<Rightarrow> ustr" where
  "strip_exe name = (if ends_in (u ''.exe'') name then take (length name - 4) name else name)"

definition normalized_token_basename :: "ustr \<Rightarrow> ustr" where
  "normalized_token_basename w = strip_exe (map ascii_lower (base_name w))"

definition normalized_program_name :: "words \<Rightarrow> ustr option" where
  "normalized_program_name ws =
     (case ws of
        [] \<Rightarrow> None
      | w # _ \<Rightarrow> if base_name w = [] then None else Some (normalized_token_basename w))"

definition is_git_program :: "words \<Rightarrow> bool" where
  "is_git_program ws \<longleftrightarrow> normalized_program_name ws = Some (u ''git'')"

definition is_sort_program :: "words \<Rightarrow> bool" where
  "is_sort_program ws \<longleftrightarrow> normalized_program_name ws = Some (u ''sort'')"

text \<open>The part of a word before its first equals sign.\<close>

definition option_name :: "ustr \<Rightarrow> ustr" where
  "option_name w = takeWhile (\<lambda>c. c \<noteq> 61) w"

definition is_accepted_long_option_prefix :: "ustr \<Rightarrow> ustr \<Rightarrow> nat \<Rightarrow> bool" where
  "is_accepted_long_option_prefix flag full min_len \<longleftrightarrow>
     double_dashed flag \<and> min_len \<le> length flag \<and> has_pre flag full \<and>
     list_all (\<lambda>c. ascii_alpha c \<or> ascii_digit c \<or> c = 45) flag"

fun sort_flags :: "words \<Rightarrow> bool" where
  "sort_flags [] = False"
| "sort_flags (w # ws) =
     (if w = u ''--'' then False
      else if w = u ''--compress-program'' \<or> has_pre (u ''--compress-program='') w then True
      else if is_accepted_long_option_prefix (option_name w) (u ''--compress-program'') 4 then True
      else sort_flags ws)"

definition sort_has_compress_program_flag :: "words \<Rightarrow> bool" where
  "sort_has_compress_program_flag ws = sort_flags (tl ws)"

section \<open>Global options of git\<close>

definition is_git_config_env_flag :: "ustr \<Rightarrow> bool" where
  "is_git_config_env_flag tok \<longleftrightarrow>
     tok = u ''--config-env'' \<or> has_pre (u ''--config-env='') tok \<or>
     is_accepted_long_option_prefix (option_name tok) (u ''--config-env'') 4"

definition is_git_repo_retarget_flag :: "ustr \<Rightarrow> bool" where
  "is_git_repo_retarget_flag tok \<longleftrightarrow>
     tok = u ''--git-dir'' \<or> has_pre (u ''--git-dir='') tok \<or>
     tok = u ''--work-tree'' \<or> has_pre (u ''--work-tree='') tok \<or>
     is_accepted_long_option_prefix (option_name tok) (u ''--git-dir'') 4 \<or>
     is_accepted_long_option_prefix (option_name tok) (u ''--work-tree'') 4"

definition is_attached_git_config_c :: "ustr \<Rightarrow> bool" where
  "is_attached_git_config_c tok \<longleftrightarrow> has_pre (u ''-c'') tok \<and> 2 < length tok \<and> \<not> double_dashed tok"

definition attached_git_c_path :: "ustr \<Rightarrow> ustr option" where
  "attached_git_c_path tok =
     (case strip_pre (u ''-C'') tok of
        Some rest \<Rightarrow> if rest \<noteq> [] \<and> \<not> double_dashed tok then Some rest else None
      | None \<Rightarrow> None)"

definition valued_git_globals :: "ustr list" where
  "valued_git_globals = map u [''-C'', ''-c'', ''--git-dir'', ''--work-tree'', ''--namespace'',
     ''--super-prefix'', ''--exec-path'', ''--list-cmds'', ''--attr-source'', ''--config-env'']"

definition valued_git_prefixes :: "(ustr \<times> nat) list" where
  "valued_git_prefixes =
     [(u ''--config-env'', 4), (u ''--git-dir'', 4), (u ''--work-tree'', 4), (u ''--namespace'', 7),
      (u ''--super-prefix'', 8), (u ''--exec-path'', 7), (u ''--list-cmds'', 7), (u ''--attr-source'', 8)]"

definition git_global_option_takes_value :: "ustr \<Rightarrow> bool" where
  "git_global_option_takes_value tok \<longleftrightarrow>
     tok \<in> set valued_git_globals \<or>
     list_ex (\<lambda>(full, n). is_accepted_long_option_prefix tok full n) valued_git_prefixes"

text \<open>The words behind a global option, without its operand.\<close>

definition behind_global :: "ustr \<Rightarrow> words \<Rightarrow> words" where
  "behind_global tok rest =
     (if 61 \<notin> set tok \<and> git_global_option_takes_value tok \<and>
         (case rest of [] \<Rightarrow> False | n # _ \<Rightarrow> \<not> dashed n \<or> n = u ''-'')
      then tl rest else rest)"

lemma behind_global_shorter: "length (behind_global tok rest) \<le> length rest"
  by (simp add: behind_global_def)

function git_globals :: "words \<Rightarrow> bool" where
  "git_globals [] = False"
| "git_globals (tok # rest) =
     (if tok = u ''--'' then False
      else if \<not> dashed tok \<or> tok = u ''-'' then False
      else if tok = u ''-c'' \<or> is_attached_git_config_c tok \<or> is_git_config_env_flag tok \<or>
          is_git_repo_retarget_flag tok then True
      else if attached_git_c_path tok \<noteq> None then git_globals rest
      else git_globals (behind_global tok rest))"
  by pat_completeness auto
termination
  by (relation "measure length") (auto simp: less_Suc_eq_le behind_global_shorter)

definition git_has_exec_risk_global :: "words \<Rightarrow> bool" where
  "git_has_exec_risk_global ws = git_globals (tl ws)"

definition segment_has_exec_risk_flag :: "words \<Rightarrow> bool" where
  "segment_has_exec_risk_flag ws =
     (if is_sort_program ws then sort_has_compress_program_flag ws
      else if is_git_program ws then git_has_exec_risk_global ws
      else False)"

record segment_facts =
  sf_exec_risk :: bool
  sf_has_git :: bool

definition segment_exec_facts :: "words \<Rightarrow> segment_facts" where
  "segment_exec_facts ws =
     (case normalize_for_exec_risk ws of
        None \<Rightarrow> \<lparr>sf_exec_risk = True, sf_has_git = False\<rparr>
      | Some inner \<Rightarrow> \<lparr>sf_exec_risk = segment_has_exec_risk_flag inner, sf_has_git = is_git_program inner\<rparr>)"

section \<open>Read-only queries of git\<close>

definition safe_git_subcommands :: "ustr list" where
  "safe_git_subcommands = map u [''status'', ''branch'', ''log'', ''diff'', ''ls-files'', ''show'',
     ''rev-parse'', ''blame'', ''grep'', ''describe'', ''merge-base'', ''check-ignore'', ''check-attr'',
     ''cat-file'', ''ls-tree'', ''show-ref'', ''for-each-ref'', ''rev-list'', ''name-rev'',
     ''count-objects'', ''shortlog'']"

definition git_query_unsafe_options :: "ustr list" where
  "git_query_unsafe_options =
     map u [''--filters'', ''--textconv'', ''--output'', ''--ext-diff'', ''--open-files-in-pager'']"

definition git_query_option_is_unsafe :: "ustr \<Rightarrow> bool" where
  "git_query_option_is_unsafe w \<longleftrightarrow>
     2 < length (option_name w) \<and> list_ex (has_pre (option_name w)) git_query_unsafe_options"

fun verb_index :: "nat \<Rightarrow> words \<Rightarrow> nat option" where
  "verb_index i [] = None"
| "verb_index i [tok] =
     (if tok = u ''-'' \<or> tok = u ''--'' then None else if \<not> dashed tok then Some i else None)"
| "verb_index i (tok # v # ws) =
     (if tok = u ''-'' \<or> tok = u ''--'' then None
      else if \<not> dashed tok then Some i
      else if tok = u ''-C'' then verb_index (i + 2) ws
      else if attached_git_c_path tok \<noteq> None \<or> tok = u ''--no-pager'' \<or> tok = u ''-P''
      then verb_index (i + 1) (v # ws)
      else None)"

definition git_safe_query_verb_index :: "words \<Rightarrow> nat option" where
  "git_safe_query_verb_index ws = verb_index 1 (tl ws)"

definition git_words_have_unsafe_query_option :: "words \<Rightarrow> bool" where
  "git_words_have_unsafe_query_option ws \<longleftrightarrow>
     ws \<noteq> [] \<and> hd ws = u ''git'' \<and>
     (list_ex git_query_option_is_unsafe (tl ws) \<or>
      (case git_safe_query_verb_index ws of
         None \<Rightarrow> False
       | Some i \<Rightarrow> ws ! i = u ''grep'' \<and> list_ex (has_pre (u ''-O'')) (tl ws)))"

definition git_words_are_read_only_query :: "words \<Rightarrow> bool" where
  "git_words_are_read_only_query ws =
     (if ws = [] \<or> hd ws \<noteq> u ''git'' then False
      else if git_has_exec_risk_global ws then False
      else case git_safe_query_verb_index ws of
          None \<Rightarrow> False
        | Some i \<Rightarrow> ws ! i \<in> set safe_git_subcommands \<and> \<not> git_words_have_unsafe_query_option ws)"

section \<open>Where git would run\<close>

definition is_static_path_operand :: "ustr \<Rightarrow> bool" where
  "is_static_path_operand p \<longleftrightarrow>
     p \<noteq> [] \<and> p \<noteq> u ''-'' \<and> \<not> dashed p \<and> 36 \<notin> set p \<and> 96 \<notin> set p"

fun chdir_operand :: "ustr option \<Rightarrow> words \<Rightarrow> ustr option" where
  "chdir_operand t [] = t"
| "chdir_operand t (tok # rest) =
     (if tok = u ''--'' then (case rest of [] \<Rightarrow> None | v # _ \<Rightarrow> Some v)
      else if dashed tok then None
      else if t \<noteq> None then None
      else chdir_operand (Some tok) rest)"

definition apply_literal_chdir :: "ustr \<Rightarrow> words \<Rightarrow> ustr option" where
  "apply_literal_chdir cwd ws =
     (case chdir_operand None (tl ws) of
        None \<Rightarrow> None
      | Some t \<Rightarrow> if is_static_path_operand t then Some (join_path cwd t) else None)"

text \<open>One global option of \<open>git\<close>: \<open>None\<close> fails closed, otherwise the new directory and the words left.\<close>

definition cwd_turn :: "ustr \<Rightarrow> ustr \<Rightarrow> words \<Rightarrow> (ustr \<times> words) option" where
  "cwd_turn cwd tok rest =
     (if is_git_repo_retarget_flag tok then None
      else if tok = u ''-C'' then
        (case rest of
           [] \<Rightarrow> None
         | p # rest' \<Rightarrow> if is_static_path_operand p then Some (join_path cwd p, rest') else None)
      else case attached_git_c_path tok of
          Some p \<Rightarrow> if is_static_path_operand p then Some (join_path cwd p, rest) else None
        | None \<Rightarrow> Some (cwd, behind_global tok rest))"

lemma cwd_turn_shorter: "cwd_turn cwd tok rest = Some (d, ws) \<Longrightarrow> length ws \<le> length rest"
  using behind_global_shorter[of tok rest]
  by (auto simp: cwd_turn_def split: if_splits list.splits option.splits)

function effective_cwd :: "ustr \<Rightarrow> words \<Rightarrow> ustr option" where
  "effective_cwd cwd [] = Some cwd"
| "effective_cwd cwd (tok # rest) =
     (if tok = u ''--'' \<or> \<not> dashed tok \<or> tok = u ''-'' then Some cwd
      else case cwd_turn cwd tok rest of
          None \<Rightarrow> None
        | Some (d, ws) \<Rightarrow> effective_cwd d ws)"
  by pat_completeness auto
termination
  by (relation "measure (length \<circ> snd)") (auto simp: less_Suc_eq_le dest: cwd_turn_shorter)

definition git_effective_cwd :: "words \<Rightarrow> ustr \<Rightarrow> ustr option" where
  "git_effective_cwd ws cwd = effective_cwd cwd (tl ws)"

text \<open>The directories to check; \<open>None\<close> fails closed.\<close>

fun ambient_dirs :: "ustr \<Rightarrow> words list \<Rightarrow> ustr list option" where
  "ambient_dirs cwd [] = Some []"
| "ambient_dirs cwd (raw # raws) =
     (case normalize_for_exec_risk raw of
        None \<Rightarrow> None
      | Some ws \<Rightarrow>
          (let name = normalized_program_name ws in
           if name = Some (u ''cd'') \<or> name = Some (u ''pushd'') then
             (case apply_literal_chdir cwd ws of None \<Rightarrow> None | Some next \<Rightarrow> ambient_dirs next raws)
           else if name = Some (u ''popd'') then None
           else if name = Some (u ''git'') then
             (case git_effective_cwd ws cwd of
                None \<Rightarrow> None
              | Some d \<Rightarrow> map_option ((#) d) (ambient_dirs cwd raws))
           else ambient_dirs cwd raws))"

definition ambient_scan_plan_from_segments :: "words list \<Rightarrow> ustr \<Rightarrow> ustr list option" where
  "ambient_scan_plan_from_segments raws cwd =
     (case ambient_dirs cwd raws of None \<Rightarrow> None | Some dirs \<Rightarrow> if dirs = [] then None else Some dirs)"

text \<open>The first argument says whether the configuration found from a directory may run programs.\<close>

definition ambient_exec_risk_from_plan :: "(ustr \<Rightarrow> bool) \<Rightarrow> ustr list option \<Rightarrow> bool" where
  "ambient_exec_risk_from_plan config_risk plan =
     (case plan of None \<Rightarrow> True | Some dirs \<Rightarrow> list_ex config_risk dirs)"

section \<open>Scripts that are not plain\<close>

fun split_at :: "(nat \<Rightarrow> bool) \<Rightarrow> ustr \<Rightarrow> ustr list" where
  "split_at sep [] = [[]]"
| "split_at sep (c # cs) =
     (if sep c then [] # split_at sep cs
      else case split_at sep cs of t # ts \<Rightarrow> (c # t) # ts | [] \<Rightarrow> [[c]])"

definition trim_chars :: "(nat \<Rightarrow> bool) \<Rightarrow> ustr \<Rightarrow> ustr" where
  "trim_chars P s = rev (dropWhile P (rev (dropWhile P s)))"

definition script_may_invoke_git :: "ustr \<Rightarrow> bool" where
  "script_may_invoke_git cmd =
     list_ex (\<lambda>t. let s = trim_chars (\<lambda>c. c \<in> {39, 34, 96}) t in
                s \<noteq> [] \<and> normalized_token_basename s = u ''git'')
       (split_at (\<lambda>c. is_ws c \<or> c \<in> {124, 38, 59, 40, 41, 96, 10, 60, 62}) cmd)"

end
