(* ===== verification/Safe_Commands.thy ===== *)
theory Safe_Commands
  imports Exec_Risk
begin

text \<open>
  The built-in lists of \<open>permission/manager.rs\<close>: commands that run without a prompt, commands that always
  prompt, and the scope an always-allow covers by default.
\<close>

section \<open>Options that take a command off the lists\<close>

definition head_is :: "string \<Rightarrow> words \<Rightarrow> bool" where
  "head_is name ws \<longleftrightarrow> ws \<noteq> [] \<and> hd ws = u name"

definition rg_has_pre_flag :: "words \<Rightarrow> bool" where
  "rg_has_pre_flag ws \<longleftrightarrow>
     head_is ''rg'' ws \<and> list_ex (\<lambda>w. w = u ''--pre'' \<or> has_pre (u ''--pre='') w) ws"

definition kubectl_unsafe_flags :: "ustr list" where
  "kubectl_unsafe_flags = map u [''--kubeconfig'', ''--context'', ''--cluster'', ''--server'', ''-s'',
     ''--token'', ''--user'', ''--as'', ''--as-group'', ''--as-uid'', ''--as-user-extra'', ''--username'',
     ''--password'', ''--client-certificate'', ''--client-key'', ''--certificate-authority'']"

definition kubectl_has_unsafe_flag :: "words \<Rightarrow> bool" where
  "kubectl_has_unsafe_flag ws \<longleftrightarrow>
     head_is ''kubectl'' ws \<and> list_ex (\<lambda>w. option_name w \<in> set kubectl_unsafe_flags) (tl ws)"

definition ps_valued_flags :: "ustr list" where
  "ps_valued_flags = map u [''-o'', ''-O'', ''--format'', ''--sort'', ''-p'', ''-q'', ''-t'', ''-u'', ''-U'',
     ''-g'', ''-G'', ''-C'', ''-s'', ''--pid'', ''--ppid'', ''--sid'', ''--tty'', ''--user'', ''--group'',
     ''--cols'', ''--columns'', ''--width'', ''o'', ''O'']"

definition ps_env_letters :: "ustr \<Rightarrow> bool" where
  "ps_env_letters s \<longleftrightarrow>
     69 \<in> set s \<or>
     101 \<in> set s \<and> (\<not> dashed s \<or> dashed s \<and> \<not> double_dashed s \<and> (97 \<in> set s \<or> 120 \<in> set s))"

definition ends_in_format_flag :: "ustr \<Rightarrow> bool" where
  "ends_in_format_flag s \<longleftrightarrow> dashed s \<and> \<not> double_dashed s \<and> (last s = 111 \<or> last s = 79)"

text \<open>The first argument says whether the next word is an operand.\<close>

fun ps_words :: "bool \<Rightarrow> words \<Rightarrow> bool" where
  "ps_words skip [] = False"
| "ps_words True (s # ws) = ps_words False ws"
| "ps_words False (s # ws) =
     (if has_pre (u ''--format='') s \<or> has_pre (u ''--sort='') s then ps_words False ws
      else if s \<in> set ps_valued_flags then ps_words True ws
      else if has_pre (u ''-o'') s \<or> has_pre (u ''-O'') s then ps_words False ws
      else if ps_env_letters s then True
      else ps_words (ends_in_format_flag s) ws)"

definition ps_dumps_environment :: "words \<Rightarrow> bool" where
  "ps_dumps_environment ws \<longleftrightarrow> head_is ''ps'' ws \<and> ps_words False (tl ws)"

section \<open>The lists\<close>

definition command_prefix :: "ustr \<Rightarrow> ustr \<Rightarrow> bool" where
  "command_prefix cmd pat \<longleftrightarrow>
     cmd = pat \<or> has_pre pat cmd \<and> length pat < length cmd \<and> cmd ! length pat = 32"

definition is_safe_git_query_prefix :: "ustr \<Rightarrow> bool" where
  "is_safe_git_query_prefix cmd =
     (case strip_pre (u ''git '') cmd of
        None \<Rightarrow> False
      | Some rest \<Rightarrow> list_ex (command_prefix rest) safe_git_subcommands)"

definition safe_prefixes :: "ustr list" where
  "safe_prefixes = map u [''ls'', ''cat'', ''pwd'', ''date'', ''whoami'', ''hostname'', ''uptime'', ''grep'',
     ''rg'', ''kubectl get'', ''kubectl logs'', ''kubectl describe'', ''ps'', ''bin/explorer ls'', ''head'',
     ''tail'', ''wc'', ''sort'', ''uniq'', ''tr'', ''cut'']"

definition is_safe_command_words_str :: "ustr \<Rightarrow> bool" where
  "is_safe_command_words_str cmd \<longleftrightarrow>
     list_ex (command_prefix cmd) safe_prefixes \<or> is_safe_git_query_prefix cmd"

definition special_surface :: "words \<Rightarrow> bool" where
  "special_surface ws \<longleftrightarrow> rg_has_pre_flag ws \<or> kubectl_has_unsafe_flag ws \<or> ps_dumps_environment ws"

definition is_safe_command_words :: "words \<Rightarrow> bool" where
  "is_safe_command_words ws =
     (if ws = [] then False
      else if special_surface ws then False
      else if head_is ''git'' ws then git_words_are_read_only_query ws
      else is_safe_command_words_str (join [32] ws))"

definition always_safe_commands :: "ustr list" where
  "always_safe_commands = map u [''ls'', ''cat'', ''pwd'', ''date'', ''whoami'', ''hostname'', ''uptime'',
     ''ps'', ''grep'', ''rg'', ''kubectl get'', ''kubectl logs'', ''kubectl describe'', ''bin/explorer ls'']"

definition is_always_safe_command_words :: "words \<Rightarrow> bool" where
  "is_always_safe_command_words ws =
     (if ws = [] then False
      else if special_surface ws then False
      else if head_is ''git'' ws then git_words_are_read_only_query ws
      else list_ex (command_prefix (join [32] ws)) always_safe_commands)"

definition dangerous_prefixes :: "ustr list" where
  "dangerous_prefixes = map u [''rm'', ''chmod'', ''chown'', ''chgrp'', ''chattr'', ''pkill'', ''kill'',
     ''killall'', ''git push'']"

definition is_dangerous_command_words :: "words \<Rightarrow> bool" where
  "is_dangerous_command_words ws \<longleftrightarrow>
     ws \<noteq> [] \<and> list_ex (command_prefix (join [32] ws)) dangerous_prefixes"

section \<open>The default scope of an always-allow\<close>

definition default_always_allow_scope :: "words \<Rightarrow> nat" where
  "default_always_allow_scope ws =
     (if ws = [] then 0
      else if is_safe_command_words ws \<and> is_safe_command_words_str (hd ws) then 1
      else if is_safe_command_words ws \<and> 2 \<le> length ws \<and> is_safe_command_words_str (join [32] (take 2 ws))
      then 2
      else min 2 (length ws) + length (takeWhile dashed (drop 2 ws)))"

section \<open>What the lists have in common\<close>

text \<open>A prefix and the command share their first word.\<close>

definition first_word :: "ustr \<Rightarrow> ustr" where
  "first_word s = takeWhile (\<lambda>c. c \<noteq> 32) s"

lemma command_prefix_cases: "command_prefix cmd pat \<longleftrightarrow> (\<exists>rest. cmd = pat @ rest \<and> (rest = [] \<or> hd rest = 32))"
proof
  assume "command_prefix cmd pat"
  then show "\<exists>rest. cmd = pat @ rest \<and> (rest = [] \<or> hd rest = 32)"
    by (auto simp: command_prefix_def has_pre_def strip_pre_Some hd_conv_nth nth_append)
next
  assume "\<exists>rest. cmd = pat @ rest \<and> (rest = [] \<or> hd rest = 32)"
  then obtain rest where r: "cmd = pat @ rest" "rest = [] \<or> hd rest = 32" by blast
  then show "command_prefix cmd pat"
    by (cases rest) (auto simp: command_prefix_def has_pre_def)
qed

lemma first_word_prefix:
  assumes "command_prefix cmd pat"
  shows "first_word cmd = first_word pat"
proof -
  obtain rest where r: "cmd = pat @ rest" "rest = [] \<or> hd rest = 32"
    using assms by (auto simp: command_prefix_cases)
  then have "takeWhile (\<lambda>c. c \<noteq> 32) rest = []" by (cases rest) auto
  then have "takeWhile (\<lambda>c. c \<noteq> 32) (pat @ rest) = takeWhile (\<lambda>c. c \<noteq> 32) pat"
    by (induction pat) simp_all
  then show ?thesis unfolding first_word_def r(1) .
qed

definition safe_heads :: "ustr list" where
  "safe_heads = map first_word safe_prefixes"

lemma heads_differ:
  "list_all (\<lambda>p. first_word p \<notin> set safe_heads) dangerous_prefixes"
  "list_all (\<lambda>p. p = u ''git push'' \<or> first_word p \<noteq> u ''git'') dangerous_prefixes"
  by (simp_all add: safe_heads_def safe_prefixes_def dangerous_prefixes_def first_word_def u_def)

lemma first_word_join: "first_word (join [32] (w # ws)) = first_word w"
proof (cases ws)
  case (Cons v vs)
  have "takeWhile (\<lambda>c. c \<noteq> 32) (w @ 32 # s) = takeWhile (\<lambda>c. c \<noteq> 32) w" for s
    by (induction w) auto
  then show ?thesis using Cons by (simp add: first_word_def)
qed (simp add: first_word_def)

lemma first_word_append: "first_word (u ''git'' @ 32 # s) = u ''git''"
  by (simp add: first_word_def u_def)

lemma prefix_behind_git:
  assumes "command_prefix (u ''git'' @ 32 # s) (u ''git push'')"
  shows "first_word s = u ''push''"
proof -
  obtain rest where "u ''git'' @ 32 # s = u ''git push'' @ rest" "rest = [] \<or> hd rest = 32"
    using assms by (auto simp: command_prefix_cases)
  then have "command_prefix s (u ''push'')" by (auto simp: command_prefix_cases u_def)
  then have "first_word s = first_word (u ''push'')" by (rule first_word_prefix)
  then show ?thesis by (simp add: first_word_def u_def)
qed

lemma push_is_no_query: "u ''push'' \<notin> set (map first_word safe_git_subcommands)"
  by (simp add: safe_git_subcommands_def first_word_def u_def)

lemma dangerous_git:
  assumes "list_ex (command_prefix cmd) dangerous_prefixes" "first_word cmd = u ''git''"
  shows "command_prefix cmd (u ''git push'')"
proof -
  obtain p where p: "p \<in> set dangerous_prefixes" "command_prefix cmd p"
    using assms(1) by (auto simp: list_ex_iff)
  then have "first_word p = u ''git''" using assms(2) first_word_prefix by metis
  then show ?thesis using p heads_differ(2) by (auto simp: list_all_iff)
qed

lemma read_only_verb:
  assumes "git_words_are_read_only_query (g # w # ws)" "\<not> dashed w"
  shows "w \<in> set safe_git_subcommands"
proof -
  have "w \<noteq> u ''-'' \<and> w \<noteq> u ''--''" using assms(2) by (auto simp: dashed_def has_pre_def u_def)
  then have "git_safe_query_verb_index (g # w # ws) = Some 1"
    using assms(2) by (cases ws) (simp_all add: git_safe_query_verb_index_def)
  then show ?thesis using assms(1) by (simp add: git_words_are_read_only_query_def split: if_splits)
qed

lemma safe_not_dangerous:
  assumes "is_safe_command_words ws"
  shows "\<not> is_dangerous_command_words ws"
proof
  assume "is_dangerous_command_words ws"
  then have d: "ws \<noteq> []" "list_ex (command_prefix (join [32] ws)) dangerous_prefixes"
    by (simp_all add: is_dangerous_command_words_def)
  show False
  proof (cases "head_is ''git'' ws")
    case True
    then obtain args where ws: "ws = u ''git'' # args" by (cases ws) (auto simp: head_is_def)
    have q: "git_words_are_read_only_query ws" using assms True by (simp add: is_safe_command_words_def split: if_splits)
    then obtain w rest where args: "args = w # rest"
      unfolding ws by (cases args) (auto simp: git_words_are_read_only_query_def git_safe_query_verb_index_def split: if_splits)
    have "first_word (join [32] ws) = u ''git''" unfolding ws first_word_join by (simp add: first_word_def u_def)
    then have "command_prefix (join [32] ws) (u ''git push'')" by (rule dangerous_git[OF d(2)])
    then have "first_word (join [32] args) = u ''push''"
      using prefix_behind_git unfolding ws args by simp
    then have fw: "first_word w = u ''push''" unfolding args first_word_join .
    then have "\<not> dashed w" by (cases w) (auto simp: first_word_def u_def dashed_def has_pre_def split: if_splits)
    then have "w \<in> set safe_git_subcommands" using q read_only_verb unfolding ws args by blast
    then show False using fw push_is_no_query by force
  next
    case False
    then have "is_safe_command_words_str (join [32] ws)"
      using assms by (simp add: is_safe_command_words_def split: if_splits)
    then consider (list) p where "p \<in> set safe_prefixes" "command_prefix (join [32] ws) p"
      | (git) "is_safe_git_query_prefix (join [32] ws)"
      by (auto simp: is_safe_command_words_str_def list_ex_iff)
    then show False
    proof cases
      case list
      then have "first_word (join [32] ws) \<in> set safe_heads" using first_word_prefix by (auto simp: safe_heads_def)
      then show False using d(2) heads_differ(1) first_word_prefix by (auto simp: list_ex_iff list_all_iff)
    next
      case git
      then obtain rest v where r: "join [32] ws = u ''git '' @ rest" "v \<in> set safe_git_subcommands" "command_prefix rest v"
        by (auto simp: is_safe_git_query_prefix_def list_ex_iff strip_pre_Some split: option.splits)
      then have g: "join [32] ws = u ''git'' @ 32 # rest" by (simp add: u_def)
      then have "command_prefix (join [32] ws) (u ''git push'')"
        using dangerous_git[OF d(2)] first_word_append by simp
      then have "first_word rest = u ''push''" using prefix_behind_git unfolding g by blast
      then show False using r(2,3) first_word_prefix[OF r(3)] push_is_no_query by force
    qed
  qed
qed

lemma always_safe_is_safe: "is_always_safe_command_words ws \<Longrightarrow> is_safe_command_words ws"
proof -
  have "set always_safe_commands \<subseteq> set safe_prefixes"
    unfolding always_safe_commands_def safe_prefixes_def by simp
  then show "is_always_safe_command_words ws \<Longrightarrow> is_safe_command_words ws"
    by (auto simp: is_always_safe_command_words_def is_safe_command_words_def is_safe_command_words_str_def
        list_ex_iff split: if_splits)
qed

end
