(* ===== verification/Perm_Rules.thy ===== *)
theory Perm_Rules
  imports Unicode_Text
begin

text \<open>
  Permission rules (\<open>xai-grok-workspace/src/permission/types.rs\<close>, \<open>rules.rs\<close>): the data of the policy
  and the parser of rule strings such as \<open>Bash(git status:*)\<close>, with a printer that it inverts. Delimiters
  are ASCII, so positions among code points stand for the byte positions of the code.
\<close>

section \<open>Data\<close>

datatype rule_action = Allow_Rule | Deny_Rule | Ask_Rule

datatype tool_filter =
  Any_Tool | Bash_Tool | Edit_Tool | Read_Tool | Grep_Tool | Mcp_Tool | WebFetch_Tool | WebSearch_Tool

datatype pattern_mode = Glob_Mode | Domain_Mode

datatype prompt_policy = Prompt_Ask | Prompt_Deny | Prompt_Auto

record permission_rule =
  pr_action :: rule_action
  pr_tool :: tool_filter
  pr_pattern :: "ustr option"
  pr_mode :: pattern_mode

record permission_config =
  pc_rules :: "permission_rule list"
  pc_prompt :: prompt_policy

text \<open>The second argument of a Grep is its glob, of an MCP call the JSON text of its input.\<close>

datatype access_kind =
  Read_Access "ustr option"
| Grep_Access "ustr option" "ustr option"
| Edit_Access ustr
| Bash_Access ustr
| MCP_Access ustr ustr
| WebFetch_Access ustr
| WebSearch_Access ustr

datatype decision =
  Allow | Ask | FollowupMessage ustr | Reject ustr | PolicyDeny ustr | Cancelled

section \<open>Modes\<close>

datatype default_mode = Default_Mode | AcceptEdits | Plan_Mode | Auto_Mode | DontAsk | BypassPermissions

record mode_effects =
  me_prompt :: prompt_policy
  me_accept_edits :: bool
  me_bypass :: bool

definition mode_from_str :: "ustr \<Rightarrow> ustr + default_mode" where
  "mode_from_str s =
     (if s = u ''default'' then Inr Default_Mode
      else if s = u ''acceptEdits'' then Inr AcceptEdits
      else if s = u ''plan'' then Inr Plan_Mode
      else if s = u ''auto'' then Inr Auto_Mode
      else if s = u ''dontAsk'' then Inr DontAsk
      else if s = u ''bypassPermissions'' then Inr BypassPermissions
      else Inl s)"

abbreviation no_effects :: mode_effects where
  "no_effects \<equiv> \<lparr>me_prompt = Prompt_Ask, me_accept_edits = False, me_bypass = False\<rparr>"

fun effects :: "default_mode \<Rightarrow> mode_effects" where
  "effects AcceptEdits = no_effects\<lparr>me_accept_edits := True\<rparr>"
| "effects BypassPermissions = no_effects\<lparr>me_bypass := True\<rparr>"
| "effects Default_Mode = no_effects"
| "effects Plan_Mode = no_effects"
| "effects DontAsk = no_effects\<lparr>me_prompt := Prompt_Deny\<rparr>"
| "effects Auto_Mode = no_effects\<lparr>me_prompt := Prompt_Auto\<rparr>"

section \<open>The parser\<close>

datatype rule_parse_error =
  UnsupportedToolPrefix ustr | UnknownToolPrefix ustr | MalformedRule ustr

definition rule_error_text :: "rule_parse_error \<Rightarrow> ustr" where
  "rule_error_text e =
     (case e of
        UnsupportedToolPrefix p \<Rightarrow> u ''unsupported tool prefix: '' @ p
      | UnknownToolPrefix p \<Rightarrow> u ''unknown tool prefix: '' @ p
      | MalformedRule d \<Rightarrow> u ''malformed rule: '' @ d)"

definition tool_name_to_filter :: "ustr \<Rightarrow> tool_filter option" where
  "tool_name_to_filter name =
     (if name = u ''Bash'' then Some Bash_Tool
      else if name = u ''Read'' \<or> name = u ''NotebookRead'' then Some Read_Tool
      else if name = u ''Edit'' \<or> name = u ''Write'' \<or> name = u ''NotebookEdit'' then Some Edit_Tool
      else if name = u ''MCPTool'' then Some Mcp_Tool
      else if name = u ''Grep'' \<or> name = u ''Glob'' then Some Grep_Tool
      else if name = u ''WebFetch'' then Some WebFetch_Tool
      else if name = u ''WebSearch'' then Some WebSearch_Tool
      else None)"

text \<open>The backslashes directly before a position are those that end the text before it.\<close>

definition trailing_backslashes :: "ustr \<Rightarrow> nat" where
  "trailing_backslashes s = length (takeWhile ((=) 92) (rev s))"

definition is_unescaped :: "ustr \<Rightarrow> nat \<Rightarrow> bool" where
  "is_unescaped s pos \<longleftrightarrow> even (trailing_backslashes (take pos s))"

definition find_first_unescaped :: "ustr \<Rightarrow> nat \<Rightarrow> nat option" where
  "find_first_unescaped s target = List.find (\<lambda>i. s ! i = target \<and> is_unescaped s i) [0..<length s]"

definition find_last_unescaped :: "ustr \<Rightarrow> nat \<Rightarrow> nat option" where
  "find_last_unescaped s target = List.find (\<lambda>i. s ! i = target \<and> is_unescaped s i) (rev [0..<length s])"

text \<open>\<open>str::replace\<close> of a two-character pattern by one character.\<close>

fun replace_two :: "nat \<Rightarrow> nat \<Rightarrow> nat \<Rightarrow> ustr \<Rightarrow> ustr" where
  "replace_two a b r [] = []"
| "replace_two a b r [x] = [x]"
| "replace_two a b r (x # y # zs) =
     (if x = a \<and> y = b then r # replace_two a b r zs else x # replace_two a b r (y # zs))"

definition unescape_rule_content :: "ustr \<Rightarrow> ustr" where
  "unescape_rule_content s =
     (if 92 \<notin> set s then s
      else replace_two 92 92 92 (replace_two 92 41 41 (replace_two 92 40 40 s)))"

definition strip_domain_prefix :: "ustr \<Rightarrow> ustr \<times> pattern_mode" where
  "strip_domain_prefix pat =
     (case strip_pre (u ''domain:'') pat of Some d \<Rightarrow> (d, Domain_Mode) | None \<Rightarrow> (pat, Glob_Mode))"

definition strip_bash_colon_wildcard :: "ustr \<Rightarrow> ustr" where
  "strip_bash_colon_wildcard pat =
     (if ends_in (u '':*'') pat then take (length pat - 2) pat else pat)"

definition pattern_option :: "ustr \<Rightarrow> ustr option" where
  "pattern_option pat = (if pat = [] then None else Some pat)"

definition parse_permission_rule :: "ustr \<Rightarrow> rule_action \<Rightarrow> rule_parse_error + permission_rule" where
  "parse_permission_rule text action =
     (let rule = trim text in
      case find_first_unescaped rule 40 of
        Some open_paren \<Rightarrow>
          (let prefix = trim (take open_paren rule);
               content_and_close = drop (open_paren + 1) rule
           in case find_last_unescaped content_and_close 41 of
             None \<Rightarrow> Inl (MalformedRule (u ''missing closing parenthesis''))
           | Some close_paren \<Rightarrow>
               (let raw = trim (take close_paren content_and_close);
                    pat = (if raw = [] \<or> raw = u ''*'' then [] else unescape_rule_content raw)
                in case tool_name_to_filter prefix of
                  None \<Rightarrow>
                    Inl (if prefix = u ''EnterWorktree'' then UnsupportedToolPrefix prefix
                         else UnknownToolPrefix prefix)
                | Some tool \<Rightarrow>
                    (let (pat', mode) = strip_domain_prefix
                       (if tool = Bash_Tool then strip_bash_colon_wildcard pat else pat)
                     in Inr \<lparr>pr_action = action, pr_tool = tool, pr_pattern = pattern_option pat', pr_mode = mode\<rparr>)))
      | None \<Rightarrow>
          (case tool_name_to_filter rule of
             Some tool \<Rightarrow> Inr \<lparr>pr_action = action, pr_tool = tool, pr_pattern = None, pr_mode = Glob_Mode\<rparr>
           | None \<Rightarrow>
               Inr \<lparr>pr_action = action, pr_tool = Any_Tool, pr_pattern = pattern_option rule, pr_mode = Glob_Mode\<rparr>))"

section \<open>A printer\<close>

fun escape_char :: "nat \<Rightarrow> ustr" where
  "escape_char c = (if c = 92 \<or> c = 40 \<or> c = 41 then [92, c] else [c])"

definition escape :: "ustr \<Rightarrow> ustr" where
  "escape p = concat (map escape_char p)"

fun tool_name :: "tool_filter \<Rightarrow> ustr" where
  "tool_name Bash_Tool = u ''Bash''"
| "tool_name Read_Tool = u ''Read''"
| "tool_name Edit_Tool = u ''Edit''"
| "tool_name Mcp_Tool = u ''MCPTool''"
| "tool_name Grep_Tool = u ''Grep''"
| "tool_name WebFetch_Tool = u ''WebFetch''"
| "tool_name WebSearch_Tool = u ''WebSearch''"
| "tool_name Any_Tool = []"

definition rule_content :: "permission_rule \<Rightarrow> ustr" where
  "rule_content r =
     (case pr_pattern r of
        None \<Rightarrow> []
      | Some p \<Rightarrow> (if pr_mode r = Domain_Mode then u ''domain:'' else []) @ p)"

definition rule_text :: "permission_rule \<Rightarrow> ustr" where
  "rule_text r = tool_name (pr_tool r) @ [40] @ escape (rule_content r) @ [41]"

text \<open>A rule that a rule string can express: it names a tool, and its pattern has no surrounding
  whitespace and is not taken for the notation of another.\<close>

definition rule_printable :: "permission_rule \<Rightarrow> bool" where
  "rule_printable r \<longleftrightarrow>
     pr_tool r \<noteq> Any_Tool \<and>
     (case pr_pattern r of
        None \<Rightarrow> pr_mode r = Glob_Mode
      | Some p \<Rightarrow>
          p \<noteq> [] \<and> \<not> is_ws (hd p) \<and> \<not> is_ws (last p) \<and>
          (pr_mode r = Glob_Mode \<longrightarrow> p \<noteq> u ''*'' \<and> strip_pre (u ''domain:'') p = None) \<and>
          (pr_tool r = Bash_Tool \<longrightarrow> \<not> ends_in (u '':*'') (rule_content r)))"

section \<open>The parser inverts the printer\<close>

lemma escape_simps [simp]: "escape [] = []" "escape (c # p) = escape_char c @ escape p"
  by (simp_all add: escape_def)

lemma escape_append: "escape (p @ q) = escape p @ escape q"
  by (simp add: escape_def)

lemma escape_eq_Nil [simp]: "escape p = [] \<longleftrightarrow> p = []"
  by (cases p) auto

lemma escape_hd: "p \<noteq> [] \<Longrightarrow> hd (escape p) \<notin> {40, 41}"
  by (cases p) auto

lemma trailing_backslashes_append:
  "trailing_backslashes (s @ [c]) = (if c = 92 then Suc (trailing_backslashes s) else 0)"
  by (simp add: trailing_backslashes_def)

lemma escape_even: "even (trailing_backslashes (escape p))"
proof (induction p rule: rev_induct)
  case (snoc c p)
  show ?case
  proof (cases "c = 92 \<or> c = 40 \<or> c = 41")
    case True
    then have "escape (p @ [c]) = (escape p @ [92]) @ [c]" by (simp add: escape_append)
    then show ?thesis using snoc by (simp only: trailing_backslashes_append) auto
  next
    case False
    then have "escape (p @ [c]) = escape p @ [c]" by (simp add: escape_append)
    then show ?thesis using False by (simp only: trailing_backslashes_append) auto
  qed
qed (simp add: trailing_backslashes_def)

lemma find_last_closing:
  assumes "even (trailing_backslashes s)"
  shows "find_last_unescaped (s @ [c]) c = Some (length s)"
  using assms by (simp add: find_last_unescaped_def is_unescaped_def)

lemma find_first_opening:
  assumes "c \<notin> set s" "92 \<notin> set s"
  shows "find_first_unescaped (s @ c # t) c = Some (length s)"
proof -
  let ?P = "\<lambda>i. (s @ c # t) ! i = c \<and> is_unescaped (s @ c # t) i"
  have split: "[0..<length (s @ c # t)] = [0..<length s] @ length s # [Suc (length s)..<length (s @ c # t)]"
    using upt_add_eq_append[of 0 "length s" "Suc (length t)"] upt_conv_Cons[of "length s" "length s + Suc (length t)"]
    by simp
  have "takeWhile ((=) 92) (rev s) = []" using assms(2) by (cases "rev s") (auto dest: arg_cong[of _ _ set])
  then have "?P (length s)" by (simp add: is_unescaped_def trailing_backslashes_def)
  moreover have "i < length s \<Longrightarrow> \<not> ?P i" for i using assms(1) by (auto simp: nth_append)
  then have "List.find ?P [0..<length s] = None" by (simp add: find_None_iff)
  moreover have "List.find ?P (xs @ ys) = (case List.find ?P xs of Some x \<Rightarrow> Some x | None \<Rightarrow> List.find ?P ys)" for xs ys
    by (induction xs) simp_all
  ultimately show ?thesis unfolding find_first_unescaped_def split by simp
qed

text \<open>The three replacements undo the escapes one kind at a time.\<close>

definition blocks :: "nat set \<Rightarrow> ustr \<Rightarrow> ustr" where
  "blocks A p = concat (map (\<lambda>c. if c \<in> A then [92, c] else [c]) p)"

lemma blocks_simps [simp]: "blocks A [] = []"
  "blocks A (c # p) = (if c \<in> A then [92, c] else [c]) @ blocks A p"
  by (simp_all add: blocks_def)

lemma escape_blocks: "escape p = blocks {92, 40, 41} p"
  by (induction p) auto

lemma replace_two_skip: "x \<noteq> a \<or> zs = [] \<or> hd zs \<noteq> b \<Longrightarrow> replace_two a b r (x # zs) = x # replace_two a b r zs"
  by (cases zs) auto

lemma replace_paren:
  assumes "92 \<in> A" "c \<in> A" "c \<noteq> 92"
  shows "replace_two 92 c c (blocks A p) = blocks (A - {c}) p"
proof (induction p)
  case (Cons x p)
  have hd: "blocks A p \<noteq> [] \<Longrightarrow> hd (blocks A p) \<noteq> c" using assms by (cases p) auto
  then have "replace_two 92 c c (y # blocks A p) = y # replace_two 92 c c (blocks A p)" for y
    by (intro replace_two_skip) blast
  then show ?case using Cons assms by auto
qed simp

lemma replace_backslash: "replace_two 92 92 92 (blocks {92} p) = p"
  by (induction p) (auto simp: replace_two_skip)

lemma unescape_escape: "unescape_rule_content (escape p) = p"
proof (cases "92 \<in> set (escape p)")
  case True
  have "{92, 40, 41} - {40} - {41} = {92 :: nat}" by auto
  then have "replace_two 92 41 41 (replace_two 92 40 40 (escape p)) = blocks {92} p"
    by (simp add: escape_blocks replace_paren)
  then show ?thesis using True by (simp add: unescape_rule_content_def replace_backslash)
next
  case False
  have "92 \<notin> set (escape q) \<Longrightarrow> escape q = q" for q by (induction q) (auto split: if_splits)
  then show ?thesis using False by (simp add: unescape_rule_content_def)
qed


lemma tool_name_facts:
  assumes "tool \<noteq> Any_Tool"
  shows "40 \<notin> set (tool_name tool)" "92 \<notin> set (tool_name tool)" "trim (tool_name tool) = tool_name tool"
    "tool_name_to_filter (tool_name tool) = Some tool" "tool_name tool \<noteq> []" "\<not> is_ws (hd (tool_name tool))"
  using assms by (cases tool; simp add: u_def trim_clean is_ws_def tool_name_to_filter_def)+

lemma escape_ends:
  assumes "p \<noteq> []" "\<not> is_ws (hd p)" "\<not> is_ws (last p)"
  shows "\<not> is_ws (hd (escape p)) \<and> \<not> is_ws (last (escape p))"
proof -
  have "\<not> is_ws (hd (escape p))" using assms(1,2) by (cases p) (auto simp: is_ws_def)
  moreover have "\<not> is_ws (last (escape p))" using assms(1,3)
    by (cases p rule: rev_cases) (auto simp: escape_append is_ws_def)
  ultimately show ?thesis by simp
qed

lemma escape_star: "escape p = u ''*'' \<longleftrightarrow> p = u ''*''"
  by (cases p) (auto simp: u_def split: if_splits)

lemma trim_rule_text:
  assumes "pr_tool r \<noteq> Any_Tool"
  shows "trim (rule_text r) = rule_text r"
proof (rule trim_clean)
  show "\<not> is_ws (hd (rule_text r))" using tool_name_facts(5,6)[OF assms] by (simp add: rule_text_def)
qed (simp_all add: rule_text_def is_ws_def)

lemma content_trimmed:
  assumes "rule_printable r" "rule_content r \<noteq> []"
  shows "trim (escape (rule_content r)) = escape (rule_content r)" "rule_content r \<noteq> u ''*''"
proof -
  have "\<not> is_ws (hd (rule_content r)) \<and> \<not> is_ws (last (rule_content r)) \<and> rule_content r \<noteq> u ''*''"
    using assms by (cases "pr_mode r")
      (auto simp: rule_printable_def rule_content_def u_def is_ws_def split: option.splits)
  then show "trim (escape (rule_content r)) = escape (rule_content r)" "rule_content r \<noteq> u ''*''"
    using escape_ends[OF assms(2)] assms(2) by (simp_all add: trim_clean)
qed

lemma content_pattern:
  assumes "rule_printable r"
  shows "(case strip_domain_prefix (rule_content r) of (p, m) \<Rightarrow> (pattern_option p, m)) = (pr_pattern r, pr_mode r)"
proof (cases "pr_pattern r")
  case None
  then show ?thesis using assms
    by (simp add: rule_printable_def rule_content_def strip_domain_prefix_def pattern_option_def u_def)
next
  case (Some p)
  then show ?thesis using assms
    by (cases "pr_mode r")
      (simp_all add: rule_printable_def rule_content_def strip_domain_prefix_def pattern_option_def)
qed

lemma colon_kept:
  assumes "rule_printable r" "pr_tool r = Bash_Tool"
  shows "strip_bash_colon_wildcard (rule_content r) = rule_content r"
proof (cases "pr_pattern r")
  case None
  then show ?thesis by (simp add: rule_content_def strip_bash_colon_wildcard_def)
next
  case (Some p)
  then show ?thesis using assms by (simp add: rule_printable_def strip_bash_colon_wildcard_def)
qed

lemma parse_rule_text:
  assumes "rule_printable r"
  shows "parse_permission_rule (rule_text r) (pr_action r) = Inr r"
proof -
  have tl: "pr_tool r \<noteq> Any_Tool" using assms by (simp add: rule_printable_def)
  note n = tool_name_facts[OF tl]
  let ?c = "rule_content r" and ?n = "tool_name (pr_tool r)"
  have o: "find_first_unescaped (rule_text r) 40 = Some (length ?n)"
    using find_first_opening[OF n(1,2)] by (simp add: rule_text_def)
  have c: "find_last_unescaped (escape ?c @ [41]) 41 = Some (length (escape ?c))"
    by (rule find_last_closing[OF escape_even])
  have pat: "(if trim (escape ?c) = [] \<or> trim (escape ?c) = u ''*'' then []
      else unescape_rule_content (trim (escape ?c))) = ?c"
  proof (cases "?c = []")
    case False
    then show ?thesis using content_trimmed[OF assms False] by (simp add: unescape_escape escape_star)
  qed simp
  have col: "(if pr_tool r = Bash_Tool then strip_bash_colon_wildcard ?c else ?c) = ?c"
    using colon_kept[OF assms] by simp
  have parts: "take (length ?n) (rule_text r) = ?n" "drop (length ?n + 1) (rule_text r) = escape ?c @ [41]"
    by (simp_all add: rule_text_def)
  have take_content: "take (length (escape ?c)) (escape ?c @ [41]) = escape ?c" by simp
  obtain p m where pm: "strip_domain_prefix ?c = (p, m)" by fastforce
  then have "pattern_option p = pr_pattern r" "m = pr_mode r" using content_pattern[OF assms] by simp_all
  then show ?thesis
    unfolding parse_permission_rule_def trim_rule_text[OF tl] Let_def o option.case parts n(3,4) c
      take_content pat col pm prod.case by simp
qed

end
