(* ===== verification/Perm_Gate.thy ===== *)
theory Perm_Gate
  imports Perm_Policy
begin

text \<open>
  The managed-policy preflight of one request (\<open>permission/gate_preflight.rs\<close>, \<open>combine_decisions\<close> of
  \<open>shell_access.rs\<close>): the direct rules and both shell gates, with the provenance of an ask. The gate
  on the files a script touches works on the syntax tree and is a parameter, its outcome for a command
  and a directory. Combining verdicts keeps the stronger one; its contract is the locale
  \<open>strongest\<close>.
\<close>

section \<open>Keeping the strongest verdict\<close>

locale strongest =
  fixes combine :: "'d \<Rightarrow> 'd \<Rightarrow> 'd" and weight :: "'d \<Rightarrow> nat"
  assumes picks: "combine a b = a \<or> combine a b = b"
    and heavier: "weight (combine a b) = max (weight a) (weight b)"
begin

lemma at_least_combine: "n \<le> weight (combine a b) \<longleftrightarrow> n \<le> weight a \<or> n \<le> weight b"
  by (simp add: heavier le_max_iff_disj)

lemma at_least_fold:
  "n \<le> weight (fold (\<lambda>x d. combine d (f x)) xs d) \<longleftrightarrow> n \<le> weight d \<or> (\<exists>x \<in> set xs. n \<le> weight (f x))"
  by (induction xs arbitrary: d) (auto simp: at_least_combine)

lemma fold_picks: "fold (\<lambda>x d. combine d (f x)) xs d \<in> insert d (f ` set xs)"
proof (induction xs arbitrary: d)
  case (Cons x xs)
  then show ?case using picks[of d "f x"] by fastforce
qed simp

lemma order_of_two: "weight (combine a b) = weight (combine b a)"
  by (simp add: heavier max.commute)

end

definition gate_weight :: "gate_decision option \<Rightarrow> nat" where
  "gate_weight d = (case d of None \<Rightarrow> 0 | Some g \<Rightarrow> rank g)"

interpretation gate: strongest combine_gate_decisions gate_weight
proof
  show "combine_gate_decisions a b = a \<or> combine_gate_decisions a b = b" for a b
    by (cases "(a, b)" rule: combine_gate_decisions.cases) auto
  show "gate_weight (combine_gate_decisions a b) = max (gate_weight a) (gate_weight b)" for a b
    by (cases "(a, b)" rule: combine_gate_decisions.cases) (auto simp: gate_weight_def split: option.split)
qed

lemma gate_weight_simps [simp]: "gate_weight None = 0" "gate_weight (Some g) = rank g"
  by (simp_all add: gate_weight_def)

lemma gate_reject_iff: "3 \<le> gate_weight d \<longleftrightarrow> (\<exists>reason. d = Some (Gate_Reject reason))"
  by (cases d rule: option.exhaust; simp; rename_tac g; case_tac g; simp)

lemma gate_some_iff: "1 \<le> gate_weight d \<longleftrightarrow> d \<noteq> None"
  by (cases d rule: option.exhaust; simp; rename_tac g; case_tac g; simp)

section \<open>Combining decisions\<close>

fun decision_rank :: "decision \<Rightarrow> nat" where
  "decision_rank (Reject r) = 3"
| "decision_rank (PolicyDeny r) = 3"
| "decision_rank Ask = 2"
| "decision_rank Allow = 1"
| "decision_rank d = 0"

fun combine_decisions :: "decision option \<Rightarrow> decision option \<Rightarrow> decision option" where
  "combine_decisions None b = b"
| "combine_decisions a None = a"
| "combine_decisions (Some a) (Some b) = Some (if decision_rank b \<le> decision_rank a then a else b)"

text \<open>One more than the rank, so that no decision weighs nothing.\<close>

definition decision_weight :: "decision option \<Rightarrow> nat" where
  "decision_weight d = (case d of None \<Rightarrow> 0 | Some x \<Rightarrow> decision_rank x + 1)"

interpretation verdict: strongest combine_decisions decision_weight
proof
  show "combine_decisions a b = a \<or> combine_decisions a b = b" for a b
    by (cases "(a, b)" rule: combine_decisions.cases) auto
  show "decision_weight (combine_decisions a b) = max (decision_weight a) (decision_weight b)" for a b
    by (cases "(a, b)" rule: combine_decisions.cases) (auto simp: decision_weight_def split: option.split)
qed

section \<open>The preflight\<close>

record preflight =
  pf_direct :: "decision option"
  pf_bash :: "gate_decision option"
  pf_file :: "gate_decision option"
  pf_defers :: bool

definition evaluate_preflight ::
  "'g policy_env \<Rightarrow> (ustr \<Rightarrow> ustr \<Rightarrow> gate_decision option) \<Rightarrow> 'g compiled_policy option \<Rightarrow>
     access_kind \<Rightarrow> ustr \<Rightarrow> bool \<Rightarrow> preflight" where
  "evaluate_preflight E file_gate policy a cwd auto_mode =
     (let direct = (case policy of None \<Rightarrow> None | Some P \<Rightarrow> evaluate_with_cwd E P a (Some cwd));
          (bash, file) = (case (policy, a) of
              (Some P, Bash_Access cmd) \<Rightarrow> (evaluate_bash_command_gate E P cmd, file_gate cmd cwd)
            | _ \<Rightarrow> (None, None));
          rule_match = (direct = Some Ask \<or> bash = Some AskRuleMatch \<or> file = Some AskRuleMatch);
          fail_closed = (bash = Some AskFailClosed \<or> file = Some AskFailClosed)
      in \<lparr>pf_direct = direct, pf_bash = bash, pf_file = file,
          pf_defers = (auto_mode \<and> fail_closed \<and> \<not> rule_match)\<rparr>)"

definition policy_decision :: "preflight \<Rightarrow> decision option" where
  "policy_decision p =
     combine_decisions
       (combine_decisions (pf_direct p) (map_option into_decision (pf_bash p)))
       (map_option into_decision (pf_file p))"

definition policy_forced_prompt :: "preflight \<Rightarrow> bool" where
  "policy_forced_prompt p \<longleftrightarrow> policy_decision p = Some Ask"

definition gate_asks :: "gate_decision option \<Rightarrow> bool" where
  "gate_asks g = (case g of None \<Rightarrow> False | Some d \<Rightarrow> is_ask d)"

definition shell_file_forced_prompt :: "preflight \<Rightarrow> bool" where
  "shell_file_forced_prompt p = gate_asks (pf_file p)"

definition shell_forced_prompt :: "preflight \<Rightarrow> bool" where
  "shell_forced_prompt p \<longleftrightarrow> gate_asks (pf_bash p) \<or> shell_file_forced_prompt p"

definition admits_auto_classifier :: "preflight \<Rightarrow> bool" where
  "admits_auto_classifier p \<longleftrightarrow> \<not> policy_forced_prompt p \<or> pf_defers p"

definition prompt_trigger :: "preflight \<Rightarrow> string option \<Rightarrow> string option" where
  "prompt_trigger p auto_reason =
     (if pf_direct p = Some Ask then Some ''policy_ask''
      else if pf_defers p then auto_reason
      else if gate_asks (pf_bash p) then Some ''bash_command_gate_ask''
      else if shell_file_forced_prompt p then Some ''shell_file_gate_ask''
      else auto_reason)"

end
