(* ===== verification/Perm_State.thy ===== *)
theory Perm_State
  imports Safe_Commands Perm_Gate
begin

text \<open>
  What the permission manager remembers and the data it decides with: the grants of a session
  (\<open>permission/state.rs\<close>), the findings about a shell command (\<open>auto_mode/security_findings.rs\<close>), the
  risk of its environment assignments (\<open>auto_mode/mod.rs\<close>), qualified names of MCP tools
  (\<open>xai-grok-mcp/src/servers.rs\<close>) and the allowlist of hosts (\<open>web_fetch/domain.rs\<close>).
\<close>

section \<open>Grants\<close>

datatype edit_policy = Edit_Ask | Edit_Allow | Edit_Reject

text \<open>A hash set is the list of its elements in one possible order of iteration.\<close>

record permission_state =
  ps_edit_policy :: edit_policy
  ps_allow_bash :: bool
  ps_allowed_commands :: "ustr list"
  ps_disallowed_commands :: "ustr list"
  ps_allowed_globs :: "ustr list"
  ps_web_domains :: "ustr list"
  ps_mcp_tools :: "ustr list"
  ps_mcp_servers :: "ustr list"
  ps_version :: int

definition grants_version :: int where "grants_version = 1"

definition default_state :: permission_state where
  "default_state =
     \<lparr>ps_edit_policy = Edit_Ask, ps_allow_bash = False, ps_allowed_commands = [],
      ps_disallowed_commands = [], ps_allowed_globs = [], ps_web_domains = [], ps_mcp_tools = [],
      ps_mcp_servers = [], ps_version = grants_version\<rparr>"

text \<open>The outcome of reading the file: its parsed content, or nothing. Grants of whole servers from
  before they were validated are dropped; the flag says that the file is rewritten.\<close>

definition try_load_state :: "permission_state option \<Rightarrow> (permission_state \<times> bool) option" where
  "try_load_state read =
     map_option (\<lambda>s. if ps_version s < grants_version
       then (s\<lparr>ps_mcp_servers := [], ps_version := grants_version\<rparr>, True) else (s, False)) read"

text \<open>The start of the manager also takes back a stored permission for edits.\<close>

definition downgrade_edits :: "permission_state \<Rightarrow> permission_state" where
  "downgrade_edits s = (if ps_edit_policy s = Edit_Allow then s\<lparr>ps_edit_policy := Edit_Ask\<rparr> else s)"

definition hs_insert :: "'a \<Rightarrow> 'a list \<Rightarrow> 'a list" where
  "hs_insert x xs = (if x \<in> set xs then xs else xs @ [x])"

lemma set_hs_insert [simp]: "set (hs_insert x xs) = insert x (set xs)"
  by (auto simp: hs_insert_def)

section \<open>Findings\<close>

datatype finding = FailClosedPolicy | UnparseableShell | OpaqueShell | ExecOrAmbientGit | EnvInjection |
  UnvettedEnv | FileWrite | DangerousCommand | SpecialExecSurface

fun is_grant_floor :: "finding \<Rightarrow> bool" where
  "is_grant_floor FileWrite = True"
| "is_grant_floor UnvettedEnv = True"
| "is_grant_floor EnvInjection = True"
| "is_grant_floor OpaqueShell = True"
| "is_grant_floor ExecOrAmbientGit = True"
| "is_grant_floor SpecialExecSurface = True"
| "is_grant_floor f = False"

type_synonym assessment = "finding set"

definition constrains_broad_grant :: "assessment \<Rightarrow> bool" where
  "constrains_broad_grant A \<longleftrightarrow> (\<exists>f \<in> A. is_grant_floor f)"

section \<open>Environment assignments\<close>

datatype env_risk = Env_Safe | Env_Unvetted | Env_Injection

fun env_rank :: "env_risk \<Rightarrow> nat" where
  "env_rank Env_Safe = 0"
| "env_rank Env_Unvetted = 1"
| "env_rank Env_Injection = 2"

lemma env_rank_inj: "env_rank a = env_rank b \<Longrightarrow> a = b"
  by (cases a; cases b) simp_all

instantiation env_risk :: linorder
begin

definition less_eq_env_risk :: "env_risk \<Rightarrow> env_risk \<Rightarrow> bool" where
  "less_eq_env_risk a b \<longleftrightarrow> env_rank a \<le> env_rank b"

definition less_env_risk :: "env_risk \<Rightarrow> env_risk \<Rightarrow> bool" where
  "less_env_risk a b \<longleftrightarrow> env_rank a < env_rank b"

instance
  by standard (auto simp: less_eq_env_risk_def less_env_risk_def dest: env_rank_inj)

end

definition safe_env_keys :: "ustr list" where
  "safe_env_keys = map u [''CARGO_TERM_COLOR'', ''CARGO_TERM_PROGRESS_WHEN'', ''RUST_LOG'',
     ''RUST_LOG_STYLE'', ''RUST_BACKTRACE'', ''RUST_TEST_THREADS'', ''RUST_MIN_STACK'', ''NO_COLOR'',
     ''CLICOLOR'', ''CLICOLOR_FORCE'', ''FORCE_COLOR'', ''COLORTERM'']"

definition injection_env_keys :: "ustr list" where
  "injection_env_keys = map u [''LD_PRELOAD'', ''LD_AUDIT'', ''BASH_ENV'', ''ENV'', ''IFS'', ''PATH'',
     ''GIT_EXTERNAL_DIFF'', ''GIT_PROXY_COMMAND'', ''PROMPT_COMMAND'']"

definition env_key_risk :: "ustr \<Rightarrow> env_risk" where
  "env_key_risk key =
     (if key \<in> set safe_env_keys then Env_Safe
      else if key \<in> set injection_env_keys \<or> has_pre (u ''DYLD_'') key \<or> has_pre (u ''GIT_CONFIG'') key
      then Env_Injection
      else Env_Unvetted)"

text \<open>The arguments of one \<open>env\<close>; the flag says that the options are over. \<open>Inl\<close> returns at once.\<close>

fun env_arguments :: "env_risk \<Rightarrow> bool \<Rightarrow> words \<Rightarrow> env_risk + env_risk" where
  "env_arguments r over [] = Inr r"
| "env_arguments r over (w # ws) =
     (if w = u ''--'' then env_arguments r True ws
      else if \<not> over \<and> dashed w then Inl Env_Injection
      else if 61 \<in> set w then env_arguments (max r (env_key_risk (option_name w))) over ws
      else Inr r)"

fun env_rounds :: "nat \<Rightarrow> env_risk \<Rightarrow> words \<Rightarrow> env_risk" where
  "env_rounds 0 r ws = r"
| "env_rounds (Suc n) r ws =
     (case (if head_name ws = Some (u ''env'') then env_arguments r False (tl ws) else Inr r) of
        Inl stop \<Rightarrow> stop
      | Inr r' \<Rightarrow>
          (case strip_wrapper_command ws of None \<Rightarrow> r' | Some inner \<Rightarrow> env_rounds n r' inner))"

definition command_env_risk :: "words \<Rightarrow> env_risk" where
  "command_env_risk ws = env_rounds 8 Env_Safe ws"

text \<open>The keys of the assignments come from the syntax tree.\<close>

definition script_env_risk :: "ustr list \<Rightarrow> words list \<Rightarrow> env_risk" where
  "script_env_risk keys cmds =
     fold (\<lambda>ws r. max r (command_env_risk ws)) cmds (fold (\<lambda>k r. max r (env_key_risk k)) keys Env_Safe)"

definition env_risk_finding :: "env_risk \<Rightarrow> finding option" where
  "env_risk_finding r =
     (case r of Env_Injection \<Rightarrow> Some EnvInjection | Env_Unvetted \<Rightarrow> Some UnvettedEnv | Env_Safe \<Rightarrow> None)"

section \<open>Names of MCP tools\<close>

definition is_id_char :: "nat \<Rightarrow> bool" where
  "is_id_char c \<longleftrightarrow> ascii_alpha c \<or> ascii_digit c \<or> c = 95 \<or> c = 45"

definition is_valid_segment :: "ustr \<Rightarrow> bool" where
  "is_valid_segment s \<longleftrightarrow> s \<noteq> [] \<and> list_all is_id_char s"

definition is_well_formed_tool_id :: "ustr \<Rightarrow> bool" where
  "is_well_formed_tool_id s =
     (case split_on 58 s of
        [a] \<Rightarrow> is_valid_segment a
      | [a, b] \<Rightarrow> is_valid_segment a \<and> is_valid_segment b
      | _ \<Rightarrow> False)"

text \<open>Where two underscores stand in a row; occurrences may overlap.\<close>

definition delimiters :: "ustr \<Rightarrow> nat list" where
  "delimiters s = filter (\<lambda>i. s ! i = 95 \<and> s ! (i + 1) = 95) [0..<length s - 1]"

definition parse_mcp_qualified_name :: "ustr \<Rightarrow> (ustr \<times> ustr) option" where
  "parse_mcp_qualified_name name =
     (case delimiters name of
        [i] \<Rightarrow>
          (let server = take i name; tool = drop (i + 2) name in
           if server = [] \<or> tool = [] then None
           else if is_well_formed_tool_id name then Some (server, tool) else None)
      | _ \<Rightarrow> None)"

definition mcp_server_prefix_allowed :: "ustr \<Rightarrow> ustr list \<Rightarrow> bool" where
  "mcp_server_prefix_allowed name servers \<longleftrightarrow>
     servers \<noteq> [] \<and>
     (case parse_mcp_qualified_name name of None \<Rightarrow> False | Some (server, _) \<Rightarrow> server \<in> set servers)"

definition mcp_pre_decision :: "ustr \<Rightarrow> permission_state \<Rightarrow> bool \<Rightarrow> bool \<Rightarrow> decision option" where
  "mcp_pre_decision name S forced remember =
     (if forced \<and> \<not> remember then None
      else if name \<in> set (ps_mcp_tools S) then Some Allow
      else if mcp_server_prefix_allowed name (ps_mcp_servers S) then Some Allow
      else None)"

section \<open>The allowlist of hosts\<close>

datatype host_entry = AnyPath | PathPrefixes "ustr list"

type_synonym domain_matcher = "ustr \<rightharpoonup> host_entry"

definition host_part :: "ustr \<Rightarrow> ustr" where
  "host_part s = takeWhile (\<lambda>c. c \<noteq> 47) s"

definition path_part :: "ustr \<Rightarrow> ustr" where
  "path_part s = dropWhile (\<lambda>c. c \<noteq> 47) s"

definition add_prefix :: "ustr \<Rightarrow> host_entry option \<Rightarrow> host_entry" where
  "add_prefix p e =
     (case e of
        None \<Rightarrow> PathPrefixes [p]
      | Some AnyPath \<Rightarrow> AnyPath
      | Some (PathPrefixes ps) \<Rightarrow> PathPrefixes (if p \<in> set ps then ps else ps @ [p]))"

definition add_entry :: "'g policy_env \<Rightarrow> ustr \<Rightarrow> domain_matcher \<Rightarrow> domain_matcher" where
  "add_entry E raw m =
     (let n = normalize_domain E raw; host = host_part n; path = path_part n;
          prefix = trim_end_char 47 path
      in if n = [] then m
         else if path = [] then m(host \<mapsto> AnyPath)
         else if m host = Some AnyPath then m
         else if prefix = [] \<or> prefix = [47] then m(host \<mapsto> AnyPath)
         else m(host \<mapsto> add_prefix (if hd prefix = 47 then prefix else 47 # prefix) (m host)))"

definition new_matcher :: "'g policy_env \<Rightarrow> ustr list \<Rightarrow> domain_matcher" where
  "new_matcher E raws = fold (add_entry E) raws Map.empty"

definition under_prefix :: "ustr \<Rightarrow> ustr \<Rightarrow> bool" where
  "under_prefix path p \<longleftrightarrow>
     path = p \<or> has_pre p path \<and> length p < length path \<and> path ! length p = 47"

text \<open>Whether a URL with this host and path is permitted.\<close>

definition matcher_check :: "'g policy_env \<Rightarrow> domain_matcher \<Rightarrow> ustr option \<Rightarrow> ustr \<Rightarrow> bool" where
  "matcher_check E m host path =
     (case host of
        None \<Rightarrow> False
      | Some raw \<Rightarrow>
          (case m (normalize_domain E raw) of
             None \<Rightarrow> False
           | Some AnyPath \<Rightarrow> True
           | Some (PathPrefixes ps) \<Rightarrow> list_ex (under_prefix (pv_lower E path)) ps))"

end
