(* ===== verification/Auto_Mode.thy ===== *)
theory Auto_Mode
  imports Perm_State
begin

text \<open>
  The interface of auto mode (\<open>permission/auto_mode/mod.rs\<close>): outcomes of the classifier, the
  context it is shown, and the requests that are settled without asking it. The classifier itself is
  a parameter of the manager.
\<close>

section \<open>Outcomes\<close>

datatype classifier_verdict = Verdict_Allow | Verdict_Block | Verdict_Unavailable

datatype classifier_failure = Timed_Out | Transport_Error ustr

datatype provenance = By_Llm | By_Heuristic | By_Failure classifier_failure

record classifier_outcome =
  co_verdict :: classifier_verdict
  co_reason :: "ustr option"
  co_provenance :: provenance

definition failure_text :: "classifier_failure \<Rightarrow> ustr" where
  "failure_text f =
     (case f of Timed_Out \<Rightarrow> u ''permission auto classifier timed out'' | Transport_Error reason \<Rightarrow> reason)"

definition heuristic_outcome :: "classifier_verdict \<Rightarrow> classifier_outcome" where
  "heuristic_outcome v = \<lparr>co_verdict = v, co_reason = None, co_provenance = By_Heuristic\<rparr>"

definition llm_outcome :: "classifier_verdict \<Rightarrow> ustr option \<Rightarrow> classifier_outcome" where
  "llm_outcome v reason = \<lparr>co_verdict = v, co_reason = reason, co_provenance = By_Llm\<rparr>"

definition failure_outcome :: "classifier_failure \<Rightarrow> classifier_outcome" where
  "failure_outcome f =
     \<lparr>co_verdict = Verdict_Unavailable, co_reason = Some (failure_text f), co_provenance = By_Failure f\<rparr>"

definition source_text :: "provenance \<Rightarrow> string" where
  "source_text p =
     (case p of By_Llm \<Rightarrow> ''llm'' | By_Heuristic \<Rightarrow> ''heuristic''
      | By_Failure Timed_Out \<Rightarrow> ''timeout'' | By_Failure (Transport_Error _) \<Rightarrow> ''transport_error'')"

definition is_timeout :: "classifier_outcome \<Rightarrow> bool" where
  "is_timeout c \<longleftrightarrow> co_provenance c = By_Failure Timed_Out"

section \<open>What the classifier is shown\<close>

text \<open>A recorded decision of the user carries its tool, its arguments and whether it was approved.\<close>

datatype classifier_turn =
  UserText ustr | AssistantToolUse ustr ustr | PermissionDecision ustr ustr bool

record classifier_context =
  cc_turns :: "classifier_turn list"
  cc_instructions :: "ustr option"
  cc_findings :: assessment

definition breaks_line :: "nat \<Rightarrow> bool" where
  "breaks_line c \<longleftrightarrow> c \<in> {13, 10, 133, 11, 12, 8232, 8233}"

definition sanitize_recorded_decision_field :: "ustr \<Rightarrow> ustr" where
  "sanitize_recorded_decision_field s = map (\<lambda>c. if breaks_line c then 32 else c) s"

definition neutralize_heading :: "ustr \<Rightarrow> ustr" where
  "neutralize_heading line =
     (let heading = trim_start line in
      if has_pre [35] heading then take (length line - length heading) line @ 92 # heading else line)"

definition neutralize_headings :: "ustr \<Rightarrow> ustr" where
  "neutralize_headings s = join [10] (map neutralize_heading (str_lines 10 13 s))"

fun render_untrusted :: "classifier_turn \<Rightarrow> ustr option" where
  "render_untrusted (UserText t) = Some (u ''User: '' @ neutralize_headings t)"
| "render_untrusted (AssistantToolUse tool args) =
     Some (neutralize_headings tool @ 32 # neutralize_headings args)"
| "render_untrusted (PermissionDecision _ _ _) = None"

definition transcript_text :: "classifier_context \<Rightarrow> ustr" where
  "transcript_text c = join [10] (List.map_filter render_untrusted (cc_turns c))"

section \<open>Requests settled without the classifier\<close>

definition tool_name_for_access :: "access_kind \<Rightarrow> ustr" where
  "tool_name_for_access a =
     (case a of
        Read_Access _ \<Rightarrow> u ''read_file''
      | Grep_Access _ _ \<Rightarrow> u ''grep''
      | Edit_Access _ \<Rightarrow> u ''search_replace''
      | Bash_Access _ \<Rightarrow> u ''run_terminal_command''
      | MCP_Access name _ \<Rightarrow> u ''mcp:'' @ name
      | WebFetch_Access _ \<Rightarrow> u ''web_fetch''
      | WebSearch_Access _ \<Rightarrow> u ''web_search'')"

fun contains_text :: "ustr \<Rightarrow> ustr \<Rightarrow> bool" where
  "contains_text p [] \<longleftrightarrow> p = []"
| "contains_text p (c # cs) \<longleftrightarrow> has_pre p (c # cs) \<or> contains_text p cs"

definition access_requires_user_interaction :: "ustr \<Rightarrow> access_kind \<Rightarrow> bool" where
  "access_requires_user_interaction tool a \<longleftrightarrow>
     (let t = map ascii_lower tool in
      contains_text (u ''ask_user'') t \<or> contains_text (u ''askuserquestion'') t \<or>
      contains_text (u ''user_question'') t \<or> t = u ''ask_user_question'') \<or>
     (case a of
        MCP_Access name _ \<Rightarrow>
          (let n = map ascii_lower name in
           contains_text (u ''ask_user'') n \<or>
           contains_text (u ''confirm'') n \<and> contains_text (u ''human'') n)
      | _ \<Rightarrow> False)"

definition is_auto_mode_allowlisted_access :: "access_kind \<Rightarrow> bool" where
  "is_auto_mode_allowlisted_access a =
     (case a of Read_Access _ \<Rightarrow> True | Grep_Access _ _ \<Rightarrow> True | WebSearch_Access _ \<Rightarrow> True | _ \<Rightarrow> False)"

definition allowlisted_tool_names :: "ustr list" where
  "allowlisted_tool_names = map u [''todo_write'', ''TodoWrite'', ''task_output'', ''TaskOutput'',
     ''wait_tasks'', ''WaitTasks'', ''ask_user_question'', ''AskUserQuestion'', ''enter_plan_mode'',
     ''EnterPlanMode'', ''exit_plan_mode'', ''ExitPlanMode'', ''switch_mode'', ''SwitchMode'',
     ''create_plan'', ''CreatePlan'', ''update_plan'', ''UpdatePlan'', ''list_mcp_resources'',
     ''ListMcpResources'', ''read_mcp_resource'', ''ReadMcpResource'', ''tool_search'', ''ToolSearch'',
     ''sleep'', ''Sleep'']"

datatype auto_fast_path = Fast_Allow | Fast_Prompt | Fast_Classify

definition auto_mode_fast_path :: "access_kind \<Rightarrow> ustr \<Rightarrow> bool \<Rightarrow> auto_fast_path" where
  "auto_mode_fast_path a tool interactive =
     (if interactive then Fast_Prompt
      else if is_auto_mode_allowlisted_access a \<or> tool \<in> set allowlisted_tool_names then Fast_Allow
      else case a of
          Edit_Access _ \<Rightarrow> Fast_Allow
        | Bash_Access cmd \<Rightarrow>
            if trim cmd \<in> set (map u [''true'', '':'', ''false'']) then Fast_Allow else Fast_Classify
        | _ \<Rightarrow> Fast_Classify)"

text \<open>The names of the tools are those of the accesses, so the list of names never applies.\<close>

lemma allowlisted_name_unused: "tool_name_for_access a \<notin> set allowlisted_tool_names"
  by (simp add: tool_name_for_access_def allowlisted_tool_names_def u_def split: access_kind.split)

lemma fast_path_of_access:
  "auto_mode_fast_path a (tool_name_for_access a) interactive =
     (if interactive then Fast_Prompt
      else case a of
          Bash_Access cmd \<Rightarrow>
            if trim cmd \<in> set (map u [''true'', '':'', ''false'']) then Fast_Allow else Fast_Classify
        | MCP_Access _ _ \<Rightarrow> Fast_Classify
        | WebFetch_Access _ \<Rightarrow> Fast_Classify
        | _ \<Rightarrow> Fast_Allow)"
  using allowlisted_name_unused[of a]
  by (simp add: auto_mode_fast_path_def is_auto_mode_allowlisted_access_def split: access_kind.split)

end
