(* ===== verification/Bash_Evaluation.thy ===== *)
theory Bash_Evaluation
  imports Perm_State
begin

text \<open>
  What the permission manager makes of one shell command (\<open>evaluate_bash\<close> of \<open>permission/manager.rs\<close>):
  the outcome of its segments against the grants and the built-in lists, and the findings that
  grants cannot vouch for. Parsing is the crate \<open>tree-sitter-bash\<close>: the facts read off the syntax
  tree are a record, \<open>None\<close> when there is no tree.
\<close>

section \<open>The syntax tree\<close>

record script_tree =
  st_writes :: "ustr list"
  st_assigned :: "ustr list"
  st_opaque :: bool

record 'g shell_env =
  sh_policy :: "'g policy_env"
  sh_tree :: "ustr \<Rightarrow> script_tree option"

section \<open>Outcomes\<close>

datatype segment_evaluation =
  AutoAllow bool | Segment_Reject ustr | NeedsPrompts "ustr list" | Unparseable

record bash_evaluation =
  be_segments :: segment_evaluation
  be_exact :: bool
  be_granted :: bool
  be_assessment :: assessment
  be_ambient :: "words list option"

definition is_safe_write_sink :: "ustr \<Rightarrow> bool" where
  "is_safe_write_sink p \<longleftrightarrow> p \<in> set (map u [''/dev/null'', ''/dev/stdout'', ''/dev/stderr''])"

definition words_are_opaque_shell :: "words \<Rightarrow> bool" where
  "words_are_opaque_shell ws \<longleftrightarrow>
     is_potential_inline (shell_dash_c_script (map Literal ws)) \<or> head_name ws = Some (u ''eval'')"

section \<open>One segment\<close>

text \<open>The variables of the loop.\<close>

record bash_scan =
  bs_prompts :: "ustr list"
  bs_via_grant :: bool
  bs_granted :: bool
  bs_exec :: bool
  bs_git :: bool
  bs_found :: assessment

definition scan_start :: "assessment \<Rightarrow> bash_scan" where
  "scan_start A = \<lparr>bs_prompts = [], bs_via_grant = False, bs_granted = True, bs_exec = False,
     bs_git = False, bs_found = A\<rparr>"

definition found_if :: "bool \<Rightarrow> finding \<Rightarrow> bash_scan \<Rightarrow> bash_scan" where
  "found_if b f s = (if b then s\<lparr>bs_found := insert f (bs_found s)\<rparr> else s)"

definition note_segment :: "words \<Rightarrow> bash_scan \<Rightarrow> bash_scan" where
  "note_segment raw s =
     (let facts = segment_exec_facts raw;
          s1 = found_if (words_are_opaque_shell (unwrap_wrappers raw)) OpaqueShell s;
          s2 = found_if (sf_exec_risk facts) ExecOrAmbientGit s1
      in s2\<lparr>bs_exec := bs_exec s2 \<or> sf_exec_risk facts, bs_git := bs_git s2 \<or> sf_has_git facts\<rparr>)"

definition segment_granted :: "'g shell_env \<Rightarrow> permission_state \<Rightarrow> ustr \<Rightarrow> bool" where
  "segment_granted E S s \<longleftrightarrow>
     list_ex (matches_command_prefix s) (ps_allowed_commands S) \<or>
     list_ex (\<lambda>g. bash_pattern_matches_command (sh_policy E) g s) (ps_allowed_globs S)"

definition special_exec_surface :: "words \<Rightarrow> bool" where
  "special_exec_surface ws \<longleftrightarrow>
     kubectl_has_unsafe_flag ws \<or> rg_has_pre_flag ws \<or> ps_dumps_environment ws \<or>
     git_words_have_unsafe_query_option ws"

definition must_prompt :: "ustr \<Rightarrow> bash_scan \<Rightarrow> bash_scan" where
  "must_prompt t s = s\<lparr>bs_prompts := bs_prompts s @ [t]\<rparr>"

definition judge_segment ::
  "'g shell_env \<Rightarrow> permission_state \<Rightarrow> bool \<Rightarrow> words \<Rightarrow> bash_scan \<Rightarrow> bash_scan" where
  "judge_segment E S safe_lists ws s =
     (let t = join [32] ws; granted = segment_granted E S t;
          s1 = s\<lparr>bs_granted := bs_granted s \<and> granted\<rparr>
      in if is_dangerous_command_words ws then must_prompt t (found_if True DangerousCommand s1)
         else if special_exec_surface ws \<and> t \<notin> set (ps_allowed_commands S)
         then must_prompt t (found_if True SpecialExecSurface s1)
         else if granted then s1\<lparr>bs_via_grant := True\<rparr>
         else if safe_lists \<and> (is_safe_command_words ws \<or> is_always_safe_command_words ws) then s1
         else must_prompt t s1)"

text \<open>\<open>Inl\<close> is the rejection of the whole script, with the grant that was taken back.\<close>

fun scan_segments ::
  "'g shell_env \<Rightarrow> permission_state \<Rightarrow> bool \<Rightarrow> bash_scan \<Rightarrow> words list \<Rightarrow> (ustr \<times> bash_scan) + bash_scan" where
  "scan_segments E S safe_lists s [] = Inr s"
| "scan_segments E S safe_lists s (raw # raws) =
     (let ws = unwrap_wrappers raw; s1 = note_segment raw s
      in if is_setup_command ws then scan_segments E S safe_lists s1 raws
         else case List.find (matches_command_prefix (join [32] ws)) (ps_disallowed_commands S) of
             Some d \<Rightarrow> Inl (d, s1)
           | None \<Rightarrow> scan_segments E S safe_lists (judge_segment E S safe_lists ws s1) raws)"

section \<open>A command\<close>

definition rejection_text :: "ustr \<Rightarrow> ustr" where
  "rejection_text d = u ''User previously rejected `'' @ d @ u ''` for this session''"

definition unparseable :: "ustr \<Rightarrow> bool \<Rightarrow> assessment \<Rightarrow> bash_evaluation" where
  "unparseable cmd exact A =
     \<lparr>be_segments = Unparseable, be_exact = exact, be_granted = False,
      be_assessment = A \<union> {UnparseableShell} \<union> (if script_may_invoke_git cmd then {ExecOrAmbientGit} else {}),
      be_ambient = None\<rparr>"

text \<open>The findings of the whole script, before its segments are looked at.\<close>

definition script_findings :: "script_tree \<Rightarrow> words list \<Rightarrow> assessment" where
  "script_findings tree cmds =
     (if list_ex (\<lambda>p. \<not> is_safe_write_sink p) (st_writes tree) then {FileWrite} else {}) \<union>
     set_option (env_risk_finding (script_env_risk (st_assigned tree) cmds))"

definition judge_script ::
  "'g shell_env \<Rightarrow> permission_state \<Rightarrow> bool \<Rightarrow> bool \<Rightarrow> assessment \<Rightarrow> words list \<Rightarrow> bash_evaluation" where
  "judge_script E S safe_lists exact A cmds =
     (case scan_segments E S safe_lists (scan_start A) cmds of
        Inl (d, s) \<Rightarrow>
          \<lparr>be_segments = Segment_Reject (rejection_text d), be_exact = exact, be_granted = bs_granted s,
           be_assessment = bs_found s, be_ambient = None\<rparr>
      | Inr s \<Rightarrow>
          \<lparr>be_segments = (if bs_prompts s = [] then AutoAllow (bs_via_grant s) else NeedsPrompts (bs_prompts s)),
           be_exact = exact, be_granted = bs_granted s, be_assessment = bs_found s,
           be_ambient = (if bs_git s \<and> \<not> bs_exec s then Some cmds else None)\<rparr>)"

definition evaluate_bash :: "'g shell_env \<Rightarrow> ustr \<Rightarrow> permission_state \<Rightarrow> bool \<Rightarrow> bash_evaluation" where
  "evaluate_bash E cmd S safe_lists =
     (let exact = cmd \<in> set (ps_allowed_commands S) in
      case sh_tree E cmd of
        None \<Rightarrow> unparseable cmd exact {}
      | Some tree \<Rightarrow>
          (case pv_commands (sh_policy E) cmd of
             None \<Rightarrow> unparseable cmd exact
                      (script_findings tree [] \<union> (if st_opaque tree then {OpaqueShell} else {}))
           | Some cmds \<Rightarrow> judge_script E S safe_lists exact (script_findings tree cmds) cmds))"

end
