(* ===== verification/Shell_Properties.thy ===== *)
theory Shell_Properties
  imports Shell_Words "HOL-Library.Sublist"
begin

text \<open>
  What peeling does: every peel is a proper suffix, peeling to the end is a function \<open>full_peel\<close>, and
  the bounded normalization of the code computes it or says that it did not.
\<close>

section \<open>Peels are suffixes\<close>

lemma skip_options_suffix: "suffix (skip_options valued ws) ws"
  by (induction valued ws rule: skip_options.induct) (auto simp: suffix_ConsI)

lemma suffix_tl: "suffix (tl ws) ws"
  by (cases ws) (auto simp: suffix_ConsI)

definition turn_ok :: "ustr \<Rightarrow> words \<Rightarrow> scan_turn \<Rightarrow> bool" where
  "turn_ok tok ws t \<longleftrightarrow>
     (case t of Halt r \<Rightarrow> suffix (es_rest r) (tok # ws) | Next d' ws' \<Rightarrow> suffix ws' ws)"

lemma turn_ok_next: "turn_ok tok ws (Next d' ws)" "turn_ok tok ws (with_operand d tok ws f)"
  "turn_ok tok ws (Halt (scan_end d ws))"
  by (simp_all add: turn_ok_def with_operand_def suffix_Cons split: list.split)

lemma turn_ok_halt: "es_rest r = tok # ws \<Longrightarrow> turn_ok tok ws (Halt r)"
  by (simp add: turn_ok_def)

lemma turn_ok_if: "turn_ok tok ws x \<Longrightarrow> turn_ok tok ws y \<Longrightarrow> turn_ok tok ws (if b then x else y)"
  by simp

lemma long_turn_ok: "turn_ok tok ws (long_turn d tok ws)"
  unfolding long_turn_def
  by (intro turn_ok_if turn_ok_next turn_ok_halt) (simp_all add: turn_ok_halt split: option.split)

lemma short_turn_ok: "turn_ok tok ws (short_turn d tok ws)"
  unfolding short_turn_def by (simp add: turn_ok_halt turn_ok_next split: env_short.split)

lemma env_turn_ok: "turn_ok tok ws (env_turn d tok ws)"
  unfolding env_turn_def
  by (intro turn_ok_if turn_ok_next long_turn_ok short_turn_ok) (simp_all add: turn_ok_halt)

lemma env_scan_from_suffix: "suffix (es_rest (env_scan_from d ws)) ws"
proof (induction d ws rule: env_scan_from.induct)
  case (2 d tok ws)
  show ?case
  proof (cases "env_turn d tok ws")
    case (Next d' ws')
    then have "suffix ws' ws" using env_turn_ok[of tok ws d] by (simp add: turn_ok_def)
    moreover have "suffix (es_rest (env_scan_from d' ws')) ws'" using 2 Next by simp
    ultimately show ?thesis using Next by (simp add: suffix_ConsI suffix_order.order_trans)
  qed (use env_turn_ok[of tok ws d] in \<open>simp add: turn_ok_def\<close>)
qed simp

lemma nonempty_words_Some: "nonempty_words ws = Some inner \<longleftrightarrow> inner = ws \<and> ws \<noteq> []"
  by (auto simp: nonempty_words_def)

definition peel_ok :: "words \<Rightarrow> words option \<Rightarrow> bool" where
  "peel_ok args p \<longleftrightarrow> (\<forall>inner. p = Some inner \<longrightarrow> suffix inner args \<and> inner \<noteq> [])"

lemma peel_ok_nonempty: "suffix ws args \<Longrightarrow> peel_ok args (nonempty_words ws)"
  by (simp add: peel_ok_def nonempty_words_Some)

lemma peel_ok_None [simp]: "peel_ok args None"
  by (simp add: peel_ok_def)

lemma peel_ok_if: "peel_ok args x \<Longrightarrow> peel_ok args y \<Longrightarrow> peel_ok args (if b then x else y)"
  by simp

lemma strip_wrapper_ok: "peel_ok (tl cmd) (strip_wrapper_command cmd)"
proof (cases "head_name cmd")
  case (Some h)
  have "suffix (tl (skip_options valued ws)) ws" "suffix (skip_options valued ws) ws" for valued ws
    using skip_options_suffix[of valued ws] suffix_tl suffix_order.order_trans by blast+
  moreover have "suffix (es_rest (env_scan cmd)) (tl cmd)"
    by (simp add: env_scan_def env_scan_from_suffix)
  ultimately show ?thesis
    unfolding strip_wrapper_command_def Some option.case Let_def
    by (intro peel_ok_if peel_ok_nonempty peel_ok_None)
qed (simp add: strip_wrapper_command_def)

lemma strip_wrapper_suffix:
  "strip_wrapper_command cmd = Some inner \<Longrightarrow> suffix inner (tl cmd) \<and> inner \<noteq> []"
  using strip_wrapper_ok[of cmd] by (simp add: peel_ok_def)

definition strip_ok :: "words \<Rightarrow> transparent_strip \<Rightarrow> bool" where
  "strip_ok args t \<longleftrightarrow> (\<forall>inner. t = Peeled inner \<longrightarrow> suffix inner args \<and> inner \<noteq> [])"

lemma strip_ok_simps [simp]: "strip_ok args NotPrefix" "strip_ok args Ambiguous"
  "ws \<noteq> [] \<Longrightarrow> strip_ok ws (Peeled ws)" "strip_ok ws (peeled ws)"
  by (simp_all add: strip_ok_def peeled_def)

lemma strip_ok_if: "strip_ok args x \<Longrightarrow> strip_ok args y \<Longrightarrow> strip_ok args (if b then x else y)"
  by simp

lemma strip_ok_Cons: "strip_ok ws t \<Longrightarrow> strip_ok (w # ws) t"
  by (auto simp: strip_ok_def suffix_ConsI)

lemma exec_options_ok: "strip_ok ws (exec_options ws)"
proof (induction ws rule: length_induct)
  case (1 ws)
  show ?case
  proof (cases ws)
    case (Cons tok rest)
    have "strip_ok (tok # rest) (exec_options rest)" using 1 Cons by (simp add: strip_ok_Cons)
    moreover have "strip_ok (tok # rest) (case rest of [] \<Rightarrow> Ambiguous
        | v # ws' \<Rightarrow> if v \<noteq> [0] \<and> v \<noteq> [] then exec_options ws' else Ambiguous)"
      using 1 Cons by (simp add: strip_ok_Cons split: list.split)
    ultimately show ?thesis unfolding Cons exec_options.simps(2)
      by (intro strip_ok_if strip_ok_simps strip_ok_Cons[of rest "peeled rest"]) simp_all
  qed simp
qed

lemma command_options_ok: "strip_ok ws (command_options ws)"
proof (induction ws)
  case (Cons tok rest)
  then have "strip_ok (tok # rest) (command_options rest)" by (rule strip_ok_Cons)
  then show ?case unfolding command_options.simps(2)
    by (intro strip_ok_if strip_ok_simps strip_ok_Cons[of rest "peeled rest"]) simp_all
qed simp

lemma strip_prefix_ok: "strip_ok (tl cmd) (strip_transparent_prefix cmd)"
proof (cases cmd)
  case (Cons h args)
  have "strip_ok args (builtin_options args)"
    by (cases args) (simp_all add: builtin_options_def)
  then show ?thesis unfolding Cons strip_transparent_prefix_def list.case list.sel
    by (intro strip_ok_if strip_ok_simps exec_options_ok command_options_ok)
qed (simp add: strip_transparent_prefix_def)

lemma strip_prefix_suffix:
  "strip_transparent_prefix cmd = Peeled inner \<Longrightarrow> suffix inner (tl cmd) \<and> inner \<noteq> []"
  using strip_prefix_ok[of cmd] by (simp add: strip_ok_def)

section \<open>Peeling to the end\<close>

text \<open>One peel: a wrapper or a shell prefix, never both.\<close>

definition peel_step :: "words \<Rightarrow> words option" where
  "peel_step ws =
     (case strip_wrapper_command ws of
        Some inner \<Rightarrow> Some inner
      | None \<Rightarrow> (case strip_transparent_prefix ws of Peeled inner \<Rightarrow> Some inner | _ \<Rightarrow> None))"

lemma peel_step_suffix: "peel_step ws = Some inner \<Longrightarrow> suffix inner (tl ws) \<and> inner \<noteq> []"
  by (auto simp: peel_step_def dest: strip_wrapper_suffix strip_prefix_suffix
      split: option.splits transparent_strip.splits)

lemma suffix_tl_less: "suffix inner (tl ws) \<Longrightarrow> inner \<noteq> [] \<Longrightarrow> length inner < length ws"
  by (cases ws) (auto dest: suffix_length_le)

lemma peel_step_less: "peel_step ws = Some inner \<Longrightarrow> length inner < length ws"
  using peel_step_suffix suffix_tl_less by blast

function full_peel :: "words \<Rightarrow> words" where
  "full_peel ws = (case peel_step ws of None \<Rightarrow> ws | Some inner \<Rightarrow> full_peel inner)"
  by pat_completeness auto
termination
  by (relation "measure length") (auto dest: peel_step_less)

declare full_peel.simps [simp del]

lemma full_peel_step: "peel_step ws = Some inner \<Longrightarrow> full_peel ws = full_peel inner"
  by (subst full_peel.simps) simp

lemma full_peel_done: "peel_step ws = None \<Longrightarrow> full_peel ws = ws"
  by (subst full_peel.simps) simp

lemma full_peel_length: "length (full_peel ws) \<le> length ws"
proof (induction ws rule: full_peel.induct)
  case (1 ws)
  then show ?case using peel_step_less[of ws] full_peel_done full_peel_step by (cases "peel_step ws") fastforce+
qed

lemma wrapper_heads:
  "strip_wrapper_command ws = Some inner \<Longrightarrow> is_wrapper_command ws"
  by (simp add: strip_wrapper_command_def is_wrapper_command_def Let_def split: option.splits if_splits)

lemma prefix_heads:
  "strip_transparent_prefix ws = Peeled inner \<Longrightarrow>
     head_name ws \<in> set (map (\<lambda>w. Some (u w)) [''exec'', ''command'', ''builtin''])"
  by (simp add: strip_transparent_prefix_def head_name_def split: list.splits if_splits)

lemma one_kind_of_peel: "strip_transparent_prefix ws = Peeled inner \<Longrightarrow> strip_wrapper_command ws = None"
  using prefix_heads[of ws inner] wrapper_heads[of ws]
  by (cases "strip_wrapper_command ws") (auto simp: is_wrapper_command_def u_def)

lemma still_wrapped_iff: "still_wrapped ws \<longleftrightarrow> strip_wrapper_command ws \<noteq> None"
  using wrapper_heads[of ws] by (auto simp: still_wrapped_def)

section \<open>The bounded peels\<close>

lemma note_env_words [simp]: "wp_words (note_env ws p) = wp_words p"
  by (simp add: note_env_def Let_def)

text \<open>An invocation of \<open>env\<close> whose options hide what it runs.\<close>

definition opaque_env :: "words \<Rightarrow> bool" where
  "opaque_env ws \<longleftrightarrow>
     head_name ws = Some (u ''env'') \<and> (es_split (env_scan ws) \<or> es_uncertain (env_scan ws))"

lemma note_env_flags:
  "wp_split (note_env ws p) \<or> wp_uncertain (note_env ws p) \<longleftrightarrow>
     opaque_env ws \<or> wp_split p \<or> wp_uncertain p"
  by (auto simp: note_env_def opaque_env_def Let_def)

lemma unwrap_rounds_flags:
  "wp_split p \<or> wp_uncertain p \<Longrightarrow>
     wp_split (unwrap_rounds n p) \<or> wp_uncertain (unwrap_rounds n p)"
proof (induction n p rule: unwrap_rounds.induct)
  case (2 n p)
  then show ?case
    using note_env_flags[of "wp_words p" p] by (auto simp: Let_def split: option.splits)
qed simp

lemma unwrap_rounds_notes:
  "n \<noteq> 0 \<Longrightarrow> opaque_env (wp_words p) \<Longrightarrow>
     wp_split (unwrap_rounds n p) \<or> wp_uncertain (unwrap_rounds n p)"
  using note_env_flags[of "wp_words p" p] unwrap_rounds_flags
  by (cases n) (auto simp: Let_def split: option.split)

lemma unwrap_rounds_full:
  "full_peel (wp_words (unwrap_rounds n p)) = full_peel (wp_words p) \<and>
   suffix (wp_words (unwrap_rounds n p)) (wp_words p)"
proof (induction n p rule: unwrap_rounds.induct)
  case (2 n p)
  show ?case
  proof (cases "strip_wrapper_command (wp_words p)")
    case (Some inner)
    have "full_peel (wp_words p) = full_peel inner"
      using Some by (intro full_peel_step) (simp add: peel_step_def)
    moreover have "suffix inner (wp_words p)"
      using strip_wrapper_suffix[OF Some] suffix_tl suffix_order.order_trans by blast
    ultimately show ?thesis using 2[OF refl Some] Some suffix_order.order_trans by (auto simp: Let_def)
  qed (simp add: Let_def)
qed simp

lemma unwrap_full:
  "full_peel (wp_words (unwrap_wrappers_checked ws)) = full_peel ws"
  "suffix (wp_words (unwrap_wrappers_checked ws)) ws"
  using unwrap_rounds_full[of max_wrapper_depth "\<lparr>wp_words = ws, wp_chdir = False, wp_split = False,
     wp_uncertain = False, wp_exhausted = False\<rparr>"]
  by (simp_all add: unwrap_wrappers_checked_def)

lemma unwrap_notes:
  "opaque_env ws \<Longrightarrow> wp_split (unwrap_wrappers_checked ws) \<or> wp_uncertain (unwrap_wrappers_checked ws)"
  using unwrap_rounds_notes[of max_wrapper_depth "\<lparr>wp_words = ws, wp_chdir = False, wp_split = False,
     wp_uncertain = False, wp_exhausted = False\<rparr>"]
  by (simp add: unwrap_wrappers_checked_def max_wrapper_depth_def)

lemma peel_rounds_full:
  "peel_rounds n ws = Some inner \<Longrightarrow> full_peel inner = full_peel ws \<and> suffix inner ws"
proof (induction n ws rule: peel_rounds.induct)
  case (2 n ws)
  show ?case
  proof (cases "strip_transparent_prefix ws")
    case (Peeled v)
    have "full_peel ws = full_peel v"
      using Peeled one_kind_of_peel[OF Peeled] by (intro full_peel_step) (simp add: peel_step_def)
    moreover have "suffix v ws"
      using strip_prefix_suffix[OF Peeled] suffix_tl suffix_order.order_trans by blast
    ultimately show ?thesis using 2 Peeled suffix_order.order_trans by auto
  qed (use 2 in auto)
qed (auto split: transparent_strip.splits)

section \<open>The normalization\<close>

definition clean :: "normalized \<Rightarrow> bool" where
  "clean n \<longleftrightarrow> \<not> nc_exhausted n \<and> \<not> nc_ambiguous n \<and> \<not> nc_split n \<and> \<not> nc_uncertain n"

lemma note_peel_words [simp]: "nc_words (note_peel p n) = wp_words p"
  by (simp add: note_peel_def)

lemma normalize_rounds_full:
  "full_peel (nc_words (normalize_rounds k n)) = full_peel (nc_words n) \<and>
   suffix (nc_words (normalize_rounds k n)) (nc_words n)"
proof (induction k n rule: normalize_rounds.induct)
  case (2 k n)
  let ?p = "unwrap_wrappers_checked (nc_words n)"
  note p = unwrap_full[of "nc_words n"]
  show ?case
  proof (cases "nc_split (note_peel ?p n) \<or> nc_uncertain (note_peel ?p n)")
    case False
    show ?thesis
    proof (cases "peel_transparent_prefixes (wp_words ?p)")
      case (Some inner)
      have "full_peel inner = full_peel (nc_words n)" "suffix inner (nc_words n)"
        using p peel_rounds_full[of _ "wp_words ?p" inner] Some suffix_order.order_trans
        by (auto simp: peel_transparent_prefixes_def)
      then show ?thesis using 2[OF refl _ _ refl] False Some suffix_order.order_trans
        by (auto simp: Let_def)
    qed (use p False in \<open>simp add: Let_def\<close>)
  qed (use p in \<open>simp add: Let_def\<close>)
qed simp

lemma suffix_same_length: "suffix xs ys \<Longrightarrow> length xs = length ys \<Longrightarrow> xs = ys"
  by (auto simp: suffix_def)

text \<open>As long as the rounds outnumber the words to peel, an opaque \<open>env\<close> that is reached is noted.\<close>

lemma normalize_rounds_notes:
  "length (nc_words n) - length (full_peel (nc_words n)) < k \<Longrightarrow> opaque_env (nc_words (normalize_rounds k n)) \<Longrightarrow>
     nc_split (normalize_rounds k n) \<or> nc_uncertain (normalize_rounds k n) \<or> nc_ambiguous (normalize_rounds k n)"
proof (induction k n rule: normalize_rounds.induct)
  case (1 n)
  then show ?case by simp
next
  case (2 k n)
  let ?p = "unwrap_wrappers_checked (nc_words n)"
  let ?n1 = "note_peel ?p n"
  note suf = unwrap_full(2)[of "nc_words n"]
  have noted: "opaque_env (nc_words n) \<Longrightarrow> nc_split ?n1 \<or> nc_uncertain ?n1"
    using unwrap_notes[of "nc_words n"] by (auto simp: note_peel_def)
  show ?case
  proof (cases "nc_split ?n1 \<or> nc_uncertain ?n1")
    case False
    show ?thesis
    proof (cases "peel_transparent_prefixes (wp_words ?p)")
      case (Some inner)
      have inner: "suffix inner (nc_words n)" "full_peel inner = full_peel (nc_words n)"
        using suf unwrap_full(1)[of "nc_words n"] peel_rounds_full[of _ "wp_words ?p" inner] Some suffix_order.order_trans
        by (auto simp: peel_transparent_prefixes_def)
      have "length (full_peel inner) \<le> length inner" by (rule full_peel_length)
      then have peeled: "length (full_peel (nc_words n)) \<le> length inner" using inner(2) by simp
      have "length inner = length (nc_words n) \<Longrightarrow> inner = nc_words n"
        "length inner \<le> length (nc_words n)" using inner(1) by (simp_all add: suffix_same_length suffix_length_le)
      then have len: "length inner = length (nc_words n) \<and> inner = nc_words n \<or> length inner < length (nc_words n)"
        by auto
      let ?n2 = "?n1\<lparr>nc_words := inner\<rparr>"
      show ?thesis
      proof (cases "length inner = length (nc_words n)")
        case True
        then show ?thesis using 2(3) False Some noted len by (auto simp: Let_def)
      next
        case ne: False
        have r: "normalize_rounds (Suc k) n = normalize_rounds k ?n2"
          using False Some ne by (simp add: Let_def)
        have "length (nc_words ?n2) - length (full_peel (nc_words ?n2)) < k" using len ne 2(2) inner(2) peeled by simp
        then show ?thesis using "2.IH"[OF refl False _ refl ne] Some 2(3) unfolding r by simp
      qed
    qed (use False in \<open>simp add: Let_def\<close>)
  qed (auto simp: Let_def)
qed

abbreviation unpeeled :: "words \<Rightarrow> normalized" where
  "unpeeled ws \<equiv> \<lparr>nc_words = ws, nc_chdir = False, nc_split = False, nc_uncertain = False,
                 nc_exhausted = False, nc_ambiguous = False\<rparr>"

lemma clean_stuck:
  assumes "clean (normalize_command_words ws)"
  shows "normalize_command_words ws = normalize_rounds max_normalize_rounds (unpeeled ws) \<and>
    peel_step (nc_words (normalize_command_words ws)) = None"
  using assms
  by (auto simp: normalize_command_words_def clean_def Let_def peel_step_def still_wrapped_iff split: if_splits)

lemma normalize_words:
  "nc_words (normalize_command_words ws) = nc_words (normalize_rounds max_normalize_rounds (unpeeled ws))"
  by (simp add: normalize_command_words_def Let_def)

lemma normalize_suffix: "suffix (nc_words (normalize_command_words ws)) ws"
  using normalize_rounds_full[of max_normalize_rounds "unpeeled ws"] by (simp add: normalize_words)

lemma clean_is_full_peel:
  assumes "clean (normalize_command_words ws)"
  shows "nc_words (normalize_command_words ws) = full_peel ws"
proof -
  have "full_peel (nc_words (normalize_command_words ws)) = full_peel ws"
    using normalize_rounds_full[of max_normalize_rounds "unpeeled ws"] by (simp add: normalize_words)
  then show ?thesis using full_peel_done clean_stuck[OF assms] by metis
qed

lemma clean_not_opaque:
  assumes "clean (normalize_command_words ws)" "length ws - length (full_peel ws) < max_normalize_rounds"
  shows "\<not> opaque_env (full_peel ws)"
proof
  let ?n = "normalize_rounds max_normalize_rounds (unpeeled ws)"
  assume "opaque_env (full_peel ws)"
  then have "opaque_env (nc_words ?n)" using clean_is_full_peel[OF assms(1)] by (simp add: normalize_words)
  then have "nc_split ?n \<or> nc_uncertain ?n \<or> nc_ambiguous ?n"
    using normalize_rounds_notes assms(2) by (metis normalized.select_convs(1))
  then show False using clean_stuck[OF assms(1)] assms(1) by (auto simp: clean_def)
qed

text \<open>
  The properties of the normalization of a command: when it is trusted it has peeled everything, and
  two commands for which it is trusted although the code that runs stays hidden.
\<close>

section \<open>Commands without a prefix\<close>

definition plain_head :: "words \<Rightarrow> bool" where
  "plain_head ws \<longleftrightarrow> \<not> is_wrapper_command ws \<and>
     head_name ws \<notin> set (map (\<lambda>w. Some (u w)) [''exec'', ''command'', ''builtin''])"

lemma not_wrapped: "\<not> is_wrapper_command ws \<Longrightarrow> strip_wrapper_command ws = None"
  using wrapper_heads[of ws] by (cases "strip_wrapper_command ws") auto

lemma not_env: "\<not> is_wrapper_command ws \<Longrightarrow> head_name ws \<noteq> Some (u ''env'')"
  by (auto simp: is_wrapper_command_def)

lemma unwrap_plain:
  assumes "\<not> is_wrapper_command ws"
  shows "unwrap_wrappers_checked ws =
    \<lparr>wp_words = ws, wp_chdir = False, wp_split = False, wp_uncertain = False, wp_exhausted = False\<rparr>"
proof -
  have "unwrap_rounds (Suc n) \<lparr>wp_words = ws, wp_chdir = False, wp_split = False, wp_uncertain = False,
      wp_exhausted = False\<rparr> = \<lparr>wp_words = ws, wp_chdir = False, wp_split = False, wp_uncertain = False,
      wp_exhausted = False\<rparr>"
    for n using not_wrapped[OF assms] not_env[OF assms] by (simp add: note_env_def Let_def)
  from this[of 7] show ?thesis by (simp add: unwrap_wrappers_checked_def max_wrapper_depth_def)
qed

lemma no_prefix:
  assumes "head_name ws \<notin> set (map (\<lambda>w. Some (u w)) [''exec'', ''command'', ''builtin''])"
  shows "strip_transparent_prefix ws = NotPrefix"
  using assms by (cases ws) (simp_all add: strip_transparent_prefix_def head_name_def)

lemma peel_plain:
  assumes "head_name ws \<notin> set (map (\<lambda>w. Some (u w)) [''exec'', ''command'', ''builtin''])"
  shows "peel_rounds n ws = Some ws"
  by (cases n) (simp_all add: no_prefix[OF assms])

lemma normalize_plain:
  assumes "plain_head ws"
  shows "normalize_command_words ws = unpeeled ws"
proof -
  have w: "\<not> is_wrapper_command ws"
    and p: "head_name ws \<notin> set (map (\<lambda>w. Some (u w)) [''exec'', ''command'', ''builtin''])"
    using assms by (simp_all add: plain_head_def)
  have "normalize_rounds (Suc k) (unpeeled ws) = unpeeled ws" for k
    using unwrap_plain[OF w] peel_plain[OF p]
    by (simp add: note_peel_def peel_transparent_prefixes_def Let_def)
  from this[of 15] show ?thesis
    by (simp add: normalize_command_words_def Let_def max_normalize_rounds_def max_wrapper_depth_def
        max_transparent_prefix_depth_def still_wrapped_iff not_wrapped[OF w] no_prefix[OF p])
qed

lemmas head_eval = plain_head_def is_wrapper_command_def head_name_def base_name_def u_def

lemma unwrap_once:
  assumes "strip_wrapper_command ws = Some inner" "head_name ws \<noteq> Some (u ''env'')" "\<not> is_wrapper_command inner"
  shows "unwrap_wrappers_checked ws =
    \<lparr>wp_words = inner, wp_chdir = False, wp_split = False, wp_uncertain = False, wp_exhausted = False\<rparr>"
proof -
  have "unwrap_rounds (Suc (Suc n)) \<lparr>wp_words = ws, wp_chdir = False, wp_split = False, wp_uncertain = False,
      wp_exhausted = False\<rparr> = \<lparr>wp_words = inner, wp_chdir = False, wp_split = False, wp_uncertain = False,
      wp_exhausted = False\<rparr>" for n
    using assms not_wrapped[OF assms(3)] not_env[OF assms(3)] by (simp add: note_env_def Let_def)
  from this[of 6] show ?thesis by (simp add: unwrap_wrappers_checked_def max_wrapper_depth_def)
qed

lemma normalize_once:
  assumes "strip_wrapper_command ws = Some inner" "head_name ws \<noteq> Some (u ''env'')" "plain_head inner"
  shows "normalize_command_words ws = unpeeled inner"
proof -
  have w: "\<not> is_wrapper_command inner"
    and p: "head_name inner \<notin> set (map (\<lambda>w. Some (u w)) [''exec'', ''command'', ''builtin''])"
    using assms(3) by (simp_all add: plain_head_def)
  have shorter: "length inner \<noteq> length ws"
    using strip_wrapper_suffix[OF assms(1)] suffix_tl_less by fastforce
  have "normalize_rounds (Suc (Suc k)) (unpeeled ws) = unpeeled inner" for k
    using unwrap_once[OF assms(1,2) w] unwrap_plain[OF w] peel_plain[OF p] shorter
    by (simp add: note_peel_def peel_transparent_prefixes_def Let_def)
  from this[of 14] show ?thesis
    by (simp add: normalize_command_words_def Let_def max_normalize_rounds_def max_wrapper_depth_def
        max_transparent_prefix_depth_def still_wrapped_iff not_wrapped[OF w] no_prefix[OF p])
qed

section \<open>Trusted normalizations\<close>

text \<open>When the normalization of a command raises no flag it has peeled every wrapper and prefix,
  and what it leaves is a suffix of the command that no longer starts with one; if fewer
  words were peeled than there are rounds, it leaves no \<open>env\<close> whose options hide what it runs.\<close>

theorem clean_normalization_is_complete:
  assumes "clean (normalize_command_words ws)"
  shows "nc_words (normalize_command_words ws) = full_peel ws \<and> suffix (full_peel ws) ws \<and>
    peel_step (full_peel ws) = None \<and>
    (length ws - length (full_peel ws) < max_normalize_rounds \<longrightarrow> \<not> opaque_env (full_peel ws))"
proof -
  have "peel_step (nc_words (normalize_command_words ws)) = None" using clean_stuck[OF assms] by blast
  then show ?thesis using clean_not_opaque[OF assms] normalize_suffix[of ws]
    unfolding clean_is_full_peel[OF assms] by simp
qed

theorem clean_normalization_is_complete_witness:
  "nc_words (normalize_command_words [u ''ls'']) = full_peel [u ''ls'']"
  using clean_normalization_is_complete[of "[u ''ls'']"] normalize_plain[of "[u ''ls'']"]
  by (simp add: head_eval clean_def)

section \<open>Hidden commands\<close>

text \<open>One round of the normalization peels a \<open>timeout\<close> and the \<open>command\<close> behind it.\<close>

abbreviation hide :: words where "hide \<equiv> [u ''timeout'', u ''1'', u ''command'']"

lemma unwrap_hide:
  "unwrap_wrappers_checked (hide @ rest) =
    \<lparr>wp_words = u ''command'' # rest, wp_chdir = False, wp_split = False, wp_uncertain = False, wp_exhausted = False\<rparr>"
  by (rule unwrap_once)
    (simp_all add: strip_wrapper_command_def head_eval dashed_def has_pre_def nonempty_words_def)

lemma peel_command:
  assumes "rest \<noteq> []" "\<not> dashed (hd rest)"
    "head_name rest \<notin> set (map (\<lambda>w. Some (u w)) [''exec'', ''command'', ''builtin''])"
  shows "peel_transparent_prefixes (u ''command'' # rest) = Some rest"
proof -
  have "command_options rest = Peeled rest"
    using assms(1,2) by (cases rest) (auto simp: dashed_def has_pre_def u_def)
  then have "strip_transparent_prefix (u ''command'' # rest) = Peeled rest"
    by (simp add: strip_transparent_prefix_def base_name_def u_def)
  then have "peel_rounds (Suc n) (u ''command'' # rest) = Some rest" for n
    by (simp add: peel_plain[OF assms(3)])
  from this[of 7] show ?thesis by (simp add: peel_transparent_prefixes_def max_transparent_prefix_depth_def)
qed

lemma round_hide:
  assumes "rest \<noteq> []" "\<not> dashed (hd rest)"
    "head_name rest \<notin> set (map (\<lambda>w. Some (u w)) [''exec'', ''command'', ''builtin''])"
  shows "normalize_rounds (Suc k) (unpeeled (hide @ rest)) = normalize_rounds k (unpeeled rest)"
  by (simp add: unwrap_hide[simplified] peel_command[OF assms] note_peel_def Let_def)

lemma opaque_flagged:
  assumes "opaque_env ws"
  shows "\<not> clean (normalize_command_words ws)"
proof
  assume c: "clean (normalize_command_words ws)"
  have "\<not> clean (normalize_rounds (Suc k) (unpeeled ws))" for k
    using unwrap_notes[OF assms] by (auto simp: note_peel_def clean_def Let_def)
  from this[of 15] show False using clean_stuck[OF c] c
    by (simp add: max_normalize_rounds_def max_wrapper_depth_def max_transparent_prefix_depth_def)
qed

text \<open>The normalization gives up silently after its last round: an \<open>env\<close> whose options hide what it
  runs is flagged when it stands alone, but behind one \<open>timeout 1 command\<close> for each round it is left
  over with no flag at all, because the check after the loop looks for heads that can be peeled and
  this one cannot.\<close>

lemma deep_prefixes_hide_env:
  assumes "opaque_env ws" "\<not> dashed (hd ws)"
  shows "\<not> clean (normalize_command_words ws) \<and>
    normalize_command_words (concat (replicate max_normalize_rounds hide) @ ws) = unpeeled ws"
proof -
  have env: "head_name ws = Some (u ''env'')" and ne: "ws \<noteq> []"
    using assms(1) by (auto simp: opaque_env_def head_name_def)
  have noprefix: "head_name ws \<notin> set (map (\<lambda>w. Some (u w)) [''exec'', ''command'', ''builtin''])"
    using env by (simp add: u_def)
  have stuck: "strip_wrapper_command ws = None"
    using assms(1) env by (simp add: strip_wrapper_command_def opaque_env_def Let_def u_def)
  have "normalize_rounds k (unpeeled (concat (replicate k hide) @ ws)) = unpeeled ws" for k
  proof (induction k)
    case (Suc k)
    let ?rest = "concat (replicate k hide) @ ws"
    have "?rest \<noteq> [] \<and> \<not> dashed (hd ?rest) \<and>
        head_name ?rest \<notin> set (map (\<lambda>w. Some (u w)) [''exec'', ''command'', ''builtin''])"
    proof (cases k)
      case (Suc j)
      then show ?thesis by (simp add: head_eval dashed_def has_pre_def)
    qed (use noprefix ne assms(2) in simp)
    then have "normalize_rounds (Suc k) (unpeeled (hide @ ?rest)) = normalize_rounds k (unpeeled ?rest)"
      by (intro round_hide) simp_all
    then show ?case using Suc by simp
  qed simp
  then have "normalize_command_words (concat (replicate max_normalize_rounds hide) @ ws) = unpeeled ws"
    by (simp add: normalize_command_words_def Let_def still_wrapped_iff stuck no_prefix[OF noprefix] del: replicate.simps)
  moreover have "\<not> clean (normalize_command_words ws)" by (rule opaque_flagged[OF assms(1)])
  ultimately show ?thesis by simp
qed


text \<open>C29: \<open>stdbuf -o MODE command\<close> is peeled to the command, but with the long spelling of the same
  option, \<open>stdbuf --output MODE command\<close>, the mode is taken for the command and nothing is flagged.\<close>

theorem long_operand_hides_command:
  assumes "plain_head (mode # ws)" "\<not> dashed mode" "plain_head ws" "ws \<noteq> []" "\<not> dashed (hd ws)"
  shows "normalize_command_words (u ''stdbuf'' # u ''-o'' # mode # ws) = unpeeled ws \<and>
    normalize_command_words (u ''stdbuf'' # u ''--output'' # mode # ws) = unpeeled (mode # ws)"
proof
  obtain v vs where ws: "ws = v # vs" using assms(4) by (cases ws) auto
  have keep: "skip_options valued ws = ws" for valued
    using assms(5) unfolding ws by (cases vs) simp_all
  have "strip_wrapper_command (u ''stdbuf'' # u ''-o'' # mode # ws) = Some ws"
    using assms(4) keep
    by (simp add: strip_wrapper_command_def head_name_def base_name_def u_def dashed_def has_pre_def nonempty_words_def)
  then show "normalize_command_words (u ''stdbuf'' # u ''-o'' # mode # ws) = unpeeled ws"
    using assms(3) by (intro normalize_once) (simp_all add: head_eval)
  have "strip_wrapper_command (u ''stdbuf'' # u ''--output'' # mode # ws) = Some (mode # ws)"
    using assms(2) unfolding ws
    by (simp add: strip_wrapper_command_def head_name_def base_name_def u_def dashed_def has_pre_def nonempty_words_def)
  then show "normalize_command_words (u ''stdbuf'' # u ''--output'' # mode # ws) = unpeeled (mode # ws)"
    using assms(1) by (intro normalize_once) (simp_all add: head_eval)
qed

theorem long_operand_hides_command_witness:
  "normalize_command_words (map u [''stdbuf'', ''--output'', ''L'', ''rm'', ''x'']) =
     unpeeled (map u [''L'', ''rm'', ''x''])"
  using long_operand_hides_command[of "u ''L''" "map u [''rm'', ''x'']"]
  by (simp add: head_eval dashed_def has_pre_def)

end
