(* ===== verification/Bash_Facts.thy ===== *)
theory Bash_Facts
  imports Bash_Evaluation Shell_Properties
begin

text \<open>
  What the evaluation of a command says of its segments: the loop written as conditions on each
  segment, and the findings of the whole script as a union.
\<close>

section \<open>Each segment\<close>

definition segment_text :: "words \<Rightarrow> ustr" where
  "segment_text raw = join [32] (unwrap_wrappers raw)"

text \<open>A segment that needs no prompt.\<close>

definition segment_settled :: "'g shell_env \<Rightarrow> permission_state \<Rightarrow> bool \<Rightarrow> words \<Rightarrow> bool" where
  "segment_settled E S safe_lists raw \<longleftrightarrow>
     (let ws = unwrap_wrappers raw in
      \<not> is_dangerous_command_words ws \<and>
      (special_exec_surface ws \<longrightarrow> segment_text raw \<in> set (ps_allowed_commands S)) \<and>
      (segment_granted E S (segment_text raw) \<or> safe_lists \<and> is_safe_command_words ws))"

definition segment_rejected :: "permission_state \<Rightarrow> words \<Rightarrow> bool" where
  "segment_rejected S raw \<longleftrightarrow>
     (\<exists>d \<in> set (ps_disallowed_commands S). matches_command_prefix (segment_text raw) d)"

definition segment_findings :: "permission_state \<Rightarrow> words \<Rightarrow> assessment" where
  "segment_findings S raw =
     (let ws = unwrap_wrappers raw in
      (if words_are_opaque_shell ws then {OpaqueShell} else {}) \<union>
      (if sf_exec_risk (segment_exec_facts raw) then {ExecOrAmbientGit} else {}) \<union>
      (if is_setup_command ws then {}
       else if is_dangerous_command_words ws then {DangerousCommand}
       else if special_exec_surface ws \<and> segment_text raw \<notin> set (ps_allowed_commands S)
       then {SpecialExecSurface} else {}))"

lemma safe_or_always: "is_safe_command_words ws \<or> is_always_safe_command_words ws \<longleftrightarrow> is_safe_command_words ws"
  using always_safe_is_safe by blast

lemma note_segment_shape [simp]:
  "bs_prompts (note_segment raw s) = bs_prompts s"
  "bs_via_grant (note_segment raw s) = bs_via_grant s"
  "bs_granted (note_segment raw s) = bs_granted s"
  "bs_exec (note_segment raw s) = (bs_exec s \<or> sf_exec_risk (segment_exec_facts raw))"
  "bs_git (note_segment raw s) = (bs_git s \<or> sf_has_git (segment_exec_facts raw))"
  "bs_found (note_segment raw s) = bs_found s \<union>
     (if words_are_opaque_shell (unwrap_wrappers raw) then {OpaqueShell} else {}) \<union>
     (if sf_exec_risk (segment_exec_facts raw) then {ExecOrAmbientGit} else {})"
  by (simp_all add: note_segment_def found_if_def Let_def)

lemma judge_segment_prompts:
  "bs_prompts (judge_segment E S sl (unwrap_wrappers raw) s) = [] \<longleftrightarrow>
     bs_prompts s = [] \<and> segment_settled E S sl raw"
  by (simp add: judge_segment_def segment_settled_def segment_text_def must_prompt_def found_if_def Let_def
      safe_or_always)

lemma judge_segment_found:
  "bs_found (judge_segment E S sl (unwrap_wrappers raw) s) =
     bs_found s \<union> (if is_dangerous_command_words (unwrap_wrappers raw) then {DangerousCommand}
       else if special_exec_surface (unwrap_wrappers raw) \<and> segment_text raw \<notin> set (ps_allowed_commands S)
       then {SpecialExecSurface} else {})"
  by (simp add: judge_segment_def segment_text_def must_prompt_def found_if_def Let_def)

lemma no_disallowed:
  "List.find (matches_command_prefix (join [32] (unwrap_wrappers raw))) (ps_disallowed_commands S) = None \<longleftrightarrow>
     \<not> segment_rejected S raw"
  by (auto simp: segment_rejected_def segment_text_def find_None_iff)

section \<open>The loop\<close>

abbreviation is_setup :: "words \<Rightarrow> bool" where "is_setup raw \<equiv> is_setup_command (unwrap_wrappers raw)"

lemma scan_rejects:
  "(\<exists>x. scan_segments E S sl s cmds = Inl x) \<longleftrightarrow> (\<exists>raw \<in> set cmds. \<not> is_setup raw \<and> segment_rejected S raw)"
proof (induction cmds arbitrary: s)
  case (Cons raw cmds)
  show ?case
  proof (cases "is_setup raw \<or> \<not> segment_rejected S raw")
    case True
    then show ?thesis using Cons.IH no_disallowed[of raw S] by (auto simp: Let_def split: option.split)
  next
    case False
    then obtain d where
      "List.find (matches_command_prefix (join [32] (unwrap_wrappers raw))) (ps_disallowed_commands S) = Some d"
      using no_disallowed[of raw S] by auto
    then show ?thesis using False by (simp add: Let_def)
  qed
qed simp

lemma scan_accepts:
  assumes "scan_segments E S sl s cmds = Inr s'"
  shows "(bs_prompts s' = [] \<longleftrightarrow>
      bs_prompts s = [] \<and> (\<forall>raw \<in> set cmds. is_setup raw \<or> segment_settled E S sl raw)) \<and>
    bs_found s' = bs_found s \<union> (\<Union>raw \<in> set cmds. segment_findings S raw)"
  using assms
proof (induction cmds arbitrary: s)
  case (Cons raw cmds)
  show ?case
  proof (cases "is_setup raw")
    case True
    then have "scan_segments E S sl (note_segment raw s) cmds = Inr s'" using Cons.prems by (simp add: Let_def)
    from Cons.IH[OF this] show ?thesis using True by (auto simp: segment_findings_def)
  next
    case False
    then have "scan_segments E S sl (judge_segment E S sl (unwrap_wrappers raw) (note_segment raw s)) cmds = Inr s'"
      using Cons.prems by (simp add: Let_def split: option.splits)
    from Cons.IH[OF this] show ?thesis
      using False unfolding judge_segment_prompts judge_segment_found
      by (simp add: segment_findings_def Let_def Un_ac del: Un_insert_right)
  qed
qed simp

lemma scan_git:
  "scan_segments E S sl s cmds = Inr s' \<Longrightarrow>
     bs_git s' \<longleftrightarrow> bs_git s \<or> (\<exists>raw \<in> set cmds. sf_has_git (segment_exec_facts raw))"
proof (induction cmds arbitrary: s)
  case (Cons raw cmds)
  have "bs_git (judge_segment E S sl ws t) = bs_git t" for ws t
    by (simp add: judge_segment_def must_prompt_def found_if_def Let_def)
  then show ?case using Cons by (auto simp: Let_def split: if_splits option.splits)
qed simp

section \<open>The command\<close>

text \<open>The facts of the syntax tree of a plain script.\<close>

definition plain_script :: "'g shell_env \<Rightarrow> ustr \<Rightarrow> script_tree \<Rightarrow> words list \<Rightarrow> bool" where
  "plain_script E cmd tree cmds \<longleftrightarrow>
     sh_tree E cmd = Some tree \<and> pv_commands (sh_policy E) cmd = Some cmds"

lemma evaluate_plain:
  "plain_script E cmd tree cmds \<Longrightarrow>
     evaluate_bash E cmd S sl =
       judge_script E S sl (cmd \<in> set (ps_allowed_commands S)) (script_findings tree cmds) cmds"
  by (simp add: plain_script_def evaluate_bash_def)

lemma evaluate_not_plain:
  "\<nexists>tree cmds. plain_script E cmd tree cmds \<Longrightarrow> be_segments (evaluate_bash E cmd S sl) = Unparseable"
  by (auto simp: plain_script_def evaluate_bash_def unparseable_def Let_def split: option.split)

lemma be_exact_evaluate [simp]: "be_exact (evaluate_bash E cmd S sl) \<longleftrightarrow> cmd \<in> set (ps_allowed_commands S)"
  by (simp add: evaluate_bash_def unparseable_def judge_script_def Let_def split: option.split sum.split prod.split)

lemma unparseable_findings:
  "be_segments (evaluate_bash E cmd S sl) = Unparseable \<Longrightarrow>
     UnparseableShell \<in> be_assessment (evaluate_bash E cmd S sl)"
  by (simp add: evaluate_bash_def unparseable_def judge_script_def Let_def
      split: option.splits sum.splits prod.splits if_splits)

lemma evaluate_rejects:
  "(\<exists>reason. be_segments (evaluate_bash E cmd S sl) = Segment_Reject reason) \<longleftrightarrow>
     (\<exists>tree cmds. plain_script E cmd tree cmds \<and> (\<exists>raw \<in> set cmds. \<not> is_setup raw \<and> segment_rejected S raw))"
proof (cases "\<exists>tree cmds. plain_script E cmd tree cmds")
  case True
  then obtain tree cmds where p: "plain_script E cmd tree cmds" by blast
  then have only: "plain_script E cmd tree' cmds' \<longleftrightarrow> tree' = tree \<and> cmds' = cmds" for tree' cmds'
    by (auto simp: plain_script_def)
  show ?thesis unfolding evaluate_plain[OF p] only
    using scan_rejects[of E S sl "scan_start (script_findings tree cmds)" cmds]
    by (simp add: judge_script_def split: sum.splits prod.splits if_splits) (metis sum.distinct(1))
next
  case False
  then show ?thesis using evaluate_not_plain[of E cmd S sl] by auto
qed

lemma evaluate_auto_allow:
  "(\<exists>via. be_segments (evaluate_bash E cmd S sl) = AutoAllow via) \<longleftrightarrow>
     (\<exists>tree cmds. plain_script E cmd tree cmds \<and>
       (\<forall>raw \<in> set cmds. is_setup raw \<or> \<not> segment_rejected S raw \<and> segment_settled E S sl raw))"
proof (cases "\<exists>tree cmds. plain_script E cmd tree cmds")
  case True
  then obtain tree cmds where p: "plain_script E cmd tree cmds" by blast
  then have only: "plain_script E cmd tree' cmds' \<longleftrightarrow> tree' = tree \<and> cmds' = cmds" for tree' cmds'
    by (auto simp: plain_script_def)
  let ?scan = "scan_segments E S sl (scan_start (script_findings tree cmds)) cmds"
  show ?thesis
  proof (cases ?scan)
    case (Inl x)
    then show ?thesis unfolding evaluate_plain[OF p] only
      using scan_rejects[of E S sl "scan_start (script_findings tree cmds)" cmds]
      by (auto simp: judge_script_def split: prod.split)
  next
    case (Inr s)
    then have "\<not> (\<exists>raw \<in> set cmds. \<not> is_setup raw \<and> segment_rejected S raw)"
      using scan_rejects[of E S sl "scan_start (script_findings tree cmds)" cmds] by simp
    then show ?thesis unfolding evaluate_plain[OF p] only
      using Inr scan_accepts[OF Inr] by (auto simp: judge_script_def scan_start_def)
  qed
next
  case False
  then show ?thesis using evaluate_not_plain[of E cmd S sl] by auto
qed

lemma evaluate_findings:
  assumes "plain_script E cmd tree cmds" "\<nexists>reason. be_segments (evaluate_bash E cmd S sl) = Segment_Reject reason"
  shows "be_assessment (evaluate_bash E cmd S sl) =
    script_findings tree cmds \<union> (\<Union>raw \<in> set cmds. segment_findings S raw)"
proof -
  obtain s where s: "scan_segments E S sl (scan_start (script_findings tree cmds)) cmds = Inr s"
    using assms(2) unfolding evaluate_plain[OF assms(1)]
    by (cases "scan_segments E S sl (scan_start (script_findings tree cmds)) cmds") (auto simp: judge_script_def)
  then show ?thesis using scan_accepts[OF s] unfolding evaluate_plain[OF assms(1)]
    by (simp add: judge_script_def scan_start_def)
qed

lemma no_git_no_ambient:
  assumes "plain_script E cmd tree cmds" "\<forall>raw \<in> set cmds. \<not> sf_has_git (segment_exec_facts raw)"
  shows "be_ambient (evaluate_bash E cmd S sl) = None"
  unfolding evaluate_plain[OF assms(1)]
  using scan_git[of E S sl "scan_start (script_findings tree cmds)" cmds] assms(2)
  by (auto simp: judge_script_def scan_start_def split: sum.split prod.split)

section \<open>Wrappers\<close>

lemma unwrap_rounds_done:
  "\<not> wp_exhausted (unwrap_rounds n p) \<Longrightarrow> \<not> still_wrapped (wp_words (unwrap_rounds n p))"
proof (induction n arbitrary: p)
  case (Suc n)
  show ?case
  proof (cases "strip_wrapper_command (wp_words p)")
    case None
    have "wp_words (note_env (wp_words p) p) = wp_words p" by (simp add: note_env_def Let_def)
    then show ?thesis using None by (simp add: Let_def still_wrapped_iff)
  next
    case (Some inner)
    then show ?thesis using Suc by (simp add: Let_def)
  qed
qed simp

lemma exec_rounds_unwrapped: "exec_rounds n ws \<noteq> None \<Longrightarrow> \<not> wp_exhausted (unwrap_wrappers_checked ws)"
  by (cases n) (auto simp: Let_def split: if_splits)

text \<open>A segment without execution risk has lost all its wrappers: none hides behind the bound on their
  number.\<close>

lemma no_risk_unwrapped:
  assumes "ExecOrAmbientGit \<notin> segment_findings S raw"
  shows "\<not> still_wrapped (unwrap_wrappers raw)"
proof -
  have "exec_rounds max_normalize_rounds raw \<noteq> None" unfolding normalize_for_exec_risk_def[symmetric]
    using assms by (auto simp: segment_findings_def segment_exec_facts_def Let_def split: if_splits option.splits)
  then have "\<not> wp_exhausted (unwrap_wrappers_checked raw)" by (rule exec_rounds_unwrapped)
  then show ?thesis unfolding unwrap_wrappers_def unwrap_wrappers_checked_def by (rule unwrap_rounds_done)
qed

end
