(* ===== verification/Breaker_Window.thy ===== *)
theory Breaker_Window
  imports Unicode_Text
begin

text \<open>
  The sample window of the circuit breaker (\<open>xai-circuit-breaker/src/window.rs\<close>). Instants and
  durations are nanoseconds. The failure counter is unsigned: where the code would decrement it below
  zero the result is \<open>None\<close>, a panic. What the breaker needs of a window is the locale
  \<open>sample_window\<close>: a queue of samples, with a cap and a cut-off.
\<close>

section \<open>The window\<close>

definition max_window_entries :: nat where
  "max_window_entries = 10000"

record sliding_window =
  sw_entries :: "(nat \<times> bool) list"
  sw_failures :: nat

definition new_window :: sliding_window where
  "new_window = \<lparr>sw_entries = [], sw_failures = 0\<rparr>"

definition uncount :: "bool \<Rightarrow> nat \<Rightarrow> nat option" where
  "uncount was_failure n = (if \<not> was_failure then Some n else if n = 0 then None else Some (n - 1))"

definition push :: "bool \<Rightarrow> nat \<Rightarrow> sliding_window \<Rightarrow> sliding_window option" where
  "push is_failure at w =
     (let popped =
        (if max_window_entries \<le> length (sw_entries w) then
           (case sw_entries w of
              [] \<Rightarrow> Some w
            | (_, was_failure) # es \<Rightarrow>
                map_option (\<lambda>n. \<lparr>sw_entries = es, sw_failures = n\<rparr>) (uncount was_failure (sw_failures w)))
         else Some w)
      in map_option (\<lambda>w. \<lparr>sw_entries = sw_entries w @ [(at, is_failure)],
                          sw_failures = (if is_failure then sw_failures w + 1 else sw_failures w)\<rparr>) popped)"

fun evict_before :: "nat \<Rightarrow> (nat \<times> bool) list \<Rightarrow> nat \<Rightarrow> sliding_window option" where
  "evict_before cutoff [] n = Some \<lparr>sw_entries = [], sw_failures = n\<rparr>"
| "evict_before cutoff ((ts, was_failure) # es) n =
     (if ts < cutoff then
        (case uncount was_failure n of None \<Rightarrow> None | Some n' \<Rightarrow> evict_before cutoff es n')
      else Some \<lparr>sw_entries = (ts, was_failure) # es, sw_failures = n\<rparr>)"

definition evict :: "nat \<Rightarrow> nat \<Rightarrow> sliding_window \<Rightarrow> sliding_window option" where
  "evict window now w =
     (if now < window then Some w
      else evict_before (now - window) (sw_entries w) (sw_failures w))"

definition sample_count :: "sliding_window \<Rightarrow> nat" where
  "sample_count w = length (sw_entries w)"

definition clear_window :: "sliding_window \<Rightarrow> sliding_window" where
  "clear_window w = \<lparr>sw_entries = [], sw_failures = 0\<rparr>"

section \<open>The failure rate as a double\<close>

text \<open>The quotient of two numbers, of which the first is not the larger, rounded to 53 significant
  bits with ties to even: \<open>(m, e)\<close> stands for \<open>m / 2 ^ e\<close>. Both are exact as doubles, being at
  most the cap.\<close>

function shift_up :: "nat \<Rightarrow> nat \<Rightarrow> nat" where
  "shift_up f n = (if f = 0 \<or> n \<le> f then 0 else Suc (shift_up (2 * f) n))"
  by auto
termination
  by (relation "measure (\<lambda>(f, n). n - f)") auto

declare shift_up.simps [simp del]

definition round_half_even :: "nat \<Rightarrow> nat \<Rightarrow> nat" where
  "round_half_even a b =
     (let q = a div b; r = a mod b in
      if 2 * r < b then q else if b < 2 * r then q + 1 else if even q then q else q + 1)"

definition div_f64 :: "nat \<Rightarrow> nat \<Rightarrow> nat \<times> nat" where
  "div_f64 f n =
     (if f = 0 then (0, 0)
      else (let e = 52 + shift_up f n in (round_half_even (f * 2 ^ e) n, e)))"

definition error_rate_of :: "sliding_window \<Rightarrow> nat \<times> nat" where
  "error_rate_of w =
     (if sw_entries w = [] then (0, 0) else div_f64 (sw_failures w) (length (sw_entries w)))"

text \<open>A finite double is \<open>m / 2 ^ e\<close>, with the sign in \<open>m\<close>. No comparison with \<open>NaN\<close> holds.\<close>

datatype f64 = NaN | PosInf | NegInf | Fin int nat

fun rate_at_least :: "nat \<times> nat \<Rightarrow> f64 \<Rightarrow> bool" where
  "rate_at_least (m, e) NaN = False"
| "rate_at_least (m, e) PosInf = False"
| "rate_at_least (m, e) NegInf = True"
| "rate_at_least (m, e) (Fin k d) \<longleftrightarrow> k * 2 ^ e \<le> int m * 2 ^ d"

section \<open>The interface\<close>

locale sample_window =
  fixes ins :: "bool \<Rightarrow> nat \<Rightarrow> 'w \<Rightarrow> 'w option"
    and cut :: "nat \<Rightarrow> nat \<Rightarrow> 'w \<Rightarrow> 'w option"
    and samples :: "'w \<Rightarrow> (nat \<times> bool) list"
    and inv :: "'w \<Rightarrow> bool"
    and cap :: nat
  assumes cap: "0 < cap" "inv w \<Longrightarrow> length (samples w) \<le> cap"
    and ins: "inv w \<Longrightarrow> \<exists>w'. ins b t w = Some w' \<and> inv w' \<and>
      samples w' = (if length (samples w) = cap then tl (samples w) else samples w) @ [(t, b)]"
    and cut: "inv w \<Longrightarrow> \<exists>w'. cut d now w = Some w' \<and> inv w' \<and>
      samples w' = (if now < d then samples w else dropWhile (\<lambda>s. fst s < now - d) (samples w))"
begin

text \<open>Recording a sample: never a panic; a fresh sample is always kept.\<close>

definition record_sample :: "nat \<Rightarrow> bool \<Rightarrow> nat \<Rightarrow> 'w \<Rightarrow> 'w option" where
  "record_sample d b t w = (case ins b t w of None \<Rightarrow> None | Some w' \<Rightarrow> cut d t w')"

definition live :: "nat \<Rightarrow> bool \<Rightarrow> nat \<Rightarrow> (nat \<times> bool) list \<Rightarrow> (nat \<times> bool) list" where
  "live d b t ss =
     (let ss' = (if length ss = cap then tl ss else ss) @ [(t, b)]
      in if t < d then ss' else dropWhile (\<lambda>s. fst s < t - d) ss')"

lemma record_sample:
  assumes "inv w"
  shows "\<exists>w'. record_sample d b t w = Some w' \<and> inv w' \<and> samples w' = live d b t (samples w)"
proof -
  obtain w1 where w1: "ins b t w = Some w1" "inv w1"
    "samples w1 = (if length (samples w) = cap then tl (samples w) else samples w) @ [(t, b)]"
    using ins[OF assms] by blast
  then show ?thesis using cut[OF w1(2), of d t] by (auto simp: record_sample_def live_def Let_def)
qed

lemma live_keeps_new: "(t, b) \<in> set (live d b t ss)"
proof -
  have "(t, b) \<in> set (dropWhile (\<lambda>s. fst s < t - d) (xs @ [(t, b)]))" for xs
    by (induction xs) auto
  then show ?thesis by (auto simp: live_def Let_def)
qed

end

section \<open>The window provides it\<close>

definition failures_in :: "(nat \<times> bool) list \<Rightarrow> nat" where
  "failures_in es = length (filter snd es)"

definition window_ok :: "sliding_window \<Rightarrow> bool" where
  "window_ok w \<longleftrightarrow> sw_failures w = failures_in (sw_entries w) \<and> length (sw_entries w) \<le> max_window_entries"

lemma failures_simps [simp]:
  "failures_in [] = 0"
  "failures_in ((t, b) # es) = (if b then Suc (failures_in es) else failures_in es)"
  "failures_in (es @ fs) = failures_in es + failures_in fs"
  by (simp_all add: failures_in_def)

lemma push_ok:
  assumes "window_ok w"
  shows "\<exists>w'. push b t w = Some w' \<and> window_ok w' \<and>
    sw_entries w' = (if length (sw_entries w) = max_window_entries then tl (sw_entries w)
                     else sw_entries w) @ [(t, b)]"
proof (cases "max_window_entries \<le> length (sw_entries w)")
  case True
  then obtain ts f es where "sw_entries w = (ts, f) # es"
    by (cases "sw_entries w") (auto simp: max_window_entries_def)
  then show ?thesis using assms True by (auto simp: push_def window_ok_def uncount_def)
next
  case False
  then show ?thesis using assms by (auto simp: push_def window_ok_def)
qed

lemma evict_before_ok:
  "evict_before c es (failures_in es) = Some \<lparr>sw_entries = dropWhile (\<lambda>s. fst s < c) es,
     sw_failures = failures_in (dropWhile (\<lambda>s. fst s < c) es)\<rparr>"
  by (induction c es "failures_in es" rule: evict_before.induct) (auto simp: uncount_def)

lemma evict_ok:
  assumes "window_ok w"
  shows "\<exists>w'. evict d now w = Some w' \<and> window_ok w' \<and>
    sw_entries w' = (if now < d then sw_entries w else dropWhile (\<lambda>s. fst s < now - d) (sw_entries w))"
proof -
  have "length (dropWhile (\<lambda>s. fst s < now - d) (sw_entries w)) \<le> max_window_entries"
    using assms length_dropWhile_le[of "\<lambda>s. fst s < now - d" "sw_entries w"]
    by (simp add: window_ok_def)
  then show ?thesis using assms by (auto simp: evict_def window_ok_def evict_before_ok)
qed

interpretation window: sample_window push evict sw_entries window_ok max_window_entries
  by unfold_locales
    (use push_ok evict_ok in \<open>auto simp: max_window_entries_def window_ok_def\<close>)

lemma new_window_ok: "window_ok new_window" "window_ok (clear_window w)"
  by (simp_all add: window_ok_def new_window_def clear_window_def)

section \<open>The threshold of one half\<close>

lemma shift_up_le: "0 < f \<Longrightarrow> n \<le> f * 2 ^ shift_up f n"
proof (induction f n rule: shift_up.induct)
  case (1 f n)
  show ?case
  proof (cases "n \<le> f")
    case True
    then show ?thesis by (subst shift_up.simps) simp
  next
    case False
    then have "n \<le> 2 * f * 2 ^ shift_up (2 * f) n" using 1 by simp
    then show ?thesis using False 1(2) by (subst shift_up.simps) (simp add: mult.assoc mult.commute)
  qed
qed

lemma shift_up_half: "n \<le> 2 * f \<Longrightarrow> shift_up f n \<le> 1"
  by (subst shift_up.simps, subst shift_up.simps) auto

lemma round_bounds:
  assumes "0 < b"
  shows "a div b \<le> round_half_even a b \<and> round_half_even a b \<le> a div b + 1"
  by (simp add: round_half_even_def Let_def)

text \<open>For windows within the cap, comparing the rounded rate with one half is exact.\<close>

lemma half_exact:
  assumes "f \<le> n" "0 < n" "n \<le> max_window_entries"
  shows "rate_at_least (div_f64 f n) (Fin 1 1) \<longleftrightarrow> n \<le> 2 * f"
proof (cases "f = 0")
  case True
  then show ?thesis using assms by (simp add: div_f64_def)
next
  case False
  define k where "k = shift_up f n"
  define p where "p = (2 :: nat) ^ (51 + k)"
  define m where "m = round_half_even (f * (2 * p)) n"
  have e: "(2 :: nat) ^ (52 + k) = 2 * p" by (simp add: p_def power_add)
  have "rate_at_least (div_f64 f n) (Fin 1 1) \<longleftrightarrow> (2 :: int) ^ (52 + k) \<le> int m * 2"
    using False by (simp add: div_f64_def Let_def e[symmetric] m_def k_def)
  also have "(2 :: int) ^ (52 + k) = int (2 * p)" unfolding e[symmetric] by simp
  finally have le: "rate_at_least (div_f64 f n) (Fin 1 1) \<longleftrightarrow> p \<le> m" by linarith
  have m: "f * (2 * p) div n \<le> m" "m \<le> f * (2 * p) div n + 1"
    using round_bounds[of n "f * (2 * p)"] assms(2) by (simp_all add: m_def)
  show ?thesis
  proof (cases "n \<le> 2 * f")
    case True
    have "p * n \<le> p * (2 * f)" using True by (rule mult_le_mono2)
    then have "p * n \<le> f * (2 * p)" by (simp add: ac_simps)
    then have "p \<le> f * (2 * p) div n" using assms(2) by (simp add: less_eq_div_iff_mult_less_eq)
    then show ?thesis using le m(1) True by simp
  next
    case False
    then have "p * (2 * f) \<le> p * (n - 1)" by (intro mult_le_mono2) simp
    then have "f * (2 * p) \<le> p * n - p" by (simp add: ac_simps right_diff_distrib')
    moreover have "2 * n \<le> p"
    proof -
      have "2 * n \<le> 2 ^ 51" using assms(3) by (simp add: max_window_entries_def)
      also have "\<dots> \<le> p" unfolding p_def by (rule power_increasing) simp_all
      finally show ?thesis .
    qed
    moreover have "p \<le> p * n" using assms(2) by simp
    ultimately have "f * (2 * p) \<le> p * n - 2 * n" by linarith
    also have "\<dots> = (p - 2) * n" by (simp add: left_diff_distrib')
    finally have "f * (2 * p) div n \<le> p - 2"
      using assms(2) by (metis div_le_mono nonzero_mult_div_cancel_right not_gr_zero)
    moreover have "2 \<le> p" using \<open>2 * n \<le> p\<close> assms(2) by linarith
    ultimately have "m < p" using m(2) by linarith
    then show ?thesis using le False by simp
  qed
qed

end
