(* ===== verification/Breaker.thy ===== *)
theory Breaker
  imports Breaker_Window "HOL-Library.Word"
begin

text \<open>
  The circuit breaker (\<open>xai-circuit-breaker/src/breaker.rs\<close>, \<open>state.rs\<close>) as one thread sees
  it. Time is a sequence of clock readings in nanoseconds; every call of \<open>clock.now()\<close>
  takes the next one. The probe counter is an \<open>AtomicUsize\<close> and wraps; millisecond
  stamps are \<open>AtomicU64\<close>. The observer is the list of its callbacks. \<open>None\<close> is a panic.
\<close>

section \<open>State\<close>

datatype breaker_state = Closed | Open | HalfOpen

datatype outcome = Succeeded | Failed

record breaker_config =
  bc_window :: nat
  bc_min_samples :: nat
  bc_threshold :: f64
  bc_open :: nat
  bc_max_probes :: nat
  bc_failure_codes :: "nat list"
  bc_enabled :: bool

datatype breaker_event =
  StateChange breaker_state breaker_state string
| ProbeAdmission bool
| OutcomeSeen outcome breaker_state

record breaker =
  br_config :: breaker_config
  br_state :: breaker_state
  br_baseline :: nat
  br_opened_at :: nat
  br_probes :: "64 word"
  br_claimed_at :: nat
  br_open_fast :: bool
  br_window :: sliding_window
  br_ticks :: nat
  br_events :: "breaker_event list"

type_synonym clock = "nat \<Rightarrow> nat"

text \<open>The error of a shed request: after how long to retry, in nanoseconds.\<close>

datatype breaker_open = BreakerOpen nat

definition ms :: nat where "ms = 1000000"

definition u64 :: "nat \<Rightarrow> nat" where "u64 n = n mod 2 ^ 64"

definition with_clock :: "breaker_config \<Rightarrow> clock \<Rightarrow> breaker" where
  "with_clock c clk =
     \<lparr>br_config = c\<lparr>bc_max_probes := max (bc_max_probes c) 1\<rparr>, br_state = Closed, br_baseline = clk 0,
      br_opened_at = 0, br_probes = 0, br_claimed_at = 0, br_open_fast = False,
      br_window = new_window, br_ticks = 1, br_events = []\<rparr>"

definition now :: "clock \<Rightarrow> breaker \<Rightarrow> nat \<times> breaker" where
  "now clk b = (clk (br_ticks b), b\<lparr>br_ticks := br_ticks b + 1\<rparr>)"

definition elapsed_millis :: "clock \<Rightarrow> breaker \<Rightarrow> nat \<times> breaker" where
  "elapsed_millis clk b = (let (t, b1) = now clk b in (u64 ((t - br_baseline b) div ms), b1))"

definition observe :: "breaker_event \<Rightarrow> breaker \<Rightarrow> breaker" where
  "observe e b = b\<lparr>br_events := br_events b @ [e]\<rparr>"

section \<open>Transitions\<close>

definition trip :: "clock \<Rightarrow> breaker_state \<Rightarrow> string \<Rightarrow> breaker \<Rightarrow> breaker" where
  "trip clk prev reason b =
     (let (t, b1) = elapsed_millis clk (b\<lparr>br_state := Open\<rparr>);
          b2 = b1\<lparr>br_opened_at := t, br_probes := 0, br_open_fast := True\<rparr>
      in if prev \<noteq> Open then observe (StateChange prev Open reason) b2 else b2)"

definition close :: "breaker_state \<Rightarrow> string \<Rightarrow> breaker \<Rightarrow> breaker" where
  "close prev reason b =
     (let b1 = b\<lparr>br_state := Closed, br_window := clear_window (br_window b), br_probes := 0,
                br_open_fast := False\<rparr>
      in if prev \<noteq> Closed then observe (StateChange prev Closed reason) b1 else b1)"

definition force_half_open :: "breaker \<Rightarrow> breaker" where
  "force_half_open b =
     (let b1 = b\<lparr>br_state := HalfOpen, br_open_fast := False, br_probes := 0\<rparr>
      in if br_state b \<noteq> HalfOpen
         then observe (StateChange (br_state b) HalfOpen ''force_half_open'') b1 else b1)"

definition cas_state :: "breaker_state \<Rightarrow> breaker_state \<Rightarrow> breaker \<Rightarrow> bool \<times> breaker" where
  "cas_state from to b = (if br_state b = from then (True, b\<lparr>br_state := to\<rparr>) else (False, b))"

definition half_open_backoff :: nat where
  "half_open_backoff = 50 * ms"

definition lease_millis :: "breaker \<Rightarrow> nat" where
  "lease_millis b = u64 (bc_open (br_config b) div ms)"

definition try_half_open_probe :: "clock \<Rightarrow> breaker \<Rightarrow> breaker \<times> (breaker_open + unit)" where
  "try_half_open_probe clk b =
     (let (t, b1) = elapsed_millis clk b;
          prev = unat (br_probes b1);
          b2 = b1\<lparr>br_probes := br_probes b1 + 1\<rparr>
      in if prev < bc_max_probes (br_config b)
         then (observe (ProbeAdmission True) (b2\<lparr>br_claimed_at := t\<rparr>), Inr ())
         else
           (let b3 = b2\<lparr>br_probes := br_probes b2 - 1\<rparr>; claimed = br_claimed_at b3 in
            if t - claimed \<ge> lease_millis b
            then (observe (ProbeAdmission True) (b3\<lparr>br_claimed_at := t\<rparr>), Inr ())
            else (observe (ProbeAdmission False) b3,
                  Inl (BreakerOpen (min half_open_backoff (bc_open (br_config b)))))))"

section \<open>Requests\<close>

definition check_open :: "clock \<Rightarrow> breaker \<Rightarrow> breaker \<times> (breaker_open + unit)" where
  "check_open clk b =
     (let opened = br_opened_at b;
          (t, b1) = elapsed_millis clk b;
          elapsed = (t - opened) * ms;
          open_duration = bc_open (br_config b)
      in if elapsed \<ge> open_duration then
           (case cas_state Open HalfOpen b1 of
              (True, b2) \<Rightarrow>
                try_half_open_probe clk
                  (observe (StateChange Open HalfOpen ''open_elapsed'') (b2\<lparr>br_open_fast := False\<rparr>))
            | (False, b2) \<Rightarrow>
                (case br_state b2 of
                   Closed \<Rightarrow> (b2, Inr ())
                 | HalfOpen \<Rightarrow> try_half_open_probe clk b2
                 | Open \<Rightarrow>
                     (let (t', b3) = elapsed_millis clk b2
                      in (b3, Inl (BreakerOpen (open_duration - (t' - br_opened_at b3) * ms))))))
         else (b1, Inl (BreakerOpen (open_duration - elapsed))))"

definition check :: "clock \<Rightarrow> breaker \<Rightarrow> breaker \<times> (breaker_open + unit)" where
  "check clk b =
     (if \<not> bc_enabled (br_config b) then (b, Inr ())
      else case br_state b of
        Closed \<Rightarrow> (b, Inr ())
      | Open \<Rightarrow> check_open clk b
      | HalfOpen \<Rightarrow> try_half_open_probe clk b)"

definition record_window :: "bool \<Rightarrow> nat \<Rightarrow> breaker \<Rightarrow> breaker option" where
  "record_window is_failure t b =
     (case push is_failure t (br_window b) of
        None \<Rightarrow> None
      | Some w \<Rightarrow> map_option (\<lambda>w'. b\<lparr>br_window := w'\<rparr>) (evict (bc_window (br_config b)) t w))"

definition should_trip :: "breaker_config \<Rightarrow> sliding_window \<Rightarrow> bool" where
  "should_trip c w \<longleftrightarrow>
     bc_min_samples c \<le> sample_count w \<and> rate_at_least (error_rate_of w) (bc_threshold c)"

definition record_outcome :: "clock \<Rightarrow> outcome \<Rightarrow> breaker \<Rightarrow> breaker option" where
  "record_outcome clk out b =
     (if \<not> bc_enabled (br_config b) then Some b
      else
        (let is_failure = (out = Failed); (t, b1) = now clk b; prev = br_state b1;
             r = (case prev of
                    Closed \<Rightarrow>
                      map_option (\<lambda>b2. if should_trip (br_config b2) (br_window b2)
                                       then trip clk prev ''trip'' b2 else b2)
                        (record_window is_failure t b1)
                  | HalfOpen \<Rightarrow>
                      Some (if is_failure then trip clk prev ''probe_failure'' b1
                            else close prev ''probe_success'' b1)
                  | Open \<Rightarrow> record_window is_failure t b1)
         in map_option (\<lambda>b2. observe (OutcomeSeen out (br_state b2)) b2) r))"

definition is_open :: "breaker \<Rightarrow> bool" where
  "is_open b = br_open_fast b"

definition error_rate :: "clock \<Rightarrow> breaker \<Rightarrow> ((nat \<times> nat) \<times> breaker) option" where
  "error_rate clk b =
     (let (t, b1) = now clk b in
      map_option (\<lambda>w. (error_rate_of w, b1\<lparr>br_window := w\<rparr>))
        (evict (bc_window (br_config b1)) t (br_window b1)))"

section \<open>The breaker as a machine\<close>

datatype breaker_input = Check | Record outcome | ReadRate | ForceHalfOpen

fun breaker_step :: "clock \<Rightarrow> breaker_input \<Rightarrow> breaker \<Rightarrow> breaker option" where
  "breaker_step clk Check b = Some (fst (check clk b))"
| "breaker_step clk (Record out) b = record_outcome clk out b"
| "breaker_step clk ReadRate b = map_option snd (error_rate clk b)"
| "breaker_step clk ForceHalfOpen b = Some (force_half_open b)"

fun breaker_run :: "clock \<Rightarrow> breaker_input list \<Rightarrow> breaker \<Rightarrow> breaker option" where
  "breaker_run clk [] b = Some b"
| "breaker_run clk (i # is) b =
     (case breaker_step clk i b of None \<Rightarrow> None | Some b' \<Rightarrow> breaker_run clk is b')"

end
