(* ===== verification/Breaker_Facts.thy ===== *)
theory Breaker_Facts
  imports Breaker
begin

text \<open>
  The invariant of the circuit breaker and its operations under it: no counter
  underflows, the lock-free flag mirrors the state, and the probe slots in use never
  exceed the configured number.
\<close>

section \<open>Invariant\<close>

definition breaker_ok :: "breaker \<Rightarrow> bool" where
  "breaker_ok b \<longleftrightarrow>
     window_ok (br_window b) \<and> br_open_fast b = (br_state b = Open) \<and>
     1 \<le> bc_max_probes (br_config b) \<and> bc_max_probes (br_config b) < 2 ^ 64 \<and>
     unat (br_probes b) \<le> bc_max_probes (br_config b) \<and>
     (br_state b \<noteq> HalfOpen \<longrightarrow> br_probes b = 0)"

lemma with_clock_ok: "bc_max_probes c < 2 ^ 64 \<Longrightarrow> breaker_ok (with_clock c clk)"
  by (simp add: breaker_ok_def with_clock_def new_window_ok)

lemma unat_inc: "unat (w :: 64 word) < m \<Longrightarrow> m < 2 ^ 64 \<Longrightarrow> unat (w + 1) = unat w + 1"
  by (simp add: unat_word_ariths)

lemma ticks_simps [simp]:
  "now clk b = (t, b') \<longleftrightarrow> t = clk (br_ticks b) \<and> b' = b\<lparr>br_ticks := br_ticks b + 1\<rparr>"
  "elapsed_millis clk b = (t, b') \<longleftrightarrow>
     t = u64 ((clk (br_ticks b) - br_baseline b) div ms) \<and> b' = b\<lparr>br_ticks := br_ticks b + 1\<rparr>"
  by (auto simp: now_def elapsed_millis_def Let_def)

text \<open>The time stamp of the next reading.\<close>

definition stamp :: "clock \<Rightarrow> breaker \<Rightarrow> nat \<Rightarrow> nat" where
  "stamp clk b k = u64 ((clk (br_ticks b + k) - br_baseline b) div ms)"

lemma stamp0: "stamp clk b 0 = u64 ((clk (br_ticks b) - br_baseline b) div ms)"
  by (simp add: stamp_def)

section \<open>Probes\<close>

text \<open>The three outcomes of claiming a probe slot.\<close>

lemma probe_free:
  assumes "unat (br_probes b) < bc_max_probes (br_config b)"
  shows "try_half_open_probe clk b =
    (observe (ProbeAdmission True)
      (b\<lparr>br_ticks := br_ticks b + 1, br_probes := br_probes b + 1, br_claimed_at := stamp clk b 0\<rparr>), Inr ())"
  using assms by (simp add: try_half_open_probe_def elapsed_millis_def now_def Let_def stamp0)

lemma probe_lease:
  assumes "bc_max_probes (br_config b) \<le> unat (br_probes b)"
    "lease_millis b \<le> stamp clk b 0 - br_claimed_at b"
  shows "try_half_open_probe clk b =
    (observe (ProbeAdmission True) (b\<lparr>br_ticks := br_ticks b + 1, br_claimed_at := stamp clk b 0\<rparr>), Inr ())"
  using assms by (simp add: try_half_open_probe_def elapsed_millis_def now_def Let_def stamp0 lease_millis_def)

lemma probe_reject:
  assumes "bc_max_probes (br_config b) \<le> unat (br_probes b)"
    "stamp clk b 0 - br_claimed_at b < lease_millis b"
  shows "try_half_open_probe clk b =
    (observe (ProbeAdmission False) (b\<lparr>br_ticks := br_ticks b + 1\<rparr>),
     Inl (BreakerOpen (min half_open_backoff (bc_open (br_config b)))))"
  using assms by (simp add: try_half_open_probe_def elapsed_millis_def now_def Let_def stamp0 lease_millis_def)

lemmas probe_cases = probe_free probe_lease probe_reject

lemma observe_fields [simp]:
  "br_config (observe e b) = br_config b" "br_state (observe e b) = br_state b"
  "br_probes (observe e b) = br_probes b" "br_open_fast (observe e b) = br_open_fast b"
  "br_window (observe e b) = br_window b" "br_claimed_at (observe e b) = br_claimed_at b"
  "br_ticks (observe e b) = br_ticks b" "br_baseline (observe e b) = br_baseline b"
  "br_opened_at (observe e b) = br_opened_at b" "br_events (observe e b) = br_events b @ [e]"
  by (simp_all add: observe_def)

lemma probe_ok:
  assumes "breaker_ok b" "br_state b = HalfOpen"
  shows "breaker_ok (fst (try_half_open_probe clk b))"
proof -
  consider "unat (br_probes b) < bc_max_probes (br_config b)"
    | "bc_max_probes (br_config b) \<le> unat (br_probes b)" "lease_millis b \<le> stamp clk b 0 - br_claimed_at b"
    | "bc_max_probes (br_config b) \<le> unat (br_probes b)" "stamp clk b 0 - br_claimed_at b < lease_millis b"
    by linarith
  then show ?thesis
  proof cases
    case 1
    then show ?thesis using assms unat_inc[OF 1]
      by (simp add: probe_free breaker_ok_def)
  next
    case 2
    then show ?thesis using assms by (simp add: probe_lease breaker_ok_def)
  next
    case 3
    then show ?thesis using assms by (simp add: probe_reject breaker_ok_def)
  qed
qed

section \<open>Checks\<close>

lemma check_open_cool:
  assumes "(stamp clk b 0 - br_opened_at b) * ms < bc_open (br_config b)"
  shows "check_open clk b = (b\<lparr>br_ticks := br_ticks b + 1\<rparr>,
    Inl (BreakerOpen (bc_open (br_config b) - (stamp clk b 0 - br_opened_at b) * ms)))"
  using assms by (simp add: check_open_def elapsed_millis_def now_def Let_def stamp0)

definition half_opened :: "breaker \<Rightarrow> breaker" where
  "half_opened b = observe (StateChange Open HalfOpen ''open_elapsed'')
     (b\<lparr>br_ticks := br_ticks b + 1, br_state := HalfOpen, br_open_fast := False\<rparr>)"

lemma check_open_elapsed:
  assumes "br_state b = Open" "bc_open (br_config b) \<le> (stamp clk b 0 - br_opened_at b) * ms"
  shows "check_open clk b = try_half_open_probe clk (half_opened b)"
  using assms by (simp add: check_open_def elapsed_millis_def now_def Let_def stamp0 cas_state_def half_opened_def)

lemma half_opened_ok: "breaker_ok b \<Longrightarrow> br_state b = Open \<Longrightarrow> breaker_ok (half_opened b)"
  by (simp add: breaker_ok_def half_opened_def)

lemma check_ok:
  assumes "breaker_ok b"
  shows "breaker_ok (fst (check clk b))"
proof (cases "br_state b")
  case Open
  show ?thesis
  proof (cases "bc_open (br_config b) \<le> (stamp clk b 0 - br_opened_at b) * ms")
    case True
    then show ?thesis using Open assms probe_ok[OF half_opened_ok[OF assms Open]]
      by (simp add: check_def check_open_elapsed) (simp add: half_opened_def)
  next
    case False
    then show ?thesis using Open assms by (simp add: check_def check_open_cool breaker_ok_def)
  qed
qed (use assms probe_ok in \<open>simp_all add: check_def\<close>)

section \<open>Outcomes\<close>

text \<open>The samples alive after one more: the oldest makes room at the cap, and those older than the
  window leave.\<close>

definition live_samples :: "nat \<Rightarrow> bool \<Rightarrow> nat \<Rightarrow> (nat \<times> bool) list \<Rightarrow> (nat \<times> bool) list" where
  "live_samples d f t ss =
     (let ss' = (if length ss = max_window_entries then tl ss else ss) @ [(t, f)]
      in if t < d then ss' else dropWhile (\<lambda>s. fst s < t - d) ss')"

lemma record_window_live:
  assumes "window_ok (br_window b)"
  shows "\<exists>w. record_window f t b = Some (b\<lparr>br_window := w\<rparr>) \<and> window_ok w \<and>
    sw_entries w = live_samples (bc_window (br_config b)) f t (sw_entries (br_window b))"
proof -
  obtain w where "window.record_sample (bc_window (br_config b)) f t (br_window b) = Some w" "window_ok w"
    "sw_entries w = window.live (bc_window (br_config b)) f t (sw_entries (br_window b))"
    using window.record_sample[OF assms] by blast
  then show ?thesis
    by (auto simp: record_window_def window.record_sample_def window.live_def live_samples_def
        split: option.splits)
qed

lemma trip_ok: "breaker_ok b \<Longrightarrow> breaker_ok (trip clk prev reason b)"
  by (simp add: trip_def breaker_ok_def elapsed_millis_def now_def Let_def)

lemma trip_state [simp]: "br_state (trip clk prev reason b) = Open"
  "br_window (trip clk prev reason b) = br_window b"
  "br_opened_at (trip clk prev reason b) = stamp clk b 0"
  by (simp_all add: trip_def elapsed_millis_def now_def Let_def stamp0)

lemma close_ok: "breaker_ok b \<Longrightarrow> breaker_ok (close prev reason b)"
  by (simp add: close_def breaker_ok_def Let_def new_window_ok)

lemma close_state [simp]: "br_state (close prev reason b) = Closed"
  "sw_entries (br_window (close prev reason b)) = []"
  by (simp_all add: close_def Let_def clear_window_def)

lemma observe_ok [simp]: "breaker_ok (observe e b) = breaker_ok b"
  by (simp add: breaker_ok_def)

lemma ticked_ok [simp]: "breaker_ok (b\<lparr>br_ticks := n\<rparr>) = breaker_ok b"
  by (simp add: breaker_ok_def)

lemma window_field_ok: "breaker_ok b \<Longrightarrow> window_ok w \<Longrightarrow> breaker_ok (b\<lparr>br_window := w\<rparr>)"
  by (simp add: breaker_ok_def)

lemma record_ok:
  assumes "breaker_ok b"
  shows "\<exists>b'. record_outcome clk out b = Some b' \<and> breaker_ok b'"
proof (cases "bc_enabled (br_config b)")
  case True
  let ?b1 = "b\<lparr>br_ticks := br_ticks b + 1\<rparr>"
  obtain w where w: "record_window (out = Failed) (clk (br_ticks b)) ?b1 = Some (?b1\<lparr>br_window := w\<rparr>)" "window_ok w"
    using record_window_live[of ?b1] assms by (auto simp: breaker_ok_def)
  have ok: "breaker_ok (?b1\<lparr>br_window := w\<rparr>)" "breaker_ok ?b1"
    using assms w(2) by (simp_all add: window_field_ok)
  show ?thesis
    using True w ok trip_ok close_ok
    by (cases "br_state b") (simp_all add: record_outcome_def now_def Let_def)
qed (simp add: record_outcome_def assms)

lemma error_rate_ok: "breaker_ok b \<Longrightarrow> \<exists>r b'. error_rate clk b = Some (r, b') \<and> breaker_ok b'"
  using evict_ok[of "br_window b" "bc_window (br_config b)" "clk (br_ticks b)"]
  by (auto simp: error_rate_def now_def breaker_ok_def)

lemma force_ok: "breaker_ok b \<Longrightarrow> breaker_ok (force_half_open b)"
  by (simp add: force_half_open_def breaker_ok_def Let_def)

lemma step_ok: "breaker_ok b \<Longrightarrow> \<exists>b'. breaker_step clk i b = Some b' \<and> breaker_ok b'"
  using check_ok record_ok error_rate_ok force_ok by (cases i) fastforce+

lemma run_ok: "breaker_ok b \<Longrightarrow> \<exists>b'. breaker_run clk is b = Some b' \<and> breaker_ok b'"
proof (induction "is" arbitrary: b)
  case (Cons i "is")
  obtain b1 where "breaker_step clk i b = Some b1" "breaker_ok b1" using step_ok[OF Cons.prems] by blast
  then show ?case using Cons.IH[of b1] by simp
qed simp

end
