(* ===== verification/Breaker_Config.thy ===== *)
theory Breaker_Config
  imports Breaker_Facts
begin

text \<open>
  Around the breaker (\<open>xai-circuit-breaker/src/config.rs\<close>, \<open>retry_policy.rs\<close>, \<open>grpc.rs\<close>,
  \<open>registry.rs\<close>): its configuration from environment variables, the classification of HTTP and
  gRPC codes, and the registry of breakers by key. Parsing a decimal double is a parameter.
\<close>

section \<open>Configuration\<close>

definition seconds :: nat where "seconds = 1000000000"

definition default_failure_codes :: "nat list" where
  "default_failure_codes = [429, 500, 502, 503, 504]"

definition server_config :: breaker_config where
  "server_config =
     \<lparr>bc_window = 60 * seconds, bc_min_samples = 10, bc_threshold = Fin 1 1, bc_open = 10 * seconds,
      bc_max_probes = 1, bc_failure_codes = default_failure_codes, bc_enabled = True\<rparr>"

definition client_config :: breaker_config where
  "client_config =
     \<lparr>bc_window = 60 * seconds, bc_min_samples = 5, bc_threshold = Fin 1 1, bc_open = 60 * seconds,
      bc_max_probes = 1, bc_failure_codes = [401], bc_enabled = True\<rparr>"

definition is_failure_status :: "breaker_config \<Rightarrow> nat \<Rightarrow> bool" where
  "is_failure_status c status \<longleftrightarrow> status \<in> set (bc_failure_codes c)"

definition parse_failure_codes :: "ustr \<Rightarrow> nat list" where
  "parse_failure_codes s = remdups (List.map_filter (\<lambda>c. parse_unsigned 65535 (trim c)) (split_on 44 s))"

definition lookup_or :: "(ustr \<Rightarrow> ustr option) \<Rightarrow> ustr \<Rightarrow> (ustr \<Rightarrow> 'a option) \<Rightarrow> 'a \<Rightarrow> 'a" where
  "lookup_or get key parse dflt =
     (case get key of
        None \<Rightarrow> dflt
      | Some v \<Rightarrow> (case parse v of None \<Rightarrow> dflt | Some x \<Rightarrow> x))"

definition max_u64 :: nat where "max_u64 = 2 ^ 64 - 1"

definition failure_codes_from :: "(ustr \<Rightarrow> ustr option) \<Rightarrow> ustr \<Rightarrow> nat list" where
  "failure_codes_from get key =
     (case get key of
        None \<Rightarrow> default_failure_codes
      | Some raw \<Rightarrow> if parse_failure_codes raw = [] then default_failure_codes else parse_failure_codes raw)"

definition from_lookup_with_prefix ::
  "(ustr \<Rightarrow> f64 option) \<Rightarrow> ustr \<Rightarrow> (ustr \<Rightarrow> ustr option) \<Rightarrow> breaker_config" where
  "from_lookup_with_prefix parse_f64 prefix get =
     (let num = (\<lambda>k d. lookup_or get (prefix @ u k) (parse_unsigned max_u64) d) in
      \<lparr>bc_window = num ''WINDOW_SECS'' 60 * seconds,
       bc_min_samples = num ''MIN_SAMPLES'' 10,
       bc_threshold = lookup_or get (prefix @ u ''ERROR_RATE_THRESHOLD'') parse_f64 (Fin 1 1),
       bc_open = num ''OPEN_DURATION_SECS'' 10 * seconds,
       bc_max_probes = max (num ''HALF_OPEN_MAX_PROBES'' 1) 1,
       bc_failure_codes = failure_codes_from get (prefix @ u ''FAILURE_CODES''),
       bc_enabled = lookup_or get (prefix @ u ''ENABLED'') parse_bool True\<rparr>)"

lemma lookup_unsigned_le:
  "dflt \<le> m \<Longrightarrow> lookup_or get key (parse_unsigned m) dflt \<le> m"
  by (auto simp: lookup_or_def parse_unsigned_bound split: option.splits)

lemma parsed_codes_range: "c \<in> set (parse_failure_codes s) \<Longrightarrow> c \<le> 65535"
  by (auto simp: parse_failure_codes_def List.map_filter_def parse_unsigned_bound)

lemma failure_codes_ne: "failure_codes_from get key \<noteq> []"
  by (simp add: failure_codes_from_def default_failure_codes_def split: option.split)

section \<open>Retry policies\<close>

datatype disposition = Retryable | AuthRefresh | Terminal

record retry_policy =
  rp_retryable :: "nat list"
  rp_auth_refresh :: "nat list"
  rp_terminal :: "nat list"
  rp_default :: disposition

definition classify :: "retry_policy \<Rightarrow> nat \<Rightarrow> disposition option" where
  "classify p status =
     (if 200 \<le> status \<and> status < 300 then None
      else if status \<in> set (rp_auth_refresh p) then Some AuthRefresh
      else if status \<in> set (rp_terminal p) then Some Terminal
      else if status \<in> set (rp_retryable p) \<or> 500 \<le> status \<and> status < 600 then Some Retryable
      else Some (rp_default p))"

definition should_retry :: "retry_policy \<Rightarrow> nat \<Rightarrow> bool" where
  "should_retry p status \<longleftrightarrow> classify p status = Some Retryable"

definition server_policy :: retry_policy where
  "server_policy = \<lparr>rp_retryable = [429], rp_auth_refresh = [], rp_terminal = [], rp_default = Terminal\<rparr>"

definition edge_client_policy :: retry_policy where
  "edge_client_policy =
     \<lparr>rp_retryable = [429], rp_auth_refresh = [], rp_terminal = [525, 526], rp_default = Terminal\<rparr>"

definition client_storage_policy :: retry_policy where
  "client_storage_policy =
     \<lparr>rp_retryable = [], rp_auth_refresh = [401], rp_terminal = [400, 403, 404, 525, 526],
      rp_default = Retryable\<rparr>"

text \<open>gRPC codes are those of the \<open>tonic\<close> crate: any type with its \<open>Ok\<close>.\<close>

definition grpc_classify :: "'c \<Rightarrow> 'c list \<Rightarrow> 'c \<Rightarrow> disposition option" where
  "grpc_classify ok retryable c =
     (if c = ok then None else if c \<in> set retryable then Some Retryable else Some Terminal)"

section \<open>Registry\<close>

text \<open>A breaker shared by reference is an index into the breakers made so far.\<close>

record registry =
  rg_config :: breaker_config
  rg_index :: "(string \<times> nat) list"
  rg_breakers :: "breaker list"

definition new_registry :: "breaker_config \<Rightarrow> registry" where
  "new_registry c = \<lparr>rg_config = c, rg_index = [], rg_breakers = []\<rparr>"

definition registry_get :: "clock \<Rightarrow> string \<Rightarrow> registry \<Rightarrow> registry \<times> nat option" where
  "registry_get clk key r =
     (if \<not> bc_enabled (rg_config r) then (r, None)
      else case map_of (rg_index r) key of
        Some i \<Rightarrow> (r, Some i)
      | None \<Rightarrow>
          (r\<lparr>rg_index := AList.update key (length (rg_breakers r)) (rg_index r),
             rg_breakers := rg_breakers r @ [with_clock (rg_config r) clk]\<rparr>,
           Some (length (rg_breakers r))))"

text \<open>Every index names a breaker, and two keys never share one.\<close>

definition registry_ok :: "registry \<Rightarrow> bool" where
  "registry_ok r \<longleftrightarrow>
     (\<forall>k i. map_of (rg_index r) k = Some i \<longrightarrow> i < length (rg_breakers r)) \<and>
     (\<forall>k k' i. map_of (rg_index r) k = Some i \<longrightarrow> map_of (rg_index r) k' = Some i \<longrightarrow> k = k')"

lemma new_registry_ok: "registry_ok (new_registry c)"
  by (simp add: registry_ok_def new_registry_def)

lemma registry_get_ok:
  assumes "registry_ok r" "registry_get clk key r = (r', i)"
  shows "registry_ok r' \<and> (\<forall>j < length (rg_breakers r). rg_breakers r' ! j = rg_breakers r ! j) \<and>
    (\<forall>k j. map_of (rg_index r) k = Some j \<longrightarrow> map_of (rg_index r') k = Some j) \<and>
    (bc_enabled (rg_config r) \<longrightarrow> i = map_of (rg_index r') key \<and> i \<noteq> None)"
proof (cases "bc_enabled (rg_config r) \<and> map_of (rg_index r) key = None")
  case True
  have bound: "map_of (rg_index r) k = Some j \<Longrightarrow> j < length (rg_breakers r)" for k j
    using assms(1) by (simp add: registry_ok_def)
  have fresh: "map_of (rg_index r) k \<noteq> Some (length (rg_breakers r))" for k
    using bound[of k "length (rg_breakers r)"] by blast
  have r': "r' = r\<lparr>rg_index := AList.update key (length (rg_breakers r)) (rg_index r),
      rg_breakers := rg_breakers r @ [with_clock (rg_config r) clk]\<rparr>" "i = Some (length (rg_breakers r))"
    using assms(2) True by (auto simp: registry_get_def)
  have "registry_ok r'" using assms(1) bound unfolding registry_ok_def
    by (auto simp: r' update_conv less_Suc_eq fresh split: if_splits)
  moreover have "map_of (rg_index r') k = Some j" if "map_of (rg_index r) k = Some j" for k j
    using that True by (auto simp: r' update_conv)
  ultimately show ?thesis by (simp add: r' nth_append update_conv)
next
  case False
  show ?thesis
  proof (cases "bc_enabled (rg_config r)")
    case True
    then obtain n where n: "map_of (rg_index r) key = Some n"
      using False by (cases "map_of (rg_index r) key") auto
    then have "r' = r" "i = Some n" using assms(2) True by (simp_all add: registry_get_def)
    then show ?thesis using assms(1) n by simp
  next
    case False
    then show ?thesis using assms by (simp add: registry_get_def)
  qed
qed

end
