(* ===== verification/Breaker_Race.thy ===== *)
theory Breaker_Race
  imports Breaker_Facts
begin

text \<open>
  The half-open probe under concurrency: any number of threads run \<open>try_half_open_probe\<close>
  (\<open>breaker.rs\<close>), interleaved at its atomic operations. Each thread has read the clock before
  its first step. A transition of another thread may reset the counter at any moment.
\<close>

section \<open>Threads and steps\<close>

text \<open>Where a thread stands: before \<open>fetch_add\<close>; with a slot, before and after its claim is
  stored; without one, before \<open>fetch_sub\<close>, after it, after loading the claim; and at its end.\<close>

datatype probe_pc = Ready nat | Won nat | Claimed | Lost nat | Released nat | Loaded nat nat | Leased | Refused

record probe_shared =
  ps_probes :: "64 word"
  ps_claimed :: nat
  ps_threads :: "probe_pc list"
  ps_resets :: nat

definition at_pc :: "nat \<Rightarrow> probe_pc \<Rightarrow> probe_shared \<Rightarrow> bool" where
  "at_pc i pc s \<longleftrightarrow> i < length (ps_threads s) \<and> ps_threads s ! i = pc"

definition goto :: "nat \<Rightarrow> probe_pc \<Rightarrow> probe_shared \<Rightarrow> probe_shared" where
  "goto i pc s = s\<lparr>ps_threads := (ps_threads s)[i := pc]\<rparr>"

inductive probe_step :: "nat \<Rightarrow> nat \<Rightarrow> probe_shared \<Rightarrow> probe_shared \<Rightarrow> bool" for slots lease where
  add_free: "at_pc i (Ready t) s \<Longrightarrow> unat (ps_probes s) < slots \<Longrightarrow>
    probe_step slots lease s (goto i (Won t) (s\<lparr>ps_probes := ps_probes s + 1\<rparr>))"
| add_full: "at_pc i (Ready t) s \<Longrightarrow> slots \<le> unat (ps_probes s) \<Longrightarrow>
    probe_step slots lease s (goto i (Lost t) (s\<lparr>ps_probes := ps_probes s + 1\<rparr>))"
| store_claim: "at_pc i (Won t) s \<Longrightarrow>
    probe_step slots lease s (goto i Claimed (s\<lparr>ps_claimed := t\<rparr>))"
| sub: "at_pc i (Lost t) s \<Longrightarrow>
    probe_step slots lease s (goto i (Released t) (s\<lparr>ps_probes := ps_probes s - 1\<rparr>))"
| load_claim: "at_pc i (Released t) s \<Longrightarrow>
    probe_step slots lease s (goto i (Loaded t (ps_claimed s)) s)"
| lease_won: "at_pc i (Loaded t c) s \<Longrightarrow> lease \<le> t - c \<Longrightarrow> ps_claimed s = c \<Longrightarrow>
    probe_step slots lease s (goto i Leased (s\<lparr>ps_claimed := t\<rparr>))"
| lease_lost: "at_pc i (Loaded t c) s \<Longrightarrow> \<not> (lease \<le> t - c \<and> ps_claimed s = c) \<Longrightarrow>
    probe_step slots lease s (goto i Refused s)"

text \<open>A transition to open or closed in another thread resets the counter, at any moment; the field
  counts how often this has happened.\<close>

inductive reset_step :: "probe_shared \<Rightarrow> probe_shared \<Rightarrow> bool" where
  reset: "reset_step s (s\<lparr>ps_probes := 0, ps_resets := Suc (ps_resets s)\<rparr>)"

inductive probe_reach :: "nat \<Rightarrow> nat \<Rightarrow> probe_shared \<Rightarrow> probe_shared \<Rightarrow> bool" for slots lease where
  start: "probe_reach slots lease s s"
| step: "probe_reach slots lease s t \<Longrightarrow> probe_step slots lease t v \<Longrightarrow> probe_reach slots lease s v"
| transition: "probe_reach slots lease s t \<Longrightarrow> reset_step t v \<Longrightarrow> probe_reach slots lease s v"

inductive_cases probe_step_elim: "probe_step slots lease s s'"

definition probe_start :: "nat \<Rightarrow> nat list \<Rightarrow> probe_shared" where
  "probe_start claimed readings = \<lparr>ps_probes = 0, ps_claimed = claimed,
     ps_threads = map Ready readings, ps_resets = 0\<rparr>"

section \<open>Counting threads\<close>

fun has_slot :: "probe_pc \<Rightarrow> bool" where
  "has_slot (Won t) = True"
| "has_slot Claimed = True"
| "has_slot _ = False"

fun holds_count :: "probe_pc \<Rightarrow> bool" where
  "holds_count (Lost t) = True"
| "holds_count pc = has_slot pc"

definition slot_holders :: "probe_shared \<Rightarrow> nat" where
  "slot_holders s = length (filter has_slot (ps_threads s))"

definition counted :: "probe_shared \<Rightarrow> nat" where
  "counted s = length (filter holds_count (ps_threads s))"

lemma filter_update:
  "i < length xs \<Longrightarrow> length (filter P (xs[i := y])) + (if P (xs ! i) then 1 else 0) =
     length (filter P xs) + (if P y then 1 else 0)"
proof (induction xs arbitrary: i)
  case (Cons x xs)
  then show ?case by (cases i) auto
qed simp

lemma counts_goto:
  assumes "at_pc i pc s" "ps_threads s' = ps_threads s"
  shows "slot_holders (goto i pc' s') + (if has_slot pc then 1 else 0) = slot_holders s + (if has_slot pc' then 1 else 0)"
    and "counted (goto i pc' s') + (if holds_count pc then 1 else 0) = counted s + (if holds_count pc' then 1 else 0)"
  using assms filter_update[of i "ps_threads s" has_slot pc'] filter_update[of i "ps_threads s" holds_count pc']
  by (auto simp: slot_holders_def counted_def goto_def at_pc_def)

lemma goto_fields [simp]: "ps_probes (goto i pc s) = ps_probes s" "ps_claimed (goto i pc s) = ps_claimed s"
  "ps_resets (goto i pc s) = ps_resets s"
  "length (ps_threads (goto i pc s)) = length (ps_threads s)"
  by (simp_all add: goto_def)

section \<open>The slots are respected\<close>

text \<open>As long as no transition resets it, the counter is the number of threads that hold a slot or are about
  to give one back, whatever the interleaving.\<close>

definition probes_inv :: "nat \<Rightarrow> probe_shared \<Rightarrow> bool" where
  "probes_inv slots s \<longleftrightarrow> length (ps_threads s) < 2 ^ 64 \<and> unat (ps_probes s) = counted s \<and> slot_holders s \<le> slots"

lemma counted_le: "counted s \<le> length (ps_threads s)" "slot_holders s \<le> counted s"
proof -
  show "counted s \<le> length (ps_threads s)" by (simp add: counted_def)
  have "has_slot pc \<Longrightarrow> holds_count pc" for pc by (cases pc) simp_all
  then have "length (filter has_slot xs) \<le> length (filter holds_count xs)" for xs
    by (induction xs) (auto intro: le_SucI)
  then show "slot_holders s \<le> counted s" by (simp add: slot_holders_def counted_def)
qed

lemma unat_plus: "unat (w :: 64 word) + 1 < 2 ^ 64 \<Longrightarrow> unat (w + 1) = unat w + 1"
  by (simp add: unat_word_ariths)

lemma unat_minus: "0 < unat (w :: 64 word) \<Longrightarrow> unat (w - 1) = unat w - 1"
  by (metis unat_minus_one unat_gt_0)

lemma waiting_counted:
  assumes "at_pc i pc s" "\<not> holds_count pc"
  shows "counted s < length (ps_threads s)"
proof -
  have "pc \<in> set (ps_threads s)" using assms(1) by (auto simp: at_pc_def)
  then show ?thesis using assms(2) unfolding counted_def by (intro length_filter_less) auto
qed

lemma holding_counted:
  assumes "at_pc i pc s" "holds_count pc"
  shows "0 < counted s"
proof -
  have "pc \<in> set (filter holds_count (ps_threads s))" using assms by (auto simp: at_pc_def)
  then show ?thesis unfolding counted_def by (rule length_pos_if_in_set)
qed

lemma probe_step_inv:
  assumes "probe_step slots lease s s'" "probes_inv slots s"
  shows "probes_inv slots s'"
  using assms
proof cases
  case (add_free i t)
  have "unat (ps_probes s) + 1 < 2 ^ 64"
    using waiting_counted[OF add_free(2)] assms(2) by (simp add: probes_inv_def)
  then show ?thesis
    using counts_goto[OF add_free(2), of "s\<lparr>ps_probes := ps_probes s + 1\<rparr>" "Won t"] add_free assms(2) counted_le(2)[of s]
    by (simp add: probes_inv_def unat_plus)
next
  case (add_full i t)
  have "unat (ps_probes s) + 1 < 2 ^ 64"
    using waiting_counted[OF add_full(2)] assms(2) by (simp add: probes_inv_def)
  then show ?thesis
    using counts_goto[OF add_full(2), of "s\<lparr>ps_probes := ps_probes s + 1\<rparr>" "Lost t"] add_full assms(2)
    by (simp add: probes_inv_def unat_plus)
next
  case (store_claim i t)
  then show ?thesis
    using counts_goto[OF store_claim(2), of "s\<lparr>ps_claimed := t\<rparr>" Claimed] assms(2)
    by (simp add: probes_inv_def)
next
  case (sub i t)
  have "0 < unat (ps_probes s)"
    using holding_counted[OF sub(2)] assms(2) by (simp add: probes_inv_def)
  then show ?thesis
    using counts_goto[OF sub(2), of "s\<lparr>ps_probes := ps_probes s - 1\<rparr>" "Released t"] sub assms(2)
    by (simp add: probes_inv_def unat_minus)
next
  case (load_claim i t)
  then show ?thesis
    using counts_goto[OF load_claim(2), of s "Loaded t (ps_claimed s)"] assms(2)
    by (simp add: probes_inv_def)
next
  case (lease_won i t c)
  then show ?thesis
    using counts_goto[OF lease_won(2), of "s\<lparr>ps_claimed := t\<rparr>" Leased] assms(2)
    by (simp add: probes_inv_def)
next
  case (lease_lost i t c)
  then show ?thesis
    using counts_goto[OF lease_lost(2), of s Refused] assms(2)
    by (simp add: probes_inv_def)
qed

lemma probe_start_inv: "length readings < 2 ^ 64 \<Longrightarrow> probes_inv slots (probe_start c readings)"
  by (induction readings) (simp_all add: probes_inv_def probe_start_def counted_def slot_holders_def)

lemma probe_step_resets: "probe_step slots lease s s' \<Longrightarrow> ps_resets s' = ps_resets s"
  by (auto elim: probe_step.cases)

section \<open>No slot is wasted\<close>

text \<open>A thread that did not get a slot proves that all of them are taken.\<close>

fun turned_away :: "probe_pc \<Rightarrow> bool" where
  "turned_away (Ready t) = False"
| "turned_away pc = (\<not> has_slot pc)"

definition full_inv :: "nat \<Rightarrow> probe_shared \<Rightarrow> bool" where
  "full_inv slots s \<longleftrightarrow> ((\<exists>pc \<in> set (ps_threads s). turned_away pc) \<longrightarrow> slot_holders s = slots)"

lemma goto_set: "pc \<in> set (ps_threads (goto i q s)) \<Longrightarrow> pc = q \<or> pc \<in> set (ps_threads s)"
  by (auto simp: goto_def dest: set_update_subset_insert[THEN subsetD])

lemma full_goto:
  assumes "full_inv slots s" "at_pc i pc s" "ps_threads s' = ps_threads s" "has_slot pc = has_slot q"
    "turned_away q \<Longrightarrow> turned_away pc"
  shows "full_inv slots (goto i q s')"
proof -
  have a: "slot_holders (goto i q s') = slot_holders s"
    using counts_goto(1)[OF assms(2,3), of q] assms(4) by simp
  have "pc \<in> set (ps_threads s)" using assms(2) by (auto simp: at_pc_def)
  then show ?thesis using assms(1,3,5) goto_set[of _ i q s'] unfolding full_inv_def a by metis
qed

lemma none_away_counted:
  assumes "\<not> (\<exists>pc \<in> set (ps_threads s). turned_away pc)"
  shows "counted s = slot_holders s"
proof -
  have "holds_count pc = has_slot pc" if "\<not> turned_away pc" for pc using that by (cases pc) simp_all
  then have "filter holds_count (ps_threads s) = filter has_slot (ps_threads s)"
    using assms by (intro filter_cong) auto
  then show ?thesis by (simp add: counted_def slot_holders_def)
qed

lemma probe_step_full:
  assumes "probe_step slots lease s s'" "probes_inv slots s" "full_inv slots s"
  shows "full_inv slots s'"
  using assms(1)
proof cases
  case (add_free i t)
  have "\<not> (\<exists>pc \<in> set (ps_threads s). turned_away pc)"
    using assms(2,3) add_free(3) counted_le(2)[of s] by (auto simp: full_inv_def probes_inv_def)
  then show ?thesis unfolding add_free(1) full_inv_def
    using goto_set[of _ i "Won t" "s\<lparr>ps_probes := ps_probes s + 1\<rparr>"] by fastforce
next
  case (add_full i t)
  have "slot_holders s = slots"
  proof (cases "\<exists>pc \<in> set (ps_threads s). turned_away pc")
    case True
    then show ?thesis using assms(3) by (simp add: full_inv_def)
  next
    case False
    then show ?thesis using none_away_counted[OF False] assms(2) add_full(3) by (simp add: probes_inv_def)
  qed
  then show ?thesis
    using counts_goto(1)[OF add_full(2), of "s\<lparr>ps_probes := ps_probes s + 1\<rparr>" "Lost t"]
    by (simp add: add_full(1) full_inv_def)
next
  case (store_claim i t)
  then show ?thesis using full_goto[OF assms(3) store_claim(2), of "s\<lparr>ps_claimed := t\<rparr>" Claimed] by simp
next
  case (sub i t)
  then show ?thesis
    using full_goto[OF assms(3) sub(2), of "s\<lparr>ps_probes := ps_probes s - 1\<rparr>" "Released t"] by simp
next
  case (load_claim i t)
  then show ?thesis using full_goto[OF assms(3) load_claim(2), of s "Loaded t (ps_claimed s)"] by simp
next
  case (lease_won i t c)
  then show ?thesis using full_goto[OF assms(3) lease_won(2), of "s\<lparr>ps_claimed := t\<rparr>" Leased] by simp
next
  case (lease_lost i t c)
  then show ?thesis using full_goto[OF assms(3) lease_lost(2), of s Refused] by simp
qed

lemma probe_reach_full:
  "probe_reach slots lease s t \<Longrightarrow> probes_inv slots s \<Longrightarrow> full_inv slots s \<Longrightarrow>
   ps_resets t = 0 \<Longrightarrow> probes_inv slots t \<and> full_inv slots t"
  by (induction rule: probe_reach.induct)
    (auto intro: probe_step_inv probe_step_full simp: probe_step_resets elim: reset_step.cases)

lemma probe_start_full: "full_inv slots (probe_start c readings)"
  by (auto simp: full_inv_def probe_start_def)

lemma probe_reach_threads:
  "probe_reach slots lease s t \<Longrightarrow> length (ps_threads t) = length (ps_threads s)"
  by (induction rule: probe_reach.induct) (auto elim: probe_step.cases reset_step.cases)

lemma all_decided_admitted:
  assumes "probes_inv slots s" "full_inv slots s" "\<forall>pc \<in> set (ps_threads s). \<forall>t. pc \<noteq> Ready t"
  shows "slot_holders s = min (length (ps_threads s)) slots"
proof (cases "\<exists>pc \<in> set (ps_threads s). turned_away pc")
  case True
  then have "slot_holders s = slots" using assms(2) by (simp add: full_inv_def)
  moreover have "slot_holders s \<le> length (ps_threads s)" using counted_le[of s] by simp
  ultimately show ?thesis by simp
next
  case False
  then have "has_slot pc" if "pc \<in> set (ps_threads s)" for pc
    using that assms(3) by (cases pc) auto
  then have "slot_holders s = length (ps_threads s)" by (simp add: slot_holders_def)
  then show ?thesis using assms(1) by (simp add: probes_inv_def)
qed

section \<open>The lease\<close>

text \<open>A caller is let through with a slot, or by taking over a claim as old as the lease.\<close>

definition leased :: "probe_shared \<Rightarrow> nat" where
  "leased s = length (filter (\<lambda>pc. pc = Leased) (ps_threads s))"

fun let_through :: "probe_pc \<Rightarrow> bool" where
  "let_through Leased = True"
| "let_through pc = has_slot pc"

definition admitted :: "probe_shared \<Rightarrow> nat" where
  "admitted s = length (filter let_through (ps_threads s))"

lemma admitted_split: "admitted s = slot_holders s + leased s"
proof -
  have "length (filter let_through xs) = length (filter has_slot xs) + length (filter (\<lambda>pc. pc = Leased) xs)" for xs
  proof (induction xs)
    case (Cons pc xs)
    then show ?case by (cases pc) auto
  qed simp
  then show ?thesis by (simp add: admitted_def slot_holders_def leased_def)
qed

lemma leased_goto:
  assumes "at_pc i pc s" "ps_threads s' = ps_threads s" "pc \<noteq> Leased"
  shows "leased (goto i q s') = leased s + (if q = Leased then 1 else 0)"
  using assms filter_update[of i "ps_threads s" "\<lambda>pc. pc = Leased" q]
  by (auto simp: leased_def goto_def at_pc_def)

fun readings_of :: "probe_pc \<Rightarrow> nat set" where
  "readings_of (Ready t) = {t}"
| "readings_of (Won t) = {t}"
| "readings_of (Lost t) = {t}"
| "readings_of (Released t) = {t}"
| "readings_of (Loaded t c) = {t}"
| "readings_of _ = {}"

text \<open>When all callers have read the clock within one lease, a claim that one of them has stored is never
  taken over: only the claim from before can be, once.\<close>

definition lease_inv :: "nat \<Rightarrow> nat set \<Rightarrow> nat \<Rightarrow> probe_shared \<Rightarrow> bool" where
  "lease_inv lease R c s \<longleftrightarrow>
     (\<forall>pc \<in> set (ps_threads s). readings_of pc \<subseteq> R) \<and>
     (ps_claimed s = c \<and> leased s = 0 \<or> ps_claimed s \<in> R \<and> leased s \<le> 1) \<and>
     ((\<forall>t \<in> R. t - c < lease) \<longrightarrow> leased s = 0)"

lemma lease_goto:
  assumes "lease_inv lease R c s" "at_pc i pc s" "pc \<noteq> Leased" "q \<noteq> Leased" "readings_of q \<subseteq> readings_of pc"
    and "ps_threads s' = ps_threads s" "ps_claimed s' = ps_claimed s \<or> ps_claimed s' \<in> readings_of pc"
  shows "lease_inv lease R c (goto i q s')"
proof -
  have pc: "readings_of pc \<subseteq> R" using assms(1,2) by (auto simp: lease_inv_def at_pc_def)
  have "readings_of x \<subseteq> R" if "x \<in> set (ps_threads (goto i q s'))" for x
    using goto_set[OF that] assms(1,5,6) pc by (auto simp: lease_inv_def)
  moreover have "ps_claimed s' = ps_claimed s \<or> ps_claimed s' \<in> R" using assms(7) pc by blast
  ultimately show ?thesis using assms(1) leased_goto[OF assms(2,6,3), of q] assms(4) by (auto simp: lease_inv_def)
qed

lemma probe_step_lease:
  assumes "probe_step slots lease s s'" "lease_inv lease R c s" "\<forall>t \<in> R. \<forall>t' \<in> R. t - t' < lease"
  shows "lease_inv lease R c s'"
  using assms(1)
proof cases
  case (lease_won i t c')
  have "Loaded t c' \<in> set (ps_threads s)" using lease_won(2) by (metis nth_mem at_pc_def)
  then have t: "t \<in> R" using assms(2) by (fastforce simp: lease_inv_def)
  then have "ps_claimed s \<notin> R" using lease_won(3,4) assms(3) by (auto simp: not_less[symmetric])
  then have c: "ps_claimed s = c" "leased s = 0" using assms(2) by (auto simp: lease_inv_def)
  have "leased s' = 1" using leased_goto[OF lease_won(2), of "s\<lparr>ps_claimed := t\<rparr>" Leased] c(2) lease_won(1) by simp
  moreover have "\<not> t - c < lease" using c lease_won(3,4) by simp
  moreover have "readings_of x \<subseteq> R" if "x \<in> set (ps_threads s')" for x
    using goto_set[of x i Leased "s\<lparr>ps_claimed := t\<rparr>"] that lease_won(1) assms(2) by (auto simp: lease_inv_def)
  ultimately show ?thesis using t lease_won(1) by (auto simp: lease_inv_def)
qed (use lease_goto[OF assms(2)] in auto)

lemma reset_shape: "reset_step s v \<Longrightarrow> ps_threads v = ps_threads s \<and> ps_claimed v = ps_claimed s"
  by (erule reset_step.cases) simp

lemma reach_lease:
  assumes "probe_reach slots lease s0 s" "lease_inv lease R c s0" "\<forall>t \<in> R. \<forall>t' \<in> R. t - t' < lease"
  shows "lease_inv lease R c s"
  using assms(1,2)
proof induction
  case (step s0 t v)
  then show ?case using probe_step_lease[OF step.hyps(2) _ assms(3)] by simp
next
  case (transition s0 t v)
  then show ?case using reset_shape[OF transition.hyps(2)] by (simp add: lease_inv_def leased_def)
qed

lemma start_lease: "lease_inv lease (set readings) c (probe_start c readings)"
proof -
  have "filter (\<lambda>pc. pc = Leased) (map Ready readings) = []" by (simp add: filter_empty_conv)
  then show ?thesis by (auto simp: lease_inv_def probe_start_def leased_def)
qed

lemmas probe_reach_lease = reach_lease[OF _ start_lease]

text \<open>A breaker that has just half-opened still has a claim from before it opened. A caller that is turned away
  between the two halves of another's admission, the count and the claim, takes the old claim over:
  two callers are let through on one slot.\<close>

definition race_start :: probe_shared where
  "race_start = probe_start 0 [100, 100]"

definition race_end :: probe_shared where
  "race_end = \<lparr>ps_probes = 1, ps_claimed = 100, ps_threads = [Claimed, Leased], ps_resets = 0\<rparr>"

lemma two_let_through_on_one_slot: "probe_reach 1 5 race_start race_end" "admitted race_end = 2"
proof -
  let ?s1 = "goto 0 (Won 100) (race_start\<lparr>ps_probes := ps_probes race_start + 1\<rparr>)"
  let ?s2 = "goto 1 (Lost 100) (?s1\<lparr>ps_probes := ps_probes ?s1 + 1\<rparr>)"
  let ?s3 = "goto 1 (Released 100) (?s2\<lparr>ps_probes := ps_probes ?s2 - 1\<rparr>)"
  let ?s4 = "goto 1 (Loaded 100 (ps_claimed ?s3)) ?s3"
  let ?s5 = "goto 1 Leased (?s4\<lparr>ps_claimed := 100\<rparr>)"
  let ?s6 = "goto 0 Claimed (?s5\<lparr>ps_claimed := 100\<rparr>)"
  note defs = at_pc_def goto_def race_start_def probe_start_def
  note go = probe_reach.step[where slots = 1 and lease = 5]
  have "probe_reach 1 5 race_start ?s1"
    by (rule go[OF probe_reach.start], rule add_free) (simp_all add: defs)
  then have "probe_reach 1 5 race_start ?s2" by (rule go, intro add_full) (simp_all add: defs)
  then have "probe_reach 1 5 race_start ?s3" by (rule go, intro sub) (simp add: defs)
  then have "probe_reach 1 5 race_start ?s4" by (rule go, intro load_claim) (simp add: defs)
  then have "probe_reach 1 5 race_start ?s5" by (rule go, intro lease_won) (simp_all add: defs)
  then have "probe_reach 1 5 race_start ?s6" by (rule go, intro store_claim) (simp add: defs)
  moreover have "?s6 = race_end" by (simp add: defs race_end_def)
  ultimately show "probe_reach 1 5 race_start race_end" by simp
  show "admitted race_end = 2" by (simp add: admitted_def race_end_def)
qed

section \<open>A reset between the two halves\<close>

text \<open>When a transition resets the counter after a caller was turned away and before it gives its
  count back, the counter wraps to its largest value and admits nobody by slot; only the lease
  lets the next probe in.\<close>

lemma reset_wraps_counter:
  "\<exists>s. probe_reach 1 5 (probe_start 0 [0, 0]) s \<and> ps_resets s = 1 \<and> ps_probes s = - 1"
proof -
  let ?s0 = "probe_start 0 [0, 0]"
  let ?a = "goto 0 (Won 0) (?s0\<lparr>ps_probes := ps_probes ?s0 + 1\<rparr>)"
  let ?b = "goto 1 (Lost 0) (?a\<lparr>ps_probes := ps_probes ?a + 1\<rparr>)"
  let ?c = "?b\<lparr>ps_probes := 0, ps_resets := Suc (ps_resets ?b)\<rparr>"
  let ?d = "goto 1 (Released 0) (?c\<lparr>ps_probes := ps_probes ?c - 1\<rparr>)"
  have "probe_step 1 5 ?s0 ?a" by (rule add_free) (simp_all add: at_pc_def probe_start_def)
  moreover have "probe_step 1 5 ?a ?b" by (rule add_full) (simp_all add: at_pc_def probe_start_def goto_def)
  ultimately have "probe_reach 1 5 ?s0 ?b" by (blast intro: probe_reach.intros)
  moreover have "reset_step ?b ?c" by (rule reset)
  moreover have "probe_step 1 5 ?c ?d"
    by (rule sub) (simp add: at_pc_def probe_start_def goto_def)
  ultimately have "probe_reach 1 5 ?s0 ?d" by (blast intro: probe_reach.intros)
  moreover have "ps_resets ?d = 1" "ps_probes ?d = - 1" by (simp_all add: probe_start_def goto_def)
  ultimately show ?thesis by blast
qed

end
