(* ===== verification/Breaker_Properties.thy ===== *)
theory Breaker_Properties
  imports Breaker_Config Breaker_Race
begin

text \<open>
  What the circuit breaker promises: used by one thread it never panics and its flags agree in every
  reachable state, it trips exactly on its threshold, sheds until the cool-down is over, admits no more
  probes than configured and is never stranded by a lost probe.
\<close>

section \<open>An example\<close>

definition bp_clock :: clock where "bp_clock n = n * 1000000000"

definition bp_breaker :: breaker where "bp_breaker = with_clock server_config bp_clock"

lemma bp_ok: "breaker_ok bp_breaker"
  unfolding bp_breaker_def by (rule with_clock_ok) (simp add: server_config_def)

section \<open>Reachable breakers\<close>

text \<open>C37: used by one thread at a time, whatever sequence of checks, outcomes, rate reads and forced transitions
  a breaker goes through, and whatever its clock shows, it does not panic (no counter underflows); the lock-free
  flag mirrors the open state, the window counts its failures and stays within its cap, and the
  probe slots in use are at most the configured ones, none outside the half-open state. (Threads that race can break
  the last part: \<open>reset_wraps_counter\<close>.)\<close>

theorem reachable_breaker_ok:
  assumes "bc_max_probes c < 2 ^ 64"
  shows "\<exists>b. breaker_run clk is (with_clock c clk) = Some b \<and> breaker_ok b"
  by (rule run_ok[OF with_clock_ok[OF assms]])

theorem reachable_breaker_ok_witness:
  "\<exists>b. breaker_run bp_clock [Record Failed, Check, ForceHalfOpen, Check, Record Failed, ReadRate]
      (with_clock server_config bp_clock) = Some b \<and> breaker_ok b"
  by (rule reachable_breaker_ok) (simp add: server_config_def)

section \<open>Tripping\<close>

text \<open>A closed breaker that records an outcome keeps exactly the live samples, and it opens, at
  the time of the record, when these are at least the minimum and their failure rate, computed
  in doubles, reaches the threshold; otherwise it stays closed.\<close>

theorem closed_trips_exactly_at_threshold:
  assumes "breaker_ok b" "bc_enabled (br_config b)" "br_state b = Closed"
  shows "\<exists>b'. record_outcome clk out b = Some b' \<and>
    sw_entries (br_window b') =
      live_samples (bc_window (br_config b)) (out = Failed) (clk (br_ticks b)) (sw_entries (br_window b)) \<and>
    (if bc_min_samples (br_config b) \<le> length (sw_entries (br_window b')) \<and>
        rate_at_least (div_f64 (failures_in (sw_entries (br_window b'))) (length (sw_entries (br_window b'))))
          (bc_threshold (br_config b))
     then br_state b' = Open \<and> br_opened_at b' = stamp clk b 1 else br_state b' = Closed)"
proof -
  let ?b1 = "b\<lparr>br_ticks := br_ticks b + 1\<rparr>" and ?t = "clk (br_ticks b)"
  let ?live = "live_samples (bc_window (br_config b)) (out = Failed) ?t (sw_entries (br_window b))"
  obtain w where w: "record_window (out = Failed) ?t ?b1 = Some (?b1\<lparr>br_window := w\<rparr>)" "window_ok w"
    "sw_entries w = ?live"
    using record_window_live[of ?b1] assms(1) by (auto simp: breaker_ok_def)
  have "(?t, out = Failed) \<in> set ?live"
    using window.live_keeps_new[of ?t "out = Failed" "bc_window (br_config b)" "sw_entries (br_window b)"]
    by (simp add: window.live_def live_samples_def)
  then have "sw_entries w \<noteq> []" using w(3) by auto
  then have rate: "error_rate_of w = div_f64 (failures_in (sw_entries w)) (length (sw_entries w))"
    using w(2) by (simp add: error_rate_of_def window_ok_def)
  have "br_opened_at (trip clk Closed ''trip'' (?b1\<lparr>br_window := w\<rparr>)) = stamp clk b 1"
    by (simp add: stamp_def)
  then show ?thesis using assms(2,3) w rate
    by (simp add: record_outcome_def now_def Let_def should_trip_def sample_count_def)
qed

theorem closed_trips_exactly_at_threshold_witness:
  "\<exists>b'. record_outcome bp_clock Failed bp_breaker = Some b' \<and> br_state b' = Closed"
proof -
  have "bc_enabled (br_config bp_breaker)" "br_state bp_breaker = Closed"
    by (simp_all add: bp_breaker_def with_clock_def server_config_def)
  from closed_trips_exactly_at_threshold[OF bp_ok this, of bp_clock Failed]
  show ?thesis
    by (auto simp: bp_breaker_def with_clock_def server_config_def new_window_def live_samples_def
        max_window_entries_def seconds_def bp_clock_def split: if_splits)
qed

text \<open>Rounding never matters at the threshold of both presets: within the cap, the computed rate
  reaches one half exactly when the failures are at least half of the samples.\<close>

theorem half_threshold_is_exact:
  assumes "window_ok w" "sw_entries w \<noteq> []"
  shows "rate_at_least (error_rate_of w) (bc_threshold server_config) \<longleftrightarrow>
    length (sw_entries w) \<le> 2 * failures_in (sw_entries w)"
proof -
  have "failures_in (sw_entries w) \<le> length (sw_entries w)" by (simp add: failures_in_def)
  then show ?thesis using assms half_exact[of "failures_in (sw_entries w)" "length (sw_entries w)"]
    by (simp add: error_rate_of_def window_ok_def server_config_def)
qed

theorem half_threshold_is_exact_witness:
  "rate_at_least (error_rate_of \<lparr>sw_entries = [(0, True), (1, False), (2, True)], sw_failures = 2\<rparr>)
     (bc_threshold server_config)"
  by (subst half_threshold_is_exact) (simp_all add: window_ok_def max_window_entries_def)

section \<open>Open and half-open\<close>

text \<open>An open breaker refuses every request until its cool-down is over and says how long that
  still takes, changing nothing; from then on a check half-opens it and admits its caller as
  the first probe.\<close>

theorem open_sheds_until_cooled_down:
  assumes "breaker_ok b" "bc_enabled (br_config b)" "br_state b = Open"
  shows "if (stamp clk b 0 - br_opened_at b) * ms < bc_open (br_config b)
    then check clk b = (b\<lparr>br_ticks := br_ticks b + 1\<rparr>,
      Inl (BreakerOpen (bc_open (br_config b) - (stamp clk b 0 - br_opened_at b) * ms)))
    else \<exists>b'. check clk b = (b', Inr ()) \<and> br_state b' = HalfOpen \<and> br_probes b' = 1 \<and>
      br_events b' = br_events b @ [StateChange Open HalfOpen ''open_elapsed'', ProbeAdmission True]"
proof (cases "(stamp clk b 0 - br_opened_at b) * ms < bc_open (br_config b)")
  case True
  then show ?thesis using assms(2,3) by (simp add: check_def check_open_cool)
next
  case False
  have "br_probes b = 0" "1 \<le> bc_max_probes (br_config b)" using assms(1,3) by (simp_all add: breaker_ok_def)
  then have "unat (br_probes (half_opened b)) < bc_max_probes (br_config (half_opened b))"
    by (simp add: half_opened_def)
  from probe_free[OF this, of clk] show ?thesis
    using False assms(2,3) \<open>br_probes b = 0\<close>
    by (simp add: check_def check_open_elapsed) (simp add: half_opened_def)
qed

definition bp_open :: breaker where "bp_open = trip bp_clock Closed ''trip'' bp_breaker"

lemma bp_open_ok: "breaker_ok bp_open"
  unfolding bp_open_def by (rule trip_ok[OF bp_ok])

lemma bp_open_facts: "bc_enabled (br_config bp_open)" "br_state bp_open = Open"
  "br_opened_at bp_open = 1000" "br_ticks bp_open = 2" "br_baseline bp_open = 0"
  "br_config bp_open = server_config"
  by (simp_all add: bp_open_def trip_def elapsed_millis_def now_def Let_def bp_breaker_def
      with_clock_def server_config_def bp_clock_def ms_def u64_def)

theorem open_sheds_until_cooled_down_witness:
  "snd (check bp_clock bp_open) = Inl (BreakerOpen (9 * seconds))"
  using open_sheds_until_cooled_down[OF bp_open_ok bp_open_facts(1,2), of bp_clock]
  by (simp add: bp_open_facts stamp_def u64_def ms_def bp_clock_def server_config_def seconds_def)

text \<open>A row of checks and their answers.\<close>

fun check_row :: "clock \<Rightarrow> nat \<Rightarrow> breaker \<Rightarrow> (breaker_open + unit) list" where
  "check_row clk 0 b = []"
| "check_row clk (Suc n) b = snd (check clk b) # check_row clk n (fst (check clk b))"

lemma row_rejects:
  assumes "bc_enabled (br_config b)" "br_state b = HalfOpen" "bc_max_probes (br_config b) \<le> unat (br_probes b)"
    "\<forall>k < n. stamp clk b k - br_claimed_at b < lease_millis b"
  shows "check_row clk n b =
    replicate n (Inl (BreakerOpen (min half_open_backoff (bc_open (br_config b)))))"
  using assms
proof (induction n arbitrary: b)
  case (Suc n)
  let ?b' = "observe (ProbeAdmission False) (b\<lparr>br_ticks := br_ticks b + 1\<rparr>)"
  have "check clk b = (?b', Inl (BreakerOpen (min half_open_backoff (bc_open (br_config b)))))"
    using Suc.prems probe_reject[of b clk] by (simp add: check_def)
  moreover have "stamp clk ?b' k = stamp clk b (Suc k)" for k by (simp add: stamp_def)
  then have "check_row clk n ?b' =
      replicate n (Inl (BreakerOpen (min half_open_backoff (bc_open (br_config b)))))"
    using Suc.IH[of ?b'] Suc.prems by (simp add: lease_millis_def)
  ultimately show ?case by simp
qed simp

lemma row_admits:
  assumes "bc_enabled (br_config b)" "br_state b = HalfOpen" "bc_max_probes (br_config b) < 2 ^ 64"
    "bc_max_probes (br_config b) = unat (br_probes b) + free" "base \<le> br_claimed_at b"
    "\<forall>k < n. base \<le> stamp clk b k \<and> stamp clk b k < base + lease_millis b"
  shows "check_row clk n b = replicate (min n free) (Inr ()) @
    replicate (n - free) (Inl (BreakerOpen (min half_open_backoff (bc_open (br_config b)))))"
  using assms
proof (induction n arbitrary: b free)
  case (Suc n)
  show ?case
  proof (cases free)
    case 0
    have "\<forall>k < Suc n. stamp clk b k - br_claimed_at b < lease_millis b"
      using Suc.prems(5,6) by fastforce
    then show ?thesis using row_rejects[of b "Suc n" clk] Suc.prems 0 by simp
  next
    case (Suc m)
    let ?b' = "observe (ProbeAdmission True) (b\<lparr>br_ticks := br_ticks b + 1,
      br_probes := br_probes b + 1, br_claimed_at := stamp clk b 0\<rparr>)"
    have free: "unat (br_probes b) < bc_max_probes (br_config b)" using Suc.prems(4) Suc by simp
    have "check clk b = (?b', Inr ())" using Suc.prems(1,2) probe_free[OF free, of clk] by (simp add: check_def)
    moreover have st: "stamp clk ?b' k = stamp clk b (Suc k)" for k by (simp add: stamp_def)
    have "unat (br_probes b + 1) = unat (br_probes b) + 1" by (rule unat_inc[OF free Suc.prems(3)])
    then have "check_row clk n ?b' = replicate (min n m) (Inr ()) @
      replicate (n - m) (Inl (BreakerOpen (min half_open_backoff (bc_open (br_config ?b')))))"
      using Suc.prems Suc st by (intro Suc.IH) (auto simp: lease_millis_def)
    ultimately show ?thesis using Suc by simp
  qed
qed simp

text \<open>Within one cool-down period, of any number of callers that check a half-open breaker in a row
  exactly as many are admitted as probe slots are free, the first ones; all others are
  told to back off for at most fifty milliseconds.\<close>

theorem half_open_admits_free_slots:
  assumes "bc_enabled (br_config b)" "br_state b = HalfOpen" "bc_max_probes (br_config b) < 2 ^ 64"
    "bc_max_probes (br_config b) = unat (br_probes b) + free" "base \<le> br_claimed_at b"
    "\<forall>k < n. base \<le> stamp clk b k \<and> stamp clk b k < base + lease_millis b"
  shows "check_row clk n b = replicate (min n free) (Inr ()) @
    replicate (n - free) (Inl (BreakerOpen (min half_open_backoff (bc_open (br_config b)))))"
  by (rule row_admits[OF assms])

definition bp_half :: breaker where
  "bp_half = bp_breaker\<lparr>br_state := HalfOpen, br_config := server_config\<lparr>bc_max_probes := 2\<rparr>\<rparr>"

theorem half_open_admits_free_slots_witness:
  "check_row bp_clock 3 bp_half = [Inr (), Inr (), Inl (BreakerOpen half_open_backoff)]"
proof -
  have "check_row bp_clock 3 bp_half = replicate (min 3 2) (Inr ()) @
      replicate (3 - 2) (Inl (BreakerOpen (min half_open_backoff (bc_open (br_config bp_half)))))"
    by (rule half_open_admits_free_slots[where base = 0])
      (simp_all add: bp_half_def bp_breaker_def with_clock_def server_config_def stamp_def u64_def
        ms_def bp_clock_def lease_millis_def seconds_def)
  moreover have "min half_open_backoff (bc_open (br_config bp_half)) = half_open_backoff"
    by (simp add: bp_half_def server_config_def half_open_backoff_def ms_def seconds_def)
  ultimately show ?thesis by (simp add: eval_nat_numeral)
qed

text \<open>A probe whose owner never reports cannot strand the breaker: once its claim is as old as
  the cool-down the next caller is admitted, whatever the slot counter holds (also after a
  racing release has wrapped it), and the outcome of that probe closes or reopens the breaker.\<close>

theorem lost_probe_is_replaced:
  assumes "bc_enabled (br_config b)" "br_state b = HalfOpen" "window_ok (br_window b)"
    "lease_millis b \<le> stamp clk b 0 - br_claimed_at b"
  shows "\<exists>b1. check clk b = (b1, Inr ()) \<and> br_state b1 = HalfOpen \<and> br_claimed_at b1 = stamp clk b 0 \<and>
    (\<exists>b2. record_outcome clk Succeeded b1 = Some b2 \<and> br_state b2 = Closed \<and> br_probes b2 = 0 \<and>
       sw_entries (br_window b2) = []) \<and>
    (\<exists>b3. record_outcome clk Failed b1 = Some b3 \<and> br_state b3 = Open \<and> br_probes b3 = 0)"
proof -
  obtain b1 where b1: "check clk b = (b1, Inr ())" "br_state b1 = HalfOpen" "br_claimed_at b1 = stamp clk b 0"
    "br_config b1 = br_config b"
    using assms(1,2,4) probe_free[of b clk] probe_lease[of b clk]
    by (cases "unat (br_probes b) < bc_max_probes (br_config b)") (auto simp: check_def)
  then show ?thesis using assms(1)
    by (auto simp: record_outcome_def now_def Let_def close_def trip_def elapsed_millis_def clear_window_def)
qed

theorem lost_probe_is_replaced_witness:
  "\<exists>b1. check bp_clock (bp_half\<lparr>br_probes := - 1, br_ticks := 10\<rparr>) = (b1, Inr ()) \<and> br_state b1 = HalfOpen"
proof -
  let ?b = "bp_half\<lparr>br_probes := - 1, br_ticks := 10\<rparr>"
  have "bc_enabled (br_config ?b)" "br_state ?b = HalfOpen" "window_ok (br_window ?b)"
    "lease_millis ?b \<le> stamp bp_clock ?b 0 - br_claimed_at ?b"
    by (simp_all add: bp_half_def bp_breaker_def with_clock_def server_config_def stamp_def u64_def
        ms_def bp_clock_def lease_millis_def seconds_def new_window_ok)
  from lost_probe_is_replaced[OF this] show ?thesis by blast
qed

section \<open>Racing callers\<close>

text \<open>C38: any number of threads, fewer than \<open>2\<^sup>64\<close>, may race for the probe slots of a half-open breaker in
  which no caller of an earlier period is left. In no interleaving do more of them get a slot than there
  are, and when all have asked exactly as many have one as there are slots or threads, until a
  transition of another thread resets the counter. When all of them read the clock within one lease
  (the open duration), at most one more is let through, by taking over the claim from before; none is
  when that claim is not a lease old. Two callers on one slot do happen: \<open>two_let_through_on_one_slot\<close>.\<close>

theorem racing_callers_fill_slots:
  assumes "probe_reach slots lease (probe_start c readings) s" "length readings < 2 ^ 64"
    and "\<forall>t \<in> set readings. \<forall>t' \<in> set readings. t - t' < lease"
  shows "(ps_resets s = 0 \<longrightarrow> slot_holders s \<le> slots \<and>
      ((\<forall>pc \<in> set (ps_threads s). \<forall>t. pc \<noteq> Ready t) \<longrightarrow> slot_holders s = min (length readings) slots)) \<and>
    admitted s \<le> slot_holders s + 1 \<and> ((\<forall>t \<in> set readings. t - c < lease) \<longrightarrow> admitted s = slot_holders s)"
proof -
  have "slot_holders s \<le> slots \<and>
      ((\<forall>pc \<in> set (ps_threads s). \<forall>t. pc \<noteq> Ready t) \<longrightarrow> slot_holders s = min (length readings) slots)"
    if "ps_resets s = 0"
  proof -
    have i: "probes_inv slots s" "full_inv slots s"
      using probe_reach_full[OF assms(1) probe_start_inv[OF assms(2)] probe_start_full that] by auto
    have "length (ps_threads s) = length readings"
      using probe_reach_threads[OF assms(1)] by (simp add: probe_start_def)
    then show ?thesis using all_decided_admitted[OF i] i(1) by (simp add: probes_inv_def)
  qed
  moreover have "leased s \<le> 1" "(\<forall>t \<in> set readings. t - c < lease) \<longrightarrow> leased s = 0"
    using probe_reach_lease[OF assms(1,3)] by (auto simp: lease_inv_def)
  ultimately show ?thesis by (simp add: admitted_split)
qed

theorem racing_callers_fill_slots_witness:
  "slot_holders race_end = 1 \<and> admitted race_end = 2"
  using racing_callers_fill_slots[OF two_let_through_on_one_slot(1)[unfolded race_start_def]]
    two_let_through_on_one_slot(2)
  by (auto simp: race_end_def slot_holders_def)

section \<open>Policies, configuration, registry\<close>

text \<open>What the presets retry: the server exactly 429 and the 5xx codes, the edge client these
  without the two origin certificate codes, and storage uploads everything that is not a
  success except 400, 401, 403, 404 and the two certificate codes.\<close>

theorem presets_retry_exactly:
  "should_retry server_policy s = (s = 429 \<or> 500 \<le> s \<and> s < 600) \<and>
   should_retry edge_client_policy s = ((s = 429 \<or> 500 \<le> s \<and> s < 600) \<and> s \<noteq> 525 \<and> s \<noteq> 526) \<and>
   should_retry client_storage_policy s =
     (\<not> (200 \<le> s \<and> s < 300) \<and> s \<notin> {400, 401, 403, 404, 525, 526})"
proof (cases "200 \<le> s \<and> s < 300")
  case True
  then show ?thesis by (simp add: should_retry_def classify_def)
next
  case False
  have cl: "classify p s = (if s \<in> set (rp_auth_refresh p) then Some AuthRefresh
      else if s \<in> set (rp_terminal p) then Some Terminal
      else if s \<in> set (rp_retryable p) \<or> 500 \<le> s \<and> s < 600 then Some Retryable
      else Some (rp_default p))" for p
    by (simp only: classify_def False if_False)
  have "should_retry server_policy s = (s = 429 \<or> 500 \<le> s \<and> s < 600)"
    by (simp add: should_retry_def cl server_policy_def)
  moreover have "should_retry edge_client_policy s = ((s = 429 \<or> 500 \<le> s \<and> s < 600) \<and> s \<noteq> 525 \<and> s \<noteq> 526)"
  proof (cases "s \<in> {525, 526}")
    case True
    then show ?thesis by (simp add: should_retry_def cl edge_client_policy_def)
  next
    case False
    then have "s \<notin> set (rp_terminal edge_client_policy)" by (simp add: edge_client_policy_def)
    then show ?thesis using False by (simp add: should_retry_def cl) (simp add: edge_client_policy_def)
  qed
  moreover have "should_retry client_storage_policy s = (s \<notin> {400, 401, 403, 404, 525, 526})"
    unfolding should_retry_def cl client_storage_policy_def
    by (cases "s = 401"; cases "s \<in> {400, 403, 404, 525, 526}") simp_all
  ultimately show ?thesis using False by blast
qed

text \<open>A configuration read from the environment always admits at least one probe, counts some
  status as a failure and keeps its numbers in range, and with no variable set it is the server
  preset.\<close>

theorem environment_config_usable:
  "1 \<le> bc_max_probes (from_lookup_with_prefix pf prefix get) \<and>
   bc_max_probes (from_lookup_with_prefix pf prefix get) < 2 ^ 64 \<and>
   bc_failure_codes (from_lookup_with_prefix pf prefix get) \<noteq> [] \<and>
   list_all (\<lambda>c. c \<le> 65535) (bc_failure_codes (from_lookup_with_prefix pf prefix get)) \<and>
   from_lookup_with_prefix pf prefix (\<lambda>_. None) = server_config"
proof -
  have "lookup_or get (prefix @ u ''HALF_OPEN_MAX_PROBES'') (parse_unsigned max_u64) 1 \<le> max_u64"
    by (rule lookup_unsigned_le) (simp add: max_u64_def)
  moreover have "c \<le> 65535" if "c \<in> set (failure_codes_from get k)" for c k
    using that parsed_codes_range by (auto simp: failure_codes_from_def default_failure_codes_def
        split: option.splits if_splits)
  moreover have "(n :: nat) \<le> max_u64 \<Longrightarrow> max n 1 < 2 ^ 64" for n by (simp add: max_u64_def)
  moreover have "from_lookup_with_prefix pf prefix (\<lambda>_. None) = server_config"
    by (simp add: from_lookup_with_prefix_def lookup_or_def failure_codes_from_def server_config_def)
  moreover have "bc_failure_codes (from_lookup_with_prefix pf prefix get) =
      failure_codes_from get (prefix @ u ''FAILURE_CODES'')"
    "bc_max_probes (from_lookup_with_prefix pf prefix get) =
      max (lookup_or get (prefix @ u ''HALF_OPEN_MAX_PROBES'') (parse_unsigned max_u64) 1) 1"
    by (simp_all only: from_lookup_with_prefix_def Let_def breaker_config.simps)
  ultimately show ?thesis using failure_codes_ne max.cobounded2 unfolding list_all_iff by (metis (no_types, lifting))
qed

theorem environment_config_usable_witness:
  "list_all (\<lambda>c. c \<le> 65535) (bc_failure_codes (from_lookup_with_prefix (\<lambda>_. None) [] (\<lambda>_. Some (u ''7, x''))))"
  using environment_config_usable[of "\<lambda>_. None" "[]" "\<lambda>_. Some (u ''7, x'')"] by blast

text \<open>An enabled registry gives every key one breaker of its own, the same at every later request,
  and requests never touch the other breakers; a disabled one gives none.\<close>

theorem registry_is_stable:
  assumes "registry_ok r" "registry_get clk key r = (r', i)"
  shows "registry_ok r' \<and> (\<forall>j < length (rg_breakers r). rg_breakers r' ! j = rg_breakers r ! j) \<and>
    (\<forall>k j. map_of (rg_index r) k = Some j \<longrightarrow> map_of (rg_index r') k = Some j) \<and>
    (i = None \<longleftrightarrow> \<not> bc_enabled (rg_config r)) \<and>
    snd (registry_get clk' key r') = i"
proof -
  have cfg: "rg_config r' = rg_config r" using assms(2)
    by (cases "map_of (rg_index r) key") (auto simp: registry_get_def split: if_splits)
  have "(i = None \<longleftrightarrow> \<not> bc_enabled (rg_config r)) \<and> snd (registry_get clk' key r') = i"
  proof (cases "bc_enabled (rg_config r)")
    case True
    then obtain n where "map_of (rg_index r') key = Some n" "i = Some n"
      using registry_get_ok[OF assms] by auto
    then show ?thesis using True cfg by (simp add: registry_get_def)
  next
    case False
    then show ?thesis using assms(2) cfg by (auto simp: registry_get_def)
  qed
  then show ?thesis using registry_get_ok[OF assms] by blast
qed

theorem registry_is_stable_witness:
  "snd (registry_get bp_clock ''a'' (fst (registry_get bp_clock ''a'' (new_registry server_config)))) = Some 0"
proof -
  have g: "registry_get bp_clock ''a'' (new_registry server_config) =
      (fst (registry_get bp_clock ''a'' (new_registry server_config)), Some 0)"
    by (simp add: registry_get_def new_registry_def server_config_def)
  from registry_is_stable[OF new_registry_ok g] show ?thesis by blast
qed

end
