(* ===== verification/Utf8_Text.thy ===== *)
theory Utf8_Text
  imports Unicode_Text
begin

text \<open>
  UTF-8 as the Rust standard library writes it (\<open>str::as_bytes\<close>) and reads it back leniently
  (\<open>String::from_utf8_lossy\<close>): each maximal invalid sequence becomes one replacement
  character. Bytes are numbers below 256.
\<close>

type_synonym bytes = "nat list"

definition scalar :: "nat \<Rightarrow> bool" where
  "scalar c \<longleftrightarrow> c < 55296 \<or> 57344 \<le> c \<and> c < 1114112"

definition encode_char :: "nat \<Rightarrow> bytes" where
  "encode_char c =
     (if c < 128 then [c]
      else if c < 2048 then [192 + c div 64, 128 + c mod 64]
      else if c < 65536 then [224 + c div 4096, 128 + c div 64 mod 64, 128 + c mod 64]
      else [240 + c div 262144, 128 + c div 4096 mod 64, 128 + c div 64 mod 64, 128 + c mod 64])"

definition encode :: "ustr \<Rightarrow> bytes" where
  "encode s = concat (map encode_char s)"

definition byte_at :: "bytes \<Rightarrow> nat \<Rightarrow> nat" where
  "byte_at bs i = (if i < length bs then bs ! i else 0)"

definition cont_byte :: "nat \<Rightarrow> bool" where
  "cont_byte b \<longleftrightarrow> 128 \<le> b \<and> b \<le> 191"

definition replacement_char :: nat where
  "replacement_char = 65533"

text \<open>Whether a second byte may follow a three or four byte lead: no overlong form, no
  surrogate, nothing above the last scalar value.\<close>

definition second_ok :: "nat \<Rightarrow> nat \<Rightarrow> bool" where
  "second_ok b x \<longleftrightarrow>
     (if b = 224 then 160 \<le> x \<and> x \<le> 191
      else if b = 237 then 128 \<le> x \<and> x \<le> 159
      else if b = 240 then 144 \<le> x \<and> x \<le> 191
      else if b = 244 then 128 \<le> x \<and> x \<le> 143
      else cont_byte x)"

text \<open>The next character and the number of bytes it takes.\<close>

definition lossy_step :: "bytes \<Rightarrow> nat \<times> nat" where
  "lossy_step bs =
     (let b = byte_at bs 0; x = byte_at bs 1; y = byte_at bs 2; z = byte_at bs 3 in
      if b < 128 then (b, 1)
      else if 194 \<le> b \<and> b \<le> 223 then
        (if cont_byte x then ((b - 192) * 64 + (x - 128), 2) else (replacement_char, 1))
      else if 224 \<le> b \<and> b \<le> 239 then
        (if \<not> second_ok b x then (replacement_char, 1)
         else if \<not> cont_byte y then (replacement_char, 2)
         else ((b - 224) * 4096 + (x - 128) * 64 + (y - 128), 3))
      else if 240 \<le> b \<and> b \<le> 244 then
        (if \<not> second_ok b x then (replacement_char, 1)
         else if \<not> cont_byte y then (replacement_char, 2)
         else if \<not> cont_byte z then (replacement_char, 3)
         else ((b - 240) * 262144 + (x - 128) * 4096 + (y - 128) * 64 + (z - 128), 4))
      else (replacement_char, 1))"

lemma lossy_step_pos: "0 < snd (lossy_step bs)"
  by (simp add: lossy_step_def Let_def)

function decode_lossy :: "bytes \<Rightarrow> ustr" where
  "decode_lossy [] = []"
| "decode_lossy (b # bs) =
     fst (lossy_step (b # bs)) # decode_lossy (drop (snd (lossy_step (b # bs))) (b # bs))"
  by pat_completeness auto
termination
  by (relation "measure length") (auto simp: lossy_step_pos)

section \<open>Reading back what was written\<close>

text \<open>The digits of a number in base 64; the bounds of the bytes are linear in them.\<close>

lemma digits2:
  obtains a y where "(c :: nat) = a * 64 + y" "y < 64" "c div 64 = a" "c mod 64 = y"
  by (rule that[of "c div 64" "c mod 64"]) simp_all

lemma digits3:
  obtains a x y where "(c :: nat) = a * 4096 + x * 64 + y" "x < 64" "y < 64"
    "c div 4096 = a" "c div 64 mod 64 = x" "c mod 64 = y"
proof -
  obtain q y where q: "c = q * 64 + y" "y < 64" "c div 64 = q" "c mod 64 = y" by (rule digits2)
  obtain a x where a: "q = a * 64 + x" "x < 64" "q div 64 = a" "q mod 64 = x" by (rule digits2)
  have "c div 4096 = c div 64 div 64" by (simp add: div_mult2_eq[symmetric])
  then show thesis using that[of a x y] q a by simp
qed

lemma digits4:
  obtains a w x y where "(c :: nat) = a * 262144 + w * 4096 + x * 64 + y" "w < 64" "x < 64" "y < 64"
    "c div 262144 = a" "c div 4096 mod 64 = w" "c div 64 mod 64 = x" "c mod 64 = y"
proof -
  obtain q y where q: "c = q * 64 + y" "y < 64" "c div 64 = q" "c mod 64 = y" by (rule digits2)
  obtain a w x where a: "q = a * 4096 + w * 64 + x" "w < 64" "x < 64" "q div 4096 = a"
    "q div 64 mod 64 = w" "q mod 64 = x" by (rule digits3)
  have "c div 4096 = c div 64 div 64" "c div 262144 = c div 64 div 4096"
    by (simp_all add: div_mult2_eq[symmetric])
  then show thesis using that[of a w x y] q a by simp
qed

lemma step_two:
  assumes "128 \<le> c" "c < 2048"
  shows "lossy_step (encode_char c @ bs) = (c, 2)"
proof -
  obtain a y where d: "c = a * 64 + y" "y < 64" "c div 64 = a" "c mod 64 = y" by (rule digits2)
  have "2 \<le> a" "a < 32" using assms d(1,2) by linarith+
  moreover have "encode_char c = [192 + a, 128 + y]" using assms d(3,4) by (simp add: encode_char_def)
  ultimately show ?thesis using d(1,2)
    by (simp add: lossy_step_def byte_at_def cont_byte_def Let_def)
qed

lemma step_three:
  assumes "2048 \<le> c" "c < 65536" "scalar c"
  shows "lossy_step (encode_char c @ bs) = (c, 3)"
proof -
  obtain a x y where d: "c = a * 4096 + x * 64 + y" "x < 64" "y < 64"
    "c div 4096 = a" "c div 64 mod 64 = x" "c mod 64 = y" by (rule digits3)
  have "a < 16" "a = 0 \<Longrightarrow> 32 \<le> x" using assms(1,2) d(1,2,3) by linarith+
  moreover have "a = 13 \<Longrightarrow> x < 32" using assms(3) d(1,2,3) by (auto simp: scalar_def)
  ultimately have "second_ok (224 + a) (128 + x)" using d(2)
    by (auto simp: second_ok_def cont_byte_def)
  moreover have "encode_char c = [224 + a, 128 + x, 128 + y]"
    using assms d(4-6) by (simp add: encode_char_def)
  ultimately show ?thesis using d(1-3) \<open>a < 16\<close>
    by (simp add: lossy_step_def byte_at_def cont_byte_def Let_def)
qed

lemma step_four:
  assumes "65536 \<le> c" "scalar c"
  shows "lossy_step (encode_char c @ bs) = (c, 4)"
proof -
  obtain a w x y where d: "c = a * 262144 + w * 4096 + x * 64 + y" "w < 64" "x < 64" "y < 64"
    "c div 262144 = a" "c div 4096 mod 64 = w" "c div 64 mod 64 = x" "c mod 64 = y" by (rule digits4)
  have c: "c < 1114112" using assms by (simp add: scalar_def)
  have "a < 5" "a = 0 \<Longrightarrow> 16 \<le> w" "a = 4 \<Longrightarrow> w < 16" using assms(1) c d(1-4) by linarith+
  then have "second_ok (240 + a) (128 + w)" using d(2)
    by (auto simp: second_ok_def cont_byte_def)
  moreover have "encode_char c = [240 + a, 128 + w, 128 + x, 128 + y]"
    using assms d(5-8) by (simp add: encode_char_def)
  ultimately show ?thesis using d(1-4) \<open>a < 5\<close>
    by (simp add: lossy_step_def byte_at_def cont_byte_def Let_def)
qed

lemma step_encoded:
  "scalar c \<Longrightarrow> lossy_step (encode_char c @ bs) = (c, length (encode_char c)) \<and> encode_char c \<noteq> []"
  using step_two[of c bs] step_three[of c bs] step_four[of c bs]
  by (cases "c < 128"; cases "c < 2048"; cases "c < 65536")
    (auto simp: encode_char_def lossy_step_def byte_at_def)

lemma decode_encode: "list_all scalar s \<Longrightarrow> decode_lossy (encode s) = s"
proof (induction s)
  case (Cons c s)
  have st: "lossy_step (encode_char c @ encode s) = (c, length (encode_char c))" "encode_char c \<noteq> []"
    using step_encoded[of c "encode s"] Cons.prems by auto
  obtain b bs where "encode_char c @ encode s = b # bs" using st(2) by (cases "encode_char c") auto
  then have "decode_lossy (encode_char c @ encode s) = c # decode_lossy (encode s)"
    using st by (simp only: decode_lossy.simps) (metis append_eq_conv_conj fst_conv snd_conv)
  then show ?case using Cons by (simp add: encode_def)
qed (simp add: encode_def)

end
