(* ===== verification/Chat_Items.thy ===== *)
theory Chat_Items
  imports Prelude Utf8_Text
begin

text \<open>
  The items of a conversation, \<open>xai-grok-sampling-types/src/conversation.rs\<close>, and the estimate of the
  tokens they take, \<open>xai-chat-state/src/actor/state.rs\<close> and \<open>xai-token-estimation/src/lib.rs\<close>.

  Of the items the model service defines (calls it ran itself, reasoning) the fields that the code
  reads are kept. Lengths are in bytes of UTF-8; sums are not bounded.
\<close>

section \<open>Items\<close>

datatype synthetic_reason =
  Compaction_Meta | System_Reminder | Project_Instructions | Auto_Continue | Auto_Recovery | Interjection
| Task_Completed | Subagent_Completed | Notification_Drain | Goal_Summary | Goal_Classifier_Nudge
| Scheduler_Fired | Stop_Hook_Feedback | Working_Directory_Switch | Unknown_Reason

fun starts_prompt_turn :: "synthetic_reason \<Rightarrow> bool" where
  "starts_prompt_turn Task_Completed = True"
| "starts_prompt_turn Subagent_Completed = True"
| "starts_prompt_turn Notification_Drain = True"
| "starts_prompt_turn Goal_Classifier_Nudge = True"
| "starts_prompt_turn Scheduler_Fired = True"
| "starts_prompt_turn _ = False"

datatype prior_interrupt = Mid_Turn_Abort | Permission_Rejected | Permission_Cancelled | Unknown_Interrupt

datatype content_part = Text_Part ustr | Image_Part ustr

record user_item =
  ui_content :: "content_part list"
  ui_synthetic :: "synthetic_reason option"
  ui_generation :: "nat option"
  ui_interrupt :: "prior_interrupt option"
  ui_prompt_index :: "nat option"

record chat_call =
  cc_id :: ustr
  cc_name :: ustr
  cc_arguments :: ustr

datatype reasoning_effort =
  Effort_None | Effort_Minimal | Effort_Low | Effort_Medium | Effort_High | Effort_Xhigh | Effort_Max

record assistant_item =
  ai_content :: ustr
  ai_calls :: "chat_call list"
  ai_model_id :: "ustr option"
  ai_fingerprint :: "ustr option"
  ai_effort :: "reasoning_effort option"

record result_item =
  tr_id :: ustr
  tr_content :: ustr
  tr_images :: "content_part list"

datatype search_action =
  Search_For ustr | Open_Page "ustr option" | Find_Text ustr ustr | Find_In_Page ustr ustr

datatype backend_call =
  Backend_Web_Search ustr search_action
| Backend_X_Search ustr ustr ustr
| Backend_Interpreter ustr "ustr option"

record reasoning_item =
  ri_summary :: "ustr list"
  ri_texts :: "ustr list option"
  ri_encrypted :: "ustr option"

datatype conversation_item =
  System_Item ustr
| User_Item user_item
| Assistant_Item assistant_item
| Result_Item result_item
| Backend_Item backend_call
| Reasoning_Item reasoning_item

fun is_user :: "conversation_item \<Rightarrow> bool" where
  "is_user (User_Item m) = True"
| "is_user _ = False"

fun is_result :: "conversation_item \<Rightarrow> bool" where
  "is_result (Result_Item r) = True"
| "is_result _ = False"

definition user_text_item :: "synthetic_reason option \<Rightarrow> nat option \<Rightarrow> ustr \<Rightarrow> conversation_item" where
  "user_text_item reason generation s = User_Item \<lparr>ui_content = [Text_Part s], ui_synthetic = reason,
     ui_generation = generation, ui_interrupt = None, ui_prompt_index = None\<rparr>"

definition working_directory_switch :: "ustr \<Rightarrow> nat \<Rightarrow> conversation_item" where
  "working_directory_switch s g = user_text_item (Some Working_Directory_Switch) (Some g) s"

definition tool_result :: "ustr \<Rightarrow> ustr \<Rightarrow> conversation_item" where
  "tool_result i s = Result_Item \<lparr>tr_id = i, tr_content = s, tr_images = []\<rparr>"

fun working_directory_switch_generation :: "conversation_item \<Rightarrow> nat option" where
  "working_directory_switch_generation (User_Item m) =
     (if ui_synthetic m = Some Working_Directory_Switch then ui_generation m else None)"
| "working_directory_switch_generation _ = None"

fun set_prompt_index :: "nat \<Rightarrow> conversation_item \<Rightarrow> conversation_item" where
  "set_prompt_index i (User_Item m) = User_Item (m\<lparr>ui_prompt_index := Some i\<rparr>)"
| "set_prompt_index i x = x"

section \<open>Token estimates\<close>

definition byte_len :: "ustr \<Rightarrow> nat" where
  "byte_len s = length (encode s)"

text \<open>\<open>&s[..n]\<close> panics when \<open>n\<close> is inside a character.\<close>

fun slice_to :: "nat \<Rightarrow> ustr \<Rightarrow> ustr option" where
  "slice_to n [] = (if n = 0 then Some [] else None)"
| "slice_to n (c # s) =
     (if n = 0 then Some []
      else if length (encode_char c) \<le> n then map_option ((#) c) (slice_to (n - length (encode_char c)) s)
      else None)"

definition search_text :: "search_action \<Rightarrow> ustr" where
  "search_text a =
     (case a of
        Search_For q \<Rightarrow> u ''search: '' @ q
      | Open_Page url \<Rightarrow> u ''open: '' @ (case url of None \<Rightarrow> u ''?'' | Some x \<Rightarrow> x)
      | Find_Text p url \<Rightarrow> u ''find \"'' @ p @ u ''\" in '' @ url
      | Find_In_Page p url \<Rightarrow> u ''find \"'' @ p @ u ''\" in '' @ url)"

definition code_preview :: "ustr option \<Rightarrow> ustr option" where
  "code_preview code =
     (case code of
        None \<Rightarrow> Some []
      | Some c \<Rightarrow> if 100 < byte_len c then map_option (\<lambda>p. p @ u ''...'') (slice_to 100 c) else Some c)"

definition text_summary :: "backend_call \<Rightarrow> ustr option" where
  "text_summary b =
     (case b of
        Backend_Web_Search i a \<Rightarrow> Some (u ''[backend web_search] '' @ search_text a)
      | Backend_X_Search i name input \<Rightarrow> Some (u ''[backend x_search] '' @ name @ u ''('' @ input @ u '')'')
      | Backend_Interpreter i code \<Rightarrow>
          map_option (\<lambda>p. u ''[backend code_interpreter] '' @ p) (code_preview code))"

definition reasoning_item_text :: "reasoning_item \<Rightarrow> ustr" where
  "reasoning_item_text r = join [LF] (ri_summary r @ (case ri_texts r of None \<Rightarrow> [] | Some ts \<Rightarrow> ts))"

definition bytes_per_token :: nat where "bytes_per_token = 4"
definition image_token_estimate :: nat where "image_token_estimate = 765"

definition estimate_tokens :: "ustr \<Rightarrow> nat" where
  "estimate_tokens s = byte_len s div bytes_per_token"

fun part_bytes :: "content_part \<Rightarrow> nat" where
  "part_bytes (Text_Part s) = byte_len s"
| "part_bytes (Image_Part url) = 0"

fun is_image :: "content_part \<Rightarrow> bool" where
  "is_image (Text_Part s) = False"
| "is_image (Image_Part url) = True"

definition opt_len :: "ustr option \<Rightarrow> nat" where
  "opt_len s = (case s of None \<Rightarrow> 0 | Some t \<Rightarrow> byte_len t)"

text \<open>\<open>None\<close> is the panic of a preview that cuts a character.\<close>

definition estimate_item_tokens :: "conversation_item \<Rightarrow> nat option" where
  "estimate_item_tokens item =
     (case item of
        System_Item s \<Rightarrow> Some (estimate_tokens s)
      | User_Item m \<Rightarrow> Some (sum_list (map part_bytes (ui_content m)) div bytes_per_token
          + length (filter is_image (ui_content m)) * image_token_estimate)
      | Assistant_Item a \<Rightarrow>
          Some ((byte_len (ai_content a) + sum_list (map (byte_len \<circ> cc_arguments) (ai_calls a))) div bytes_per_token)
      | Result_Item r \<Rightarrow> Some (estimate_tokens (tr_content r))
      | Backend_Item b \<Rightarrow> map_option estimate_tokens (text_summary b)
      | Reasoning_Item r \<Rightarrow>
          Some ((byte_len (reasoning_item_text r) + opt_len (ri_encrypted r)) div bytes_per_token))"

fun sum_tokens :: "conversation_item list \<Rightarrow> nat option" where
  "sum_tokens [] = Some 0"
| "sum_tokens (x # xs) =
     (case estimate_item_tokens x of None \<Rightarrow> None | Some n \<Rightarrow> map_option ((+) n) (sum_tokens xs))"

definition estimate_conversation_tokens :: "conversation_item list \<Rightarrow> nat option" where
  "estimate_conversation_tokens xs = sum_tokens xs"

fun is_system :: "conversation_item \<Rightarrow> bool" where
  "is_system (System_Item s) = True"
| "is_system _ = False"

definition estimate_messages_tokens :: "conversation_item list \<Rightarrow> nat option" where
  "estimate_messages_tokens xs = sum_tokens (filter (\<lambda>x. \<not> is_system x) xs)"

section \<open>Facts\<close>

text \<open>An item whose preview does not cut a character.\<close>

definition countable_item :: "conversation_item \<Rightarrow> bool" where
  "countable_item x \<longleftrightarrow> estimate_item_tokens x \<noteq> None"

lemma sum_tokens_append:
  "sum_tokens (xs @ ys) =
     (case sum_tokens xs of None \<Rightarrow> None | Some n \<Rightarrow> map_option ((+) n) (sum_tokens ys))"
  by (induction xs) (cases "sum_tokens ys"; auto split: option.splits)+

lemma sum_tokens_defined: "sum_tokens xs \<noteq> None \<longleftrightarrow> list_all countable_item xs"
  by (induction xs) (auto simp: countable_item_def split: option.splits)

lemma slice_to_prefix: "slice_to n s = Some p \<Longrightarrow> byte_len p = n \<and> take (length p) s = p"
proof (induction n s arbitrary: p rule: slice_to.induct)
  case (2 n c s)
  then show ?case by (auto simp: byte_len_def encode_def split: if_splits)
qed (auto simp: byte_len_def encode_def split: if_splits)

text \<open>
  How many items of a conversation a rewind keeps: \<open>conversation_truncate_for_prompt\<close> and its three ways of
  counting turns (\<open>xai-grok-sampling-types/src/conversation.rs\<close>).
\<close>

section \<open>Counting\<close>

fun marker :: "conversation_item \<Rightarrow> nat option" where
  "marker (User_Item m) = ui_prompt_index m"
| "marker _ = None"

fun truncate_markers_only :: "nat \<Rightarrow> nat \<Rightarrow> conversation_item list \<Rightarrow> nat" where
  "truncate_markers_only target i [] = i"
| "truncate_markers_only target i (x # xs) =
     (case marker x of
        Some idx \<Rightarrow> if target \<le> idx then i else truncate_markers_only target (i + 1) xs
      | None \<Rightarrow> truncate_markers_only target (i + 1) xs)"

text \<open>The first message that is neither marked nor synthetic is the preamble.\<close>

definition legacy_index :: "bool \<Rightarrow> nat \<Rightarrow> user_item \<Rightarrow> nat option" where
  "legacy_index seen_preamble next_index m =
     (case ui_synthetic m of
        None \<Rightarrow> if seen_preamble then Some next_index else None
      | Some reason \<Rightarrow> if starts_prompt_turn reason then Some next_index else None)"

definition sees_preamble :: "bool \<Rightarrow> user_item \<Rightarrow> bool" where
  "sees_preamble seen_preamble m \<longleftrightarrow> seen_preamble \<or> ui_synthetic m = None"

fun truncate_legacy :: "nat \<Rightarrow> bool \<Rightarrow> nat \<Rightarrow> nat \<Rightarrow> conversation_item list \<Rightarrow> nat" where
  "truncate_legacy target seen next_index i [] = i"
| "truncate_legacy target seen next_index i (User_Item m # xs) =
     (case legacy_index seen next_index m of
        Some idx \<Rightarrow> if target \<le> idx then i else truncate_legacy target (sees_preamble seen m) (idx + 1) (i + 1) xs
      | None \<Rightarrow> truncate_legacy target (sees_preamble seen m) next_index (i + 1) xs)"
| "truncate_legacy target seen next_index i (x # xs) = truncate_legacy target seen next_index (i + 1) xs"

fun count_legacy_turns :: "bool \<Rightarrow> nat \<Rightarrow> conversation_item list \<Rightarrow> nat" where
  "count_legacy_turns seen turns [] = turns"
| "count_legacy_turns seen turns (User_Item m # xs) =
     (if ui_prompt_index m \<noteq> None then turns
      else case ui_synthetic m of
        None \<Rightarrow> if seen then count_legacy_turns True (turns + 1) xs else count_legacy_turns True turns xs
      | Some reason \<Rightarrow>
          if starts_prompt_turn reason then count_legacy_turns seen (turns + 1) xs
          else count_legacy_turns seen turns xs)"
| "count_legacy_turns seen turns (x # xs) = count_legacy_turns seen turns xs"

definition count_legacy_turns_until_marker :: "conversation_item list \<Rightarrow> nat" where
  "count_legacy_turns_until_marker xs = count_legacy_turns False 0 xs"

fun truncate_progressive :: "nat \<Rightarrow> bool \<Rightarrow> bool \<Rightarrow> nat \<Rightarrow> nat \<Rightarrow> conversation_item list \<Rightarrow> nat" where
  "truncate_progressive target seen_marker seen next_index i [] = i"
| "truncate_progressive target seen_marker seen next_index i (User_Item m # xs) =
     (case ui_prompt_index m of
        Some idx \<Rightarrow> if target \<le> idx then i else truncate_progressive target True seen next_index (i + 1) xs
      | None \<Rightarrow>
          if seen_marker then truncate_progressive target seen_marker seen next_index (i + 1) xs
          else (case legacy_index seen next_index m of
              Some idx \<Rightarrow> if target \<le> idx then i
                else truncate_progressive target seen_marker (sees_preamble seen m) (idx + 1) (i + 1) xs
            | None \<Rightarrow> truncate_progressive target seen_marker (sees_preamble seen m) next_index (i + 1) xs))"
| "truncate_progressive target seen_marker seen next_index i (x # xs) =
     truncate_progressive target seen_marker seen next_index (i + 1) xs"

definition conversation_truncate_for_prompt :: "conversation_item list \<Rightarrow> nat \<Rightarrow> nat" where
  "conversation_truncate_for_prompt xs target =
     (case List.map_filter marker xs of
        [] \<Rightarrow> truncate_legacy target False 0 0 xs
      | first_marker # _ \<Rightarrow>
          if count_legacy_turns_until_marker xs \<noteq> first_marker then truncate_markers_only target 0 xs
          else truncate_progressive target False False 0 0 xs)"

section \<open>Turns\<close>

text \<open>A turn starts with a message that carries its index, and no other message of it carries one.\<close>

fun turns_from :: "nat \<Rightarrow> conversation_item list list \<Rightarrow> bool" where
  "turns_from k [] = True"
| "turns_from k (t # ts) =
     ((case t of [] \<Rightarrow> False | x # xs \<Rightarrow> marker x = Some k \<and> list_all (\<lambda>y. marker y = None) xs) \<and>
      turns_from (Suc k) ts)"

definition unmarked :: "conversation_item list \<Rightarrow> bool" where
  "unmarked xs \<longleftrightarrow> list_all (\<lambda>y. marker y = None) xs"

lemma marker_user: "marker x = Some k \<Longrightarrow> \<exists>m. x = User_Item m \<and> ui_prompt_index m = Some k"
  by (cases x) auto

lemma markers_skip: "unmarked xs \<Longrightarrow> truncate_markers_only target i (xs @ ys) = truncate_markers_only target (i + length xs) ys"
  by (induction xs arbitrary: i) (auto simp: unmarked_def)

lemma markers_cut:
  "turns_from k ts \<Longrightarrow> target = k + n \<Longrightarrow> n < length ts \<Longrightarrow>
     truncate_markers_only target i (concat ts) = i + length (concat (take n ts))"
proof (induction ts arbitrary: k n i)
  case (Cons t ts)
  obtain x xs where t: "t = x # xs" "marker x = Some k" "unmarked xs" using Cons.prems(1)
    by (cases t) (auto simp: unmarked_def)
  show ?case
  proof (cases n)
    case 0
    then show ?thesis using t Cons.prems by simp
  next
    case (Suc n')
    then have "truncate_markers_only target (i + length t) (concat ts) = i + length t + length (concat (take n' ts))"
      using Cons.IH[of "Suc k" n'] Cons.prems by simp
    then show ?thesis using t Suc Cons.prems markers_skip[OF t(3), of target "i + 1" "concat ts"] by simp
  qed
qed simp

lemma progressive_marked:
  "truncate_progressive target True seen next_index i xs = truncate_markers_only target i xs"
proof (induction xs arbitrary: i seen next_index)
  case (Cons x xs)
  then show ?case by (cases x) (auto split: option.split)
qed simp

lemma count_legacy_from: "count_legacy_turns seen (turns + d) xs = count_legacy_turns seen turns xs + d"
proof (induction xs arbitrary: seen turns)
  case (Cons x xs)
  show ?case
  proof (cases x)
    case (User_Item m)
    then show ?thesis using Cons[of _ "turns + 1"] Cons[of _ turns] by (auto split: option.split)
  qed (use Cons in auto)
qed simp

text \<open>Before the first marker the count of turns and the index of the next one agree.\<close>

lemma progressive_prefix:
  assumes "unmarked pre" "marker y = Some k"
    and "count_legacy_turns seen n (pre @ y # ys) \<le> target" "k < target \<or> k = target"
  shows "truncate_progressive target False seen n i (pre @ y # ys) = truncate_markers_only target i (pre @ y # ys)"
  using assms
proof (induction pre arbitrary: seen n i)
  case Nil
  then obtain m where "y = User_Item m" "ui_prompt_index m = Some k" using marker_user by blast
  then show ?case using progressive_marked by simp
next
  case (Cons x pre)
  have le: "n \<le> count_legacy_turns s n xs" for s xs using count_legacy_from[of s 0 n xs] by simp
  show ?case
  proof (cases x)
    case (User_Item m)
    have m: "ui_prompt_index m = None" using Cons.prems(1) User_Item by (simp add: unmarked_def)
    have pre: "unmarked pre" using Cons.prems(1) by (simp add: unmarked_def)
    note IH = Cons.IH[OF pre Cons.prems(2) _ Cons.prems(4)]
    show ?thesis
    proof (cases "legacy_index seen n m")
      case None
      then have "count_legacy_turns (sees_preamble seen m) n (pre @ y # ys) \<le> target"
        using Cons.prems(3) User_Item m by (auto simp: legacy_index_def sees_preamble_def split: option.splits if_splits)
      then show ?thesis using IH User_Item m None by simp
    next
      case (Some idx)
      then have "idx = n" "count_legacy_turns (sees_preamble seen m) (n + 1) (pre @ y # ys) \<le> target"
        using Cons.prems(3) User_Item m by (auto simp: legacy_index_def sees_preamble_def split: option.splits if_splits)
      moreover have "n < target"
        using calculation(2) count_legacy_from[of "sees_preamble seen m" 0 "n + 1" "pre @ y # ys"] by simp
      ultimately show ?thesis using IH[of "sees_preamble seen m" "n + 1"] User_Item m Some by simp
    qed
  qed (use Cons in \<open>auto simp: unmarked_def\<close>)
qed

lemma first_marker:
  "unmarked pre \<Longrightarrow> marker y = Some k \<Longrightarrow> \<exists>ks. List.map_filter marker (pre @ y # ys) = k # ks"
  by (induction pre) (auto simp: unmarked_def List.map_filter_def)

text \<open>C22: A rewind to a prompt keeps the items before it and nothing else: the cut is right before the message that
  carries the index of the prompt, when the messages of later turns carry theirs, whatever counting the
  conversation calls for.\<close>

theorem rewind_cuts_before_the_turn:
  assumes "unmarked pre" "turns_from k ts" "n < length ts"
  shows "conversation_truncate_for_prompt (pre @ concat ts) (k + n) = length (pre @ concat (take n ts))"
proof -
  obtain t ts' where ts: "ts = t # ts'" using assms(3) by (cases ts) auto
  obtain y ys where t: "t = y # ys" "marker y = Some k" using assms(2) ts by (cases t) auto
  let ?xs = "pre @ y # ys @ concat ts'"
  have xs: "pre @ concat ts = ?xs" using ts t by simp
  obtain ks where first: "List.map_filter marker ?xs = k # ks" using first_marker[OF assms(1) t(2)] by blast
  have markers: "truncate_markers_only (k + n) 0 ?xs = length (pre @ concat (take n ts))"
    using markers_skip[OF assms(1), of "k + n" 0 "concat ts"] markers_cut[OF assms(2) refl assms(3), of "length pre"] xs
    by simp
  have "truncate_progressive (k + n) False False 0 0 ?xs = truncate_markers_only (k + n) 0 ?xs"
    if "count_legacy_turns_until_marker ?xs = k"
    using progressive_prefix[OF assms(1) t(2), of False 0 "ys @ concat ts'" "k + n" 0] that
    by (auto simp: count_legacy_turns_until_marker_def)
  then show ?thesis unfolding xs using markers by (simp add: conversation_truncate_for_prompt_def first)
qed

theorem rewind_cuts_before_the_turn_witness:
  "let prompt = (\<lambda>i. set_prompt_index i (user_text_item None None []))
   in conversation_truncate_for_prompt [System_Item [], prompt 0, tool_result [] [], prompt 1] 1 = 3"
proof -
  let ?p = "\<lambda>i. set_prompt_index i (user_text_item None None [])" and ?r = "tool_result [] []"
  have "unmarked [System_Item []]" "turns_from 0 [[?p 0, ?r], [?p 1]]"
    by (simp_all add: unmarked_def user_text_item_def tool_result_def)
  then show ?thesis using rewind_cuts_before_the_turn[of "[System_Item []]" 0 "[[?p 0, ?r], [?p 1]]" 1] by simp
qed

section \<open>The legacy prefix\<close>

lemma other_skipped:
  "\<not> is_user x \<Longrightarrow> truncate_legacy target seen n i (x # xs) = truncate_legacy target seen n (i + 1) xs"
  "\<not> is_user x \<Longrightarrow> count_legacy_turns seen n (x # xs) = count_legacy_turns seen n xs"
  by (cases x; simp)+

text \<open>In a conversation without markers a cut leaves as many turns as it names.\<close>

lemma legacy_cut:
  assumes "unmarked xs" "target < count_legacy_turns seen n xs" "n \<le> target"
  shows "\<exists>j < length xs. truncate_legacy target seen n i xs = i + j \<and> count_legacy_turns seen n (take j xs) = target"
  using assms
proof (induction xs arbitrary: seen n i)
  case (Cons x xs)
  have xs: "unmarked xs" using Cons.prems(1) by (simp add: unmarked_def)
  note IH = Cons.IH[OF xs]
  show ?case
  proof (cases "is_user x")
    case True
    then obtain m where User_Item: "x = User_Item m" by (cases x) auto
    have m: "ui_prompt_index m = None" using Cons.prems(1) User_Item by (simp add: unmarked_def)
    show ?thesis
    proof (cases "legacy_index seen n m")
      case None
      then have "target < count_legacy_turns (sees_preamble seen m) n xs"
        using Cons.prems(2) User_Item m by (auto simp: legacy_index_def sees_preamble_def split: option.splits if_splits)
      then obtain j where "j < length xs" "truncate_legacy target (sees_preamble seen m) n (i + 1) xs = i + 1 + j"
        "count_legacy_turns (sees_preamble seen m) n (take j xs) = target"
        using IH Cons.prems(3) by blast
      then show ?thesis using None User_Item m
        by (intro exI[of _ "Suc j"]) (auto simp: legacy_index_def sees_preamble_def split: option.splits if_splits)
    next
      case (Some idx)
      then have idx: "idx = n" by (auto simp: legacy_index_def split: option.splits if_splits)
      show ?thesis
      proof (cases "target = n")
        case True
        then show ?thesis using Some idx User_Item by (intro exI[of _ 0]) simp
      next
        case False
        have "target < count_legacy_turns (sees_preamble seen m) (n + 1) xs"
          using Some Cons.prems(2) User_Item m by (auto simp: legacy_index_def sees_preamble_def split: option.splits if_splits)
        then obtain j where "j < length xs" "truncate_legacy target (sees_preamble seen m) (n + 1) (i + 1) xs = i + 1 + j"
          "count_legacy_turns (sees_preamble seen m) (n + 1) (take j xs) = target"
          using IH Cons.prems(3) False by (metis Suc_eq_plus1 Suc_leI le_neq_implies_less)
        then show ?thesis using Some idx False Cons.prems(3) User_Item m
          by (intro exI[of _ "Suc j"]) (auto simp: legacy_index_def sees_preamble_def split: option.splits if_splits)
      qed
    qed
  next
    case False
    then obtain j where "j < length xs" "truncate_legacy target seen n (i + 1) xs = i + 1 + j"
      "count_legacy_turns seen n (take j xs) = target"
      using IH[of seen n "i + 1"] Cons.prems other_skipped by metis
    then show ?thesis using False by (intro exI[of _ "Suc j"]) (simp add: other_skipped)
  qed
qed simp

end
