(* ===== verification/Chat_Repair.thy ===== *)
theory Chat_Repair
  imports Chat_Items "HOL-Library.Multiset"
begin

text \<open>
  Keeping the calls of a conversation and their results in step: \<open>repair_dangling_tool_calls\<close>,
  \<open>dedup_duplicate_tool_results\<close> (\<open>xai-grok-sampling-types/src/conversation.rs\<close>),
  \<open>strip_displaced_tool_results\<close>, \<open>repair_history\<close>, \<open>sanitize_compacted_history\<close> and
  \<open>validate_compacted_history\<close> (\<open>xai-chat-state/src/compaction_utils.rs\<close>). The passes work on positions, as
  the code does; \<open>Chat_Pairing\<close> relates them to plain recursions.
\<close>

section \<open>Unanswered calls\<close>

datatype dangling_reason = User_Cancelled | Harness_Halted ustr

definition synthetic_dangling_result_text :: "ustr \<Rightarrow> dangling_reason \<Rightarrow> ustr" where
  "synthetic_dangling_result_text name reason =
     (case reason of
        User_Cancelled \<Rightarrow>
          u ''Tool execution was cancelled by the user (tool `'' @ name @ u ''` was not executed).''
      | Harness_Halted c \<Rightarrow>
          u ''Tool execution was halted by the harness ('' @ c @ u ''); the tool `'' @ name @ u ''` was not executed.'')"

fun result_id :: "conversation_item \<Rightarrow> ustr option" where
  "result_id (Result_Item r) = Some (tr_id r)"
| "result_id _ = None"

definition answered_ids :: "conversation_item list \<Rightarrow> ustr set" where
  "answered_ids res = set (List.map_filter result_id res)"

definition synthetic_results :: "dangling_reason \<Rightarrow> chat_call list \<Rightarrow> conversation_item list \<Rightarrow> conversation_item list" where
  "synthetic_results reason calls res =
     map (\<lambda>c. tool_result (cc_id c) (synthetic_dangling_result_text (cc_name c) reason))
       (filter (\<lambda>c. cc_id c \<notin> answered_ids res) calls)"

fun calls_of :: "conversation_item \<Rightarrow> chat_call list" where
  "calls_of (Assistant_Item a) = ai_calls a"
| "calls_of _ = []"

text \<open>The first phase finds where results are missing, the second inserts them from the back.\<close>

function find_repairs ::
  "dangling_reason \<Rightarrow> nat \<Rightarrow> conversation_item list \<Rightarrow> (nat \<times> conversation_item list) list" where
  "find_repairs reason i [] = []"
| "find_repairs reason i (x # xs) =
     (if calls_of x = [] then find_repairs reason (i + 1) xs
      else (let res = takeWhile is_result xs; j = i + 1 + length res;
                synthetic = synthetic_results reason (calls_of x) res;
                rest = find_repairs reason j (dropWhile is_result xs)
            in if synthetic = [] then rest else (j, synthetic) # rest))"
  by pat_completeness auto
termination
  by (relation "measure (\<lambda>(_, _, xs). length xs)") (auto simp: length_dropWhile_le le_imp_less_Suc)

definition splice_in :: "nat \<Rightarrow> 'a list \<Rightarrow> 'a list \<Rightarrow> 'a list" where
  "splice_in j new xs = take j xs @ new @ drop j xs"

definition repair_dangling_tool_calls ::
  "dangling_reason \<Rightarrow> conversation_item list \<Rightarrow> conversation_item list \<times> nat" where
  "repair_dangling_tool_calls reason xs =
     (let repairs = find_repairs reason 0 xs
      in (foldr (\<lambda>(j, new). splice_in j new) repairs xs, sum_list (map (length \<circ> snd) repairs)))"

function has_dangling_tool_calls :: "conversation_item list \<Rightarrow> bool" where
  "has_dangling_tool_calls [] = False"
| "has_dangling_tool_calls (x # xs) =
     (if calls_of x = [] then has_dangling_tool_calls xs
      else (\<exists>c \<in> set (calls_of x). cc_id c \<notin> answered_ids (takeWhile is_result xs)) \<or>
        has_dangling_tool_calls (dropWhile is_result xs))"
  by pat_completeness auto
termination
  by (relation "measure length") (auto simp: length_dropWhile_le le_imp_less_Suc)

section \<open>Duplicate results\<close>

text \<open>\<open>seen.insert(id, idx)\<close> returns the earlier position, which is marked for removal.\<close>

fun dup_positions :: "(ustr \<times> nat) list \<Rightarrow> nat \<Rightarrow> conversation_item list \<Rightarrow> nat list" where
  "dup_positions seen i [] = []"
| "dup_positions seen i (x # xs) =
     (case result_id x of
        None \<Rightarrow> dup_positions seen (i + 1) xs
      | Some k \<Rightarrow> (case map_of seen k of None \<Rightarrow> [] | Some p \<Rightarrow> [p]) @ dup_positions ((k, i) # seen) (i + 1) xs)"

definition remove_at :: "nat \<Rightarrow> 'a list \<Rightarrow> 'a list" where
  "remove_at i xs = take i xs @ drop (Suc i) xs"

definition remove_all_at :: "nat list \<Rightarrow> 'a list \<Rightarrow> 'a list" where
  "remove_all_at ps xs = fold remove_at (rev (sort ps)) xs"

lemma length_remove_at: "length (remove_at i xs) \<le> length xs"
  by (simp add: remove_at_def)

lemma length_fold_remove_at: "length (fold remove_at ps xs) \<le> length xs"
proof (induction ps arbitrary: xs)
  case (Cons p ps)
  show ?case using Cons[of "remove_at p xs"] length_remove_at[of p xs] by simp
qed simp

lemma length_remove_all_at:
  assumes "ps \<noteq> []" "\<forall>p \<in> set ps. p < length xs"
  shows "length (remove_all_at ps xs) < length xs"
proof -
  obtain q qs where q: "rev (sort ps) = q # qs" using assms(1) by (metis list.exhaust rev_is_Nil_conv set_empty set_sort)
  then have "q \<in> set ps" by (metis list.set_intros(1) set_rev set_sort)
  then have "q < length xs" using assms(2) by simp
  then have "length (remove_at q xs) < length xs" by (simp add: remove_at_def)
  then show ?thesis using length_fold_remove_at[of qs "remove_at q xs"] by (simp add: remove_all_at_def q)
qed

lemma dup_positions_bound:
  "p \<in> set (dup_positions seen i xs) \<Longrightarrow> \<forall>q \<in> snd ` set seen. q < i \<Longrightarrow> p < i + length xs"
proof (induction seen i xs rule: dup_positions.induct)
  case (2 seen i x xs)
  show ?case
  proof (cases "result_id x")
    case None
    then show ?thesis using 2 by (auto simp: less_Suc_eq)
  next
    case (Some k)
    have later: "\<forall>q \<in> snd ` set ((k, i) # seen). q < i + 1" using 2(4) by auto
    show ?thesis
    proof (cases "p \<in> set (dup_positions ((k, i) # seen) (i + 1) xs)")
      case True
      then show ?thesis using 2(2)[OF Some True later] by simp
    next
      case False
      then have "map_of seen k = Some p" using 2(3) Some by (auto split: option.splits)
      then have "(k, p) \<in> set seen" by (rule map_of_SomeD)
      then show ?thesis using 2(4) by force
    qed
  qed
qed simp

text \<open>After a removal the scan looks at the same assistant again.\<close>

function dedup_duplicate_tool_results :: "conversation_item list \<Rightarrow> conversation_item list \<times> nat" where
  "dedup_duplicate_tool_results [] = ([], 0)"
| "dedup_duplicate_tool_results (x # xs) =
     (if calls_of x = [] then apfst ((#) x) (dedup_duplicate_tool_results xs)
      else (let res = takeWhile is_result xs; rest = dropWhile is_result xs; ps = dup_positions [] 0 res
            in if ps = [] then apfst (\<lambda>ys. x # res @ ys) (dedup_duplicate_tool_results rest)
               else apsnd ((+) (length ps)) (dedup_duplicate_tool_results (x # remove_all_at ps res @ rest))))"
  by pat_completeness auto
termination
proof (relation "measure length", goal_cases)
  case (4 x xs res rest ps)
  have "\<forall>p \<in> set ps. p < length res" using dup_positions_bound[of _ "[]" 0 res] 4(4) by auto
  then have "length (remove_all_at ps res) < length res" using length_remove_all_at 4(5) by blast
  moreover have "length res + length rest = length xs"
    using 4(2,3) by (metis length_append takeWhile_dropWhile_id)
  ultimately show ?case by simp
qed (auto simp: length_dropWhile_le le_imp_less_Suc)

section \<open>Results away from their call\<close>

fun strip_displaced_tool_results ::
  "ustr set \<Rightarrow> conversation_item list \<Rightarrow> conversation_item list \<times> ustr list" where
  "strip_displaced_tool_results ids [] = ([], [])"
| "strip_displaced_tool_results ids (Assistant_Item a # xs) =
     apfst ((#) (Assistant_Item a)) (strip_displaced_tool_results (set (map cc_id (ai_calls a))) xs)"
| "strip_displaced_tool_results ids (Result_Item r # xs) =
     (if tr_id r \<in> ids then apfst ((#) (Result_Item r)) (strip_displaced_tool_results ids xs)
      else apsnd ((#) (tr_id r)) (strip_displaced_tool_results ids xs))"
| "strip_displaced_tool_results ids (x # xs) = apfst ((#) x) (strip_displaced_tool_results {} xs)"

record repair_report =
  rr_duplicates :: nat
  rr_stripped :: "ustr list"
  rr_inserted :: nat

definition report_changed :: "repair_report \<Rightarrow> bool" where
  "report_changed r \<longleftrightarrow> 0 < rr_duplicates r \<or> rr_stripped r \<noteq> [] \<or> 0 < rr_inserted r"

definition repair_history :: "conversation_item list \<Rightarrow> conversation_item list \<times> repair_report" where
  "repair_history xs =
     (case dedup_duplicate_tool_results xs of (ys, duplicates) \<Rightarrow>
      case strip_displaced_tool_results {} ys of (zs, stripped) \<Rightarrow>
      case repair_dangling_tool_calls (Harness_Halted (u ''history_repair'')) zs of (ws, inserted) \<Rightarrow>
        (ws, \<lparr>rr_duplicates = duplicates, rr_stripped = stripped, rr_inserted = inserted\<rparr>))"

section \<open>Compacted histories\<close>

fun validate_from :: "ustr set \<Rightarrow> conversation_item list \<Rightarrow> ustr list" where
  "validate_from seen [] = []"
| "validate_from seen (Assistant_Item a # xs) = validate_from (seen \<union> set (map cc_id (ai_calls a))) xs"
| "validate_from seen (Result_Item r # xs) =
     (if tr_id r \<in> seen then validate_from seen xs else tr_id r # validate_from seen xs)"
| "validate_from seen (x # xs) = validate_from seen xs"

definition validate_compacted_history :: "conversation_item list \<Rightarrow> ustr list" where
  "validate_compacted_history xs = validate_from {} xs"

fun sanitize_from :: "ustr set \<Rightarrow> conversation_item list \<Rightarrow> conversation_item list \<times> ustr list" where
  "sanitize_from seen [] = ([], [])"
| "sanitize_from seen (Assistant_Item a # xs) =
     apfst ((#) (Assistant_Item a)) (sanitize_from (seen \<union> set (map cc_id (ai_calls a))) xs)"
| "sanitize_from seen (Result_Item r # xs) =
     (if tr_id r \<in> seen then apfst ((#) (Result_Item r)) (sanitize_from seen xs)
      else apsnd ((#) (tr_id r)) (sanitize_from seen xs))"
| "sanitize_from seen (x # xs) = apfst ((#) x) (sanitize_from seen xs)"

definition sanitize_compacted_history :: "conversation_item list \<Rightarrow> conversation_item list \<times> ustr list" where
  "sanitize_compacted_history xs = sanitize_from {} xs"

text \<open>
  What the repair passes of \<open>Chat_Repair\<close> compute, as plain recursions over the conversation, and the
  property they establish: every call is answered exactly once, right after the assistant that made it,
  and no other result is left.
\<close>

section \<open>The passes without positions\<close>

function filled :: "dangling_reason \<Rightarrow> conversation_item list \<Rightarrow> conversation_item list" where
  "filled reason [] = []"
| "filled reason (x # xs) =
     (if calls_of x = [] then x # filled reason xs
      else x # takeWhile is_result xs @ synthetic_results reason (calls_of x) (takeWhile is_result xs) @
        filled reason (dropWhile is_result xs))"
  by pat_completeness auto
termination
  by (relation "measure (\<lambda>(_, xs). length xs)") (auto simp: length_dropWhile_le le_imp_less_Suc)

lemma splice_in_append: "splice_in (length ys) new (ys @ zs) = ys @ new @ zs"
  by (simp add: splice_in_def)

lemma splice_found:
  "length ys = i \<Longrightarrow> foldr (\<lambda>(j, new). splice_in j new) (find_repairs reason i xs) (ys @ xs) = ys @ filled reason xs"
proof (induction reason i xs arbitrary: ys rule: find_repairs.induct)
  case (2 reason i x xs)
  show ?case
  proof (cases "calls_of x = []")
    case True
    then show ?thesis using 2(1)[OF True, of "ys @ [x]"] 2(3) by simp
  next
    case False
    let ?res = "takeWhile is_result xs" and ?rest = "dropWhile is_result xs"
    let ?ys = "ys @ x # ?res" and ?j = "i + 1 + length (takeWhile is_result xs)"
    have "foldr (\<lambda>(j, new). splice_in j new) (find_repairs reason ?j ?rest) (?ys @ ?rest) = ?ys @ filled reason ?rest"
      using False 2(3) by (intro 2(2)) auto
    moreover have "?ys @ ?rest = ys @ x # xs" by simp
    moreover have "splice_in ?j new (?ys @ zs) = ?ys @ new @ zs" for new zs
      using splice_in_append[of ?ys] 2(3) by simp
    ultimately show ?thesis using False by (simp add: Let_def)
  qed
qed simp

lemma repair_is_filled: "fst (repair_dangling_tool_calls reason xs) = filled reason xs"
  using splice_found[of "[]" 0 reason xs] by (simp add: repair_dangling_tool_calls_def Let_def)

lemma found_iff_dangling: "find_repairs reason i xs \<noteq> [] \<longleftrightarrow> has_dangling_tool_calls xs"
  by (induction reason i xs rule: find_repairs.induct)
     (auto simp: Let_def synthetic_results_def filter_empty_conv)

lemma found_nonempty: "(j, new) \<in> set (find_repairs reason i xs) \<Longrightarrow> new \<noteq> []"
  by (induction reason i xs rule: find_repairs.induct) (auto simp: Let_def split: if_splits)

lemma inserted_iff_dangling: "0 < snd (repair_dangling_tool_calls reason xs) \<longleftrightarrow> has_dangling_tool_calls xs"
proof -
  have "sum_list (map (length \<circ> snd) (find_repairs reason 0 xs)) = 0 \<longleftrightarrow> find_repairs reason 0 xs = []"
  proof
    assume zero: "sum_list (map (length \<circ> snd) (find_repairs reason 0 xs)) = 0"
    show "find_repairs reason 0 xs = []"
    proof (cases "find_repairs reason 0 xs")
      case (Cons f fs)
      then have "f \<in> set (find_repairs reason 0 xs)" by simp
      then show ?thesis using found_nonempty[of "fst f" "snd f" reason 0 xs] zero Cons by simp
    qed simp
  qed simp
  then show ?thesis using found_iff_dangling[of reason 0 xs]
    by (simp only: repair_dangling_tool_calls_def Let_def snd_conv zero_less_iff_neq_zero)
qed

lemma filled_id: "\<not> has_dangling_tool_calls xs \<Longrightarrow> filled reason xs = xs"
  by (induction xs rule: has_dangling_tool_calls.induct)
     (auto simp: synthetic_results_def filter_empty_conv)

lemma no_dangling_repair: "\<not> has_dangling_tool_calls xs \<Longrightarrow> repair_dangling_tool_calls reason xs = (xs, 0)"
  using repair_is_filled[of reason xs] filled_id[of xs reason] inserted_iff_dangling[of reason xs]
  by (simp add: prod_eq_iff)

text \<open>Of the results with one id the last stays.\<close>

fun keep_last :: "conversation_item list \<Rightarrow> conversation_item list" where
  "keep_last [] = []"
| "keep_last (x # xs) = (if set_option (result_id x) \<inter> answered_ids xs \<noteq> {} then keep_last xs else x # keep_last xs)"

lemma answered_Nil [simp]: "answered_ids [] = {}"
  by (simp add: answered_ids_def List.map_filter_def)

lemma answered_Cons [simp]: "answered_ids (x # xs) = set_option (result_id x) \<union> answered_ids xs"
  by (auto simp: answered_ids_def List.map_filter_def split: option.splits)

lemma answered_append [simp]: "answered_ids (xs @ ys) = answered_ids xs \<union> answered_ids ys"
  by (induction xs) auto

lemma answered_keep_last [simp]: "answered_ids (keep_last xs) = answered_ids xs"
proof (induction xs)
  case (Cons x xs)
  then show ?case by (cases "result_id x") auto
qed simp

lemma set_keep_last: "set (keep_last xs) \<subseteq> set xs"
  by (induction xs) auto

lemma results_keep_last: "list_all is_result xs \<Longrightarrow> list_all is_result (keep_last xs)"
  using set_keep_last by (auto simp: list_all_iff)

lemma keep_last_twice: "keep_last (keep_last xs) = keep_last xs"
proof (induction xs)
  case (Cons x xs)
  then show ?case by (cases "result_id x") simp_all
qed simp

lemma early_positions:
  assumes "\<forall>q \<in> snd ` set seen. q < i" "p < i"
  shows "p \<in> set (dup_positions seen i xs) \<longleftrightarrow> (\<exists>k \<in> answered_ids xs. map_of seen k = Some p)"
  using assms
proof (induction xs arbitrary: seen i)
  case (Cons x xs)
  show ?case
  proof (cases "result_id x")
    case None
    then show ?thesis using Cons.IH[of seen "i + 1"] Cons.prems by (auto simp: less_Suc_eq)
  next
    case (Some k)
    have "p \<in> set (dup_positions ((k, i) # seen) (i + 1) xs) \<longleftrightarrow>
        (\<exists>k' \<in> answered_ids xs. map_of ((k, i) # seen) k' = Some p)"
      using Cons.prems by (intro Cons.IH) (auto simp: less_Suc_eq)
    moreover have "(\<exists>k' \<in> answered_ids xs. map_of ((k, i) # seen) k' = Some p) \<longleftrightarrow>
        (\<exists>k' \<in> answered_ids xs. k' \<noteq> k \<and> map_of seen k' = Some p)"
      using Cons.prems(2) by auto
    moreover have "p \<in> set (dup_positions seen i (x # xs)) \<longleftrightarrow>
        map_of seen k = Some p \<or> p \<in> set (dup_positions ((k, i) # seen) (i + 1) xs)"
      using Some by (cases "map_of seen k") auto
    moreover have "(\<exists>k' \<in> answered_ids (x # xs). map_of seen k' = Some p) \<longleftrightarrow>
        map_of seen k = Some p \<or> (\<exists>k' \<in> answered_ids xs. k' \<noteq> k \<and> map_of seen k' = Some p)"
    proof (cases "map_of seen k = Some p")
      case False
      then have "k' \<noteq> k" if "map_of seen k' = Some p" for k' using that by auto
      then show ?thesis using False Some by auto
    qed (simp add: Some)
    ultimately show ?thesis by simp
  qed
qed simp

lemma later_positions:
  assumes "\<forall>q \<in> snd ` set seen. q < i"
  shows "nths xs {j. i + j \<notin> set (dup_positions seen i xs)} = keep_last xs"
  using assms
proof (induction xs arbitrary: seen i)
  case (Cons x xs)
  have below: "map_of seen k = Some p \<Longrightarrow> p < i" for k p using Cons.prems map_of_SomeD by fastforce
  show ?case
  proof (cases "result_id x")
    case None
    have "i \<notin> set (dup_positions seen (i + 1) xs)"
      using early_positions[of seen "i + 1" i xs] Cons.prems below by (auto simp: less_Suc_eq)
    then show ?thesis using None Cons.IH[of seen "i + 1"] Cons.prems by (auto simp: nths_Cons less_Suc_eq)
  next
    case (Some k)
    let ?seen = "(k, i) # seen"
    have later: "\<forall>q \<in> snd ` set ?seen. q < i + 1" using Cons.prems by (auto simp: less_Suc_eq)
    have "i \<in> set (dup_positions ?seen (i + 1) xs) \<longleftrightarrow> k \<in> answered_ids xs"
      using early_positions[OF later, of i xs] below by (auto split: if_splits)
    moreover have "i + j \<notin> set (case map_of seen k of None \<Rightarrow> [] | Some p \<Rightarrow> [p])" for j
      using below[of k] by (cases "map_of seen k") fastforce+
    ultimately show ?thesis using Some Cons.IH[OF later] by (auto simp: nths_Cons)
  qed
qed simp

lemma nths_below: "(\<And>j. j < length xs \<Longrightarrow> j \<in> A \<longleftrightarrow> j \<in> B) \<Longrightarrow> nths xs A = nths xs B"
  unfolding nths_def by (intro arg_cong[where f = "map fst"] filter_cong) (auto simp: set_zip)

lemma fold_remove_at:
  "sorted_wrt (>) qs \<Longrightarrow> \<forall>q \<in> set qs. q < length xs \<Longrightarrow> fold remove_at qs xs = nths xs (- set qs)"
proof (induction qs arbitrary: xs)
  case Nil
  then show ?case by (simp add: nths_all)
next
  case (Cons q qs)
  have q: "q < length xs" and less: "\<forall>p \<in> set qs. p < q" using Cons.prems by auto
  have split: "xs = take q xs @ xs ! q # drop (Suc q) xs" using q by (simp add: id_take_nth_drop)
  have len: "length (take q xs) = q" using q by simp
  have tail: "nths ys {j. j + q \<notin> set qs} = ys" for ys :: "'a list" using less by (intro nths_all) fastforce
  have tail': "nths ys {j. Suc j + q \<notin> insert q (set qs)} = ys" for ys :: "'a list"
    using less by (intro nths_all) fastforce
  have head: "nths (take q xs) (- insert q (set qs)) = nths (take q xs) (- set qs)"
    by (rule nths_below) (use len in auto)
  have "fold remove_at qs (remove_at q xs) = nths (remove_at q xs) (- set qs)"
    using Cons q less by (intro Cons.IH) (auto simp: remove_at_def)
  also have "\<dots> = nths (take q xs) (- set qs) @ drop (Suc q) xs"
    unfolding remove_at_def nths_append len using tail by simp
  also have "\<dots> = nths (take q xs @ xs ! q # drop (Suc q) xs) (- insert q (set qs))"
    unfolding nths_append len nths_Cons using head tail' by simp
  finally show ?case using split by simp
qed

lemma length_keep_last: "length (keep_last xs) \<le> length xs"
  by (induction xs) auto

lemma keep_last_ConsD: "keep_last (x # xs) = x # xs \<Longrightarrow> set_option (result_id x) \<inter> answered_ids xs = {} \<and> keep_last xs = xs"
  using length_keep_last[of xs] by (auto split: if_splits)

lemma no_dups: "keep_last xs = xs \<Longrightarrow> \<forall>k \<in> answered_ids xs. map_of seen k = None \<Longrightarrow> dup_positions seen i xs = []"
proof (induction xs arbitrary: seen i)
  case (Cons x xs)
  note head = keep_last_ConsD[OF Cons.prems(1)]
  show ?case
  proof (cases "result_id x")
    case None
    then show ?thesis using Cons.IH[of seen "i + 1"] Cons.prems(2) head by simp
  next
    case (Some k)
    then have "\<forall>k' \<in> answered_ids xs. map_of ((k, i) # seen) k' = None" using Cons.prems(2) head by auto
    then show ?thesis using Some Cons.IH[of "(k, i) # seen" "i + 1"] Cons.prems(2) head by simp
  qed
qed simp

lemma distinct_dup_positions:
  assumes "\<forall>q \<in> snd ` set seen. q < i" "\<And>k k' p. map_of seen k = Some p \<Longrightarrow> map_of seen k' = Some p \<Longrightarrow> k = k'"
  shows "distinct (dup_positions seen i xs)"
  using assms
proof (induction xs arbitrary: seen i)
  case (Cons x xs)
  have below: "map_of seen k = Some p \<Longrightarrow> p < i" for k p using Cons.prems(1) map_of_SomeD by fastforce
  have later: "\<forall>q \<in> snd ` set ((k, i) # seen). q < i + 1" for k using Cons.prems(1) by (auto simp: less_Suc_eq)
  show ?case
  proof (cases "result_id x")
    case None
    have "\<forall>q \<in> snd ` set seen. q < i + 1" using Cons.prems(1) by (auto simp: less_Suc_eq)
    then show ?thesis using None Cons.IH[of seen "i + 1"] Cons.prems(2) by simp
  next
    case (Some k)
    have "a = b" if "map_of ((k, i) # seen) a = Some p" "map_of ((k, i) # seen) b = Some p" for a b p
      using that Cons.prems(2)[of a p b] below[of a p] below[of b p] by (auto split: if_splits)
    then have "distinct (dup_positions ((k, i) # seen) (i + 1) xs)" using later[of k] by (intro Cons.IH)
    moreover have "p \<notin> set (dup_positions ((k, i) # seen) (i + 1) xs)" if p: "map_of seen k = Some p" for p
    proof -
      have "map_of ((k, i) # seen) k' \<noteq> Some p" for k' using Cons.prems(2)[OF p, of k'] below[OF p] by auto
      then show ?thesis using early_positions[OF later, of p k xs] below[OF p] by simp
    qed
    ultimately show ?thesis using Some by (cases "map_of seen k") auto
  qed
qed simp

lemma remove_dups: "remove_all_at (dup_positions [] 0 xs) xs = keep_last xs"
proof -
  let ?ps = "dup_positions [] 0 xs"
  have "sorted_wrt (<) (sort ?ps)" using distinct_dup_positions[of "[]" 0 xs] by (simp add: strict_sorted_iff)
  then have "sorted_wrt (>) (rev (sort ?ps))" by (simp add: sorted_wrt_rev)
  moreover have "\<forall>q \<in> set (rev (sort ?ps)). q < length xs" using dup_positions_bound[of _ "[]" 0 xs] by auto
  ultimately have "remove_all_at ?ps xs = nths xs (- set ?ps)"
    unfolding remove_all_at_def by (simp add: fold_remove_at)
  also have "- set ?ps = {j. 0 + j \<notin> set ?ps}" by auto
  finally show ?thesis using later_positions[of "[]" 0 xs] by simp
qed

function deduped :: "conversation_item list \<Rightarrow> conversation_item list" where
  "deduped [] = []"
| "deduped (x # xs) =
     (if calls_of x = [] then x # deduped xs
      else x # keep_last (takeWhile is_result xs) @ deduped (dropWhile is_result xs))"
  by pat_completeness auto
termination
  by (relation "measure length") (auto simp: length_dropWhile_le le_imp_less_Suc)

text \<open>A block of results ends where something else starts.\<close>

definition block_end :: "conversation_item list \<Rightarrow> bool" where
  "block_end xs \<longleftrightarrow> xs = [] \<or> \<not> is_result (hd xs)"

lemma block_end_dropWhile [simp]: "block_end (dropWhile is_result xs)"
  by (induction xs) (auto simp: block_end_def)

lemma takeWhile_block:
  "list_all is_result res \<Longrightarrow> block_end rest \<Longrightarrow> takeWhile is_result (res @ rest) = res"
  by (induction res) (cases rest; auto simp: block_end_def)+

lemma dropWhile_block:
  "list_all is_result res \<Longrightarrow> block_end rest \<Longrightarrow> dropWhile is_result (res @ rest) = rest"
  by (induction res) (cases rest; auto simp: block_end_def)+

lemma results_takeWhile [simp]: "list_all is_result (takeWhile is_result xs)"
  by (induction xs) auto

lemma fst_apfst [simp]: "fst (apfst f p) = f (fst p)" by (cases p) simp
lemma snd_apfst [simp]: "snd (apfst f p) = snd p" by (cases p) simp
lemma fst_apsnd [simp]: "fst (apsnd f p) = fst p" by (cases p) simp
lemma snd_apsnd [simp]: "snd (apsnd f p) = f (snd p)" by (cases p) simp

lemma block_end_deduped: "block_end xs \<Longrightarrow> block_end (deduped xs)"
  by (cases xs) (auto simp: block_end_def)

lemma dedup_is_deduped: "fst (dedup_duplicate_tool_results xs) = deduped xs"
proof (induction xs rule: dedup_duplicate_tool_results.induct)
  case (2 x xs)
  let ?res = "takeWhile is_result xs" and ?rest = "dropWhile is_result xs"
  let ?ps = "dup_positions [] 0 ?res"
  show ?case
  proof (cases "calls_of x = []")
    case True
    then show ?thesis using 2(1) by simp
  next
    case calls: False
    show ?thesis
    proof (cases "?ps = []")
      case True
      then have "keep_last ?res = ?res" using later_positions[of "[]" 0 ?res] by (simp add: nths_all)
      then show ?thesis using 2(2) calls True by (simp add: Let_def)
    next
      case False
      have "deduped (x # keep_last ?res @ ?rest) = x # keep_last ?res @ deduped ?rest"
        using calls by (simp add: takeWhile_block dropWhile_block results_keep_last keep_last_twice)
      then show ?thesis using 2(3)[OF calls refl refl refl False] calls False by (simp add: Let_def remove_dups)
    qed
  qed
qed simp

lemma no_dedup: "deduped xs = xs \<Longrightarrow> dedup_duplicate_tool_results xs = (xs, 0)"
proof (induction xs rule: deduped.induct)
  case (2 x xs)
  let ?res = "takeWhile is_result xs" and ?rest = "dropWhile is_result xs"
  show ?case
  proof (cases "calls_of x = []")
    case True
    then show ?thesis using 2 by simp
  next
    case False
    have eq: "keep_last ?res @ deduped ?rest = ?res @ ?rest" using 2(3) False by simp
    have "block_end (deduped ?rest)" by (rule block_end_deduped) simp
    then have "keep_last ?res = ?res" "deduped ?rest = ?rest"
      using arg_cong[OF eq, of "takeWhile is_result"] arg_cong[OF eq, of "dropWhile is_result"]
      by (simp_all add: takeWhile_block dropWhile_block results_keep_last)
    then show ?thesis using 2(2)[OF False] False no_dups[of ?res "[]" 0] by (simp add: Let_def)
  qed
qed simp

end
