(* ===== verification/Chat_Request.thy ===== *)
theory Chat_Request
  imports Chat_Items
begin

text \<open>
  The passes over the copy of a conversation that a request is made of
  (\<open>xai-chat-state/src/actor/request_builder.rs\<close>): clearing and trimming old tool results, evicting images,
  and the memory reminder in the system message. How long the JSON of items is, is up to the serialiser.
\<close>

section \<open>Pruning\<close>

record pruning_config =
  pc_enabled :: bool
  pc_keep_last_n_turns :: nat
  pc_soft_trim_threshold :: nat
  pc_soft_trim_head :: nat
  pc_soft_trim_tail :: nat
  pc_hard_clear_age_turns :: nat

definition default_pruning :: pruning_config where
  "default_pruning = \<lparr>pc_enabled = True, pc_keep_last_n_turns = 3, pc_soft_trim_threshold = 4000,
     pc_soft_trim_head = 1500, pc_soft_trim_tail = 1500, pc_hard_clear_age_turns = 10\<rparr>"

definition hard_clear_placeholder :: ustr where
  "hard_clear_placeholder = u ''[Tool result omitted '' @ [8212] @ u '' too old]''"

definition soft_trim_separator :: ustr where
  "soft_trim_separator = [LF, LF] @ u ''['' @ [8230] @ u ''trimmed'' @ [8230] @ u '']'' @ [LF, LF]"

definition should_prune :: "nat \<Rightarrow> nat \<Rightarrow> bool" where
  "should_prune used context \<longleftrightarrow> context div 2 < used"

definition safe_char_slice :: "ustr \<Rightarrow> nat \<Rightarrow> nat \<Rightarrow> ustr" where
  "safe_char_slice s start count = take count (drop start s)"

definition safe_char_slice_tail :: "ustr \<Rightarrow> nat \<Rightarrow> ustr" where
  "safe_char_slice_tail s count = (if length s \<le> count then s else drop (length s - count) s)"

definition set_content :: "ustr \<Rightarrow> result_item \<Rightarrow> conversation_item" where
  "set_content s r = Result_Item (r\<lparr>tr_content := s\<rparr>)"

definition prune_result :: "pruning_config \<Rightarrow> nat \<Rightarrow> result_item \<Rightarrow> conversation_item" where
  "prune_result C age r =
     (if age < pc_keep_last_n_turns C then Result_Item r
      else if pc_hard_clear_age_turns C \<le> age then
        (if tr_content r \<noteq> hard_clear_placeholder then set_content hard_clear_placeholder r else Result_Item r)
      else if pc_soft_trim_threshold C < length (tr_content r) then
        set_content (safe_char_slice (tr_content r) 0 (pc_soft_trim_head C) @ soft_trim_separator @
          safe_char_slice_tail (tr_content r) (pc_soft_trim_tail C)) r
      else Result_Item r)"

text \<open>The walk is from the back: the list here is reversed. The age of a result is the number of user
  items behind it, not counting the last of them.\<close>

fun walk_back :: "(nat \<Rightarrow> result_item \<Rightarrow> conversation_item) \<Rightarrow> nat \<Rightarrow> bool \<Rightarrow> conversation_item list \<Rightarrow> conversation_item list" where
  "walk_back f age seen [] = []"
| "walk_back f age seen (User_Item m # xs) = User_Item m # walk_back f (if seen then age + 1 else age) True xs"
| "walk_back f age seen (Result_Item r # xs) = f age r # walk_back f age seen xs"
| "walk_back f age seen (x # xs) = x # walk_back f age seen xs"

definition prune_conversation :: "pruning_config \<Rightarrow> conversation_item list \<Rightarrow> conversation_item list" where
  "prune_conversation C xs =
     (if \<not> pc_enabled C then xs else rev (walk_back (prune_result C) 0 False (rev xs)))"

section \<open>Images\<close>

definition max_request_bytes :: nat where "max_request_bytes = 50 * 1024 * 1024"
definition image_compact_trigger_bytes :: nat where "image_compact_trigger_bytes = max_request_bytes - 3 * 1024 * 1024"
definition image_compact_reclaim_target_bytes :: nat where "image_compact_reclaim_target_bytes = max_request_bytes div 2"

definition image_compact_placeholder :: ustr where
  "image_compact_placeholder = u ''[An earlier image was removed to keep the request within its size limit and is no longer visible. Do not describe or reason about its contents from memory; ask the user to re-share it if you need to see it again.]''"

definition image_part_frame_bytes :: nat where
  "image_part_frame_bytes = length (u ''{\"type\":\"image\",\"url\":\"\"}'')"

definition image_part_bytes :: "ustr \<Rightarrow> nat" where
  "image_part_bytes url = image_part_frame_bytes + byte_len url"

fun parts_of :: "conversation_item \<Rightarrow> content_part list" where
  "parts_of (User_Item m) = ui_content m"
| "parts_of _ = []"

definition inline_image_count :: "conversation_item list \<Rightarrow> nat" where
  "inline_image_count xs = length (filter is_image (concat (map parts_of xs)))"

record json_size =
  js_items :: "conversation_item list \<Rightarrow> nat"
  js_part :: "content_part \<Rightarrow> nat"

fun blank_part :: "content_part \<Rightarrow> content_part" where
  "blank_part (Text_Part s) = Text_Part s"
| "blank_part (Image_Part url) = Image_Part []"

fun blank_item :: "conversation_item \<Rightarrow> conversation_item" where
  "blank_item (User_Item m) = User_Item (m\<lparr>ui_content := map blank_part (ui_content m)\<rparr>)"
| "blank_item x = x"

fun url_bytes :: "content_part \<Rightarrow> nat" where
  "url_bytes (Text_Part s) = 0"
| "url_bytes (Image_Part url) = byte_len url"

definition conversation_body_bytes :: "json_size \<Rightarrow> conversation_item list \<Rightarrow> nat" where
  "conversation_body_bytes J xs =
     js_items J (map blank_item xs) + sum_list (map url_bytes (concat (map parts_of xs)))"

text \<open>Eviction goes over the parts from the oldest, with the running size and the count of the evicted.\<close>

fun evict_parts :: "nat \<Rightarrow> nat \<Rightarrow> nat \<Rightarrow> nat \<Rightarrow> content_part list \<Rightarrow> content_part list \<times> nat \<times> nat" where
  "evict_parts target placeholder_bytes running evicted [] = ([], running, evicted)"
| "evict_parts target placeholder_bytes running evicted (Text_Part s # ps) =
     apfst ((#) (Text_Part s)) (evict_parts target placeholder_bytes running evicted ps)"
| "evict_parts target placeholder_bytes running evicted (Image_Part url # ps) =
     (if running \<le> target then (Image_Part url # ps, running, evicted)
      else apfst ((#) (Text_Part image_compact_placeholder))
        (evict_parts target placeholder_bytes (running - (image_part_bytes url - placeholder_bytes)) (evicted + 1) ps))"

fun evict_items :: "nat \<Rightarrow> nat \<Rightarrow> nat \<Rightarrow> nat \<Rightarrow> conversation_item list \<Rightarrow> conversation_item list \<times> nat \<times> nat" where
  "evict_items target placeholder_bytes running evicted [] = ([], running, evicted)"
| "evict_items target placeholder_bytes running evicted (User_Item m # xs) =
     (case evict_parts target placeholder_bytes running evicted (ui_content m) of (ps, running', evicted') \<Rightarrow>
        apfst ((#) (User_Item (m\<lparr>ui_content := ps\<rparr>))) (evict_items target placeholder_bytes running' evicted' xs))"
| "evict_items target placeholder_bytes running evicted (x # xs) =
     apfst ((#) x) (evict_items target placeholder_bytes running evicted xs)"

record image_eviction =
  ie_evicted :: nat
  ie_body_bytes_after :: nat

definition compact_images_to_byte_budget ::
  "json_size \<Rightarrow> nat \<Rightarrow> nat \<Rightarrow> conversation_item list \<Rightarrow> conversation_item list \<times> image_eviction" where
  "compact_images_to_byte_budget J current target xs =
     (if current \<le> target then (xs, \<lparr>ie_evicted = 0, ie_body_bytes_after = current\<rparr>)
      else (case evict_items target (js_part J (Text_Part image_compact_placeholder)) current 0 xs of
          (ys, running, evicted) \<Rightarrow> (ys, \<lparr>ie_evicted = evicted, ie_body_bytes_after = running\<rparr>)))"

section \<open>The memory reminder\<close>

definition memory_context_open_tag :: ustr where
  "memory_context_open_tag = u ''<memory-context>''"

text \<open>\<open>str::find\<close>: what precedes the first occurrence.\<close>

fun before_pattern :: "ustr \<Rightarrow> ustr \<Rightarrow> ustr option" where
  "before_pattern p s =
     (if take (length p) s = p then Some []
      else case s of [] \<Rightarrow> None | c # s' \<Rightarrow> map_option ((#) c) (before_pattern p s'))"

definition trim_newlines :: "ustr \<Rightarrow> ustr" where
  "trim_newlines s = rev (dropWhile (\<lambda>c. c = LF) (rev s))"

definition upsert_memory_reminder_text :: "ustr \<Rightarrow> ustr \<Rightarrow> ustr" where
  "upsert_memory_reminder_text reminder prompt =
     (case before_pattern memory_context_open_tag prompt of
        Some s \<Rightarrow> let prefix = trim_newlines (trim_newlines s)
                  in if prefix = [] then reminder else prefix @ [LF, LF] @ reminder
      | None \<Rightarrow>
          if trim_end prompt = reminder then prompt
          else if prompt = [] then reminder
          else trim_newlines prompt @ [LF, LF] @ reminder)"

definition inject_memory_reminder :: "ustr \<Rightarrow> conversation_item list \<Rightarrow> conversation_item list \<times> bool" where
  "inject_memory_reminder raw xs =
     (let reminder = trim raw in
      if reminder = [] then (xs, False)
      else (case xs of
          System_Item s # ys \<Rightarrow>
            let s' = upsert_memory_reminder_text reminder s in (System_Item s' # ys, s' \<noteq> s)
        | _ \<Rightarrow> (System_Item reminder # xs, True)))"

end
