(* ===== verification/Chat_Usage.thy ===== *)
theory Chat_Usage
  imports Prelude Unicode_Text
begin

text \<open>
  The billing ledgers of a prompt and of a session, \<open>xai-chat-state/src/usage.rs\<close>. Counters are unsigned
  64-bit numbers that stay at their largest value, costs are signed ones that stay at their bounds.
\<close>

section \<open>Totals\<close>

definition u64_max :: nat where "u64_max = 2 ^ 64 - 1"
definition i64_max :: int where "i64_max = 2 ^ 63 - 1"
definition i64_min :: int where "i64_min = - (2 ^ 63)"

definition sat_add :: "nat \<Rightarrow> nat \<Rightarrow> nat" where
  "sat_add a b = min (a + b) u64_max"

definition sat_add_int :: "int \<Rightarrow> int \<Rightarrow> int" where
  "sat_add_int a b = max i64_min (min (a + b) i64_max)"

record token_usage =
  tu_prompt :: nat
  tu_completion :: nat
  tu_total :: nat
  tu_reasoning :: nat
  tu_cached :: nat
  tu_cache_creation :: nat

record usage_totals =
  ut_input :: nat
  ut_output :: nat
  ut_cached_read :: nat
  ut_cache_creation :: nat
  ut_reasoning :: nat
  ut_model_calls :: nat
  ut_duration_ms :: nat
  ut_cost :: "int option"
  ut_cost_missing :: nat

definition default_totals :: usage_totals where
  "default_totals = \<lparr>ut_input = 0, ut_output = 0, ut_cached_read = 0, ut_cache_creation = 0, ut_reasoning = 0,
     ut_model_calls = 0, ut_duration_ms = 0, ut_cost = None, ut_cost_missing = 0\<rparr>"

definition reported_cost_ticks :: "int option \<Rightarrow> int option" where
  "reported_cost_ticks raw = (case raw of None \<Rightarrow> None | Some t \<Rightarrow> if 0 < t then Some t else None)"

definition totals_of_call :: "token_usage \<Rightarrow> nat option \<Rightarrow> int option \<Rightarrow> usage_totals" where
  "totals_of_call t duration raw_cost =
     (let cost = reported_cost_ticks raw_cost in
      \<lparr>ut_input = tu_prompt t, ut_output = tu_completion t, ut_cached_read = tu_cached t,
       ut_cache_creation = tu_cache_creation t, ut_reasoning = tu_reasoning t, ut_model_calls = 1,
       ut_duration_ms = (case duration of None \<Rightarrow> 0 | Some d \<Rightarrow> d), ut_cost = cost,
       ut_cost_missing = (if cost = None then 1 else 0)\<rparr>)"

definition total_tokens_of :: "usage_totals \<Rightarrow> nat" where
  "total_tokens_of t = sat_add (ut_input t) (ut_output t)"

definition cost_is_partial :: "usage_totals \<Rightarrow> bool" where
  "cost_is_partial t \<longleftrightarrow> ut_cost t \<noteq> None \<and> 0 < ut_cost_missing t"

definition merge_cost_ticks :: "int option \<Rightarrow> int option \<Rightarrow> int option" where
  "merge_cost_ticks a b =
     (if a = None \<and> b = None then None
      else Some (sat_add_int (case a of None \<Rightarrow> 0 | Some x \<Rightarrow> x) (case b of None \<Rightarrow> 0 | Some x \<Rightarrow> x)))"

definition fold_totals :: "usage_totals \<Rightarrow> usage_totals \<Rightarrow> usage_totals" where
  "fold_totals s t = \<lparr>ut_input = sat_add (ut_input s) (ut_input t), ut_output = sat_add (ut_output s) (ut_output t),
     ut_cached_read = sat_add (ut_cached_read s) (ut_cached_read t),
     ut_cache_creation = sat_add (ut_cache_creation s) (ut_cache_creation t),
     ut_reasoning = sat_add (ut_reasoning s) (ut_reasoning t),
     ut_model_calls = sat_add (ut_model_calls s) (ut_model_calls t),
     ut_duration_ms = sat_add (ut_duration_ms s) (ut_duration_ms t),
     ut_cost = merge_cost_ticks (ut_cost s) (ut_cost t),
     ut_cost_missing = sat_add (ut_cost_missing s) (ut_cost_missing t)\<rparr>"

section \<open>The ledger\<close>

record usage_ledger =
  ul_totals :: usage_totals
  ul_by_model :: "(ustr \<times> usage_totals) list"
  ul_main_loop_calls :: nat
  ul_incomplete :: bool

definition default_ledger :: usage_ledger where
  "default_ledger = \<lparr>ul_totals = default_totals, ul_by_model = [], ul_main_loop_calls = 0, ul_incomplete = False\<rparr>"

text \<open>\<open>entry(..).or_default().fold_totals(..)\<close>: a new model goes to the end.\<close>

definition fold_entry :: "ustr \<Rightarrow> usage_totals \<Rightarrow> usage_ledger \<Rightarrow> usage_ledger" where
  "fold_entry model t L =
     L\<lparr>ul_totals := fold_totals (ul_totals L) t,
       ul_by_model := AList.update model
         (fold_totals (case map_of (ul_by_model L) model of None \<Rightarrow> default_totals | Some s \<Rightarrow> s) t) (ul_by_model L)\<rparr>"

definition record_main_loop_call ::
  "ustr \<Rightarrow> token_usage \<Rightarrow> nat option \<Rightarrow> int option \<Rightarrow> usage_ledger \<Rightarrow> usage_ledger" where
  "record_main_loop_call model t duration cost L =
     fold_entry model (totals_of_call t duration cost)
       (L\<lparr>ul_main_loop_calls := sat_add (ul_main_loop_calls L) 1\<rparr>)"

definition record_subagent :: "(ustr \<times> usage_totals) list \<Rightarrow> bool \<Rightarrow> usage_ledger \<Rightarrow> usage_ledger" where
  "record_subagent by_model incomplete L =
     (let L' = fold (\<lambda>(model, t). fold_entry model t) by_model L
      in if incomplete then L'\<lparr>ul_incomplete := True\<rparr> else L')"

definition mark_incomplete :: "usage_ledger \<Rightarrow> usage_ledger" where
  "mark_incomplete L = L\<lparr>ul_incomplete := True\<rparr>"

section \<open>Sums\<close>

text \<open>The contract of one counter of the totals; the ledger keeps it equal to the sum over the models.\<close>

locale ledger_field =
  fixes f :: "usage_totals \<Rightarrow> nat"
  assumes f_fold: "f (fold_totals s t) = sat_add (f s) (f t)"
    and f_default: "f default_totals = 0"
begin

definition summed :: "usage_ledger \<Rightarrow> bool" where
  "summed L \<longleftrightarrow> f (ul_totals L) = min (sum_list (map (f \<circ> snd) (ul_by_model L))) u64_max"

lemma sum_update:
  "distinct_keys kvs \<Longrightarrow> sum_list (map (f \<circ> snd) (AList.update k v kvs)) + (case map_of kvs k of None \<Rightarrow> 0 | Some w \<Rightarrow> f w) =
     sum_list (map (f \<circ> snd) kvs) + f v"
proof (induction kvs)
  case (Cons x kvs)
  then show ?case by (cases x) (auto split: option.splits simp: map_of_eq_None_iff)
qed simp

lemma summed_fold_entry:
  assumes "distinct_keys (ul_by_model L)" "summed L"
  shows "summed (fold_entry model t L)"
proof -
  let ?s = "case map_of (ul_by_model L) model of None \<Rightarrow> default_totals | Some s \<Rightarrow> s"
  let ?S = "sum_list (map (f \<circ> snd) (ul_by_model L))"
  have old: "(case map_of (ul_by_model L) model of None \<Rightarrow> 0 | Some w \<Rightarrow> f w) = f ?s"
    by (simp add: f_default split: option.split)
  have "sum_list (map (f \<circ> snd) (AList.update model (fold_totals ?s t) (ul_by_model L))) + f ?s = ?S + f (fold_totals ?s t)"
    using sum_update[OF assms(1), of model "fold_totals ?s t"] unfolding old .
  then have "sum_list (map (f \<circ> snd) (AList.update model (fold_totals ?s t) (ul_by_model L))) + f ?s =
      ?S + min (f ?s + f t) u64_max" by (simp add: f_fold sat_add_def)
  moreover have "f (ul_totals L) = min ?S u64_max" using assms(2) by (simp add: summed_def)
  moreover have "f ?s \<le> ?S"
    using sum_update[OF assms(1), of model default_totals] unfolding old by (simp add: f_default)
  ultimately show ?thesis by (simp add: summed_def fold_entry_def f_fold sat_add_def)
qed

lemma summed_default: "summed default_ledger"
  by (simp add: summed_def default_ledger_def f_default u64_max_def)

lemma summed_cong: "ul_totals L = ul_totals L' \<Longrightarrow> ul_by_model L = ul_by_model L' \<Longrightarrow> summed L \<longleftrightarrow> summed L'"
  by (simp add: summed_def)

end

interpretation input_sum: ledger_field ut_input
  by unfold_locales (simp_all add: fold_totals_def default_totals_def)

interpretation output_sum: ledger_field ut_output
  by unfold_locales (simp_all add: fold_totals_def default_totals_def)

interpretation cached_sum: ledger_field ut_cached_read
  by unfold_locales (simp_all add: fold_totals_def default_totals_def)

interpretation creation_sum: ledger_field ut_cache_creation
  by unfold_locales (simp_all add: fold_totals_def default_totals_def)

interpretation reasoning_sum: ledger_field ut_reasoning
  by unfold_locales (simp_all add: fold_totals_def default_totals_def)

interpretation calls_sum: ledger_field ut_model_calls
  by unfold_locales (simp_all add: fold_totals_def default_totals_def)

interpretation duration_sum: ledger_field ut_duration_ms
  by unfold_locales (simp_all add: fold_totals_def default_totals_def)

interpretation missing_sum: ledger_field ut_cost_missing
  by unfold_locales (simp_all add: fold_totals_def default_totals_def)

definition field_summed :: "(usage_totals \<Rightarrow> nat) \<Rightarrow> usage_ledger \<Rightarrow> bool" where
  "field_summed f L \<longleftrightarrow> f (ul_totals L) = min (sum_list (map (f \<circ> snd) (ul_by_model L))) u64_max"

definition counters :: "(usage_totals \<Rightarrow> nat) list" where
  "counters = [ut_input, ut_output, ut_cached_read, ut_cache_creation, ut_reasoning, ut_model_calls,
     ut_duration_ms, ut_cost_missing]"

text \<open>What the ledger keeps: one entry per model, every counter the sum over the models, and a cost
  exactly when some model has one.\<close>

definition ledger_ok :: "usage_ledger \<Rightarrow> bool" where
  "ledger_ok L \<longleftrightarrow> distinct_keys (ul_by_model L) \<and> (\<forall>f \<in> set counters. field_summed f L) \<and>
     (ut_cost (ul_totals L) = None \<longleftrightarrow> list_all (\<lambda>(_, t). ut_cost t = None) (ul_by_model L))"

lemma counter_field: "f \<in> set counters \<Longrightarrow> ledger_field f"
  by (auto simp: counters_def intro: input_sum.ledger_field_axioms output_sum.ledger_field_axioms
      cached_sum.ledger_field_axioms creation_sum.ledger_field_axioms reasoning_sum.ledger_field_axioms
      calls_sum.ledger_field_axioms duration_sum.ledger_field_axioms missing_sum.ledger_field_axioms)

lemma merge_cost_None: "merge_cost_ticks a b = None \<longleftrightarrow> a = None \<and> b = None"
  by (simp add: merge_cost_ticks_def)

lemma list_all_values:
  "distinct_keys kvs \<Longrightarrow> list_all (\<lambda>(_, v). P v) kvs \<longleftrightarrow> (\<forall>k v. map_of kvs k = Some v \<longrightarrow> P v)"
  by (fastforce simp: list_all_iff dest: map_of_SomeD)

lemma ledger_ok_fold_entry [keeps]: "ledger_ok L \<Longrightarrow> ledger_ok (fold_entry model t L)"
proof -
  assume ok: "ledger_ok L"
  then have keys: "distinct_keys (ul_by_model L)" by (simp add: ledger_ok_def)
  have "field_summed f (fold_entry model t L)" if "f \<in> set counters" for f
    using ledger_field.summed_fold_entry[OF counter_field[OF that] keys] ok that
    by (simp add: ledger_ok_def field_summed_def ledger_field.summed_def[OF counter_field[OF that]])
  moreover have "ut_cost (ul_totals (fold_entry model t L)) = None \<longleftrightarrow>
      list_all (\<lambda>(_, t). ut_cost t = None) (ul_by_model (fold_entry model t L))"
  proof -
    let ?s = "case map_of (ul_by_model L) model of None \<Rightarrow> default_totals | Some s \<Rightarrow> s"
    have "ut_cost (fold_totals ?s t) = None \<longleftrightarrow> ut_cost ?s = None \<and> ut_cost t = None"
      by (simp add: fold_totals_def merge_cost_None)
    moreover have "ut_cost (ul_totals L) = None \<longleftrightarrow> (\<forall>k v. map_of (ul_by_model L) k = Some v \<longrightarrow> ut_cost v = None)"
      using ok keys by (simp add: ledger_ok_def list_all_values)
    moreover have "distinct_keys (AList.update model (fold_totals ?s t) (ul_by_model L))"
      using keys by (rule distinct_update)
    moreover have "ut_cost default_totals = None" by (simp add: default_totals_def)
    moreover have "ut_cost (fold_totals (ul_totals L) t) = None \<longleftrightarrow> ut_cost (ul_totals L) = None \<and> ut_cost t = None"
      by (simp add: fold_totals_def merge_cost_None)
    ultimately show ?thesis by (cases "map_of (ul_by_model L) model") (auto simp: fold_entry_def list_all_values)
  qed
  ultimately show ?thesis using keys by (simp add: ledger_ok_def fold_entry_def distinct_update)
qed

lemma ledger_ok_default [keeps]: "ledger_ok default_ledger"
  by (simp add: ledger_ok_def default_ledger_def counters_def field_summed_def default_totals_def)

lemma ledger_ok_other [simp]:
  "ledger_ok (L\<lparr>ul_main_loop_calls := n\<rparr>) \<longleftrightarrow> ledger_ok L"
  "ledger_ok (L\<lparr>ul_incomplete := b\<rparr>) \<longleftrightarrow> ledger_ok L"
  by (simp_all add: ledger_ok_def field_summed_def)

lemma ledger_ok_main_loop [keeps]: "ledger_ok L \<Longrightarrow> ledger_ok (record_main_loop_call model t d c L)"
  by (simp add: record_main_loop_call_def ledger_ok_fold_entry)

lemma ledger_ok_folds: "ledger_ok L \<Longrightarrow> ledger_ok (fold (\<lambda>(model, t). fold_entry model t) xs L)"
  by (induction xs arbitrary: L) (auto intro: ledger_ok_fold_entry)

lemma ledger_ok_subagent [keeps]: "ledger_ok L \<Longrightarrow> ledger_ok (record_subagent xs b L)"
  by (simp add: record_subagent_def Let_def ledger_ok_folds)

lemma ledger_ok_mark [keeps]: "ledger_ok L \<Longrightarrow> ledger_ok (mark_incomplete L)"
  by (simp add: mark_incomplete_def)

end
