(* ===== verification/Chat_State.thy ===== *)
theory Chat_State
  imports Chat_Repair Chat_Request Chat_Usage Breaker_Window "HOL-Library.Log_Nat"
begin

text \<open>
  The state of the chat actor and its operations, \<open>xai-chat-state/src/actor/state.rs\<close>,
  \<open>actor/mutations.rs\<close> and \<open>actor/queries.rs\<close>. The history file is the list of items that the persistence
  calls have left on disk when every write succeeds. \<open>None\<close> is a panic, which only a token estimate
  can raise. Token counts are not bounded.
\<close>

section \<open>State\<close>

record sampling_config =
  sc_model :: ustr
  sc_max_completion :: "nat option"
  sc_temperature :: "nat option"
  sc_top_p :: "nat option"
  sc_context_window :: nat
  sc_effort :: "reasoning_effort option"

datatype auth_type = Session_Token | Api_Key

record credentials =
  cr_api_key :: "ustr option"
  cr_auth_type :: auth_type
  cr_alpha_test_key :: "ustr option"
  cr_client_version :: "ustr option"

definition default_credentials :: credentials where
  "default_credentials = \<lparr>cr_api_key = None, cr_auth_type = Session_Token, cr_alpha_test_key = None,
     cr_client_version = None\<rparr>"

record turn_capture_state =
  tc_start :: nat
  tc_saved :: "conversation_item list"
  tc_compacted :: bool

record chat_state =
  cs_conversation :: "conversation_item list"
  cs_config :: sampling_config
  cs_prompt_index :: nat
  cs_prompt_texts :: "ustr list"
  cs_total_tokens :: nat
  cs_stream_start :: "int option"
  cs_turn_start :: "int option"
  cs_edited_paths :: "ustr set"
  cs_last_compaction :: "nat option"
  cs_credentials :: credentials
  cs_since_model :: nat
  cs_at_last_response :: nat
  cs_last_turn_usage :: "token_usage option"
  cs_prompt_usage :: "usage_ledger option"
  cs_session_usage :: usage_ledger
  cs_capture :: "turn_capture_state option"
  cs_trace_buffer :: "conversation_item list"
  cs_trace_turns :: "conversation_item list list"

record chat_snapshot =
  sn_conversation :: "conversation_item list"
  sn_config :: sampling_config
  sn_prompt_index :: nat
  sn_total_tokens :: nat
  sn_at_last_response :: nat
  sn_edited_paths :: "ustr set"
  sn_prompt_texts :: "ustr list"
  sn_stream_start :: "int option"
  sn_turn_start :: "int option"
  sn_last_compaction :: "nat option"
  sn_credentials :: credentials

datatype chat_event =
  Prompt_Index_Changed nat
| Tokens_Updated nat
| Conversation_Reset nat
| Image_Budget nat nat nat nat bool nat nat

record chat_actor =
  ca_state :: chat_state
  ca_pruning :: pruning_config
  ca_history :: "conversation_item list"
  ca_events :: "chat_event list"

text \<open>A history that is loaded is put in order first.\<close>

definition new_chat_state :: "conversation_item list \<Rightarrow> sampling_config \<Rightarrow> chat_state option" where
  "new_chat_state items config =
     (let xs = fst (repair_dangling_tool_calls User_Cancelled (fst (dedup_duplicate_tool_results items)))
      in map_option (\<lambda>tokens. \<lparr>cs_conversation = xs, cs_config = config, cs_prompt_index = 0, cs_prompt_texts = [],
           cs_total_tokens = tokens, cs_stream_start = None, cs_turn_start = None, cs_edited_paths = {},
           cs_last_compaction = None, cs_credentials = default_credentials, cs_since_model = 0,
           cs_at_last_response = tokens, cs_last_turn_usage = None, cs_prompt_usage = None,
           cs_session_usage = default_ledger, cs_capture = None, cs_trace_buffer = [], cs_trace_turns = []\<rparr>)
         (estimate_conversation_tokens xs))"

definition new_chat_actor :: "conversation_item list \<Rightarrow> sampling_config \<Rightarrow> pruning_config \<Rightarrow> chat_actor option" where
  "new_chat_actor items config pruning =
     map_option (\<lambda>s. \<lparr>ca_state = s, ca_pruning = pruning, ca_history = items, ca_events = []\<rparr>)
       (new_chat_state items config)"

definition upd :: "(chat_state \<Rightarrow> chat_state) \<Rightarrow> chat_actor \<Rightarrow> chat_actor" where
  "upd f a = a\<lparr>ca_state := f (ca_state a)\<rparr>"

definition emit_chat :: "chat_event \<Rightarrow> chat_actor \<Rightarrow> chat_actor" where
  "emit_chat e a = a\<lparr>ca_events := ca_events a @ [e]\<rparr>"

definition conversation :: "chat_actor \<Rightarrow> conversation_item list" where
  "conversation a = cs_conversation (ca_state a)"

definition set_conversation :: "conversation_item list \<Rightarrow> chat_actor \<Rightarrow> chat_actor" where
  "set_conversation xs a = upd (\<lambda>s. s\<lparr>cs_conversation := xs\<rparr>) a"

text \<open>The persistence calls.\<close>

definition persist_message :: "conversation_item \<Rightarrow> chat_actor \<Rightarrow> chat_actor" where
  "persist_message x a = a\<lparr>ca_history := ca_history a @ [x]\<rparr>"

definition replace_history :: "conversation_item list \<Rightarrow> chat_actor \<Rightarrow> chat_actor" where
  "replace_history xs a = a\<lparr>ca_history := xs\<rparr>"

section \<open>Turn capture\<close>

definition turn_tail :: "conversation_item list \<Rightarrow> nat \<Rightarrow> conversation_item list" where
  "turn_tail xs offset = (if offset \<le> length xs then drop offset xs else [])"

definition snapshot_turn_slice :: "chat_actor \<Rightarrow> chat_actor" where
  "snapshot_turn_slice a =
     (case cs_capture (ca_state a) of
        None \<Rightarrow> a
      | Some cap \<Rightarrow> upd (\<lambda>s. s\<lparr>cs_capture :=
          Some (cap\<lparr>tc_saved := tc_saved cap @ turn_tail (cs_conversation s) (tc_start cap)\<rparr>)\<rparr>) a)"

definition rebase_turn_capture_offset :: "chat_actor \<Rightarrow> chat_actor" where
  "rebase_turn_capture_offset a =
     (case cs_capture (ca_state a) of
        None \<Rightarrow> a
      | Some cap \<Rightarrow> upd (\<lambda>s. s\<lparr>cs_capture := Some (cap\<lparr>tc_start := length (cs_conversation s)\<rparr>)\<rparr>) a)"

definition seal_harness_trace_turn :: "chat_state \<Rightarrow> chat_state" where
  "seal_harness_trace_turn s =
     (if cs_trace_buffer s = [] then s
      else s\<lparr>cs_trace_buffer := [], cs_trace_turns := cs_trace_turns s @ [cs_trace_buffer s]\<rparr>)"

section \<open>Replacing the conversation\<close>

text \<open>Doubles as fractions: the nearest number with 53 significant bits, ties to even.\<close>

definition nearest_double :: "nat \<times> nat \<Rightarrow> nat \<times> nat" where
  "nearest_double q =
     (case q of (a, b) \<Rightarrow>
      if a = 0 then (0, 1)
      else (let scale = (\<lambda>s. (a * 2 ^ nat s, b * 2 ^ nat (- s)));
                s0 = 53 + int (floorlog 2 b) - int (floorlog 2 a);
                s = (case scale s0 of (n, d) \<Rightarrow> if 2 ^ 53 * d \<le> n then s0 - 1 else s0)
            in case scale s of (n, d) \<Rightarrow> (round_half_even n d * 2 ^ nat (- s), 2 ^ nat s)))"

definition double_div :: "nat \<times> nat \<Rightarrow> nat \<times> nat \<Rightarrow> nat \<times> nat" where
  "double_div x y = nearest_double (fst x * snd y, snd x * fst y)"

definition double_mul :: "nat \<times> nat \<Rightarrow> nat \<times> nat \<Rightarrow> nat \<times> nat" where
  "double_mul x y = nearest_double (fst x * fst y, snd x * snd y)"

text \<open>\<open>(base as f64 * (total as f64 / estimate as f64)).round() as u64\<close>\<close>

definition scaled_estimate :: "nat \<Rightarrow> nat \<Rightarrow> nat \<Rightarrow> nat" where
  "scaled_estimate base total_now estimate =
     (let r = double_mul (nearest_double (base, 1)) (double_div (nearest_double (total_now, 1)) (nearest_double (estimate, 1)))
      in min ((2 * fst r + snd r) div (2 * snd r)) u64_max)"

definition mark_compacted :: "chat_actor \<Rightarrow> chat_actor" where
  "mark_compacted a = upd (\<lambda>s. s\<lparr>cs_capture := map_option (\<lambda>c. c\<lparr>tc_compacted := True\<rparr>) (cs_capture s)\<rparr>) a"

definition reseed :: "bool \<Rightarrow> nat \<Rightarrow> nat \<Rightarrow> nat \<Rightarrow> nat" where
  "reseed is_compaction pre estimate base =
     (let n = (if is_compaction \<and> 0 < pre \<and> 0 < estimate then scaled_estimate base pre estimate else base)
      in if is_compaction \<and> 0 < pre then min n pre else n)"

definition replace_conversation :: "conversation_item list \<Rightarrow> bool \<Rightarrow> chat_actor \<Rightarrow> chat_actor option" where
  "replace_conversation items is_compaction a =
     (let a1 = snapshot_turn_slice a;
          a2 = (if is_compaction then mark_compacted a1 else a1);
          a3 = replace_history items a2
      in case estimate_conversation_tokens items of
           None \<Rightarrow> None
         | Some base \<Rightarrow>
             let tokens = reseed is_compaction (cs_total_tokens (ca_state a)) (cs_at_last_response (ca_state a)) base;
                 a4 = upd (\<lambda>s. s\<lparr>cs_conversation := items, cs_since_model := 0, cs_total_tokens := tokens,
                        cs_at_last_response := base\<rparr>) a3;
                 a5 = rebase_turn_capture_offset a4
             in Some (emit_chat (Tokens_Updated tokens) (emit_chat (Conversation_Reset (length items)) a5)))"

definition canonical_system_prompt_eq :: "ustr \<Rightarrow> ustr \<Rightarrow> bool" where
  "canonical_system_prompt_eq s t \<longleftrightarrow>
     dropWhile (\<lambda>c. c = LF \<or> c = 13) (rev s) = dropWhile (\<lambda>c. c = LF \<or> c = 13) (rev t)"

definition replace_or_insert_system_head :: "ustr \<Rightarrow> conversation_item list \<Rightarrow> conversation_item list \<times> bool" where
  "replace_or_insert_system_head prompt xs =
     (case xs of
        System_Item s # ys \<Rightarrow>
          if canonical_system_prompt_eq s prompt then (xs, False) else (System_Item prompt # ys, True)
      | _ \<Rightarrow> (System_Item prompt # xs, True))"

definition head_matches :: "ustr \<Rightarrow> conversation_item list \<Rightarrow> bool" where
  "head_matches prompt xs = (case xs of System_Item s # ys \<Rightarrow> canonical_system_prompt_eq s prompt | _ \<Rightarrow> False)"

definition replace_system_head :: "ustr \<Rightarrow> chat_actor \<Rightarrow> (chat_actor \<times> bool) option" where
  "replace_system_head prompt a =
     (if head_matches prompt (conversation a) then Some (a, False)
      else (case replace_or_insert_system_head prompt (conversation a) of (xs, changed) \<Rightarrow>
        map_option (\<lambda>a'. (a', changed)) (replace_conversation xs False a)))"

definition snapshot_of_chat :: "chat_state \<Rightarrow> chat_snapshot" where
  "snapshot_of_chat s = \<lparr>sn_conversation = cs_conversation s, sn_config = cs_config s,
     sn_prompt_index = cs_prompt_index s, sn_total_tokens = cs_total_tokens s,
     sn_at_last_response = cs_at_last_response s, sn_edited_paths = cs_edited_paths s,
     sn_prompt_texts = cs_prompt_texts s, sn_stream_start = cs_stream_start s, sn_turn_start = cs_turn_start s,
     sn_last_compaction = cs_last_compaction s, sn_credentials = cs_credentials s\<rparr>"

text \<open>Restoring writes nothing to disk and sends no event.\<close>

definition restore_snapshot_into :: "chat_snapshot \<Rightarrow> chat_actor \<Rightarrow> chat_actor option" where
  "restore_snapshot_into snap a =
     (let a1 = rebase_turn_capture_offset (set_conversation (sn_conversation snap) (snapshot_turn_slice a));
          estimate = (if 0 < sn_at_last_response snap then Some (sn_at_last_response snap)
                      else estimate_conversation_tokens (sn_conversation snap))
      in map_option (\<lambda>n. upd (\<lambda>s. s\<lparr>cs_config := sn_config snap, cs_prompt_index := sn_prompt_index snap,
           cs_total_tokens := sn_total_tokens snap, cs_since_model := 0, cs_at_last_response := n,
           cs_edited_paths := sn_edited_paths snap, cs_prompt_texts := sn_prompt_texts snap,
           cs_stream_start := sn_stream_start snap, cs_turn_start := sn_turn_start snap,
           cs_last_compaction := sn_last_compaction snap, cs_credentials := sn_credentials snap,
           cs_prompt_usage := None\<rparr>) a1) estimate)"

section \<open>Integrity\<close>

definition ensure_conversation_integrity :: "dangling_reason \<Rightarrow> chat_actor \<Rightarrow> chat_actor" where
  "ensure_conversation_integrity reason a =
     (let a1 = snapshot_turn_slice a in
      case dedup_duplicate_tool_results (conversation a) of (ys, removed) \<Rightarrow>
      case repair_dangling_tool_calls reason ys of (zs, inserted) \<Rightarrow>
        let a2 = set_conversation zs a1;
            a3 = (if 0 < inserted \<or> 0 < removed then replace_history zs a2 else a2)
        in rebase_turn_capture_offset a3)"

text \<open>The conversation is taken out of the state before it is replaced, so an active capture sees it empty.\<close>

definition repair_history_of :: "bool \<Rightarrow> chat_actor \<Rightarrow> (chat_actor \<times> repair_report) option" where
  "repair_history_of dry_run a =
     (case repair_history (conversation a) of (xs, report) \<Rightarrow>
      if dry_run then Some (a, report)
      else if report_changed report
      then map_option (\<lambda>a'. (a', report)) (replace_conversation xs False (set_conversation [] a))
      else Some (set_conversation xs a, report))"

section \<open>Pushing\<close>

definition is_assistant :: "conversation_item \<Rightarrow> bool" where
  "is_assistant x = (case x of Assistant_Item a \<Rightarrow> True | _ \<Rightarrow> False)"

definition count_tokens :: "conversation_item \<Rightarrow> chat_actor \<Rightarrow> chat_actor option" where
  "count_tokens x a =
     map_option (\<lambda>n. upd (\<lambda>s. s\<lparr>cs_since_model := cs_since_model s + n\<rparr>) a) (estimate_item_tokens x)"

definition append_item :: "conversation_item \<Rightarrow> chat_actor \<Rightarrow> chat_actor" where
  "append_item x a = set_conversation (conversation a @ [x]) a"

definition push_message :: "conversation_item \<Rightarrow> chat_actor \<Rightarrow> chat_actor option" where
  "push_message x a =
     map_option (\<lambda>a'. append_item x (persist_message x a')) (if is_assistant x then Some a else count_tokens x a)"

definition clear_result :: "nat \<Rightarrow> nat \<Rightarrow> result_item \<Rightarrow> conversation_item" where
  "clear_result threshold age r =
     (if age < threshold then Result_Item r
      else if tr_content r \<noteq> hard_clear_placeholder then set_content hard_clear_placeholder r
      else Result_Item r)"

definition user_items :: "conversation_item list \<Rightarrow> nat" where
  "user_items xs = length (filter is_user xs)"

text \<open>The age limit is raised by the number of user items beyond the prompt index.\<close>

definition effective_threshold :: "chat_actor \<Rightarrow> nat" where
  "effective_threshold a =
     pc_hard_clear_age_turns (ca_pruning a) + (user_items (conversation a) - cs_prompt_index (ca_state a))"

definition prune_retained_conversation :: "chat_actor \<Rightarrow> chat_actor" where
  "prune_retained_conversation a =
     (if \<not> pc_enabled (ca_pruning a) then a
      else if cs_prompt_index (ca_state a) < pc_hard_clear_age_turns (ca_pruning a) then a
      else (let xs = rev (walk_back (clear_result (effective_threshold a)) 0 False (rev (conversation a)))
            in if xs = conversation a then a else replace_history xs (set_conversation xs a)))"

definition push_user_message :: "dangling_reason \<Rightarrow> conversation_item \<Rightarrow> chat_actor \<Rightarrow> chat_actor option" where
  "push_user_message reason x a =
     map_option (\<lambda>a'. prune_retained_conversation (append_item x (persist_message x a')))
       (count_tokens x (ensure_conversation_integrity reason a))"

text \<open>\<open>iter_mut().find(..)\<close> over the conversation.\<close>

fun replace_first :: "('a \<Rightarrow> bool) \<Rightarrow> 'a \<Rightarrow> 'a list \<Rightarrow> 'a list" where
  "replace_first P y [] = []"
| "replace_first P y (x # xs) = (if P x then y # xs else x # replace_first P y xs)"

definition converge_working_directory_switch :: "nat \<Rightarrow> conversation_item \<Rightarrow> chat_actor \<Rightarrow> chat_actor option" where
  "converge_working_directory_switch generation authoritative a =
     (let P = (\<lambda>x. working_directory_switch_generation x = Some generation) in
      case List.find P (conversation a) of
        Some existing \<Rightarrow>
          (case (estimate_item_tokens existing, estimate_item_tokens authoritative) of
             (Some old, Some new) \<Rightarrow> Some (upd (\<lambda>s. s\<lparr>cs_since_model :=
                 (if old \<le> new then cs_since_model s + (new - old) else cs_since_model s - (old - new)),
                 cs_conversation := replace_first P authoritative (cs_conversation s)\<rparr>) a)
           | _ \<Rightarrow> None)
      | None \<Rightarrow> map_option (append_item authoritative) (count_tokens authoritative a))"

section \<open>Tokens and usage\<close>

definition record_token_usage :: "nat \<Rightarrow> chat_actor \<Rightarrow> chat_actor option" where
  "record_token_usage n a =
     map_option (\<lambda>estimate. emit_chat (Tokens_Updated n)
         (upd (\<lambda>s. s\<lparr>cs_since_model := 0, cs_at_last_response := estimate, cs_total_tokens := n\<rparr>) a))
       (estimate_conversation_tokens (conversation a))"

definition ledger_or_new :: "usage_ledger option \<Rightarrow> usage_ledger" where
  "ledger_or_new L = (case L of None \<Rightarrow> default_ledger | Some l \<Rightarrow> l)"

definition record_model_call_usage ::
  "ustr option \<Rightarrow> token_usage \<Rightarrow> nat option \<Rightarrow> int option \<Rightarrow> chat_state \<Rightarrow> chat_state" where
  "record_model_call_usage model_id t duration cost s =
     (let key = (case model_id of Some i \<Rightarrow> if i \<noteq> [] then i else sc_model (cs_config s) | None \<Rightarrow> sc_model (cs_config s))
      in s\<lparr>cs_prompt_usage := Some (record_main_loop_call key t duration cost (ledger_or_new (cs_prompt_usage s))),
           cs_session_usage := record_main_loop_call key t duration cost (cs_session_usage s)\<rparr>)"

definition record_subagent_usage :: "(ustr \<times> usage_totals) list \<Rightarrow> bool \<Rightarrow> bool \<Rightarrow> chat_state \<Rightarrow> chat_state" where
  "record_subagent_usage by_model attribute_to_prompt incomplete s =
     (if by_model = [] \<and> \<not> incomplete then s
      else (let s1 = (if attribute_to_prompt
                      then s\<lparr>cs_prompt_usage := Some (record_subagent by_model incomplete (ledger_or_new (cs_prompt_usage s)))\<rparr>
                      else s)
            in s1\<lparr>cs_session_usage := record_subagent by_model incomplete (cs_session_usage s1)\<rparr>))"

definition mark_usage_incomplete :: "bool \<Rightarrow> bool \<Rightarrow> chat_state \<Rightarrow> chat_state" where
  "mark_usage_incomplete prompt session s =
     (let s1 = (if prompt then s\<lparr>cs_prompt_usage := Some (mark_incomplete (ledger_or_new (cs_prompt_usage s)))\<rparr> else s)
      in if session then s1\<lparr>cs_session_usage := mark_incomplete (cs_session_usage s1)\<rparr> else s1)"

definition increment_prompt_index :: "chat_actor \<Rightarrow> chat_actor" where
  "increment_prompt_index a =
     (let a1 = upd (\<lambda>s. s\<lparr>cs_prompt_usage := None, cs_prompt_index := cs_prompt_index s + 1\<rparr>) a
      in emit_chat (Prompt_Index_Changed (cs_prompt_index (ca_state a1))) a1)"

definition exceeds_threshold :: "nat \<Rightarrow> nat \<Rightarrow> nat \<Rightarrow> bool" where
  "exceeds_threshold used context percent \<longleftrightarrow>
     (if context = 0 then False
      else min (context * percent) u64_max \<le> min (used * 100) u64_max)"

definition usage_percentage_truncated :: "nat \<Rightarrow> nat \<Rightarrow> nat" where
  "usage_percentage_truncated used context =
     (if context = 0 then 0 else min (min (used * 100) u64_max div context) 100)"

definition check_auto_compact_needed :: "nat \<Rightarrow> chat_state \<Rightarrow> (nat \<times> nat \<times> nat) option" where
  "check_auto_compact_needed percent s =
     (let context = sc_context_window (cs_config s) in
      if exceeds_threshold (cs_total_tokens s) context percent
      then Some (cs_total_tokens s, context, usage_percentage_truncated (cs_total_tokens s) context) else None)"

section \<open>Truncation by counting\<close>

fun position_of_user :: "nat \<Rightarrow> conversation_item list \<Rightarrow> nat" where
  "position_of_user n [] = 0"
| "position_of_user n (x # xs) =
     (if is_user x then (case n of 0 \<Rightarrow> 0 | Suc m \<Rightarrow> Suc (position_of_user m xs)) else Suc (position_of_user n xs))"

definition truncate_to_prompt_index :: "nat \<Rightarrow> chat_actor \<Rightarrow> chat_actor option" where
  "truncate_to_prompt_index target a =
     (if cs_prompt_index (ca_state a) \<le> target then Some a
      else (let xs = take (position_of_user target (conversation a)) (conversation a)
            in map_option (\<lambda>n. emit_chat (Conversation_Reset (length xs)) (replace_history xs
                 (upd (\<lambda>s. s\<lparr>cs_conversation := xs, cs_prompt_texts := take target (cs_prompt_texts s),
                    cs_prompt_index := target, cs_total_tokens := n, cs_since_model := 0,
                    cs_at_last_response := n\<rparr>) a))) (estimate_conversation_tokens xs)))"

end
