(* ===== verification/Chat_Compaction.thy ===== *)
theory Chat_Compaction
  imports Chat_Repair Chat_Request Chat_Usage
begin

text \<open>
  What compaction makes of a conversation, \<open>xai-chat-state/src/compaction_utils.rs\<close>: which messages are
  the user's own, the input of the summary call and how it is made to fit, the cleaning of the summary
  the model returned, and the history that replaces the conversation.
\<close>

section \<open>Text\<close>

text \<open>\<open>str::find\<close>: what precedes the first occurrence and what follows it; \<open>rfind\<close>: the last one.\<close>

definition cut_at :: "ustr \<Rightarrow> ustr \<Rightarrow> (ustr \<times> ustr) option" where
  "cut_at p s = map_option (\<lambda>a. (a, drop (length a + length p) s)) (before_pattern p s)"

definition cut_at_last :: "ustr \<Rightarrow> ustr \<Rightarrow> (ustr \<times> ustr) option" where
  "cut_at_last p s = map_option (\<lambda>(a, b). (rev b, rev a)) (cut_at (rev p) (rev s))"

lemma before_pattern_Some: "before_pattern p s = Some a \<Longrightarrow> s = a @ p @ drop (length a + length p) s"
proof (induction s arbitrary: a)
  case Nil
  then show ?case by (simp split: if_splits)
next
  case (Cons c s)
  show ?case
  proof (cases "take (length p) (c # s) = p")
    case True
    then have "a = []" using Cons.prems by simp
    then show ?thesis using append_take_drop_id[of "length p" "c # s"] True by simp
  next
    case False
    then obtain b where "before_pattern p s = Some b" "a = c # b" using Cons.prems by auto
    then show ?thesis using Cons.IH[of b] by simp
  qed
qed

lemma cut_at_Some: "cut_at p s = Some (a, b) \<Longrightarrow> s = a @ p @ b"
  using before_pattern_Some by (fastforce simp: cut_at_def)

lemma cut_at_length: "cut_at p s = Some (a, b) \<Longrightarrow> length s = length a + length p + length b"
  by (drule cut_at_Some) simp

text \<open>\<open>str::replace\<close>\<close>

function replace_text :: "ustr \<Rightarrow> ustr \<Rightarrow> ustr \<Rightarrow> ustr" where
  "replace_text p r s =
     (if p = [] then s
      else case cut_at p s of None \<Rightarrow> s | Some (a, b) \<Rightarrow> a @ r @ replace_text p r b)"
  by pat_completeness auto
termination
  by (relation "measure (\<lambda>(_, _, s). length s)") (auto dest: cut_at_length)

declare replace_text.simps [simp del]

fun decimal :: "nat \<Rightarrow> ustr" where
  "decimal n = (if n < 10 then [48 + n] else decimal (n div 10) @ [48 + n mod 10])"

declare decimal.simps [simp del]

section \<open>The user's own messages\<close>

definition system_tags :: "ustr list" where
  "system_tags = map u [''user_info'', ''project_layout'', ''git_status'', ''fork-context'', ''system-reminder'',
     ''agent-memory'', ''system_reminder'', ''background_context'', ''command-name'', ''command-message'',
     ''command-args'']"

function remove_tag :: "ustr \<Rightarrow> ustr \<Rightarrow> ustr \<Rightarrow> ustr" where
  "remove_tag opening closing s =
     (if opening = [] then s
      else case cut_at opening s of
        None \<Rightarrow> s
      | Some (a, b) \<Rightarrow>
          (case cut_at closing (drop (length a) s) of
             None \<Rightarrow> s
           | Some (x, y) \<Rightarrow> if closing = [] then s else remove_tag opening closing (a @ y)))"
  by pat_completeness auto
termination
  by (relation "measure (\<lambda>(_, _, s). length s)") (auto dest!: cut_at_length simp: drop_eq_Nil min_def)

declare remove_tag.simps [simp del]

definition strip_system_tags :: "ustr \<Rightarrow> ustr" where
  "strip_system_tags s =
     trim (fold (\<lambda>tag. remove_tag (u ''<'' @ tag @ u ''>'') (u ''</'' @ tag @ u ''>'')) system_tags s)"

definition extract_user_query :: "ustr \<Rightarrow> ustr" where
  "extract_user_query s =
     (case cut_at (u ''<user_query>'') s of
        Some (_, b) \<Rightarrow> (case cut_at (u ''</user_query>'') b of
            Some (inner, _) \<Rightarrow> strip_system_tags (trim inner) | None \<Rightarrow> strip_system_tags s)
      | None \<Rightarrow> strip_system_tags s)"

fun text_parts :: "content_part list \<Rightarrow> ustr list" where
  "text_parts [] = []"
| "text_parts (Text_Part s # ps) = s # text_parts ps"
| "text_parts (Image_Part url # ps) = text_parts ps"

definition user_text :: "user_item \<Rightarrow> ustr" where
  "user_text m = join [LF] (text_parts (ui_content m))"

definition extract_last_user_query :: "conversation_item list \<Rightarrow> ustr option" where
  "extract_last_user_query xs =
     (case List.find is_user (rev xs) of
        Some (User_Item m) \<Rightarrow> let q = extract_user_query (user_text m) in if q = [] then None else Some q
      | _ \<Rightarrow> None)"

definition auto_continue_prompt :: ustr where
  "auto_continue_prompt =
     u ''Continue the conversation from where it left off without asking the user any further questions. Resume directly - do not acknowledge the summary, do not recap what was happening, do not preface with \"I'll continue\" or similar.'' @ [LF] @
     u ''Pick up the last task as if the break never happened.''"

definition is_synthetic_extracted_query :: "ustr \<Rightarrow> bool" where
  "is_synthetic_extracted_query q \<longleftrightarrow> q = [] \<or> q = u ''__auto_continue__'' \<or> q = auto_continue_prompt"

fun is_real_user_turn :: "conversation_item \<Rightarrow> bool" where
  "is_real_user_turn (User_Item m) =
     (if ui_synthetic m \<noteq> None then False
      else if \<exists>p \<in> set (ui_content m). is_image p then True
      else \<not> is_synthetic_extracted_query (extract_user_query (user_text m)))"
| "is_real_user_turn _ = False"

fun query_of :: "conversation_item \<Rightarrow> ustr" where
  "query_of (User_Item m) = extract_user_query (user_text m)"
| "query_of _ = []"

definition extract_real_user_queries :: "conversation_item list \<Rightarrow> ustr list" where
  "extract_real_user_queries xs = map query_of (filter is_real_user_turn xs)"

definition extract_last_real_user_query :: "conversation_item list \<Rightarrow> ustr option" where
  "extract_last_real_user_query xs = map_option query_of (List.find is_real_user_turn (rev xs))"

fun recent_item :: "conversation_item \<Rightarrow> conversation_item option" where
  "recent_item (Assistant_Item a) = Some (Assistant_Item a)"
| "recent_item (Result_Item r) = Some (tool_result (tr_id r) (u ''Tool call omitted...''))"
| "recent_item _ = None"

definition extract_messages_since_last_user :: "conversation_item list \<Rightarrow> conversation_item list" where
  "extract_messages_since_last_user xs =
     rev (List.map_filter recent_item (takeWhile (\<lambda>x. \<not> is_user x) (rev xs)))"

definition extract_messages_since_last_real_user :: "conversation_item list \<Rightarrow> conversation_item list" where
  "extract_messages_since_last_real_user xs =
     List.map_filter recent_item (rev (takeWhile (\<lambda>x. \<not> is_real_user_turn x) (rev xs)))"

section \<open>The input of the summary\<close>

definition flatten_calls :: "assistant_item \<Rightarrow> assistant_item" where
  "flatten_calls a =
     (if ai_calls a = [] then a
      else a\<lparr>ai_content := ai_content a @ [LF] @ u ''[Called tools: '' @ join (u '', '') (map cc_name (ai_calls a)) @ u '']'',
             ai_calls := []\<rparr>)"

fun strip_tool_item :: "conversation_item \<Rightarrow> conversation_item option" where
  "strip_tool_item (Result_Item r) = None"
| "strip_tool_item (Assistant_Item a) = Some (Assistant_Item (flatten_calls a))"
| "strip_tool_item x = Some x"

definition strip_tool_messages_for_conversation_item :: "conversation_item list \<Rightarrow> conversation_item list" where
  "strip_tool_messages_for_conversation_item xs = List.map_filter strip_tool_item xs"

fun is_reasoning :: "conversation_item \<Rightarrow> bool" where
  "is_reasoning (Reasoning_Item r) = True"
| "is_reasoning _ = False"

definition strip_reasoning_blocks :: "conversation_item list \<Rightarrow> conversation_item list" where
  "strip_reasoning_blocks xs = filter (\<lambda>x. \<not> is_reasoning x) xs"

fun strip_image_part :: "content_part \<Rightarrow> content_part" where
  "strip_image_part (Image_Part url) = Text_Part (u ''[image]'')"
| "strip_image_part (Text_Part s) = Text_Part s"

fun strip_images_of :: "conversation_item \<Rightarrow> conversation_item" where
  "strip_images_of (User_Item m) = User_Item (m\<lparr>ui_content := map strip_image_part (ui_content m)\<rparr>)"
| "strip_images_of x = x"

definition strip_images :: "conversation_item list \<Rightarrow> conversation_item list" where
  "strip_images xs = map strip_images_of xs"

definition prepare_conversation_for_summarization :: "conversation_item list \<Rightarrow> conversation_item list" where
  "prepare_conversation_for_summarization xs =
     strip_images (strip_reasoning_blocks (strip_tool_messages_for_conversation_item xs))"

definition prepare_conversation_for_segment :: "conversation_item list \<Rightarrow> conversation_item list" where
  "prepare_conversation_for_segment xs = strip_images (strip_reasoning_blocks xs)"

definition truncate_trailing_incomplete_tool_call :: "conversation_item list \<Rightarrow> conversation_item list" where
  "truncate_trailing_incomplete_tool_call xs = rev (dropWhile (\<lambda>x. calls_of x \<noteq> []) (rev xs))"

definition prepare_conversation_for_verbatim_summarization ::
  "conversation_item list \<Rightarrow> bool \<Rightarrow> conversation_item list" where
  "prepare_conversation_for_verbatim_summarization xs strip_reasoning =
     truncate_trailing_incomplete_tool_call (if strip_reasoning then strip_reasoning_blocks xs else xs)"

section \<open>Fitting the summary's window\<close>

text \<open>The longest prefix of whole characters that takes at most \<open>n\<close> bytes.\<close>

fun floor_prefix :: "nat \<Rightarrow> ustr \<Rightarrow> ustr" where
  "floor_prefix n [] = []"
| "floor_prefix n (c # s) =
     (if length (encode_char c) \<le> n then c # floor_prefix (n - length (encode_char c)) s else [])"

definition marker_reserve :: nat where "marker_reserve = 64"

definition truncate_text_to_bytes :: "ustr \<Rightarrow> nat \<Rightarrow> ustr option" where
  "truncate_text_to_bytes s max_bytes =
     (if byte_len s \<le> max_bytes then None
      else (let kept = floor_prefix (min (max_bytes - marker_reserve) (byte_len s)) s
            in Some (kept @ [LF] @ u ''[... truncated '' @ decimal (byte_len s - byte_len kept) @
                 u '' bytes to fit the compaction window ...]'')))"

definition truncated_text :: "nat \<Rightarrow> ustr \<Rightarrow> ustr" where
  "truncated_text max_bytes s = (case truncate_text_to_bytes s max_bytes of None \<Rightarrow> s | Some t \<Rightarrow> t)"

fun truncate_part :: "nat \<Rightarrow> content_part \<Rightarrow> content_part" where
  "truncate_part max_bytes (Text_Part s) = Text_Part (truncated_text max_bytes s)"
| "truncate_part max_bytes (Image_Part url) = Image_Part url"

definition truncate_item_to_tokens :: "nat \<Rightarrow> conversation_item \<Rightarrow> conversation_item" where
  "truncate_item_to_tokens max_tokens item =
     (let max_bytes = min (max_tokens * 4) u64_max in
      case item of
        Result_Item r \<Rightarrow> Result_Item (r\<lparr>tr_content := truncated_text max_bytes (tr_content r)\<rparr>)
      | Assistant_Item a \<Rightarrow> Assistant_Item (a\<lparr>ai_content := truncated_text max_bytes (ai_content a)\<rparr>)
      | User_Item m \<Rightarrow> User_Item (m\<lparr>ui_content := map (truncate_part max_bytes) (ui_content m)\<rparr>)
      | other \<Rightarrow> other)"

text \<open>The cost of an item whose estimate is known not to panic: the total was computed before.\<close>

definition item_cost :: "conversation_item \<Rightarrow> nat" where
  "item_cost x = (case estimate_item_tokens x of None \<Rightarrow> 0 | Some n \<Rightarrow> n)"

definition recover_truncated_tail_unit :: "conversation_item list \<Rightarrow> nat \<Rightarrow> conversation_item list" where
  "recover_truncated_tail_unit body budget =
     (let results = rev (takeWhile is_result (rev body)); before = dropWhile is_result (rev body)
      in if results = [] then (case before of [] \<Rightarrow> [] | x # _ \<Rightarrow> [truncate_item_to_tokens budget x])
         else (let owner = (case before of [] \<Rightarrow> [] | x # _ \<Rightarrow> if calls_of x \<noteq> [] then [x] else []);
                   result_budget = budget - sum_list (map item_cost owner);
                   per = max (result_budget div length results) 1
               in owner @ map (truncate_item_to_tokens per) results))"

text \<open>The walk from the back over the reversed list.\<close>

fun take_fitting :: "nat \<Rightarrow> conversation_item list \<Rightarrow> conversation_item list" where
  "take_fitting budget [] = []"
| "take_fitting budget (x # xs) =
     (if budget < item_cost x then [] else x # take_fitting (budget - item_cost x) xs)"

definition fit_conversation_to_budget :: "conversation_item list \<Rightarrow> nat \<Rightarrow> conversation_item list option" where
  "fit_conversation_to_budget xs max_tokens =
     (case sum_tokens xs of
        None \<Rightarrow> None
      | Some tokens \<Rightarrow>
          if tokens \<le> max_tokens then Some xs
          else (let head = (case xs of System_Item s # _ \<Rightarrow> [System_Item s] | _ \<Rightarrow> []);
                    body = drop (length head) xs;
                    budget = max_tokens - sum_list (map item_cost head);
                    kept = dropWhile is_result (rev (take_fitting budget (rev body)))
                in Some (head @ (if kept \<noteq> [] then kept else recover_truncated_tail_unit body budget))))"

text \<open>
  The cleaning of a summary and the history built around it, \<open>xai-chat-state/src/compaction_utils.rs\<close>. The
  second half of the theory follows a text cut at its \<open>'<'\<close> characters through the cleaning.
\<close>

section \<open>Cleaning\<close>

abbreviation analysis_open :: ustr where "analysis_open \<equiv> u ''<analysis>''"
abbreviation analysis_close :: ustr where "analysis_close \<equiv> u ''</analysis>''"
abbreviation summary_open :: ustr where "summary_open \<equiv> u ''<summary>''"
abbreviation summary_close :: ustr where "summary_close \<equiv> u ''</summary>''"

text \<open>Whether the analysis block that starts after \<open>before\<close> comes before the summary's own text.\<close>

definition analysis_leads :: "ustr \<Rightarrow> ustr \<Rightarrow> bool" where
  "analysis_leads before s =
     (case cut_at summary_open s of
        Some (a, b) \<Rightarrow> length before < length a \<or> trim (take (length before - (length a + length summary_open)) b) = []
      | None \<Rightarrow> trim before = [])"

function peel_analysis :: "ustr \<Rightarrow> ustr" where
  "peel_analysis s =
     (case cut_at analysis_open s of
        None \<Rightarrow> s
      | Some (before, _) \<Rightarrow>
          if \<not> analysis_leads before s then s
          else (case cut_at analysis_close (drop (length before) s) of
              Some (_, after) \<Rightarrow> peel_analysis (before @ after)
            | None \<Rightarrow> (case cut_at summary_open (drop (length before) s) of
                None \<Rightarrow> before
              | Some (skipped, _) \<Rightarrow> before @ drop (length before + length skipped) s)))"
  by pat_completeness auto
termination
proof (relation "measure length", goal_cases)
  case (2 s x before rest y skipped after)
  then have "length s - length before = length skipped + length analysis_close + length after"
    using cut_at_length by fastforce
  moreover have "length analysis_close = 11" by (simp add: u_def)
  ultimately show ?case by simp
qed simp

declare peel_analysis.simps [simp del]

definition strip_leading_scratchpad :: "ustr \<Rightarrow> ustr" where
  "strip_leading_scratchpad inner =
     (let s = trim inner;
          lead = dropWhile (\<lambda>c. c \<in> set (u ''#*->'' @ [32, 9])) s;
          numbered = (case lead of [] \<Rightarrow> False | c # _ \<Rightarrow> 48 \<le> c \<and> c \<le> 57);
          s1 = (if \<not> numbered then (case cut_at_last analysis_close s of Some (_, b) \<Rightarrow> trim_start b | None \<Rightarrow> s) else s)
      in case strip_pre summary_open s1 of Some rest \<Rightarrow> trim_start rest | None \<Rightarrow> s1)"

definition unwrap_summary :: "ustr \<Rightarrow> ustr" where
  "unwrap_summary s =
     (case (cut_at summary_open s, cut_at_last summary_close s) of
        (Some (before, _), Some (reached, after)) \<Rightarrow>
          if length before < length reached
          then before @ u ''Summary:'' @ [LF] @
            strip_leading_scratchpad (trim (drop (length before + length summary_open) reached)) @ after
          else s
      | _ \<Rightarrow> s)"

text \<open>A zero-width space after the \<open>'<'\<close> of every control token; \<open>token_names\<close> are their remainders.\<close>

definition zero_width_space :: nat where "zero_width_space = 8203"
definition less_than :: nat where "less_than = 60"

definition token_names :: "ustr list" where
  "token_names = map u [''/summary>'', ''summary>'', ''/analysis>'', ''analysis>'', ''/summary_request>'', ''summary_request>'']"

definition neutralize_compaction_control_tokens :: "ustr \<Rightarrow> ustr" where
  "neutralize_compaction_control_tokens s =
     fold (\<lambda>name. replace_text (less_than # name) (less_than # zero_width_space # name)) token_names s"

function collapse_newlines :: "ustr \<Rightarrow> ustr" where
  "collapse_newlines s =
     (if cut_at [LF, LF, LF] s = None then s else collapse_newlines (replace_text [LF, LF, LF] [LF, LF] s))"
  by pat_completeness auto

lemma replace_text_shorter: "length r \<le> length p \<Longrightarrow> length (replace_text p r s) \<le> length s"
proof (induction p r s rule: replace_text.induct)
  case (1 p r s)
  show ?case
  proof (cases "p = [] \<or> cut_at p s = None")
    case True
    then show ?thesis by (subst replace_text.simps) auto
  next
    case False
    then obtain a b where ab: "cut_at p s = Some (a, b)" "p \<noteq> []" by auto
    then have "length (replace_text p r b) \<le> length b" using 1(1)[of "(a, b)" a b] 1(2) by simp
    then show ?thesis using ab 1(2) cut_at_length[OF ab(1)] by (subst replace_text.simps) auto
  qed
qed

lemma replace_text_shrinks:
  assumes "length r < length p" "cut_at p s \<noteq> None"
  shows "length (replace_text p r s) < length s"
proof -
  obtain a b where ab: "cut_at p s = Some (a, b)" using assms(2) by auto
  then have "length (replace_text p r b) \<le> length b" using assms(1) by (simp add: replace_text_shorter)
  then show ?thesis using ab assms(1) cut_at_length[OF ab] by (subst replace_text.simps) auto
qed

termination collapse_newlines
  by (relation "measure length") (auto intro: replace_text_shrinks)

declare collapse_newlines.simps [simp del]

definition format_compact_summary :: "ustr \<Rightarrow> ustr" where
  "format_compact_summary s =
     trim (collapse_newlines (neutralize_compaction_control_tokens (unwrap_summary (peel_analysis s))))"

definition format_compact_summary_content :: "ustr \<Rightarrow> ustr" where
  "format_compact_summary_content raw =
     u ''This session is being continued from a previous conversation that ran out of context. The summary below covers the earlier portion of the conversation.'' @
     [LF, LF] @ format_compact_summary raw"

definition min_summary_seed_chars :: nat where "min_summary_seed_chars = 500"

definition is_degenerate_summary :: "ustr \<Rightarrow> bool" where
  "is_degenerate_summary raw \<longleftrightarrow> length (format_compact_summary raw) < min_summary_seed_chars"

definition bound_captured_output :: "ustr \<Rightarrow> nat \<Rightarrow> ustr" where
  "bound_captured_output s max_chars =
     (if length s \<le> max_chars then s
      else (let n = max_chars div 2; m = max_chars - n
            in take n s @ [LF, LF, 8230] @ u ''['' @ decimal (length s - n - m) @ u '' chars elided]'' @
               [8230, LF, LF] @ drop (length s - m) s))"

definition format_transcript_location :: "ustr \<Rightarrow> ustr" where
  "format_transcript_location path =
     [LF, LF] @ u ''<transcript_location>'' @ [LF] @
     u ''The full, unsummarized transcript of this conversation is saved at:'' @ [LF] @ path @ [LF] @
     u ''If you need details that were dropped from the summary above (exact code, error text, file contents, or earlier tool output), read this file to recover them.'' @
     [LF] @ u ''</transcript_location>''"

definition wrap_user_query :: "ustr \<Rightarrow> ustr" where
  "wrap_user_query s = u ''<user_query>'' @ [LF] @ s @ [LF] @ u ''</user_query>''"

section \<open>The compacted history\<close>

text \<open>Of the state context the fields that the history is built from.\<close>

record compaction_state_context =
  csc_generation :: nat
  csc_instructions :: "ustr option"
  csc_recent :: "conversation_item list"
  csc_last_query :: "ustr option"

definition build_state_context :: "conversation_item list \<Rightarrow> nat \<Rightarrow> ustr option \<Rightarrow> compaction_state_context" where
  "build_state_context xs generation instructions = \<lparr>csc_generation = generation, csc_instructions = instructions,
     csc_recent = extract_messages_since_last_real_user xs, csc_last_query = extract_last_real_user_query xs\<rparr>"

definition for_compaction :: "compaction_state_context \<Rightarrow> compaction_state_context" where
  "for_compaction c = c\<lparr>csc_recent := []\<rparr>"

record compacted_history_input =
  ci_system :: conversation_item
  ci_prefix :: ustr
  ci_agents_md :: "ustr option"
  ci_context :: compaction_state_context
  ci_summary :: ustr
  ci_reminder :: "ustr option"
  ci_hint :: "ustr option"

definition user_meta :: "ustr \<Rightarrow> conversation_item" where
  "user_meta s = user_text_item (Some Compaction_Meta) None s"

definition opt_item :: "('a \<Rightarrow> conversation_item) \<Rightarrow> 'a option \<Rightarrow> conversation_item list" where
  "opt_item f x = (case x of None \<Rightarrow> [] | Some y \<Rightarrow> [f y])"

definition build_compacted_history :: "compacted_history_input \<Rightarrow> conversation_item list" where
  "build_compacted_history i =
     (let c = ci_context i;
          summary = user_meta (format_compact_summary_content (ci_summary i) @
            (case ci_hint i of None \<Rightarrow> [] | Some h \<Rightarrow> h));
          instructions = (if csc_generation c = 0 then ci_agents_md i else csc_instructions c)
      in [ci_system i, user_meta (ci_prefix i)] @
         opt_item (user_text_item (Some Project_Instructions) None) instructions @
         opt_item (\<lambda>q. user_text_item None None (wrap_user_query q)) (csc_last_query c) @
         csc_recent c @ [summary] @ opt_item (user_text_item (Some System_Reminder) None) (ci_reminder i))"

end
