(* ===== verification/Chat_Actor.thy ===== *)
theory Chat_Actor
  imports Chat_State Chat_Compaction
begin

text \<open>
  The commands of the chat actor, \<open>xai-chat-state/src/commands.rs\<close>, and its dispatcher \<open>handle_command\<close>,
  \<open>xai-chat-state/src/actor/mod.rs\<close>, with the narrow queries of \<open>actor/queries.rs\<close>, the request builder and the
  append of a working-directory switch to the history file
  (\<open>xai-grok-shell/src/session/storage/jsonl/mod.rs\<close>). Commands are handled one after the other; \<open>None\<close> is
  a panic of the actor. Tool definitions and the trace context of a request pass through it and are left out.
\<close>

section \<open>Working-directory switches on disk\<close>

datatype append_ack = Appended | Already_Present conversation_item
datatype append_error = Not_Committed | Committed append_ack | Indeterminate

text \<open>What goes wrong on the way: nothing, before the line is on disk, after it, or the answer of the
  persistence task gets lost, before or after the write.\<close>

datatype switch_fault = No_Fault | Fault_Before_Write | Fault_After_Write | Lost_Before_Write | Lost_After_Write

definition find_cwd_switch_generation :: "nat \<Rightarrow> conversation_item list \<Rightarrow> conversation_item option" where
  "find_cwd_switch_generation g hist = List.find (\<lambda>x. working_directory_switch_generation x = Some g) hist"

definition append_cwd_switch ::
  "switch_fault \<Rightarrow> nat \<Rightarrow> conversation_item \<Rightarrow> conversation_item list \<Rightarrow>
   conversation_item list \<times> (append_error + append_ack)" where
  "append_cwd_switch fault g x hist =
     (if fault \<in> {Fault_Before_Write, Lost_Before_Write}
      then (hist, Inl (if fault = Fault_Before_Write then Not_Committed else Indeterminate))
      else (let found = find_cwd_switch_generation g hist;
                ack = (case found of None \<Rightarrow> Appended | Some y \<Rightarrow> Already_Present y);
                hist' = (if found = None then hist @ [x] else hist)
            in (hist', if fault = Fault_After_Write then Inl (Committed ack)
                       else if fault = Lost_After_Write then Inl Indeterminate else Inr ack)))"

definition authoritative_item :: "conversation_item \<Rightarrow> append_error + append_ack \<Rightarrow> conversation_item option" where
  "authoritative_item candidate result =
     (case result of
        Inr Appended \<Rightarrow> Some candidate
      | Inl (Committed Appended) \<Rightarrow> Some candidate
      | Inr (Already_Present y) \<Rightarrow> Some y
      | Inl (Committed (Already_Present y)) \<Rightarrow> Some y
      | Inl _ \<Rightarrow> None)"

definition append_working_directory_switch ::
  "switch_fault \<Rightarrow> ustr \<Rightarrow> nat \<Rightarrow> chat_actor \<Rightarrow> (chat_actor \<times> (append_error + append_ack)) option" where
  "append_working_directory_switch fault s g a =
     (let candidate = working_directory_switch s g in
      case append_cwd_switch fault g candidate (ca_history a) of (hist, result) \<Rightarrow>
        let a1 = a\<lparr>ca_history := hist\<rparr> in
        case authoritative_item candidate result of
          None \<Rightarrow> Some (a1, result)
        | Some y \<Rightarrow> map_option (\<lambda>a'. (a', result)) (converge_working_directory_switch g y a1))"

section \<open>Building a request\<close>

record conversation_request =
  cr_items :: "conversation_item list"
  cr_model :: ustr
  cr_temperature :: "nat option"
  cr_max_output :: "nat option"
  cr_request_top_p :: "nat option"
  cr_conv_id :: ustr
  cr_req_id :: ustr
  cr_effort :: "reasoning_effort option"

definition persist_reminder :: "ustr option \<Rightarrow> bool \<Rightarrow> chat_actor \<Rightarrow> chat_actor \<times> ustr option" where
  "persist_reminder reminder persist a =
     (case reminder of
        Some r \<Rightarrow>
          if persist then
            (case inject_memory_reminder r (conversation a) of (xs, injected) \<Rightarrow>
               let a1 = set_conversation xs (snapshot_turn_slice a);
                   a2 = (if injected then replace_history xs a1 else a1)
               in (rebase_turn_capture_offset a2, if injected then None else Some r))
          else (a, Some r)
      | None \<Rightarrow> (a, None))"

definition request_items ::
  "json_size \<Rightarrow> ustr option \<Rightarrow> chat_actor \<Rightarrow> conversation_item list \<times> image_eviction option" where
  "request_items J reminder a =
     (let needs_prune = should_prune (cs_total_tokens (ca_state a)) (sc_context_window (cs_config (ca_state a)));
          body = conversation_body_bytes J (conversation a);
          needs_images = image_compact_trigger_bytes \<le> body;
          (xs, eviction) = (if needs_images
             then apsnd Some (compact_images_to_byte_budget J body image_compact_reclaim_target_bytes (conversation a))
             else (conversation a, None));
          ys = (if needs_prune then prune_conversation (ca_pruning a) xs else xs)
      in (case reminder of None \<Rightarrow> ys | Some r \<Rightarrow> fst (inject_memory_reminder r ys), eviction))"

definition build_conversation_request ::
  "json_size \<Rightarrow> ustr option \<Rightarrow> bool \<Rightarrow> ustr \<Rightarrow> ustr \<Rightarrow> chat_actor \<Rightarrow> chat_actor \<times> conversation_request" where
  "build_conversation_request J reminder persist conv_id req_id a =
     (case persist_reminder reminder persist a of (a1, reminder1) \<Rightarrow>
      case request_items J reminder1 a1 of (items, eviction) \<Rightarrow>
        let body = conversation_body_bytes J (conversation a1);
            images = inline_image_count (conversation a1);
            a2 = (if 0 < images
              then emit_chat (Image_Budget body image_compact_trigger_bytes image_compact_reclaim_target_bytes images
                (image_compact_trigger_bytes \<le> body)
                (case eviction of None \<Rightarrow> 0 | Some o' \<Rightarrow> ie_evicted o')
                (case eviction of None \<Rightarrow> body | Some o' \<Rightarrow> ie_body_bytes_after o')) a1
              else a1);
            config = cs_config (ca_state a1)
        in (a2, \<lparr>cr_items = items, cr_model = sc_model config, cr_temperature = sc_temperature config,
             cr_max_output = sc_max_completion config, cr_request_top_p = sc_top_p config, cr_conv_id = conv_id,
             cr_req_id = req_id, cr_effort = sc_effort config\<rparr>))"

section \<open>Queries\<close>

fun model_metadata :: "conversation_item list \<Rightarrow> ustr option \<times> ustr option" where
  "model_metadata [] = (None, None)"
| "model_metadata (Assistant_Item a # xs) = (ai_model_id a, ai_fingerprint a)"
| "model_metadata (x # xs) = model_metadata xs"

definition get_last_model_metadata :: "conversation_item list \<Rightarrow> ustr option \<times> ustr option" where
  "get_last_model_metadata xs = model_metadata (rev xs)"

definition spoken :: "conversation_item \<Rightarrow> ustr option" where
  "spoken x = (case x of Assistant_Item a \<Rightarrow> if trim (ai_content a) \<noteq> [] then Some (ai_content a) else None | _ \<Rightarrow> None)"

fun first_some :: "('a \<Rightarrow> 'b option) \<Rightarrow> 'a list \<Rightarrow> 'b option" where
  "first_some f [] = None"
| "first_some f (x # xs) = (case f x of Some y \<Rightarrow> Some y | None \<Rightarrow> first_some f xs)"

definition get_last_assistant_text :: "conversation_item list \<Rightarrow> ustr option" where
  "get_last_assistant_text xs = first_some spoken (rev xs)"

definition opens_turn :: "conversation_item \<Rightarrow> bool" where
  "opens_turn x = (case x of
     User_Item m \<Rightarrow> ui_prompt_index m \<noteq> None \<or>
       (case ui_synthetic m of None \<Rightarrow> True | Some reason \<Rightarrow> starts_prompt_turn reason)
   | _ \<Rightarrow> False)"

fun text_in_turn :: "conversation_item list \<Rightarrow> ustr option" where
  "text_in_turn [] = None"
| "text_in_turn (x # xs) =
     (case spoken x of Some s \<Rightarrow> Some s | None \<Rightarrow> if opens_turn x then None else text_in_turn xs)"

definition get_last_assistant_text_in_turn :: "conversation_item list \<Rightarrow> ustr option" where
  "get_last_assistant_text_in_turn xs = text_in_turn (rev xs)"

definition leading_text :: "conversation_item \<Rightarrow> ustr option" where
  "leading_text x = (case x of User_Item m \<Rightarrow> (case ui_content m of Text_Part s # _ \<Rightarrow> Some s | _ \<Rightarrow> None) | _ \<Rightarrow> None)"

definition get_first_user_text :: "conversation_item list \<Rightarrow> ustr option" where
  "get_first_user_text xs = first_some leading_text xs"

definition get_conversation_item_at :: "nat \<Rightarrow> conversation_item list \<Rightarrow> conversation_item option" where
  "get_conversation_item_at i xs = (if i < length xs then Some (xs ! i) else None)"

record conversation_counts =
  co_total :: nat
  co_user :: nat
  co_assistant :: nat
  co_result :: nat

definition get_conversation_counts :: "conversation_item list \<Rightarrow> conversation_counts" where
  "get_conversation_counts xs = \<lparr>co_total = length xs, co_user = length (filter is_user xs),
     co_assistant = length (filter is_assistant xs), co_result = length (filter is_result xs)\<rparr>"

definition get_system_message :: "conversation_item list \<Rightarrow> conversation_item option" where
  "get_system_message xs = List.find is_system xs"

section \<open>Commands\<close>

text \<open>The commands that only read the state, and the others.\<close>

datatype chat_query =
  Get_Conversation
| Get_Prompt_Index
| Get_Last_Compaction_Prompt_Index
| Get_Total_Tokens
| Get_Last_Turn_Usage
| Get_Prompt_Usage
| Get_Session_Usage
| Get_Estimated_Total_Tokens
| Get_Sampling_Config
| Get_Agent_Edited_Paths
| Get_Notification_Meta
| Take_Snapshot
| Check_Auto_Compact_Needed nat
| Get_Credentials
| Get_Last_Model_Metadata
| Get_Conversation_Len
| Has_Dangling_Tool_Calls
| Get_Last_Assistant_Text
| Get_Last_Assistant_Text_In_Turn
| Get_First_User_Text
| Get_Conversation_Item_At nat
| Get_Last_User_Query_Text
| Get_Conversation_Counts
| Get_System_Message
| Get_Estimated_Messages_Tokens

datatype chat_command =
  Push_User_Message conversation_item
| Push_User_Message_And_Ack conversation_item
| Append_Working_Directory_Switch switch_fault ustr nat
| Push_User_Message_With_Repair_Reason conversation_item dangling_reason
| Push_Assistant_Response conversation_item
| Push_Tool_Result conversation_item
| Record_Token_Usage nat
| Record_Last_Turn_Usage token_usage
| Record_Model_Call_Usage "ustr option" token_usage "nat option" "int option"
| Record_Subagent_Usage "(ustr \<times> usage_totals) list" bool bool
| Mark_Usage_Incomplete bool bool
| Increment_Prompt_Index
| Update_Sampling_Config sampling_config
| Record_Agent_Edited_Path ustr
| Record_Stream_Start int
| Record_Turn_Start int
| Replace_Conversation "conversation_item list" bool
| Repair_History bool "bool option"
| Replace_System_Head ustr
| Cache_Prompt_Text ustr
| Record_Compaction_At nat
| Flush_History
| Update_Credentials credentials
| Restore_Snapshot chat_snapshot
| Begin_Turn_Capture
| Append_Harness_Trace_Items "conversation_item list"
| Flush_Harness_Trace_Turn
| Repair_Dangling_After_Harness_Halt ustr
| Build_Conversation_Request "ustr option" bool ustr ustr
| Truncate_To_Prompt_Index nat
| Take_Turn_Messages
| Take_Harness_Trace_Turns
| Chat_Query chat_query

datatype chat_reply =
  No_Reply
| Done_Reply
| Switch_Reply "append_error + append_ack"
| Repair_Reply "repair_report option"
| Bool_Reply bool
| Nat_Reply nat
| Opt_Nat_Reply "nat option"
| Items_Reply "conversation_item list"
| Item_Reply "conversation_item option"
| Text_Reply "ustr option"
| Turn_Usage_Reply "token_usage option"
| Ledger_Reply "usage_ledger option"
| Config_Reply sampling_config
| Paths_Reply "ustr set"
| Times_Reply "int option" "int option"
| Snapshot_Reply chat_snapshot
| Compact_Reply "(nat \<times> nat \<times> nat) option"
| Credentials_Reply credentials
| Metadata_Reply "ustr option \<times> ustr option"
| Capture_Reply "(conversation_item list \<times> bool) option"
| Traces_Reply "conversation_item list list"
| Counts_Reply conversation_counts
| Request_Reply conversation_request

text \<open>The messages of the turn so far and whether the conversation was compacted meanwhile.\<close>

definition captured_messages :: "chat_state \<Rightarrow> (conversation_item list \<times> bool) option" where
  "captured_messages s = map_option (\<lambda>cap. (tc_saved cap @ turn_tail (cs_conversation s) (tc_start cap), tc_compacted cap))
     (cs_capture s)"

definition take_turn_messages :: "chat_actor \<Rightarrow> chat_actor \<times> chat_reply" where
  "take_turn_messages a = (upd (\<lambda>s. s\<lparr>cs_capture := None\<rparr>) a, Capture_Reply (captured_messages (ca_state a)))"

definition begin_turn_capture :: "chat_actor \<Rightarrow> chat_actor" where
  "begin_turn_capture a = upd (\<lambda>s. s\<lparr>cs_capture :=
     Some \<lparr>tc_start = length (cs_conversation s), tc_saved = [], tc_compacted = False\<rparr>\<rparr>) a"

definition take_harness_trace_turns :: "chat_actor \<Rightarrow> chat_actor \<times> chat_reply" where
  "take_harness_trace_turns a =
     (let s = seal_harness_trace_turn (ca_state a)
      in (a\<lparr>ca_state := s\<lparr>cs_trace_turns := []\<rparr>\<rparr>, Traces_Reply (cs_trace_turns s)))"

definition repair_history_command :: "bool \<Rightarrow> bool option \<Rightarrow> chat_actor \<Rightarrow> (chat_actor \<times> chat_reply) option" where
  "repair_history_command dry_run turn_active a =
     (if turn_active = Some True then Some (a, Repair_Reply None)
      else map_option (\<lambda>(a', report). (a', Repair_Reply (Some report))) (repair_history_of dry_run a))"

definition truncate_command :: "nat \<Rightarrow> chat_actor \<Rightarrow> (chat_actor \<times> chat_reply) option" where
  "truncate_command target a =
     map_option (\<lambda>a'. (upd (\<lambda>s. s\<lparr>cs_capture := None, cs_prompt_usage := None\<rparr>) a', Done_Reply))
       (truncate_to_prompt_index target a)"

definition answer_query :: "chat_state \<Rightarrow> chat_query \<Rightarrow> chat_reply option" where
  "answer_query s q =
     (let xs = cs_conversation s in
      case q of
        Get_Conversation \<Rightarrow> Some (Items_Reply xs)
      | Get_Prompt_Index \<Rightarrow> Some (Nat_Reply (cs_prompt_index s))
      | Get_Last_Compaction_Prompt_Index \<Rightarrow> Some (Opt_Nat_Reply (cs_last_compaction s))
      | Get_Total_Tokens \<Rightarrow> Some (Nat_Reply (cs_total_tokens s))
      | Get_Last_Turn_Usage \<Rightarrow> Some (Turn_Usage_Reply (cs_last_turn_usage s))
      | Get_Prompt_Usage \<Rightarrow> Some (Ledger_Reply (cs_prompt_usage s))
      | Get_Session_Usage \<Rightarrow> Some (Ledger_Reply (Some (cs_session_usage s)))
      | Get_Estimated_Total_Tokens \<Rightarrow> Some (Nat_Reply (cs_total_tokens s + cs_since_model s))
      | Get_Sampling_Config \<Rightarrow> Some (Config_Reply (cs_config s))
      | Get_Agent_Edited_Paths \<Rightarrow> Some (Paths_Reply (cs_edited_paths s))
      | Get_Notification_Meta \<Rightarrow> Some (Times_Reply (cs_stream_start s) (cs_turn_start s))
      | Take_Snapshot \<Rightarrow> Some (Snapshot_Reply (snapshot_of_chat s))
      | Check_Auto_Compact_Needed percent \<Rightarrow> Some (Compact_Reply (check_auto_compact_needed percent s))
      | Get_Credentials \<Rightarrow> Some (Credentials_Reply (cs_credentials s))
      | Get_Last_Model_Metadata \<Rightarrow> Some (Metadata_Reply (get_last_model_metadata xs))
      | Get_Conversation_Len \<Rightarrow> Some (Nat_Reply (length xs))
      | Has_Dangling_Tool_Calls \<Rightarrow> Some (Bool_Reply (has_dangling_tool_calls xs))
      | Get_Last_Assistant_Text \<Rightarrow> Some (Text_Reply (get_last_assistant_text xs))
      | Get_Last_Assistant_Text_In_Turn \<Rightarrow> Some (Text_Reply (get_last_assistant_text_in_turn xs))
      | Get_First_User_Text \<Rightarrow> Some (Text_Reply (get_first_user_text xs))
      | Get_Conversation_Item_At i \<Rightarrow> Some (Item_Reply (get_conversation_item_at i xs))
      | Get_Last_User_Query_Text \<Rightarrow> Some (Text_Reply (extract_last_user_query xs))
      | Get_Conversation_Counts \<Rightarrow> Some (Counts_Reply (get_conversation_counts xs))
      | Get_System_Message \<Rightarrow> Some (Item_Reply (get_system_message xs))
      | Get_Estimated_Messages_Tokens \<Rightarrow> map_option Nat_Reply (estimate_messages_tokens xs))"

definition acked :: "chat_reply \<Rightarrow> chat_actor option \<Rightarrow> (chat_actor \<times> chat_reply) option" where
  "acked r a = map_option (\<lambda>a'. (a', r)) a"

definition handle_chat_command :: "json_size \<Rightarrow> chat_command \<Rightarrow> chat_actor \<Rightarrow> (chat_actor \<times> chat_reply) option" where
  "handle_chat_command J c a =
     (case c of
        Push_User_Message x \<Rightarrow> acked No_Reply (push_user_message User_Cancelled x a)
      | Push_User_Message_And_Ack x \<Rightarrow> acked Done_Reply (push_user_message User_Cancelled x a)
      | Append_Working_Directory_Switch fault s g \<Rightarrow>
          map_option (apsnd Switch_Reply) (append_working_directory_switch fault s g a)
      | Push_User_Message_With_Repair_Reason x reason \<Rightarrow> acked No_Reply (push_user_message reason x a)
      | Push_Assistant_Response x \<Rightarrow> acked No_Reply (push_message x a)
      | Push_Tool_Result x \<Rightarrow> acked No_Reply (push_message x a)
      | Record_Token_Usage n \<Rightarrow> acked No_Reply (record_token_usage n a)
      | Record_Last_Turn_Usage t \<Rightarrow> acked No_Reply (Some (upd (\<lambda>s. s\<lparr>cs_last_turn_usage := Some t\<rparr>) a))
      | Record_Model_Call_Usage i t d cost \<Rightarrow> acked No_Reply (Some (upd (record_model_call_usage i t d cost) a))
      | Record_Subagent_Usage by_model attribute incomplete \<Rightarrow>
          acked Done_Reply (Some (upd (record_subagent_usage by_model attribute incomplete) a))
      | Mark_Usage_Incomplete prompt session \<Rightarrow>
          acked Done_Reply (Some (upd (mark_usage_incomplete prompt session) a))
      | Increment_Prompt_Index \<Rightarrow> acked No_Reply (Some (increment_prompt_index a))
      | Update_Sampling_Config config \<Rightarrow> acked No_Reply (Some (upd (\<lambda>s. s\<lparr>cs_config := config\<rparr>) a))
      | Record_Agent_Edited_Path p \<Rightarrow>
          acked No_Reply (Some (upd (\<lambda>s. s\<lparr>cs_edited_paths := insert p (cs_edited_paths s)\<rparr>) a))
      | Record_Stream_Start t \<Rightarrow> acked No_Reply (Some (upd (\<lambda>s. s\<lparr>cs_stream_start := Some t\<rparr>) a))
      | Record_Turn_Start t \<Rightarrow> acked No_Reply (Some (upd (\<lambda>s. s\<lparr>cs_turn_start := Some t\<rparr>) a))
      | Replace_Conversation items is_compaction \<Rightarrow> acked No_Reply (replace_conversation items is_compaction a)
      | Repair_History dry_run turn_active \<Rightarrow> repair_history_command dry_run turn_active a
      | Replace_System_Head prompt \<Rightarrow> map_option (apsnd Bool_Reply) (replace_system_head prompt a)
      | Cache_Prompt_Text s' \<Rightarrow> acked No_Reply (Some (upd (\<lambda>s. s\<lparr>cs_prompt_texts := cs_prompt_texts s @ [s']\<rparr>) a))
      | Record_Compaction_At i \<Rightarrow> acked No_Reply (Some (upd (\<lambda>s. s\<lparr>cs_last_compaction := Some i\<rparr>) a))
      | Flush_History \<Rightarrow> Some (a, No_Reply)
      | Update_Credentials x \<Rightarrow> acked No_Reply (Some (upd (\<lambda>s. s\<lparr>cs_credentials := x\<rparr>) a))
      | Restore_Snapshot snap \<Rightarrow> acked No_Reply (restore_snapshot_into snap a)
      | Begin_Turn_Capture \<Rightarrow> acked No_Reply (Some (begin_turn_capture a))
      | Append_Harness_Trace_Items items \<Rightarrow>
          acked No_Reply (Some (upd (\<lambda>s. s\<lparr>cs_trace_buffer := cs_trace_buffer s @ items\<rparr>) a))
      | Flush_Harness_Trace_Turn \<Rightarrow> acked No_Reply (Some (upd seal_harness_trace_turn a))
      | Repair_Dangling_After_Harness_Halt reason \<Rightarrow>
          acked No_Reply (Some (ensure_conversation_integrity (Harness_Halted reason) a))
      | Build_Conversation_Request reminder persist conv_id req_id \<Rightarrow>
          Some (apsnd Request_Reply (build_conversation_request J reminder persist conv_id req_id
            (ensure_conversation_integrity User_Cancelled a)))
      | Truncate_To_Prompt_Index target \<Rightarrow> truncate_command target a
      | Take_Turn_Messages \<Rightarrow> Some (take_turn_messages a)
      | Take_Harness_Trace_Turns \<Rightarrow> Some (take_harness_trace_turns a)
      | Chat_Query q \<Rightarrow> map_option (Pair a) (answer_query (ca_state a) q))"

text \<open>A queue of commands; \<open>None\<close> when one of them panics.\<close>

fun handle_chat_commands :: "json_size \<Rightarrow> chat_command list \<Rightarrow> chat_actor \<Rightarrow> chat_actor option" where
  "handle_chat_commands J [] a = Some a"
| "handle_chat_commands J (c # cs) a =
     (case handle_chat_command J c a of None \<Rightarrow> None | Some (a', _) \<Rightarrow> handle_chat_commands J cs a')"

end
