(* ===== verification/Chat_Repair_Properties.thy ===== *)
theory Chat_Repair_Properties
  imports Chat_Repair
begin

text \<open>
  What \<open>repair_history\<close> achieves: each block of results holds, for the calls of the assistant before it,
  the last result of each and a synthetic one where there was none.
\<close>

section \<open>Block by block\<close>

definition ids_of :: "chat_call list \<Rightarrow> ustr set" where
  "ids_of calls = set (map cc_id calls)"

definition answers :: "chat_call list \<Rightarrow> conversation_item \<Rightarrow> bool" where
  "answers calls x \<longleftrightarrow> set_option (result_id x) \<inter> ids_of calls \<noteq> {}"

definition repaired_block :: "chat_call list \<Rightarrow> conversation_item list \<Rightarrow> conversation_item list" where
  "repaired_block calls res =
     (let kept = filter (answers calls) (keep_last res)
      in kept @ synthetic_results (Harness_Halted (u ''history_repair'')) calls kept)"

function repaired :: "conversation_item list \<Rightarrow> conversation_item list" where
  "repaired [] = []"
| "repaired (x # xs) =
     (if is_result x then repaired xs
      else if calls_of x = [] then x # repaired xs
      else x # repaired_block (calls_of x) (takeWhile is_result xs) @ repaired (dropWhile is_result xs))"
  by pat_completeness auto
termination
  by (relation "measure length") (auto simp: length_dropWhile_le le_imp_less_Suc)

lemma result_no_calls: "is_result x \<Longrightarrow> calls_of x = []"
  by (cases x) auto

lemma strip_block:
  "list_all is_result res \<Longrightarrow> fst (strip_displaced_tool_results (ids_of calls) (res @ rest)) =
     filter (answers calls) res @ fst (strip_displaced_tool_results (ids_of calls) rest)"
proof (induction res)
  case (Cons x res)
  then obtain r where "x = Result_Item r" by (cases x) auto
  then show ?case using Cons by (auto simp: answers_def)
qed simp

lemma strip_at_end: "block_end xs \<Longrightarrow> strip_displaced_tool_results ids xs = strip_displaced_tool_results {} xs"
proof (cases xs)
  case (Cons x xs')
  then show "block_end xs \<Longrightarrow> ?thesis" by (cases x) (auto simp: block_end_def)
qed simp

lemma strip_call:
  "\<not> is_result x \<Longrightarrow> strip_displaced_tool_results ids (x # xs) =
     apfst ((#) x) (strip_displaced_tool_results (ids_of (calls_of x)) xs)"
  by (cases x) (auto simp: ids_of_def)

lemma block_end_strip: "block_end (fst (strip_displaced_tool_results {} xs))"
proof (induction xs)
  case (Cons x xs)
  show ?case
  proof (cases "is_result x")
    case True
    then show ?thesis using Cons by (cases x) auto
  next
    case False
    then show ?thesis by (simp add: strip_call block_end_def)
  qed
qed (simp add: block_end_def)

lemma ids_of_Nil [simp]: "ids_of [] = {}"
  by (simp add: ids_of_def)

lemma passes_are_repaired:
  "filled (Harness_Halted (u ''history_repair'')) (fst (strip_displaced_tool_results {} (deduped xs))) = repaired xs"
proof (induction xs rule: repaired.induct)
  case (2 x xs)
  let ?res = "takeWhile is_result xs" and ?rest = "dropWhile is_result xs"
  let ?fill = "filled (Harness_Halted (u ''history_repair''))"
  show ?case
  proof (cases "is_result x")
    case True
    moreover obtain r where "x = Result_Item r" using True by (cases x) auto
    ultimately show ?thesis using 2(1) by simp
  next
    case plain: False
    show ?thesis
    proof (cases "calls_of x = []")
      case True
      then show ?thesis using 2(2) plain by (simp add: strip_call)
    next
      case False
      let ?kept = "filter (answers (calls_of x)) (keep_last ?res)"
      let ?S = "fst (strip_displaced_tool_results {} (deduped ?rest))"
      have "fst (strip_displaced_tool_results {} (deduped (x # xs))) = x # ?kept @ ?S"
        using False plain strip_at_end[OF block_end_deduped[OF block_end_dropWhile[of xs]], of "ids_of (calls_of x)"]
        by (simp add: strip_call strip_block results_keep_last)
      moreover have "list_all is_result ?kept"
        using results_keep_last[OF results_takeWhile, of xs] by (auto simp: list_all_iff)
      ultimately show ?thesis using False plain 2(3) block_end_strip[of "deduped ?rest"]
        by (simp add: takeWhile_block dropWhile_block repaired_block_def Let_def)
    qed
  qed
qed simp

lemma repair_is_repaired: "fst (repair_history xs) = repaired xs"
proof -
  obtain ys d where ys: "dedup_duplicate_tool_results xs = (ys, d)" by fastforce
  obtain zs s where zs: "strip_displaced_tool_results {} ys = (zs, s)" by fastforce
  have "ys = deduped xs" using dedup_is_deduped[of xs] ys by simp
  then show ?thesis
    using ys zs passes_are_repaired[of xs] repair_is_filled[of "Harness_Halted (u ''history_repair'')" zs]
    by (auto simp: repair_history_def prod_eq_iff split: prod.split)
qed

section \<open>Paired conversations\<close>

definition result_ids :: "conversation_item list \<Rightarrow> ustr list" where
  "result_ids res = List.map_filter result_id res"

text \<open>Every call is answered once, directly behind its assistant, and nothing else is a result.\<close>

function paired :: "conversation_item list \<Rightarrow> bool" where
  "paired [] = True"
| "paired (x # xs) =
     (if is_result x then False
      else if calls_of x = [] then paired xs
      else mset (result_ids (takeWhile is_result xs)) = mset (map cc_id (calls_of x)) \<and>
        paired (dropWhile is_result xs))"
  by pat_completeness auto
termination
  by (relation "measure length") (auto simp: length_dropWhile_le le_imp_less_Suc)

definition distinct_calls :: "conversation_item list \<Rightarrow> bool" where
  "distinct_calls xs \<longleftrightarrow> list_all (\<lambda>x. distinct (map cc_id (calls_of x))) xs"

lemma result_ids_simps [simp]:
  "result_ids [] = []"
  "result_ids (x # xs) = (case result_id x of None \<Rightarrow> [] | Some k \<Rightarrow> [k]) @ result_ids xs"
  "result_ids (xs @ ys) = result_ids xs @ result_ids ys"
  by (auto simp: result_ids_def List.map_filter_def split: option.split)

lemma set_result_ids: "set (result_ids xs) = answered_ids xs"
  by (simp add: result_ids_def answered_ids_def)

lemma answered_all: "mset (result_ids res) = mset (map cc_id calls) \<Longrightarrow> answered_ids res = ids_of calls"
  by (metis set_result_ids ids_of_def set_mset_mset)

lemma distinct_keep_last: "distinct (result_ids (keep_last xs))"
proof (induction xs)
  case (Cons x xs)
  then show ?case by (cases "result_id x") (simp_all add: set_result_ids)
qed simp

lemma result_ids_filter: "result_ids (filter (answers calls) xs) = filter (\<lambda>k. k \<in> ids_of calls) (result_ids xs)"
proof (induction xs)
  case (Cons x xs)
  then show ?case by (cases "result_id x") (simp_all add: answers_def)
qed simp

lemma result_ids_synthetic: "result_ids (synthetic_results reason calls res) =
    filter (\<lambda>k. k \<notin> answered_ids res) (map cc_id calls)"
  unfolding synthetic_results_def by (induction calls) (auto simp: tool_result_def)

lemma results_synthetic [simp]: "list_all is_result (synthetic_results reason calls res)"
  by (auto simp: synthetic_results_def list_all_iff tool_result_def)

lemma results_block: "list_all is_result res \<Longrightarrow> list_all is_result (repaired_block calls res)"
  using set_keep_last[of res] results_synthetic by (auto simp: repaired_block_def Let_def list_all_iff)

lemma ids_block:
  assumes "distinct (map cc_id calls)"
  shows "mset (result_ids (repaired_block calls res)) = mset (map cc_id calls)"
proof -
  let ?kept = "filter (answers calls) (keep_last res)"
  have kept: "result_ids ?kept = filter (\<lambda>k. k \<in> ids_of calls) (result_ids (keep_last res))"
    by (rule result_ids_filter)
  then have "distinct (result_ids ?kept)" using distinct_keep_last by simp
  then have "distinct (result_ids (repaired_block calls res))"
    using assms by (auto simp: repaired_block_def Let_def result_ids_synthetic set_result_ids)
  moreover have "set (result_ids (repaired_block calls res)) = set (map cc_id calls)"
    using arg_cong[OF kept, of set]
    by (auto simp: repaired_block_def Let_def result_ids_synthetic set_result_ids ids_of_def)
  ultimately show ?thesis using assms set_eq_iff_mset_eq_distinct by metis
qed

lemma block_end_repaired: "block_end (repaired xs)"
  by (induction xs rule: repaired.induct) (auto simp: block_end_def)

lemma repaired_is_paired: "distinct_calls xs \<Longrightarrow> paired (repaired xs)"
proof (induction xs rule: repaired.induct)
  case (2 x xs)
  have "distinct_calls (dropWhile is_result xs)"
    using 2(4) set_dropWhileD by (fastforce simp: distinct_calls_def list_all_iff)
  then show ?case using 2 block_end_repaired
    by (auto simp: takeWhile_block dropWhile_block results_block ids_block distinct_calls_def)
qed simp

lemma other_items_kept: "filter (\<lambda>x. \<not> is_result x) (repaired xs) = filter (\<lambda>x. \<not> is_result x) xs"
proof (induction xs rule: repaired.induct)
  case (2 x xs)
  have "filter (\<lambda>x. \<not> is_result x) (repaired_block calls (takeWhile is_result xs)) = []" for calls
    using results_block[OF results_takeWhile, of calls xs] by (auto simp: filter_empty_conv list_all_iff)
  moreover have "filter (\<lambda>x. \<not> is_result x) (dropWhile is_result xs) = filter (\<lambda>x. \<not> is_result x) xs"
    by (induction xs) auto
  ultimately show ?case using 2 by simp
qed simp

lemma distinct_calls_filter: "distinct_calls xs \<longleftrightarrow> distinct_calls (filter (\<lambda>x. \<not> is_result x) xs)"
  using result_no_calls by (fastforce simp: distinct_calls_def list_all_iff)

section \<open>Nothing to repair\<close>

lemma distinct_keep_all: "distinct (result_ids xs) \<Longrightarrow> keep_last xs = xs"
proof (induction xs)
  case (Cons x xs)
  then show ?case by (cases "result_id x") (simp_all add: set_result_ids)
qed simp

lemma paired_deduped: "paired xs \<Longrightarrow> distinct_calls xs \<Longrightarrow> deduped xs = xs"
proof (induction xs rule: paired.induct)
  case (2 x xs)
  have rest: "distinct_calls (dropWhile is_result xs)"
    using 2(4) set_dropWhileD by (fastforce simp: distinct_calls_def list_all_iff)
  show ?case
  proof (cases "calls_of x = []")
    case True
    then show ?thesis using 2 by (auto simp: distinct_calls_def split: if_splits)
  next
    case False
    then have "mset (result_ids (takeWhile is_result xs)) = mset (map cc_id (calls_of x))"
      using 2(3) by (auto split: if_splits)
    moreover have "distinct (map cc_id (calls_of x))" using 2(4) by (simp add: distinct_calls_def)
    ultimately have "distinct (result_ids (takeWhile is_result xs))" by (metis mset_eq_imp_distinct_iff)
    then show ?thesis using False 2 rest by (auto simp: distinct_keep_all split: if_splits)
  qed
qed simp

lemma strip_all_answered:
  "list_all is_result res \<Longrightarrow> answered_ids res \<subseteq> ids_of calls \<Longrightarrow>
     strip_displaced_tool_results (ids_of calls) (res @ rest) =
     apfst ((@) res) (strip_displaced_tool_results (ids_of calls) rest)"
proof (induction res)
  case Nil
  then show ?case by (simp add: apfst_def map_prod_def)
next
  case (Cons x res)
  then obtain r where "x = Result_Item r" by (cases x) auto
  then show ?case using Cons by (simp add: apfst_compose[symmetric] prod_eq_iff)
qed

lemma paired_stripped: "paired xs \<Longrightarrow> strip_displaced_tool_results {} xs = (xs, [])"
proof (induction xs rule: paired.induct)
  case (2 x xs)
  let ?res = "takeWhile is_result xs" and ?rest = "dropWhile is_result xs"
  have plain: "\<not> is_result x" using 2(3) by (auto split: if_splits)
  show ?case
  proof (cases "calls_of x = []")
    case True
    then show ?thesis using 2(1,3) plain by (simp add: strip_call)
  next
    case False
    then have "mset (result_ids ?res) = mset (map cc_id (calls_of x))" "paired ?rest"
      using 2(3) by (auto split: if_splits)
    then have "answered_ids ?res \<subseteq> ids_of (calls_of x)" "strip_displaced_tool_results {} ?rest = (?rest, [])"
      using 2(2)[OF plain False] answered_all by blast+
    then show ?thesis using plain strip_all_answered[of ?res "calls_of x" ?rest]
        strip_at_end[OF block_end_dropWhile, of "ids_of (calls_of x)" xs]
      by (simp add: strip_call)
  qed
qed simp

lemma paired_answered: "paired xs \<Longrightarrow> \<not> has_dangling_tool_calls xs"
proof (induction xs rule: paired.induct)
  case (2 x xs)
  show ?case
  proof (cases "calls_of x = []")
    case True
    then show ?thesis using 2 by (simp split: if_splits)
  next
    case False
    then show ?thesis using 2 answered_all[of "takeWhile is_result xs" "calls_of x"]
      by (auto simp: ids_of_def split: if_splits)
  qed
qed simp

definition nothing_repaired :: repair_report where
  "nothing_repaired = \<lparr>rr_duplicates = 0, rr_stripped = [], rr_inserted = 0\<rparr>"

lemma paired_untouched: "paired xs \<Longrightarrow> distinct_calls xs \<Longrightarrow> repair_history xs = (xs, nothing_repaired)"
  by (simp add: repair_history_def paired_deduped no_dedup paired_stripped no_dangling_repair
      paired_answered nothing_repaired_def)

section \<open>The properties\<close>


definition demo_chat_call :: "nat \<Rightarrow> chat_call" where
  "demo_chat_call i = \<lparr>cc_id = [i], cc_name = u ''read_file'', cc_arguments = u ''{}''\<rparr>"

definition demo_assistant :: "chat_call list \<Rightarrow> conversation_item" where
  "demo_assistant calls = Assistant_Item \<lparr>ai_content = [], ai_calls = calls, ai_model_id = None,
     ai_fingerprint = None, ai_effort = None\<rparr>"

text \<open>A history with an unanswered call, a call answered twice and a result that answers nothing.\<close>

definition broken_history :: "conversation_item list" where
  "broken_history = [demo_assistant [demo_chat_call 1, demo_chat_call 2], tool_result [1] (u ''a''), tool_result [1] (u ''b''),
     user_text_item None None (u ''hi''), tool_result [3] (u ''c'')]"


lemma repaired_append: "\<not> is_result y \<Longrightarrow> repaired (xs @ y # zs) = repaired xs @ repaired (y # zs)"
proof (induction xs rule: repaired.induct)
  case (2 x xs)
  have "takeWhile is_result (xs @ y # zs) = takeWhile is_result xs"
    "dropWhile is_result (xs @ y # zs) = dropWhile is_result xs @ y # zs"
    using 2(4) by (induction xs) auto
  then show ?case using 2 by auto
qed simp

lemma in_keep_last:
  "i < length xs \<Longrightarrow> set_option (result_id (xs ! i)) \<inter> answered_ids (drop (Suc i) xs) = {} \<Longrightarrow> xs ! i \<in> set (keep_last xs)"
proof (induction xs arbitrary: i)
  case (Cons x xs)
  then show ?case by (cases i) (auto split: if_splits)
qed simp



lemma duplicates_reported: "rr_duplicates (snd (repair_history xs)) = snd (dedup_duplicate_tool_results xs)"
  by (simp add: repair_history_def split: prod.split)

text \<open>With one id on two unanswered calls the repair is not idempotent, against its documentation: it
  adds two results with one id, and the next repair takes one of them for a duplicate.\<close>

lemma repair_is_not_idempotent:
  "let xs = [demo_assistant [demo_chat_call 1, demo_chat_call 1]]; ys = fst (repair_history xs) in
    length ys = 3 \<and> length (fst (repair_history ys)) = 2 \<and> report_changed (snd (repair_history ys))"
proof -
  let ?t = "tool_result [1] (synthetic_dangling_result_text (u ''read_file'') (Harness_Halted (u ''history_repair'')))"
  let ?a = "demo_assistant [demo_chat_call 1, demo_chat_call 1]"
  have ys: "fst (repair_history [?a]) = [?a, ?t, ?t]"
    by (simp add: repair_is_repaired repaired_block_def demo_assistant_def demo_chat_call_def synthetic_results_def tool_result_def)
  have zs: "fst (repair_history [?a, ?t, ?t]) = [?a, ?t]"
    by (simp add: repair_is_repaired repaired_block_def demo_assistant_def demo_chat_call_def synthetic_results_def
        tool_result_def answers_def ids_of_def)
  have "snd (dedup_duplicate_tool_results [?a, ?t, ?t]) = 1"
    by (simp add: demo_assistant_def demo_chat_call_def tool_result_def remove_all_at_def remove_at_def Let_def)
  then have "report_changed (snd (repair_history [?a, ?t, ?t]))"
    by (simp add: report_changed_def duplicates_reported del: dedup_duplicate_tool_results.simps)
  then show ?thesis using ys zs by (simp add: Let_def)
qed

end
