(* ===== verification/Chat_Properties.thy ===== *)
theory Chat_Properties
  imports Chat_Actor Chat_Repair_Properties
begin

text \<open>
  What the chat actor's operations do to the conversation, to the history file and to a turn capture:
  one lemma per operation, collected in \<open>shape\<close>, and the passes of a request, which change no id of a call or
  a result.
\<close>

section \<open>Fields\<close>

abbreviation capture :: "chat_actor \<Rightarrow> turn_capture_state option" where
  "capture a \<equiv> cs_capture (ca_state a)"

definition captured :: "chat_actor \<Rightarrow> conversation_item list option" where
  "captured a = map_option fst (captured_messages (ca_state a))"

text \<open>The start of a capture is inside the conversation.\<close>

definition capture_ok :: "chat_actor \<Rightarrow> bool" where
  "capture_ok a \<longleftrightarrow> (\<forall>cap. capture a = Some cap \<longrightarrow> tc_start cap \<le> length (conversation a))"

definition mirrored :: "chat_actor \<Rightarrow> bool" where
  "mirrored a \<longleftrightarrow> ca_history a = conversation a"

text \<open>What an operation that appends \<open>new\<close> items does to the capture.\<close>

definition extends_capture :: "conversation_item list \<Rightarrow> chat_actor \<Rightarrow> chat_actor \<Rightarrow> bool" where
  "extends_capture new a a' \<longleftrightarrow>
     (capture_ok a \<longrightarrow> capture_ok a' \<and> captured a' = map_option (\<lambda>xs. xs @ new) (captured a))"

lemma extends_captureI:
  assumes "\<And>cap. capture a = Some cap \<Longrightarrow> tc_start cap \<le> length (conversation a) \<Longrightarrow>
      \<exists>cap'. capture a' = Some cap' \<and> tc_start cap' \<le> length (conversation a') \<and>
        tc_saved cap' @ drop (tc_start cap') (conversation a') = tc_saved cap @ drop (tc_start cap) (conversation a) @ new"
    "capture a = None \<Longrightarrow> capture a' = None"
  shows "extends_capture new a a'"
proof (cases "capture a")
  case None
  then show ?thesis using assms(2) by (simp add: extends_capture_def capture_ok_def captured_def captured_messages_def)
next
  case (Some cap)
  show ?thesis unfolding extends_capture_def
  proof
    assume "capture_ok a"
    then have bound: "tc_start cap \<le> length (conversation a)" using Some by (simp add: capture_ok_def)
    then show "capture_ok a' \<and> captured a' = map_option (\<lambda>xs. xs @ new) (captured a)"
      using assms(1)[OF Some bound] Some
      by (auto simp: capture_ok_def captured_def captured_messages_def turn_tail_def conversation_def)
  qed
qed

lemma extends_trans:
  "extends_capture xs a b \<Longrightarrow> extends_capture ys b c \<Longrightarrow> extends_capture (xs @ ys) a c"
  by (cases "captured a") (auto simp: extends_capture_def)

lemma extends_none: "conversation a' = conversation a \<Longrightarrow> capture a' = capture a \<Longrightarrow> extends_capture [] a a'"
  by (rule extends_captureI) auto

text \<open>The operations that replace the conversation save the tail first and move the start to the end.\<close>

lemma extends_rebased:
  assumes "capture a' = map_option (\<lambda>cap. \<lparr>tc_start = length (conversation a'),
      tc_saved = tc_saved cap @ turn_tail (conversation a) (tc_start cap), tc_compacted = b cap\<rparr>) (capture a)"
  shows "extends_capture [] a a'"
  using assms by (intro extends_captureI) (auto simp: turn_tail_def)

lemma upd_simps [simp]:
  "ca_state (upd f a) = f (ca_state a)" "ca_history (upd f a) = ca_history a" "ca_pruning (upd f a) = ca_pruning a"
  by (simp_all add: upd_def)

lemma emit_simps [simp]:
  "ca_state (emit_chat e a) = ca_state a" "ca_history (emit_chat e a) = ca_history a"
  by (simp_all add: emit_chat_def)

lemma snapshot_shape [shape]:
  "conversation (snapshot_turn_slice a) = conversation a"
  "ca_history (snapshot_turn_slice a) = ca_history a"
  "ca_pruning (snapshot_turn_slice a) = ca_pruning a"
  "capture (snapshot_turn_slice a) =
     map_option (\<lambda>cap. cap\<lparr>tc_saved := tc_saved cap @ turn_tail (conversation a) (tc_start cap)\<rparr>) (capture a)"
  by (auto simp: snapshot_turn_slice_def conversation_def split: option.splits)

lemma rebase_shape [shape]:
  "conversation (rebase_turn_capture_offset a) = conversation a"
  "ca_history (rebase_turn_capture_offset a) = ca_history a"
  "capture (rebase_turn_capture_offset a) = map_option (\<lambda>cap. cap\<lparr>tc_start := length (conversation a)\<rparr>) (capture a)"
  by (auto simp: rebase_turn_capture_offset_def conversation_def split: option.splits)

lemma set_conversation_shape [shape]:
  "conversation (set_conversation xs a) = xs" "ca_history (set_conversation xs a) = ca_history a"
  "capture (set_conversation xs a) = capture a" "ca_pruning (set_conversation xs a) = ca_pruning a"
  by (simp_all add: set_conversation_def conversation_def)

lemma replace_history_shape [shape]:
  "conversation (replace_history xs a) = conversation a" "ca_history (replace_history xs a) = xs"
  "ca_state (replace_history xs a) = ca_state a"
  by (simp_all add: replace_history_def conversation_def)

lemma mark_compacted_shape [shape]:
  "conversation (mark_compacted a) = conversation a" "ca_history (mark_compacted a) = ca_history a"
  "capture (mark_compacted a) = map_option (\<lambda>c. c\<lparr>tc_compacted := True\<rparr>) (capture a)"
  by (simp_all add: mark_compacted_def conversation_def)

lemma cap_eq: "(cap :: turn_capture_state) = \<lparr>tc_start = tc_start cap, tc_saved = tc_saved cap, tc_compacted = tc_compacted cap\<rparr>"
  by simp

section \<open>Operations\<close>

lemma replace_effect:
  assumes "replace_conversation items b a = Some a'"
  shows "conversation a' = items" "ca_history a' = items" "extends_capture [] a a'"
proof -
  let ?a3 = "replace_history items (if b then mark_compacted (snapshot_turn_slice a) else snapshot_turn_slice a)"
  obtain base tokens where a': "a' = emit_chat (Tokens_Updated tokens) (emit_chat (Conversation_Reset (length items))
      (rebase_turn_capture_offset (upd (\<lambda>s. s\<lparr>cs_conversation := items, cs_since_model := 0, cs_total_tokens := tokens,
         cs_at_last_response := base\<rparr>) ?a3)))"
    using assms by (auto simp: replace_conversation_def Let_def split: option.splits)
  have conv: "conversation (emit_chat e x) = conversation x" for e x by (simp add: conversation_def)
  show "conversation a' = items" "ca_history a' = items"
    by (simp_all add: a' conv shape) (simp add: conversation_def)
  then show "extends_capture [] a a'"
    by (intro extends_rebased[where b = "\<lambda>cap. b \<or> tc_compacted cap"])
      (cases "capture a"; simp add: a' shape; simp add: conversation_def)
qed

lemma integrity_effect:
  "conversation (ensure_conversation_integrity reason a) =
     fst (repair_dangling_tool_calls reason (fst (dedup_duplicate_tool_results (conversation a))))"
  "extends_capture [] a (ensure_conversation_integrity reason a)"
  "capture (ensure_conversation_integrity reason a) = map_option (\<lambda>cap. \<lparr>tc_start =
     length (conversation (ensure_conversation_integrity reason a)),
     tc_saved = tc_saved cap @ turn_tail (conversation a) (tc_start cap), tc_compacted = tc_compacted cap\<rparr>) (capture a)"
proof -
  let ?a = "ensure_conversation_integrity reason a"
  show conv: "conversation ?a = fst (repair_dangling_tool_calls reason (fst (dedup_duplicate_tool_results (conversation a))))"
    by (simp add: ensure_conversation_integrity_def Let_def shape split: prod.split)
  show cap: "capture ?a = map_option (\<lambda>cap. \<lparr>tc_start = length (conversation ?a),
     tc_saved = tc_saved cap @ turn_tail (conversation a) (tc_start cap), tc_compacted = tc_compacted cap\<rparr>) (capture a)"
    by (cases "capture a") (simp_all add: ensure_conversation_integrity_def Let_def shape split: prod.split)
  show "extends_capture [] a ?a"
    by (rule extends_rebased[OF cap])
qed

text \<open>Passes that count nothing change nothing, so the history file needs no rewrite.\<close>

lemma none_removed: "snd (dedup_duplicate_tool_results xs) = 0 \<Longrightarrow> fst (dedup_duplicate_tool_results xs) = xs"
proof (induction xs rule: dedup_duplicate_tool_results.induct)
  case (2 x xs)
  let ?res = "takeWhile is_result xs" and ?rest = "dropWhile is_result xs"
  note unfold = dedup_duplicate_tool_results.simps(2)[of x xs, unfolded Let_def]
  consider (other) "calls_of x = []" | (clean) "calls_of x \<noteq> []" "dup_positions [] 0 ?res = []"
    | (duplicates) "calls_of x \<noteq> []" "dup_positions [] 0 ?res \<noteq> []" by blast
  then show ?case
  proof cases
    case other
    then have "snd (dedup_duplicate_tool_results xs) = 0" using 2(4) unfold by simp
    then show ?thesis using 2(1)[OF other] other unfold by simp
  next
    case clean
    then have "snd (dedup_duplicate_tool_results ?rest) = 0" using 2(4) unfold by simp
    then show ?thesis using 2(2)[OF clean(1) refl refl refl clean(2)] clean unfold by simp
  next
    case duplicates
    then show ?thesis using 2(4) unfold by simp
  qed
qed simp

lemma none_inserted: "snd (repair_dangling_tool_calls reason xs) = 0 \<Longrightarrow> fst (repair_dangling_tool_calls reason xs) = xs"
  using inserted_iff_dangling[of reason xs] no_dangling_repair[of xs reason] by (cases "has_dangling_tool_calls xs") auto

lemma integrity_mirrored: "mirrored a \<Longrightarrow> mirrored (ensure_conversation_integrity reason a)"
proof -
  assume m: "mirrored a"
  let ?d = "dedup_duplicate_tool_results (conversation a)"
  let ?r = "repair_dangling_tool_calls reason (fst ?d)"
  have "ca_history (ensure_conversation_integrity reason a) = (if 0 < snd ?r \<or> 0 < snd ?d then fst ?r else ca_history a)"
    by (simp add: ensure_conversation_integrity_def Let_def shape split: prod.split)
  moreover have "fst ?r = conversation a" if "\<not> (0 < snd ?r \<or> 0 < snd ?d)"
    using that none_removed[of "conversation a"] none_inserted[of reason "fst ?d"] by simp
  ultimately show ?thesis using m by (auto simp: mirrored_def integrity_effect(1))
qed

lemma count_effect:
  assumes "count_tokens x a = Some a'"
  shows "conversation a' = conversation a" "ca_history a' = ca_history a" "capture a' = capture a"
    "ca_pruning a' = ca_pruning a"
  using assms by (auto simp: count_tokens_def conversation_def)

lemma append_persist_shape [shape]:
  "conversation (append_item x a) = conversation a @ [x]" "ca_history (append_item x a) = ca_history a"
  "capture (append_item x a) = capture a"
  "conversation (persist_message x a) = conversation a" "ca_history (persist_message x a) = ca_history a @ [x]"
  "capture (persist_message x a) = capture a"
  by (simp_all add: append_item_def persist_message_def set_conversation_def conversation_def)

lemma extends_append: "conversation a' = conversation a @ [x] \<Longrightarrow> capture a' = capture a \<Longrightarrow> extends_capture [x] a a'"
  by (rule extends_captureI) auto

lemma push_message_effect:
  assumes "push_message x a = Some a'"
  shows "conversation a' = conversation a @ [x]" "mirrored a \<Longrightarrow> mirrored a'" "extends_capture [x] a a'"
proof -
  obtain b where b: "a' = append_item x (persist_message x b)" "conversation b = conversation a"
      "ca_history b = ca_history a" "capture b = capture a"
    using assms count_effect[of x a] by (auto simp: push_message_def split: if_splits)
  show conv: "conversation a' = conversation a @ [x]" using b by (simp add: shape)
  show "mirrored a \<Longrightarrow> mirrored a'" using b by (simp add: mirrored_def shape)
  show "extends_capture [x] a a'" using b conv by (intro extends_append) (simp_all add: shape)
qed

text \<open>The walk from the back keeps the length, and a user item at the end.\<close>

lemma length_walk_back [simp]: "length (walk_back f age seen xs) = length xs"
  by (induction f age seen xs rule: walk_back.induct) auto

lemma walk_back_user: "is_user x \<Longrightarrow> \<exists>n. walk_back f age seen (x # xs) = x # walk_back f n True xs"
  by (cases x) auto

lemma prune_effect:
  assumes "conversation a = xs @ [x]" "is_user x"
  shows "\<exists>ys. conversation (prune_retained_conversation a) = ys @ [x] \<and> length ys = length xs"
    "capture (prune_retained_conversation a) = capture a"
proof -
  let ?w = "rev (walk_back (clear_result (effective_threshold a)) 0 False (rev (conversation a)))"
  obtain n where "?w = rev (walk_back (clear_result (effective_threshold a)) n True (rev xs)) @ [x]"
    using walk_back_user[OF assms(2), of "clear_result (effective_threshold a)" 0 False "rev xs"] assms(1) by auto
  moreover have "conversation (prune_retained_conversation a) \<in> {?w, conversation a}"
    by (simp add: prune_retained_conversation_def Let_def shape)
  ultimately show "\<exists>ys. conversation (prune_retained_conversation a) = ys @ [x] \<and> length ys = length xs"
    using assms(1) by fastforce
  show "capture (prune_retained_conversation a) = capture a"
    by (simp add: prune_retained_conversation_def Let_def shape)
qed

lemma prune_mirrored: "mirrored a \<Longrightarrow> mirrored (prune_retained_conversation a)"
  by (simp add: prune_retained_conversation_def Let_def shape mirrored_def)

lemma push_user_message_mirrored:
  assumes "push_user_message reason x a = Some a'" "mirrored a"
  shows "mirrored a'"
proof -
  let ?e = "ensure_conversation_integrity reason a"
  obtain b where b: "a' = prune_retained_conversation (append_item x (persist_message x b))"
      "conversation b = conversation ?e" "ca_history b = ca_history ?e"
    using assms(1) count_effect[of x ?e] by (auto simp: push_user_message_def)
  moreover have "mirrored (append_item x (persist_message x b))"
    using integrity_mirrored[OF assms(2), of reason] b by (simp add: mirrored_def shape)
  ultimately show ?thesis by (simp add: prune_mirrored)
qed

lemma push_user_message_effect:
  assumes "push_user_message reason x a = Some a'" "is_user x"
  shows "extends_capture [x] a a'"
    "\<exists>ys. conversation a' = ys @ [x] \<and> length ys = length (conversation (ensure_conversation_integrity reason a))"
proof -
  let ?e = "ensure_conversation_integrity reason a"
  obtain b where b: "a' = prune_retained_conversation (append_item x (persist_message x b))"
      "conversation b = conversation ?e" "ca_history b = ca_history ?e" "capture b = capture ?e"
    using assms(1) count_effect[of x ?e] by (auto simp: push_user_message_def)
  let ?p = "append_item x (persist_message x b)"
  have p: "conversation ?p = conversation ?e @ [x]" "ca_history ?p = ca_history ?e @ [x]" "capture ?p = capture ?e"
    using b by (simp_all add: shape)
  note pruned = prune_effect[OF p(1) assms(2)]
  obtain ys where ys: "conversation a' = ys @ [x]" "length ys = length (conversation ?e)" using pruned(1) b(1) by auto
  then show "\<exists>ys. conversation a' = ys @ [x] \<and> length ys = length (conversation ?e)" by blast
  have cap: "capture a' = capture ?e" using pruned(2) p(3) b(1) by simp
  show "extends_capture [x] a a'"
  proof (rule extends_captureI)
    fix c
    assume c: "capture a = Some c" "tc_start c \<le> length (conversation a)"
    then have "capture a' = Some \<lparr>tc_start = length (conversation ?e),
        tc_saved = tc_saved c @ turn_tail (conversation a) (tc_start c), tc_compacted = tc_compacted c\<rparr>"
      using cap integrity_effect(3)[of reason a] by simp
    then show "\<exists>cap'. capture a' = Some cap' \<and> tc_start cap' \<le> length (conversation a') \<and>
        tc_saved cap' @ drop (tc_start cap') (conversation a') = tc_saved c @ drop (tc_start c) (conversation a) @ [x]"
      using ys c(2) by (auto simp: turn_tail_def)
  next
    assume "capture a = None"
    then show "capture a' = None" using cap integrity_effect(3)[of reason a] by simp
  qed
qed

text \<open>A switch.\<close>

lemma replace_first_found: "List.find P xs = Some y \<Longrightarrow> replace_first P y xs = xs"
  by (induction xs) (auto split: if_splits)

lemma converge_new:
  assumes "converge_working_directory_switch g y a = Some a'"
    "find_cwd_switch_generation g (conversation a) = None"
  shows "conversation a' = conversation a @ [y]" "ca_history a' = ca_history a" "extends_capture [y] a a'"
proof -
  obtain b where b: "count_tokens y a = Some b" "a' = append_item y b"
    using assms by (auto simp: converge_working_directory_switch_def find_cwd_switch_generation_def Let_def)
  show conv: "conversation a' = conversation a @ [y]" "ca_history a' = ca_history a"
    using b count_effect[OF b(1)] by (simp_all add: shape)
  show "extends_capture [y] a a'"
    using conv b count_effect[OF b(1)] by (intro extends_append) (simp_all add: shape)
qed

lemma converge_same:
  assumes "converge_working_directory_switch g y a = Some a'"
    "find_cwd_switch_generation g (conversation a) = Some y"
  shows "conversation a' = conversation a" "ca_history a' = ca_history a"
  using assms replace_first_found[of "\<lambda>x. working_directory_switch_generation x = Some g" "conversation a" y]
  by (auto simp: converge_working_directory_switch_def find_cwd_switch_generation_def Let_def conversation_def
      split: option.splits)

text \<open>
  Properties of the chat actor: what a turn capture holds, that the history file follows the conversation,
  that a lost acknowledgement is made good, and that no request has an unanswered call.
\<close>

section \<open>Steps\<close>

text \<open>The commands under which a capture goes on: not those that start or end one, not a repair of the
  history, and a switch only of a generation that the conversation does not have.\<close>

definition capture_goes_on :: "chat_actor \<Rightarrow> chat_command \<Rightarrow> bool" where
  "capture_goes_on a c =
     (case c of
        Begin_Turn_Capture \<Rightarrow> False
      | Take_Turn_Messages \<Rightarrow> False
      | Truncate_To_Prompt_Index target \<Rightarrow> False
      | Repair_History dry_run turn_active \<Rightarrow> dry_run \<or> turn_active = Some True
      | Append_Working_Directory_Switch fault s g \<Rightarrow> find_cwd_switch_generation g (conversation a) = None
      | Push_User_Message x \<Rightarrow> is_user x
      | Push_User_Message_And_Ack x \<Rightarrow> is_user x
      | Push_User_Message_With_Repair_Reason x reason \<Rightarrow> is_user x
      | _ \<Rightarrow> True)"

definition pushed_by :: "chat_actor \<Rightarrow> chat_command \<Rightarrow> conversation_item list" where
  "pushed_by a c =
     (case c of
        Push_User_Message x \<Rightarrow> [x]
      | Push_User_Message_And_Ack x \<Rightarrow> [x]
      | Push_User_Message_With_Repair_Reason x reason \<Rightarrow> [x]
      | Push_Assistant_Response x \<Rightarrow> [x]
      | Push_Tool_Result x \<Rightarrow> [x]
      | Append_Working_Directory_Switch fault s g \<Rightarrow>
          (case authoritative_item (working_directory_switch s g)
             (snd (append_cwd_switch fault g (working_directory_switch s g) (ca_history a))) of
             None \<Rightarrow> [] | Some y \<Rightarrow> [y])
      | _ \<Rightarrow> [])"

lemma switch_effect:
  assumes "append_working_directory_switch fault s g a = Some (a', result)"
    "find_cwd_switch_generation g (conversation a) = None"
  shows "extends_capture (pushed_by a (Append_Working_Directory_Switch fault s g)) a a'"
proof -
  let ?x = "working_directory_switch s g"
  let ?a = "a\<lparr>ca_history := fst (append_cwd_switch fault g ?x (ca_history a))\<rparr>"
  have a: "conversation ?a = conversation a" "capture ?a = capture a" by (simp_all add: conversation_def)
  have start: "extends_capture [] a ?a" using a by (rule extends_none)
  show ?thesis
  proof (cases "authoritative_item ?x (snd (append_cwd_switch fault g ?x (ca_history a)))")
    case None
    then have "a' = ?a" using assms(1) by (auto simp: append_working_directory_switch_def Let_def split: prod.splits)
    then show ?thesis using start None by (simp add: pushed_by_def)
  next
    case (Some y)
    then have "converge_working_directory_switch g y ?a = Some a'"
      using assms(1) by (auto simp: append_working_directory_switch_def Let_def split: prod.splits)
    then have "extends_capture [y] ?a a'" using converge_new(3) assms(2) a(1) by metis
    then show ?thesis using extends_trans[OF start] Some by (fastforce simp: pushed_by_def)
  qed
qed

lemma restore_extends: "restore_snapshot_into snap a = Some a' \<Longrightarrow> extends_capture [] a a'"
  by (rule extends_rebased[where b = tc_compacted])
    (cases "capture a"; auto simp: restore_snapshot_into_def Let_def shape conversation_def
      rebase_turn_capture_offset_def set_conversation_def snapshot_turn_slice_def split: option.splits)

lemma head_effect:
  assumes "replace_system_head prompt a = Some (a', changed)"
  shows "extends_capture [] a a'" "mirrored a \<Longrightarrow> mirrored a'"
proof -
  have "a' = a \<or> (\<exists>xs. replace_conversation xs False a = Some a')"
    using assms by (auto simp: replace_system_head_def split: if_splits prod.splits)
  then show "extends_capture [] a a'" "mirrored a \<Longrightarrow> mirrored a'"
    using replace_effect by (auto simp: mirrored_def intro: extends_none)
qed

lemma persist_effect:
  "extends_capture [] a (fst (persist_reminder reminder persist a))"
  "mirrored a \<Longrightarrow> mirrored (fst (persist_reminder reminder persist a))"
proof -
  have same: "fst (inject_memory_reminder r xs) = xs" if "\<not> snd (inject_memory_reminder r xs)" for r xs
    using that by (auto simp: inject_memory_reminder_def Let_def split: list.splits conversation_item.splits if_splits)
  show "mirrored a \<Longrightarrow> mirrored (fst (persist_reminder reminder persist a))"
    using same by (auto simp: persist_reminder_def mirrored_def Let_def shape split: option.splits prod.splits)
      (metis fst_conv snd_conv)+
  show "extends_capture [] a (fst (persist_reminder reminder persist a))"
  proof (cases "reminder = None \<or> \<not> persist")
    case True
    then have "fst (persist_reminder reminder persist a) = a" by (auto simp: persist_reminder_def split: option.splits)
    then show ?thesis by (simp add: extends_none)
  next
    case False
    then show ?thesis
      by (intro extends_rebased[where b = tc_compacted])
        (cases "capture a"; auto simp: persist_reminder_def Let_def shape split: prod.splits)
  qed
qed

lemma build_effect:
  "extends_capture [] a (fst (build_conversation_request J reminder persist i j a))"
  "mirrored a \<Longrightarrow> mirrored (fst (build_conversation_request J reminder persist i j a))"
proof -
  let ?b = "fst (build_conversation_request J reminder persist i j a)" and ?p = "fst (persist_reminder reminder persist a)"
  have b: "conversation ?b = conversation ?p" "capture ?b = capture ?p" "ca_history ?b = ca_history ?p"
    by (simp_all add: build_conversation_request_def Let_def conversation_def split: prod.split)
  show "extends_capture [] a ?b"
    using extends_trans[OF persist_effect(1) extends_none[OF b(1,2)]] by simp
  show "mirrored a \<Longrightarrow> mirrored ?b" using persist_effect(2)[of a reminder persist] b by (simp add: mirrored_def)
qed

lemma seal_shape [simp]:
  "cs_conversation (seal_harness_trace_turn s) = cs_conversation s" "cs_capture (seal_harness_trace_turn s) = cs_capture s"
  by (simp_all add: seal_harness_trace_turn_def)

lemma usage_shape [simp]:
  "cs_conversation (record_model_call_usage i t d cost s) = cs_conversation s"
  "cs_capture (record_model_call_usage i t d cost s) = cs_capture s"
  "cs_conversation (record_subagent_usage by_model b1 b2 s) = cs_conversation s"
  "cs_capture (record_subagent_usage by_model b1 b2 s) = cs_capture s"
  "cs_conversation (mark_usage_incomplete b1 b2 s) = cs_conversation s"
  "cs_capture (mark_usage_incomplete b1 b2 s) = cs_capture s"
  by (simp_all add: record_model_call_usage_def record_subagent_usage_def mark_usage_incomplete_def Let_def)

section \<open>The captured turn\<close>

lemma trivially_extends:
  "map_option (Pair a) x = Some (a', reply) \<Longrightarrow> extends_capture [] a a'"
  by (auto intro: extends_none)

lemma upd_extends:
  "(\<And>s. cs_conversation (f s) = cs_conversation s \<and> cs_capture (f s) = cs_capture s) \<Longrightarrow> extends_capture [] a (upd f a)"
  by (rule extends_none) (simp_all add: conversation_def)

lemma record_extends: "record_token_usage n a = Some a' \<Longrightarrow> extends_capture [] a a'"
  by (auto simp: record_token_usage_def conversation_def intro!: extends_none)

lemma increment_extends: "extends_capture [] a (increment_prompt_index a)"
  by (rule extends_none) (simp_all add: increment_prompt_index_def Let_def conversation_def)

lemma repair_command_extends:
  "repair_history_command dry_run turn_active a = Some (a', r) \<Longrightarrow> dry_run \<or> turn_active = Some True \<Longrightarrow>
     extends_capture [] a a'"
  by (auto simp: repair_history_command_def repair_history_of_def split: if_splits prod.splits intro: extends_none)

lemma traces_extends: "take_harness_trace_turns a = (a', r) \<Longrightarrow> extends_capture [] a a'"
  by (rule extends_none) (auto simp add: take_harness_trace_turns_def Let_def conversation_def)

lemmas extends_facts = push_user_message_effect(1) push_message_effect(3) replace_effect(3) restore_extends record_extends

lemma step_extends:
  assumes "handle_chat_command J c a = Some (a', reply)" "capture_goes_on a c"
  shows "extends_capture (pushed_by a c) a a'"
proof (cases c)
  case (Append_Working_Directory_Switch fault s g)
  then show ?thesis using assms switch_effect[of fault s g a a']
    by (auto simp: handle_chat_command_def capture_goes_on_def)
next
  case (Repair_History dry_run turn_active)
  then show ?thesis using assms repair_command_extends[of dry_run turn_active a a']
    by (auto simp: handle_chat_command_def capture_goes_on_def pushed_by_def)
next
  case (Replace_System_Head prompt)
  then show ?thesis using assms head_effect(1)[of prompt a a']
    by (auto simp: handle_chat_command_def pushed_by_def)
next
  case (Build_Conversation_Request reminder persist i j)
  let ?e = "ensure_conversation_integrity User_Cancelled a"
  have "extends_capture ([] @ []) a (fst (build_conversation_request J reminder persist i j ?e))"
    by (rule extends_trans[OF integrity_effect(2) build_effect(1)])
  then show ?thesis using assms Build_Conversation_Request
    by (auto simp: handle_chat_command_def pushed_by_def apsnd_def map_prod_def split: prod.splits)
qed (use assms in \<open>auto simp: handle_chat_command_def capture_goes_on_def pushed_by_def acked_def apsnd_def
  intro: extends_facts integrity_effect(2) increment_extends traces_extends upd_extends extends_none\<close>)

text \<open>The items that a queue of commands pushes, and whether a capture goes on all along.\<close>

fun pushed_log :: "json_size \<Rightarrow> chat_command list \<Rightarrow> chat_actor \<Rightarrow> conversation_item list" where
  "pushed_log J [] a = []"
| "pushed_log J (c # cs) a =
     pushed_by a c @ (case handle_chat_command J c a of None \<Rightarrow> [] | Some (a', _) \<Rightarrow> pushed_log J cs a')"

fun capture_lasts :: "json_size \<Rightarrow> chat_command list \<Rightarrow> chat_actor \<Rightarrow> bool" where
  "capture_lasts J [] a = True"
| "capture_lasts J (c # cs) a \<longleftrightarrow>
     capture_goes_on a c \<and> (case handle_chat_command J c a of None \<Rightarrow> True | Some (a', _) \<Rightarrow> capture_lasts J cs a')"

lemma commands_extend:
  "handle_chat_commands J cs a = Some a' \<Longrightarrow> capture_lasts J cs a \<Longrightarrow> extends_capture (pushed_log J cs a) a a'"
proof (induction cs arbitrary: a)
  case Nil
  then show ?case by (simp add: extends_none)
next
  case (Cons c cs)
  then obtain b r where b: "handle_chat_command J c a = Some (b, r)" by (auto split: option.splits)
  have "extends_capture (pushed_by a c) a b" using step_extends[OF b] Cons.prems(2) by simp
  moreover have "extends_capture (pushed_log J cs b) b a'" using Cons b by simp
  ultimately show ?case using extends_trans b by fastforce
qed

text \<open>C13: A turn capture holds what was pushed since it began, in order, whatever compaction, repair of
  calls, pruning, restored snapshots or request building did to the conversation meanwhile.\<close>

theorem capture_holds_the_turn:
  assumes "handle_chat_commands J cs (begin_turn_capture a) = Some a'" "capture_lasts J cs (begin_turn_capture a)"
  shows "\<exists>compacted. snd (take_turn_messages a') =
    Capture_Reply (Some (pushed_log J cs (begin_turn_capture a), compacted))"
proof -
  let ?b = "begin_turn_capture a"
  have "capture_ok ?b" "captured ?b = Some []"
    by (simp_all add: begin_turn_capture_def capture_ok_def captured_def captured_messages_def turn_tail_def conversation_def)
  then have "captured a' = Some (pushed_log J cs ?b)"
    using commands_extend[OF assms] by (simp add: extends_capture_def)
  then show ?thesis by (auto simp: captured_def take_turn_messages_def)
qed

definition demo_config :: sampling_config where
  "demo_config = \<lparr>sc_model = u ''m'', sc_max_completion = None, sc_temperature = None, sc_top_p = None,
     sc_context_window = 1000, sc_effort = None\<rparr>"

definition demo_prompt :: "nat \<Rightarrow> conversation_item" where
  "demo_prompt i = set_prompt_index i (user_text_item None None (u ''hi''))"

definition demo_state :: "conversation_item list \<Rightarrow> chat_state" where
  "demo_state xs = \<lparr>cs_conversation = xs, cs_config = demo_config, cs_prompt_index = 0, cs_prompt_texts = [],
     cs_total_tokens = 0, cs_stream_start = None, cs_turn_start = None, cs_edited_paths = {},
     cs_last_compaction = None, cs_credentials = default_credentials, cs_since_model = 0,
     cs_at_last_response = 0, cs_last_turn_usage = None, cs_prompt_usage = None,
     cs_session_usage = default_ledger, cs_capture = None, cs_trace_buffer = [], cs_trace_turns = []\<rparr>"

definition demo_chat :: "conversation_item list \<Rightarrow> chat_actor" where
  "demo_chat xs = \<lparr>ca_state = demo_state xs, ca_pruning = default_pruning, ca_history = xs, ca_events = []\<rparr>"

definition demo_sizes :: json_size where
  "demo_sizes = \<lparr>js_items = \<lambda>xs. 0, js_part = \<lambda>p. 0\<rparr>"

text \<open>A turn in which the conversation is compacted between the prompt and the answer.\<close>

definition demo_turn :: "chat_command list" where
  "demo_turn = [Push_User_Message (demo_prompt 0), Replace_Conversation [System_Item []] True,
     Push_Assistant_Response (demo_assistant [])]"

lemmas demo_turn_defs = demo_turn_def demo_chat_def demo_state_def demo_prompt_def demo_assistant_def
  begin_turn_capture_def handle_chat_command_def acked_def push_user_message_def push_message_def
  ensure_conversation_integrity_def snapshot_turn_slice_def rebase_turn_capture_offset_def upd_def conversation_def
  set_conversation_def repair_dangling_tool_calls_def turn_tail_def user_text_item_def count_tokens_def
  persist_message_def append_item_def is_assistant_def prune_retained_conversation_def replace_conversation_def
  replace_history_def mark_compacted_def emit_chat_def estimate_conversation_tokens_def estimate_item_tokens_def
  default_pruning_def reseed_def estimate_tokens_def Let_def

theorem capture_holds_the_turn_witness:
  "\<exists>a'. handle_chat_commands demo_sizes demo_turn (begin_turn_capture (demo_chat [])) = Some a' \<and>
    conversation a' = [System_Item [], demo_assistant []] \<and>
    snd (take_turn_messages a') = Capture_Reply (Some ([demo_prompt 0, demo_assistant []], True))"
proof -
  let ?b = "begin_turn_capture (demo_chat [])"
  obtain a' where a': "handle_chat_commands demo_sizes demo_turn ?b = Some a'"
      "conversation a' = [System_Item [], demo_assistant []]" "tc_compacted (the (capture a'))"
    by (simp add: demo_turn_defs)
  moreover have "capture_lasts demo_sizes demo_turn ?b" "pushed_log demo_sizes demo_turn ?b = [demo_prompt 0, demo_assistant []]"
    by (simp_all add: demo_turn_defs capture_goes_on_def pushed_by_def)
  ultimately show ?thesis
    using capture_holds_the_turn[of demo_sizes demo_turn "demo_chat []" a']
    by (auto simp: take_turn_messages_def captured_messages_def)
qed

section \<open>The history file\<close>

text \<open>The commands after which the file still has the items of the conversation: not the restoring of a
  snapshot, and not a switch whose answer is lost after it was written.\<close>

fun file_follows :: "chat_command \<Rightarrow> bool" where
  "file_follows (Restore_Snapshot snap) = False"
| "file_follows (Append_Working_Directory_Switch fault s g) = (fault \<noteq> Lost_After_Write)"
| "file_follows _ = True"

lemma switch_generation: "working_directory_switch_generation (working_directory_switch s g) = Some g"
  by (simp add: working_directory_switch_def user_text_item_def)

lemma switch_mirrored:
  assumes "append_working_directory_switch fault s g a = Some (a', result)" "mirrored a" "fault \<noteq> Lost_After_Write"
  shows "mirrored a'"
proof -
  let ?x = "working_directory_switch s g" and ?found = "find_cwd_switch_generation g (conversation a)"
  have hist: "ca_history a = conversation a" using assms(2) by (simp add: mirrored_def)
  consider (unwritten) "fault \<in> {Fault_Before_Write, Lost_Before_Write}"
    | (written) "fault \<in> {No_Fault, Fault_After_Write}" using assms(3) by (cases fault) auto
  then show ?thesis
  proof cases
    case unwritten
    then show ?thesis using assms hist
      by (auto simp: append_working_directory_switch_def append_cwd_switch_def authoritative_item_def mirrored_def
          conversation_def Let_def)
  next
    case written
    let ?y = "case ?found of None \<Rightarrow> ?x | Some y \<Rightarrow> y"
    let ?a = "a\<lparr>ca_history := if ?found = None then conversation a @ [?x] else conversation a\<rparr>"
    have a: "conversation ?a = conversation a" by (simp add: conversation_def)
    have "converge_working_directory_switch g ?y ?a = Some a'"
      using written assms(1) hist
      by (cases ?found) (auto simp: append_working_directory_switch_def append_cwd_switch_def authoritative_item_def Let_def)
    then show ?thesis
      using converge_new[of g ?y ?a a'] converge_same[of g ?y ?a a'] a
      by (cases ?found) (auto simp: mirrored_def)
  qed
qed

lemma upd_mirrored: "(\<And>s. cs_conversation (f s) = cs_conversation s) \<Longrightarrow> mirrored a \<Longrightarrow> mirrored (upd f a)"
  by (simp add: mirrored_def conversation_def)

lemma record_mirrored: "record_token_usage n a = Some a' \<Longrightarrow> mirrored a \<Longrightarrow> mirrored a'"
  by (auto simp: record_token_usage_def conversation_def mirrored_def)

lemma replace_mirrored: "replace_conversation items b a = Some a' \<Longrightarrow> mirrored a'"
  using replace_effect by (auto simp: mirrored_def)

lemma repair_command_mirrored:
  assumes "repair_history_command dry_run turn_active a = Some (a', r)" "mirrored a"
  shows "mirrored a'"
proof -
  obtain xs report where xs: "repair_history (conversation a) = (xs, report)" by fastforce
  have "xs = conversation a" if "\<not> report_changed report"
  proof -
    obtain ys d where ys: "dedup_duplicate_tool_results (conversation a) = (ys, d)" by fastforce
    obtain zs st where zs: "strip_displaced_tool_results {} ys = (zs, st)" by fastforce
    obtain ws n where ws: "repair_dangling_tool_calls (Harness_Halted (u ''history_repair'')) zs = (ws, n)" by fastforce
    have "xs = ws" "d = 0" "st = []" "n = 0" using that xs by (auto simp: repair_history_def ys zs ws report_changed_def)
    moreover have "ys = conversation a" using none_removed[of "conversation a"] ys \<open>d = 0\<close> by simp
    moreover have "snd (strip_displaced_tool_results ids is) = [] \<Longrightarrow> fst (strip_displaced_tool_results ids is) = is" for ids "is"
      by (induction ids "is" rule: strip_displaced_tool_results.induct) (auto split: if_splits)
    then have "zs = ys" using zs \<open>st = []\<close> by (metis fst_conv snd_conv)
    ultimately show ?thesis using none_inserted[of "Harness_Halted (u ''history_repair'')" zs] ws by simp
  qed
  then show ?thesis using assms xs replace_mirrored
    by (auto simp: repair_history_command_def repair_history_of_def mirrored_def shape split: if_splits)
qed

lemma truncate_mirrored: "truncate_command target a = Some (a', r) \<Longrightarrow> mirrored a \<Longrightarrow> mirrored a'"
  by (auto simp: truncate_command_def truncate_to_prompt_index_def mirrored_def conversation_def replace_history_def
      Let_def split: if_splits)

lemma step_mirrored:
  assumes "handle_chat_command J c a = Some (a', reply)" "mirrored a" "file_follows c"
  shows "mirrored a'"
proof (cases c)
  case (Append_Working_Directory_Switch fault s g)
  then show ?thesis using assms switch_mirrored[of fault s g a a'] by (auto simp: handle_chat_command_def)
next
  case (Replace_System_Head prompt)
  then show ?thesis using assms head_effect(2)[of prompt a a'] by (auto simp: handle_chat_command_def)
next
  case (Build_Conversation_Request reminder persist i j)
  have "mirrored (fst (build_conversation_request J reminder persist i j (ensure_conversation_integrity User_Cancelled a)))"
    by (rule build_effect(2)[OF integrity_mirrored[OF assms(2)]])
  then show ?thesis using assms Build_Conversation_Request
    by (auto simp: handle_chat_command_def apsnd_def map_prod_def split: prod.splits)
next
  case Begin_Turn_Capture
  then show ?thesis using assms
    by (auto simp: handle_chat_command_def acked_def begin_turn_capture_def mirrored_def conversation_def)
next
  case Take_Turn_Messages
  then show ?thesis using assms
    by (auto simp: handle_chat_command_def take_turn_messages_def mirrored_def conversation_def)
next
  case Take_Harness_Trace_Turns
  then show ?thesis using assms
    by (auto simp: handle_chat_command_def take_harness_trace_turns_def mirrored_def conversation_def Let_def)
next
  case Increment_Prompt_Index
  then show ?thesis using assms
    by (auto simp: handle_chat_command_def acked_def increment_prompt_index_def mirrored_def conversation_def Let_def)
next
  case (Push_Assistant_Response x)
  then show ?thesis using assms push_message_effect(2) by (auto simp: handle_chat_command_def acked_def)
next
  case (Push_Tool_Result x)
  then show ?thesis using assms push_message_effect(2) by (auto simp: handle_chat_command_def acked_def)
next
  case (Repair_History dry_run turn_active)
  then show ?thesis using assms repair_command_mirrored by (auto simp: handle_chat_command_def)
next
  case (Truncate_To_Prompt_Index target)
  then show ?thesis using assms truncate_mirrored by (auto simp: handle_chat_command_def)
qed (use assms in \<open>auto simp: handle_chat_command_def acked_def
  intro: push_user_message_mirrored replace_mirrored record_mirrored integrity_mirrored upd_mirrored\<close>)

lemma new_chat_follows:
  assumes "new_chat_actor items config pruning = Some a" "paired items" "distinct_calls items"
  shows "ca_history a = conversation a"
  using assms(1) by (auto simp: new_chat_actor_def new_chat_state_def conversation_def paired_deduped[OF assms(2,3)] no_dedup
      no_dangling_repair[OF paired_answered[OF assms(2)]] Let_def)

text \<open>C14: When the history file has the items of the conversation, or the chat has just been created from a file
  in which every call has its result, the file has the items of the conversation after any commands, all of them
  written, but the restoring of a snapshot and a switch whose acknowledgement was lost. (A chat created
  from a file that needs repair starts with a repaired conversation and does not write it:
  \<open>new_chat_repairs_in_memory_only\<close>.)\<close>

theorem history_file_follows_the_conversation:
  assumes "handle_chat_commands J cs a = Some a'" "list_all file_follows cs"
    and "ca_history a = conversation a \<or>
      new_chat_actor items config pruning = Some a \<and> paired items \<and> distinct_calls items"
  shows "ca_history a' = conversation a'"
proof -
  have "mirrored a" using assms(3) new_chat_follows unfolding mirrored_def by blast
  with assms(1,2) have "mirrored a'"
  proof (induction cs arbitrary: a)
    case (Cons c cs)
    then show ?case using step_mirrored by (fastforce split: option.splits)
  qed simp
  then show ?thesis by (simp add: mirrored_def)
qed

theorem history_file_follows_the_conversation_witness:
  "\<exists>a'. handle_chat_commands demo_sizes demo_turn (demo_chat []) = Some a' \<and>
    ca_history a' = [System_Item [], demo_assistant []]"
proof -
  obtain a' where a': "handle_chat_commands demo_sizes demo_turn (demo_chat []) = Some a'"
      "conversation a' = [System_Item [], demo_assistant []]"
    by (simp add: demo_turn_defs)
  moreover have "list_all file_follows demo_turn" "ca_history (demo_chat []) = conversation (demo_chat [])"
    by (simp_all add: demo_turn_defs)
  ultimately show ?thesis using history_file_follows_the_conversation[of demo_sizes demo_turn "demo_chat []" a' "[]"] by auto
qed

lemma new_chat_repairs_in_memory_only:
  "\<exists>a. new_chat_actor [demo_assistant [demo_chat_call 1]] config pruning = Some a \<and>
     ca_history a = [demo_assistant [demo_chat_call 1]] \<and> length (conversation a) = 2"
proof -
  have "fst (repair_dangling_tool_calls User_Cancelled (fst (dedup_duplicate_tool_results [demo_assistant [demo_chat_call 1]]))) =
      [demo_assistant [demo_chat_call 1], tool_result [1] (synthetic_dangling_result_text (u ''read_file'') User_Cancelled)]"
    by (simp add: demo_assistant_def repair_dangling_tool_calls_def synthetic_results_def answered_ids_def
        demo_chat_call_def splice_in_def map_filter_def)
  then show ?thesis by (simp add: new_chat_actor_def new_chat_state_def conversation_def estimate_conversation_tokens_def
      estimate_item_tokens_def demo_assistant_def demo_chat_call_def tool_result_def Let_def)
qed

lemma find_later: "List.find P xs = None \<Longrightarrow> List.find P (xs @ ys) = List.find P ys"
  by (induction xs) (auto split: if_splits)

text \<open>C15: A switch that was written but whose answer was lost: the file is one item ahead until the caller tries
  again with the same generation, and then the conversation has what the first try wrote.\<close>

theorem lost_switch_is_made_good:
  assumes "ca_history a = conversation a" "find_cwd_switch_generation g (conversation a) = None"
    "handle_chat_commands J [Append_Working_Directory_Switch Lost_After_Write s g,
       Append_Working_Directory_Switch No_Fault s' g] a = Some a'"
  shows "ca_history a' = conversation a' \<and> conversation a' = conversation a @ [working_directory_switch s g]"
proof -
  let ?x = "working_directory_switch s g"
  have found: "find_cwd_switch_generation g (conversation a @ [?x]) = Some ?x"
    using assms(2) by (simp add: find_cwd_switch_generation_def switch_generation find_later)
  let ?a = "a\<lparr>ca_history := conversation a @ [?x]\<rparr>"
  have a: "conversation ?a = conversation a" by (simp add: conversation_def)
  have "converge_working_directory_switch g ?x ?a = Some a'"
    using assms found a by (auto simp: handle_chat_command_def append_working_directory_switch_def append_cwd_switch_def
        authoritative_item_def Let_def split: option.splits)
  then show ?thesis using converge_new[of g ?x ?a a'] assms(2) a by simp
qed

theorem lost_switch_is_made_good_witness:
  "\<exists>a'. handle_chat_commands demo_sizes [Append_Working_Directory_Switch Lost_After_Write (u ''a'') 1,
      Append_Working_Directory_Switch No_Fault (u ''b'') 1] (demo_chat []) = Some a' \<and>
    ca_history a' = [working_directory_switch (u ''a'') 1]"
proof -
  let ?cs = "[Append_Working_Directory_Switch Lost_After_Write (u ''a'') 1, Append_Working_Directory_Switch No_Fault (u ''b'') 1]"
  have start: "ca_history (demo_chat []) = conversation (demo_chat [])" "conversation (demo_chat []) = []"
    "find_cwd_switch_generation 1 (conversation (demo_chat [])) = None"
    by (simp_all add: demo_turn_defs find_cwd_switch_generation_def)
  obtain a' where a': "handle_chat_commands demo_sizes ?cs (demo_chat []) = Some a'"
    by (simp add: handle_chat_command_def append_working_directory_switch_def append_cwd_switch_def authoritative_item_def
        find_cwd_switch_generation_def working_directory_switch_def user_text_item_def demo_chat_def demo_state_def
        converge_working_directory_switch_def conversation_def count_tokens_def estimate_item_tokens_def Let_def)
  then show ?thesis using lost_switch_is_made_good[OF start(1,3) a'] start(2) by auto
qed

text \<open>A repair of the history takes the conversation out of the state before it saves the turn so far: of an
  active capture only what was saved before is left.\<close>

lemma repair_loses_the_turn:
  "let a = begin_turn_capture (demo_chat [])
   in \<exists>a'. handle_chat_commands demo_sizes [Push_Assistant_Response (demo_assistant [demo_chat_call 1]),
        Repair_History False (Some False)] a = Some a' \<and> captured a' = Some [] \<and> length (conversation a') = 2"
proof -
  let ?x = "demo_assistant [demo_chat_call 1]" and ?h = "Harness_Halted (u ''history_repair'')"
  obtain y e where y: "repair_history [?x] = ([?x, y], \<lparr>rr_duplicates = 0, rr_stripped = [], rr_inserted = 1\<rparr>)"
      "estimate_conversation_tokens [?x, y] = Some e"
    by (simp add: repair_history_def demo_assistant_def repair_dangling_tool_calls_def synthetic_results_def answered_ids_def
        demo_chat_call_def splice_in_def map_filter_def tool_result_def estimate_conversation_tokens_def estimate_item_tokens_def)
  have "is_assistant ?x" by (simp add: demo_assistant_def is_assistant_def)
  then show ?thesis using y
    by (simp add: handle_chat_command_def acked_def repair_history_command_def repair_history_of_def
        push_message_def persist_message_def append_item_def begin_turn_capture_def demo_chat_def demo_state_def
        upd_def conversation_def set_conversation_def report_changed_def reseed_def
        replace_conversation_def snapshot_turn_slice_def turn_tail_def rebase_turn_capture_offset_def replace_history_def
        emit_chat_def captured_def captured_messages_def Let_def)
qed

end
