(* ===== verification/Chat_Compaction_Properties.thy ===== *)
theory Chat_Compaction_Properties
  imports Chat_Properties
begin

text \<open>
  What compaction and the building of a request keep of the pairing of calls and results, the window of the
  summary call, and the control tokens of a summary.
\<close>

section \<open>Pairs survive compaction\<close>

lemma paired_head: "paired xs \<Longrightarrow> block_end xs"
  by (cases xs) (auto simp: block_end_def)

lemma takeWhile_stops: "\<not> P y \<Longrightarrow> takeWhile P (xs @ y # ys) = takeWhile P xs"
  by (induction xs) auto

lemma dropWhile_stops: "\<not> P y \<Longrightarrow> dropWhile P (xs @ y # ys) = dropWhile P xs @ y # ys"
  by (induction xs) auto

lemma paired_append: "paired xs \<Longrightarrow> paired ys \<Longrightarrow> paired (xs @ ys)"
proof (induction xs rule: paired.induct)
  case (2 x xs)
  show ?case
  proof (cases ys)
    case (Cons y ys')
    then have y: "\<not> is_result y" using 2(4) by (auto split: if_splits)
    show ?thesis
      using 2 Cons by (auto simp: takeWhile_stops[of is_result y, OF y] dropWhile_stops[of is_result y, OF y] split: if_splits)
  qed (use 2 in simp)
qed simp

lemma paired_suffix: "paired (xs @ y # ys) \<Longrightarrow> \<not> is_result y \<Longrightarrow> paired (y # ys)"
proof (induction xs rule: paired.induct)
  case (2 x xs)
  then show ?case by (auto simp: takeWhile_stops dropWhile_stops simp del: paired.simps(2) simp: paired.simps(2)[of x] split: if_splits)
qed simp

lemma paired_since: "paired xs \<Longrightarrow> paired (rev (takeWhile (\<lambda>x. \<not> is_real_user_turn x) (rev xs)))"
proof -
  assume xs: "paired xs"
  let ?P = "\<lambda>x. \<not> is_real_user_turn x"
  show ?thesis
  proof (cases "dropWhile ?P (rev xs)")
    case Nil
    then have "takeWhile ?P (rev xs) = rev xs" by (metis append_Nil2 takeWhile_dropWhile_id)
    then show ?thesis using xs by (simp only: rev_rev_ident)
  next
    case (Cons y ys)
    then have real: "is_real_user_turn y" by (metis dropWhile_eq_Cons_conv)
    then have y: "\<not> is_result y" "calls_of y = []" by (cases y; simp)+
    have "xs = rev ys @ y # rev (takeWhile ?P (rev xs))"
      using takeWhile_dropWhile_id[of ?P "rev xs"] Cons by (metis append.assoc append_Cons append_Nil rev.simps(2) rev_append rev_rev_ident)
    then have "paired (y # rev (takeWhile ?P (rev xs)))" using paired_suffix xs y(1) by metis
    then show ?thesis using y by simp
  qed
qed

lemma recent_results: "list_all is_result xs \<Longrightarrow> list_all is_result (List.map_filter recent_item xs) \<and>
    result_ids (List.map_filter recent_item xs) = result_ids xs"
proof (induction xs)
  case (Cons x xs)
  then show ?case by (cases x) (auto simp: map_filter_def tool_result_def)
qed (simp add: map_filter_def)

lemma map_filter_append: "List.map_filter f (xs @ ys) = List.map_filter f xs @ List.map_filter f ys"
  by (simp add: map_filter_def)

lemma recent_paired: "paired xs \<Longrightarrow> paired (List.map_filter recent_item xs)"
proof (induction xs rule: paired.induct)
  case (2 x xs)
  have x: "\<not> is_result x" using 2(3) by (auto split: if_splits)
  show ?case
  proof (cases "calls_of x = []")
    case True
    then have rest: "paired (List.map_filter recent_item xs)" using 2 x by simp
    show ?thesis using rest x True by (cases x) (auto simp: map_filter_def)
  next
    case False
    then obtain c where c: "x = Assistant_Item c" by (cases x) auto
    let ?res = "takeWhile is_result xs" and ?rest = "dropWhile is_result xs"
    have rest: "paired (List.map_filter recent_item ?rest)" using 2 x False by simp
    have split: "List.map_filter recent_item (x # xs) = x # List.map_filter recent_item ?res @ List.map_filter recent_item ?rest"
      using map_filter_append[of recent_item ?res ?rest] c by (simp add: map_filter_def)
    show ?thesis unfolding split
      using 2(3) x False rest recent_results[of ?res] paired_head[OF rest]
      by (simp add: takeWhile_block dropWhile_block)
  qed
qed (simp add: map_filter_def)

lemma validate_results: "answered_ids xs \<subseteq> seen \<Longrightarrow> list_all is_result xs \<Longrightarrow> validate_from seen (xs @ ys) = validate_from seen ys"
proof (induction xs)
  case (Cons x xs)
  then show ?case by (cases x) auto
qed simp

lemma paired_validates: "paired xs \<Longrightarrow> validate_from seen xs = []"
proof (induction xs arbitrary: seen rule: paired.induct)
  case (2 x xs)
  have x: "\<not> is_result x" using 2(3) by (auto split: if_splits)
  show ?case
  proof (cases "calls_of x = []")
    case True
    then show ?thesis using 2 x by (cases x) auto
  next
    case False
    then obtain c where c: "x = Assistant_Item c" by (cases x) auto
    let ?res = "takeWhile is_result xs" and ?rest = "dropWhile is_result xs" and ?s = "seen \<union> set (map cc_id (ai_calls c))"
    have "answered_ids ?res \<subseteq> ?s" using answered_all[of ?res "calls_of x"] 2(3) x False c by (auto simp: ids_of_def)
    then have "validate_from ?s (?res @ ?rest) = validate_from ?s ?rest" by (rule validate_results) simp
    then show ?thesis using 2(2)[OF x False] 2(3) x False c by simp
  qed
qed simp

text \<open>C17: Compacting a conversation whose calls and results are paired gives a history in which they are paired,
  so it passes the check of compacted histories. The recent messages start behind a message of the user, which
  never separates a call from its results.\<close>

theorem compaction_keeps_pairs:
  assumes "paired xs" "\<not> is_result (ci_system i)" "calls_of (ci_system i) = []"
    "ci_context i = build_state_context xs generation instructions"
  shows "paired (build_compacted_history i) \<and> validate_compacted_history (build_compacted_history i) = []"
proof -
  have plain: "paired (opt_item (\<lambda>s. user_text_item r None (f s)) x)" for r f and x :: "ustr option"
    by (cases x) (simp_all add: opt_item_def user_text_item_def)
  have recent: "paired (csc_recent (ci_context i))"
    using recent_paired[OF paired_since[OF assms(1)]] assms(4)
    by (simp add: build_state_context_def extract_messages_since_last_real_user_def)
  have parts: "paired [ci_system i, user_meta s]" "paired [user_meta t]" for s t
    using assms(2,3) by (simp_all add: user_meta_def user_text_item_def)
  have "paired (build_compacted_history i)"
    unfolding build_compacted_history_def Let_def
    by (intro paired_append parts recent plain plain[of _ "\<lambda>s. s", simplified])
  then show ?thesis by (simp add: paired_validates validate_compacted_history_def)
qed

theorem compaction_keeps_pairs_witness:
  "paired (build_compacted_history \<lparr>ci_system = System_Item [], ci_prefix = [], ci_agents_md = None,
     ci_context = build_state_context [demo_prompt 0, demo_assistant [demo_chat_call 1], tool_result [1] []] 0 None,
     ci_summary = [], ci_reminder = None, ci_hint = None\<rparr>)"
proof -
  have "paired [demo_prompt 0, demo_assistant [demo_chat_call 1], tool_result [1] []]"
    by (simp add: demo_prompt_def user_text_item_def demo_assistant_def demo_chat_call_def tool_result_def)
  then show ?thesis
    using compaction_keeps_pairs[of "[demo_prompt 0, demo_assistant [demo_chat_call 1], tool_result [1] []]"
      "\<lparr>ci_system = System_Item [], ci_prefix = [], ci_agents_md = None,
       ci_context = build_state_context [demo_prompt 0, demo_assistant [demo_chat_call 1], tool_result [1] []] 0 None,
       ci_summary = [], ci_reminder = None, ci_hint = None\<rparr>" 0 None]
    by simp
qed

section \<open>Requests\<close>

text \<open>What the passes of a request keep of an item.\<close>

definition call_shape :: "conversation_item \<Rightarrow> bool \<times> ustr option \<times> chat_call list" where
  "call_shape x = (is_result x, result_id x, calls_of x)"

lemma call_shape_eq: "call_shape x = call_shape y \<longleftrightarrow> is_result x = is_result y \<and> result_id x = result_id y \<and> calls_of x = calls_of y"
  by (auto simp: call_shape_def)

abbreviation same_shape :: "conversation_item list \<Rightarrow> conversation_item list \<Rightarrow> bool" where
  "same_shape xs ys \<equiv> map call_shape xs = map call_shape ys"

text \<open>Every call is answered directly behind its assistant, and no id is answered twice there.\<close>

function answered_once :: "conversation_item list \<Rightarrow> bool" where
  "answered_once [] = True"
| "answered_once (x # xs) =
     (if calls_of x = [] then answered_once xs
      else distinct (result_ids (takeWhile is_result xs)) \<and> ids_of (calls_of x) \<subseteq> answered_ids (takeWhile is_result xs) \<and>
        answered_once (dropWhile is_result xs))"
  by pat_completeness auto
termination
  by (relation "measure length") (auto simp: length_dropWhile_le le_imp_less_Suc)

lemma shape_blocks:
  "same_shape xs ys \<Longrightarrow> same_shape (takeWhile is_result xs) (takeWhile is_result ys) \<and>
     same_shape (dropWhile is_result xs) (dropWhile is_result ys)"
proof (induction xs arbitrary: ys)
  case (Cons x xs)
  then show ?case by (cases ys) (auto simp: call_shape_def)
qed simp

lemma ids_from_shape:
  "result_ids xs = concat (map (\<lambda>(_, k, _). case k of None \<Rightarrow> [] | Some i \<Rightarrow> [i]) (map call_shape xs))"
  by (induction xs) (simp_all add: call_shape_def)

lemma shape_ids: "same_shape xs ys \<Longrightarrow> result_ids xs = result_ids ys"
  by (simp only: ids_from_shape)

lemma shape_answered: "same_shape xs ys \<Longrightarrow> answered_once xs = answered_once ys"
proof (induction xs arbitrary: ys rule: answered_once.induct)
  case (2 x xs)
  obtain y ys' where ys: "ys = y # ys'" "same_shape xs ys'" "calls_of y = calls_of x"
    using 2(3) by (cases ys) (auto simp: call_shape_eq)
  note blocks = shape_blocks[OF ys(2)]
  show ?case
  proof (cases "calls_of x = []")
    case True
    then show ?thesis using 2(1)[OF True ys(2)] ys by simp
  next
    case False
    have "result_ids (takeWhile is_result xs) = result_ids (takeWhile is_result ys')" using blocks shape_ids by blast
    moreover have "answered_once (dropWhile is_result xs) = answered_once (dropWhile is_result ys')"
      using 2(2)[OF False] blocks by blast
    ultimately show ?thesis using False ys set_result_ids by (metis (no_types, lifting) answered_once.simps(2))
  qed
qed simp

lemma walk_back_shape:
  "(\<And>n r. call_shape (f n r) = call_shape (Result_Item r)) \<Longrightarrow> same_shape (walk_back f age seen xs) xs"
  by (induction f age seen xs rule: walk_back.induct) auto

lemma prune_shape: "same_shape (prune_conversation C xs) xs"
  by (simp add: prune_conversation_def rev_map[symmetric] walk_back_shape prune_result_def set_content_def call_shape_def)

lemma evict_shape: "same_shape (fst (evict_items target b r e xs)) xs"
  by (induction target b r e xs rule: evict_items.induct) (auto simp: call_shape_def split: prod.split)

lemma compact_shape: "same_shape (fst (compact_images_to_byte_budget J current target xs)) xs"
  by (simp add: compact_images_to_byte_budget_def evict_shape[unfolded fst_def] split: prod.split)
    (metis evict_shape fst_conv)

lemma inject_answered: "answered_once (fst (inject_memory_reminder r xs)) = answered_once xs"
  by (auto simp: inject_memory_reminder_def Let_def split: list.splits conversation_item.splits)

text \<open>After the repair of calls every call is answered once, when no assistant uses an id twice.\<close>

lemma distinct_filled_block:
  "distinct (map cc_id calls) \<Longrightarrow> distinct (result_ids res) \<Longrightarrow>
     distinct (result_ids (res @ synthetic_results reason calls res)) \<and>
     ids_of calls \<subseteq> answered_ids (res @ synthetic_results reason calls res)"
  by (auto simp: result_ids_synthetic set_result_ids[symmetric] ids_of_def)

lemma block_end_filled: "block_end xs \<Longrightarrow> block_end (filled reason xs)"
  by (cases xs) (auto simp: block_end_def)

lemma filled_answered: "distinct_calls xs \<Longrightarrow> answered_once (filled reason (deduped xs))"
proof (induction xs rule: deduped.induct)
  case (2 x xs)
  have rest: "distinct_calls (dropWhile is_result xs)" "distinct_calls xs"
    using 2(3) by (auto simp: distinct_calls_def list_all_iff dest: set_dropWhileD)
  show ?case
  proof (cases "calls_of x = []")
    case True
    then show ?thesis using 2(1)[OF True rest(2)] by simp
  next
    case False
    let ?res = "keep_last (takeWhile is_result xs)" and ?rest = "deduped (dropWhile is_result xs)"
    have res: "list_all is_result ?res" by (simp add: results_keep_last)
    have ends: "block_end ?rest" by (rule block_end_deduped) simp
    have "distinct (map cc_id (calls_of x))" using 2(3) by (simp add: distinct_calls_def)
    note block = distinct_filled_block[OF this distinct_keep_last, of "takeWhile is_result xs" reason]
    have "filled reason (deduped (x # xs)) = x # (?res @ synthetic_results reason (calls_of x) ?res) @ filled reason ?rest"
      using False by (simp add: takeWhile_block[OF res ends] dropWhile_block[OF res ends])
    moreover have "takeWhile is_result ((?res @ synthetic_results reason (calls_of x) ?res) @ filled reason ?rest) =
        ?res @ synthetic_results reason (calls_of x) ?res"
      "dropWhile is_result ((?res @ synthetic_results reason (calls_of x) ?res) @ filled reason ?rest) = filled reason ?rest"
      using res block_end_filled[OF ends] by (intro takeWhile_block dropWhile_block; simp)+
    ultimately show ?thesis using False block 2(2)[OF False rest(1)] by simp
  qed
qed simp

text \<open>C16: When no assistant of the conversation uses one id for two calls, in every request that the actor builds
  every call is answered directly behind its assistant, and no id is answered twice there: the passes that prune results, evict images and insert the reminder keep what the
  repair of the conversation established.\<close>

theorem requests_answer_every_call:
  assumes "handle_chat_command J (Build_Conversation_Request reminder persist i j) a = Some (a', Request_Reply r)"
    "distinct_calls (conversation a)"
  shows "answered_once (cr_items r)"
proof -
  let ?e = "ensure_conversation_integrity User_Cancelled a"
  obtain b rem where b: "persist_reminder reminder persist ?e = (b, rem)" by fastforce
  have "answered_once (conversation ?e)"
    using filled_answered[OF assms(2)] by (simp add: integrity_effect(1) repair_is_filled dedup_is_deduped)
  then have start: "answered_once (conversation b)"
    using b inject_answered[of _ "conversation ?e"]
    by (auto simp: persist_reminder_def Let_def shape split: option.splits if_splits prod.splits)
      (metis fst_conv)+
  have "r = snd (build_conversation_request J reminder persist i j ?e)"
    using assms(1) by (auto simp: handle_chat_command_def apsnd_def map_prod_def split: prod.splits)
  then have r: "cr_items r = fst (request_items J rem b)"
    by (simp add: build_conversation_request_def b Let_def split: prod.split)
  show ?thesis
  proof -
    define xs where "xs = (if image_compact_trigger_bytes \<le> conversation_body_bytes J (conversation b)
      then fst (compact_images_to_byte_budget J (conversation_body_bytes J (conversation b)) image_compact_reclaim_target_bytes (conversation b))
      else conversation b)"
    define ys where "ys = (if should_prune (cs_total_tokens (ca_state b)) (sc_context_window (cs_config (ca_state b)))
      then prune_conversation (ca_pruning b) xs else xs)"
    have items: "fst (request_items J rem b) = (case rem of None \<Rightarrow> ys | Some s \<Rightarrow> fst (inject_memory_reminder s ys))"
      by (auto simp: request_items_def Let_def xs_def ys_def apsnd_def map_prod_def split: prod.split option.split)
    have "same_shape xs (conversation b)" by (simp add: xs_def compact_shape)
    then have "same_shape ys (conversation b)" by (simp add: ys_def prune_shape)
    then have "answered_once ys" using shape_answered start by blast
    then show ?thesis using r items by (simp add: inject_answered split: option.split)
  qed
qed

theorem requests_answer_every_call_witness:
  "\<exists>a' r. handle_chat_command demo_sizes (Build_Conversation_Request None False [] []) (demo_chat [demo_assistant [demo_chat_call 1]]) =
     Some (a', Request_Reply r) \<and> answered_once (cr_items r)"
proof -
  let ?a = "demo_chat [demo_assistant [demo_chat_call 1]]"
  obtain a' r where "handle_chat_command demo_sizes (Build_Conversation_Request None False [] []) ?a = Some (a', Request_Reply r)"
    by (cases "build_conversation_request demo_sizes None False [] [] (ensure_conversation_integrity User_Cancelled ?a)")
      (simp add: handle_chat_command_def)
  moreover have "distinct_calls (conversation ?a)"
    by (simp add: distinct_calls_def demo_chat_def demo_state_def conversation_def demo_assistant_def)
  ultimately show ?thesis using requests_answer_every_call by blast
qed

section \<open>The window of the summary call\<close>

abbreviation cost_of :: "conversation_item list \<Rightarrow> nat" where
  "cost_of xs \<equiv> sum_list (map item_cost xs)"

lemma sum_is_cost: "sum_tokens xs = Some n \<Longrightarrow> cost_of xs = n"
proof (induction xs arbitrary: n)
  case (Cons x xs)
  then show ?case by (auto simp: item_cost_def split: option.splits)
qed simp

lemma take_fitting_cost: "cost_of (take_fitting budget xs) \<le> budget"
  by (induction budget xs rule: take_fitting.induct) auto

lemma take_fitting_prefix: "\<exists>ys. xs = take_fitting budget xs @ ys"
proof (induction budget xs rule: take_fitting.induct)
  case (2 budget x xs)
  then show ?case by (cases "budget < item_cost x") auto
qed simp

lemma take_fitting_more: "cost_of xs \<le> budget \<Longrightarrow> \<exists>zs. take_fitting budget (xs @ ys) = xs @ zs"
proof (induction xs arbitrary: budget)
  case (Cons x xs)
  then show ?case using Cons.IH[of "budget - item_cost x"] by auto
qed simp

lemma cost_dropWhile: "cost_of (dropWhile P xs) \<le> cost_of xs"
  by (induction xs) auto

lemma dropWhile_suffix: "\<exists>zs. xs = zs @ dropWhile P xs"
  by (metis takeWhile_dropWhile_id)

lemma dropWhile_keeps: "\<not> P x \<Longrightarrow> \<exists>zs. dropWhile P (ys @ x # xs) = zs @ x # xs"
  by (induction ys) auto

text \<open>C19: When the system prompt and the last turn - the last item that is no tool result, with the results
  behind it - fit the window together, then the fitted conversation is the system prompt and a whole tail
  of the conversation with this last turn in it, is within the window, and, when anything was dropped,
  its tail does not begin with a tool result.\<close>

theorem fitted_conversation_keeps_whole_turns:
  assumes "fit_conversation_to_budget (System_Item s # body) n = Some ys"
    "body = older @ x # results" "\<not> is_result x" "list_all is_result results"
    "item_cost (System_Item s) + cost_of (x # results) \<le> n"
  shows "\<exists>dropped zs. body = dropped @ zs @ x # results \<and> ys = System_Item s # zs @ x # results \<and>
    cost_of ys \<le> n \<and> (dropped \<noteq> [] \<longrightarrow> block_end (zs @ x # results))"
proof -
  let ?budget = "n - item_cost (System_Item s)"
  let ?kept = "rev (take_fitting ?budget (rev body))" and ?tail = "x # results"
  obtain total where total: "sum_tokens (System_Item s # body) = Some total"
    using assms(1) by (auto simp: fit_conversation_to_budget_def split: option.splits)
  show ?thesis
  proof (cases "total \<le> n")
    case True
    then have "ys = System_Item s # body" using assms(1) total by (simp add: fit_conversation_to_budget_def)
    then show ?thesis using assms(2) sum_is_cost[OF total] True by (intro exI[of _ "[]"] exI[of _ older]) simp
  next
    case False
    have "cost_of (rev ?tail) \<le> ?budget" using assms(5) by (simp add: rev_map[symmetric] add.commute)
    then obtain t where t: "take_fitting ?budget (rev ?tail @ rev older) = rev ?tail @ t" using take_fitting_more by blast
    then have kept: "?kept = rev t @ ?tail" using assms(2) by simp
    obtain zs where zs: "dropWhile is_result ?kept = zs @ ?tail" using dropWhile_keeps[of is_result x "rev t" results, OF assms(3)] kept by auto
    then have ys: "ys = System_Item s # zs @ ?tail"
      using assms(1) total False by (simp add: fit_conversation_to_budget_def Let_def del: dropWhile_eq_Nil_conv)
    obtain u where u: "rev body = take_fitting ?budget (rev body) @ u" using take_fitting_prefix by blast
    obtain w where w: "?kept = w @ dropWhile is_result ?kept" using dropWhile_suffix by blast
    have "body = rev u @ ?kept" using arg_cong[OF u, of rev] by simp
    then have "body = (rev u @ w) @ zs @ ?tail" using w zs by simp
    moreover have "cost_of ?kept \<le> ?budget" using take_fitting_cost[of ?budget "rev body"] by (simp add: rev_map[symmetric])
    then have "cost_of (zs @ ?tail) \<le> ?budget" using cost_dropWhile[of is_result ?kept] zs by simp
    then have "cost_of ys \<le> n" using ys assms(5) by simp
    moreover have "block_end (zs @ ?tail)" using zs by (metis block_end_dropWhile)
    ultimately show ?thesis using ys by blast
  qed
qed

theorem fitted_conversation_keeps_whole_turns_witness:
  "\<exists>ys. fit_conversation_to_budget [System_Item [], user_meta (replicate 400 97), demo_assistant [demo_chat_call 1],
      tool_result [1] []] 50 = Some ys \<and> cost_of ys \<le> 50 \<and> length ys = 3"
proof -
  let ?old = "user_meta (replicate 400 97)" and ?x = "demo_assistant [demo_chat_call 1]" and ?r = "tool_result [1] []"
  have costs: "item_cost (System_Item []) = 0" "item_cost ?old = 100" "item_cost ?x = 0" "item_cost ?r = 0"
    "sum_tokens [System_Item [], ?old, ?x, ?r] = Some 100"
    by (simp_all add: item_cost_def estimate_item_tokens_def estimate_tokens_def byte_len_def encode_def user_meta_def
        user_text_item_def tool_result_def demo_assistant_def demo_chat_call_def bytes_per_token_def u_def encode_char_def
        sum_list_replicate length_concat)
  have "\<not> is_result ?x" "\<not> is_result ?old" by (simp_all add: demo_assistant_def user_meta_def user_text_item_def)
  then obtain ys where ys: "fit_conversation_to_budget [System_Item [], ?old, ?x, ?r] 50 = Some ys" "length ys = 3"
    using costs by (simp add: fit_conversation_to_budget_def Let_def)
  then show ?thesis
    using fitted_conversation_keeps_whole_turns[of "[]" "[?old, ?x, ?r]" 50 ys "[?old]" ?x "[?r]"] costs \<open>\<not> is_result ?x\<close>
    by (auto simp: tool_result_def)
qed

text \<open>The marker of a truncated text takes more than fifty bytes itself, whatever the budget.\<close>

lemma truncation_marker_may_not_fit: "truncate_text_to_bytes s n = Some t \<Longrightarrow> 50 < byte_len t"
  by (auto simp: truncate_text_to_bytes_def Let_def byte_len_def encode_def u_def encode_char_def split: if_splits)

section \<open>Control tokens\<close>

abbreviation begins_with :: "ustr \<Rightarrow> ustr \<Rightarrow> bool" where
  "begins_with p s \<equiv> take (length p) s = p"

text \<open>Whether \<open>'<'\<close> and \<open>name\<close> stand next to each other somewhere.\<close>

fun live_token :: "ustr \<Rightarrow> ustr \<Rightarrow> bool" where
  "live_token name [] = False"
| "live_token name (c # s) \<longleftrightarrow> (c = less_than \<and> begins_with name s) \<or> live_token name s"

lemma live_found: "before_pattern (less_than # name) s = None \<longleftrightarrow> \<not> live_token name s"
  by (induction s) (auto split: if_splits)

lemma live_skip: "less_than \<notin> set xs \<Longrightarrow> live_token name (xs @ ys) = live_token name ys"
  by (induction xs) auto

lemma live_suffix: "live_token name ys \<Longrightarrow> live_token name (xs @ ys)"
  by (induction xs) auto

lemma starts_append: "begins_with p s \<Longrightarrow> begins_with p (s @ t)"
  by (metis append_assoc append_eq_conv_conj append_take_drop_id)

lemma live_prefix: "live_token name xs \<Longrightarrow> live_token name (xs @ ys)"
  by (induction xs) (auto dest: starts_append)

lemma live_trim: "live_token name (trim s) \<Longrightarrow> live_token name s"
proof -
  assume live_token: "live_token name (trim s)"
  let ?t = "trim_start s"
  have "?t = rev (dropWhile is_ws (rev ?t)) @ rev (takeWhile is_ws (rev ?t))"
    by (metis rev_append rev_rev_ident takeWhile_dropWhile_id)
  then have "live_token name ?t"
    using live_token live_prefix[of name "rev (dropWhile is_ws (rev ?t))" "rev (takeWhile is_ws (rev ?t))"]
    unfolding trim_def trim_end_def by argo
  then show "live_token name s" using live_suffix[of name ?t "takeWhile is_ws s"] by (simp add: trim_start_def)
qed

text \<open>Replacing character by character.\<close>

lemma replace_step:
  assumes "p \<noteq> []"
  shows "replace_text p r [] = []"
    "replace_text p r (c # s) =
      (if begins_with p (c # s) then r @ replace_text p r (drop (length p) (c # s)) else c # replace_text p r s)"
proof -
  show "replace_text p r [] = []" using assms by (subst replace_text.simps) (simp add: cut_at_def)
  show "replace_text p r (c # s) =
      (if begins_with p (c # s) then r @ replace_text p r (drop (length p) (c # s)) else c # replace_text p r s)"
  proof (cases "begins_with p (c # s)")
    case True
    then have "cut_at p (c # s) = Some ([], drop (length p) (c # s))" by (simp add: cut_at_def)
    then show ?thesis using assms True by (subst replace_text.simps) simp
  next
    case False
    then have "cut_at p (c # s) = map_option (\<lambda>(a, b). (c # a, b)) (cut_at p s)"
      by (cases "before_pattern p s") (simp_all add: cut_at_def)
    then show ?thesis using assms False replace_text.simps[of p r s]
      by (subst replace_text.simps) (auto split: option.splits)
  qed
qed

text \<open>A replacement that keeps its first character \<open>h\<close> does not change what comes before the first \<open>h\<close>.\<close>

lemma replaced_starts:
  assumes "h \<notin> set m" "begins_with m (replace_text (h # p) (h # r) s)"
  shows "begins_with m s"
  using assms
proof (induction m arbitrary: s)
  case (Cons x m)
  show ?case
  proof (cases s)
    case Nil
    then show ?thesis using Cons.prems by (simp add: replace_step)
  next
    case (Cons c s')
    then have "c = x \<and> begins_with m (replace_text (h # p) (h # r) s')"
      using Cons.prems by (auto simp: replace_step split: if_splits)
    then show ?thesis using Cons Cons.IH[of s'] Cons.prems by auto
  qed
qed simp

lemma replaced_live:
  assumes "h \<notin> set m" "less_than \<notin> set r" "\<not> (h = less_than \<and> begins_with m r)" "m \<noteq> []" "r \<noteq> []" "h = less_than \<longrightarrow> hd r \<noteq> hd m"
    "live_token m (replace_text (h # p) (h # r) s)"
  shows "live_token m s"
  using assms(7)
proof (induction "length s" arbitrary: s rule: less_induct)
  case less
  show ?case
  proof (cases s)
    case Nil
    then show ?thesis using less.prems by (simp add: replace_step)
  next
    case (Cons c s')
    show ?thesis
    proof (cases "begins_with (h # p) s")
      case True
      let ?rest = "drop (length (h # p)) s"
      have "live_token m (h # r @ replace_text (h # p) (h # r) ?rest)" using less.prems Cons True by (simp add: replace_step)
      moreover have "\<not> (h = less_than \<and> begins_with m (r @ t))" for t
        using assms(4,5,6) by (cases m; cases r) auto
      ultimately have "live_token m (replace_text (h # p) (h # r) ?rest)" using live_skip[OF assms(2)] by auto
      then have "live_token m ?rest" using less.hyps[of ?rest] Cons by simp
      then show ?thesis using live_suffix[of m ?rest "take (length (h # p)) s"] by (metis append_take_drop_id)
    next
      case False
      then have "live_token m (c # replace_text (h # p) (h # r) s')"
        using less.prems Cons by (auto simp: replace_step split: if_splits)
      then show ?thesis using replaced_starts[OF assms(1), of p r s'] less.hyps[of s'] Cons by auto
    qed
  qed
qed

lemma replaced_gone:
  assumes "less_than \<notin> set m" "zero_width_space \<notin> set m" "m \<noteq> []"
  shows "\<not> live_token m (replace_text (less_than # m) (less_than # zero_width_space # m) s)"
proof (induction "length s" arbitrary: s rule: less_induct)
  case less
  show ?case
  proof (cases s)
    case Nil
    then show ?thesis by (simp add: replace_step)
  next
    case (Cons c s')
    let ?R = "replace_text (less_than # m) (less_than # zero_width_space # m)"
    show ?thesis
    proof (cases "begins_with (less_than # m) s")
      case True
      let ?rest = "drop (length (less_than # m)) s"
      have "?R s = less_than # (zero_width_space # m) @ ?R ?rest" using Cons True by (simp add: replace_step)
      moreover have "\<not> begins_with m ((zero_width_space # m) @ t)" for t using assms(2,3) by (cases m) auto
      moreover have "\<not> live_token m ((zero_width_space # m) @ ?R ?rest)"
        using live_skip[of "zero_width_space # m" m "?R ?rest"] assms(1) less[of ?rest] Cons
        by (simp add: zero_width_space_def less_than_def)
      ultimately show ?thesis by simp
    next
      case False
      then have "?R s = c # ?R s'" using Cons by (auto simp: replace_step)
      moreover have "\<not> (c = less_than \<and> begins_with m (?R s'))"
        using replaced_starts[OF assms(1), of m "zero_width_space # m" s'] False Cons by auto
      moreover have "\<not> live_token m (?R s')" using less Cons by simp
      ultimately show ?thesis by simp
    qed
  qed
qed

lemma token_facts:
  "m \<in> set token_names \<Longrightarrow> less_than \<notin> set m \<and> zero_width_space \<notin> set m \<and> LF \<notin> set m \<and> m \<noteq> []"
  by (auto simp: token_names_def u_def less_than_def zero_width_space_def)

lemma neutralized: "m \<in> set token_names \<Longrightarrow> \<not> live_token m (neutralize_compaction_control_tokens s)"
proof -
  let ?R = "\<lambda>m. replace_text (less_than # m) (less_than # zero_width_space # m)"
  have later: "\<not> live_token m s \<Longrightarrow> set ns \<subseteq> set token_names \<Longrightarrow> \<not> live_token m (fold ?R ns s)" if "m \<in> set token_names" for m ns s
  proof (induction ns arbitrary: s)
    case (Cons n ns)
    have "\<not> live_token m (?R n s)"
    proof
      assume "live_token m (?R n s)"
      moreover have "hd (zero_width_space # n) \<noteq> hd m" using token_facts[OF that] by (cases m) auto
      moreover have "less_than \<notin> set (zero_width_space # n)" using token_facts[of n] Cons.prems(2)
        by (auto simp: zero_width_space_def less_than_def)
      moreover have "\<not> begins_with m (zero_width_space # n)" using token_facts[OF that] by (cases m) auto
      ultimately have "live_token m s" using replaced_live[of less_than m "zero_width_space # n" n s] token_facts[OF that] by auto
      then show False using Cons.prems(1) by simp
    qed
    then show ?case using Cons.IH Cons.prems(2) by simp
  qed simp
  have "\<not> live_token m (fold ?R ns s)" if "m \<in> set ns" "set ns \<subseteq> set token_names" for m ns s
    using that
  proof (induction ns arbitrary: s)
    case (Cons n ns)
    show ?case
    proof (cases "m \<in> set ns")
      case False
      then have "\<not> live_token m (?R m s)" "m \<in> set token_names" using replaced_gone token_facts Cons.prems by auto
      then show ?thesis using later[of m "?R m s" ns] Cons.prems False by auto
    qed (use Cons in auto)
  qed simp
  then show "m \<in> set token_names \<Longrightarrow> \<not> live_token m (neutralize_compaction_control_tokens s)"
    by (simp add: neutralize_compaction_control_tokens_def)
qed

lemma collapsed_live: "m \<in> set token_names \<Longrightarrow> live_token m (collapse_newlines s) \<Longrightarrow> live_token m s"
proof (induction s rule: collapse_newlines.induct)
  case (1 s)
  show ?case
  proof (cases "cut_at [LF, LF, LF] s = None")
    case True
    then show ?thesis using 1(3) by (subst (asm) collapse_newlines.simps) simp
  next
    case False
    then have "live_token m (collapse_newlines (replace_text [LF, LF, LF] [LF, LF] s))"
      using 1(3) unfolding collapse_newlines.simps[of s] by (simp only: False if_False)
    then have "live_token m (replace_text [LF, LF, LF] [LF, LF] s)" using 1(1)[OF False 1(2)] by simp
    then show ?thesis using replaced_live[of LF m "[LF]" "[LF, LF]" s] token_facts[OF 1(2)] by (auto simp: less_than_def)
  qed
qed

text \<open>C18: A cleaned summary has none of the control tokens, whatever the model returned, so it cannot make the next
  turn emit another summary.\<close>

theorem cleaned_summary_has_no_control_token:
  assumes "name \<in> set token_names"
  shows "before_pattern (less_than # name) (format_compact_summary raw) = None"
proof -
  let ?s = "unwrap_summary (peel_analysis raw)"
  have "\<not> live_token name (collapse_newlines (neutralize_compaction_control_tokens ?s))"
    using neutralized[OF assms] collapsed_live[OF assms] by blast
  then have "\<not> live_token name (format_compact_summary raw)" unfolding format_compact_summary_def using live_trim by blast
  then show ?thesis by (rule live_found[THEN iffD2])
qed

theorem cleaned_summary_has_no_control_token_witness:
  "before_pattern (u ''<summary>'') (format_compact_summary (u ''<summary>x <summary> y</summary>'')) = None"
proof -
  have "u ''summary>'' \<in> set token_names" "u ''<summary>'' = less_than # u ''summary>''"
    by (simp_all add: token_names_def u_def less_than_def)
  then show ?thesis using cleaned_summary_has_no_control_token[of "u ''summary>''"] by simp
qed

section \<open>Old results\<close>

lemma walk_back_nth:
  "j < length xs \<Longrightarrow> walk_back f age seen xs ! j =
     (case xs ! j of Result_Item r \<Rightarrow> f (age + (user_items (take j xs) - (if seen then 0 else 1))) r | x \<Rightarrow> x)"
proof (induction f age seen xs arbitrary: j rule: walk_back.induct)
  case (2 f age seen m xs)
  then show ?case by (cases j) (auto simp: user_items_def split: conversation_item.split)
qed (auto simp: nth_Cons user_items_def split: nat.split conversation_item.split)

definition is_prompt :: "conversation_item \<Rightarrow> bool" where
  "is_prompt x = (case x of User_Item m \<Rightarrow> ui_synthetic m = None | _ \<Rightarrow> False)"

lemma prompts_and_others: "user_items xs = length (filter is_prompt xs) + length (filter (\<lambda>x. is_user x \<and> \<not> is_prompt x) xs)"
proof (induction xs)
  case (Cons x xs)
  then show ?case by (cases x) (auto simp: user_items_def is_prompt_def)
qed (simp add: user_items_def)

lemma user_items_append: "user_items (xs @ ys) = user_items xs + user_items ys"
  by (simp add: user_items_def)

text \<open>C20: A push of a message clears a tool result only when more than the configured number of the user's own messages
  stand behind it, however many injected messages there are, as long as the conversation has as many of the
  user's messages as the prompt index says.\<close>

theorem prune_spares_recent_results:
  assumes "0 < pc_hard_clear_age_turns (ca_pruning a)"
    "cs_prompt_index (ca_state a) \<le> length (filter is_prompt (conversation a))"
    "i < length (conversation a)" "conversation (prune_retained_conversation a) ! i \<noteq> conversation a ! i"
  shows "pc_hard_clear_age_turns (ca_pruning a) < length (filter is_prompt (drop (Suc i) (conversation a)))"
proof -
  let ?xs = "conversation a" and ?f = "clear_result (effective_threshold a)" and ?j = "length (conversation a) - Suc i"
  have "conversation (prune_retained_conversation a) \<in> {rev (walk_back ?f 0 False (rev ?xs)), ?xs}"
    by (simp add: prune_retained_conversation_def Let_def shape)
  then have "rev (walk_back ?f 0 False (rev ?xs)) ! i \<noteq> ?xs ! i" using assms(4) by auto
  moreover have "rev (walk_back ?f 0 False (rev ?xs)) ! i = walk_back ?f 0 False (rev ?xs) ! ?j"
    using assms(3) by (simp add: rev_nth)
  moreover have "rev ?xs ! ?j = ?xs ! i" using assms(3) by (simp add: rev_nth)
  moreover have "user_items (take ?j (rev ?xs)) = user_items (drop (Suc i) ?xs)"
    using assms(3) by (simp add: user_items_def take_rev rev_filter[symmetric])
  ultimately obtain r where "?f (user_items (drop (Suc i) ?xs) - 1) r \<noteq> Result_Item r"
    using walk_back_nth[of ?j "rev ?xs" ?f 0 False] assms(3) by (auto split: conversation_item.splits)
  then have old: "effective_threshold a \<le> user_items (drop (Suc i) ?xs) - 1"
    by (auto simp: clear_result_def split: if_splits)
  let ?others = "\<lambda>x. is_user x \<and> \<not> is_prompt x"
  have parts: "?xs = take (Suc i) ?xs @ drop (Suc i) ?xs" by simp
  have "length (filter ?others (drop (Suc i) ?xs)) \<le> length (filter ?others ?xs)"
    by (subst (2) parts, subst filter_append) simp
  moreover have "user_items ?xs - cs_prompt_index (ca_state a) \<ge> length (filter ?others ?xs)"
    using assms(2) prompts_and_others[of ?xs] by simp
  moreover have "0 < user_items (drop (Suc i) ?xs)"
    using old assms(1) by (cases "user_items (drop (Suc i) ?xs)") (simp_all add: effective_threshold_def)
  ultimately show ?thesis
    using old prompts_and_others[of "drop (Suc i) ?xs"] unfolding effective_threshold_def by linarith
qed

definition aged :: "nat \<Rightarrow> conversation_item \<Rightarrow> chat_actor" where
  "aged n x = upd (\<lambda>s. s\<lparr>cs_prompt_index := n\<rparr>) (demo_chat (tool_result [1] (u ''old'') # replicate 11 x))"

lemma aged_cleared:
  "is_user x \<Longrightarrow> 11 \<le> n \<Longrightarrow> conversation (prune_retained_conversation (aged n x)) ! 0 \<noteq> conversation (aged n x) ! 0"
proof -
  assume x: "is_user x" and n: "11 \<le> n"
  obtain m where m: "x = User_Item m" using x by (cases x) auto
  have users: "user_items (tool_result [1] (u ''old'') # replicate 11 x) = 11"
    using m by (simp add: user_items_def tool_result_def)
  have c: "conversation (aged n x) = tool_result [1] (u ''old'') # replicate 11 x" "ca_pruning (aged n x) = default_pruning"
    "cs_prompt_index (ca_state (aged n x)) = n"
    by (simp_all add: aged_def demo_chat_def demo_state_def conversation_def)
  have t: "effective_threshold (aged n x) = 10"
    using n users by (simp add: effective_threshold_def c default_pruning_def)
  let ?xs = "tool_result [1] (u ''old'') # replicate 11 x"
  let ?w = "walk_back (clear_result 10) 0 False (rev ?xs)"
  have "user_items (take 11 (rev ?xs)) = 11" using m by (simp add: user_items_def)
  then have "?w ! 11 = set_content hard_clear_placeholder \<lparr>tr_id = [1], tr_content = u ''old'', tr_images = []\<rparr>"
    using walk_back_nth[of 11 "rev ?xs" "clear_result 10" 0 False]
    by (simp add: nth_append tool_result_def clear_result_def hard_clear_placeholder_def u_def)
  then have w: "rev ?w ! 0 = set_content hard_clear_placeholder \<lparr>tr_id = [1], tr_content = u ''old'', tr_images = []\<rparr>"
    by (simp add: rev_nth)
  then have differs: "rev ?w ! 0 \<noteq> ?xs ! 0"
    by (simp add: set_content_def tool_result_def hard_clear_placeholder_def u_def)
  then have "rev ?w \<noteq> ?xs" by auto
  then have "conversation (prune_retained_conversation (aged n x)) = rev ?w"
    using n c t by (simp add: prune_retained_conversation_def shape Let_def default_pruning_def)
  then show ?thesis using differs c by simp
qed

theorem prune_spares_recent_results_witness:
  "(10::nat) < length (filter is_prompt (drop (Suc 0) (conversation (aged 11 (demo_prompt 0)))))"
proof -
  have c: "conversation (aged n x) = tool_result [1] (u ''old'') # replicate 11 x" "ca_pruning (aged n x) = default_pruning"
    "cs_prompt_index (ca_state (aged n x)) = n" for n x
    by (simp_all add: aged_def demo_chat_def demo_state_def conversation_def)
  have "is_prompt (demo_prompt 0)" "is_user (demo_prompt 0)"
    by (simp_all add: demo_prompt_def user_text_item_def is_prompt_def)
  then show ?thesis
    using prune_spares_recent_results[of "aged 11 (demo_prompt 0)" 0] aged_cleared[of "demo_prompt 0" 11]
    by (simp add: c default_pruning_def)
qed

text \<open>After a compaction the conversation has fewer messages than the prompt index says, and reminders alone age a result.\<close>

lemma reminders_age_results_after_compaction:
  "conversation (prune_retained_conversation (aged 20 (user_text_item (Some System_Reminder) None []))) ! 0 \<noteq>
     conversation (aged 20 (user_text_item (Some System_Reminder) None [])) ! 0 \<and>
   filter is_prompt (conversation (aged 20 (user_text_item (Some System_Reminder) None []))) = []"
proof -
  let ?x = "user_text_item (Some System_Reminder) None []"
  have "filter is_prompt (conversation (aged 20 ?x)) = []"
    by (simp add: aged_def demo_chat_def demo_state_def conversation_def user_text_item_def is_prompt_def tool_result_def)
  then show ?thesis using aged_cleared[of ?x 20] by (simp add: user_text_item_def)
qed

section \<open>Ledgers\<close>

definition ledgers_ok :: "chat_actor \<Rightarrow> bool" where
  "ledgers_ok a \<longleftrightarrow> ledger_ok (cs_session_usage (ca_state a)) \<and>
     (case cs_prompt_usage (ca_state a) of None \<Rightarrow> True | Some L \<Rightarrow> ledger_ok L)"

definition same_ledgers :: "chat_actor \<Rightarrow> chat_actor \<Rightarrow> bool" where
  "same_ledgers a a' \<longleftrightarrow> cs_session_usage (ca_state a') = cs_session_usage (ca_state a) \<and>
     (cs_prompt_usage (ca_state a') = cs_prompt_usage (ca_state a) \<or> cs_prompt_usage (ca_state a') = None)"

lemma same_ledgers_ok: "same_ledgers a a' \<Longrightarrow> ledgers_ok a \<Longrightarrow> ledgers_ok a'"
  by (auto simp: same_ledgers_def ledgers_ok_def)

lemma same_ledgers_refl [simp]: "same_ledgers a a"
  by (simp add: same_ledgers_def)

lemma same_ledgers_trans: "same_ledgers a b \<Longrightarrow> same_ledgers b c \<Longrightarrow> same_ledgers a c"
  by (auto simp: same_ledgers_def)

lemma basic_ledgers [simp]:
  "same_ledgers a (snapshot_turn_slice a)" "same_ledgers a (rebase_turn_capture_offset a)"
  "same_ledgers a (set_conversation xs a)" "same_ledgers a (replace_history xs a)" "same_ledgers a (mark_compacted a)"
  "same_ledgers a (persist_message x a)" "same_ledgers a (append_item x a)" "same_ledgers a (prune_retained_conversation a)"
  "same_ledgers a (increment_prompt_index a)" "same_ledgers a (begin_turn_capture a)"
  by (simp_all add: same_ledgers_def snapshot_turn_slice_def rebase_turn_capture_offset_def set_conversation_def
      replace_history_def mark_compacted_def persist_message_def append_item_def prune_retained_conversation_def
      increment_prompt_index_def begin_turn_capture_def Let_def split: option.split)

lemma upd_ledgers:
  "(\<And>s. cs_session_usage (f s) = cs_session_usage s \<and> cs_prompt_usage (f s) = cs_prompt_usage s) \<Longrightarrow> same_ledgers a (upd f a)"
  by (simp add: same_ledgers_def)

lemma upd_ledgers_ok:
  "(\<And>s. cs_session_usage (f s) = cs_session_usage s) \<Longrightarrow> (\<And>s. cs_prompt_usage (f s) = cs_prompt_usage s) \<Longrightarrow>
     ledgers_ok a \<Longrightarrow> ledgers_ok (upd f a)"
  by (simp add: ledgers_ok_def)

lemma emit_ledgers: "same_ledgers a (emit_chat e a)"
  by (simp add: same_ledgers_def)

lemma replace_ledgers: "replace_conversation items b a = Some a' \<Longrightarrow> same_ledgers a a'"
  by (auto simp: replace_conversation_def Let_def same_ledgers_def rebase_turn_capture_offset_def mark_compacted_def
      snapshot_turn_slice_def replace_history_def split: option.splits if_splits)

lemma integrity_ledgers: "same_ledgers a (ensure_conversation_integrity reason a)"
  by (auto simp: ensure_conversation_integrity_def Let_def split: prod.split
      intro!: same_ledgers_trans[OF _ basic_ledgers(2)] same_ledgers_trans[OF _ basic_ledgers(4)] same_ledgers_trans[OF _ basic_ledgers(3)])

lemma count_ledgers: "count_tokens x a = Some a' \<Longrightarrow> same_ledgers a a'"
  by (auto simp: count_tokens_def intro: upd_ledgers)

lemma push_ledgers: "push_message x a = Some a' \<Longrightarrow> same_ledgers a a'"
  by (auto simp: push_message_def split: if_splits intro: count_ledgers same_ledgers_trans[OF _ same_ledgers_trans[OF basic_ledgers(6,7)]]
      same_ledgers_trans[OF basic_ledgers(6,7)])

lemma push_user_ledgers: "push_user_message reason x a = Some a' \<Longrightarrow> same_ledgers a a'"
  by (auto simp: push_user_message_def intro!: same_ledgers_trans[OF _ basic_ledgers(8)] same_ledgers_trans[OF _ basic_ledgers(7)]
      same_ledgers_trans[OF _ basic_ledgers(6)] intro: same_ledgers_trans[OF integrity_ledgers count_ledgers])

lemma restore_ledgers: "restore_snapshot_into snap a = Some a' \<Longrightarrow> same_ledgers a a'"
  by (auto simp: restore_snapshot_into_def Let_def same_ledgers_def rebase_turn_capture_offset_def set_conversation_def
      snapshot_turn_slice_def split: option.splits if_splits)

lemma usage_ledgers:
  "ledgers_ok a \<Longrightarrow> ledgers_ok (upd (record_model_call_usage i t d cost) a)"
  "ledgers_ok a \<Longrightarrow> ledgers_ok (upd (record_subagent_usage by_model attribute incomplete) a)"
  "ledgers_ok a \<Longrightarrow> ledgers_ok (upd (mark_usage_incomplete prompt session) a)"
  by (cases "cs_prompt_usage (ca_state a)"; simp add: ledgers_ok_def record_model_call_usage_def record_subagent_usage_def
      mark_usage_incomplete_def ledger_or_new_def Let_def keeps; fail)+

lemma build_ledgers: "same_ledgers a (fst (build_conversation_request J reminder persist i j a))"
proof -
  let ?p = "fst (persist_reminder reminder persist a)"
  have "same_ledgers a ?p"
    by (auto simp: persist_reminder_def Let_def split: option.split prod.split
        intro!: same_ledgers_trans[OF _ basic_ledgers(2)] same_ledgers_trans[OF _ basic_ledgers(4)] same_ledgers_trans[OF _ basic_ledgers(3)])
  moreover have "same_ledgers ?p (fst (build_conversation_request J reminder persist i j a))"
    by (simp add: build_conversation_request_def Let_def emit_ledgers split: prod.split)
  ultimately show ?thesis by (rule same_ledgers_trans)
qed

lemma step_ledgers:
  assumes "handle_chat_command J c a = Some (a', reply)" "ledgers_ok a"
  shows "ledgers_ok a'"
proof (cases c)
  case (Append_Working_Directory_Switch fault s g)
  have "same_ledgers b a'" if "converge_working_directory_switch g y b = Some a'" for y b
    using that by (auto simp: converge_working_directory_switch_def Let_def upd_ledgers split: option.splits
        intro: same_ledgers_trans[OF count_ledgers basic_ledgers(7)])
  then have "same_ledgers a a'" using assms(1) Append_Working_Directory_Switch
    by (fastforce simp: handle_chat_command_def append_working_directory_switch_def Let_def same_ledgers_def split: prod.splits option.splits)
  then show ?thesis using assms(2) same_ledgers_ok by blast
next
  case (Repair_History dry_run turn_active)
  then have "same_ledgers a a'" using assms(1)
    by (auto simp: handle_chat_command_def repair_history_command_def repair_history_of_def split: if_splits prod.splits
        intro: same_ledgers_trans[OF basic_ledgers(3) replace_ledgers])
  then show ?thesis using assms(2) same_ledgers_ok by blast
next
  case (Replace_System_Head prompt)
  then have "same_ledgers a a'" using assms(1)
    by (auto simp: handle_chat_command_def replace_system_head_def split: if_splits prod.splits intro: replace_ledgers)
  then show ?thesis using assms(2) same_ledgers_ok by blast
next
  case (Build_Conversation_Request reminder persist i j)
  have "same_ledgers a (fst (build_conversation_request J reminder persist i j (ensure_conversation_integrity User_Cancelled a)))"
    by (rule same_ledgers_trans[OF integrity_ledgers build_ledgers])
  then show ?thesis using assms Build_Conversation_Request same_ledgers_ok
    by (auto simp: handle_chat_command_def apsnd_def map_prod_def split: prod.splits)
next
  case (Truncate_To_Prompt_Index target)
  then have "same_ledgers a a'" using assms(1)
    by (auto simp: handle_chat_command_def truncate_command_def truncate_to_prompt_index_def Let_def same_ledgers_def
        replace_history_def split: if_splits)
  then show ?thesis using assms(2) same_ledgers_ok by blast
next
  case Take_Turn_Messages
  then show ?thesis using assms by (auto simp: handle_chat_command_def take_turn_messages_def ledgers_ok_def)
next
  case Take_Harness_Trace_Turns
  then show ?thesis using assms
    by (auto simp: handle_chat_command_def take_harness_trace_turns_def ledgers_ok_def Let_def seal_harness_trace_turn_def)
next
  case Flush_Harness_Trace_Turn
  then show ?thesis using assms
    by (auto simp: handle_chat_command_def acked_def ledgers_ok_def seal_harness_trace_turn_def)
next
  case (Record_Token_Usage n)
  then show ?thesis using assms
    by (auto simp: handle_chat_command_def acked_def record_token_usage_def ledgers_ok_def)
next
  case (Record_Model_Call_Usage i t d cost)
  then show ?thesis using assms usage_ledgers by (auto simp: handle_chat_command_def acked_def)
next
  case (Record_Subagent_Usage by_model attribute incomplete)
  then show ?thesis using assms usage_ledgers by (auto simp: handle_chat_command_def acked_def)
next
  case (Mark_Usage_Incomplete prompt session)
  then show ?thesis using assms usage_ledgers by (auto simp: handle_chat_command_def acked_def)
qed (use assms in \<open>auto simp: handle_chat_command_def acked_def intro: upd_ledgers_ok same_ledgers_ok[rotated]
  push_user_ledgers push_ledgers replace_ledgers restore_ledgers integrity_ledgers upd_ledgers basic_ledgers\<close>)

text \<open>C21: In every reachable state of a chat the ledger of the session and that of the prompt have one entry per
  model, every counter is the sum over the models, up to the largest value it can hold, and a cost is
  known exactly when some model has one.\<close>

theorem reachable_ledgers_add_up:
  assumes "new_chat_actor items config pruning = Some a" "handle_chat_commands J cs a = Some a'"
    "L = cs_session_usage (ca_state a') \<or> cs_prompt_usage (ca_state a') = Some L"
  shows "distinct_keys (ul_by_model L) \<and>
    (\<forall>f \<in> {ut_input, ut_output, ut_cached_read, ut_cache_creation, ut_reasoning, ut_model_calls, ut_duration_ms, ut_cost_missing}.
       f (ul_totals L) = min (sum_list (map (f \<circ> snd) (ul_by_model L))) u64_max) \<and>
    (ut_cost (ul_totals L) = None \<longleftrightarrow> list_all (\<lambda>(_, t). ut_cost t = None) (ul_by_model L))"
proof -
  have "ledgers_ok a" using assms(1)
    by (auto simp: new_chat_actor_def new_chat_state_def Let_def ledgers_ok_def ledger_ok_default)
  then have "ledgers_ok a'" using assms(2)
  proof (induction cs arbitrary: a)
    case (Cons c cs)
    then show ?case using step_ledgers by (fastforce split: option.splits)
  qed simp
  then have "ledger_ok L" using assms(3) by (auto simp: ledgers_ok_def)
  then show ?thesis by (simp add: ledger_ok_def counters_def field_summed_def)
qed

theorem reachable_ledgers_add_up_witness:
  "\<exists>a a'. new_chat_actor [] demo_config default_pruning = Some a \<and>
    handle_chat_commands demo_sizes [Record_Subagent_Usage [(u ''m'', default_totals)] True True] a = Some a' \<and>
    distinct_keys (ul_by_model (cs_session_usage (ca_state a')))"
proof -
  let ?cs = "[Record_Subagent_Usage [(u ''m'', default_totals)] True True]"
  obtain a where a: "new_chat_actor [] demo_config default_pruning = Some a"
    by (simp add: new_chat_actor_def new_chat_state_def estimate_conversation_tokens_def repair_dangling_tool_calls_def Let_def)
  moreover obtain a' where a': "handle_chat_commands demo_sizes ?cs a = Some a'"
    by (simp add: handle_chat_command_def acked_def)
  ultimately show ?thesis using reachable_ledgers_add_up[OF a a', of "cs_session_usage (ca_state a')"] by blast
qed

end
