(* ===== verification/Perm_Grants.thy ===== *)
theory Perm_Grants
  imports Bash_Evaluation
begin

text \<open>
  What a grant of the user settles without asking again (\<open>permission/manager.rs\<close>): the floors that keep
  broad grants from covering a command, and the pre-decisions from the state of the session, each
  with its reason.
\<close>

section \<open>Floors\<close>

text \<open>The pin of a managed policy keeps the always-approve mode off.\<close>

definition clamp_yolo :: "bool \<Rightarrow> bool \<Rightarrow> bool" where
  "clamp_yolo requested pinned \<longleftrightarrow> requested \<and> \<not> pinned"

definition persisted_bash_auto_allows :: "permission_state \<Rightarrow> ustr \<Rightarrow> bool \<Rightarrow> bool" where
  "persisted_bash_auto_allows S cmd pinned \<longleftrightarrow>
     ps_allow_bash S \<and> \<not> pinned \<or> cmd \<in> set (ps_allowed_commands S)"

definition floor_requires_prompt :: "bash_evaluation \<Rightarrow> bool" where
  "floor_requires_prompt e \<longleftrightarrow> \<not> be_exact e \<and> constrains_broad_grant (be_assessment e)"

definition bash_request_floor_requires_prompt :: "bash_evaluation option \<Rightarrow> bool" where
  "bash_request_floor_requires_prompt e = (case e of None \<Rightarrow> False | Some ev \<Rightarrow> floor_requires_prompt ev)"

definition bash_assessment_is_clear :: "bash_evaluation option \<Rightarrow> bool" where
  "bash_assessment_is_clear e = (case e of None \<Rightarrow> True | Some ev \<Rightarrow> be_assessment ev = {})"

definition classifier_assessment :: "bash_evaluation option \<Rightarrow> bool \<Rightarrow> assessment" where
  "classifier_assessment e fail_closed =
     (case e of None \<Rightarrow> {} | Some ev \<Rightarrow> be_assessment ev) \<union> (if fail_closed then {FailClosedPolicy} else {})"

definition sandbox_may_auto_allow_bash :: "bash_evaluation option \<Rightarrow> bool \<Rightarrow> bool" where
  "sandbox_may_auto_allow_bash e active \<longleftrightarrow> active \<and> \<not> bash_request_floor_requires_prompt e"

section \<open>Grants for commands\<close>

record grant_opts =
  go_safe_lists :: bool
  go_blanket :: bool
  go_conservative :: bool

definition pre_classifier :: grant_opts where
  "pre_classifier = \<lparr>go_safe_lists = True, go_blanket = True, go_conservative = True\<rparr>"

definition ask_floor_remember :: grant_opts where
  "ask_floor_remember = \<lparr>go_safe_lists = False, go_blanket = False, go_conservative = False\<rparr>"

definition post_classify :: "bool \<Rightarrow> grant_opts" where
  "post_classify auto_forced =
     \<lparr>go_safe_lists = True, go_blanket = \<not> auto_forced, go_conservative = False\<rparr>"

type_synonym resolution = "(decision \<times> string) option"

definition grant_allow :: "string \<Rightarrow> resolution" where
  "grant_allow reason = Some (Allow, reason)"

definition grant_if :: "bool \<Rightarrow> resolution" where
  "grant_if b = (if b then grant_allow ''session_grant'' else None)"

definition bash_grant_pre_decision ::
  "ustr \<Rightarrow> bash_evaluation \<Rightarrow> permission_state \<Rightarrow> bool \<Rightarrow> grant_opts \<Rightarrow> resolution" where
  "bash_grant_pre_decision cmd e S pinned opts =
     (case be_segments e of
        Segment_Reject reason \<Rightarrow> Some (Reject reason, ''session_deny'')
      | segments \<Rightarrow>
          if floor_requires_prompt e then None
          else (case segments of
              AutoAllow via \<Rightarrow>
                if \<not> go_safe_lists opts \<and> \<not> be_granted e then None
                else grant_allow (if via then ''session_grant'' else ''safe_command'')
            | NeedsPrompts _ \<Rightarrow>
                if \<not> go_blanket opts \<or> go_conservative opts \<and> DangerousCommand \<in> be_assessment e then None
                else grant_if (persisted_bash_auto_allows S cmd pinned)
            | _ \<Rightarrow>
                if \<not> go_blanket opts then None
                else grant_if (if go_conservative opts then be_exact e
                               else persisted_bash_auto_allows S cmd pinned)))"

section \<open>Grants for any access\<close>

record web_access =
  wa_matcher :: domain_matcher
  wa_path :: "ustr \<Rightarrow> ustr"

text \<open>A host on the static allowlist, or one the session has granted.\<close>

definition web_static :: "'g policy_env \<Rightarrow> web_access \<Rightarrow> ustr \<Rightarrow> bool" where
  "web_static E W url = matcher_check E (wa_matcher W) (pv_host E url) (wa_path W url)"

definition web_granted :: "'g policy_env \<Rightarrow> permission_state \<Rightarrow> ustr \<Rightarrow> bool" where
  "web_granted E S url =
     (case pv_host E url of None \<Rightarrow> False | Some h \<Rightarrow> normalize_domain E h \<in> set (ps_web_domains S))"

definition session_grant_pre_decision ::
  "'g policy_env \<Rightarrow> web_access \<Rightarrow> access_kind \<Rightarrow> bash_evaluation option \<Rightarrow> permission_state \<Rightarrow> bool \<Rightarrow>
     bool \<Rightarrow> bool \<Rightarrow> resolution" where
  "session_grant_pre_decision E W a e S allow_edits honor_static pinned =
     (case a of
        MCP_Access name _ \<Rightarrow> map_option (\<lambda>d. (d, ''session_grant'')) (mcp_pre_decision name S False False)
      | WebFetch_Access url \<Rightarrow>
          if honor_static \<and> web_static E W url then grant_allow ''static_allowlist''
          else grant_if (web_granted E S url)
      | Edit_Access _ \<Rightarrow> grant_if allow_edits
      | Bash_Access cmd \<Rightarrow>
          (case e of None \<Rightarrow> None | Some ev \<Rightarrow> bash_grant_pre_decision cmd ev S pinned pre_classifier)
      | _ \<Rightarrow> None)"

end
