(* ===== verification/Perm_Manager.thy ===== *)
theory Perm_Manager
  imports Perm_Grants Auto_Mode
begin

text \<open>
  The permission manager (\<open>permission/manager.rs\<close>): an actor that owns the grants and the modes of a
  session and answers one request at a time. A request brings along what the world does while it
  is served: whether the requester goes away at each point where the code looks, what the
  classifier and the user answer, and whether the file of the grants can be written. What the
  manager is started with is a configuration; the file system, the syntax trees, URLs, JSON texts
  and \<open>git\<close> configurations it asks about are functions in it.
\<close>

section \<open>Data\<close>

datatype prompt_outcome =
  AllowOnce | AllowAlways | AllowEditsForSession
| AllowAlwaysBashCommand ustr | AllowAlwaysBashGlob ustr | AllowAlwaysDomain ustr
| AllowAlwaysMcpTool ustr | AllowAlwaysMcpServer ustr
| RejectOnce | RejectAlwaysBashCommand ustr | Prompt_Cancelled | Prompt_Followup ustr | Prompt_Error ustr

record ('g, 'c) manager_config =
  mc_shell :: "'g shell_env"
  mc_file_gate :: "ustr \<Rightarrow> ustr \<Rightarrow> gate_decision option"
  mc_web :: web_access
  mc_web_default :: bool
  mc_policy :: "'g compiled_policy option"
  mc_prompt :: prompt_policy
  mc_pinned :: bool
  mc_remember :: bool
  mc_cwd :: ustr
  mc_classifier :: 'c
  mc_protected :: "ustr \<Rightarrow> ustr option \<Rightarrow> ustr \<Rightarrow> bool"
  mc_decision_args :: "access_kind \<Rightarrow> ustr option \<Rightarrow> ustr"
  mc_mcp_detail :: "ustr \<Rightarrow> ustr \<Rightarrow> ustr"

record 'c request =
  rq_access :: access_kind
  rq_context :: "(ustr \<times> ustr option) option"
  rq_gone_queued :: bool
  rq_gone_scan :: bool
  rq_gone_classify :: bool
  rq_gone_prompt :: bool
  rq_gone_end :: bool
  rq_config_risk :: "ustr \<Rightarrow> bool"
  rq_classify :: "'c \<Rightarrow> ustr \<Rightarrow> access_kind \<Rightarrow> ustr option \<Rightarrow> classifier_context \<Rightarrow> classifier_outcome"
  rq_sandbox :: bool
  rq_answer :: prompt_outcome
  rq_written :: bool

record 'c perm_actor =
  ac_state :: permission_state
  ac_disk :: "permission_state option"
  ac_yolo :: bool
  ac_auto :: bool
  ac_classifier :: "'c option"
  ac_consecutive :: nat
  ac_total :: nat
  ac_turns :: "classifier_turn list"
  ac_recorded :: "classifier_turn list"
  ac_instructions :: "ustr option"
  ac_pin_logged :: bool
  ac_allow_edits :: bool

record perm_event =
  pe_tool :: ustr
  pe_kind :: string
  pe_detail :: "ustr option"
  pe_yolo :: bool
  pe_approved :: bool
  pe_prompted :: bool
  pe_decision :: string
  pe_outcome :: "string option"
  pe_reject :: "ustr option"
  pe_mode :: string
  pe_reason :: string
  pe_source :: "string option"
  pe_consecutive :: "nat option"
  pe_total :: "nat option"

text \<open>A ruling is a decision, whether it counts as an automatic approval, and its reason.\<close>

type_synonym ruling = "decision \<times> bool \<times> string"

definition deny_consecutive_limit :: nat where "deny_consecutive_limit = 3"

definition deny_total_limit :: nat where "deny_total_limit = 20"

definition max_recorded_decisions :: nat where "max_recorded_decisions = 12"

section \<open>Events\<close>

definition access_kind_text :: "access_kind \<Rightarrow> string" where
  "access_kind_text a =
     (case a of
        Read_Access _ \<Rightarrow> ''read'' | Grep_Access _ _ \<Rightarrow> ''grep'' | Edit_Access _ \<Rightarrow> ''edit''
      | Bash_Access _ \<Rightarrow> ''bash'' | MCP_Access _ _ \<Rightarrow> ''mcp'' | WebFetch_Access _ \<Rightarrow> ''web_fetch''
      | WebSearch_Access _ \<Rightarrow> ''web_search'')"

definition access_detail :: "('g, 'c) manager_config \<Rightarrow> access_kind \<Rightarrow> ustr option" where
  "access_detail C a =
     (case a of
        Read_Access _ \<Rightarrow> None | Grep_Access path _ \<Rightarrow> path | Edit_Access p \<Rightarrow> Some p
      | Bash_Access cmd \<Rightarrow> Some cmd | MCP_Access name input \<Rightarrow> Some (mc_mcp_detail C name input)
      | WebFetch_Access url \<Rightarrow> Some url | WebSearch_Access q \<Rightarrow> Some q)"

definition decision_text :: "decision \<Rightarrow> string \<times> ustr option" where
  "decision_text d =
     (case d of
        Allow \<Rightarrow> (''allow'', None) | Ask \<Rightarrow> (''ask'', None) | Reject r \<Rightarrow> (''reject'', Some r)
      | PolicyDeny r \<Rightarrow> (''reject'', Some r) | FollowupMessage _ \<Rightarrow> (''followup'', None)
      | Cancelled \<Rightarrow> (''cancelled'', None))"

definition mode_text :: "'c perm_actor \<Rightarrow> string" where
  "mode_text A = (if ac_yolo A then ''always-approve'' else if ac_auto A then ''auto'' else ''ask'')"

text \<open>The event of a decision; the second actor holds the counters at that time.\<close>

definition emit_event ::
  "('g, 'c) manager_config \<Rightarrow> 'c perm_actor \<Rightarrow> 'c perm_actor \<Rightarrow> access_kind \<Rightarrow> string option \<Rightarrow>
     decision \<Rightarrow> bool \<Rightarrow> bool \<Rightarrow> string option \<Rightarrow> string \<Rightarrow> perm_event" where
  "emit_event C A B a source d approved prompted outcome reason =
     \<lparr>pe_tool = tool_name_for_access a, pe_kind = access_kind_text a, pe_detail = access_detail C a,
      pe_yolo = ac_yolo A, pe_approved = approved, pe_prompted = prompted,
      pe_decision = fst (decision_text d), pe_outcome = outcome, pe_reject = snd (decision_text d),
      pe_mode = mode_text A, pe_reason = reason, pe_source = source,
      pe_consecutive = (if ac_auto A then Some (ac_consecutive B) else None),
      pe_total = (if ac_auto A then Some (ac_total B) else None)\<rparr>"

section \<open>Before any decision\<close>

definition request_cwd :: "('g, 'c) manager_config \<Rightarrow> 'c request \<Rightarrow> ustr" where
  "request_cwd C r = (case rq_context r of None \<Rightarrow> mc_cwd C | Some (cwd, _) \<Rightarrow> cwd)"

text \<open>The evaluation of a command, and whether the configurations of \<open>git\<close> were looked at.\<close>

definition request_evaluation ::
  "('g, 'c) manager_config \<Rightarrow> 'c perm_actor \<Rightarrow> 'c request \<Rightarrow> (bash_evaluation \<times> bool) option" where
  "request_evaluation C A r =
     (case rq_access r of
        Bash_Access cmd \<Rightarrow>
          (let e = evaluate_bash (mc_shell C) cmd (ac_state A) True in
           case be_ambient e of
             None \<Rightarrow> Some (e, False)
           | Some raws \<Rightarrow>
               (let risk = ambient_exec_risk_from_plan (rq_config_risk r)
                       (ambient_scan_plan_from_segments raws (request_cwd C r))
                in Some (e\<lparr>be_ambient := None,
                           be_assessment := (if risk then insert ExecOrAmbientGit (be_assessment e)
                                             else be_assessment e)\<rparr>, True)))
      | _ \<Rightarrow> None)"

definition protected_edit :: "('g, 'c) manager_config \<Rightarrow> 'c request \<Rightarrow> bool" where
  "protected_edit C r =
     (case rq_access r of
        Edit_Access path \<Rightarrow>
          (case rq_context r of
             Some (cwd, display) \<Rightarrow> mc_protected C cwd display path
           | None \<Rightarrow> mc_protected C (mc_cwd C) None path)
      | _ \<Rightarrow> False)"

definition request_preflight :: "('g, 'c) manager_config \<Rightarrow> 'c perm_actor \<Rightarrow> 'c request \<Rightarrow> preflight" where
  "request_preflight C A r =
     evaluate_preflight (sh_policy (mc_shell C)) (mc_file_gate C) (mc_policy C) (rq_access r)
       (request_cwd C r) (ac_auto A)"

section \<open>Rulings before the classifier\<close>

text \<open>What is known of a request once it has been looked at.\<close>

record request_facts =
  rf_eval :: "bash_evaluation option"
  rf_protected :: bool
  rf_preflight :: preflight

definition no_floor :: "request_facts \<Rightarrow> bool" where
  "no_floor f \<longleftrightarrow>
     \<not> policy_forced_prompt (rf_preflight f) \<and> \<not> shell_forced_prompt (rf_preflight f) \<and> \<not> rf_protected f"

definition policy_denial :: "request_facts \<Rightarrow> ruling option" where
  "policy_denial f =
     (case policy_decision (rf_preflight f) of
        Some (Reject reason) \<Rightarrow> Some (PolicyDeny reason, False, ''policy_deny'')
      | _ \<Rightarrow> None)"

definition session_grant :: "('g, 'c) manager_config \<Rightarrow> 'c perm_actor \<Rightarrow> 'c request \<Rightarrow> request_facts \<Rightarrow> resolution" where
  "session_grant C A r f =
     (if no_floor f then
        session_grant_pre_decision (sh_policy (mc_shell C)) (mc_web C) (rq_access r) (rf_eval f)
          (ac_state A) (ac_allow_edits A) (\<not> (ac_auto A \<and> mc_web_default C)) (mc_pinned C)
      else None)"

definition early_ruling :: "('g, 'c) manager_config \<Rightarrow> 'c perm_actor \<Rightarrow> 'c request \<Rightarrow> request_facts \<Rightarrow> ruling option" where
  "early_ruling C A r f =
     (case policy_denial f of
        Some x \<Rightarrow> Some x
      | None \<Rightarrow>
          if ac_yolo A \<and> \<not> shell_forced_prompt (rf_preflight f) then Some (Allow, True, ''yolo'')
          else case session_grant C A r f of
              Some (d, reason) \<Rightarrow> Some (d, True, reason)
            | None \<Rightarrow>
                if ac_auto A \<and> no_floor f \<and> bash_assessment_is_clear (rf_eval f) \<and>
                    policy_decision (rf_preflight f) = Some Allow
                then Some (Allow, True, ''policy_allow'')
                else None)"

section \<open>Auto mode\<close>

text \<open>How the stage leaves the request: with a ruling or not, and with the reason of a prompt it has
  decided on. The actor carries the counters.\<close>

record 'c auto_result =
  ar_actor :: "'c perm_actor"
  ar_source :: "string option"
  ar_ruling :: "ruling option"
  ar_forced :: "string option"

definition guidance :: ustr where
  "guidance = u ''Take a safer approach that stays within what the user asked for; do not retry this exact action or attempt to work around the denial. If no safer alternative exists, ask the user how to proceed.''"

definition blocked_text :: "ustr option \<Rightarrow> ustr" where
  "blocked_text reason =
     (case reason of
        Some t \<Rightarrow> u ''Auto mode blocked this action ('' @ trim_end_char 46 t @ u ''). '' @ guidance
      | None \<Rightarrow> u ''Auto mode blocked this action. '' @ guidance)"

text \<open>\<open>None\<close> when the requester goes away while the classifier is asked.\<close>

definition classifier_context_of :: "'c perm_actor \<Rightarrow> request_facts \<Rightarrow> classifier_context" where
  "classifier_context_of A f =
     \<lparr>cc_turns = ac_turns A @ ac_recorded A, cc_instructions = ac_instructions A,
      cc_findings = classifier_assessment (rf_eval f) (pf_defers (rf_preflight f))\<rparr>"

definition classify_request ::
  "('g, 'c) manager_config \<Rightarrow> 'c perm_actor \<Rightarrow> 'c request \<Rightarrow> request_facts \<Rightarrow> classifier_outcome option" where
  "classify_request C A r f =
     (case ac_classifier A of
        None \<Rightarrow> Some (heuristic_outcome Verdict_Unavailable)
      | Some c \<Rightarrow>
          if rq_gone_classify r then None
          else Some (rq_classify r c (tool_name_for_access (rq_access r)) (rq_access r)
                      (access_detail C (rq_access r)) (classifier_context_of A f)))"

definition within_budget :: "'c perm_actor \<Rightarrow> bool" where
  "within_budget A \<longleftrightarrow> ac_consecutive A < deny_consecutive_limit \<and> ac_total A < deny_total_limit"

definition follow_verdict :: "'c perm_actor \<Rightarrow> classifier_outcome \<Rightarrow> 'c auto_result" where
  "follow_verdict A out =
     (let source = Some (source_text (co_provenance out));
          prompt = (\<lambda>reason. \<lparr>ar_actor = A, ar_source = source, ar_ruling = None, ar_forced = Some reason\<rparr>)
      in case co_verdict out of
           Verdict_Allow \<Rightarrow>
             \<lparr>ar_actor = A\<lparr>ac_consecutive := 0\<rparr>, ar_source = source,
              ar_ruling = Some (Allow, True, ''auto_classifier_allow''), ar_forced = None\<rparr>
         | Verdict_Block \<Rightarrow>
             if within_budget A then
               \<lparr>ar_actor = A\<lparr>ac_consecutive := ac_consecutive A + 1, ac_total := ac_total A + 1\<rparr>,
                ar_source = source,
                ar_ruling = Some (PolicyDeny (blocked_text (co_reason out)), False, ''auto_classifier_deny''),
                ar_forced = None\<rparr>
             else prompt ''auto_denial_limit''
         | Verdict_Unavailable \<Rightarrow>
             prompt (if is_timeout out then ''auto_classifier_timeout'' else ''auto_classifier_unavailable''))"

definition auto_stage ::
  "('g, 'c) manager_config \<Rightarrow> 'c perm_actor \<Rightarrow> 'c request \<Rightarrow> request_facts \<Rightarrow> 'c auto_result option" where
  "auto_stage C A r f =
     (let pass = \<lparr>ar_actor = A, ar_source = None, ar_ruling = None, ar_forced = None\<rparr>;
          tool = tool_name_for_access (rq_access r);
          interactive = (rf_protected f \<or> access_requires_user_interaction tool (rq_access r))
      in if ac_auto A \<and> admits_auto_classifier (rf_preflight f) then
           (case auto_mode_fast_path (rq_access r) tool interactive of
              Fast_Allow \<Rightarrow>
                Some (pass\<lparr>ar_source := Some ''fast_path'', ar_ruling := Some (Allow, True, ''auto_fast_path'')\<rparr>)
            | Fast_Prompt \<Rightarrow> Some (pass\<lparr>ar_forced := Some ''needs_user''\<rparr>)
            | Fast_Classify \<Rightarrow> map_option (follow_verdict A) (classify_request C A r f))
         else Some pass)"

section \<open>Rulings after the classifier\<close>

definition is_bash :: "access_kind \<Rightarrow> bool" where
  "is_bash a = (case a of Bash_Access _ \<Rightarrow> True | _ \<Rightarrow> False)"

text \<open>The sandbox and the allow rules of the policy; the flag says that auto mode wants a prompt.\<close>

definition late_ruling :: "'c request \<Rightarrow> request_facts \<Rightarrow> bool \<Rightarrow> ruling option" where
  "late_ruling r f forced =
     (if is_bash (rq_access r) \<and> sandbox_may_auto_allow_bash (rf_eval f) (rq_sandbox r) \<and>
         \<not> policy_forced_prompt (rf_preflight f) \<and> \<not> forced
      then Some (Allow, True, ''sandbox_auto'')
      else case policy_decision (rf_preflight f) of
          None \<Rightarrow> None
        | Some d \<Rightarrow>
            if d = Ask then None
            else if d = Allow \<and> (rf_protected f \<or> forced \<or> bash_request_floor_requires_prompt (rf_eval f))
            then None
            else Some (d, True, ''policy_allow''))"

definition edit_pre_decision :: "'c perm_actor \<Rightarrow> bool \<Rightarrow> resolution" where
  "edit_pre_decision A protected =
     (if ac_allow_edits A \<and> \<not> protected then grant_allow ''persisted_grant''
      else if ps_edit_policy (ac_state A) = Edit_Reject
      then Some (Reject (u ''edits prohibited''), ''session_deny'')
      else None)"

definition bash_pre_decision ::
  "('g, 'c) manager_config \<Rightarrow> 'c perm_actor \<Rightarrow> ustr \<Rightarrow> request_facts \<Rightarrow> bool \<Rightarrow> resolution" where
  "bash_pre_decision C A cmd f forced =
     (case rf_eval f of
        None \<Rightarrow> None
      | Some e \<Rightarrow>
          if floor_requires_prompt e then None
          else if policy_forced_prompt (rf_preflight f) then
            (if mc_remember C \<and> \<not> forced \<and> \<not> shell_file_forced_prompt (rf_preflight f)
             then bash_grant_pre_decision cmd e (ac_state A) (mc_pinned C) ask_floor_remember
             else None)
          else bash_grant_pre_decision cmd e (ac_state A) (mc_pinned C) (post_classify forced))"

definition pre_decision ::
  "('g, 'c) manager_config \<Rightarrow> 'c perm_actor \<Rightarrow> access_kind \<Rightarrow> request_facts \<Rightarrow> bool \<Rightarrow> resolution" where
  "pre_decision C A a f forced =
     (let asked = policy_forced_prompt (rf_preflight f); P = sh_policy (mc_shell C) in
      case a of
        Read_Access _ \<Rightarrow> if asked then None else grant_allow ''safe_command''
      | Grep_Access _ _ \<Rightarrow> if asked then None else grant_allow ''safe_command''
      | WebSearch_Access _ \<Rightarrow> grant_allow ''safe_command''
      | MCP_Access name _ \<Rightarrow>
          map_option (\<lambda>d. (d, ''persisted_grant'')) (mcp_pre_decision name (ac_state A) asked (mc_remember C))
      | Edit_Access _ \<Rightarrow> edit_pre_decision A (rf_protected f)
      | Bash_Access cmd \<Rightarrow> bash_pre_decision C A cmd f forced
      | WebFetch_Access url \<Rightarrow>
          if web_static P (mc_web C) url then grant_allow ''static_allowlist''
          else if web_granted P (ac_state A) url then grant_allow ''persisted_grant''
          else None)"

text \<open>A prompt that auto mode wants is not undone by an allowance of anything but a command.\<close>

definition settled :: "('g, 'c) manager_config \<Rightarrow> 'c perm_actor \<Rightarrow> access_kind \<Rightarrow> request_facts \<Rightarrow> bool \<Rightarrow> resolution" where
  "settled C A a f forced =
     (case pre_decision C A a f forced of
        None \<Rightarrow> None
      | Some (d, reason) \<Rightarrow> if forced \<and> \<not> is_bash a \<and> d = Allow then None else Some (d, reason))"

section \<open>Asking the user\<close>

definition persist :: "'c request \<Rightarrow> 'c perm_actor \<Rightarrow> 'c perm_actor" where
  "persist r A = (if rq_written r then A\<lparr>ac_disk := Some (ac_state A)\<rparr> else A)"

definition grant :: "'c request \<Rightarrow> (permission_state \<Rightarrow> permission_state) \<Rightarrow> 'c perm_actor \<Rightarrow> 'c perm_actor" where
  "grant r g A = persist r (A\<lparr>ac_state := g (ac_state A)\<rparr>)"

definition allow_command :: "ustr \<Rightarrow> permission_state \<Rightarrow> permission_state" where
  "allow_command cmd S = S\<lparr>ps_allowed_commands := hs_insert cmd (ps_allowed_commands S)\<rparr>"

definition add_glob :: "ustr \<Rightarrow> permission_state \<Rightarrow> permission_state" where
  "add_glob g S = S\<lparr>ps_allowed_globs := hs_insert g (ps_allowed_globs S)\<rparr>"

definition add_disallowed :: "ustr \<Rightarrow> permission_state \<Rightarrow> permission_state" where
  "add_disallowed p S = S\<lparr>ps_disallowed_commands := hs_insert p (ps_disallowed_commands S)\<rparr>"

definition add_domain :: "ustr \<Rightarrow> permission_state \<Rightarrow> permission_state" where
  "add_domain d S = S\<lparr>ps_web_domains := hs_insert d (ps_web_domains S)\<rparr>"

definition add_tool :: "ustr \<Rightarrow> permission_state \<Rightarrow> permission_state" where
  "add_tool name S = S\<lparr>ps_mcp_tools := hs_insert name (ps_mcp_tools S)\<rparr>"

definition add_server :: "ustr \<Rightarrow> permission_state \<Rightarrow> permission_state" where
  "add_server s S = S\<lparr>ps_mcp_servers := hs_insert s (ps_mcp_servers S)\<rparr>"

definition rejected :: decision where
  "rejected = Reject (u ''User rejected the execution'')"

definition prompt_failed :: "ustr \<Rightarrow> decision" where
  "prompt_failed e = Reject (u ''Failed to request permission from user: '' @ e)"

text \<open>What an answer does for a command, and for anything else: the actor, the decision and the outcome.\<close>

definition answer_bash ::
  "'c request \<Rightarrow> ustr \<Rightarrow> prompt_outcome \<Rightarrow> 'c perm_actor \<Rightarrow> 'c perm_actor \<times> decision \<times> string" where
  "answer_bash r cmd out A =
     (case out of
        AllowOnce \<Rightarrow> (A, Allow, ''allow_once'')
      | AllowAlways \<Rightarrow> (grant r (allow_command cmd) A, Allow, ''allow_always'')
      | AllowAlwaysBashCommand prefix \<Rightarrow> (grant r (allow_command prefix) A, Allow, ''allow_always_bash'')
      | AllowAlwaysBashGlob pat \<Rightarrow> (grant r (add_glob pat) A, Allow, ''allow_always_bash_glob'')
      | RejectOnce \<Rightarrow> (A, rejected, ''reject_once'')
      | RejectAlwaysBashCommand prefix \<Rightarrow>
          (grant r (add_disallowed prefix) A,
           Reject (u ''User rejected the execution and excluded '' @ prefix @ u '' from this session''),
           ''reject_always_bash'')
      | Prompt_Cancelled \<Rightarrow> (A, Cancelled, ''cancelled'')
      | Prompt_Followup msg \<Rightarrow> (A, FollowupMessage msg, ''followup'')
      | Prompt_Error e \<Rightarrow> (A, prompt_failed e, ''error'')
      | _ \<Rightarrow> (A, Allow, ''allow_once''))"

definition grant_server :: "'c request \<Rightarrow> ustr \<Rightarrow> ustr \<Rightarrow> 'c perm_actor \<Rightarrow> 'c perm_actor" where
  "grant_server r name supplied A =
     (case parse_mcp_qualified_name name of
        Some (server, _) \<Rightarrow>
          if server = supplied then grant r (add_server server) A else grant r (add_tool name) A
      | None \<Rightarrow> grant r (add_tool name) A)"

definition answer_other ::
  "'c request \<Rightarrow> access_kind \<Rightarrow> prompt_outcome \<Rightarrow> 'c perm_actor \<Rightarrow> 'c perm_actor \<times> decision \<times> string" where
  "answer_other r a out A =
     (case out of
        AllowOnce \<Rightarrow> (A, Allow, ''allow_once'')
      | AllowEditsForSession \<Rightarrow> (A\<lparr>ac_allow_edits := True\<rparr>, Allow, ''allow_edits_for_session'')
      | AllowAlways \<Rightarrow>
          (case a of MCP_Access name _ \<Rightarrow> grant r (add_tool name) A | _ \<Rightarrow> persist r A, Allow, ''allow_always'')
      | AllowAlwaysBashCommand _ \<Rightarrow> (A, Allow, ''allow_always_bash'')
      | AllowAlwaysBashGlob _ \<Rightarrow> (A, Allow, ''allow_always_bash'')
      | AllowAlwaysDomain domain \<Rightarrow>
          (case a of WebFetch_Access _ \<Rightarrow> grant r (add_domain domain) A | _ \<Rightarrow> A, Allow, ''allow_always_domain'')
      | AllowAlwaysMcpTool _ \<Rightarrow>
          (case a of MCP_Access name _ \<Rightarrow> grant r (add_tool name) A | _ \<Rightarrow> A, Allow, ''allow_always_mcp_tool'')
      | AllowAlwaysMcpServer supplied \<Rightarrow>
          (case a of MCP_Access name _ \<Rightarrow> grant_server r name supplied A | _ \<Rightarrow> A,
           Allow, ''allow_always_mcp_server'')
      | RejectAlwaysBashCommand _ \<Rightarrow> (A, rejected, ''reject_always_bash'')
      | RejectOnce \<Rightarrow> (A, rejected, ''reject_once'')
      | Prompt_Cancelled \<Rightarrow> (A, Cancelled, ''cancelled'')
      | Prompt_Error e \<Rightarrow> (A, prompt_failed e, ''error'')
      | Prompt_Followup msg \<Rightarrow> (A, FollowupMessage msg, ''followup''))"

definition answer_prompt ::
  "'c request \<Rightarrow> 'c perm_actor \<Rightarrow> 'c perm_actor \<times> decision \<times> string" where
  "answer_prompt r A =
     (case rq_access r of
        Bash_Access cmd \<Rightarrow> answer_bash r cmd (rq_answer r) A
      | a \<Rightarrow> answer_other r a (rq_answer r) A)"

definition prompted_decision_approved :: "decision \<Rightarrow> string \<Rightarrow> bool option" where
  "prompted_decision_approved d outcome =
     (case d of
        Allow \<Rightarrow> Some True
      | Reject _ \<Rightarrow> if outcome \<noteq> ''error'' then Some False else None
      | _ \<Rightarrow> None)"

definition record_decision ::
  "('g, 'c) manager_config \<Rightarrow> access_kind \<Rightarrow> decision \<Rightarrow> string \<Rightarrow> 'c perm_actor \<Rightarrow> 'c perm_actor" where
  "record_decision C a d outcome A =
     (case prompted_decision_approved d outcome of
        None \<Rightarrow> A
      | Some ok \<Rightarrow>
          (let turns = ac_recorded A @
                 [PermissionDecision (tool_name_for_access a) (mc_decision_args C a (access_detail C a)) ok]
           in A\<lparr>ac_recorded := drop (length turns - max_recorded_decisions) turns\<rparr>))"

definition floor_trigger :: "request_facts \<Rightarrow> string" where
  "floor_trigger f =
     (if (case rf_eval f of None \<Rightarrow> False | Some e \<Rightarrow> \<not> be_exact e \<and> OpaqueShell \<in> be_assessment e)
      then ''opaque_shell''
      else if bash_request_floor_requires_prompt (rf_eval f) then ''bash_request_floor''
      else ''needs_user'')"

section \<open>A request\<close>

type_synonym 'c perm_reply = "'c perm_actor \<times> perm_event \<times> decision option"

text \<open>The requester is gone: an event but no answer.\<close>

definition abandoned ::
  "('g, 'c) manager_config \<Rightarrow> 'c perm_actor \<Rightarrow> 'c perm_actor \<Rightarrow> access_kind \<Rightarrow> string option \<Rightarrow> 'c perm_reply" where
  "abandoned C A B a source =
     (B, emit_event C A B a source Cancelled False False None ''requester_gone'', None)"

definition ruled ::
  "('g, 'c) manager_config \<Rightarrow> 'c perm_actor \<Rightarrow> 'c perm_actor \<Rightarrow> access_kind \<Rightarrow> string option \<Rightarrow> ruling \<Rightarrow> 'c perm_reply" where
  "ruled C A B a source x =
     (case x of (d, approved, reason) \<Rightarrow>
        (B, emit_event C A B a source d approved False None reason, Some d))"

definition prompt_stage ::
  "('g, 'c) manager_config \<Rightarrow> 'c perm_actor \<Rightarrow> 'c auto_result \<Rightarrow> 'c request \<Rightarrow> request_facts \<Rightarrow> 'c perm_reply" where
  "prompt_stage C A t r f =
     (let a = rq_access r;
          trigger = (case prompt_trigger (rf_preflight f) (ar_forced t) of
              Some x \<Rightarrow> x | None \<Rightarrow> floor_trigger f)
      in if rq_gone_prompt r then abandoned C A (ar_actor t) a (ar_source t)
         else case answer_prompt r (ar_actor t) of (A1, d, outcome) \<Rightarrow>
           (let A2 = record_decision C a d outcome A1;
                gone = (d = Cancelled \<and> rq_gone_end r);
                A3 = (if outcome \<noteq> ''error'' \<and> \<not> gone then A2\<lparr>ac_consecutive := 0\<rparr> else A2)
            in (A3, emit_event C A A3 a (ar_source t) d False True (Some outcome)
                      (if gone then ''requester_gone'' else trigger), Some d)))"

definition after_auto ::
  "('g, 'c) manager_config \<Rightarrow> 'c perm_actor \<Rightarrow> 'c auto_result \<Rightarrow> 'c request \<Rightarrow> request_facts \<Rightarrow> 'c perm_reply" where
  "after_auto C A t r f =
     (let a = rq_access r; B = ar_actor t; forced = (ar_forced t \<noteq> None) in
      case ar_ruling t of
        Some x \<Rightarrow> ruled C A B a (ar_source t) x
      | None \<Rightarrow>
          (case late_ruling r f forced of
             Some x \<Rightarrow> ruled C A B a (ar_source t) x
           | None \<Rightarrow>
               (case settled C B a f forced of
                  Some (d, reason) \<Rightarrow> ruled C A B a (ar_source t) (d, True, reason)
                | None \<Rightarrow>
                    if mc_prompt C = Prompt_Deny then
                      ruled C A B a (ar_source t)
                        (PolicyDeny (u ''denied by prompt policy (tool not pre-approved)''), False, ''prompt_deny'')
                    else prompt_stage C A t r f)))"

definition facts_of ::
  "('g, 'c) manager_config \<Rightarrow> 'c perm_actor \<Rightarrow> 'c request \<Rightarrow> request_facts" where
  "facts_of C A r =
     \<lparr>rf_eval = map_option fst (request_evaluation C A r), rf_protected = protected_edit C r,
      rf_preflight = request_preflight C A r\<rparr>"

definition handle_request :: "('g, 'c) manager_config \<Rightarrow> 'c perm_actor \<Rightarrow> 'c request \<Rightarrow> 'c perm_reply" where
  "handle_request C A r =
     (let a = rq_access r; f = facts_of C A r;
          scanned = (case request_evaluation C A r of None \<Rightarrow> False | Some (_, s) \<Rightarrow> s)
      in if rq_gone_queued r then abandoned C A A a None
         else if scanned \<and> rq_gone_scan r then abandoned C A A a None
         else case early_ruling C A r f of
             Some x \<Rightarrow> ruled C A A a None x
           | None \<Rightarrow>
               (case auto_stage C A r f of
                  None \<Rightarrow> abandoned C A A a None
                | Some t \<Rightarrow> after_auto C A t r f))"

section \<open>Commands\<close>

datatype 'c perm_command =
  Request "'c request"
| SetYoloMode bool
| SetAutoMode bool
| SetClassifier "'c option"
| SetClassifierTranscript "classifier_turn list"
| SetProjectInstructions "ustr option"
| ResetState bool

text \<open>The flag of a reset says whether the file could be written.\<close>

definition set_yolo :: "('g, 'c) manager_config \<Rightarrow> bool \<Rightarrow> 'c perm_actor \<Rightarrow> 'c perm_actor" where
  "set_yolo C enabled A =
     (let clamped = clamp_yolo enabled (mc_pinned C) in
      A\<lparr>ac_pin_logged := ac_pin_logged A \<or> enabled \<and> \<not> clamped, ac_yolo := clamped,
        ac_auto := ac_auto A \<and> \<not> clamped\<rparr>)"

definition set_auto :: "('g, 'c) manager_config \<Rightarrow> bool \<Rightarrow> 'c perm_actor \<Rightarrow> 'c perm_actor" where
  "set_auto C enabled A =
     (if enabled then
        A\<lparr>ac_auto := True, ac_yolo := False,
          ac_classifier := (case ac_classifier A of None \<Rightarrow> Some (mc_classifier C) | c \<Rightarrow> c)\<rparr>
      else A\<lparr>ac_auto := False\<rparr>)"

definition reset_state :: "bool \<Rightarrow> 'c perm_actor \<Rightarrow> 'c perm_actor" where
  "reset_state written A =
     A\<lparr>ac_state := default_state, ac_disk := (if written then Some default_state else ac_disk A),
       ac_allow_edits := False\<rparr>"

fun handle_perm_command ::
  "('g, 'c) manager_config \<Rightarrow> 'c perm_command \<Rightarrow> 'c perm_actor \<Rightarrow> 'c perm_actor" where
  "handle_perm_command C (Request r) A = fst (handle_request C A r)"
| "handle_perm_command C (SetYoloMode b) A = set_yolo C b A"
| "handle_perm_command C (SetAutoMode b) A = set_auto C b A"
| "handle_perm_command C (SetClassifier c) A = A\<lparr>ac_classifier := c\<rparr>"
| "handle_perm_command C (SetClassifierTranscript ts) A = A\<lparr>ac_turns := ts\<rparr>"
| "handle_perm_command C (SetProjectInstructions i) A = A\<lparr>ac_instructions := i\<rparr>"
| "handle_perm_command C (ResetState w) A = reset_state w A"

definition run_commands :: "('g, 'c) manager_config \<Rightarrow> 'c perm_command list \<Rightarrow> 'c perm_actor \<Rightarrow> 'c perm_actor" where
  "run_commands C cs A = fold (handle_perm_command C) cs A"

text \<open>The actor at the start: the mode asked for, the stored grants and whether their file can be
  rewritten.\<close>

definition start_manager ::
  "('g, 'c) manager_config \<Rightarrow> bool \<Rightarrow> permission_state \<Rightarrow> permission_state option \<Rightarrow> bool \<Rightarrow> 'c perm_actor" where
  "start_manager C yolo loaded disk written =
     (let y = clamp_yolo yolo (mc_pinned C); S = downgrade_edits loaded in
      \<lparr>ac_state = S, ac_disk = (if S \<noteq> loaded \<and> written then Some S else disk), ac_yolo = y,
       ac_auto = (\<not> y \<and> mc_prompt C = Prompt_Auto), ac_classifier = Some (mc_classifier C),
       ac_consecutive = 0, ac_total = 0, ac_turns = [], ac_recorded = [], ac_instructions = None,
       ac_pin_logged = False, ac_allow_edits = False\<rparr>)"

end
