(* ===== verification/Perm_Facts.thy ===== *)
theory Perm_Facts
  imports Perm_Gate Shell_Properties "HOL-Library.Multiset"
begin

text \<open>
  What the policy decides: the scan of the rules in terms of the rules that apply, the commands a
  script runs however deep its inline scripts nest, and the two recursions over them.
\<close>

section \<open>The scan of the rules\<close>

definition some_rule ::
  "'g policy_env \<Rightarrow> 'g compiled_policy \<Rightarrow> access_kind \<Rightarrow> ustr option \<Rightarrow> rule_action \<Rightarrow> bool" where
  "some_rule E P a cwd act \<longleftrightarrow> (\<exists>cr \<in> set (cp_rules P). pr_action (fst cr) = act \<and> applies E a cwd cr)"

lemma scan_rules_cases:
  "(case scan_rules E a cwd crs ask allow of
      Inl reason \<Rightarrow> \<exists>cr \<in> set crs. pr_action (fst cr) = Deny_Rule \<and> applies E a cwd cr \<and> reason = deny_reason (fst cr)
    | Inr (k, l) \<Rightarrow>
        (\<forall>cr \<in> set crs. pr_action (fst cr) = Deny_Rule \<longrightarrow> \<not> applies E a cwd cr) \<and>
        (k \<longleftrightarrow> ask \<or> (\<exists>cr \<in> set crs. pr_action (fst cr) = Ask_Rule \<and> applies E a cwd cr)) \<and>
        (l \<longleftrightarrow> allow \<or> (\<exists>cr \<in> set crs. pr_action (fst cr) = Allow_Rule \<and> applies E a cwd cr)))"
proof (induction crs arbitrary: ask allow)
  case (Cons cr crs)
  show ?case
  proof (cases "applies E a cwd cr")
    case True
    then show ?thesis using Cons[of True allow] Cons[of ask True]
      by (cases "pr_action (fst cr)") (auto split: sum.splits)
  next
    case False
    then show ?thesis using Cons[of ask allow] by (auto split: sum.splits)
  qed
qed simp

lemma scan_result:
  obtains (denied) reason where "some_rule E P a cwd Deny_Rule"
      "scan_rules E a cwd (cp_rules P) False False = Inl reason"
  | (passed) "\<not> some_rule E P a cwd Deny_Rule"
      "scan_rules E a cwd (cp_rules P) False False =
        Inr (some_rule E P a cwd Ask_Rule, some_rule E P a cwd Allow_Rule)"
proof (cases "scan_rules E a cwd (cp_rules P) False False")
  case (Inl reason)
  then show ?thesis
    using scan_rules_cases[where E = E and a = a and cwd = cwd and crs = "cp_rules P" and ask = False and allow = False]
    by (intro denied[of reason]) (auto simp: some_rule_def)
next
  case (Inr kl)
  obtain k l where kl: "kl = (k, l)" by fastforce
  have "\<not> some_rule E P a cwd Deny_Rule \<and> k = some_rule E P a cwd Ask_Rule \<and> l = some_rule E P a cwd Allow_Rule"
    using scan_rules_cases[where E = E and a = a and cwd = cwd and crs = "cp_rules P" and ask = False and allow = False]
    unfolding Inr kl some_rule_def sum.case prod.case by blast
  then show ?thesis using Inr kl passed by simp
qed

definition permits :: "'g policy_env \<Rightarrow> 'g compiled_policy \<Rightarrow> access_kind \<Rightarrow> ustr option \<Rightarrow> bool" where
  "permits E P a cwd \<longleftrightarrow>
     (case a of
        Bash_Access cmd \<Rightarrow> cp_bash_allow P \<and> bash_chain_fully_allowed E P max_inline_shell_depth cmd
      | _ \<Rightarrow> some_rule E P a cwd Allow_Rule)"

lemma evaluate_spec:
  "some_rule E P a cwd Deny_Rule \<and> (\<exists>reason. evaluate_with_cwd E P a cwd = Some (Reject reason)) \<or>
   \<not> some_rule E P a cwd Deny_Rule \<and>
   evaluate_with_cwd E P a cwd =
     (if some_rule E P a cwd Ask_Rule then Some Ask else if permits E P a cwd then Some Allow else None)"
proof (cases rule: scan_result[of E P a cwd])
  case (denied reason)
  then show ?thesis by (simp add: evaluate_with_cwd_def)
next
  case passed
  then show ?thesis by (cases a) (simp_all add: evaluate_with_cwd_def permits_def)
qed

lemma evaluate_denied:
  "(\<exists>reason. evaluate_with_cwd E P a cwd = Some (Reject reason)) \<longleftrightarrow> some_rule E P a cwd Deny_Rule"
  using evaluate_spec[of E P a cwd] by (auto split: if_splits)

text \<open>Only the set of the rules matters.\<close>

lemma segment_allowed_cong:
  "set (cp_rules P) = set (cp_rules Q) \<Longrightarrow> segment_allowed E P = segment_allowed E Q"
  by (intro ext) (simp add: segment_allowed_def bash_words_allowed_def list_ex_iff)

lemma chain_allowed_cong:
  assumes "set (cp_rules P) = set (cp_rules Q)"
  shows "bash_chain_fully_allowed E P d = bash_chain_fully_allowed E Q d"
proof (induction d)
  case 0
  show ?case by (intro ext) (simp add: chain_allowed_def segment_allowed_cong[OF assms] split: option.split)
next
  case (Suc d)
  then show ?case by (intro ext) (simp add: chain_allowed_def segment_allowed_cong[OF assms] split: option.split)
qed

lemma compile_same_rules:
  assumes "set (pc_rules c) = set (pc_rules c')"
  shows "set (cp_rules (compile_policy E c)) = set (cp_rules (compile_policy E c'))"
    and "cp_bash_allow (compile_policy E c) = cp_bash_allow (compile_policy E c')"
    and "cp_bash (compile_policy E c) = cp_bash (compile_policy E c')"
  using assms by (auto simp: compile_policy_def list_ex_iff)

lemma evaluate_cong:
  assumes "set (pc_rules c) = set (pc_rules c')"
  shows "some_rule E (compile_policy E c) a cwd act = some_rule E (compile_policy E c') a cwd act"
    and "permits E (compile_policy E c) a cwd = permits E (compile_policy E c') a cwd"
  using compile_same_rules[OF assms, of E] chain_allowed_cong[of "compile_policy E c" "compile_policy E c'" E]
  by (simp_all add: some_rule_def permits_def split: access_kind.split)

section \<open>The commands of a script\<close>

text \<open>The inline script of a command, and the packed script of an \<open>env -S\<close>.\<close>

definition inline_of :: "words \<Rightarrow> ustr option" where
  "inline_of raw =
     (let ws = nc_words (normalize_command_words raw) in
      case shell_dash_c_script (map Literal ws) of Script i \<Rightarrow> Some (ws ! i) | _ \<Rightarrow> None)"

definition packed_of :: "words \<Rightarrow> ustr option" where
  "packed_of raw = env_split_string_script (nc_words (normalize_command_words raw))"

text \<open>\<open>runs E n cmd ws\<close>: running the script comes to run a command with these words, directly or in an
  inline or packed script of one of its commands, at most \<open>n\<close> scripts deep.\<close>

inductive runs :: "'g policy_env \<Rightarrow> nat \<Rightarrow> ustr \<Rightarrow> words \<Rightarrow> bool" for E where
  direct: "pv_commands E cmd = Some segs \<Longrightarrow> ws \<in> set segs \<Longrightarrow> runs E n cmd ws"
| inner: "pv_commands E cmd = Some segs \<Longrightarrow> ws \<in> set segs \<Longrightarrow>
    inline_of ws = Some script \<or> packed_of ws = Some script \<Longrightarrow> runs E n script ws' \<Longrightarrow> runs E (Suc n) cmd ws'"

inductive_cases runs_elim: "runs E n cmd ws"

section \<open>Allowed chains\<close>

definition chain_level :: "'g policy_env \<Rightarrow> 'g compiled_policy \<Rightarrow> nat \<Rightarrow> (ustr \<Rightarrow> bool) option" where
  "chain_level E P d = (case d of 0 \<Rightarrow> None | Suc n \<Rightarrow> Some (bash_chain_fully_allowed E P n))"

lemma chain_level_eq: "bash_chain_fully_allowed E P d = chain_allowed E P (chain_level E P d)"
  by (cases d) (simp_all add: chain_level_def)

lemma segment_allowedD:
  assumes "segment_allowed E P inner raw"
  shows "clean (normalize_command_words raw) \<and> bash_words_allowed E P (nc_words (normalize_command_words raw))"
    and "inline_of raw = Some script \<Longrightarrow> \<exists>f. inner = Some f \<and> f script"
  using assms
  by (auto simp: segment_allowed_def clean_def inline_of_def Let_def split: inline_script.splits option.splits)

lemma split_sets_flag:
  assumes "packed_of raw = Some script"
  shows "opaque_env (nc_words (normalize_command_words raw))"
  using assms by (auto simp: packed_of_def env_split_string_script_def opaque_env_def split: if_splits)

lemma chain_allowed_runs:
  assumes "runs E n cmd ws" "bash_chain_fully_allowed E P d cmd"
    and "\<forall>m ws. runs E m cmd ws \<longrightarrow> length ws - length (full_peel ws) < max_normalize_rounds"
  shows "clean (normalize_command_words ws) \<and> bash_words_allowed E P (full_peel ws)"
  using assms
proof (induction arbitrary: d rule: runs.induct)
  case (direct cmd segs ws n)
  then have "segment_allowed E P (chain_level E P d) ws"
    by (simp add: chain_level_eq chain_allowed_def list_all_iff)
  then show ?case using segment_allowedD(1) clean_is_full_peel by fastforce
next
  case (inner cmd segs w script n ws')
  have seg: "segment_allowed E P (chain_level E P d) w"
    using inner.hyps inner.prems(1) by (simp add: chain_level_eq chain_allowed_def list_all_iff)
  have c: "clean (normalize_command_words w)" using segment_allowedD(1)[OF seg] by blast
  have "length w - length (full_peel w) < max_normalize_rounds" using inner.prems(2) inner.hyps runs.direct by blast
  then have "packed_of w = None"
    using split_sets_flag[of w] clean_not_opaque[OF c] clean_is_full_peel[OF c] by (cases "packed_of w") auto
  then obtain f where f: "chain_level E P d = Some f" "f script"
    using inner.hyps(3) segment_allowedD(2)[OF seg] by auto
  then obtain k where "bash_chain_fully_allowed E P k script"
    by (cases d) (auto simp: chain_level_def)
  moreover have "runs E (Suc m) cmd v" if "runs E m script v" for m v
    using runs.inner[OF inner.hyps(1-3) that] .
  ultimately show ?case using inner.IH inner.prems(2) by blast
qed

section \<open>The gate\<close>

abbreviation heeds :: "gate_decision option \<Rightarrow> gate_decision option \<Rightarrow> bool" where
  "heeds g d \<equiv> gate_weight g \<le> gate_weight d"

lemma combine_heeds [simp]: "heeds a (combine_gate_decisions a b)" "heeds b (combine_gate_decisions a b)"
  by (simp_all add: gate.heavier)

lemma combine_mono: "heeds g a \<Longrightarrow> heeds g (combine_gate_decisions a b)"
  by (simp add: gate.heavier)

lemma same_length_words:
  "length (nc_words (normalize_command_words raw)) = length raw \<Longrightarrow> nc_words (normalize_command_words raw) = raw"
  using normalize_suffix suffix_same_length by blast

lemma command_heeds:
  fixes E :: "'g policy_env" and P :: "'g compiled_policy"
  defines "g \<equiv> \<lambda>inner raw. evaluate_command_words E P inner raw"
  shows "heeds (escalate E P raw) (g inner raw)"
    and "heeds (escalate E P (nc_words (normalize_command_words raw))) (g inner raw)"
    and "inline_of raw = Some s \<or> packed_of raw = Some s \<Longrightarrow> heeds (inner_script inner s) (g inner raw)"
    and "\<not> clean (normalize_command_words raw) \<Longrightarrow> heeds (Some AskFailClosed) (g inner raw)"
proof -
  let ?n = "normalize_command_words raw"
  let ?ws = "nc_words ?n"
  define d0 where "d0 = combine_gate_decisions
    (ask_floor (nc_exhausted ?n \<or> nc_ambiguous ?n \<or> nc_uncertain ?n)) (ask_floor (nc_split ?n))"
  define d1 where "d1 = combine_gate_decisions d0 (escalate E P raw)"
  define d2 where "d2 = (if length ?ws \<noteq> length raw then combine_gate_decisions d1 (escalate E P ?ws) else d1)"
  define d3 where "d3 = (case shell_dash_c_script (map Literal ?ws) of
      Script i \<Rightarrow> combine_gate_decisions d2 (inner_script inner (?ws ! i))
    | NotInline \<Rightarrow> d2
    | _ \<Rightarrow> combine_gate_decisions d2 (Some AskFailClosed))"
  have g: "g inner raw = (case env_split_string_script ?ws of None \<Rightarrow> d3
      | Some script \<Rightarrow> combine_gate_decisions d3 (inner_script inner script))"
    unfolding g_def evaluate_command_words_def Let_def d0_def d1_def d2_def d3_def by (rule refl)
  have m3: "heeds x d3 \<Longrightarrow> heeds x (g inner raw)" for x
    unfolding g by (simp add: combine_mono split: option.split)
  have m2: "heeds x d2 \<Longrightarrow> heeds x d3" for x
    unfolding d3_def by (simp add: combine_mono split: inline_script.split)
  have m1: "heeds x d1 \<Longrightarrow> heeds x d2" for x unfolding d2_def by (simp add: combine_mono)
  show "heeds (escalate E P raw) (g inner raw)" by (intro m3 m2 m1) (simp add: d1_def)
  show "heeds (escalate E P ?ws) (g inner raw)"
    using same_length_words[of raw] by (intro m3 m2) (auto simp: d2_def d1_def)
  show "heeds (Some AskFailClosed) (g inner raw)" if "\<not> clean ?n"
    using that by (intro m3 m2 m1) (auto simp: d1_def d0_def clean_def ask_floor_def gate.heavier)
  show "heeds (inner_script inner s) (g inner raw)" if "inline_of raw = Some s \<or> packed_of raw = Some s"
  proof (cases "packed_of raw = Some s")
    case True
    then show ?thesis unfolding g by (simp add: packed_of_def)
  next
    case False
    then have "inline_of raw = Some s" using that by blast
    then show ?thesis
      by (intro m3) (auto simp: d3_def inline_of_def Let_def split: inline_script.splits)
  qed
qed

lemma segment_heeds:
  assumes "pv_commands E cmd = Some segs" "ws \<in> set segs"
  shows "heeds (evaluate_command_words E P inner ws) (script_gate E P inner cmd)"
  using assms gate.at_least_fold[of "gate_weight (evaluate_command_words E P inner ws)"
      "evaluate_command_words E P inner" segs None]
  by (auto simp: script_gate_def)

definition gate_level :: "'g policy_env \<Rightarrow> 'g compiled_policy \<Rightarrow> nat \<Rightarrow> (ustr \<Rightarrow> gate_decision option) option" where
  "gate_level E P d = (case d of 0 \<Rightarrow> None | Suc n \<Rightarrow> Some (evaluate_bash_command_segments E P n))"

lemma gate_level_eq: "evaluate_bash_command_segments E P d = script_gate E P (gate_level E P d)"
  by (cases d) (simp_all add: gate_level_def)

text \<open>The gate heeds what the rules say of every command within its depth.\<close>

lemma gate_heeds_runs:
  assumes "runs E n cmd ws" "n \<le> d"
  shows "heeds (escalate E P ws) (evaluate_bash_command_segments E P d cmd) \<and>
    heeds (escalate E P (nc_words (normalize_command_words ws))) (evaluate_bash_command_segments E P d cmd)"
  using assms
proof (induction arbitrary: d rule: runs.induct)
  case (direct cmd segs ws n)
  show ?case unfolding gate_level_eq
    using segment_heeds[OF direct(1,2)] command_heeds(1,2) le_trans by blast
next
  case (inner cmd segs w script n ws')
  then obtain k where d: "d = Suc k" "n \<le> k" by (cases d) auto
  have "heeds (inner_script (gate_level E P d) script) (evaluate_bash_command_segments E P d cmd)"
    unfolding gate_level_eq
    using segment_heeds[OF inner.hyps(1,2)] command_heeds(3)[OF inner.hyps(3)] le_trans by blast
  then have "heeds (evaluate_bash_command_segments E P k script) (evaluate_bash_command_segments E P d cmd)"
    using d by (simp add: gate_level_def inner_script_def)
  then show ?case using inner.IH[OF d(2)] le_trans by blast
qed

text \<open>A silent gate has looked at every command, however deep.\<close>

lemma silent_gate_runs:
  assumes "runs E n cmd ws" "evaluate_bash_command_segments E P d cmd = None"
  shows "clean (normalize_command_words ws) \<and> escalate E P ws = None \<and>
    escalate E P (full_peel ws) = None"
  using assms
proof (induction arbitrary: d rule: runs.induct)
  case (direct cmd segs ws n)
  let ?g = "evaluate_command_words E P (gate_level E P d) ws"
  have z: "gate_weight ?g = 0"
    using segment_heeds[OF direct(1,2), of P "gate_level E P d"] direct(3) by (simp add: gate_level_eq)
  have none: "x = None" if "heeds x ?g" for x
    using that z gate_some_iff[of x] by auto
  have c: "clean (normalize_command_words ws)"
    using none[of "Some AskFailClosed"] command_heeds(4) by blast
  show ?case
    using c none[OF command_heeds(1)] none[OF command_heeds(2)] clean_is_full_peel[OF c] by simp
next
  case (inner cmd segs w script n ws')
  have "heeds (inner_script (gate_level E P d) script) (evaluate_bash_command_segments E P d cmd)"
    unfolding gate_level_eq
    using segment_heeds[OF inner.hyps(1,2)] command_heeds(3)[OF inner.hyps(3)] le_trans by blast
  then have "gate_weight (inner_script (gate_level E P d) script) = 0" using inner.prems by simp
  then have none: "inner_script (gate_level E P d) script = None"
    using gate_some_iff[of "inner_script (gate_level E P d) script"] by simp
  then obtain k where "d = Suc k" by (cases d) (simp_all add: gate_level_def inner_script_def)
  then have "evaluate_bash_command_segments E P k script = None"
    using none by (simp add: gate_level_def inner_script_def)
  then show ?case using inner.IH by blast
qed

lemma escalate_weight:
  "3 \<le> gate_weight (escalate E P ws) \<longleftrightarrow> some_rule E P (Bash_Access (join [32] ws)) None Deny_Rule"
  "escalate E P ws = None \<longleftrightarrow>
     \<not> some_rule E P (Bash_Access (join [32] ws)) None Deny_Rule \<and>
     \<not> some_rule E P (Bash_Access (join [32] ws)) None Ask_Rule"
  using evaluate_spec[of E P "Bash_Access (join [32] ws)" None]
  by (auto simp: escalate_def evaluate_def split: if_splits)

lemma denied_bash_restricts:
  assumes "some_rule E (compile_policy E c) (Bash_Access cmd) cwd act" "act \<noteq> Allow_Rule"
  shows "cp_bash (compile_policy E c)"
proof -
  obtain r where r: "r \<in> set (pc_rules c)" "pr_action r = act" "tool_filter_matches (Bash_Access cmd) (pr_tool r)"
    using assms(1) by (auto simp: some_rule_def compile_policy_def applies_def)
  then have "restricts r \<and> pr_tool r \<in> {Bash_Tool, Any_Tool}"
    using assms(2) by (cases act; cases "pr_tool r") (auto simp: restricts_def tool_filter_matches_def)
  then show ?thesis using r by (auto simp: compile_policy_def list_ex_iff)
qed

end
