(* ===== verification/Manager_Facts.thy ===== *)
theory Manager_Facts
  imports Perm_Manager Bash_Facts Perm_Facts
begin

text \<open>
  How each stage of the permission manager changes the actor, the invariant of its modes and
  counters, and what an allowance without a prompt rests on.
\<close>

section \<open>The preflight\<close>

lemma decision_option_cases:
  obtains "d = None" | "d = Some Allow" | "d = Some Ask" | r where "d = Some (Reject r)"
    | r where "d = Some (PolicyDeny r)" | m where "d = Some (FollowupMessage m)" | "d = Some Cancelled"
  by (metis decision.exhaust option.exhaust)

lemma into_decision_cases: "into_decision g = Ask \<or> (\<exists>r. into_decision g = Reject r)"
  by (cases g) simp_all

text \<open>An ask of a gate on a shell command is stronger than any allowance.\<close>

lemma shell_ask_is_policy:
  assumes "shell_forced_prompt p"
  shows "policy_decision p \<noteq> None" "policy_decision p \<noteq> Some Allow"
proof -
  have "\<exists>x \<in> {map_option into_decision (pf_bash p), map_option into_decision (pf_file p)}. decision_weight x = 3"
    using assms by (auto simp: shell_forced_prompt_def shell_file_forced_prompt_def gate_asks_def decision_weight_def
        split: option.splits elim!: is_ask.elims)
  then have "3 \<le> decision_weight (policy_decision p)"
    unfolding policy_decision_def by (auto simp: verdict.heavier)
  then show "policy_decision p \<noteq> None" "policy_decision p \<noteq> Some Allow" by (auto simp: decision_weight_def split: option.splits)
qed

lemma denial_wins: "combine_decisions (Some (Reject reason)) d = Some (Reject reason)"
proof (cases d)
  case (Some a)
  have "decision_rank a \<le> 3" by (cases a) simp_all
  then show ?thesis using Some by simp
qed simp

lemma direct_denial: "pf_direct p = Some (Reject reason) \<Longrightarrow> policy_decision p = Some (Reject reason)"
  by (simp add: policy_decision_def denial_wins)

lemma direct_of_preflight:
  "pf_direct (evaluate_preflight E g (Some P) a cwd m) = evaluate_with_cwd E P a (Some cwd)"
  by (simp add: evaluate_preflight_def Let_def split: prod.split)

section \<open>What a stage does to the actor\<close>

lemma persist_shape [simp]:
  "ac_state (persist r A) = ac_state A" "ac_yolo (persist r A) = ac_yolo A" "ac_auto (persist r A) = ac_auto A"
  "ac_consecutive (persist r A) = ac_consecutive A" "ac_total (persist r A) = ac_total A"
  "ac_recorded (persist r A) = ac_recorded A" "ac_allow_edits (persist r A) = ac_allow_edits A"
  "ac_disk (persist r A) = (if rq_written r then Some (ac_state A) else ac_disk A)"
  by (simp_all add: persist_def)

lemma grant_shape [simp]:
  "ac_state (grant r g A) = g (ac_state A)" "ac_yolo (grant r g A) = ac_yolo A" "ac_auto (grant r g A) = ac_auto A"
  "ac_consecutive (grant r g A) = ac_consecutive A" "ac_total (grant r g A) = ac_total A"
  "ac_recorded (grant r g A) = ac_recorded A" "ac_allow_edits (grant r g A) = ac_allow_edits A"
  "ac_disk (grant r g A) = (if rq_written r then Some (g (ac_state A)) else ac_disk A)"
  by (simp_all add: grant_def)

lemma add_shape [simp]:
  "ps_edit_policy (allow_command c S) = ps_edit_policy S" "ps_edit_policy (add_glob c S) = ps_edit_policy S"
  "ps_edit_policy (add_disallowed c S) = ps_edit_policy S" "ps_edit_policy (add_domain c S) = ps_edit_policy S"
  "ps_edit_policy (add_tool c S) = ps_edit_policy S" "ps_edit_policy (add_server c S) = ps_edit_policy S"
  by (simp_all add: allow_command_def add_glob_def add_disallowed_def add_domain_def add_tool_def add_server_def)

text \<open>What an answer cannot change.\<close>

definition same_modes :: "'c perm_actor \<Rightarrow> 'c perm_actor \<Rightarrow> bool" where
  "same_modes A B \<longleftrightarrow>
     ac_yolo B = ac_yolo A \<and> ac_auto B = ac_auto A \<and> ac_consecutive B = ac_consecutive A \<and>
     ac_total B = ac_total A \<and> ac_recorded B = ac_recorded A \<and>
     ps_edit_policy (ac_state B) = ps_edit_policy (ac_state A)"

lemma answer_keeps_modes: "answer_prompt r A = (B, d, outcome) \<Longrightarrow> same_modes A B"
  by (auto simp: answer_prompt_def answer_bash_def answer_other_def grant_server_def same_modes_def
      split: access_kind.splits prompt_outcome.splits option.splits if_splits)

lemma record_decision_shape [simp]:
  "ac_state (record_decision C a d out A) = ac_state A" "ac_yolo (record_decision C a d out A) = ac_yolo A"
  "ac_auto (record_decision C a d out A) = ac_auto A" "ac_total (record_decision C a d out A) = ac_total A"
  "ac_consecutive (record_decision C a d out A) = ac_consecutive A"
  "ac_disk (record_decision C a d out A) = ac_disk A"
  "ac_allow_edits (record_decision C a d out A) = ac_allow_edits A"
  by (simp_all add: record_decision_def Let_def split: option.split)

lemma record_decision_bounded:
  "length (ac_recorded A) \<le> max_recorded_decisions \<Longrightarrow>
     length (ac_recorded (record_decision C a d out A)) \<le> max_recorded_decisions"
  by (auto simp: record_decision_def Let_def max_recorded_decisions_def split: option.split)

section \<open>The invariant\<close>

definition manager_ok :: "('g, 'c) manager_config \<Rightarrow> 'c perm_actor \<Rightarrow> bool" where
  "manager_ok C A \<longleftrightarrow>
     \<not> (ac_yolo A \<and> ac_auto A) \<and> (mc_pinned C \<longrightarrow> \<not> ac_yolo A) \<and>
     ac_consecutive A \<le> deny_consecutive_limit \<and> ac_total A \<le> deny_total_limit \<and>
     ac_consecutive A \<le> ac_total A \<and>
     length (ac_recorded A) \<le> max_recorded_decisions \<and> ps_edit_policy (ac_state A) \<noteq> Edit_Allow"

lemma follow_verdict_keeps [keeps]: "manager_ok C A \<Longrightarrow> manager_ok C (ar_actor (follow_verdict A out))"
  by (auto simp: follow_verdict_def manager_ok_def within_budget_def Let_def split: classifier_verdict.split)

lemma auto_stage_keeps [keeps]: "manager_ok C A \<Longrightarrow> auto_stage C A r f = Some t \<Longrightarrow> manager_ok C (ar_actor t)"
  by (auto simp: auto_stage_def Let_def keeps split: if_splits auto_fast_path.splits)

lemma answer_keeps: "manager_ok C A \<Longrightarrow> answer_prompt r A = (B, d, outcome) \<Longrightarrow> manager_ok C B"
  by (drule answer_keeps_modes) (simp add: manager_ok_def same_modes_def)

lemma prompt_stage_keeps [keeps]:
  assumes "manager_ok C (ar_actor t)"
  shows "manager_ok C (fst (prompt_stage C A t r f))"
proof -
  have "manager_ok C (record_decision C a d outcome B)" "manager_ok C (record_decision C a d outcome B\<lparr>ac_consecutive := 0\<rparr>)"
    if "answer_prompt r (ar_actor t) = (B, d, outcome)" for a d outcome B
    using answer_keeps[OF assms that] by (simp_all add: manager_ok_def record_decision_bounded)
  then show ?thesis using assms by (simp add: prompt_stage_def abandoned_def Let_def split: prod.split)
qed

lemma after_auto_keeps [keeps]:
  "manager_ok C (ar_actor t) \<Longrightarrow> manager_ok C (fst (after_auto C A t r f))"
  by (simp add: after_auto_def ruled_def Let_def keeps split: option.split prod.split)

lemma handle_request_keeps [keeps]: "manager_ok C A \<Longrightarrow> manager_ok C (fst (handle_request C A r))"
  by (simp add: handle_request_def abandoned_def ruled_def Let_def keeps split: option.split prod.split)

lemma handle_perm_command_keeps [keeps]: "manager_ok C A \<Longrightarrow> manager_ok C (handle_perm_command C c A)"
proof (cases c)
  case (Request r)
  then show "manager_ok C A \<Longrightarrow> ?thesis" by (simp add: keeps)
qed (auto simp: set_yolo_def set_auto_def clamp_yolo_def reset_state_def default_state_def manager_ok_def Let_def)

lemma run_commands_keeps: "manager_ok C A \<Longrightarrow> manager_ok C (run_commands C cs A)"
  unfolding run_commands_def by (induction cs arbitrary: A) (simp_all add: keeps)

lemma start_manager_ok: "manager_ok C (start_manager C yolo loaded disk written)"
  by (auto simp: manager_ok_def start_manager_def clamp_yolo_def downgrade_edits_def Let_def)

section \<open>Where a ruling comes from\<close>

lemma facts_of_simps [simp]:
  "rf_eval (facts_of C A r) = map_option fst (request_evaluation C A r)"
  "rf_protected (facts_of C A r) = protected_edit C r"
  "rf_preflight (facts_of C A r) = request_preflight C A r"
  by (simp_all add: facts_of_def)

lemma request_evaluation_bash:
  assumes "rq_access r = Bash_Access cmd"
  obtains e s where "request_evaluation C A r = Some (e, s)"
    "be_segments e = be_segments (evaluate_bash (mc_shell C) cmd (ac_state A) True)"
    "be_granted e = be_granted (evaluate_bash (mc_shell C) cmd (ac_state A) True)"
    "be_exact e \<longleftrightarrow> cmd \<in> set (ps_allowed_commands (ac_state A))"
    "be_assessment (evaluate_bash (mc_shell C) cmd (ac_state A) True) \<subseteq> be_assessment e"
    "be_assessment e \<subseteq> insert ExecOrAmbientGit (be_assessment (evaluate_bash (mc_shell C) cmd (ac_state A) True))"
proof (cases "be_ambient (evaluate_bash (mc_shell C) cmd (ac_state A) True)")
  case None
  then show ?thesis using assms by (intro that) (auto simp: request_evaluation_def Let_def)
next
  case (Some raws)
  then show ?thesis using assms
    by (intro that[where s = True]) (simp add: request_evaluation_def Let_def, auto)
qed

lemma emit_event_simps [simp]:
  "pe_prompted (emit_event C A B a source d approved prompted outcome reason) = prompted"
  "pe_reason (emit_event C A B a source d approved prompted outcome reason) = reason"
  by (simp_all add: emit_event_def)

lemma ruled_reply:
  "ruled C A B a source x = (B', ev, Some d) \<Longrightarrow>
     B' = B \<and> \<not> pe_prompted ev \<and> (\<exists>approved. x = (d, approved, pe_reason ev))"
  by (auto simp: ruled_def split: prod.splits)

lemma no_ruled_None [simp]: "ruled C A B a source x \<noteq> (B', ev, None)"
  by (simp add: ruled_def split: prod.splits)

lemma abandoned_reply [simp]: "abandoned C A B a source \<noteq> (B', ev, Some d)"
  by (simp add: abandoned_def)

lemma prompt_stage_prompts: "prompt_stage C A t r f = (B, ev, Some d) \<Longrightarrow> pe_prompted ev"
  by (auto simp: prompt_stage_def Let_def split: if_splits prod.splits)

text \<open>The four places where a request is settled without a prompt.\<close>

lemma unprompted_cases:
  assumes "handle_request C A r = (B, ev, Some d)" "\<not> pe_prompted ev"
  obtains
    (early) approved where "early_ruling C A r (facts_of C A r) = Some (d, approved, pe_reason ev)" "B = A"
  | (auto) t approved where "early_ruling C A r (facts_of C A r) = None"
      "auto_stage C A r (facts_of C A r) = Some t"
      "ar_ruling t = Some (d, approved, pe_reason ev)" "B = ar_actor t"
  | (late) t approved where "early_ruling C A r (facts_of C A r) = None"
      "auto_stage C A r (facts_of C A r) = Some t" "ar_ruling t = None"
      "late_ruling r (facts_of C A r) (ar_forced t \<noteq> None) = Some (d, approved, pe_reason ev)" "B = ar_actor t"
  | (settled) t where "early_ruling C A r (facts_of C A r) = None"
      "auto_stage C A r (facts_of C A r) = Some t" "ar_ruling t = None"
      "late_ruling r (facts_of C A r) (ar_forced t \<noteq> None) = None"
      "settled C (ar_actor t) (rq_access r) (facts_of C A r) (ar_forced t \<noteq> None) = Some (d, pe_reason ev)"
      "B = ar_actor t"
  | (denied) t where "d = PolicyDeny (u ''denied by prompt policy (tool not pre-approved)'')"
      "pe_reason ev = ''prompt_deny''" "mc_prompt C = Prompt_Deny" "B = ar_actor t"
      "auto_stage C A r (facts_of C A r) = Some t"
proof -
  show thesis
  proof (cases "early_ruling C A r (facts_of C A r)")
    case (Some x)
    then have "ruled C A A (rq_access r) None x = (B, ev, Some d)"
      using assms(1) by (simp add: handle_request_def Let_def split: if_splits)
    from ruled_reply[OF this] show ?thesis using Some early by blast
  next
    case None
    then obtain t where t: "auto_stage C A r (facts_of C A r) = Some t"
      "after_auto C A t r (facts_of C A r) = (B, ev, Some d)"
      using assms(1) by (auto simp: handle_request_def Let_def split: option.splits if_splits)
    show ?thesis
    proof (cases "ar_ruling t")
      case (Some x)
      then have "ruled C A (ar_actor t) (rq_access r) (ar_source t) x = (B, ev, Some d)"
        using t(2) by (simp add: after_auto_def Let_def)
      from ruled_reply[OF this] show ?thesis using None t(1) Some auto by blast
    next
      case ruling: None
      show ?thesis
      proof (cases "late_ruling r (facts_of C A r) (ar_forced t \<noteq> None)")
        case (Some x)
        then have "ruled C A (ar_actor t) (rq_access r) (ar_source t) x = (B, ev, Some d)"
          using t(2) ruling by (simp add: after_auto_def Let_def)
        from ruled_reply[OF this] show ?thesis using None t(1) ruling Some late by blast
      next
        case l: None
        show ?thesis
        proof (cases "settled C (ar_actor t) (rq_access r) (facts_of C A r) (ar_forced t \<noteq> None)")
          case (Some x)
          then have "ruled C A (ar_actor t) (rq_access r) (ar_source t) (fst x, True, snd x) = (B, ev, Some d)"
            using t(2) ruling l by (simp add: after_auto_def Let_def prod.case_eq_if)
          from ruled_reply[OF this] have "x = (d, pe_reason ev)" "B = ar_actor t" by (auto simp: prod_eq_iff)
          then show ?thesis using settled[OF None t(1) ruling l] Some by blast
        next
          case nothing: None
          then have r: "ruled C A (ar_actor t) (rq_access r) (ar_source t)
              (PolicyDeny (u ''denied by prompt policy (tool not pre-approved)''), False, ''prompt_deny'') = (B, ev, Some d)"
            and "mc_prompt C = Prompt_Deny"
            using t(2) ruling l assms(2) nothing
            by (auto simp: after_auto_def Let_def dest: prompt_stage_prompts split: if_splits)
          then show ?thesis using t(1) denied[of t] ruled_reply[OF r] by simp
        qed
      qed
    qed
  qed
qed

section \<open>Grants\<close>

lemma bash_grant_cases:
  assumes "bash_grant_pre_decision cmd e S pinned opts = Some (d, reason)"
  shows "(\<exists>why. be_segments e = Segment_Reject why \<and> d = Reject why \<and> reason = ''session_deny'') \<or>
    \<not> floor_requires_prompt e \<and> d = Allow \<and> reason \<in> {''session_grant'', ''safe_command''} \<and>
      ((\<exists>via. be_segments e = AutoAllow via) \<or> persisted_bash_auto_allows S cmd pinned \<or> be_exact e)"
  using assms by (auto simp: bash_grant_pre_decision_def grant_allow_def grant_if_def
      split: segment_evaluation.splits if_splits)

lemma mcp_pre_decision_Allow: "mcp_pre_decision name S forced remember = Some d \<Longrightarrow> d = Allow"
  by (auto simp: mcp_pre_decision_def split: if_splits)

lemma session_grant_reason:
  "session_grant_pre_decision E W a e S edits static pinned = Some (d, reason) \<Longrightarrow>
     reason \<in> {''session_grant'', ''safe_command'', ''session_deny'', ''static_allowlist''}"
  by (auto simp: session_grant_pre_decision_def grant_allow_def grant_if_def dest: bash_grant_cases
      split: access_kind.splits option.splits if_splits)

lemma pre_decision_reason:
  "pre_decision C A a f forced = Some (d, reason) \<Longrightarrow>
     reason \<in> {''session_grant'', ''safe_command'', ''session_deny'', ''static_allowlist'', ''persisted_grant''}"
  by (auto simp: pre_decision_def edit_pre_decision_def bash_pre_decision_def grant_allow_def Let_def
      dest: bash_grant_cases split: access_kind.splits option.splits if_splits)

lemma settled_pre_decision:
  "settled C A a f forced = Some (d, reason) \<Longrightarrow> pre_decision C A a f forced = Some (d, reason)"
  by (auto simp: settled_def split: option.splits if_splits)

section \<open>Denials of the classifier\<close>

definition classifier_denied :: "perm_event \<Rightarrow> bool" where
  "classifier_denied ev \<longleftrightarrow> pe_reason ev = ''auto_classifier_deny''"

lemma early_reason: "early_ruling C A r f = Some (d, approved, reason) \<Longrightarrow> reason \<noteq> ''auto_classifier_deny''"
  by (auto simp: early_ruling_def policy_denial_def session_grant_def dest!: session_grant_reason
      split: option.splits decision.splits if_splits)

lemma late_reason: "late_ruling r f forced = Some (d, approved, reason) \<Longrightarrow> reason \<noteq> ''auto_classifier_deny''"
  by (auto simp: late_ruling_def split: option.splits if_splits)

lemma auto_stage_counts:
  assumes "auto_stage C A r f = Some t"
  shows "(case ar_ruling t of
      None \<Rightarrow> ar_actor t = A
    | Some (d, approved, reason) \<Rightarrow>
        if reason = ''auto_classifier_deny''
        then ac_consecutive (ar_actor t) = ac_consecutive A + 1 \<and> ac_total (ar_actor t) = ac_total A + 1
        else ac_total (ar_actor t) = ac_total A) \<and>
    ar_forced t \<noteq> Some ''auto_classifier_deny''"
  using assms
  by (auto simp: auto_stage_def follow_verdict_def Let_def
      split: if_splits auto_fast_path.splits classifier_verdict.splits)

lemma trigger_reason:
  "forced \<noteq> Some ''auto_classifier_deny'' \<Longrightarrow>
     (case prompt_trigger p forced of Some x \<Rightarrow> x | None \<Rightarrow> floor_trigger f) \<noteq> ''auto_classifier_deny''"
  by (auto simp: prompt_trigger_def floor_trigger_def split: option.split)

lemma prompt_stage_counts:
  assumes "prompt_stage C A t r f = (B, ev, x)" "ar_forced t \<noteq> Some ''auto_classifier_deny''"
  shows "\<not> classifier_denied ev \<and> ac_total B = ac_total (ar_actor t)"
proof -
  have "ac_total A1 = ac_total (ar_actor t)" if "answer_prompt r (ar_actor t) = (A1, d, outcome)" for A1 d outcome
    using answer_keeps_modes[OF that] by (simp add: same_modes_def)
  then show ?thesis
    using assms(1) trigger_reason[OF assms(2), where p = "rf_preflight f" and f = f]
    by (auto simp: prompt_stage_def abandoned_def classifier_denied_def Let_def split: if_splits prod.splits)
qed

lemma ruled_counts: "ruled C A B a source (d, approved, reason) = (B', ev, x) \<Longrightarrow> B' = B \<and> pe_reason ev = reason"
  by (auto simp: ruled_def)

lemma abandoned_counts: "abandoned C A B a source = (B', ev, x) \<Longrightarrow> B' = B \<and> \<not> classifier_denied ev"
  by (auto simp: abandoned_def classifier_denied_def)

lemma after_auto_counts:
  assumes "auto_stage C A r f = Some t" "after_auto C A t r f = (B, ev, x)"
  shows "if classifier_denied ev then ac_consecutive B = ac_consecutive A + 1 \<and> ac_total B = ac_total A + 1
    else ac_total B = ac_total A"
proof (cases "ar_ruling t")
  case (Some y)
  then show ?thesis using assms(2) auto_stage_counts[OF assms(1)]
    by (cases y) (auto simp: after_auto_def classifier_denied_def Let_def dest!: ruled_counts)
next
  case None
  then have t: "ar_actor t = A" "ar_forced t \<noteq> Some ''auto_classifier_deny''"
    using auto_stage_counts[OF assms(1)] by simp_all
  have "\<not> classifier_denied ev \<and> ac_total B = ac_total A"
  proof (cases "late_ruling r f (ar_forced t \<noteq> None)")
    case (Some y)
    then show ?thesis using assms(2) None t(1) late_reason[of r f "ar_forced t \<noteq> None"]
      by (cases y) (auto simp: after_auto_def classifier_denied_def Let_def dest!: ruled_counts)
  next
    case l: None
    show ?thesis
    proof (cases "settled C (ar_actor t) (rq_access r) f (ar_forced t \<noteq> None)")
      case (Some y)
      then obtain d reason where y: "y = (d, reason)" by fastforce
      then have "reason \<noteq> ''auto_classifier_deny''" using pre_decision_reason settled_pre_decision Some by fastforce
      then show ?thesis using assms(2) None l Some t(1) y
        by (auto simp: after_auto_def classifier_denied_def Let_def dest!: ruled_counts)
    next
      case nothing: None
      then show ?thesis using assms(2) None l t
        by (auto simp: after_auto_def classifier_denied_def Let_def dest!: ruled_counts
            dest: prompt_stage_counts split: if_splits)
    qed
  qed
  then show ?thesis by simp
qed

lemma request_counts:
  assumes "handle_request C A r = (B, ev, x)"
  shows "if classifier_denied ev then ac_consecutive B = ac_consecutive A + 1 \<and> ac_total B = ac_total A + 1
    else ac_total B = ac_total A"
proof (cases "early_ruling C A r (facts_of C A r)")
  case (Some y)
  obtain d approved reason where y: "y = (d, approved, reason)" by (cases y)
  have "reason \<noteq> ''auto_classifier_deny''" using early_reason Some y by blast
  then show ?thesis using assms Some y
    by (auto simp: handle_request_def Let_def classifier_denied_def dest!: ruled_counts
        dest: abandoned_counts[unfolded classifier_denied_def] split: if_splits)
next
  case None
  then consider (gone) a s where "abandoned C A A a s = (B, ev, x)"
    | (auto) t where "auto_stage C A r (facts_of C A r) = Some t" "after_auto C A t r (facts_of C A r) = (B, ev, x)"
    using assms by (auto simp: handle_request_def Let_def split: if_splits option.splits)
  then show ?thesis by cases (auto dest: abandoned_counts after_auto_counts)
qed

section \<open>A denied request\<close>

lemma denied_request:
  assumes "mc_policy C = Some P"
    and "some_rule (sh_policy (mc_shell C)) P (rq_access r) (Some (request_cwd C r)) Deny_Rule"
  shows "\<exists>ev x. handle_request C A r = (A, ev, x) \<and> (x = None \<or> (\<exists>reason. x = Some (PolicyDeny reason)))"
proof -
  obtain reason where direct: "pf_direct (request_preflight C A r) = Some (Reject reason)"
    using assms evaluate_denied[of "sh_policy (mc_shell C)" P "rq_access r" "Some (request_cwd C r)"]
    by (auto simp: request_preflight_def direct_of_preflight)
  then have "early_ruling C A r (facts_of C A r) = Some (PolicyDeny reason, False, ''policy_deny'')"
    using direct_denial by (simp add: early_ruling_def policy_denial_def)
  then show ?thesis by (simp add: handle_request_def abandoned_def ruled_def Let_def)
qed

lemma denied_answered:
  assumes "mc_policy C = Some P"
    and "some_rule (sh_policy (mc_shell C)) P (rq_access r) (Some (request_cwd C r)) Deny_Rule"
    and "\<not> rq_gone_queued r" "\<not> rq_gone_scan r"
  shows "snd (snd (handle_request C A r)) \<noteq> None"
proof -
  obtain reason where direct: "pf_direct (request_preflight C A r) = Some (Reject reason)"
    using assms(1,2) evaluate_denied[of "sh_policy (mc_shell C)" P "rq_access r" "Some (request_cwd C r)"]
    by (auto simp: request_preflight_def direct_of_preflight)
  then have "early_ruling C A r (facts_of C A r) = Some (PolicyDeny reason, False, ''policy_deny'')"
    using direct_denial by (simp add: early_ruling_def policy_denial_def)
  then show ?thesis using assms(3,4) by (simp add: handle_request_def ruled_def Let_def)
qed

section \<open>No policy\<close>

lemma no_policy:
  assumes "mc_policy C = None"
  shows "request_preflight C A r = \<lparr>pf_direct = None, pf_bash = None, pf_file = None, pf_defers = False\<rparr>"
  using assms by (simp add: request_preflight_def evaluate_preflight_def Let_def)

lemma bare_preflight [simp]:
  "policy_decision \<lparr>pf_direct = None, pf_bash = None, pf_file = None, pf_defers = False\<rparr> = None"
  "\<not> policy_forced_prompt \<lparr>pf_direct = None, pf_bash = None, pf_file = None, pf_defers = False\<rparr>"
  "\<not> shell_forced_prompt \<lparr>pf_direct = None, pf_bash = None, pf_file = None, pf_defers = False\<rparr>"
  "\<not> shell_file_forced_prompt \<lparr>pf_direct = None, pf_bash = None, pf_file = None, pf_defers = False\<rparr>"
  "admits_auto_classifier \<lparr>pf_direct = None, pf_bash = None, pf_file = None, pf_defers = False\<rparr>"
  by (simp_all add: policy_decision_def policy_forced_prompt_def shell_forced_prompt_def
      shell_file_forced_prompt_def gate_asks_def admits_auto_classifier_def)

end
