(* ===== verification/Manager_Properties.thy ===== *)
theory Manager_Properties
  imports Manager_Facts
begin

text \<open>
  The properties of the permission manager: its invariant, what settles a request without a prompt,
  and where the code settles one against what it says of itself.
\<close>

section \<open>Modes and counters\<close>

text \<open>C26: in every reachable state always-approve and auto mode exclude each other, a managed pin keeps
  always-approve off, the denial counters stay within their limits, at most twelve decisions of the
  user are kept, and the stored permission for all edits is never found again.\<close>

theorem reachable_manager_ok:
  "let A = run_commands C cs (start_manager C yolo loaded disk written) in
     \<not> (ac_yolo A \<and> ac_auto A) \<and> (mc_pinned C \<longrightarrow> \<not> ac_yolo A) \<and>
     ac_consecutive A \<le> 3 \<and> ac_total A \<le> 20 \<and> ac_consecutive A \<le> ac_total A \<and>
     length (ac_recorded A) \<le> 12 \<and> ps_edit_policy (ac_state A) \<noteq> Edit_Allow"
  using run_commands_keeps[OF start_manager_ok, of C cs yolo loaded disk written]
  by (simp add: manager_ok_def Let_def deny_consecutive_limit_def deny_total_limit_def max_recorded_decisions_def)

text \<open>The demonstration configuration: no policy, no protected files, a shell without a parser.\<close>

definition demo_manager :: "prompt_policy \<Rightarrow> bool \<Rightarrow> (unit, unit) manager_config" where
  "demo_manager pp pinned =
     \<lparr>mc_shell = \<lparr>sh_policy = \<lparr>pv_compile = (\<lambda>_. None), pv_matches = (\<lambda>_ _ _. False),
          pv_commands = (\<lambda>cmd. Some [split_on 32 cmd]), pv_host = (\<lambda>_. None), pv_lower = id\<rparr>,
        sh_tree = (\<lambda>_. Some \<lparr>st_writes = [], st_assigned = [], st_opaque = False\<rparr>)\<rparr>,
      mc_file_gate = (\<lambda>_ _. None), mc_web = \<lparr>wa_matcher = Map.empty, wa_path = (\<lambda>_. [])\<rparr>,
      mc_web_default = True, mc_policy = None, mc_prompt = pp, mc_pinned = pinned, mc_remember = True,
      mc_cwd = u ''/'', mc_classifier = (), mc_protected = (\<lambda>_ _ _. False),
      mc_decision_args = (\<lambda>_ _. []), mc_mcp_detail = (\<lambda>name _. name)\<rparr>"

definition demo_request :: "access_kind \<Rightarrow> prompt_outcome \<Rightarrow> unit request" where
  "demo_request a answer =
     \<lparr>rq_access = a, rq_context = None, rq_gone_queued = False, rq_gone_scan = False,
      rq_gone_classify = False, rq_gone_prompt = False, rq_gone_end = False,
      rq_config_risk = (\<lambda>_. False), rq_classify = (\<lambda>_ _ _ _ _. heuristic_outcome Verdict_Block),
      rq_sandbox = False, rq_answer = answer, rq_written = True\<rparr>"

lemma demo_request_simps [simp]:
  "rq_access (demo_request a answer) = a" "rq_context (demo_request a answer) = None"
  "\<not> rq_gone_queued (demo_request a answer)" "\<not> rq_gone_scan (demo_request a answer)"
  "\<not> rq_gone_classify (demo_request a answer)" "\<not> rq_gone_prompt (demo_request a answer)"
  "\<not> rq_sandbox (demo_request a answer)" "rq_answer (demo_request a answer) = answer"
  "rq_written (demo_request a answer)"
  by (simp_all add: demo_request_def)

lemma demo_manager_simps [simp]:
  "mc_policy (demo_manager pp pin) = None" "mc_pinned (demo_manager pp pin) = pin"
  "mc_prompt (demo_manager pp pin) = pp" "\<not> mc_protected (demo_manager pp pin) cwd display path"
  by (simp_all add: demo_manager_def)

theorem reachable_manager_ok_witness:
  "\<not> ac_yolo (run_commands (demo_manager Prompt_Auto True) [SetYoloMode True]
      (start_manager (demo_manager Prompt_Auto True) True default_state None True))"
  using reachable_manager_ok[of "demo_manager Prompt_Auto True" "[SetYoloMode True]" True default_state None True]
  by (simp add: Let_def demo_manager_def)

section \<open>Denials\<close>

fun command_events :: "('g, 'c) manager_config \<Rightarrow> 'c perm_actor \<Rightarrow> 'c perm_command list \<Rightarrow> perm_event list" where
  "command_events C A [] = []"
| "command_events C A (c # cs) =
     (case c of Request r \<Rightarrow> [fst (snd (handle_request C A r))] | _ \<Rightarrow> []) @
     command_events C (handle_perm_command C c A) cs"

lemma other_commands_count:
  "(case c of Request _ \<Rightarrow> False | _ \<Rightarrow> True) \<Longrightarrow>
     ac_total (handle_perm_command C c A) = ac_total A \<and>
     ac_consecutive (handle_perm_command C c A) = ac_consecutive A"
  by (cases c) (auto simp: set_yolo_def set_auto_def reset_state_def Let_def)

lemma denials_counted:
  "length (filter classifier_denied (command_events C A cs)) + ac_total A = ac_total (run_commands C cs A)"
proof (induction cs arbitrary: A)
  case (Cons c cs)
  show ?case
  proof (cases c)
    case (Request r)
    obtain B ev x where h: "handle_request C A r = (B, ev, x)" by (metis prod_cases3)
    show ?thesis using Cons.IH[of B] request_counts[OF h] Request h
      by (auto simp: run_commands_def split: if_splits)
  qed (use Cons.IH[of "handle_perm_command C c A"] other_commands_count[of c C A] in \<open>simp_all add: run_commands_def\<close>)
qed (simp add: run_commands_def)

lemma denials_in_a_row:
  assumes "manager_ok C A" "command_events C A cs = ys @ zs" "list_all classifier_denied ys"
  shows "length ys + ac_consecutive A \<le> deny_consecutive_limit"
  using assms
proof (induction cs arbitrary: A ys)
  case Nil
  then show ?case by (simp add: manager_ok_def)
next
  case (Cons c cs)
  have ok: "manager_ok C (handle_perm_command C c A)" using Cons.prems(1) by (rule handle_perm_command_keeps)
  show ?case
  proof (cases c)
    case (Request r)
    obtain B ev x where h: "handle_request C A r = (B, ev, x)" by (metis prod_cases3)
    show ?thesis
    proof (cases ys)
      case Nil
      then show ?thesis using Cons.prems(1) by (simp add: manager_ok_def)
    next
      case (Cons y ys')
      then have "y = ev" "command_events C B cs = ys' @ zs" "list_all classifier_denied ys'" "classifier_denied y"
        using Cons.prems Request h by auto
      then show ?thesis using Cons.IH[of B ys'] ok request_counts[OF h] Request h Cons by (simp add: manager_ok_def)
    qed
  qed (use Cons.IH[OF ok, of ys] Cons.prems other_commands_count[of c C A] in simp_all)
qed

lemma denials_anywhere:
  assumes "manager_ok C A" "command_events C A cs = xs @ ys @ zs" "list_all classifier_denied ys"
  shows "length ys \<le> deny_consecutive_limit"
  using assms
proof (induction cs arbitrary: A xs)
  case (Cons c cs)
  have ok: "manager_ok C (handle_perm_command C c A)" using Cons.prems(1) by (rule handle_perm_command_keeps)
  show ?case
  proof (cases xs)
    case Nil
    then show ?thesis using denials_in_a_row[OF Cons.prems(1), of "c # cs" ys zs] Cons.prems by simp
  next
    case (Cons x xs')
    then obtain xs'' where "command_events C (handle_perm_command C c A) cs = xs'' @ ys @ zs"
      using Cons.prems(2) by (cases c) auto
    then show ?thesis using Cons.IH[OF ok _ Cons.prems(3)] by blast
  qed
qed simp

text \<open>A request that nothing has settled before the classifier, and that the classifier blocks.\<close>

definition classifier_blocks :: "('g, 'c) manager_config \<Rightarrow> 'c perm_actor \<Rightarrow> 'c request \<Rightarrow> bool" where
  "classifier_blocks C A r \<longleftrightarrow>
     early_ruling C A r (facts_of C A r) = None \<and> ac_auto A \<and> admits_auto_classifier (request_preflight C A r) \<and>
     auto_mode_fast_path (rq_access r) (tool_name_for_access (rq_access r))
       (protected_edit C r \<or> access_requires_user_interaction (tool_name_for_access (rq_access r)) (rq_access r)) = Fast_Classify \<and>
     (\<exists>out. classify_request C A r (facts_of C A r) = Some out \<and> co_verdict out = Verdict_Block)"

lemma blocked_stage:
  assumes "classifier_blocks C A r"
  obtains out where "early_ruling C A r (facts_of C A r) = None" "co_verdict out = Verdict_Block"
    "auto_stage C A r (facts_of C A r) = Some (follow_verdict A out)"
  using assms by (auto simp: classifier_blocks_def auto_stage_def Let_def)

lemma decided_range:
  "policy_decision (request_preflight C A r) \<in> {None, Some Allow, Some Ask} \<or>
   (\<exists>reason. policy_decision (request_preflight C A r) = Some (Reject reason))"
proof -
  define ok where "ok d \<longleftrightarrow> d \<in> {None, Some Allow, Some Ask} \<or> (\<exists>reason. d = Some (Reject reason))" for d
  have "ok (map_option into_decision g)" for g
    unfolding ok_def using into_decision_cases by (cases g) auto
  moreover have "ok x \<Longrightarrow> ok y \<Longrightarrow> ok (combine_decisions x y)" for x y
    by (cases "(x, y)" rule: combine_decisions.cases) auto
  moreover have "ok (evaluate_with_cwd E P a cwd)" for E :: "'a policy_env" and P a cwd
    using evaluate_spec[of E P a cwd] by (auto simp: ok_def split: if_splits)
  then have "ok (pf_direct (request_preflight C A r))"
    by (cases "mc_policy C") (simp_all add: request_preflight_def evaluate_preflight_def ok_def[of None] Let_def split: prod.split)
  ultimately show ?thesis unfolding policy_decision_def ok_def[symmetric] by blast
qed

text \<open>What is left for a prompt that auto mode wants after the rules before the classifier.\<close>

lemma wanted_prompt_late:
  assumes "early_ruling C A r (facts_of C A r) = None"
  shows "late_ruling r (facts_of C A r) True = None"
  using assms decided_range[of C A r]
  by (auto simp: late_ruling_def early_ruling_def policy_denial_def split: option.splits if_splits)

lemma wanted_prompt_bash:
  assumes "early_ruling C A r (facts_of C A r) = None" "rq_access r = Bash_Access cmd"
  shows "settled C A (Bash_Access cmd) (facts_of C A r) True = None"
proof (rule ccontr)
  assume "settled C A (Bash_Access cmd) (facts_of C A r) True \<noteq> None"
  then obtain e d reason where e: "rf_eval (facts_of C A r) = Some e" "\<not> floor_requires_prompt e"
      "\<not> policy_forced_prompt (request_preflight C A r)"
      "bash_grant_pre_decision cmd e (ac_state A) (mc_pinned C) (post_classify True) = Some (d, reason)"
    by (auto simp: settled_def pre_decision_def bash_pre_decision_def simp del: facts_of_simps(1)
        split: option.splits if_splits)
  then have "(\<exists>why. be_segments e = Segment_Reject why) \<or> (\<exists>via. be_segments e = AutoAllow via)"
    by (auto simp: bash_grant_pre_decision_def post_classify_def split: segment_evaluation.splits if_splits)
  then have grant: "bash_grant_pre_decision cmd e (ac_state A) (mc_pinned C) pre_classifier \<noteq> None"
    using e(2) by (auto simp: bash_grant_pre_decision_def pre_classifier_def grant_allow_def)
  have denial: "policy_denial (facts_of C A r) = None" using assms(1) by (auto simp: early_ruling_def split: option.splits)
  have "\<not> shell_forced_prompt (request_preflight C A r)"
    using shell_ask_is_policy[of "request_preflight C A r"] decided_range[of C A r] e(3) denial
    by (auto simp: policy_forced_prompt_def policy_denial_def)
  then have "session_grant C A r (facts_of C A r) \<noteq> None"
    using e(1,3) grant assms(2) by (auto simp: session_grant_def no_floor_def session_grant_pre_decision_def
        protected_edit_def)
  then show False using assms(1) denial by (auto simp: early_ruling_def split: option.splits if_splits)
qed

lemma wanted_prompt_settled:
  assumes "early_ruling C A r (facts_of C A r) = None"
    and "\<And>path. rq_access r \<noteq> Edit_Access path"
  shows "settled C A (rq_access r) (facts_of C A r) True = None"
  using assms wanted_prompt_bash[OF assms(1)]
  by (cases "rq_access r") (auto simp: settled_def pre_decision_def grant_allow_def is_bash_def
      Let_def dest: mcp_pre_decision_Allow split: option.splits if_splits)

lemma blocked_not_edit: "classifier_blocks C A r \<Longrightarrow> rq_access r \<noteq> Edit_Access path"
  by (auto simp: classifier_blocks_def auto_mode_fast_path_def split: if_splits)

lemma blocked_request:
  assumes "classifier_blocks C A r" "handle_request C A r = (B, ev, Some d)"
  shows "if within_budget A then classifier_denied ev \<and> (\<exists>reason. d = PolicyDeny reason)
    else pe_prompted ev \<or> mc_prompt C = Prompt_Deny \<and> (\<exists>reason. d = PolicyDeny reason)"
proof -
  obtain out where early: "early_ruling C A r (facts_of C A r) = None" and block: "co_verdict out = Verdict_Block"
    and stage: "auto_stage C A r (facts_of C A r) = Some (follow_verdict A out)"
    using assms(1) by (rule blocked_stage)
  show ?thesis
  proof (cases "within_budget A")
    case True
    then have "after_auto C A (follow_verdict A out) r (facts_of C A r) = (B, ev, Some d)"
      using assms(2) early stage by (auto simp: handle_request_def abandoned_def Let_def split: if_splits)
    then show ?thesis using True block
      by (auto simp: after_auto_def follow_verdict_def ruled_def classifier_denied_def Let_def)
  next
    case False
    then have t: "ar_ruling (follow_verdict A out) = None" "ar_forced (follow_verdict A out) \<noteq> None"
      "ar_actor (follow_verdict A out) = A" using block by (simp_all add: follow_verdict_def)
    have "mc_prompt C = Prompt_Deny \<and> (\<exists>reason. d = PolicyDeny reason)" if "\<not> pe_prompted ev"
      using assms(2) that
    proof (cases rule: unprompted_cases)
      case (late t' approved)
      then show ?thesis using stage t wanted_prompt_late[OF early] by simp
    next
      case (settled t')
      then show ?thesis using stage t wanted_prompt_settled[OF early blocked_not_edit[OF assms(1)]] by auto
    qed (use early stage t in auto)
    then show ?thesis using False by auto
  qed
qed

text \<open>C28: whatever commands a session sends, the classifier denies at most twenty requests, and never more
  than three in a row. In every state reached, a request that it blocks is denied while both limits leave
  room; when one is reached the request is put to the user, or denied where the prompt policy denies
  without asking: it never runs unasked.\<close>

theorem classifier_denials_are_bounded:
  assumes "command_events C (start_manager C yolo loaded disk written) cs = xs @ ys @ zs"
    and "list_all classifier_denied ys"
  shows "length ys \<le> 3 \<and>
    length (filter classifier_denied (command_events C (start_manager C yolo loaded disk written) cs)) \<le> 20 \<and>
    (let A = run_commands C cs (start_manager C yolo loaded disk written) in
     \<forall>r B ev d. classifier_blocks C A r \<longrightarrow> handle_request C A r = (B, ev, Some d) \<longrightarrow>
       (if ac_consecutive A < 3 \<and> ac_total A < 20 then classifier_denied ev \<and> (\<exists>reason. d = PolicyDeny reason)
        else pe_prompted ev \<or> mc_prompt C = Prompt_Deny \<and> (\<exists>reason. d = PolicyDeny reason)))"
proof -
  let ?A = "start_manager C yolo loaded disk written"
  have "length ys \<le> deny_consecutive_limit" by (rule denials_anywhere[OF start_manager_ok assms])
  moreover have "ac_total (run_commands C cs ?A) \<le> deny_total_limit"
    using run_commands_keeps[OF start_manager_ok] unfolding manager_ok_def by blast
  moreover have "length (filter classifier_denied (command_events C ?A cs)) = ac_total (run_commands C cs ?A)"
    using denials_counted[of C ?A cs] by (simp add: start_manager_def Let_def)
  moreover have "within_budget A \<longleftrightarrow> ac_consecutive A < 3 \<and> ac_total A < 20" for A :: "'b perm_actor"
    by (simp add: within_budget_def deny_consecutive_limit_def deny_total_limit_def)
  moreover note blocked_request[of C "run_commands C cs ?A"]
  ultimately show ?thesis unfolding Let_def deny_consecutive_limit_def deny_total_limit_def by simp
qed

lemma blocked_within:
  assumes "classifier_blocks C A r" "within_budget A" "\<not> rq_gone_queued r" "request_evaluation C A r = None"
  shows "\<exists>ev d. handle_request C A r = (A\<lparr>ac_consecutive := ac_consecutive A + 1, ac_total := ac_total A + 1\<rparr>, ev, Some d)"
proof -
  obtain out where "early_ruling C A r (facts_of C A r) = None" "co_verdict out = Verdict_Block"
    "auto_stage C A r (facts_of C A r) = Some (follow_verdict A out)"
    using assms(1) by (rule blocked_stage)
  then show ?thesis using assms(2-4)
    by (simp add: handle_request_def after_auto_def follow_verdict_def ruled_def Let_def)
qed

section \<open>Managed denials\<close>

text \<open>A request that a deny rule of the managed policy applies to is answered with a policy denial,
  or not at all when the requester is gone, in every mode and with every grant, and it leaves the
  manager as it was.\<close>

theorem managed_denial_is_final:
  assumes "mc_policy C = Some P"
    and "some_rule (sh_policy (mc_shell C)) P (rq_access r) (Some (request_cwd C r)) Deny_Rule"
  shows "\<exists>ev x. handle_request C A r = (A, ev, x) \<and> (x = None \<or> (\<exists>reason. x = Some (PolicyDeny reason)))"
  by (rule denied_request[OF assms])

definition with_policy :: "permission_rule list \<Rightarrow> (unit, unit) manager_config \<Rightarrow> (unit, unit) manager_config" where
  "with_policy rs C =
     C\<lparr>mc_policy := Some (compile_policy (sh_policy (mc_shell C)) \<lparr>pc_rules = rs, pc_prompt = Prompt_Ask\<rparr>)\<rparr>"

definition tool_rule :: "rule_action \<Rightarrow> tool_filter \<Rightarrow> permission_rule" where
  "tool_rule act tool = \<lparr>pr_action = act, pr_tool = tool, pr_pattern = None, pr_mode = Glob_Mode\<rparr>"

abbreviation demo_manager_actor :: "(unit, unit) manager_config \<Rightarrow> bool \<Rightarrow> unit perm_actor" where
  "demo_manager_actor C yolo \<equiv> start_manager C yolo default_state None True"

lemma demo_rule:
  "some_rule (sh_policy (mc_shell (with_policy [tool_rule act tool] (demo_manager pp pin))))
     (the (mc_policy (with_policy [tool_rule act tool] (demo_manager pp pin)))) a cwd act \<longleftrightarrow>
   applies (sh_policy (mc_shell (demo_manager pp pin))) a cwd (tool_rule act tool, None)"
  by (simp add: with_policy_def demo_manager_def some_rule_def compile_policy_def rule_matcher_def tool_rule_def)

lemma no_default_grants [simp]: "ps_allowed_commands default_state = []" "ps_edit_policy default_state = Edit_Ask"
  "ps_disallowed_commands default_state = []" "ps_allowed_globs default_state = []" "\<not> ps_allow_bash default_state"
  by (simp_all add: default_state_def)

lemma demo_actor_simps [simp]:
  "ac_state (demo_manager_actor C yolo) = default_state" "ac_yolo (demo_manager_actor C yolo) = clamp_yolo yolo (mc_pinned C)"
  "ac_auto (demo_manager_actor C yolo) \<longleftrightarrow> \<not> clamp_yolo yolo (mc_pinned C) \<and> mc_prompt C = Prompt_Auto"
  "\<not> ac_allow_edits (demo_manager_actor C yolo)"
  by (simp_all add: start_manager_def downgrade_edits_def default_state_def Let_def)

theorem managed_denial_is_final_witness:
  "\<exists>reason. snd (snd (handle_request (with_policy [tool_rule Deny_Rule Edit_Tool] (demo_manager Prompt_Ask False))
     (demo_manager_actor (demo_manager Prompt_Ask False) True) (demo_request (Edit_Access (u ''x'')) AllowOnce))) =
     Some (PolicyDeny reason)"
proof -
  let ?C = "with_policy [tool_rule Deny_Rule Edit_Tool] (demo_manager Prompt_Ask False)"
  let ?r = "demo_request (Edit_Access (u ''x'')) AllowOnce"
  have "mc_policy ?C = Some (the (mc_policy ?C))" by (simp add: with_policy_def)
  moreover have "some_rule (sh_policy (mc_shell ?C)) (the (mc_policy ?C)) (rq_access ?r) (Some (request_cwd ?C ?r)) Deny_Rule"
    unfolding demo_rule by (simp add: applies_def tool_rule_def demo_request_def tool_filter_matches_def pattern_matches_def)
  ultimately obtain ev x where "handle_request ?C (demo_manager_actor (demo_manager Prompt_Ask False) True) ?r =
      (demo_manager_actor (demo_manager Prompt_Ask False) True, ev, x)" "x = None \<or> (\<exists>reason. x = Some (PolicyDeny reason))"
    using managed_denial_is_final[of ?C "the (mc_policy ?C)" ?r] by blast
  moreover have "snd (snd (handle_request ?C (demo_manager_actor (demo_manager Prompt_Ask False) True) ?r)) \<noteq> None"
    by (simp add: handle_request_def demo_request_def ruled_def early_ruling_def start_manager_def clamp_yolo_def
        demo_manager_def with_policy_def Let_def request_evaluation_def facts_of_def evaluate_preflight_def
        request_preflight_def shell_forced_prompt_def shell_file_forced_prompt_def gate_asks_def
        split: option.split)
  ultimately show ?thesis by auto
qed

text \<open>Three fetches in auto mode with a classifier that blocks everything are denied; the fourth prompts.\<close>

abbreviation demo_fetch :: "unit request" where
  "demo_fetch \<equiv> demo_request (WebFetch_Access (u ''http://x'')) AllowOnce"

abbreviation auto_manager :: "(unit, unit) manager_config" where
  "auto_manager \<equiv> demo_manager Prompt_Auto False"

abbreviation fetched :: "nat \<Rightarrow> unit perm_actor" where
  "fetched n \<equiv> (demo_manager_actor auto_manager False)\<lparr>ac_consecutive := n, ac_total := n\<rparr>"

lemma auto_manager_simps:
  "pv_host (sh_policy (mc_shell auto_manager)) url = None" "mc_web_default auto_manager"
  "ac_classifier (demo_manager_actor auto_manager False) = Some ()"
  "rq_classify demo_fetch c tool a detail ctx = heuristic_outcome Verdict_Block"
  "\<not> access_requires_user_interaction (tool_name_for_access (WebFetch_Access x)) (WebFetch_Access x)"
  by (simp_all add: demo_manager_def start_manager_def demo_request_def Let_def access_requires_user_interaction_def
      tool_name_for_access_def) code_simp

lemma demo_fetch_blocked: "classifier_blocks auto_manager (fetched n) demo_fetch"
proof -
  have p: "request_preflight auto_manager (fetched n) demo_fetch =
      \<lparr>pf_direct = None, pf_bash = None, pf_file = None, pf_defers = False\<rparr>" by (rule no_policy) simp
  have e: "request_evaluation auto_manager (fetched n) demo_fetch = None" by (simp add: request_evaluation_def)
  show ?thesis
    by (simp add: classifier_blocks_def early_ruling_def policy_denial_def session_grant_def no_floor_def p e
        session_grant_pre_decision_def grant_if_def protected_edit_def clamp_yolo_def web_granted_def auto_manager_simps
        auto_mode_fast_path_def is_auto_mode_allowlisted_access_def allowlisted_name_unused classify_request_def
        heuristic_outcome_def)
qed

lemma demo_fetch_denied:
  assumes "n < 3"
  shows "\<exists>ev d. handle_request auto_manager (fetched n) demo_fetch = (fetched (Suc n), ev, Some d) \<and> classifier_denied ev"
proof -
  have "within_budget (fetched n)"
    using assms by (simp add: within_budget_def deny_consecutive_limit_def deny_total_limit_def)
  then show ?thesis
    using blocked_within[OF demo_fetch_blocked[of n]] blocked_request[OF demo_fetch_blocked[of n]]
    by (fastforce simp: request_evaluation_def)
qed

lemma demo_fetches:
  "m + n \<le> 3 \<Longrightarrow> run_commands auto_manager (replicate n (Request demo_fetch)) (fetched m) = fetched (m + n) \<and>
     list_all classifier_denied (command_events auto_manager (fetched m) (replicate n (Request demo_fetch))) \<and>
     length (command_events auto_manager (fetched m) (replicate n (Request demo_fetch))) = n"
proof (induction n arbitrary: m)
  case (Suc n)
  obtain ev d where "handle_request auto_manager (fetched m) demo_fetch = (fetched (Suc m), ev, Some d)" "classifier_denied ev"
    using demo_fetch_denied[of m] Suc.prems by auto
  then show ?case using Suc.IH[of "Suc m"] Suc.prems by (simp add: run_commands_def)
qed (simp add: run_commands_def)

lemma demo_fetch_answered: "\<exists>B ev d. handle_request auto_manager (fetched 3) demo_fetch = (B, ev, Some d)"
proof -
  obtain out where early: "early_ruling auto_manager (fetched 3) demo_fetch (facts_of auto_manager (fetched 3) demo_fetch) = None"
    and out: "co_verdict out = Verdict_Block"
      "auto_stage auto_manager (fetched 3) demo_fetch (facts_of auto_manager (fetched 3) demo_fetch) =
        Some (follow_verdict (fetched 3) out)" using demo_fetch_blocked[of 3] by (rule blocked_stage)
  have "\<not> within_budget (fetched 3)" by (simp add: within_budget_def deny_consecutive_limit_def)
  then have t: "ar_ruling (follow_verdict (fetched 3) out) = None" "ar_forced (follow_verdict (fetched 3) out) \<noteq> None"
      "ar_actor (follow_verdict (fetched 3) out) = fetched 3" using out(1) by (simp_all add: follow_verdict_def)
  show ?thesis using wanted_prompt_late[OF early] wanted_prompt_settled[OF early] early out(2) t
    by (auto simp: handle_request_def after_auto_def prompt_stage_def request_evaluation_def Let_def split: prod.split)
qed

theorem classifier_denials_are_bounded_witness:
  "\<exists>B ev d. handle_request auto_manager
      (run_commands auto_manager (replicate 3 (Request demo_fetch)) (demo_manager_actor auto_manager False)) demo_fetch =
      (B, ev, Some d) \<and> pe_prompted ev \<and>
    length (command_events auto_manager (demo_manager_actor auto_manager False) (replicate 3 (Request demo_fetch))) = 3"
proof -
  have start: "demo_manager_actor auto_manager False = fetched 0" by (simp add: start_manager_def Let_def)
  note run = demo_fetches[of 0 3, folded start]
  let ?events = "command_events auto_manager (demo_manager_actor auto_manager False) (replicate 3 (Request demo_fetch))"
  have denied: "list_all classifier_denied ?events" "length ?events = 3" using run by simp_all
  have after: "run_commands auto_manager (replicate 3 (Request demo_fetch)) (demo_manager_actor auto_manager False) = fetched 3"
    using run by simp
  obtain B ev d where h: "handle_request auto_manager (fetched 3) demo_fetch = (B, ev, Some d)"
    using demo_fetch_answered by blast
  have "pe_prompted ev"
    using classifier_denials_are_bounded[of auto_manager False default_state None True "replicate 3 (Request demo_fetch)"
        "[]" ?events "[]"] denied(1) h demo_fetch_blocked[of 3] unfolding after Let_def by fastforce
  then show ?thesis using h denied(2) unfolding after by blast
qed

section \<open>Commands that run without a prompt\<close>

lemma clear_no_floor [simp]: "\<not> constrains_broad_grant {}"
  by (simp add: constrains_broad_grant_def)

lemma floor_or_exact: "\<not> floor_requires_prompt e \<longleftrightarrow> be_exact e \<or> \<not> constrains_broad_grant (be_assessment e)"
  by (auto simp: floor_requires_prompt_def)

text \<open>Every command of the script is a setup command, or is covered by a stored grant or on the built-in
  safe lists, and none is dangerous or was rejected for the session.\<close>

definition script_settled :: "('g, 'c) manager_config \<Rightarrow> permission_state \<Rightarrow> ustr \<Rightarrow> bool" where
  "script_settled C S cmd \<longleftrightarrow> (\<exists>tree cmds. plain_script (mc_shell C) cmd tree cmds \<and>
     (\<forall>raw \<in> set cmds. is_setup raw \<or> \<not> segment_rejected S raw \<and> segment_settled (mc_shell C) S True raw))"

definition policy_allows :: "('g, 'c) manager_config \<Rightarrow> 'c request \<Rightarrow> bool" where
  "policy_allows C r \<longleftrightarrow> (\<exists>P. mc_policy C = Some P \<and>
     evaluate_with_cwd (sh_policy (mc_shell C)) P (rq_access r) (Some (request_cwd C r)) = Some Allow)"

lemma decided_allow: "policy_decision p = Some Allow \<Longrightarrow> pf_direct p = Some Allow"
proof -
  have "map_option into_decision g \<noteq> Some Allow" for g
    using into_decision_cases[of "the g"] by (cases g) auto
  moreover have "combine_decisions x y = Some Allow \<Longrightarrow> x = Some Allow \<or> y = Some Allow" for x y
    by (cases "(x, y)" rule: combine_decisions.cases) (auto split: if_splits)
  ultimately show "policy_decision p = Some Allow \<Longrightarrow> pf_direct p = Some Allow"
    unfolding policy_decision_def by metis
qed

lemma decided_by_policy: "policy_decision (request_preflight C A r) = Some Allow \<Longrightarrow> policy_allows C r"
  using decided_allow[of "request_preflight C A r"]
  by (auto simp: policy_allows_def request_preflight_def evaluate_preflight_def Let_def split: option.splits prod.splits)

text \<open>Who can vouch for a command that broad grants may cover.\<close>

definition broadly_vouched :: "('g, 'c) manager_config \<Rightarrow> 'c perm_actor \<Rightarrow> 'c request \<Rightarrow> ustr \<Rightarrow> bool" where
  "broadly_vouched C A r cmd \<longleftrightarrow>
     script_settled C (ac_state A) cmd \<or> ps_allow_bash (ac_state A) \<and> \<not> mc_pinned C \<or> rq_sandbox r \<or> policy_allows C r"

lemma granted_bash_allow:
  assumes "bash_grant_pre_decision cmd e (ac_state A) (mc_pinned C) opts = Some (Allow, reason)"
    and "be_segments e = be_segments (evaluate_bash (mc_shell C) cmd (ac_state A) True)"
    and "be_exact e \<longleftrightarrow> cmd \<in> set (ps_allowed_commands (ac_state A))"
  shows "cmd \<in> set (ps_allowed_commands (ac_state A)) \<or>
    \<not> constrains_broad_grant (be_assessment e) \<and> broadly_vouched C A r cmd"
  using bash_grant_cases[OF assms(1)] assms(2,3) evaluate_auto_allow[of "mc_shell C" cmd "ac_state A" True]
  by (auto simp: broadly_vouched_def script_settled_def persisted_bash_auto_allows_def floor_requires_prompt_def)

lemma early_bash_allow:
  assumes "early_ruling C A r (facts_of C A r) = Some (Allow, approved, reason)" "rq_access r = Bash_Access cmd"
    and "request_evaluation C A r = Some (e, s)" "\<not> ac_yolo A"
    and "be_segments e = be_segments (evaluate_bash (mc_shell C) cmd (ac_state A) True)"
    and "be_exact e \<longleftrightarrow> cmd \<in> set (ps_allowed_commands (ac_state A))"
  shows "cmd \<in> set (ps_allowed_commands (ac_state A)) \<or>
    \<not> constrains_broad_grant (be_assessment e) \<and> broadly_vouched C A r cmd"
proof -
  consider (grant) "bash_grant_pre_decision cmd e (ac_state A) (mc_pinned C) pre_classifier = Some (Allow, reason)"
    | (policy) "be_assessment e = {}" "policy_decision (request_preflight C A r) = Some Allow"
    using assms(1-4) by (auto simp: early_ruling_def policy_denial_def session_grant_def session_grant_pre_decision_def
        bash_assessment_is_clear_def split: option.splits decision.splits if_splits)
  then show ?thesis
  proof cases
    case grant
    then show ?thesis by (rule granted_bash_allow[OF _ assms(5,6)])
  next
    case policy
    then show ?thesis using decided_by_policy by (auto simp: broadly_vouched_def)
  qed
qed

lemma late_bash_allow:
  assumes "late_ruling r (facts_of C A r) forced = Some (Allow, approved, reason)" "rq_access r = Bash_Access cmd"
    and "request_evaluation C A r = Some (e, s)" "be_exact e \<longleftrightarrow> cmd \<in> set (ps_allowed_commands (ac_state A))"
  shows "cmd \<in> set (ps_allowed_commands (ac_state A)) \<or>
    \<not> constrains_broad_grant (be_assessment e) \<and> broadly_vouched C A r cmd"
proof -
  have "\<not> floor_requires_prompt e" "rq_sandbox r \<or> policy_decision (request_preflight C A r) = Some Allow"
    using assms(1-3) by (auto simp: late_ruling_def is_bash_def sandbox_may_auto_allow_bash_def
        bash_request_floor_requires_prompt_def split: option.splits if_splits)
  then show ?thesis using decided_by_policy assms(4) by (auto simp: broadly_vouched_def floor_requires_prompt_def)
qed

lemma settled_bash_allow:
  assumes "settled C A (Bash_Access cmd) f forced = Some (Allow, reason)" "rf_eval f = Some e"
    and "be_segments e = be_segments (evaluate_bash (mc_shell C) cmd (ac_state A) True)"
    and "be_exact e \<longleftrightarrow> cmd \<in> set (ps_allowed_commands (ac_state A))"
  shows "cmd \<in> set (ps_allowed_commands (ac_state A)) \<or>
    \<not> constrains_broad_grant (be_assessment e) \<and> broadly_vouched C A r cmd"
proof -
  obtain opts where "bash_grant_pre_decision cmd e (ac_state A) (mc_pinned C) opts = Some (Allow, reason)"
    using settled_pre_decision[OF assms(1)] assms(2) by (auto simp: pre_decision_def bash_pre_decision_def split: if_splits)
  then show ?thesis by (rule granted_bash_allow[OF _ assms(3,4)])
qed

text \<open>The classifier was shown what the static analysis had found.\<close>

definition classifier_vouched :: "('g, 'c) manager_config \<Rightarrow> 'c perm_actor \<Rightarrow> 'c request \<Rightarrow> assessment \<Rightarrow> bool" where
  "classifier_vouched C A r found \<longleftrightarrow>
     (\<exists>c ctx. ac_classifier A = Some c \<and> found \<subseteq> cc_findings ctx \<and>
        co_verdict (rq_classify r c (tool_name_for_access (rq_access r)) (rq_access r)
          (access_detail C (rq_access r)) ctx) = Verdict_Allow)"

lemma auto_bash_allow:
  assumes "auto_stage C A r f = Some t" "ar_ruling t = Some (Allow, approved, reason)"
    and "rq_access r = Bash_Access cmd" "rf_eval f = Some e"
  shows "ac_auto A \<and> (trim cmd \<in> set (map u [''true'', '':'', ''false'']) \<or> classifier_vouched C A r (be_assessment e))"
proof -
  have auto: "ac_auto A" using assms(1,2) by (auto simp: auto_stage_def Let_def split: if_splits)
  show ?thesis
  proof (cases "trim cmd \<in> set (map u [''true'', '':'', ''false''])")
    case False
    then obtain out where out: "classify_request C A r f = Some out" "co_verdict out = Verdict_Allow"
      using assms(1,2,3) auto unfolding auto_stage_def Let_def fast_path_of_access
      by (auto simp: follow_verdict_def Let_def
          split: if_splits option.splits classifier_verdict.splits)
    then obtain c where c: "ac_classifier A = Some c"
        "out = rq_classify r c (tool_name_for_access (rq_access r)) (rq_access r)
          (access_detail C (rq_access r)) (classifier_context_of A f)"
      by (auto simp: classify_request_def heuristic_outcome_def split: option.splits if_splits)
    have "be_assessment e \<subseteq> cc_findings (classifier_context_of A f)"
      using assms(4) by (simp add: classifier_context_of_def classifier_assessment_def)
    then show ?thesis using auto out c unfolding classifier_vouched_def by blast
  qed (simp add: auto)
qed


lemma ls_facts:
  "split_on 32 (u ''ls'') = [u ''ls'']" "unwrap_wrappers [u ''ls''] = [u ''ls'']"
  "\<not> words_are_opaque_shell [u ''ls'']" "segment_exec_facts [u ''ls''] = \<lparr>sf_exec_risk = False, sf_has_git = False\<rparr>"
  "\<not> is_dangerous_command_words [u ''ls'']" "\<not> special_exec_surface [u ''ls'']"
  "\<not> is_setup_command [u ''ls'']" "is_safe_command_words [u ''ls'']"
  "command_env_risk [u ''ls''] = Env_Safe"
  by code_simp+

lemma demo_ls:
  "evaluate_bash (mc_shell (demo_manager pp pin)) (u ''ls'') default_state True =
     \<lparr>be_segments = AutoAllow False, be_exact = False, be_granted = False, be_assessment = {}, be_ambient = None\<rparr>"
  by (simp add: evaluate_bash_def demo_manager_def default_state_def judge_script_def scan_start_def note_segment_def
      judge_segment_def segment_granted_def found_if_def script_findings_def script_env_risk_def env_risk_finding_def
      ls_facts Let_def)

lemma demo_ls_runs:
  "\<exists>ev. handle_request (demo_manager Prompt_Ask False) (demo_manager_actor (demo_manager Prompt_Ask False) False)
     (demo_request (Bash_Access (u ''ls'')) AllowOnce) =
   (demo_manager_actor (demo_manager Prompt_Ask False) False, ev, Some Allow) \<and> \<not> pe_prompted ev"
proof -
  let ?C = "demo_manager Prompt_Ask False" and ?A = "demo_manager_actor (demo_manager Prompt_Ask False) False"
  let ?r = "demo_request (Bash_Access (u ''ls'')) AllowOnce"
  have e: "request_evaluation ?C ?A ?r = Some (evaluate_bash (mc_shell ?C) (u ''ls'') default_state True, False)"
    by (simp add: request_evaluation_def demo_ls)
  have p: "request_preflight ?C ?A ?r = \<lparr>pf_direct = None, pf_bash = None, pf_file = None, pf_defers = False\<rparr>"
    by (rule no_policy) (simp add: demo_manager_def)
  have "early_ruling ?C ?A ?r (facts_of ?C ?A ?r) = Some (Allow, True, ''safe_command'')"
    by (simp add: early_ruling_def policy_denial_def session_grant_def no_floor_def p e demo_ls
        session_grant_pre_decision_def bash_grant_pre_decision_def floor_requires_prompt_def pre_classifier_def
        grant_allow_def protected_edit_def clamp_yolo_def)
  then show ?thesis by (simp add: handle_request_def e ruled_def Let_def)
qed

text \<open>When every segment of a command settles itself and nothing in it constrains broad grants, the
  command is a plain script; it writes to no file but the standard sinks and sets no environment
  variable outside the safe set; each segment, with all its wrappers peeled off, is no opaque shell
  and has no execution risk; and it only sets up the shell, or matches no rejected prefix, is not
  dangerous, and was granted or is on the safe list.\<close>

theorem auto_allowed_command_is_vetted:
  assumes "be_segments (evaluate_bash E cmd S sl) = AutoAllow via"
    and "\<not> constrains_broad_grant (be_assessment (evaluate_bash E cmd S sl))"
  shows "\<exists>tree cmds. plain_script E cmd tree cmds \<and>
    list_all is_safe_write_sink (st_writes tree) \<and> script_env_risk (st_assigned tree) cmds = Env_Safe \<and>
    (\<forall>raw \<in> set cmds.
      \<not> still_wrapped (unwrap_wrappers raw) \<and> \<not> words_are_opaque_shell (unwrap_wrappers raw) \<and>
      \<not> sf_exec_risk (segment_exec_facts raw) \<and>
      (is_setup raw \<or> \<not> segment_rejected S raw \<and> \<not> is_dangerous_command_words (unwrap_wrappers raw) \<and>
        (segment_granted E S (segment_text raw) \<or> sl \<and> is_safe_command_words (unwrap_wrappers raw))))"
proof -
  obtain tree cmds where p: "plain_script E cmd tree cmds"
    and each: "\<forall>raw \<in> set cmds. is_setup raw \<or> \<not> segment_rejected S raw \<and> segment_settled E S sl raw"
    using evaluate_auto_allow[of E cmd S sl] assms(1) by blast
  have found: "be_assessment (evaluate_bash E cmd S sl) =
      script_findings tree cmds \<union> (\<Union>raw \<in> set cmds. segment_findings S raw)"
    by (rule evaluate_findings[OF p]) (simp add: assms(1))
  have clean: "f \<notin> be_assessment (evaluate_bash E cmd S sl)" if "is_grant_floor f" for f
    using assms(2) that by (auto simp: constrains_broad_grant_def)
  have script: "FileWrite \<notin> script_findings tree cmds" "EnvInjection \<notin> script_findings tree cmds"
      "UnvettedEnv \<notin> script_findings tree cmds"
    using clean[of FileWrite] clean[of EnvInjection] clean[of UnvettedEnv] found by auto
  have "list_all is_safe_write_sink (st_writes tree)"
    using script(1) by (auto simp: script_findings_def list_all_iff list_ex_iff split: if_splits)
  moreover have "script_env_risk (st_assigned tree) cmds = Env_Safe"
    using script(2,3) by (cases "script_env_risk (st_assigned tree) cmds")
      (simp_all add: script_findings_def env_risk_finding_def)
  moreover have "\<not> still_wrapped (unwrap_wrappers raw) \<and> \<not> words_are_opaque_shell (unwrap_wrappers raw) \<and>
      \<not> sf_exec_risk (segment_exec_facts raw)" if "raw \<in> set cmds" for raw
  proof -
    have "ExecOrAmbientGit \<notin> segment_findings S raw" "OpaqueShell \<notin> segment_findings S raw"
      using clean[of ExecOrAmbientGit] clean[of OpaqueShell] found that by auto
    then show ?thesis using no_risk_unwrapped by (auto simp: segment_findings_def Let_def split: if_splits)
  qed
  ultimately show ?thesis using p each
    by (intro exI[of _ tree] exI[of _ cmds]) (auto simp: segment_settled_def Let_def)
qed

theorem auto_allowed_command_is_vetted_witness:
  "\<exists>tree cmds. plain_script (mc_shell (demo_manager Prompt_Ask False)) (u ''ls'') tree cmds"
  using auto_allowed_command_is_vetted[of "mc_shell (demo_manager Prompt_Ask False)" "u ''ls''" default_state True False]
  by (simp add: demo_ls) blast

end
