(* ===== verification/Handle_Flags.thy ===== *)
theory Handle_Flags
  imports Manager_Properties
begin

text \<open>
  The mode flags that the clones of a permission handle share with the actor (\<open>permission/manager.rs\<close>):
  two atomics that readers look at without asking the actor. Setting a mode stores and then sends, the
  actor sets its own modes and then stores again, and every step of these may come between the steps of
  other handles.
\<close>

section \<open>Programs of a handle\<close>

datatype flag = Yolo_Flag | Auto_Flag

datatype 'c handle_act = Store flag bool | Send "'c perm_command"

definition store_yolo :: "bool \<Rightarrow> 'c handle_act list" where
  "store_yolo clamped = Store Yolo_Flag clamped # (if clamped then [Store Auto_Flag False] else [])"

definition store_auto :: "bool \<Rightarrow> 'c handle_act list" where
  "store_auto enabled = Store Auto_Flag enabled # (if enabled then [Store Yolo_Flag False] else [])"

definition handle_set_yolo :: "('g, 'c) manager_config \<Rightarrow> bool \<Rightarrow> 'c handle_act list" where
  "handle_set_yolo C enabled =
     store_yolo (clamp_yolo enabled (mc_pinned C)) @ [Send (SetYoloMode enabled)]"

definition handle_set_auto :: "bool \<Rightarrow> 'c handle_act list" where
  "handle_set_auto enabled = store_auto enabled @ [Send (SetAutoMode enabled)]"

text \<open>What the calls of a handle do; the other calls only send.\<close>

definition call_program :: "('g, 'c) manager_config \<Rightarrow> 'c perm_command \<Rightarrow> 'c handle_act list" where
  "call_program C c =
     (case c of
        SetYoloMode b \<Rightarrow> handle_set_yolo C b
      | SetAutoMode b \<Rightarrow> handle_set_auto b
      | _ \<Rightarrow> [Send c])"

text \<open>What the actor stores once it has handled a command.\<close>

definition actor_stores :: "('g, 'c) manager_config \<Rightarrow> 'c perm_command \<Rightarrow> 'c handle_act list" where
  "actor_stores C c =
     (case c of
        SetYoloMode b \<Rightarrow> store_yolo (clamp_yolo b (mc_pinned C))
      | SetAutoMode b \<Rightarrow> store_auto b
      | _ \<Rightarrow> [])"

section \<open>Interleavings\<close>

record 'c shared =
  sh_flag :: "flag \<Rightarrow> bool"
  sh_calls :: "'c handle_act list list"
  sh_queue :: "'c perm_command list"
  sh_todo :: "'c handle_act list"
  sh_actor :: "'c perm_actor"

fun perform :: "'c handle_act \<Rightarrow> 'c shared \<Rightarrow> 'c shared" where
  "perform (Store f b) s = s\<lparr>sh_flag := (sh_flag s)(f := b)\<rparr>"
| "perform (Send c) s = s\<lparr>sh_queue := sh_queue s @ [c]\<rparr>"

definition start_shared :: "('g, 'c) manager_config \<Rightarrow> 'c perm_actor \<Rightarrow> 'c shared" where
  "start_shared C A =
     \<lparr>sh_flag = (\<lambda>f. case f of Yolo_Flag \<Rightarrow> ac_yolo A | Auto_Flag \<Rightarrow> ac_auto A),
      sh_calls = [], sh_queue = [], sh_todo = [], sh_actor = A\<rparr>"

text \<open>A step of the system without new calls: of a call, of the actor taking a command, of its stores.\<close>

inductive internal :: "('g, 'c) manager_config \<Rightarrow> 'c shared \<Rightarrow> 'c shared \<Rightarrow> bool" for C where
  act: "sh_calls s = ps @ (x # p) # qs \<Longrightarrow>
    internal C s (perform x (s\<lparr>sh_calls := ps @ (if p = [] then [] else [p]) @ qs\<rparr>))"
| recv: "sh_todo s = [] \<Longrightarrow> sh_queue s = c # cs \<Longrightarrow>
    internal C s (s\<lparr>sh_queue := cs, sh_actor := handle_perm_command C c (sh_actor s), sh_todo := actor_stores C c\<rparr>)"
| store: "sh_todo s = x # p \<Longrightarrow> internal C s (perform x (s\<lparr>sh_todo := p\<rparr>))"

inductive step :: "('g, 'c) manager_config \<Rightarrow> 'c shared \<Rightarrow> 'c shared \<Rightarrow> bool" for C where
  call: "step C s (s\<lparr>sh_calls := sh_calls s @ [call_program C c]\<rparr>)"
| internal: "internal C s s' \<Longrightarrow> step C s s'"

inductive handles_reach :: "('g, 'c) manager_config \<Rightarrow> 'c shared \<Rightarrow> 'c shared \<Rightarrow> bool" for C s where
  init: "handles_reach C s s"
| more: "handles_reach C s t \<Longrightarrow> step C t t' \<Longrightarrow> handles_reach C s t'"

inductive_cases internal_cases: "internal C s s'"
inductive_cases step_cases: "step C s s'"

section \<open>The invariant\<close>

definition mode_of :: "flag \<Rightarrow> 'c perm_actor \<Rightarrow> bool" where
  "mode_of f A = (case f of Yolo_Flag \<Rightarrow> ac_yolo A | Auto_Flag \<Rightarrow> ac_auto A)"

definition touches :: "('g, 'c) manager_config \<Rightarrow> flag \<Rightarrow> 'c perm_command \<Rightarrow> bool" where
  "touches C f c \<longleftrightarrow> (\<exists>b. Store f b \<in> set (actor_stores C c))"

text \<open>A call still has to send a command that restates every store it may still make, or has made.\<close>

definition call_ok :: "('g, 'c) manager_config \<Rightarrow> 'c handle_act list \<Rightarrow> bool" where
  "call_ok C p \<longleftrightarrow>
     (\<exists>xs c. p = xs @ [Send c] \<and> (\<forall>x \<in> set xs. \<exists>f b. x = Store f b \<and> touches C f c \<and> (f = Yolo_Flag \<and> mc_pinned C \<longrightarrow> \<not> b)))"

definition pending :: "('g, 'c) manager_config \<Rightarrow> flag \<Rightarrow> 'c shared \<Rightarrow> bool" where
  "pending C f s \<longleftrightarrow>
     (\<exists>p \<in> set (sh_calls s). \<exists>c. Send c \<in> set p \<and> touches C f c) \<or> (\<exists>c \<in> set (sh_queue s). touches C f c) \<or>
     (\<exists>b. Store f b \<in> set (sh_todo s))"

definition shared_ok :: "('g, 'c) manager_config \<Rightarrow> 'c shared \<Rightarrow> bool" where
  "shared_ok C s \<longleftrightarrow>
     manager_ok C (sh_actor s) \<and> (\<forall>p \<in> set (sh_calls s). call_ok C p) \<and>
     (\<forall>x \<in> set (sh_todo s). \<exists>f. x = Store f (mode_of f (sh_actor s))) \<and>
     (mc_pinned C \<longrightarrow> \<not> sh_flag s Yolo_Flag) \<and>
     (\<forall>f. sh_flag s f = mode_of f (sh_actor s) \<or> pending C f s)"

subsection \<open>What a command does to the modes\<close>

definition modes :: "'c perm_actor \<Rightarrow> bool \<times> bool" where
  "modes A = (ac_yolo A, ac_auto A)"

lemma prompt_stage_modes: "modes (fst (prompt_stage C A t r f)) = modes (ar_actor t)"
  by (auto simp: prompt_stage_def abandoned_def modes_def Let_def dest!: answer_keeps_modes
      simp: same_modes_def split: prod.split)

lemma auto_stage_modes: "auto_stage C A r f = Some t \<Longrightarrow> modes (ar_actor t) = modes A"
  by (auto simp: auto_stage_def follow_verdict_def modes_def Let_def
      split: if_splits auto_fast_path.splits classifier_verdict.splits)

lemma after_auto_modes: "modes (fst (after_auto C A t r f)) = modes (ar_actor t)"
  by (simp add: after_auto_def ruled_def prompt_stage_modes Let_def split: option.split prod.split)

lemma request_modes: "modes (fst (handle_request C A r)) = modes A"
  by (simp add: handle_request_def abandoned_def ruled_def after_auto_modes auto_stage_modes Let_def
      split: option.split prod.split)

lemma actor_stores_modes:
  "x \<in> set (actor_stores C c) \<Longrightarrow> \<exists>f. x = Store f (mode_of f (handle_perm_command C c A))"
  by (cases c) (auto simp: actor_stores_def store_yolo_def store_auto_def mode_of_def set_yolo_def set_auto_def Let_def
      split: if_splits)

lemma untouched_modes:
  assumes "\<not> touches C f c"
  shows "mode_of f (handle_perm_command C c A) = mode_of f A"
proof (cases c)
  case (Request r)
  then show ?thesis using request_modes[of C A r] by (simp add: modes_def mode_of_def split: flag.split)
qed (use assms in \<open>auto simp: touches_def actor_stores_def store_yolo_def store_auto_def mode_of_def set_yolo_def
   set_auto_def reset_state_def Let_def split: if_splits flag.splits\<close>)

lemma call_program_ok: "call_ok C (call_program C c)"
  by (cases c) (auto simp: call_ok_def call_program_def handle_set_yolo_def handle_set_auto_def store_yolo_def
      store_auto_def touches_def actor_stores_def clamp_yolo_def)

lemma call_ok_cases:
  assumes "call_ok C (x # p)"
  obtains (send) c where "x = Send c" "p = []"
  | (store) f b c where "x = Store f b" "p \<noteq> []" "call_ok C p" "Send c \<in> set p" "touches C f c"
      "f = Yolo_Flag \<and> mc_pinned C \<longrightarrow> \<not> b"
proof -
  obtain xs c where p: "x # p = xs @ [Send c]"
    and xs: "\<forall>y \<in> set xs. \<exists>f b. y = Store f b \<and> touches C f c \<and> (f = Yolo_Flag \<and> mc_pinned C \<longrightarrow> \<not> b)"
    using assms unfolding call_ok_def by blast
  show thesis
  proof (cases xs)
    case Nil
    then show ?thesis using p send by simp
  next
    case (Cons y ys)
    then have "p = ys @ [Send c]" "x = y" using p by simp_all
    then show ?thesis using xs Cons store[of _ _ c] unfolding call_ok_def by auto
  qed
qed

subsection \<open>Every step keeps it\<close>

lemma act_keeps:
  assumes "shared_ok C s" "sh_calls s = ps @ (x # p) # qs"
  shows "shared_ok C (perform x (s\<lparr>sh_calls := ps @ (if p = [] then [] else [p]) @ qs\<rparr>))"
proof -
  have "call_ok C (x # p)" using assms by (simp add: shared_ok_def)
  then show ?thesis
  proof (cases rule: call_ok_cases)
    case (send c)
    have "pending C f (perform x (s\<lparr>sh_calls := ps @ qs\<rparr>))" if "pending C f s" for f
      using that assms(2) send by (auto simp: pending_def)
    then show ?thesis using assms send by (auto simp: shared_ok_def)
  next
    case (store f b c)
    have "pending C g (perform x (s\<lparr>sh_calls := ps @ [p] @ qs\<rparr>))" if "pending C g s" for g
      using that assms(2) store(1) by (auto simp: pending_def)
    moreover have "pending C f (perform x (s\<lparr>sh_calls := ps @ [p] @ qs\<rparr>))"
      using store by (auto simp: pending_def)
    ultimately show ?thesis using assms store by (auto simp: shared_ok_def)
  qed
qed

lemma recv_keeps:
  assumes "shared_ok C s" "sh_todo s = []" "sh_queue s = c # cs"
  shows "shared_ok C (s\<lparr>sh_queue := cs, sh_actor := handle_perm_command C c (sh_actor s), sh_todo := actor_stores C c\<rparr>)"
proof -
  let ?A = "handle_perm_command C c (sh_actor s)"
  let ?s = "s\<lparr>sh_queue := cs, sh_actor := ?A, sh_todo := actor_stores C c\<rparr>"
  have "sh_flag s f = mode_of f ?A \<or> pending C f ?s" for f
  proof (cases "touches C f c")
    case True
    then show ?thesis by (auto simp: pending_def touches_def)
  next
    case False
    moreover have "pending C f ?s" if "pending C f s" using that assms(2,3) False by (auto simp: pending_def)
    ultimately show ?thesis using assms(1) untouched_modes[OF False, of "sh_actor s"] by (auto simp: shared_ok_def)
  qed
  moreover have "\<forall>x \<in> set (actor_stores C c). \<exists>f. x = Store f (mode_of f ?A)" using actor_stores_modes by blast
  ultimately show ?thesis using assms(1) keeps by (auto simp: shared_ok_def)
qed

lemma store_keeps:
  assumes "shared_ok C s" "sh_todo s = x # p"
  shows "shared_ok C (perform x (s\<lparr>sh_todo := p\<rparr>))"
proof -
  obtain f where x: "x = Store f (mode_of f (sh_actor s))" using assms by (auto simp: shared_ok_def)
  have "pending C g (perform x (s\<lparr>sh_todo := p\<rparr>))" if "pending C g s" "g \<noteq> f" for g
    using that assms(2) x by (auto simp: pending_def)
  moreover have "mc_pinned C \<longrightarrow> \<not> mode_of Yolo_Flag (sh_actor s)"
    using assms(1) by (simp add: shared_ok_def manager_ok_def mode_of_def)
  ultimately show ?thesis using assms x by (auto simp: shared_ok_def)
qed

lemma step_keeps: "step C s s' \<Longrightarrow> shared_ok C s \<Longrightarrow> shared_ok C s'"
proof (elim step_cases internal_cases)
  fix c
  assume ok: "shared_ok C s" and s': "s' = s\<lparr>sh_calls := sh_calls s @ [call_program C c]\<rparr>"
  have "pending C f s'" if "pending C f s" for f using that s' by (auto simp: pending_def)
  then show ?thesis using ok s' call_program_ok by (auto simp: shared_ok_def)
qed (simp_all only: act_keeps recv_keeps store_keeps)

lemma reach_keeps: "handles_reach C s t \<Longrightarrow> shared_ok C s \<Longrightarrow> shared_ok C t"
  by (induction rule: handles_reach.induct) (auto intro: step_keeps)

lemma start_shared_ok: "manager_ok C A \<Longrightarrow> shared_ok C (start_shared C A)"
  by (auto simp: shared_ok_def start_shared_def mode_of_def manager_ok_def)

section \<open>Settling\<close>

definition settled_down :: "('g, 'c) manager_config \<Rightarrow> 'c shared \<Rightarrow> bool" where
  "settled_down C s \<longleftrightarrow> (\<forall>s'. \<not> internal C s s')"

lemma settled_parts:
  assumes "shared_ok C s" "settled_down C s"
  shows "sh_calls s = []" "sh_queue s = []" "sh_todo s = []"
proof -
  show "sh_calls s = []"
  proof (rule ccontr)
    assume "sh_calls s \<noteq> []"
    then obtain p ps where "sh_calls s = p # ps" by (cases "sh_calls s") auto
    moreover obtain x q where "p = x # q"
      using calculation assms(1) by (cases p) (auto simp: shared_ok_def call_ok_def)
    ultimately show False using assms(2) internal.act[of s "[]" x q ps C] by (auto simp: settled_down_def)
  qed
  show todo: "sh_todo s = []"
    using assms(2) internal.store[of s] by (cases "sh_todo s") (auto simp: settled_down_def)
  show "sh_queue s = []"
    using assms(2) internal.recv[OF todo] by (cases "sh_queue s") (auto simp: settled_down_def)
qed

lemma settled_flags:
  assumes "shared_ok C s" "settled_down C s"
  shows "sh_flag s f = mode_of f (sh_actor s)"
  using assms(1) settled_parts[OF assms] by (auto simp: shared_ok_def pending_def)

text \<open>The work that is left: a command in the queue is worth its stores and one step more.\<close>

fun act_work :: "'c handle_act \<Rightarrow> nat" where
  "act_work (Store f b) = 1"
| "act_work (Send c) = 4"

definition work :: "'c shared \<Rightarrow> nat" where
  "work s = sum_list (map (sum_list \<circ> map act_work) (sh_calls s)) + 3 * length (sh_queue s) +
     sum_list (map act_work (sh_todo s))"

lemma internal_work:
  assumes "internal C s s'"
  shows "work s' < work s"
  using assms
proof cases
  case (act ps x p qs)
  then show ?thesis by (cases x) (auto simp: work_def)
next
  case (recv c cs)
  moreover have "sum_list (map act_work (actor_stores C c)) \<le> 2"
    by (simp add: actor_stores_def store_yolo_def store_auto_def split: perm_command.split)
  ultimately show ?thesis by (simp add: work_def)
next
  case (store x p)
  then show ?thesis by (cases x) (auto simp: work_def)
qed

lemma run_work: "(internal C ^^ n) s s' \<Longrightarrow> n + work s' \<le> work s"
proof (induction n arbitrary: s')
  case (Suc n)
  then obtain t where "(internal C ^^ n) s t" "internal C t s'" by auto
  then show ?case using Suc.IH internal_work by fastforce
qed simp

lemma can_settle: "\<exists>s'. (internal C)\<^sup>*\<^sup>* s s' \<and> settled_down C s'"
proof (induction "work s" arbitrary: s rule: less_induct)
  case less
  show ?case
  proof (cases "settled_down C s")
    case False
    then obtain t where t: "internal C s t" by (auto simp: settled_down_def)
    then show ?thesis using less[OF internal_work[OF t]] converse_rtranclp_into_rtranclp[of "internal C" s t] by blast
  qed blast
qed

lemma internal_keeps: "(internal C)\<^sup>*\<^sup>* s t \<Longrightarrow> shared_ok C s \<Longrightarrow> shared_ok C t"
  by (induction rule: rtranclp_induct) (auto intro: step_keeps step.internal)

text \<open>C27: however the calls of all the handles interleave with the actor, under the pin no reader ever sees
  always-approve on; and once no call and no command is left, the flags are the modes of the actor and
  not both on.\<close>

theorem handle_flags_agree:
  assumes "handles_reach C (start_shared C (start_manager C yolo loaded disk written)) s"
  shows "(mc_pinned C \<longrightarrow> \<not> sh_flag s Yolo_Flag) \<and>
    (settled_down C s \<longrightarrow> (\<forall>f. sh_flag s f = mode_of f (sh_actor s)) \<and> \<not> (sh_flag s Yolo_Flag \<and> sh_flag s Auto_Flag))"
proof -
  have ok: "shared_ok C s" using reach_keeps[OF assms] start_shared_ok[OF start_manager_ok] by blast
  moreover have "\<not> (mode_of Yolo_Flag (sh_actor s) \<and> mode_of Auto_Flag (sh_actor s))"
    using ok by (simp add: shared_ok_def manager_ok_def mode_of_def)
  ultimately show ?thesis using settled_flags[OF ok] by (auto simp: shared_ok_def)
qed

abbreviation demo_shared :: "bool \<Rightarrow> unit shared" where
  "demo_shared pinned \<equiv> start_shared (demo_manager Prompt_Auto pinned) (demo_manager_actor (demo_manager Prompt_Auto pinned) False)"

text \<open>A call that turns always-approve on, before and after its first store.\<close>

definition demo_called :: "bool \<Rightarrow> unit shared" where
  "demo_called pinned = (demo_shared pinned)\<lparr>sh_calls := [call_program (demo_manager Prompt_Auto pinned) (SetYoloMode True)]\<rparr>"

definition demo_stored :: "bool \<Rightarrow> unit shared" where
  "demo_stored pinned = (case call_program (demo_manager Prompt_Auto pinned) (SetYoloMode True) of
     x # p \<Rightarrow> perform x ((demo_called pinned)\<lparr>sh_calls := [p]\<rparr>) | [] \<Rightarrow> demo_called pinned)"

lemma demo_program: "call_program (demo_manager pp pinned) (SetYoloMode True) =
    Store Yolo_Flag (\<not> pinned) # (if pinned then [] else [Store Auto_Flag False]) @ [Send (SetYoloMode True)]"
  by (simp add: call_program_def handle_set_yolo_def store_yolo_def clamp_yolo_def)

lemma demo_called_reached: "handles_reach (demo_manager Prompt_Auto pinned) (demo_shared pinned) (demo_called pinned)"
proof -
  have "step (demo_manager Prompt_Auto pinned) (demo_shared pinned) (demo_called pinned)"
    using step.call[of "demo_manager Prompt_Auto pinned" "demo_shared pinned" "SetYoloMode True"]
    by (simp add: demo_called_def start_shared_def)
  then show ?thesis by (rule handles_reach.more[OF handles_reach.init])
qed

lemma demo_stored_reached: "handles_reach (demo_manager Prompt_Auto pinned) (demo_shared pinned) (demo_stored pinned)"
proof -
  have "internal (demo_manager Prompt_Auto pinned) (demo_called pinned) (demo_stored pinned)"
    using internal.act[of "demo_called pinned" "[]" "Store Yolo_Flag (\<not> pinned)"
        "(if pinned then [] else [Store Auto_Flag False]) @ [Send (SetYoloMode True)]" "[]"
        "demo_manager Prompt_Auto pinned"]
    by (cases pinned) (simp_all add: demo_stored_def demo_program demo_called_def)
  then show ?thesis using handles_reach.more[OF demo_called_reached] step.internal by blast
qed

theorem handle_flags_agree_witness:
  "\<exists>s. handles_reach (demo_manager Prompt_Auto True) (demo_shared True) s \<and> sh_calls s \<noteq> [] \<and> \<not> sh_flag s Yolo_Flag"
  using handle_flags_agree[OF demo_stored_reached[of True]] demo_stored_reached[of True]
  by (intro exI[of _ "demo_stored True"]) (simp add: demo_stored_def demo_program)

text \<open>C31: from every state that calls and the actor can reach, the system comes to rest once no new calls are
  made: no schedule takes more steps than the work that is left, every schedule can be continued until
  nothing is left to do, and whichever schedule has got there has left flags that tell the modes of
  the actor.\<close>

theorem pending_calls_settle:
  assumes "handles_reach C (start_shared C (start_manager C yolo loaded disk written)) s"
  shows "(\<forall>n t. (internal C ^^ n) s t \<longrightarrow> n \<le> work s) \<and>
    (\<forall>t. (internal C)\<^sup>*\<^sup>* s t \<longrightarrow> (\<exists>t'. (internal C)\<^sup>*\<^sup>* t t' \<and> settled_down C t')) \<and>
    (\<forall>t. (internal C)\<^sup>*\<^sup>* s t \<longrightarrow> settled_down C t \<longrightarrow> (\<forall>f. sh_flag t f = mode_of f (sh_actor t)))"
proof (intro conjI allI impI)
  have ok: "shared_ok C s" using reach_keeps[OF assms] start_shared_ok[OF start_manager_ok] by blast
  show "n \<le> work s" if "(internal C ^^ n) s t" for n t using run_work[OF that] by simp
  show "\<exists>t'. (internal C)\<^sup>*\<^sup>* t t' \<and> settled_down C t'" for t by (rule can_settle)
  show "sh_flag t f = mode_of f (sh_actor t)" if "(internal C)\<^sup>*\<^sup>* s t" "settled_down C t" for t f
    using internal_keeps[OF that(1) ok] that(2) by (rule settled_flags)
qed

theorem pending_calls_settle_witness:
  "work (demo_stored False) = 5 \<and> sh_flag (demo_stored False) Yolo_Flag \<and> sh_flag (demo_stored False) Auto_Flag \<and>
   (\<exists>t. (internal (demo_manager Prompt_Auto False))\<^sup>*\<^sup>* (demo_stored False) t \<and>
     settled_down (demo_manager Prompt_Auto False) t \<and> (\<forall>f. sh_flag t f = mode_of f (sh_actor t)))"
proof -
  have "work (demo_stored False) = 5 \<and> sh_flag (demo_stored False) Yolo_Flag \<and> sh_flag (demo_stored False) Auto_Flag"
    by (simp add: demo_stored_def demo_program work_def demo_called_def start_shared_def clamp_yolo_def)
  then show ?thesis using pending_calls_settle[OF demo_stored_reached[of False]] by (meson rtranclp.rtrancl_refl)
qed

end
