(* ===== verification/Hunk_Types.thy ===== *)
theory Hunk_Types
  imports Rust_Text
begin

text \<open>
  Data of the hunk tracker (\<open>xai-hunk-tracker/src/types.rs\<close>, \<open>events.rs\<close> and
  \<open>actor/state.rs\<close>). A Rust \<open>String\<close> is its UTF-8 bytes (\<open>char list\<close>), so that \<open>len()\<close> is
  \<open>length\<close>; a path is the list of its components; a \<open>HunkId\<close> is a number drawn from a
  supply that never repeats (the source draws a UUID); a timestamp is a number. A
  \<open>HashMap\<close> is an association list in some iteration order.
\<close>

type_synonym str = string
type_synonym path = "string list"
type_synonym hunk_id = nat

abbreviation NL :: char where "NL \<equiv> CHR 0x0A"
abbreviation CR :: char where "CR \<equiv> CHR 0x0D"

definition text_lines :: "str \<Rightarrow> str list" where
  "text_lines s = str_lines NL CR s"

definition usize_max :: nat where
  "usize_max = 2 ^ 64 - 1"

definition saturating_add :: "nat \<Rightarrow> nat \<Rightarrow> nat" where
  "saturating_add a b = min (a + b) usize_max"

text \<open>\<open>Path::strip_prefix\<close> and \<open>Path::join\<close> of a relative path.\<close>

fun strip_prefix :: "path \<Rightarrow> path \<Rightarrow> path option" where
  "strip_prefix [] p = Some p"
| "strip_prefix (c # cs) [] = None"
| "strip_prefix (c # cs) (d # ds) = (if c = d then strip_prefix cs ds else None)"

lemma strip_prefix_Some: "strip_prefix pre p = Some r \<longleftrightarrow> p = pre @ r"
  by (induction pre p rule: strip_prefix.induct) auto

section \<open>Hunks\<close>

record line_info =
  old_start :: nat
  old_count :: nat
  new_start :: nat
  new_count :: nat

datatype hunk_source = AgentEdit nat | ExternalEditOnAgentFile | External

fun is_agent_edit :: "hunk_source \<Rightarrow> bool" where
  "is_agent_edit (AgentEdit _) = True"
| "is_agent_edit _ = False"

fun is_agent_tracked :: "hunk_source \<Rightarrow> bool" where
  "is_agent_tracked (AgentEdit _) = True"
| "is_agent_tracked ExternalEditOnAgentFile = True"
| "is_agent_tracked External = False"

fun is_external :: "hunk_source \<Rightarrow> bool" where
  "is_external External = True"
| "is_external ExternalEditOnAgentFile = True"
| "is_external (AgentEdit _) = False"

fun prompt_index :: "hunk_source \<Rightarrow> nat option" where
  "prompt_index (AgentEdit i) = Some i"
| "prompt_index _ = None"

lemma is_external_iff: "is_external src \<longleftrightarrow> \<not> is_agent_edit src"
  by (cases src) auto

lemma prompt_index_Some: "prompt_index src = Some i \<longleftrightarrow> src = AgentEdit i"
  by (cases src) auto

record hunk =
  h_id :: hunk_id
  h_path :: path
  h_line_info :: line_info
  h_source :: hunk_source
  h_old_text :: "str option"
  h_new_text :: str
  h_patch :: "str option"
  h_created_at :: nat
  h_selected :: bool

text \<open>\<open>Hunk::file_created\<close> and \<open>Hunk::file_deleted\<close>, given the fresh id and the time.\<close>

definition file_created :: "hunk_id \<Rightarrow> nat \<Rightarrow> path \<Rightarrow> str \<Rightarrow> hunk_source \<Rightarrow> hunk" where
  "file_created i now p content src =
     \<lparr>h_id = i, h_path = p,
      h_line_info = \<lparr>old_start = 0, old_count = 0, new_start = 1,
        new_count = max (length (text_lines content)) 1\<rparr>,
      h_source = src, h_old_text = None, h_new_text = content, h_patch = None,
      h_created_at = now, h_selected = False\<rparr>"

definition file_deleted :: "hunk_id \<Rightarrow> nat \<Rightarrow> path \<Rightarrow> str \<Rightarrow> hunk_source \<Rightarrow> hunk" where
  "file_deleted i now p content src =
     \<lparr>h_id = i, h_path = p,
      h_line_info = \<lparr>old_start = 1, old_count = max (length (text_lines content)) 1,
        new_start = 0, new_count = 0\<rparr>,
      h_source = src, h_old_text = Some content, h_new_text = [], h_patch = None,
      h_created_at = now, h_selected = False\<rparr>"

text \<open>Decimal rendering of a \<open>usize\<close>.\<close>

fun dec :: "nat \<Rightarrow> string" where
  "dec n = (if n < 10 then [char_of (48 + n)] else dec (n div 10) @ [char_of (48 + n mod 10)])"

declare dec.simps [simp del]

definition show_line_info :: "line_info \<Rightarrow> string" where
  "show_line_info li =
     ''@@ -'' @ dec (old_start li) @ '','' @ dec (old_count li) @ '' +'' @
     dec (new_start li) @ '','' @ dec (new_count li) @ '' @@''"

definition hunk_summary :: "hunk \<Rightarrow> string" where
  "hunk_summary h =
     ''+'' @ dec (length (text_lines (h_new_text h))) @ ''/-'' @
     dec (case h_old_text h of None \<Rightarrow> 0 | Some t \<Rightarrow> length (text_lines t))"

datatype hunk_action = Accept | Reject

datatype io_error = IoError string

datatype hunk_action_error =
  HunkNotFound hunk_id
| WriteError path io_error
| DeleteError path io_error
| ReadError path io_error

datatype tracking_mode = AgentOnly | AllDirty

datatype hunk_source_filter = AgentFilter | ExternalFilter

record session_stats =
  accepted_hunks :: nat
  rejected_hunks :: nat
  accepted_lines_added :: nat
  accepted_lines_removed :: nat
  rejected_lines_added :: nat
  rejected_lines_removed :: nat

definition default_stats :: session_stats where
  "default_stats = \<lparr>accepted_hunks = 0, rejected_hunks = 0, accepted_lines_added = 0,
     accepted_lines_removed = 0, rejected_lines_added = 0, rejected_lines_removed = 0\<rparr>"

record turn_summary =
  ts_prompt_index :: nat
  ts_files :: "path list"
  ts_pending_hunks :: "hunk list"
  ts_lines_added :: nat
  ts_lines_removed :: nat

record session_summary =
  ss_stats :: session_stats
  ss_turns :: "turn_summary list"
  ss_files_modified :: nat
  ss_files_with_pending :: nat
  ss_pending_hunks :: nat
  ss_pending_lines_added :: nat
  ss_pending_lines_removed :: nat
  ss_unattributed_pending :: nat

section \<open>File contents\<close>

datatype content_state =
  Missing
| Binary "nat option"
| TooLarge nat
| LfsPointer nat
| Symlink
| Full str

fun as_str :: "content_state \<Rightarrow> str option" where
  "as_str (Full s) = Some s"
| "as_str _ = None"

fun is_diffable :: "content_state \<Rightarrow> bool" where
  "is_diffable (Full _) = True"
| "is_diffable _ = False"

fun content_byte_len :: "content_state \<Rightarrow> nat option" where
  "content_byte_len Missing = Some 0"
| "content_byte_len (Binary n) = n"
| "content_byte_len (TooLarge n) = Some n"
| "content_byte_len (LfsPointer n) = Some n"
| "content_byte_len Symlink = None"
| "content_byte_len (Full s) = Some (length s)"

lemma is_diffable_iff: "is_diffable c \<longleftrightarrow> (\<exists>s. c = Full s)"
  by (cases c) auto

text \<open>The API view of a content state (\<open>FileContentView\<close>).\<close>

datatype content_status = SMissing | SBinary | STooLarge | SLfsPointer | SSymlink | SFull

record content_view =
  cv_status :: content_status
  cv_byte_len :: "nat option"
  cv_content :: "str option"

fun from_content_state :: "content_state \<Rightarrow> content_view" where
  "from_content_state Missing = \<lparr>cv_status = SMissing, cv_byte_len = None, cv_content = None\<rparr>"
| "from_content_state (Binary n) = \<lparr>cv_status = SBinary, cv_byte_len = n, cv_content = None\<rparr>"
| "from_content_state (TooLarge n) =
     \<lparr>cv_status = STooLarge, cv_byte_len = Some n, cv_content = None\<rparr>"
| "from_content_state (LfsPointer n) =
     \<lparr>cv_status = SLfsPointer, cv_byte_len = Some n, cv_content = None\<rparr>"
| "from_content_state Symlink = \<lparr>cv_status = SSymlink, cv_byte_len = None, cv_content = None\<rparr>"
| "from_content_state (Full s) =
     \<lparr>cv_status = SFull, cv_byte_len = Some (length s), cv_content = Some s\<rparr>"

record content_entry =
  ce_path :: path
  ce_baseline :: content_view
  ce_current :: content_view
  ce_is_agent_file :: bool
  ce_staged :: bool

record file_hunk_data =
  fd_hunks :: "hunk list"
  fd_baseline :: content_view
  fd_current :: content_view
  fd_baseline_content :: "str option"
  fd_current_content :: "str option"

section \<open>Tracker state\<close>

text \<open>One tracked file (\<open>FileHunkState\<close>); its snapshot has the same fields.\<close>

record file_state =
  fs_baseline :: content_state
  fs_current :: content_state
  fs_hunks :: "hunk list"
  fs_is_agent_file :: bool
  fs_baseline_accepted :: bool

type_synonym turn_index = "(nat \<times> hunk_id list) list"

record snapshot =
  sn_file_states :: "(path \<times> file_state) list"
  sn_turn_index :: turn_index
  sn_session_stats :: session_stats

record turn_delta =
  td_prompt_index :: nat
  td_file_states :: "(path \<times> file_state) list"
  td_hunk_ids :: "hunk_id list"

definition rewrite_single_path :: "path \<Rightarrow> path \<Rightarrow> path \<Rightarrow> path \<Rightarrow> path option" where
  "rewrite_single_path p old_cwd canonical_old new_cwd =
     map_option (\<lambda>rel. new_cwd @ rel)
       (case strip_prefix canonical_old p of
          Some rel \<Rightarrow> Some rel
        | None \<Rightarrow> strip_prefix old_cwd p)"

text \<open>\<open>rewrite_paths\<close>: collecting into a new \<open>HashMap\<close> keeps the last entry of a key.\<close>

definition rewrite_entry :: "path \<Rightarrow> path \<Rightarrow> path \<Rightarrow> path \<times> file_state \<Rightarrow> path \<times> file_state" where
  "rewrite_entry old_cwd canonical_old new_cwd = (\<lambda>(p, st).
     let target = (case rewrite_single_path p old_cwd canonical_old new_cwd of
                     Some q \<Rightarrow> q | None \<Rightarrow> p)
     in (target, st\<lparr>fs_hunks := map (\<lambda>h. h\<lparr>h_path := target\<rparr>) (fs_hunks st)\<rparr>))"

definition collect_map :: "('k \<times> 'v) list \<Rightarrow> ('k \<times> 'v) list" where
  "collect_map kvs = fold (\<lambda>(k, v). AList.update k v) kvs []"

definition rewrite_paths :: "path \<Rightarrow> path \<Rightarrow> path \<Rightarrow> snapshot \<Rightarrow> snapshot" where
  "rewrite_paths old_cwd canonical_old new_cwd sn =
     sn\<lparr>sn_file_states :=
       collect_map (map (rewrite_entry old_cwd canonical_old new_cwd) (sn_file_states sn))\<rparr>"

section \<open>Events\<close>

datatype removal_reason = Accepted | Rejected | Superseded

datatype hunk_event =
  HunkAdded path hunk
| HunkRemoved path hunk_id removal_reason
| HunkMoved path hunk_id line_info
| HunkContentChanged path hunk hunk_source nat nat
| FileAdded path bool
| FileRemoved path
| BaselineUpdated path

end
