(* ===== verification/Hunk_Files.thy ===== *)
theory Hunk_Files
  imports Hunk_Types
begin

text \<open>
  Reading and classifying file contents
  (\<open>xai-hunk-tracker/src/actor/file_utils.rs\<close>). The file system is a map from absolute
  paths to entries; a string read back as UTF-8 must pass \<open>String::from_utf8\<close>.
\<close>

definition max_tracked_text_bytes :: nat where
  "max_tracked_text_bytes = 1024 * 1024"

definition lfs_pointer_prefix :: str where
  "lfs_pointer_prefix = ''version https://git-lfs.github.com/spec/v1'' @ [NL]"

fun starts_with :: "'a list \<Rightarrow> 'a list \<Rightarrow> bool" where
  "starts_with [] s = True"
| "starts_with (p # ps) [] = False"
| "starts_with (p # ps) (c # cs) = (p = c \<and> starts_with ps cs)"

lemma starts_with_iff: "starts_with p s \<longleftrightarrow> (\<exists>r. s = p @ r)"
  by (induction p s rule: starts_with.induct) auto

definition is_lfs_pointer :: "str \<Rightarrow> bool" where
  "is_lfs_pointer bytes \<longleftrightarrow> length bytes < 1024 \<and> starts_with lfs_pointer_prefix bytes"

definition is_binary :: "str \<Rightarrow> bool" where
  "is_binary content \<longleftrightarrow> List.member (take (min (length content) 8000) content) (CHR 0x00)"

text \<open>\<open>String::from_utf8\<close>: well-formed sequences only, no overlong forms, no surrogates,
  nothing above U+10FFFF.\<close>

definition in_range :: "nat \<Rightarrow> nat \<Rightarrow> char \<Rightarrow> bool" where
  "in_range lo hi c \<longleftrightarrow> lo \<le> of_char c \<and> of_char c \<le> (hi :: nat)"

fun utf8_valid :: "str \<Rightarrow> bool" where
  "utf8_valid [] = True"
| "utf8_valid (a # bs) =
    (if in_range 0 127 a then utf8_valid bs
     else if in_range 194 223 a then
       (case bs of b # r \<Rightarrow> in_range 128 191 b \<and> utf8_valid r | _ \<Rightarrow> False)
     else if in_range 224 239 a then
       (case bs of
          b # c # r \<Rightarrow>
            (if in_range 224 224 a then in_range 160 191 b
             else if in_range 237 237 a then in_range 128 159 b
             else in_range 128 191 b) \<and> in_range 128 191 c \<and> utf8_valid r
        | _ \<Rightarrow> False)
     else if in_range 240 244 a then
       (case bs of
          b # c # d # r \<Rightarrow>
            (if in_range 240 240 a then in_range 144 191 b
             else if in_range 244 244 a then in_range 128 143 b
             else in_range 128 191 b) \<and> in_range 128 191 c \<and> in_range 128 191 d \<and> utf8_valid r
        | _ \<Rightarrow> False)
     else False)"

definition classify_bytes :: "str \<Rightarrow> content_state" where
  "classify_bytes bytes =
     (let byte_len = length bytes in
      if byte_len > max_tracked_text_bytes then TooLarge byte_len
      else if is_lfs_pointer bytes then LfsPointer byte_len
      else if is_binary bytes then Binary (Some byte_len)
      else if utf8_valid bytes then Full bytes
      else Binary (Some byte_len))"

definition classify_string :: "str \<Rightarrow> content_state" where
  "classify_string s =
     (let byte_len = length s in
      if byte_len > max_tracked_text_bytes then TooLarge byte_len
      else if is_lfs_pointer s then LfsPointer byte_len
      else if is_binary s then Binary (Some byte_len)
      else Full s)"

section \<open>The file system\<close>

text \<open>A symbolic link with what it resolves to, a directory with its size, a file that
  cannot be opened with its size, or a file with its bytes.\<close>

datatype link_target = Dangling | ToFile | ToDir

datatype disk_entry = DLink link_target | DDir nat | DUnreadable nat | DFile str

text \<open>\<open>Path::exists\<close> and \<open>Path::is_dir\<close> follow links.\<close>

fun entry_exists :: "disk_entry option \<Rightarrow> bool" where
  "entry_exists None = False"
| "entry_exists (Some (DLink Dangling)) = False"
| "entry_exists (Some _) = True"

fun entry_is_dir :: "disk_entry option \<Rightarrow> bool" where
  "entry_is_dir (Some (DLink ToDir)) = True"
| "entry_is_dir (Some (DDir _)) = True"
| "entry_is_dir _ = False"

text \<open>\<open>read_file_bounded\<close>: link and size checks on the metadata, the pointer and binary
  checks on a prefix of at most 8000 bytes, then the whole file. A directory opens but
  does not read.\<close>

fun read_file_bounded :: "disk_entry option \<Rightarrow> content_state" where
  "read_file_bounded None = Missing"
| "read_file_bounded (Some (DLink _)) = Symlink"
| "read_file_bounded (Some (DDir n)) = (if n > max_tracked_text_bytes then TooLarge n else Missing)"
| "read_file_bounded (Some (DUnreadable n)) =
     (if n > max_tracked_text_bytes then TooLarge n else Missing)"
| "read_file_bounded (Some (DFile b)) =
     (let byte_len = length b in
      if byte_len > max_tracked_text_bytes then TooLarge byte_len
      else let prefix = take (min 8000 byte_len) b in
        if is_lfs_pointer prefix then LfsPointer byte_len
        else if is_binary prefix then Binary (Some byte_len)
        else if utf8_valid b then Full b
        else Binary (Some byte_len))"

section \<open>Facts\<close>

lemma is_binary_prefix [simp]: "is_binary (take (min 8000 (length b)) b) = is_binary b"
  by (simp add: is_binary_def min_def)

lemma is_lfs_pointer_prefix [simp]:
  "is_lfs_pointer (take (min 8000 (length b)) b) = is_lfs_pointer b"
  by (cases "length b \<le> 8000") (auto simp: is_lfs_pointer_def min_def)

lemma read_file_classify: "read_file_bounded (Some (DFile b)) = classify_bytes b"
  by (simp add: classify_bytes_def Let_def)

lemma classify_bytes_utf8: "utf8_valid s \<Longrightarrow> classify_bytes s = classify_string s"
  by (simp add: classify_bytes_def classify_string_def Let_def)

lemma classify_string_Full:
  "classify_string s = Full t \<longleftrightarrow>
   t = s \<and> length s \<le> max_tracked_text_bytes \<and> \<not> is_lfs_pointer s \<and> \<not> is_binary s"
  by (auto simp: classify_string_def Let_def)

lemma classify_bytes_Full:
  "classify_bytes s = Full t \<longleftrightarrow> utf8_valid s \<and> classify_string s = Full t"
  by (auto simp: classify_string_def classify_bytes_def Let_def)

lemma classify_string_not_Missing [simp]: "classify_string s \<noteq> Missing"
  by (simp add: classify_string_def Let_def)

lemma classify_string_byte_len: "content_byte_len (classify_string s) = Some (length s)"
  by (simp add: classify_string_def Let_def)

lemma read_file_Full_bounded:
  "read_file_bounded e = Full s \<Longrightarrow> length s \<le> max_tracked_text_bytes \<and> e = Some (DFile s)"
  by (cases e rule: read_file_bounded.cases)
    (auto simp: Let_def split: if_splits)

end
