(* ===== verification/Hunk_Diff.thy ===== *)
theory Hunk_Diff
  imports Hunk_Types "HOL-Library.Multiset"
begin

text \<open>
  Diff computation (\<open>xai-hunk-tracker/src/diff.rs\<close>). The line diff itself is the
  \<open>similar\<close> crate's: a parameter \<open>diff\<close> that returns the change script, or \<open>None\<close>
  when the time limit was hit. Its documented behaviour is \<open>valid_script\<close>: the
  unchanged and deleted lines spell the baseline, the unchanged and inserted ones the
  current text.
\<close>

datatype change_tag = Equal | Delete | Insert

type_synonym change = "change_tag \<times> str"
type_synonym line_diff = "str \<Rightarrow> str \<Rightarrow> change list option"

definition context_lines :: nat where "context_lines = 3"
definition max_diff_file_size :: nat where "max_diff_file_size = 1024 * 1024"

section \<open>Building hunks\<close>

record hunk_builder =
  hb_old_start :: nat
  hb_new_start :: nat
  hb_old_lines :: "str list"
  hb_new_lines :: "str list"

definition new_builder :: "nat \<Rightarrow> nat \<Rightarrow> hunk_builder" where
  "new_builder os ns =
     \<lparr>hb_old_start = os, hb_new_start = ns, hb_old_lines = [], hb_new_lines = []\<rparr>"

definition add_old_line :: "str \<Rightarrow> hunk_builder \<Rightarrow> hunk_builder" where
  "add_old_line l b = b\<lparr>hb_old_lines := hb_old_lines b @ [l]\<rparr>"

definition add_new_line :: "str \<Rightarrow> hunk_builder \<Rightarrow> hunk_builder" where
  "add_new_line l b = b\<lparr>hb_new_lines := hb_new_lines b @ [l]\<rparr>"

definition build :: "hunk_id \<Rightarrow> nat \<Rightarrow> path \<Rightarrow> hunk_source \<Rightarrow> hunk_builder \<Rightarrow> hunk" where
  "build i now p src b =
     \<lparr>h_id = i, h_path = p,
      h_line_info = \<lparr>old_start = hb_old_start b, old_count = length (hb_old_lines b),
        new_start = hb_new_start b, new_count = length (hb_new_lines b)\<rparr>,
      h_source = src,
      h_old_text = (if hb_old_lines b = [] then None else Some (join [] (hb_old_lines b))),
      h_new_text = join [] (hb_new_lines b),
      h_patch = None, h_created_at = now, h_selected = False\<rparr>"

text \<open>The loop over the change script: the hunks built so far, the hunk in progress, the
  line numbers in both files, and the next fresh id.\<close>

record diff_loop =
  dl_hunks :: "hunk list"
  dl_cur :: "hunk_builder option"
  dl_old_line :: nat
  dl_new_line :: nat
  dl_next :: hunk_id

definition flush_hunk :: "nat \<Rightarrow> path \<Rightarrow> hunk_source \<Rightarrow> diff_loop \<Rightarrow> diff_loop" where
  "flush_hunk now p src st =
     (case dl_cur st of
        None \<Rightarrow> st
      | Some b \<Rightarrow> st\<lparr>dl_hunks := dl_hunks st @ [build (dl_next st) now p src b],
                    dl_cur := None, dl_next := Suc (dl_next st)\<rparr>)"

definition cur_builder :: "diff_loop \<Rightarrow> hunk_builder" where
  "cur_builder st =
     (case dl_cur st of None \<Rightarrow> new_builder (dl_old_line st) (dl_new_line st) | Some b \<Rightarrow> b)"

fun diff_step :: "nat \<Rightarrow> path \<Rightarrow> hunk_source \<Rightarrow> diff_loop \<Rightarrow> change \<Rightarrow> diff_loop" where
  "diff_step now p src st (Equal, v) =
     (flush_hunk now p src st)\<lparr>dl_old_line := dl_old_line st + 1, dl_new_line := dl_new_line st + 1\<rparr>"
| "diff_step now p src st (Delete, v) =
     st\<lparr>dl_cur := Some (add_old_line v (cur_builder st)), dl_old_line := dl_old_line st + 1\<rparr>"
| "diff_step now p src st (Insert, v) =
     st\<lparr>dl_cur := Some (add_new_line v (cur_builder st)), dl_new_line := dl_new_line st + 1\<rparr>"

definition hunks_of_changes ::
  "nat \<Rightarrow> hunk_id \<Rightarrow> path \<Rightarrow> hunk_source \<Rightarrow> change list \<Rightarrow> hunk list \<times> hunk_id" where
  "hunks_of_changes now next p src cs =
     (let st = flush_hunk now p src (foldl (diff_step now p src)
          \<lparr>dl_hunks = [], dl_cur = None, dl_old_line = 1, dl_new_line = 1, dl_next = next\<rparr> cs)
      in (dl_hunks st, dl_next st))"

definition compute_hunks ::
  "line_diff \<Rightarrow> nat \<Rightarrow> hunk_id \<Rightarrow> path \<Rightarrow> str \<Rightarrow> str \<Rightarrow> hunk_source \<Rightarrow> hunk list \<times> hunk_id" where
  "compute_hunks diff now next p baseline current src =
     (if baseline = current then ([], next)
      else if length baseline > max_diff_file_size \<or> length current > max_diff_file_size
        then ([], next)
      else (case diff baseline current of
              None \<Rightarrow> ([], next)
            | Some cs \<Rightarrow> hunks_of_changes now next p src cs))"

section \<open>Patching text\<close>

definition patch_lines :: "str \<Rightarrow> nat \<Rightarrow> nat \<Rightarrow> str \<Rightarrow> str" where
  "patch_lines content start_line remove_count insert_text =
     (let lines = text_lines content;
          start_idx = start_line - 1;
          result = take (min start_idx (length lines)) lines @
                   (if insert_text \<noteq> [] then text_lines insert_text else []) @
                   drop (min (start_idx + remove_count) (length lines)) lines;
          output = join [NL] result
      in if ends_with NL content \<and> output \<noteq> [] then output @ [NL] else output)"

section \<open>Comparing hunks\<close>

definition hunks_match_content :: "hunk \<Rightarrow> hunk \<Rightarrow> bool" where
  "hunks_match_content a b \<longleftrightarrow>
     h_path a = h_path b \<and> h_old_text a = h_old_text b \<and> h_new_text a = h_new_text b"

definition hunk_moved :: "hunk \<Rightarrow> hunk \<Rightarrow> bool" where
  "hunk_moved old new \<longleftrightarrow> hunks_match_content old new \<and> h_line_info old \<noteq> h_line_info new"

definition hunks_overlap :: "hunk \<Rightarrow> hunk \<Rightarrow> bool" where
  "hunks_overlap a b \<longleftrightarrow>
     (if h_path a \<noteq> h_path b then False
      else let a_start = old_start (h_line_info a); a_count = old_count (h_line_info a);
               b_start = old_start (h_line_info b); b_count = old_count (h_line_info b);
               a_end = saturating_add a_start a_count;
               b_end = saturating_add b_start b_count
           in if a_count = 0 \<and> b_count = 0 then a_start = b_start
              else if a_count = 0 then b_start \<le> a_start \<and> a_start \<le> b_end
              else if b_count = 0 then a_start \<le> b_start \<and> b_start \<le> a_end
              else \<not> (a_end < b_start \<or> b_end < a_start))"

definition calculate_overlap_size :: "line_info \<Rightarrow> line_info \<Rightarrow> nat" where
  "calculate_overlap_size a b =
     min (old_start a + old_count a) (old_start b + old_count b) - max (old_start a) (old_start b)"

definition find_matching_old_hunk :: "hunk \<Rightarrow> hunk list \<Rightarrow> hunk option" where
  "find_matching_old_hunk new_hunk old_hunks =
     (let content_matches = filter (\<lambda>g. hunks_match_content g new_hunk) old_hunks in
      if content_matches \<noteq> [] then
        min_by_key (\<lambda>g. abs_diff (new_start (h_line_info g)) (new_start (h_line_info new_hunk)))
          content_matches
      else
        max_by_key (\<lambda>g. calculate_overlap_size (h_line_info g) (h_line_info new_hunk))
          (filter (\<lambda>g. hunks_overlap g new_hunk) old_hunks))"

definition find_overlapping_hunks :: "hunk \<Rightarrow> hunk list \<Rightarrow> hunk list" where
  "find_overlapping_hunks new_hunk old_hunks = filter (\<lambda>g. hunks_overlap g new_hunk) old_hunks"

section \<open>Rendering\<close>

definition display_path :: "path \<Rightarrow> string" where
  "display_path p = concat (map (\<lambda>c. ''/'' @ c) p)"

definition writeln :: "string \<Rightarrow> string" where
  "writeln s = s @ [NL]"

text \<open>\<open>usize\<close> subtraction panics when it would go below zero: \<open>None\<close>.\<close>

definition checked_sub :: "nat \<Rightarrow> nat \<Rightarrow> nat option" where
  "checked_sub a b = (if b \<le> a then Some (a - b) else None)"

definition context_from :: "str list \<Rightarrow> nat \<Rightarrow> nat \<Rightarrow> string" where
  "context_from ls lo hi =
     concat (map (\<lambda>i. if i < length ls then writeln ('' '' @ ls ! i) else []) [lo..<hi])"

definition generate_hunk_patch :: "str \<Rightarrow> str \<Rightarrow> hunk \<Rightarrow> string option" where
  "generate_hunk_patch baseline current h =
     (let old_lines = text_lines baseline; new_lines = text_lines current; li = h_line_info h;
          old_start_idx = old_start li - 1; new_start_idx = new_start li - 1;
          context_before_start = old_start_idx - context_lines;
          context_before_end = old_start_idx;
          context_after_start = new_start_idx + new_count li;
          context_after_end = min (context_after_start + context_lines) (length new_lines);
          context_after_start_old = old_start_idx + old_count li;
          context_after_end_old = min (context_after_start_old + context_lines) (length old_lines)
      in case (checked_sub context_after_end_old context_after_start_old,
               checked_sub context_after_end context_after_start) of
           (Some after_old, Some after_new) \<Rightarrow>
             Some (writeln (''@@ -'' @ dec (context_before_start + 1) @ '','' @
                     dec ((context_before_end - context_before_start) + old_count li + after_old) @
                     '' +'' @ dec (context_before_start + 1) @ '','' @
                     dec ((context_before_end - context_before_start) + new_count li + after_new) @
                     '' @@'') @
                   context_from old_lines context_before_start context_before_end @
                   (case h_old_text h of None \<Rightarrow> []
                    | Some t \<Rightarrow> concat (map (\<lambda>l. writeln (''-'' @ l)) (text_lines t))) @
                   concat (map (\<lambda>l. writeln (''+'' @ l)) (text_lines (h_new_text h))) @
                   context_from new_lines context_after_start context_after_end)
         | _ \<Rightarrow> None)"

definition format_unified_diff :: "hunk \<Rightarrow> string" where
  "format_unified_diff h =
     writeln (''--- a/'' @ display_path (h_path h)) @
     writeln (''+++ b/'' @ display_path (h_path h)) @
     writeln (show_line_info (h_line_info h)) @
     (case h_old_text h of None \<Rightarrow> []
      | Some t \<Rightarrow> concat (map (\<lambda>l. writeln (''-'' @ l)) (text_lines t))) @
     concat (map (\<lambda>l. writeln (''+'' @ l)) (text_lines (h_new_text h)))"

end
