(* ===== verification/Hunk_Replay.thy ===== *)
theory Hunk_Replay
  imports Hunk_Diff
begin

text \<open>
  What the hunks of a change script mean. \<open>change_runs\<close> is the specification of the loop of
  \<open>compute_hunks\<close>: the maximal runs of changed lines. Replaying the hunks on the old
  lines, last hunk first, gives the new lines; on texts whose lines all end in a
  newline, so does patching the text with \<open>patch_lines\<close>.
\<close>

section \<open>Change scripts\<close>

definition old_side :: "change list \<Rightarrow> str list" where
  "old_side cs = map snd (filter (\<lambda>c. fst c \<noteq> Insert) cs)"

definition new_side :: "change list \<Rightarrow> str list" where
  "new_side cs = map snd (filter (\<lambda>c. fst c \<noteq> Delete) cs)"

lemma side_simps [simp]:
  "old_side [] = []" "new_side [] = []"
  "old_side ((t, v) # cs) = (if t = Insert then old_side cs else v # old_side cs)"
  "new_side ((t, v) # cs) = (if t = Delete then new_side cs else v # new_side cs)"
  by (auto simp: old_side_def new_side_def)

text \<open>What the \<open>similar\<close> crate documents of a line diff, for texts without carriage returns.\<close>

definition valid_script :: "str \<Rightarrow> str \<Rightarrow> change list \<Rightarrow> bool" where
  "valid_script baseline current cs \<longleftrightarrow>
     old_side cs = split_inclusive NL baseline \<and> new_side cs = split_inclusive NL current"

definition diff_law :: "line_diff \<Rightarrow> bool" where
  "diff_law diff \<longleftrightarrow>
     (\<forall>b c cs. CR \<notin> set b \<longrightarrow> CR \<notin> set c \<longrightarrow> diff b c = Some cs \<longrightarrow> valid_script b c cs)"

lemma diff_lawD:
  "diff_law diff \<Longrightarrow> CR \<notin> set b \<Longrightarrow> CR \<notin> set c \<Longrightarrow> diff b c = Some cs \<Longrightarrow> valid_script b c cs"
  by (auto simp: diff_law_def)

section \<open>The runs of changed lines\<close>

fun change_runs :: "change list \<Rightarrow> nat \<Rightarrow> nat \<Rightarrow> hunk_builder option \<Rightarrow> hunk_builder list" where
  "change_runs [] os ns cur = (case cur of None \<Rightarrow> [] | Some b \<Rightarrow> [b])"
| "change_runs ((Equal, v) # cs) os ns cur =
     (case cur of None \<Rightarrow> [] | Some b \<Rightarrow> [b]) @ change_runs cs (Suc os) (Suc ns) None"
| "change_runs ((Delete, v) # cs) os ns cur =
     change_runs cs (Suc os) ns
       (Some (add_old_line v (case cur of None \<Rightarrow> new_builder os ns | Some b \<Rightarrow> b)))"
| "change_runs ((Insert, v) # cs) os ns cur =
     change_runs cs os (Suc ns)
       (Some (add_new_line v (case cur of None \<Rightarrow> new_builder os ns | Some b \<Rightarrow> b)))"

fun build_all :: "nat \<Rightarrow> hunk_id \<Rightarrow> path \<Rightarrow> hunk_source \<Rightarrow> hunk_builder list \<Rightarrow> hunk list" where
  "build_all now i p src [] = []"
| "build_all now i p src (b # bs) = build i now p src b # build_all now (Suc i) p src bs"

lemma build_all_append [simp]:
  "build_all now i p src (bs @ cs) =
   build_all now i p src bs @ build_all now (i + length bs) p src cs"
  by (induction bs arbitrary: i) auto

lemma length_build_all [simp]: "length (build_all now i p src bs) = length bs"
  by (induction bs arbitrary: i) auto

lemma ids_build_all: "map h_id (build_all now i p src bs) = [i..<i + length bs]"
  by (induction bs arbitrary: i) (auto simp: build_def upt_conv_Cons simp del: upt_Suc)

lemma build_all_source: "h \<in> set (build_all now i p src bs) \<Longrightarrow> h_source h = src \<and> h_path h = p"
  by (induction bs arbitrary: i) (auto simp: build_def)

lemma diff_loop_group:
  "(let st' = flush_hunk now p src (foldl (diff_step now p src) st cs);
        bs = change_runs cs (dl_old_line st) (dl_new_line st) (dl_cur st)
    in dl_hunks st' = dl_hunks st @ build_all now (dl_next st) p src bs \<and>
       dl_next st' = dl_next st + length bs)"
proof (induction cs arbitrary: st)
  case Nil
  then show ?case by (auto simp: flush_hunk_def split: option.splits)
next
  case (Cons c cs)
  obtain t v where c: "c = (t, v)" by force
  show ?case
    using Cons.IH[of "diff_step now p src st c"]
    by (cases t) (auto simp: c Let_def flush_hunk_def cur_builder_def split: option.splits)
qed

lemma hunks_of_changes_group:
  "hunks_of_changes now next p src cs =
     (build_all now next p src (change_runs cs 1 1 None), next + length (change_runs cs 1 1 None))"
  using diff_loop_group[of now p src
      "\<lparr>dl_hunks = [], dl_cur = None, dl_old_line = 1, dl_new_line = 1, dl_next = next\<rparr>" cs]
  by (simp add: hunks_of_changes_def Let_def)

lemma hunks_of_changes_ids:
  "hunks_of_changes now next p src cs = (hs, next') \<Longrightarrow>
   map h_id hs = [next..<next'] \<and> next \<le> next'"
  by (auto simp: hunks_of_changes_group ids_build_all)

lemma compute_hunks_ids:
  "compute_hunks diff now next p b c src = (hs, next') \<Longrightarrow>
   map h_id hs = [next..<next'] \<and> next \<le> next'"
  by (auto simp: compute_hunks_def hunks_of_changes_ids split: if_splits option.splits
      dest: hunks_of_changes_ids)

lemma compute_hunks_source:
  "compute_hunks diff now next p b c src = (hs, next') \<Longrightarrow> h \<in> set hs \<Longrightarrow>
   h_source h = src \<and> h_path h = p"
  by (auto simp: compute_hunks_def hunks_of_changes_group split: if_splits option.splits
      dest: build_all_source)

section \<open>Positions\<close>

definition at_line :: "hunk_builder option \<Rightarrow> nat \<Rightarrow> nat \<Rightarrow> bool" where
  "at_line cur os ns \<longleftrightarrow>
     (case cur of None \<Rightarrow> True
      | Some b \<Rightarrow> hb_old_start b + length (hb_old_lines b) = os \<and>
                  hb_new_start b + length (hb_new_lines b) = ns \<and>
                  (hb_old_lines b \<noteq> [] \<or> hb_new_lines b \<noteq> []))"

lemma at_line_None [simp]: "at_line None os ns"
  by (simp add: at_line_def)

lemma at_line_old:
  "at_line cur os ns \<Longrightarrow>
   at_line (Some (add_old_line v (case cur of None \<Rightarrow> new_builder os ns | Some b \<Rightarrow> b))) (Suc os) ns"
  by (auto simp: at_line_def add_old_line_def new_builder_def split: option.splits)

lemma at_line_new:
  "at_line cur os ns \<Longrightarrow>
   at_line (Some (add_new_line v (case cur of None \<Rightarrow> new_builder os ns | Some b \<Rightarrow> b))) os (Suc ns)"
  by (auto simp: at_line_def add_new_line_def new_builder_def split: option.splits)

text \<open>The next hunk starts after at least one unchanged line.\<close>

definition gap :: "hunk_builder \<Rightarrow> hunk_builder \<Rightarrow> bool" where
  "gap a b \<longleftrightarrow>
     hb_old_start a + length (hb_old_lines a) < hb_old_start b \<and>
     hb_new_start a + length (hb_new_lines a) < hb_new_start b"

definition starts_at :: "hunk_builder option \<Rightarrow> nat \<Rightarrow> nat \<Rightarrow> hunk_builder \<Rightarrow> bool" where
  "starts_at cur os ns b \<longleftrightarrow>
     (case cur of None \<Rightarrow> os | Some c \<Rightarrow> hb_old_start c) \<le> hb_old_start b \<and>
     (case cur of None \<Rightarrow> ns | Some c \<Rightarrow> hb_new_start c) \<le> hb_new_start b"

lemma group_starts_at:
  "at_line cur os ns \<Longrightarrow> b \<in> set (change_runs cs os ns cur) \<Longrightarrow> starts_at cur os ns b"
proof (induction cs os ns cur rule: change_runs.induct)
  case (1 os ns cur)
  then show ?case by (auto simp: starts_at_def split: option.splits)
next
  case (2 v cs os ns cur)
  then show ?case
    by (fastforce simp: starts_at_def at_line_def split: option.splits)
next
  case (3 v cs os ns cur)
  from 3 have "starts_at (Some (add_old_line v (case cur of None \<Rightarrow> new_builder os ns | Some b \<Rightarrow> b)))
      (Suc os) ns b" by (simp add: at_line_old)
  then show ?case
    by (auto simp: starts_at_def add_old_line_def new_builder_def split: option.splits)
next
  case (4 v cs os ns cur)
  from 4 have "starts_at (Some (add_new_line v (case cur of None \<Rightarrow> new_builder os ns | Some b \<Rightarrow> b)))
      os (Suc ns) b" by (simp add: at_line_new)
  then show ?case
    by (auto simp: starts_at_def add_new_line_def new_builder_def split: option.splits)
qed

lemma group_gaps: "at_line cur os ns \<Longrightarrow> sorted_wrt gap (change_runs cs os ns cur)"
proof (induction cs os ns cur rule: change_runs.induct)
  case (1 os ns cur)
  then show ?case by (auto split: option.splits)
next
  case (2 v cs os ns cur)
  have "gap b c" if "cur = Some b" "c \<in> set (change_runs cs (Suc os) (Suc ns) None)" for b c
    using group_starts_at[of None "Suc os" "Suc ns" c cs] that 2(2)
    by (auto simp: starts_at_def at_line_def gap_def)
  with 2 show ?case by (auto split: option.splits)
qed (simp_all add: at_line_old at_line_new)

lemma group_nonempty:
  "at_line cur os ns \<Longrightarrow> b \<in> set (change_runs cs os ns cur) \<Longrightarrow> hb_old_lines b \<noteq> [] \<or> hb_new_lines b \<noteq> []"
proof (induction cs os ns cur rule: change_runs.induct)
  case (1 os ns cur)
  then show ?case by (auto simp: at_line_def split: option.splits)
next
  case (2 v cs os ns cur)
  then show ?case by (fastforce simp: at_line_def split: option.splits)
qed (simp_all add: at_line_old at_line_new)

section \<open>Replaying hunks on the lines\<close>

definition splice_at :: "nat \<Rightarrow> nat \<Rightarrow> 'a list \<Rightarrow> 'a list \<Rightarrow> 'a list" where
  "splice_at i n ins L = take i L @ ins @ drop (i + n) L"

lemma splice_middle: "length A = i \<Longrightarrow> length B = n \<Longrightarrow> splice_at i n ins (A @ B @ C) = A @ ins @ C"
  by (simp add: splice_at_def)

definition replay1 :: "hunk_builder \<Rightarrow> str list \<Rightarrow> str list" where
  "replay1 b L = splice_at (hb_old_start b - 1) (length (hb_old_lines b)) (hb_new_lines b) L"

definition replay :: "hunk_builder list \<Rightarrow> str list \<Rightarrow> str list" where
  "replay bs L = foldr replay1 bs L"

lemma replay_simps [simp]:
  "replay [] L = L"
  "replay (b # bs) L = replay1 b (replay bs L)"
  by (simp_all add: replay_def)

lemma replay_append [simp]: "replay (as @ bs) L = replay as (replay bs L)"
  by (simp add: replay_def)

definition pending_old :: "hunk_builder option \<Rightarrow> str list" where
  "pending_old cur = (case cur of None \<Rightarrow> [] | Some b \<Rightarrow> hb_old_lines b)"

definition pending_new :: "hunk_builder option \<Rightarrow> str list" where
  "pending_new cur = (case cur of None \<Rightarrow> [] | Some b \<Rightarrow> hb_new_lines b)"

lemma pending_add [simp]:
  "pending_old (Some (add_old_line v (case cur of None \<Rightarrow> new_builder os ns | Some b \<Rightarrow> b))) =
     pending_old cur @ [v]"
  "pending_new (Some (add_old_line v (case cur of None \<Rightarrow> new_builder os ns | Some b \<Rightarrow> b))) =
     pending_new cur"
  "pending_old (Some (add_new_line v (case cur of None \<Rightarrow> new_builder os ns | Some b \<Rightarrow> b))) =
     pending_old cur"
  "pending_new (Some (add_new_line v (case cur of None \<Rightarrow> new_builder os ns | Some b \<Rightarrow> b))) =
     pending_new cur @ [v]"
  by (auto simp: pending_old_def pending_new_def add_old_line_def add_new_line_def
      new_builder_def split: option.splits)

lemma replay_group:
  assumes "at_line cur os ns"
    and "Suc (length A) = (case cur of None \<Rightarrow> os | Some b \<Rightarrow> hb_old_start b)"
  shows "replay (change_runs cs os ns cur) (A @ pending_old cur @ old_side cs) =
         A @ pending_new cur @ new_side cs"
  using assms
proof (induction cs os ns cur arbitrary: A rule: change_runs.induct)
  case (1 os ns cur)
  then show ?case
    by (auto simp: pending_old_def pending_new_def replay1_def splice_at_def split: option.splits)
next
  case (2 v cs os ns cur)
  let ?A = "A @ pending_old cur @ [v]"
  have "Suc (length ?A) = Suc os"
    using 2(2,3) by (auto simp: at_line_def pending_old_def split: option.splits)
  then have IH: "replay (change_runs cs (Suc os) (Suc ns) None) (?A @ old_side cs) = ?A @ new_side cs"
    using 2(1)[of ?A] by (simp add: pending_old_def pending_new_def)
  show ?case
    using IH 2(3)
    by (cases cur) (auto simp: pending_old_def pending_new_def replay1_def splice_at_def)
next
  case (3 v cs os ns cur)
  have "Suc (length A) = hb_old_start
      (add_old_line v (case cur of None \<Rightarrow> new_builder os ns | Some b \<Rightarrow> b))"
    using 3(3) by (auto simp: add_old_line_def new_builder_def split: option.splits)
  then show ?case
    using 3(1)[of A] at_line_old[OF 3(2)] by simp
next
  case (4 v cs os ns cur)
  have "Suc (length A) = hb_old_start
      (add_new_line v (case cur of None \<Rightarrow> new_builder os ns | Some b \<Rightarrow> b))"
    using 4(3) by (auto simp: add_new_line_def new_builder_def split: option.splits)
  then show ?case
    using 4(1)[of A] at_line_new[OF 4(2)] by simp
qed

lemma replay_all: "replay (change_runs cs 1 1 None) (old_side cs) = new_side cs"
  using replay_group[of None 1 1 "[]" cs] by (simp add: pending_old_def pending_new_def)

section \<open>Swapping the two sides\<close>

definition flip_tag :: "change_tag \<Rightarrow> change_tag" where
  "flip_tag t = (case t of Equal \<Rightarrow> Equal | Delete \<Rightarrow> Insert | Insert \<Rightarrow> Delete)"

definition flip_script :: "change list \<Rightarrow> change list" where
  "flip_script cs = map (\<lambda>(t, v). (flip_tag t, v)) cs"

definition flip_builder :: "hunk_builder \<Rightarrow> hunk_builder" where
  "flip_builder b =
     \<lparr>hb_old_start = hb_new_start b, hb_new_start = hb_old_start b,
      hb_old_lines = hb_new_lines b, hb_new_lines = hb_old_lines b\<rparr>"

lemma flip_side [simp]:
  "old_side (flip_script cs) = new_side cs" "new_side (flip_script cs) = old_side cs"
  by (induction cs) (auto simp: flip_script_def flip_tag_def split: change_tag.splits)

lemma flip_builder_add:
  "flip_builder (add_old_line v b) = add_new_line v (flip_builder b)"
  "flip_builder (add_new_line v b) = add_old_line v (flip_builder b)"
  "flip_builder (new_builder os ns) = new_builder ns os"
  by (simp_all add: flip_builder_def add_old_line_def add_new_line_def new_builder_def)

lemma group_flip:
  "change_runs (flip_script cs) ns os (map_option flip_builder cur) =
   map flip_builder (change_runs cs os ns cur)"
proof (induction cs os ns cur rule: change_runs.induct)
  case (1 os ns cur)
  then show ?case by (auto simp: flip_script_def split: option.splits)
next
  case (2 v cs os ns cur)
  then show ?case by (auto simp: flip_script_def flip_tag_def split: option.splits)
next
  case (3 v cs os ns cur)
  then show ?case
    by (auto simp: flip_script_def flip_tag_def flip_builder_add split: option.splits)
next
  case (4 v cs os ns cur)
  then show ?case
    by (auto simp: flip_script_def flip_tag_def flip_builder_add split: option.splits)
qed

lemma group_flip_top: "change_runs (flip_script cs) 1 1 None = map flip_builder (change_runs cs 1 1 None)"
  using group_flip[of cs 1 1 None] by simp

section \<open>Ranges\<close>

lemma group_in_range:
  "at_line cur os ns \<Longrightarrow> b \<in> set (change_runs cs os ns cur) \<Longrightarrow>
   hb_old_start b + length (hb_old_lines b) \<le> os + length (old_side cs) \<and>
   hb_new_start b + length (hb_new_lines b) \<le> ns + length (new_side cs)"
proof (induction cs os ns cur rule: change_runs.induct)
  case (1 os ns cur)
  then show ?case by (auto simp: at_line_def split: option.splits)
next
  case (2 v cs os ns cur)
  then show ?case by (fastforce simp: at_line_def split: option.splits)
next
  case (3 v cs os ns cur)
  then show ?case using at_line_old[OF 3(2)] by auto
next
  case (4 v cs os ns cur)
  then show ?case using at_line_new[OF 4(2)] by auto
qed

lemma group_lines:
  "b \<in> set (change_runs cs os ns cur) \<Longrightarrow>
   set (hb_old_lines b) \<subseteq> set (pending_old cur) \<union> set (old_side cs) \<and>
   set (hb_new_lines b) \<subseteq> set (pending_new cur) \<union> set (new_side cs)"
proof (induction cs os ns cur rule: change_runs.induct)
  case (1 os ns cur)
  then show ?case by (auto simp: pending_old_def pending_new_def split: option.splits)
next
  case (2 v cs os ns cur)
  then show ?case by (fastforce simp: pending_old_def pending_new_def split: option.splits)
next
  case (3 v cs os ns cur)
  then show ?case by (auto simp del: pending_add simp: pending_add)
next
  case (4 v cs os ns cur)
  then show ?case by (auto simp del: pending_add simp: pending_add)
qed

text \<open>The hunks of a whole script: positive positions, in range, apart, with the script's lines.\<close>

lemma group_top:
  assumes "b \<in> set (change_runs cs 1 1 None)"
  shows "1 \<le> hb_old_start b" "1 \<le> hb_new_start b"
    and "hb_old_start b + length (hb_old_lines b) \<le> Suc (length (old_side cs))"
    and "hb_new_start b + length (hb_new_lines b) \<le> Suc (length (new_side cs))"
    and "set (hb_old_lines b) \<subseteq> set (old_side cs)" "set (hb_new_lines b) \<subseteq> set (new_side cs)"
    and "hb_old_lines b \<noteq> [] \<or> hb_new_lines b \<noteq> []"
  using group_starts_at[OF at_line_None assms] group_in_range[OF at_line_None assms]
    group_lines[OF assms] group_nonempty[OF at_line_None assms]
  by (auto simp: starts_at_def pending_old_def pending_new_def)

lemma replay_prefix:
  "\<forall>b \<in> set bs. n < hb_old_start b \<Longrightarrow> n \<le> length L \<Longrightarrow>
   take n (replay bs L) = take n L \<and> n \<le> length (replay bs L)"
  by (induction bs) (auto simp: replay1_def splice_at_def min_def)

lemma replay_not_Nil:
  assumes "sorted_wrt gap (b # bs)" "L \<noteq> []" "1 \<le> hb_old_start b"
    and "\<forall>c \<in> set (b # bs). hb_old_start c + length (hb_old_lines c) \<le> Suc (length L)"
  shows "replay bs L \<noteq> []"
proof (cases bs)
  case Nil
  with assms show ?thesis by simp
next
  case (Cons c cs)
  have "\<forall>d \<in> set bs. 1 < hb_old_start d" using assms(1,3) by (auto simp: gap_def)
  then have "1 \<le> length (replay bs L)" using replay_prefix[of bs 1 L] assms(2) by (cases L) auto
  then show ?thesis by auto
qed

section \<open>Replaying hunks on the text\<close>

text \<open>A line that ends in a newline and holds no other newline and no carriage return.\<close>

definition plain_line :: "str \<Rightarrow> bool" where
  "plain_line l \<longleftrightarrow> (\<exists>b. l = b @ [NL] \<and> NL \<notin> set b \<and> CR \<notin> set b)"

lemma plain_lines_text:
  "\<forall>l \<in> set L. plain_line l \<Longrightarrow> \<exists>bs. L = map (\<lambda>b. b @ [NL]) bs \<and> (\<forall>b \<in> set bs. NL \<notin> set b \<and> CR \<notin> set b)"
proof (induction L)
  case Nil
  then show ?case by simp
next
  case (Cons l L)
  then obtain b bs where "l = b @ [NL]" "NL \<notin> set b" "CR \<notin> set b"
      and "L = map (\<lambda>b. b @ [NL]) bs" "\<forall>b \<in> set bs. NL \<notin> set b \<and> CR \<notin> set b"
    by (auto simp: plain_line_def)
  then show ?case by (intro exI[of _ "b # bs"]) auto
qed

lemma text_lines_plain:
  "\<forall>b \<in> set bs. NL \<notin> set b \<and> CR \<notin> set b \<Longrightarrow>
   text_lines (concat (map (\<lambda>b. b @ [NL]) bs)) = bs"
  unfolding text_lines_def by (rule str_lines_terminated)

lemma ends_with_plain: "bs \<noteq> [] \<Longrightarrow> ends_with NL (concat (map (\<lambda>b. b @ [NL]) bs))"
  by (induction bs rule: rev_induct) (auto simp: ends_with_def)

lemma patch_lines_terminated:
  assumes bs: "\<forall>b \<in> set bs. NL \<notin> set b \<and> CR \<notin> set b" "bs \<noteq> []"
    and ms: "\<forall>b \<in> set ms. NL \<notin> set b \<and> CR \<notin> set b"
    and res: "splice_at (start - 1) n ms bs \<noteq> [[]]"
  shows "patch_lines (concat (map (\<lambda>b. b @ [NL]) bs)) start n (concat (map (\<lambda>b. b @ [NL]) ms)) =
         concat (map (\<lambda>b. b @ [NL]) (splice_at (start - 1) n ms bs))"
proof -
  let ?C = "concat (map (\<lambda>b. b @ [NL]) bs)" and ?I = "concat (map (\<lambda>b. b @ [NL]) ms)"
  let ?R = "splice_at (start - 1) n ms bs"
  have r: "take (min (start - 1) (length bs)) bs @ ms @ drop (min (start - 1 + n) (length bs)) bs = ?R"
    by (auto simp: splice_at_def min_def)
  have ins: "(if ?I \<noteq> [] then text_lines ?I else []) = ms"
    using text_lines_plain[OF ms] by auto
  have out: "patch_lines ?C start n ?I =
      (if join [NL] ?R \<noteq> [] then join [NL] ?R @ [NL] else join [NL] ?R)"
    by (simp only: patch_lines_def Let_def text_lines_plain[OF bs(1)] ins r
        ends_with_plain[OF bs(2)] simp_thms)
  show ?thesis
  proof (cases "?R = []")
    case True
    then show ?thesis by (simp only: out) simp
  next
    case False
    then have "join [NL] ?R \<noteq> []" using res by (simp add: join_eq_Nil)
    then show ?thesis unfolding out using join_lines[OF False, of NL] by simp
  qed
qed

lemma splice_map: "splice_at i n (map f ms) (map f bs) = map f (splice_at i n ms bs)"
  by (simp add: splice_at_def take_map drop_map)

lemma patch_lines_plain:
  assumes "\<forall>l \<in> set L. plain_line l" "L \<noteq> []" "\<forall>l \<in> set M. plain_line l"
    and "splice_at (start - 1) n M L \<noteq> [[NL]]"
  shows "patch_lines (concat L) start n (concat M) = concat (splice_at (start - 1) n M L)"
proof -
  obtain bs where bs: "L = map (\<lambda>b. b @ [NL]) bs" "\<forall>b \<in> set bs. NL \<notin> set b \<and> CR \<notin> set b"
    using plain_lines_text[OF assms(1)] by blast
  obtain ms where ms: "M = map (\<lambda>b. b @ [NL]) ms" "\<forall>b \<in> set ms. NL \<notin> set b \<and> CR \<notin> set b"
    using plain_lines_text[OF assms(3)] by blast
  have "splice_at (start - 1) n ms bs \<noteq> [[]]"
  proof
    assume "splice_at (start - 1) n ms bs = [[]]"
    then have "splice_at (start - 1) n M L = [[NL]]" by (simp add: bs(1) ms(1) splice_map)
    with assms(4) show False by simp
  qed
  then show ?thesis
    using patch_lines_terminated[OF bs(2) _ ms(2)] assms(2) by (simp add: bs(1) ms(1) splice_map)
qed

lemma plain_splice:
  "\<forall>l \<in> set L. plain_line l \<Longrightarrow> \<forall>l \<in> set M. plain_line l \<Longrightarrow> l \<in> set (splice_at i n M L) \<Longrightarrow> plain_line l"
  by (auto simp: splice_at_def dest: in_set_takeD in_set_dropD)

lemma plain_replay:
  "\<forall>l \<in> set L. plain_line l \<Longrightarrow> \<forall>b \<in> set bs. \<forall>l \<in> set (hb_new_lines b). plain_line l \<Longrightarrow>
   l \<in> set (replay bs L) \<Longrightarrow> plain_line l"
proof (induction bs arbitrary: l)
  case (Cons b bs)
  then show ?case using plain_splice[of "replay bs L" "hb_new_lines b"] by (auto simp: replay1_def)
qed simp

text \<open>Accepting and rejecting one hunk on the text, as the tracker does.\<close>

definition accept_text :: "hunk \<Rightarrow> str \<Rightarrow> str" where
  "accept_text h s =
     patch_lines s (old_start (h_line_info h)) (old_count (h_line_info h)) (h_new_text h)"

definition reject_text :: "hunk \<Rightarrow> str \<Rightarrow> str" where
  "reject_text h s =
     patch_lines s (new_start (h_line_info h)) (new_count (h_line_info h))
       (case h_old_text h of None \<Rightarrow> [] | Some t \<Rightarrow> t)"

lemma accept_text_build:
  "accept_text (build i now p src b) s =
   patch_lines s (hb_old_start b) (length (hb_old_lines b)) (concat (hb_new_lines b))"
  by (simp add: accept_text_def build_def)

lemma reject_text_build:
  "reject_text (build i now p src b) s =
   patch_lines s (hb_new_start b) (length (hb_new_lines b)) (concat (hb_old_lines b))"
  by (simp add: reject_text_def build_def)

text \<open>A text of one blank line loses its newline in \<open>patch_lines\<close>; the texts in between
  must not collapse to it.\<close>

definition no_collapse :: "hunk_builder list \<Rightarrow> str list \<Rightarrow> bool" where
  "no_collapse bs L \<longleftrightarrow> (\<forall>k \<le> length bs. replay (drop k bs) L \<noteq> [[NL]])"

lemma no_collapse_Cons:
  "no_collapse (b # bs) L \<Longrightarrow> no_collapse bs L \<and> replay (b # bs) L \<noteq> [[NL]]"
  unfolding no_collapse_def by (metis Suc_le_mono drop0 drop_Suc_Cons le0 length_Cons)

lemma replay_text:
  assumes "sorted_wrt gap bs" "L \<noteq> []" "\<forall>b \<in> set bs. 1 \<le> hb_old_start b"
    and "\<forall>b \<in> set bs. hb_old_start b + length (hb_old_lines b) \<le> Suc (length L)"
    and "\<forall>l \<in> set L. plain_line l" "\<forall>b \<in> set bs. \<forall>l \<in> set (hb_new_lines b). plain_line l"
    and "no_collapse bs L"
  shows "foldr accept_text (build_all now i p src bs) (concat L) = concat (replay bs L)"
  using assms
proof (induction bs arbitrary: i)
  case Nil
  then show ?case by simp
next
  case (Cons b bs)
  have ne: "replay bs L \<noteq> []" using replay_not_Nil[of b bs L] Cons.prems by auto
  have nc: "no_collapse bs L" "replay1 b (replay bs L) \<noteq> [[NL]]"
    using no_collapse_Cons[OF Cons.prems(7)] by simp_all
  have IH: "foldr accept_text (build_all now (Suc i) p src bs) (concat L) = concat (replay bs L)"
    by (rule Cons.IH) (use Cons.prems nc in simp_all)
  have pl: "\<forall>l \<in> set (replay bs L). plain_line l" "\<forall>l \<in> set (hb_new_lines b). plain_line l"
    using plain_replay[of L bs] Cons.prems(5,6) by auto
  show ?case
    using patch_lines_plain[OF pl(1) ne pl(2), of "hb_old_start b" "length (hb_old_lines b)"] nc(2)
    by (simp add: accept_text_build replay1_def IH)
qed

lemma reject_as_accept:
  "reject_text (build i now p src b) s = accept_text (build j now q src' (flip_builder b)) s"
  by (simp add: reject_text_build accept_text_build flip_builder_def)

lemma reject_all_as_accept:
  "foldr reject_text (build_all now i p src bs) s =
   foldr accept_text (build_all now i p src (map flip_builder bs)) s"
  by (induction bs arbitrary: i) (simp_all add: reject_as_accept[of _ now p src _ _ _ p src])

text \<open>Text whose lines all end in a newline, without carriage returns.\<close>

definition lf_text :: "str \<Rightarrow> bool" where
  "lf_text s \<longleftrightarrow> CR \<notin> set s \<and> (s = [] \<or> ends_with NL s)"

lemma lf_text_lines: "lf_text s \<Longrightarrow> l \<in> set (split_inclusive NL s) \<Longrightarrow> plain_line l"
proof -
  assume s: "lf_text s" and l: "l \<in> set (split_inclusive NL s)"
  have "is_line NL l" using split_inclusive_lines[OF _ l] s by (auto simp: lf_text_def)
  moreover have "set l \<subseteq> set s" using l by (metis concat_split_inclusive set_concat UN_upper)
  ultimately show "plain_line l" using s by (auto simp: is_line_def plain_line_def lf_text_def)
qed

theorem accept_all_text:
  assumes "valid_script b c cs" "lf_text b" "lf_text c" "b \<noteq> []"
    and "no_collapse (change_runs cs 1 1 None) (split_inclusive NL b)"
  shows "foldr accept_text (build_all now i p src (change_runs cs 1 1 None)) b = c"
proof -
  have sides: "old_side cs = split_inclusive NL b" "new_side cs = split_inclusive NL c"
    using assms(1) by (auto simp: valid_script_def)
  note g = group_top[of _ cs, unfolded sides]
  have new_plain: "\<forall>g \<in> set (change_runs cs 1 1 None). \<forall>l \<in> set (hb_new_lines g). plain_line l"
    using g(6) lf_text_lines[OF assms(3)] by blast
  have "foldr accept_text (build_all now i p src (change_runs cs 1 1 None)) (concat (split_inclusive NL b)) =
      concat (replay (change_runs cs 1 1 None) (split_inclusive NL b))"
    by (rule replay_text)
      (use assms g(1,3) new_plain group_gaps[of None 1 1 cs] lf_text_lines[OF assms(2)] in auto)
  also have "replay (change_runs cs 1 1 None) (split_inclusive NL b) = split_inclusive NL c"
    using replay_all[of cs] by (simp add: sides)
  finally show ?thesis by simp
qed

lemma flip_valid: "valid_script b c cs \<Longrightarrow> valid_script c b (flip_script cs)"
  by (simp add: valid_script_def)

theorem reject_all_text:
  assumes "valid_script b c cs" "lf_text b" "lf_text c" "c \<noteq> []"
    and "no_collapse (map flip_builder (change_runs cs 1 1 None)) (split_inclusive NL c)"
  shows "foldr reject_text (build_all now i p src (change_runs cs 1 1 None)) c = b"
  using accept_all_text[OF flip_valid[OF assms(1)] assms(3,2,4), of now i p src] assms(5)
  by (simp only: reject_all_as_accept group_flip_top)

text \<open>Patching one hunk replaces exactly its lines.\<close>

theorem accept_one_text:
  assumes "valid_script b c cs" "lf_text b" "lf_text c" "b \<noteq> []" "g \<in> set (change_runs cs 1 1 None)"
    and "replay1 g (split_inclusive NL b) \<noteq> [[NL]]"
  shows "accept_text (build i now p src g) b = concat (replay1 g (split_inclusive NL b))"
proof -
  have sides: "old_side cs = split_inclusive NL b" "new_side cs = split_inclusive NL c"
    using assms(1) by (auto simp: valid_script_def)
  show ?thesis
    using patch_lines_plain[of "split_inclusive NL b" "hb_new_lines g" "hb_old_start g"
        "length (hb_old_lines g)"] assms(4,6) group_top(6)[OF assms(5), unfolded sides]
      lf_text_lines[OF assms(2)] lf_text_lines[OF assms(3)]
    by (auto simp: accept_text_build replay1_def)
qed

section \<open>Order of application\<close>

text \<open>The tracker sorts the hunks by descending start line before it patches; the sort is
  stable. The hunks of one script come in ascending order, so it reverses them.\<close>

definition by_old_start_desc :: "hunk list \<Rightarrow> hunk list" where
  "by_old_start_desc hs = sort_key (\<lambda>h. - int (old_start (h_line_info h))) hs"

definition by_new_start_desc :: "hunk list \<Rightarrow> hunk list" where
  "by_new_start_desc hs = sort_key (\<lambda>h. - int (new_start (h_line_info h))) hs"

lemma sort_key_desc:
  assumes "sorted_wrt (<) (map f hs)"
  shows "sort_key (\<lambda>h. - int (f h)) hs = rev hs"
proof (rule sort_key_inj_key_eq)
  have "distinct (map f hs)" using assms by (simp add: strict_sorted_iff)
  then show "inj_on (\<lambda>h. - int (f h)) (set hs)"
    by (simp add: distinct_map inj_on_def)
  have "sorted_wrt (\<lambda>a b. - int (f b) \<le> - int (f a)) hs"
    using assms unfolding sorted_wrt_map by (rule sorted_wrt_mono_rel[rotated]) simp
  then show "sorted (map (\<lambda>h. - int (f h)) (rev hs))"
    by (simp add: sorted_wrt_map sorted_wrt_rev)
qed simp

lemma build_all_starts:
  "map (\<lambda>h. old_start (h_line_info h)) (build_all now i p src bs) = map hb_old_start bs"
  "map (\<lambda>h. new_start (h_line_info h)) (build_all now i p src bs) = map hb_new_start bs"
  by (induction bs arbitrary: i) (auto simp: build_def)

lemma gaps_ascending:
  "sorted_wrt gap bs \<Longrightarrow> sorted_wrt (<) (map hb_old_start bs) \<and> sorted_wrt (<) (map hb_new_start bs)"
  unfolding sorted_wrt_map
  by (rule conjI; rule sorted_wrt_mono_rel[of _ gap]) (simp_all add: gap_def)

lemma desc_build_all:
  assumes "sorted_wrt gap bs"
  shows "by_old_start_desc (build_all now i p src bs) = rev (build_all now i p src bs)"
    and "by_new_start_desc (build_all now i p src bs) = rev (build_all now i p src bs)"
  unfolding by_old_start_desc_def by_new_start_desc_def
  using gaps_ascending[OF assms]
  by (simp_all add: sort_key_desc build_all_starts)

end
