(* ===== verification/Hunk_Actor.thy ===== *)
theory Hunk_Actor
  imports Hunk_Files Hunk_Replay
begin

text \<open>
  The state of the hunk tracker actor (\<open>xai-hunk-tracker/src/actor/mod.rs\<close>,
  \<open>actor/state.rs\<close>) and the recomputation of hunks (\<open>actor/hunks.rs\<close>). The events the
  actor sends are the list \<open>tk_events\<close>, oldest first; the file system is part of the
  state because rejecting a hunk writes it. Everything the actor only reads from outside
  (the diff, the clock, git, write errors) is the environment of a command.
\<close>

section \<open>Environment and state\<close>

datatype head_entry = HeadLink | HeadBlob str | HeadOther

record env =
  ev_diff :: line_diff
  ev_now :: nat
  ev_write_error :: "path \<Rightarrow> io_error option"
  ev_delete_error :: "path \<Rightarrow> io_error option"
  ev_canonicalize :: "path \<Rightarrow> path option"
  ev_discover :: "path \<Rightarrow> path option"
  ev_head :: "path \<Rightarrow> head_entry option"
  ev_head_oid :: "string option"
  ev_index_mtime :: "nat option"
  ev_index_ok :: bool
  ev_status :: "path list \<Rightarrow> (path \<times> bool) list option"

datatype repo_state = RepoUnknown | NotARepo | Discovered path

record repo_sync_state =
  rs_head_oid :: "string option"
  rs_index_mtime :: "nat option"

record tracker =
  tk_working_dir :: path
  tk_file_states :: "(path \<times> file_state) list"
  tk_turn_index :: turn_index
  tk_dirty_cache :: "path list"
  tk_staged_cache :: "path list"
  tk_repo_state :: repo_state
  tk_sync_state :: repo_sync_state
  tk_mode :: tracking_mode
  tk_stats :: session_stats
  tk_disk :: "(path \<times> disk_entry) list"
  tk_events :: "hunk_event list"
  tk_next_id :: hunk_id

definition new_tracker :: "path \<Rightarrow> tracking_mode \<Rightarrow> (path \<times> disk_entry) list \<Rightarrow> tracker" where
  "new_tracker wd mode disk =
     \<lparr>tk_working_dir = wd, tk_file_states = [], tk_turn_index = [], tk_dirty_cache = [],
      tk_staged_cache = [], tk_repo_state = RepoUnknown,
      tk_sync_state = \<lparr>rs_head_oid = None, rs_index_mtime = None\<rparr>,
      tk_mode = mode, tk_stats = default_stats, tk_disk = disk, tk_events = [], tk_next_id = 0\<rparr>"

definition file_state_of :: "tracker \<Rightarrow> path \<Rightarrow> file_state option" where
  "file_state_of t p = map_of (tk_file_states t) p"

definition put_file :: "path \<Rightarrow> file_state \<Rightarrow> tracker \<Rightarrow> tracker" where
  "put_file p st t = t\<lparr>tk_file_states := AList.update p st (tk_file_states t)\<rparr>"

definition drop_file :: "path \<Rightarrow> tracker \<Rightarrow> tracker" where
  "drop_file p t = t\<lparr>tk_file_states := AList.delete p (tk_file_states t)\<rparr>"

definition send_event :: "hunk_event \<Rightarrow> tracker \<Rightarrow> tracker" where
  "send_event e t = t\<lparr>tk_events := tk_events t @ [e]\<rparr>"

definition send_events :: "hunk_event list \<Rightarrow> tracker \<Rightarrow> tracker" where
  "send_events es t = t\<lparr>tk_events := tk_events t @ es\<rparr>"

definition disk_at :: "tracker \<Rightarrow> path \<Rightarrow> disk_entry option" where
  "disk_at t p = map_of (tk_disk t) p"

text \<open>Writing through a symbolic link leaves the link itself in place.\<close>

definition write_disk :: "path \<Rightarrow> str \<Rightarrow> tracker \<Rightarrow> tracker" where
  "write_disk p s t =
     (case disk_at t p of
        Some (DLink _) \<Rightarrow> t
      | _ \<Rightarrow> t\<lparr>tk_disk := AList.update p (DFile s) (tk_disk t)\<rparr>)"

definition remove_disk :: "path \<Rightarrow> tracker \<Rightarrow> tracker" where
  "remove_disk p t = t\<lparr>tk_disk := AList.delete p (tk_disk t)\<rparr>"

section \<open>The turn index\<close>

definition index_ids :: "turn_index \<Rightarrow> nat \<Rightarrow> hunk_id list" where
  "index_ids ti i = (case map_of ti i of None \<Rightarrow> [] | Some ids \<Rightarrow> ids)"

definition index_insert :: "nat \<Rightarrow> hunk_id \<Rightarrow> turn_index \<Rightarrow> turn_index" where
  "index_insert i h ti =
     (let ids = index_ids ti i in AList.update i (if h \<in> set ids then ids else ids @ [h]) ti)"

definition index_remove :: "nat \<Rightarrow> hunk_id \<Rightarrow> turn_index \<Rightarrow> turn_index" where
  "index_remove i h ti =
     (case map_of ti i of None \<Rightarrow> ti | Some ids \<Rightarrow> AList.update i (removeAll h ids) ti)"

text \<open>Both are guarded by the hunk having a prompt index.\<close>

definition index_hunk :: "hunk \<Rightarrow> turn_index \<Rightarrow> turn_index" where
  "index_hunk h ti =
     (case prompt_index (h_source h) of None \<Rightarrow> ti | Some i \<Rightarrow> index_insert i (h_id h) ti)"

definition unindex_hunk :: "hunk \<Rightarrow> turn_index \<Rightarrow> turn_index" where
  "unindex_hunk h ti =
     (case prompt_index (h_source h) of None \<Rightarrow> ti | Some i \<Rightarrow> index_remove i (h_id h) ti)"

section \<open>Recomputation\<close>

fun diff_contents ::
  "env \<Rightarrow> hunk_id \<Rightarrow> path \<Rightarrow> content_state \<Rightarrow> content_state \<Rightarrow> hunk_source \<Rightarrow> hunk list \<times> hunk_id" where
  "diff_contents E next p (Full b) (Full c) src = compute_hunks (ev_diff E) (ev_now E) next p b c src"
| "diff_contents E next p (Full b) Missing src =
     (if b = [] then ([], next) else ([file_deleted next (ev_now E) p b src], Suc next))"
| "diff_contents E next p (Full _) (TooLarge _) src = ([], next)"
| "diff_contents E next p (Full _) (Binary _) src = ([], next)"
| "diff_contents E next p (Full _) (LfsPointer _) src = ([], next)"
| "diff_contents E next p Missing (Full c) src =
     (if c = [] then ([], next) else ([file_created next (ev_now E) p c src], Suc next))"
| "diff_contents E next p (TooLarge _) (Full _) src = ([], next)"
| "diff_contents E next p (Binary _) (Full _) src = ([], next)"
| "diff_contents E next p (LfsPointer _) (Full _) src = ([], next)"
| "diff_contents E next p _ _ src = ([], next)"

text \<open>Ids and agent attribution carry over from matching old hunks; an old hunk is claimed
  at most once.\<close>

definition claim :: "hunk \<Rightarrow> hunk \<Rightarrow> hunk" where
  "claim best h =
     h\<lparr>h_id := h_id best,
       h_source := (if is_external (h_source h) \<and> is_agent_edit (h_source best)
                    then h_source best else h_source h)\<rparr>"

fun claim_ids :: "hunk list \<Rightarrow> hunk_id list \<Rightarrow> hunk list \<Rightarrow> hunk list" where
  "claim_ids old_hunks claimed [] = []"
| "claim_ids old_hunks claimed (h # hs) =
     (case find_matching_old_hunk h old_hunks of
        None \<Rightarrow> h # claim_ids old_hunks claimed hs
      | Some best \<Rightarrow>
          if h_id best \<in> set claimed then h # claim_ids old_hunks claimed hs
          else claim best h # claim_ids old_hunks (h_id best # claimed) hs)"

definition removed_events :: "path \<Rightarrow> hunk list \<Rightarrow> hunk list \<Rightarrow> hunk_event list" where
  "removed_events p old_hunks new_hunks =
     map (\<lambda>h. HunkRemoved p (h_id h) Superseded)
       (filter (\<lambda>h. \<not> (\<exists>n \<in> set new_hunks. hunks_overlap h n \<or> hunks_match_content h n)) old_hunks)"

definition prev_hunk :: "hunk list \<Rightarrow> hunk \<Rightarrow> hunk option" where
  "prev_hunk old_hunks n =
     (case List.find (\<lambda>h. h_id h = h_id n) old_hunks of
        Some h \<Rightarrow> Some h
      | None \<Rightarrow> List.find (\<lambda>h. hunks_overlap h n) old_hunks)"

definition change_events :: "path \<Rightarrow> hunk list \<Rightarrow> hunk_source \<Rightarrow> hunk \<Rightarrow> hunk_event list" where
  "change_events p old_hunks trigger n =
     (case List.find (\<lambda>h. hunks_match_content h n) old_hunks of
        Some h \<Rightarrow> if hunk_moved h n then [HunkMoved p (h_id h) (h_line_info n)] else []
      | None \<Rightarrow>
          if \<not> (\<exists>h \<in> set old_hunks. hunks_overlap h n) then [HunkAdded p n]
          else (let prev = prev_hunk old_hunks n in
            [HunkContentChanged p n trigger
               (case prev of None \<Rightarrow> 0 | Some h \<Rightarrow> new_count (h_line_info h))
               (case prev of None \<Rightarrow> 0 | Some h \<Rightarrow> old_count (h_line_info h))]))"

definition hunk_diff_events :: "path \<Rightarrow> hunk list \<Rightarrow> hunk list \<Rightarrow> hunk_source \<Rightarrow> hunk_event list" where
  "hunk_diff_events p old_hunks new_hunks trigger =
     removed_events p old_hunks new_hunks @ concat (map (change_events p old_hunks trigger) new_hunks)"

definition recompute_hunks ::
  "env \<Rightarrow> path \<Rightarrow> content_state option \<Rightarrow> hunk_source \<Rightarrow> tracker \<Rightarrow> tracker" where
  "recompute_hunks E p new_current src t =
     (case file_state_of t p of
        None \<Rightarrow> t
      | Some st \<Rightarrow>
          (let old_hunks = fs_hunks st;
               current = (case new_current of None \<Rightarrow> Missing | Some c \<Rightarrow> c);
               (fresh, next) = diff_contents E (tk_next_id t) p (fs_baseline st) current src;
               new_hunks = claim_ids old_hunks [] fresh;
               t1 = put_file p (st\<lparr>fs_current := current, fs_hunks := new_hunks\<rparr>) t;
               ti = fold index_hunk new_hunks (fold unindex_hunk old_hunks (tk_turn_index t))
           in send_events (hunk_diff_events p old_hunks new_hunks src)
                (t1\<lparr>tk_turn_index := ti, tk_next_id := next\<rparr>)))"

end
