(* ===== verification/Hunk_Actions.thy ===== *)
theory Hunk_Actions
  imports Hunk_Actor
begin

text \<open>
  Accepting and rejecting hunks (\<open>xai-hunk-tracker/src/actor/actions.rs\<close>). An operation
  returns the tracker it leaves behind and either an error or its result: an early return
  keeps every change made before it, as the source does.
\<close>

section \<open>Bookkeeping\<close>

definition update_session_stats :: "line_info \<Rightarrow> bool \<Rightarrow> session_stats \<Rightarrow> session_stats" where
  "update_session_stats li accepted s =
     (if accepted then
        s\<lparr>accepted_hunks := saturating_add (accepted_hunks s) 1,
          accepted_lines_added := saturating_add (accepted_lines_added s) (new_count li),
          accepted_lines_removed := saturating_add (accepted_lines_removed s) (old_count li)\<rparr>
      else
        s\<lparr>rejected_hunks := saturating_add (rejected_hunks s) 1,
          rejected_lines_added := saturating_add (rejected_lines_added s) (new_count li),
          rejected_lines_removed := saturating_add (rejected_lines_removed s) (old_count li)\<rparr>)"

definition remove_from_turn_index :: "hunk_id \<Rightarrow> hunk_source \<Rightarrow> turn_index \<Rightarrow> turn_index" where
  "remove_from_turn_index i src ti =
     (case prompt_index src of None \<Rightarrow> ti | Some pr \<Rightarrow> index_remove pr i ti)"

text \<open>What both action paths do for a hunk before its file is touched.\<close>

definition settle_hunk :: "hunk_action \<Rightarrow> hunk \<Rightarrow> tracker \<Rightarrow> tracker" where
  "settle_hunk action h t =
     t\<lparr>tk_stats := update_session_stats (h_line_info h) (action = Accept) (tk_stats t),
       tk_turn_index := remove_from_turn_index (h_id h) (h_source h) (tk_turn_index t)\<rparr>"

text \<open>\<open>hunks.retain(...)\<close>\<close>

definition retain_not :: "hunk_id list \<Rightarrow> hunk list \<Rightarrow> hunk list" where
  "retain_not ids hs = filter (\<lambda>h. h_id h \<notin> set ids) hs"

definition remaining_source :: "tracker \<Rightarrow> path \<Rightarrow> hunk_source" where
  "remaining_source t p =
     (case file_state_of t p of
        None \<Rightarrow> External
      | Some st \<Rightarrow> (case fs_hunks st of [] \<Rightarrow> External | h # _ \<Rightarrow> h_source h))"

definition removed_for :: "path \<Rightarrow> removal_reason \<Rightarrow> hunk list \<Rightarrow> hunk_event list" where
  "removed_for p reason hs = map (\<lambda>h. HunkRemoved p (h_id h) reason) hs"

text \<open>\<open>tokio::fs::write\<close> and \<open>tokio::fs::remove_file\<close>.\<close>

definition fs_write :: "env \<Rightarrow> path \<Rightarrow> str \<Rightarrow> tracker \<Rightarrow> tracker \<times> (hunk_action_error + unit)" where
  "fs_write E p s t =
     (case ev_write_error E p of
        Some e \<Rightarrow> (t, Inl (WriteError p e))
      | None \<Rightarrow> (write_disk p s t, Inr ()))"

definition fs_remove :: "env \<Rightarrow> path \<Rightarrow> tracker \<Rightarrow> tracker \<times> (hunk_action_error + unit)" where
  "fs_remove E p t =
     (case ev_delete_error E p of
        Some e \<Rightarrow> (t, Inl (DeleteError p e))
      | None \<Rightarrow> (remove_disk p t, Inr ()))"

section \<open>One hunk\<close>

definition accept_hunk :: "env \<Rightarrow> path \<Rightarrow> hunk \<Rightarrow> tracker \<Rightarrow> tracker \<times> (hunk_action_error + unit)" where
  "accept_hunk E p h t =
     (case file_state_of t p of
        None \<Rightarrow> (t, Inr ())
      | Some st \<Rightarrow>
          (let events = [HunkRemoved p (h_id h) Accepted, BaselineUpdated p];
               kept = retain_not [h_id h] (fs_hunks st)
           in if fs_baseline st = Missing then
                (send_events events (put_file p
                   (st\<lparr>fs_baseline := fs_current st, fs_baseline_accepted := True,
                       fs_hunks := kept\<rparr>) t), Inr ())
              else
                (let baseline = (case fs_baseline st of
                        Full b \<Rightarrow> Full (patch_lines b (old_start (h_line_info h))
                                     (old_count (h_line_info h)) (h_new_text h))
                      | other \<Rightarrow> other);
                     t1 = send_events events (put_file p
                       (st\<lparr>fs_baseline := baseline, fs_baseline_accepted := True,
                           fs_hunks := kept\<rparr>) t)
                 in (recompute_hunks E p (Some (fs_current st)) (remaining_source t1 p) t1, Inr ()))))"

datatype reject_action =
  RestoreDeleted str
| DeleteCreated
| RevertChange str
| NoOp

text \<open>The decision of \<open>reject_hunk\<close>, before any I/O.\<close>

fun reject_action_of :: "file_state \<Rightarrow> hunk \<Rightarrow> reject_action" where
  "reject_action_of st h =
     (case (fs_current st, fs_baseline st) of
        (Missing, Full b) \<Rightarrow> RestoreDeleted b
      | (Full c, Missing) \<Rightarrow> DeleteCreated
      | (Full c, _) \<Rightarrow> RevertChange (patch_lines c (new_start (h_line_info h))
           (new_count (h_line_info h)) (case h_old_text h of None \<Rightarrow> [] | Some x \<Rightarrow> x))
      | _ \<Rightarrow> NoOp)"

definition finish_reject :: "path \<Rightarrow> hunk \<Rightarrow> content_state \<Rightarrow> tracker \<Rightarrow> tracker" where
  "finish_reject p h current t =
     (case file_state_of t p of
        None \<Rightarrow> t
      | Some st \<Rightarrow>
          send_event (HunkRemoved p (h_id h) Rejected)
            (put_file p (st\<lparr>fs_current := current, fs_hunks := retain_not [h_id h] (fs_hunks st)\<rparr>) t))"

definition reject_hunk :: "env \<Rightarrow> path \<Rightarrow> hunk \<Rightarrow> tracker \<Rightarrow> tracker \<times> (hunk_action_error + unit)" where
  "reject_hunk E p h t =
     (case file_state_of t p of
        None \<Rightarrow> (t, Inr ())
      | Some st \<Rightarrow>
          (case reject_action_of st h of
             NoOp \<Rightarrow> (t, Inr ())
           | RestoreDeleted b \<Rightarrow>
               (case fs_write E p b t of
                  (t1, Inl e) \<Rightarrow> (t1, Inl e)
                | (t1, Inr _) \<Rightarrow> (finish_reject p h (Full b) t1, Inr ()))
           | DeleteCreated \<Rightarrow>
               (case fs_remove E p t of
                  (t1, Inl e) \<Rightarrow> (t1, Inl e)
                | (t1, Inr _) \<Rightarrow> (finish_reject p h Missing t1, Inr ()))
           | RevertChange patched \<Rightarrow>
               (case fs_write E p patched t of
                  (t1, Inl e) \<Rightarrow> (t1, Inl e)
                | (t1, Inr _) \<Rightarrow>
                    (let t2 = finish_reject p h (Full patched) t1
                     in (recompute_hunks E p (Some (Full patched)) (remaining_source t2 p) t2, Inr ())))))"

text \<open>The first file, in map order, that holds a hunk with the id.\<close>

fun find_hunk_file :: "hunk_id \<Rightarrow> (path \<times> file_state) list \<Rightarrow> (path \<times> hunk) option" where
  "find_hunk_file i [] = None"
| "find_hunk_file i ((p, st) # fs) =
     (case List.find (\<lambda>h. h_id h = i) (fs_hunks st) of
        Some h \<Rightarrow> Some (p, h)
      | None \<Rightarrow> find_hunk_file i fs)"

definition apply_hunk_action ::
  "env \<Rightarrow> hunk_id \<Rightarrow> hunk_action \<Rightarrow> tracker \<Rightarrow> tracker \<times> (hunk_action_error + unit)" where
  "apply_hunk_action E i action t =
     (case find_hunk_file i (tk_file_states t) of
        None \<Rightarrow> (t, Inl (HunkNotFound i))
      | Some (p, h) \<Rightarrow>
          (let t1 = settle_hunk action h t
           in case action of Accept \<Rightarrow> accept_hunk E p h t1 | Reject \<Rightarrow> reject_hunk E p h t1))"

section \<open>All hunks of a file at once\<close>

definition accept_hunks_batch ::
  "env \<Rightarrow> path \<Rightarrow> hunk list \<Rightarrow> tracker \<Rightarrow> tracker \<times> (hunk_action_error + unit)" where
  "accept_hunks_batch E p hs t =
     (if hs = [] then (t, Inr ()) else
      case file_state_of t p of
        None \<Rightarrow> (t, Inr ())
      | Some st \<Rightarrow>
          (let events = removed_for p Accepted hs @ [BaselineUpdated p];
               kept = retain_not (map h_id hs) (fs_hunks st)
           in if fs_baseline st = Missing then
                (send_events events (put_file p
                   (st\<lparr>fs_baseline := fs_current st, fs_baseline_accepted := True,
                       fs_hunks := kept\<rparr>) t), Inr ())
              else
                (let baseline = (case fs_baseline st of
                        Full b \<Rightarrow> Full (fold (\<lambda>h b. patch_lines b (old_start (h_line_info h))
                                     (old_count (h_line_info h)) (h_new_text h))
                                     (by_old_start_desc hs) b)
                      | other \<Rightarrow> other);
                     t1 = send_events events (put_file p
                       (st\<lparr>fs_baseline := baseline, fs_baseline_accepted := True,
                           fs_hunks := kept\<rparr>) t)
                 in (recompute_hunks E p (Some (fs_current st)) (remaining_source t1 p) t1, Inr ()))))"

definition finish_reject_batch :: "path \<Rightarrow> hunk list \<Rightarrow> content_state \<Rightarrow> tracker \<Rightarrow> tracker" where
  "finish_reject_batch p hs current t =
     (case file_state_of t p of
        None \<Rightarrow> t
      | Some st \<Rightarrow>
          send_events (removed_for p Rejected hs)
            (put_file p (st\<lparr>fs_current := current,
               fs_hunks := retain_not (map h_id hs) (fs_hunks st)\<rparr>) t))"

definition reject_hunks_batch ::
  "env \<Rightarrow> path \<Rightarrow> hunk list \<Rightarrow> tracker \<Rightarrow> tracker \<times> (hunk_action_error + unit)" where
  "reject_hunks_batch E p hs t =
     (if hs = [] then (t, Inr ()) else
      case file_state_of t p of
        None \<Rightarrow> (t, Inr ())
      | Some st \<Rightarrow>
          (case (fs_current st, fs_baseline st) of
             (Missing, Full b) \<Rightarrow>
               (case fs_write E p b t of
                  (t1, Inl e) \<Rightarrow> (t1, Inl e)
                | (t1, Inr _) \<Rightarrow> (finish_reject_batch p hs (Full b) t1, Inr ()))
           | (Full c, Missing) \<Rightarrow>
               (case fs_remove E p t of
                  (t1, Inl e) \<Rightarrow> (t1, Inl e)
                | (t1, Inr _) \<Rightarrow> (finish_reject_batch p hs Missing t1, Inr ()))
           | (Full c, _) \<Rightarrow>
               (let patched = fold (\<lambda>h c. patch_lines c (new_start (h_line_info h))
                      (new_count (h_line_info h)) (case h_old_text h of None \<Rightarrow> [] | Some x \<Rightarrow> x))
                      (by_new_start_desc hs) c
                in case fs_write E p patched t of
                     (t1, Inl e) \<Rightarrow> (t1, Inl e)
                   | (t1, Inr _) \<Rightarrow>
                       (let t2 = finish_reject_batch p hs (Full patched) t1
                        in (recompute_hunks E p (Some (Full patched)) (remaining_source t2 p) t2, Inr ())))
           | _ \<Rightarrow> (t, Inr ())))"

section \<open>Batches\<close>

fun apply_action_batch ::
  "env \<Rightarrow> (path \<times> hunk list) list \<Rightarrow> hunk_action \<Rightarrow> tracker \<Rightarrow>
   tracker \<times> (hunk_action_error + hunk_id list)" where
  "apply_action_batch E [] action t = (t, Inr [])"
| "apply_action_batch E ((p, hs) # rest) action t =
     (let t1 = fold (settle_hunk action) hs t in
      case (case action of Accept \<Rightarrow> accept_hunks_batch E p hs t1
                         | Reject \<Rightarrow> reject_hunks_batch E p hs t1) of
        (t2, Inl e) \<Rightarrow> (t2, Inl e)
      | (t2, Inr _) \<Rightarrow>
          (case apply_action_batch E rest action t2 of
             (t3, Inl e) \<Rightarrow> (t3, Inl e)
           | (t3, Inr ids) \<Rightarrow> (t3, Inr (map h_id hs @ ids))))"

definition apply_file_action ::
  "env \<Rightarrow> path \<Rightarrow> hunk_action \<Rightarrow> tracker \<Rightarrow> tracker \<times> (hunk_action_error + hunk_id list)" where
  "apply_file_action E p action t =
     (case file_state_of t p of
        None \<Rightarrow> (t, Inr [])
      | Some st \<Rightarrow>
          if fs_hunks st = [] then (t, Inr [])
          else apply_action_batch E [(p, fs_hunks st)] action t)"

definition apply_all_action ::
  "env \<Rightarrow> hunk_action \<Rightarrow> tracker \<Rightarrow> tracker \<times> (hunk_action_error + hunk_id list)" where
  "apply_all_action E action t =
     (let files = map (\<lambda>(p, st). (p, fs_hunks st))
                    (filter (\<lambda>(p, st). fs_hunks st \<noteq> []) (tk_file_states t))
      in if files = [] then (t, Inr []) else apply_action_batch E files action t)"

definition turn_hunks :: "nat \<Rightarrow> file_state \<Rightarrow> hunk list" where
  "turn_hunks i st = filter (\<lambda>h. prompt_index (h_source h) = Some i) (fs_hunks st)"

definition apply_turn_action ::
  "env \<Rightarrow> nat \<Rightarrow> hunk_action \<Rightarrow> tracker \<Rightarrow> tracker \<times> (hunk_action_error + hunk_id list)" where
  "apply_turn_action E i action t =
     (let files = filter (\<lambda>(p, hs). hs \<noteq> [])
                    (map (\<lambda>(p, st). (p, turn_hunks i st)) (tk_file_states t))
      in if files = [] then (t, Inr []) else apply_action_batch E files action t)"

end
