(* ===== verification/Hunk_Git.thy ===== *)
theory Hunk_Git
  imports Hunk_Actor
begin

text \<open>
  What the tracker reads from git (\<open>xai-hunk-tracker/src/actor/git.rs\<close>). The repository is
  the \<open>gix\<close> crate's: the environment gives the work tree root a discovery finds, the
  entry of a path in the tree of HEAD, the object id of HEAD, the state of the index file
  and the items of a status scan. A cached repository is its path prefix. The tasks are
  taken to complete (no cancelled or panicking blocking task).
\<close>

definition canonicalize_or_self :: "env \<Rightarrow> path \<Rightarrow> path" where
  "canonicalize_or_self E p = (case ev_canonicalize E p of None \<Rightarrow> p | Some c \<Rightarrow> c)"

text \<open>The prefix of the working directory in the repository, and what a first discovery
  found. Without a repository the caller caches \<open>NotARepo\<close>.\<close>

fun open_or_discover :: "env \<Rightarrow> repo_state \<Rightarrow> path \<Rightarrow> (path \<times> repo_state option) option" where
  "open_or_discover E (Discovered prefix) wd = Some (prefix, None)"
| "open_or_discover E RepoUnknown wd =
     (case ev_discover E wd of
        None \<Rightarrow> None
      | Some root \<Rightarrow>
          (case strip_prefix (canonicalize_or_self E root) (canonicalize_or_self E wd) of
             None \<Rightarrow> None
           | Some prefix \<Rightarrow> Some (prefix, Some (Discovered prefix))))"
| "open_or_discover E NotARepo wd = None"

definition cache_repo :: "repo_state option \<Rightarrow> tracker \<Rightarrow> tracker" where
  "cache_repo discovered t =
     (case discovered of None \<Rightarrow> t | Some r \<Rightarrow> t\<lparr>tk_repo_state := r\<rparr>)"

definition failed_discovery :: "repo_state \<Rightarrow> repo_state option" where
  "failed_discovery cached = (if cached = RepoUnknown then Some NotARepo else None)"

definition canonicalize_or_parent :: "env \<Rightarrow> path \<Rightarrow> path" where
  "canonicalize_or_parent E p =
     (case ev_canonicalize E p of
        Some c \<Rightarrow> c
      | None \<Rightarrow>
          if p = [] then p
          else (case ev_canonicalize E (butlast p) of
                  None \<Rightarrow> p
                | Some cp \<Rightarrow> cp @ [last p]))"

text \<open>The content of a path in the tree of HEAD.\<close>

definition head_content :: "env \<Rightarrow> path \<Rightarrow> path \<Rightarrow> path \<Rightarrow> content_state" where
  "head_content E prefix wd p =
     (case strip_prefix (canonicalize_or_self E wd) (canonicalize_or_parent E p) of
        None \<Rightarrow> Missing
      | Some rel \<Rightarrow>
          (case ev_head E (prefix @ rel) of
             None \<Rightarrow> Missing
           | Some HeadLink \<Rightarrow> Symlink
           | Some (HeadBlob b) \<Rightarrow> classify_bytes b
           | Some HeadOther \<Rightarrow> Missing))"

definition read_baseline :: "env \<Rightarrow> path \<Rightarrow> tracker \<Rightarrow> content_state \<times> tracker" where
  "read_baseline E p t =
     (if tk_repo_state t = NotARepo then (Missing, t)
      else (case open_or_discover E (tk_repo_state t) (tk_working_dir t) of
              None \<Rightarrow> (Missing, cache_repo (failed_discovery (tk_repo_state t)) t)
            | Some (prefix, discovered) \<Rightarrow>
                (head_content E prefix (tk_working_dir t) p, cache_repo discovered t)))"

definition read_baselines_batch ::
  "env \<Rightarrow> path list \<Rightarrow> tracker \<Rightarrow> (path \<times> content_state) list \<times> tracker" where
  "read_baselines_batch E ps t =
     (if ps = [] \<or> tk_repo_state t = NotARepo then ([], t)
      else (case open_or_discover E (tk_repo_state t) (tk_working_dir t) of
              None \<Rightarrow>
                (collect_map (map (\<lambda>p. (p, Missing)) ps),
                 cache_repo (failed_discovery (tk_repo_state t)) t)
            | Some (prefix, discovered) \<Rightarrow>
                (collect_map (map (\<lambda>p. (p, head_content E prefix (tk_working_dir t) p)) ps),
                 cache_repo discovered t)))"

definition read_repo_sync_state :: "env \<Rightarrow> tracker \<Rightarrow> repo_sync_state option \<times> tracker" where
  "read_repo_sync_state E t =
     (if tk_repo_state t = NotARepo then (None, t)
      else (case open_or_discover E (tk_repo_state t) (tk_working_dir t) of
              None \<Rightarrow> (None, cache_repo (failed_discovery (tk_repo_state t)) t)
            | Some (prefix, discovered) \<Rightarrow>
                (Some \<lparr>rs_head_oid = ev_head_oid E, rs_index_mtime = ev_index_mtime E\<rparr>,
                 cache_repo discovered t)))"

text \<open>The dirty and the staged files of a status scan, relative to the working directory.
  An empty pathspec scans the whole work tree.\<close>

definition scan_items :: "path \<Rightarrow> (path \<times> bool) list \<Rightarrow> (path \<times> bool) list" where
  "scan_items prefix items =
     concat (map (\<lambda>(p, staged).
       case strip_prefix prefix p of None \<Rightarrow> [] | Some rel \<Rightarrow> [(rel, staged)]) items)"

definition scan_status ::
  "env \<Rightarrow> path list option \<Rightarrow> tracker \<Rightarrow> path list \<times> path list \<times> tracker" where
  "scan_status E scope t =
     (case open_or_discover E (tk_repo_state t) (tk_working_dir t) of
        None \<Rightarrow> ([], [], cache_repo (failed_discovery (tk_repo_state t)) t)
      | Some (prefix, discovered) \<Rightarrow>
          if \<not> ev_index_ok E then ([], [], cache_repo discovered t)
          else (case ev_status E (case scope of None \<Rightarrow> [] | Some rels \<Rightarrow> map ((@) prefix) rels) of
                  None \<Rightarrow> ([], [], cache_repo discovered t)
                | Some items \<Rightarrow>
                    (remdups (map fst (scan_items prefix items)),
                     remdups (map fst (filter snd (scan_items prefix items))),
                     cache_repo discovered t)))"

section \<open>Facts\<close>

lemma open_or_discover_Some:
  "open_or_discover E r wd = Some (prefix, d) \<Longrightarrow>
   r = Discovered prefix \<and> d = None \<or> r = RepoUnknown \<and> d = Some (Discovered prefix)"
  by (cases r) (auto split: option.splits)

lemma cache_repo_fields [simp]:
  "tk_file_states (cache_repo d t) = tk_file_states t"
  "tk_turn_index (cache_repo d t) = tk_turn_index t"
  "tk_working_dir (cache_repo d t) = tk_working_dir t"
  "tk_mode (cache_repo d t) = tk_mode t"
  "tk_stats (cache_repo d t) = tk_stats t"
  "tk_disk (cache_repo d t) = tk_disk t"
  "tk_events (cache_repo d t) = tk_events t"
  "tk_next_id (cache_repo d t) = tk_next_id t"
  "tk_dirty_cache (cache_repo d t) = tk_dirty_cache t"
  "tk_staged_cache (cache_repo d t) = tk_staged_cache t"
  "tk_sync_state (cache_repo d t) = tk_sync_state t"
  by (auto simp: cache_repo_def split: option.splits)

text \<open>Each read returns the tracker with at most its repository cache changed.\<close>

lemma read_baseline_cached: "\<exists>d. snd (read_baseline E p t) = cache_repo d t"
proof -
  have "cache_repo None t = t" by (simp add: cache_repo_def)
  then have "\<exists>d. t = cache_repo d t" by metis
  then show ?thesis by (auto simp: read_baseline_def split: option.splits)
qed

lemma read_baselines_batch_cached: "\<exists>d. snd (read_baselines_batch E ps t) = cache_repo d t"
proof -
  have "cache_repo None t = t" by (simp add: cache_repo_def)
  then have "\<exists>d. t = cache_repo d t" by metis
  then show ?thesis by (auto simp: read_baselines_batch_def split: option.splits)
qed

lemma read_repo_sync_state_cached: "\<exists>d. snd (read_repo_sync_state E t) = cache_repo d t"
proof -
  have "cache_repo None t = t" by (simp add: cache_repo_def)
  then have "\<exists>d. t = cache_repo d t" by metis
  then show ?thesis by (auto simp: read_repo_sync_state_def split: option.splits)
qed

lemma scan_status_cached: "\<exists>d. snd (snd (scan_status E scope t)) = cache_repo d t"
  by (auto simp: scan_status_def split: option.splits)

lemma collect_map_keys: "distinct_keys (collect_map kvs)"
  unfolding collect_map_def by (rule hash_map.inv_fold_insert) simp

lemma fold_update_map_of:
  "map_of (fold (\<lambda>(k, v). AList.update k v) kvs m) k =
   (case map_of (rev kvs) k of Some v \<Rightarrow> Some v | None \<Rightarrow> map_of m k)"
  by (induction kvs arbitrary: m) (auto split: option.splits)

lemma collect_map_of: "map_of (collect_map kvs) k = map_of (rev kvs) k"
  by (simp add: collect_map_def fold_update_map_of split: option.splits)

lemma map_of_pairs: "map_of (map (\<lambda>k. (k, f k)) ks) k = (if k \<in> set ks then Some (f k) else None)"
  by (induction ks) auto

text \<open>A batch read gives every path the content a single read gives it.\<close>

lemma read_baselines_batch_single:
  assumes "p \<in> set ps"
  shows "(case map_of (fst (read_baselines_batch E ps t)) p of None \<Rightarrow> Missing | Some c \<Rightarrow> c) =
         fst (read_baseline E p t)"
proof -
  have "ps \<noteq> []" using assms by auto
  then show ?thesis
    using assms
    by (auto simp: read_baselines_batch_def read_baseline_def collect_map_of rev_map map_of_pairs
        split: option.splits)
qed

end
