(* ===== verification/Hunk_Mutations.thy ===== *)
theory Hunk_Mutations
  imports Hunk_Git
begin

text \<open>
  File changes (\<open>xai-hunk-tracker/src/actor/mutations.rs\<close> and \<open>refresh_git_dirty_cache\<close>
  of \<open>actor/git.rs\<close>, which tracks the files a scan finds through them).
\<close>

section \<open>Helpers\<close>

text \<open>Strips one trailing line end, CR LF before LF.\<close>

definition strip_single_trailing_newline :: "str \<Rightarrow> str" where
  "strip_single_trailing_newline s =
     (if length s \<ge> 2 \<and> drop (length s - 2) s = [CR, NL] then take (length s - 2) s
      else if s \<noteq> [] \<and> last s = NL then butlast s
      else s)"

definition new_file :: "content_state \<Rightarrow> content_state \<Rightarrow> bool \<Rightarrow> file_state" where
  "new_file baseline current agent =
     \<lparr>fs_baseline = baseline, fs_current = current, fs_hunks = [], fs_is_agent_file = agent,
      fs_baseline_accepted = False\<rparr>"

definition is_tracked :: "tracker \<Rightarrow> path \<Rightarrow> bool" where
  "is_tracked t p \<longleftrightarrow> file_state_of t p \<noteq> None"

definition agent_file :: "tracker \<Rightarrow> path \<Rightarrow> bool" where
  "agent_file t p = (case file_state_of t p of None \<Rightarrow> False | Some st \<Rightarrow> fs_is_agent_file st)"

definition accepted_baseline :: "tracker \<Rightarrow> path \<Rightarrow> bool" where
  "accepted_baseline t p = (case file_state_of t p of None \<Rightarrow> False | Some st \<Rightarrow> fs_baseline_accepted st)"

definition external_source :: "tracker \<Rightarrow> path \<Rightarrow> hunk_source" where
  "external_source t p = (if agent_file t p then ExternalEditOnAgentFile else External)"

text \<open>The path relative to the working directory, and whether the last scan found it.\<close>

definition relative_path :: "tracker \<Rightarrow> path \<Rightarrow> path" where
  "relative_path t p = (case strip_prefix (tk_working_dir t) p of None \<Rightarrow> p | Some r \<Rightarrow> r)"

definition in_dirty_cache :: "tracker \<Rightarrow> path \<Rightarrow> bool" where
  "in_dirty_cache t p \<longleftrightarrow> relative_path t p \<in> set (tk_dirty_cache t)"

text \<open>Untracked, not in HEAD and not dirty: ignored by git, unless it is a directory.\<close>

definition gitignored :: "tracker \<Rightarrow> path \<Rightarrow> content_state \<Rightarrow> bool" where
  "gitignored t p baseline \<longleftrightarrow>
     tk_mode t = AllDirty \<and> baseline = Missing \<and> \<not> entry_is_dir (disk_at t p) \<and> \<not> in_dirty_cache t p"

definition preloaded_or_read ::
  "env \<Rightarrow> content_state option \<Rightarrow> path \<Rightarrow> tracker \<Rightarrow> content_state \<times> tracker" where
  "preloaded_or_read E pre p t = (case pre of Some b \<Rightarrow> (b, t) | None \<Rightarrow> read_baseline E p t)"

text \<open>Dropping the hunks of a file: the loop shared by \<open>reset_baseline\<close>,
  \<open>refresh_all_baselines\<close> and \<open>set_mode\<close>.\<close>

definition supersede_hunks :: "path \<Rightarrow> hunk list \<Rightarrow> tracker \<Rightarrow> tracker" where
  "supersede_hunks p hs t =
     fold (\<lambda>h t. send_event (HunkRemoved p (h_id h) Superseded)
                   (t\<lparr>tk_turn_index := unindex_hunk h (tk_turn_index t)\<rparr>)) hs t"

section \<open>Agent writes\<close>

definition record_agent_write ::
  "env \<Rightarrow> path \<Rightarrow> str \<Rightarrow> nat \<Rightarrow> str option \<Rightarrow> tracker \<Rightarrow> tracker" where
  "record_agent_write E p content prompt previous t =
     (let current = classify_string content in
      if \<not> is_diffable current then
        (case file_state_of t p of
           None \<Rightarrow>
             (let (baseline, t1) = (case previous of Some prev \<Rightarrow> (classify_string prev, t)
                                                   | None \<Rightarrow> read_baseline E p t)
              in send_event (FileAdded p True) (put_file p (new_file baseline current True) t1))
         | Some st \<Rightarrow>
             put_file p (st\<lparr>fs_is_agent_file := True, fs_current := current, fs_hunks := []\<rparr>) t)
      else
        (let t1 =
           (case file_state_of t p of
              None \<Rightarrow>
                (let (head, t0) = read_baseline E p t;
                     baseline = (if head = Missing
                                 then (case previous of None \<Rightarrow> Missing
                                                      | Some prev \<Rightarrow> classify_string prev)
                                 else head)
                 in send_event (FileAdded p True) (put_file p (new_file baseline current True) t0))
            | Some st \<Rightarrow> put_file p (st\<lparr>fs_is_agent_file := True\<rparr>) t)
         in recompute_hunks E p (Some current) (AgentEdit prompt) t1))"

section \<open>File notifications\<close>

definition content_matches_head :: "tracker \<Rightarrow> path \<Rightarrow> content_state \<Rightarrow> content_state \<Rightarrow> bool" where
  "content_matches_head t p current head =
     (case (current, head) of
        (Full c, Full h) \<Rightarrow> strip_single_trailing_newline c = strip_single_trailing_newline h
      | (Missing, Missing) \<Rightarrow> True
      | (Binary _, Binary _) \<Rightarrow> True
      | (TooLarge _, TooLarge _) \<Rightarrow> True
      | (LfsPointer _, LfsPointer _) \<Rightarrow> True
      | (Symlink, Symlink) \<Rightarrow> True
      | (Symlink, Full _) \<Rightarrow> \<not> in_dirty_cache t p
      | (Full _, Symlink) \<Rightarrow> \<not> in_dirty_cache t p
      | _ \<Rightarrow> False)"

definition process_file_change ::
  "env \<Rightarrow> path \<Rightarrow> content_state option \<Rightarrow> tracker \<Rightarrow> tracker" where
  "process_file_change E p pre t =
     (if tk_mode t = AgentOnly \<and> \<not> is_tracked t p then t else
      let current = read_file_bounded (disk_at t p) in
      if \<not> is_diffable current \<and> \<not> is_tracked t p then
        (let (baseline, t1) = (if tk_mode t = AllDirty then preloaded_or_read E pre p t
                               else (Missing, t))
         in if gitignored t1 p baseline then t1
            else (let t2 = send_event (FileAdded p False)
                             (put_file p (new_file baseline current False) t1)
                  in if is_diffable baseline then recompute_hunks E p None External t2 else t2))
      else if \<not> is_tracked t p then
        (let (baseline, t1) = preloaded_or_read E pre p t
         in if gitignored t1 p baseline then t1
            else (let t2 = send_event (FileAdded p False)
                             (put_file p (new_file baseline Missing False) t1)
                  in recompute_hunks E p (Some current) (external_source t2 p) t2))
      else if accepted_baseline t p then
        (let (head, t1) = preloaded_or_read E pre p t
         in if content_matches_head t1 p current head then
              (case file_state_of t1 p of
                 None \<Rightarrow> t1
               | Some st \<Rightarrow> put_file p (st\<lparr>fs_baseline := head, fs_current := head,
                             fs_baseline_accepted := False, fs_hunks := []\<rparr>) t1)
            else recompute_hunks E p (Some current) (external_source t1 p) t1)
      else recompute_hunks E p (Some current) (external_source t p) t)"

definition handle_file_change :: "env \<Rightarrow> path \<Rightarrow> tracker \<Rightarrow> tracker" where
  "handle_file_change E p t = process_file_change E p None t"

definition needs_baseline :: "tracker \<Rightarrow> path \<Rightarrow> bool" where
  "needs_baseline t p \<longleftrightarrow>
     (if tk_mode t = AgentOnly \<and> \<not> is_tracked t p then False
      else \<not> is_tracked t p \<or> accepted_baseline t p)"

fun process_changes ::
  "env \<Rightarrow> (path \<times> content_state) list \<Rightarrow> path list \<Rightarrow> tracker \<Rightarrow> tracker" where
  "process_changes E baselines [] t = t"
| "process_changes E baselines (p # ps) t =
     process_changes E (AList.delete p baselines) ps
       (process_file_change E p (map_of baselines p) t)"

definition handle_file_changes_batch :: "env \<Rightarrow> path list \<Rightarrow> tracker \<Rightarrow> tracker" where
  "handle_file_changes_batch E ps t =
     (if ps = [] then t else
      let baseline_paths = filter (needs_baseline t) ps;
          (baselines, t1) = (if baseline_paths = [] then ([], t)
                             else read_baselines_batch E baseline_paths t)
      in process_changes E baselines ps t1)"

definition handle_file_deleted :: "env \<Rightarrow> path \<Rightarrow> tracker \<Rightarrow> tracker" where
  "handle_file_deleted E p t =
     (if \<not> is_tracked t p then
        (if tk_mode t = AgentOnly then t
         else if entry_exists (disk_at t p) then t
         else (let (baseline, t1) = read_baseline E p t
               in if baseline = Missing then t1
                  else recompute_hunks E p None External
                         (send_event (FileAdded p False)
                            (put_file p (new_file baseline Missing False) t1))))
      else if entry_exists (disk_at t p) then handle_file_change E p t
      else recompute_hunks E p None (external_source t p) t)"

section \<open>Baselines\<close>

definition reset_baseline :: "path \<Rightarrow> tracker \<Rightarrow> tracker" where
  "reset_baseline p t =
     (case file_state_of t p of
        None \<Rightarrow> t
      | Some st \<Rightarrow>
          send_event (BaselineUpdated p)
            (supersede_hunks p (fs_hunks st)
               (put_file p (st\<lparr>fs_baseline := fs_current st, fs_baseline_accepted := False,
                               fs_hunks := []\<rparr>) t)))"

text \<open>In all-dirty mode a scan starts tracking the dirty files it finds.\<close>

definition refresh_git_dirty_cache :: "env \<Rightarrow> path list option \<Rightarrow> tracker \<Rightarrow> tracker" where
  "refresh_git_dirty_cache E scope t =
     (if tk_repo_state t = NotARepo then t else
      let (dirty, staged, t1) = scan_status E scope t;
          to_track = filter (\<lambda>rel. \<not> is_tracked t1 (tk_working_dir t1 @ rel)) dirty;
          t2 = t1\<lparr>tk_dirty_cache := dirty, tk_staged_cache := staged\<rparr>
      in if tk_mode t2 = AllDirty
         then fold (\<lambda>rel t. handle_file_change E (tk_working_dir t @ rel) t) to_track t2
         else t2)"

definition is_clean :: "tracker \<Rightarrow> path \<Rightarrow> content_state \<Rightarrow> content_state \<Rightarrow> bool" where
  "is_clean t p baseline current =
     (case (baseline, current) of
        (Full b, Full c) \<Rightarrow> strip_single_trailing_newline b = strip_single_trailing_newline c
      | (Binary _, Binary _) \<Rightarrow> \<not> in_dirty_cache t p
      | (TooLarge _, TooLarge _) \<Rightarrow> \<not> in_dirty_cache t p
      | (LfsPointer _, LfsPointer _) \<Rightarrow> \<not> in_dirty_cache t p
      | (Symlink, Symlink) \<Rightarrow> \<not> in_dirty_cache t p
      | (LfsPointer _, _) \<Rightarrow> \<not> in_dirty_cache t p
      | (_, LfsPointer _) \<Rightarrow> \<not> in_dirty_cache t p
      | (Symlink, Full _) \<Rightarrow> \<not> in_dirty_cache t p
      | (Full _, Symlink) \<Rightarrow> \<not> in_dirty_cache t p
      | (Missing, Missing) \<Rightarrow> \<not> entry_exists (disk_at t p)
      | (Missing, _) \<Rightarrow> \<not> in_dirty_cache t p
      | _ \<Rightarrow> False)"

definition refresh_file ::
  "env \<Rightarrow> (path \<times> content_state) list \<Rightarrow> (path \<times> content_state) list \<Rightarrow> path \<Rightarrow> tracker \<Rightarrow> tracker" where
  "refresh_file E baselines currents p t =
     (let baseline = (case map_of baselines p of None \<Rightarrow> Missing | Some c \<Rightarrow> c);
          current = (case map_of currents p of None \<Rightarrow> Missing | Some c \<Rightarrow> c)
      in case file_state_of t p of
           None \<Rightarrow> t
         | Some st \<Rightarrow>
             (let st1 = st\<lparr>fs_baseline := baseline, fs_current := current,
                           fs_baseline_accepted := False\<rparr>
              in if is_clean t p baseline current then
                   (if \<not> fs_is_agent_file st then
                      send_event (FileRemoved p)
                        (supersede_hunks p (fs_hunks st) (drop_file p t))
                    else
                      send_event (BaselineUpdated p)
                        (supersede_hunks p (fs_hunks st) (put_file p (st1\<lparr>fs_hunks := []\<rparr>) t)))
                 else
                   send_event (BaselineUpdated p)
                     (recompute_hunks E p (Some current)
                        (if fs_is_agent_file st then ExternalEditOnAgentFile else External)
                        (put_file p st1 t))))"

text \<open>The dirty and staged caches first: the whole work tree in all-dirty mode, the tracked
  paths under the working directory otherwise. No path in scope clears the caches, because an
  empty pathspec list would scan everything.\<close>

definition tracked_scope :: "tracker \<Rightarrow> path list" where
  "tracked_scope t =
     concat (map (\<lambda>p. case strip_prefix (tk_working_dir t) p of None \<Rightarrow> [] | Some r \<Rightarrow> [r])
       (map fst (tk_file_states t)))"

definition refresh_caches :: "env \<Rightarrow> tracker \<Rightarrow> tracker" where
  "refresh_caches E t =
     (if tk_mode t = AllDirty then refresh_git_dirty_cache E None t
      else if tracked_scope t = [] then t\<lparr>tk_dirty_cache := [], tk_staged_cache := []\<rparr>
      else refresh_git_dirty_cache E (Some (tracked_scope t)) t)"

definition refresh_files :: "env \<Rightarrow> path list \<Rightarrow> tracker \<Rightarrow> tracker" where
  "refresh_files E skip t =
     (let paths = filter (\<lambda>p. p \<notin> set skip) (map fst (tk_file_states t));
          (baselines, t1) = (if paths = [] then ([], t) else read_baselines_batch E paths t);
          currents = map (\<lambda>p. (p, read_file_bounded (disk_at t1 p))) paths
      in fold (refresh_file E baselines currents) paths t1)"

definition refresh_all_baselines_except :: "env \<Rightarrow> path list \<Rightarrow> tracker \<Rightarrow> tracker" where
  "refresh_all_baselines_except E skip t =
     (if tk_mode t = AgentOnly \<and> tk_file_states t = [] then t else
      let (sync, t1) = read_repo_sync_state E t in
      if sync = Some (tk_sync_state t1) then t1
      else refresh_files E skip (refresh_caches E
             (case sync of None \<Rightarrow> t1 | Some s \<Rightarrow> t1\<lparr>tk_sync_state := s\<rparr>)))"

definition refresh_all_baselines :: "env \<Rightarrow> tracker \<Rightarrow> tracker" where
  "refresh_all_baselines E t = refresh_all_baselines_except E [] t"

definition stop_tracking :: "path \<Rightarrow> tracker \<Rightarrow> tracker" where
  "stop_tracking p t =
     (case file_state_of t p of
        None \<Rightarrow> t
      | Some st \<Rightarrow> send_event (FileRemoved p) (supersede_hunks p (fs_hunks st) (drop_file p t)))"

definition set_mode :: "env \<Rightarrow> tracking_mode \<Rightarrow> tracker \<Rightarrow> tracker" where
  "set_mode E mode t =
     (let t1 = t\<lparr>tk_mode := mode\<rparr> in
      if tk_mode t = AgentOnly \<and> mode = AllDirty then refresh_git_dirty_cache E None t1
      else if tk_mode t = AllDirty \<and> mode = AgentOnly then
        fold stop_tracking
          (map fst (filter (\<lambda>(p, st). \<not> fs_is_agent_file st) (tk_file_states t1))) t1
      else t1)"

end
