(* ===== verification/Hunk_Queries.thy ===== *)
theory Hunk_Queries
  imports Hunk_Actor
begin

text \<open>
  Queries (\<open>xai-hunk-tracker/src/actor/queries.rs\<close>) and snapshots (\<open>actor/mod.rs\<close>). None of
  the queries changes the tracker.
\<close>

section \<open>Hunks\<close>

definition get_all_hunks :: "tracker \<Rightarrow> hunk list" where
  "get_all_hunks t = concat (map (\<lambda>(p, st). fs_hunks st) (tk_file_states t))"

definition get_hunks_for_path :: "tracker \<Rightarrow> path \<Rightarrow> hunk list" where
  "get_hunks_for_path t p = (case file_state_of t p of None \<Rightarrow> [] | Some st \<Rightarrow> fs_hunks st)"

definition get_all_tracked_paths :: "tracker \<Rightarrow> path list" where
  "get_all_tracked_paths t = map fst (tk_file_states t)"

definition get_hunks_by_source :: "tracker \<Rightarrow> hunk_source_filter \<Rightarrow> hunk list" where
  "get_hunks_by_source t flt =
     filter (\<lambda>h. case flt of AgentFilter \<Rightarrow> is_agent_edit (h_source h)
                          | ExternalFilter \<Rightarrow> is_external (h_source h)) (get_all_hunks t)"

definition get_hunk :: "tracker \<Rightarrow> hunk_id \<Rightarrow> hunk option" where
  "get_hunk t i = List.find (\<lambda>h. h_id h = i) (get_all_hunks t)"

definition get_hunks_for_turn :: "tracker \<Rightarrow> nat \<Rightarrow> hunk list" where
  "get_hunks_for_turn t prompt =
     (case map_of (tk_turn_index t) prompt of
        None \<Rightarrow> []
      | Some ids \<Rightarrow> List.map_filter (get_hunk t) ids)"

text \<open>A hunk with its patch, when there is text on a side. The outer option is the panic of
  \<open>generate_hunk_patch\<close>.\<close>

definition hunk_with_patch :: "file_state \<Rightarrow> hunk \<Rightarrow> hunk option" where
  "hunk_with_patch st h =
     (case (as_str (fs_baseline st), as_str (fs_current st)) of
        (None, None) \<Rightarrow> Some (h\<lparr>h_patch := None\<rparr>)
      | (b, c) \<Rightarrow>
          map_option (\<lambda>patch. h\<lparr>h_patch := Some patch\<rparr>)
            (generate_hunk_patch (case b of None \<Rightarrow> [] | Some x \<Rightarrow> x)
                                 (case c of None \<Rightarrow> [] | Some x \<Rightarrow> x) h))"

fun all_some :: "'a option list \<Rightarrow> 'a list option" where
  "all_some [] = Some []"
| "all_some (None # xs) = None"
| "all_some (Some x # xs) = map_option (Cons x) (all_some xs)"

definition no_file_data :: file_hunk_data where
  "no_file_data =
     \<lparr>fd_hunks = [],
      fd_baseline = \<lparr>cv_status = SMissing, cv_byte_len = None, cv_content = None\<rparr>,
      fd_current = \<lparr>cv_status = SMissing, cv_byte_len = None, cv_content = None\<rparr>,
      fd_baseline_content = None, fd_current_content = None\<rparr>"

definition get_file_hunk_data :: "tracker \<Rightarrow> path \<Rightarrow> file_hunk_data option" where
  "get_file_hunk_data t p =
     (case file_state_of t p of
        None \<Rightarrow> Some no_file_data
      | Some st \<Rightarrow>
          map_option (\<lambda>hs.
            \<lparr>fd_hunks = hs,
             fd_baseline = from_content_state (fs_baseline st),
             fd_current = from_content_state (fs_current st),
             fd_baseline_content = cv_content (from_content_state (fs_baseline st)),
             fd_current_content = cv_content (from_content_state (fs_current st))\<rparr>)
            (all_some (map (hunk_with_patch st) (fs_hunks st))))"

section \<open>The session summary\<close>

record turn_data =
  td_files :: "path list"
  td_pending :: "hunk list"
  td_lines_added :: nat
  td_lines_removed :: nat

definition empty_turn :: turn_data where
  "empty_turn = \<lparr>td_files = [], td_pending = [], td_lines_added = 0, td_lines_removed = 0\<rparr>"

record summary_acc =
  sa_by_prompt :: "(nat \<times> turn_data) list"
  sa_unattributed :: nat
  sa_has_agent :: bool
  sa_files :: "path list"

definition add_turn_hunk :: "path \<Rightarrow> hunk \<Rightarrow> turn_data \<Rightarrow> turn_data" where
  "add_turn_hunk p h d =
     d\<lparr>td_files := List.insert p (td_files d), td_pending := td_pending d @ [h],
       td_lines_added := td_lines_added d + new_count (h_line_info h),
       td_lines_removed := td_lines_removed d + old_count (h_line_info h)\<rparr>"

definition summary_hunk :: "path \<Rightarrow> hunk \<Rightarrow> summary_acc \<Rightarrow> summary_acc" where
  "summary_hunk p h a =
     (case prompt_index (h_source h) of
        None \<Rightarrow> a\<lparr>sa_unattributed := sa_unattributed a + 1\<rparr>
      | Some i \<Rightarrow>
          a\<lparr>sa_has_agent := True,
            sa_by_prompt := AList.update i
              (add_turn_hunk p h (case map_of (sa_by_prompt a) i of None \<Rightarrow> empty_turn | Some d \<Rightarrow> d))
              (sa_by_prompt a)\<rparr>)"

definition summary_file :: "path \<times> file_state \<Rightarrow> summary_acc \<Rightarrow> summary_acc" where
  "summary_file = (\<lambda>(p, st) a.
     let a1 = fold (summary_hunk p) (fs_hunks st) (a\<lparr>sa_has_agent := False\<rparr>)
     in if sa_has_agent a1 then a1\<lparr>sa_files := List.insert p (sa_files a1)\<rparr> else a1)"

definition turn_of :: "nat \<times> turn_data \<Rightarrow> turn_summary" where
  "turn_of = (\<lambda>(i, d).
     \<lparr>ts_prompt_index = i, ts_files = td_files d, ts_pending_hunks = td_pending d,
      ts_lines_added = td_lines_added d, ts_lines_removed = td_lines_removed d\<rparr>)"

definition compute_session_summary :: "tracker \<Rightarrow> session_summary" where
  "compute_session_summary t =
     (let a = fold summary_file (tk_file_states t)
                \<lparr>sa_by_prompt = [], sa_unattributed = 0, sa_has_agent = False, sa_files = []\<rparr>;
          turns = sort_key ts_prompt_index (map turn_of (sa_by_prompt a))
      in \<lparr>ss_stats = tk_stats t, ss_turns = turns,
          ss_files_modified = length (sa_files a), ss_files_with_pending = length (sa_files a),
          ss_pending_hunks = sum_list (map (\<lambda>ts. length (ts_pending_hunks ts)) turns),
          ss_pending_lines_added = sum_list (map ts_lines_added turns),
          ss_pending_lines_removed = sum_list (map ts_lines_removed turns),
          ss_unattributed_pending = sa_unattributed a\<rparr>)"

section \<open>Snapshots\<close>

definition snapshot_file_state :: "file_state \<Rightarrow> file_state" where
  "snapshot_file_state st =
     \<lparr>fs_baseline = fs_baseline st, fs_current = fs_current st, fs_hunks = fs_hunks st,
      fs_is_agent_file = fs_is_agent_file st, fs_baseline_accepted = fs_baseline_accepted st\<rparr>"

definition take_snapshot :: "tracker \<Rightarrow> snapshot" where
  "take_snapshot t =
     \<lparr>sn_file_states = map_values (\<lambda>_. snapshot_file_state) (tk_file_states t),
      sn_turn_index = tk_turn_index t, sn_session_stats = tk_stats t\<rparr>"

definition take_turn_delta :: "nat \<Rightarrow> tracker \<Rightarrow> turn_delta" where
  "take_turn_delta prompt t =
     (let ids = index_ids (tk_turn_index t) prompt
      in \<lparr>td_prompt_index = prompt,
          td_file_states = map_values (\<lambda>_. snapshot_file_state)
            (filter (\<lambda>(p, st). \<exists>h \<in> set (fs_hunks st). h_id h \<in> set ids) (tk_file_states t)),
          td_hunk_ids = ids\<rparr>)"

text \<open>Fresh ids stay fresh: the supply moves above every id of the snapshot.\<close>

definition snapshot_ids :: "snapshot \<Rightarrow> hunk_id list" where
  "snapshot_ids sn =
     map h_id (concat (map (\<lambda>(p, st). fs_hunks st) (sn_file_states sn))) @
     concat (map snd (sn_turn_index sn))"

definition above_ids :: "hunk_id \<Rightarrow> hunk_id list \<Rightarrow> hunk_id" where
  "above_ids next ids = fold max (map Suc ids) next"

definition restore_snapshot :: "snapshot \<Rightarrow> tracker \<Rightarrow> tracker" where
  "restore_snapshot sn t =
     t\<lparr>tk_file_states := collect_map (map_values (\<lambda>_. snapshot_file_state) (sn_file_states sn)),
       tk_turn_index := sn_turn_index sn,
       tk_stats := sn_session_stats sn,
       tk_next_id := above_ids (tk_next_id t) (snapshot_ids sn)\<rparr>"

section \<open>Facts\<close>

lemma snapshot_file_state_id [simp]: "snapshot_file_state st = st"
  by (simp add: snapshot_file_state_def)

lemma map_values_id [simp]: "map_values (\<lambda>_. snapshot_file_state) m = m"
  by (induction m) (auto simp: map_values_def)

lemma update_fresh: "k \<notin> fst ` set m \<Longrightarrow> AList.update k v m = m @ [(k, v)]"
  by (induction m) auto

lemma collect_map_fold:
  "distinct_keys (m @ kvs) \<Longrightarrow> fold (\<lambda>(k, v). AList.update k v) kvs m = m @ kvs"
proof (induction kvs arbitrary: m)
  case (Cons kv kvs)
  obtain k v where kv: "kv = (k, v)" by force
  have "AList.update k v m = m @ [(k, v)]"
    using Cons.prems by (auto simp: kv intro: update_fresh)
  then show ?case using Cons by (simp add: kv)
qed simp

lemma collect_map_distinct: "distinct_keys kvs \<Longrightarrow> collect_map kvs = kvs"
  using collect_map_fold[of "[]" kvs] by (simp add: collect_map_def)

lemma above_ids_bounds: "next \<le> above_ids next ids \<and> (\<forall>i \<in> set ids. i < above_ids next ids)"
  unfolding above_ids_def
proof (induction ids arbitrary: "next")
  case (Cons a ids)
  let ?m = "fold max (map Suc ids) (max (Suc a) next)"
  have "max (Suc a) next \<le> ?m" "\<forall>i \<in> set ids. i < ?m"
    using Cons by blast+
  then show ?case by auto
qed simp

end
