(* ===== verification/Hunk_Commands.thy ===== *)
theory Hunk_Commands
  imports Hunk_Actions Hunk_Mutations Hunk_Queries
begin

text \<open>
  The command loop of the hunk tracker (\<open>xai-hunk-tracker/src/commands.rs\<close>,
  \<open>actor/mod.rs\<close>). A reply is a value instead of a channel. The actor works in rounds: a
  round takes one command from the queue, or the whole queue as a coalesced batch when
  that command can be coalesced. Between rounds the world may change files.
\<close>

section \<open>Commands\<close>

datatype command =
  RecordAgentWrite path str nat "str option"
| HandleFileChange path
| HandleFileDeleted path
| RefreshGitDirtyCache
| ResetBaseline path
| SetMode tracking_mode
| HunkAction hunk_id hunk_action
| FileAction path hunk_action
| AllAction hunk_action
| TurnAction nat hunk_action
| GetAllHunks
| GetHunksForPath path
| GetFileHunkData path
| GetHunksBySource hunk_source_filter
| GetHunk hunk_id
| IsAgentFile path
| GetAllTrackedPaths
| GetStagedFiles
| GetAllFileContents
| GetSessionSummary
| GetTurnHunks nat
| ResetStats
| RefreshAllBaselines
| SnapshotState
| SnapshotTurnDelta nat
| RestoreState snapshot

datatype reply =
  NoReply
| ActionReply "hunk_action_error + unit"
| BatchReply "hunk_action_error + hunk_id list"
| HunksReply "hunk list"
| DataReply "file_hunk_data option"
| HunkReply "hunk option"
| BoolReply bool
| PathsReply "path list"
| ContentsReply "content_entry list"
| SummaryReply session_summary
| SnapshotReply snapshot
| DeltaReply turn_delta

definition content_entry_of :: "tracker \<Rightarrow> path \<times> file_state \<Rightarrow> content_entry" where
  "content_entry_of t = (\<lambda>(p, st).
     \<lparr>ce_path = p, ce_baseline = from_content_state (fs_baseline st),
      ce_current = from_content_state (fs_current st), ce_is_agent_file = fs_is_agent_file st,
      ce_staged = (relative_path t p \<in> set (tk_staged_cache t))\<rparr>)"

fun handle_command :: "env \<Rightarrow> command \<Rightarrow> tracker \<Rightarrow> tracker \<times> reply" where
  "handle_command E (RecordAgentWrite p s i prev) t = (record_agent_write E p s i prev t, NoReply)"
| "handle_command E (HandleFileChange p) t = (handle_file_change E p t, NoReply)"
| "handle_command E (HandleFileDeleted p) t = (handle_file_deleted E p t, NoReply)"
| "handle_command E RefreshGitDirtyCache t = (refresh_git_dirty_cache E None t, NoReply)"
| "handle_command E (ResetBaseline p) t = (reset_baseline p t, NoReply)"
| "handle_command E (SetMode m) t = (set_mode E m t, NoReply)"
| "handle_command E (HunkAction i a) t =
     (case apply_hunk_action E i a t of (t1, r) \<Rightarrow> (t1, ActionReply r))"
| "handle_command E (FileAction p a) t =
     (case apply_file_action E p a t of (t1, r) \<Rightarrow> (t1, BatchReply r))"
| "handle_command E (AllAction a) t =
     (case apply_all_action E a t of (t1, r) \<Rightarrow> (t1, BatchReply r))"
| "handle_command E (TurnAction i a) t =
     (case apply_turn_action E i a t of (t1, r) \<Rightarrow> (t1, BatchReply r))"
| "handle_command E GetAllHunks t = (t, HunksReply (get_all_hunks t))"
| "handle_command E (GetHunksForPath p) t = (t, HunksReply (get_hunks_for_path t p))"
| "handle_command E (GetFileHunkData p) t = (t, DataReply (get_file_hunk_data t p))"
| "handle_command E (GetHunksBySource f) t = (t, HunksReply (get_hunks_by_source t f))"
| "handle_command E (GetHunk i) t = (t, HunkReply (get_hunk t i))"
| "handle_command E (IsAgentFile p) t = (t, BoolReply (agent_file t p))"
| "handle_command E GetAllTrackedPaths t = (t, PathsReply (get_all_tracked_paths t))"
| "handle_command E GetStagedFiles t =
     (t, PathsReply (map ((@) (tk_working_dir t)) (tk_staged_cache t)))"
| "handle_command E GetAllFileContents t =
     (t, ContentsReply (map (content_entry_of t) (tk_file_states t)))"
| "handle_command E GetSessionSummary t = (t, SummaryReply (compute_session_summary t))"
| "handle_command E (GetTurnHunks i) t = (t, HunksReply (get_hunks_for_turn t i))"
| "handle_command E ResetStats t = (t\<lparr>tk_stats := default_stats\<rparr>, NoReply)"
| "handle_command E RefreshAllBaselines t = (refresh_all_baselines E t, NoReply)"
| "handle_command E SnapshotState t = (t, SnapshotReply (take_snapshot t))"
| "handle_command E (SnapshotTurnDelta i) t = (t, DeltaReply (take_turn_delta i t))"
| "handle_command E (RestoreState sn) t = (restore_snapshot sn t, NoReply)"

section \<open>Coalescing\<close>

datatype path_action = Changed | Deleted | DeletedThenChanged

record batch =
  bt_file_actions :: "(path \<times> path_action) list"
  bt_refresh_all :: bool
  bt_refresh_dirty :: bool
  bt_other :: "command list"
  bt_count :: nat

definition new_batch :: batch where
  "new_batch = \<lparr>bt_file_actions = [], bt_refresh_all = False, bt_refresh_dirty = False,
     bt_other = [], bt_count = 0\<rparr>"

definition changed_action :: "path_action option \<Rightarrow> path_action" where
  "changed_action a =
     (case a of None \<Rightarrow> Changed | Some Deleted \<Rightarrow> DeletedThenChanged | Some b \<Rightarrow> b)"

fun add_command :: "batch \<Rightarrow> command \<Rightarrow> batch" where
  "add_command b (HandleFileChange p) =
     b\<lparr>bt_file_actions := AList.update p (changed_action (map_of (bt_file_actions b) p))
         (bt_file_actions b), bt_count := bt_count b + 1\<rparr>"
| "add_command b (HandleFileDeleted p) =
     b\<lparr>bt_file_actions := AList.update p Deleted (bt_file_actions b), bt_count := bt_count b + 1\<rparr>"
| "add_command b RefreshAllBaselines = b\<lparr>bt_refresh_all := True, bt_count := bt_count b + 1\<rparr>"
| "add_command b RefreshGitDirtyCache = b\<lparr>bt_refresh_dirty := True, bt_count := bt_count b + 1\<rparr>"
| "add_command b c = b\<lparr>bt_other := bt_other b @ [c], bt_count := bt_count b + 1\<rparr>"

fun is_coalescable :: "command \<Rightarrow> bool" where
  "is_coalescable (HandleFileChange p) = True"
| "is_coalescable (HandleFileDeleted p) = True"
| "is_coalescable RefreshAllBaselines = True"
| "is_coalescable RefreshGitDirtyCache = True"
| "is_coalescable _ = False"

definition drain_and_coalesce :: "command \<Rightarrow> command list \<Rightarrow> batch" where
  "drain_and_coalesce first queued = foldl add_command (add_command new_batch first) queued"

text \<open>The file actions of a batch that also refreshes: only files whose tracking changes are
  touched, and those it starts to track are left out of the refresh.\<close>

definition refresh_action ::
  "env \<Rightarrow> path \<times> path_action \<Rightarrow> path list \<times> tracker \<Rightarrow> path list \<times> tracker" where
  "refresh_action E = (\<lambda>(p, a) (done, t).
     case a of
       Deleted \<Rightarrow> if is_tracked t p then (done, handle_file_deleted E p t) else (done, t)
     | _ \<Rightarrow> if \<not> is_tracked t p then (p # done, handle_file_change E p t) else (done, t))"

definition plain_action ::
  "env \<Rightarrow> path \<times> path_action \<Rightarrow> path list \<times> tracker \<Rightarrow> path list \<times> tracker" where
  "plain_action E = (\<lambda>(p, a) (changed, t).
     case a of
       Deleted \<Rightarrow> (changed, handle_file_deleted E p t)
     | _ \<Rightarrow> (changed @ [p], t))"

fun handle_commands :: "env \<Rightarrow> command list \<Rightarrow> tracker \<Rightarrow> tracker \<times> reply list" where
  "handle_commands E [] t = (t, [])"
| "handle_commands E (c # cs) t =
     (case handle_command E c t of (t1, r) \<Rightarrow>
        (case handle_commands E cs t1 of (t2, rs) \<Rightarrow> (t2, r # rs)))"

definition batch_files :: "env \<Rightarrow> batch \<Rightarrow> tracker \<Rightarrow> tracker" where
  "batch_files E b t =
     (let t1 = (if bt_refresh_dirty b \<and> \<not> bt_refresh_all b
                then refresh_git_dirty_cache E None t else t)
      in if bt_refresh_all b then
           (case fold (refresh_action E) (bt_file_actions b) ([], t1) of
              (done, t2) \<Rightarrow> refresh_all_baselines_except E done t2)
         else
           (case fold (plain_action E) (bt_file_actions b) ([], t1) of
              (changed, t2) \<Rightarrow> handle_file_changes_batch E changed t2))"

definition handle_coalesced_batch :: "env \<Rightarrow> batch \<Rightarrow> tracker \<Rightarrow> tracker \<times> reply list" where
  "handle_coalesced_batch E b t = handle_commands E (bt_other b) (batch_files E b t)"

section \<open>The loop\<close>

definition start_tracker :: "env \<Rightarrow> tracker \<Rightarrow> tracker" where
  "start_tracker E t = (if tk_mode t = AllDirty then refresh_git_dirty_cache E None t else t)"

fun actor_round :: "env \<Rightarrow> command list \<Rightarrow> tracker \<Rightarrow> tracker \<times> command list \<times> reply list" where
  "actor_round E [] t = (t, [], [])"
| "actor_round E (c # cs) t =
     (if is_coalescable c then
        (case handle_coalesced_batch E (drain_and_coalesce c cs) t of (t1, rs) \<Rightarrow> (t1, [], rs))
      else (case handle_command E c t of (t1, r) \<Rightarrow> (t1, cs, [r])))"

text \<open>An actor with its queue, and what can happen to it.\<close>

record actor =
  ac_tracker :: tracker
  ac_queue :: "command list"
  ac_replies :: "reply list"

datatype actor_input = Outside path "disk_entry option" | Send command | Round env

definition set_disk :: "path \<Rightarrow> disk_entry option \<Rightarrow> tracker \<Rightarrow> tracker" where
  "set_disk p e t =
     t\<lparr>tk_disk := (case e of None \<Rightarrow> AList.delete p (tk_disk t)
                           | Some d \<Rightarrow> AList.update p d (tk_disk t))\<rparr>"

fun actor_step :: "actor \<Rightarrow> actor_input \<Rightarrow> actor" where
  "actor_step a (Outside p e) = a\<lparr>ac_tracker := set_disk p e (ac_tracker a)\<rparr>"
| "actor_step a (Send c) = a\<lparr>ac_queue := ac_queue a @ [c]\<rparr>"
| "actor_step a (Round E) =
     (case actor_round E (ac_queue a) (ac_tracker a) of
        (t, q, rs) \<Rightarrow> a\<lparr>ac_tracker := t, ac_queue := q, ac_replies := ac_replies a @ rs\<rparr>)"

end
