(* ===== verification/Hunk_Invariant.thy ===== *)
theory Hunk_Invariant
  imports Hunk_Actor
begin

text \<open>
  The invariant of the tracker and what its building blocks keep of it: a file is tracked
  once, a hunk carries the path of its file and an id no other hunk has, hunks exist only
  between two texts or a text and a missing file, and the turn index names live hunks
  only under the prompt that wrote them. \<open>complete\<close> adds the converse: each hunk of an
  agent is indexed.
\<close>

section \<open>The invariant\<close>

fun patchable :: "content_state \<Rightarrow> content_state \<Rightarrow> bool" where
  "patchable (Full _) (Full _) = True"
| "patchable (Full _) Missing = True"
| "patchable Missing (Full _) = True"
| "patchable _ _ = False"

definition file_ok :: "path \<Rightarrow> file_state \<Rightarrow> bool" where
  "file_ok p st \<longleftrightarrow>
     (\<forall>h \<in> set (fs_hunks st). h_path h = p) \<and>
     distinct (map h_id (fs_hunks st)) \<and>
     (fs_hunks st \<noteq> [] \<longrightarrow> patchable (fs_baseline st) (fs_current st)) \<and>
     (fs_baseline st = Missing \<longrightarrow> length (fs_hunks st) \<le> 1)"

abbreviation hunk_ids :: "file_state \<Rightarrow> hunk_id set" where
  "hunk_ids st \<equiv> h_id ` set (fs_hunks st)"

abbreviation indexed_ids :: "turn_index \<Rightarrow> nat \<Rightarrow> hunk_id set" where
  "indexed_ids ti i \<equiv> set (index_ids ti i)"

text \<open>Apart from the files in \<open>X\<close>, whose hunks are being recomputed.\<close>

definition files_ok :: "path set \<Rightarrow> (path \<times> file_state) list \<Rightarrow> bool" where
  "files_ok X fss \<longleftrightarrow> (\<forall>p st. map_of fss p = Some st \<longrightarrow> p \<notin> X \<longrightarrow> file_ok p st)"

definition ids_apart :: "(path \<times> file_state) list \<Rightarrow> bool" where
  "ids_apart fss \<longleftrightarrow>
     (\<forall>p q st st'. map_of fss p = Some st \<longrightarrow> map_of fss q = Some st' \<longrightarrow> p \<noteq> q \<longrightarrow>
        hunk_ids st \<inter> hunk_ids st' = {})"

definition index_sound :: "(path \<times> file_state) list \<Rightarrow> turn_index \<Rightarrow> bool" where
  "index_sound fss ti \<longleftrightarrow>
     (\<forall>p st h i. map_of fss p = Some st \<longrightarrow> h \<in> set (fs_hunks st) \<longrightarrow> h_id h \<in> indexed_ids ti i \<longrightarrow>
        prompt_index (h_source h) = Some i)"

definition state_ok :: "path set \<Rightarrow> (path \<times> file_state) list \<Rightarrow> turn_index \<Rightarrow> bool" where
  "state_ok X fss ti \<longleftrightarrow> distinct_keys fss \<and> files_ok X fss \<and> ids_apart fss \<and> index_sound fss ti"

definition ids_below :: "hunk_id \<Rightarrow> (path \<times> file_state) list \<Rightarrow> bool" where
  "ids_below next fss \<longleftrightarrow> (\<forall>p st h. map_of fss p = Some st \<longrightarrow> h \<in> set (fs_hunks st) \<longrightarrow> h_id h < next)"

definition index_below :: "hunk_id \<Rightarrow> turn_index \<Rightarrow> bool" where
  "index_below next ti \<longleftrightarrow> (\<forall>i j. j \<in> indexed_ids ti i \<longrightarrow> j < next)"

definition bounded :: "hunk_id \<Rightarrow> (path \<times> file_state) list \<Rightarrow> turn_index \<Rightarrow> bool" where
  "bounded next fss ti \<longleftrightarrow> ids_below next fss \<and> index_below next ti"

definition ok_except :: "path set \<Rightarrow> tracker \<Rightarrow> bool" where
  "ok_except X t \<longleftrightarrow>
     state_ok X (tk_file_states t) (tk_turn_index t) \<and>
     bounded (tk_next_id t) (tk_file_states t) (tk_turn_index t)"

abbreviation tracker_ok :: "tracker \<Rightarrow> bool" where
  "tracker_ok \<equiv> ok_except {}"

definition complete :: "hunk_id set \<Rightarrow> tracker \<Rightarrow> bool" where
  "complete S t \<longleftrightarrow>
     (\<forall>p st h i. file_state_of t p = Some st \<longrightarrow> h \<in> set (fs_hunks st) \<longrightarrow> h_id h \<notin> S \<longrightarrow>
        prompt_index (h_source h) = Some i \<longrightarrow> h_id h \<in> indexed_ids (tk_turn_index t) i)"

section \<open>Field updates\<close>

lemma put_file_shape [shape]:
  "file_state_of (put_file p st t) q = (if q = p then Some st else file_state_of t q)"
  "tk_turn_index (put_file p st t) = tk_turn_index t"
  "tk_next_id (put_file p st t) = tk_next_id t"
  "tk_file_states (put_file p st t) = AList.update p st (tk_file_states t)"
  "tk_disk (put_file p st t) = tk_disk t" "tk_mode (put_file p st t) = tk_mode t"
  "tk_events (put_file p st t) = tk_events t" "tk_stats (put_file p st t) = tk_stats t"
  "tk_working_dir (put_file p st t) = tk_working_dir t"
  by (auto simp: put_file_def file_state_of_def)

lemma drop_file_shape [shape]:
  "file_state_of (drop_file p t) q = (if q = p then None else file_state_of t q)"
  "tk_turn_index (drop_file p t) = tk_turn_index t"
  "tk_next_id (drop_file p t) = tk_next_id t"
  "tk_file_states (drop_file p t) = AList.delete p (tk_file_states t)"
  "tk_disk (drop_file p t) = tk_disk t" "tk_mode (drop_file p t) = tk_mode t"
  "tk_events (drop_file p t) = tk_events t" "tk_stats (drop_file p t) = tk_stats t"
  by (auto simp: drop_file_def file_state_of_def)

lemma send_event_shape [shape]:
  "tk_file_states (send_event e t) = tk_file_states t"
  "tk_file_states (send_events es t) = tk_file_states t"
  "tk_turn_index (send_event e t) = tk_turn_index t"
  "tk_turn_index (send_events es t) = tk_turn_index t"
  "tk_next_id (send_event e t) = tk_next_id t" "tk_next_id (send_events es t) = tk_next_id t"
  "tk_disk (send_event e t) = tk_disk t" "tk_disk (send_events es t) = tk_disk t"
  "tk_mode (send_event e t) = tk_mode t" "tk_mode (send_events es t) = tk_mode t"
  "tk_events (send_event e t) = tk_events t @ [e]"
  "tk_events (send_events es t) = tk_events t @ es"
  "tk_stats (send_event e t) = tk_stats t" "tk_stats (send_events es t) = tk_stats t"
  by (auto simp: send_event_def send_events_def)

lemma disk_shape [shape]:
  "tk_file_states (write_disk p s t) = tk_file_states t"
  "tk_file_states (remove_disk p t) = tk_file_states t"
  "tk_turn_index (write_disk p s t) = tk_turn_index t"
  "tk_turn_index (remove_disk p t) = tk_turn_index t"
  "tk_next_id (write_disk p s t) = tk_next_id t" "tk_next_id (remove_disk p t) = tk_next_id t"
  "tk_mode (write_disk p s t) = tk_mode t" "tk_mode (remove_disk p t) = tk_mode t"
  by (auto simp: write_disk_def remove_disk_def split: option.splits disk_entry.splits)

lemma file_state_of_cong:
  "tk_file_states t = tk_file_states u \<Longrightarrow> file_state_of t p = file_state_of u p"
  by (simp add: file_state_of_def)

text \<open>The invariant reads three fields only.\<close>

lemma ok_except_cong:
  "tk_file_states t = tk_file_states u \<Longrightarrow> tk_turn_index t = tk_turn_index u \<Longrightarrow>
   tk_next_id t = tk_next_id u \<Longrightarrow> ok_except X t = ok_except X u"
  by (simp add: ok_except_def)

lemma complete_cong:
  "tk_file_states t = tk_file_states u \<Longrightarrow> tk_turn_index t = tk_turn_index u \<Longrightarrow>
   complete S t = complete S u"
  by (simp add: complete_def file_state_of_def)

lemma inv_frame [simp]:
  "ok_except X (send_event e t) = ok_except X t" "complete S (send_event e t) = complete S t"
  "ok_except X (send_events es t) = ok_except X t" "complete S (send_events es t) = complete S t"
  "ok_except X (write_disk p s t) = ok_except X t" "complete S (write_disk p s t) = complete S t"
  "ok_except X (remove_disk p t) = ok_except X t" "complete S (remove_disk p t) = complete S t"
  by (rule ok_except_cong complete_cong; simp add: shape)+

section \<open>The turn index\<close>

lemma indexed_insert [simp]:
  "indexed_ids (index_insert i h ti) j = (if j = i then insert h (indexed_ids ti j) else indexed_ids ti j)"
  by (auto simp: index_insert_def index_ids_def Let_def)

lemma indexed_remove [simp]:
  "indexed_ids (index_remove i h ti) j = (if j = i then indexed_ids ti j - {h} else indexed_ids ti j)"
  by (auto simp: index_remove_def index_ids_def split: option.splits)

lemma indexed_hunk:
  "indexed_ids (index_hunk h ti) j =
     indexed_ids ti j \<union> {h_id g | g. g = h \<and> prompt_index (h_source g) = Some j}"
  by (auto simp: index_hunk_def split: option.splits)

lemma indexed_unhunk:
  "indexed_ids (unindex_hunk h ti) j =
     indexed_ids ti j - {h_id g | g. g = h \<and> prompt_index (h_source g) = Some j}"
  by (auto simp: unindex_hunk_def split: option.splits)

lemma indexed_fold:
  "indexed_ids (fold index_hunk hs ti) j =
     indexed_ids ti j \<union> {h_id h | h. h \<in> set hs \<and> prompt_index (h_source h) = Some j}"
  by (induction hs arbitrary: ti) (auto simp: indexed_hunk)

lemma unindexed_fold:
  "indexed_ids (fold unindex_hunk hs ti) j =
     indexed_ids ti j - {h_id h | h. h \<in> set hs \<and> prompt_index (h_source h) = Some j}"
  by (induction hs arbitrary: ti) (auto simp: indexed_unhunk)

section \<open>Recomputed hunks\<close>

lemma find_matching_in: "find_matching_old_hunk h old_hunks = Some g \<Longrightarrow> g \<in> set old_hunks"
  by (auto simp: find_matching_old_hunk_def Let_def split: if_splits
      dest!: min_by_key_Some max_by_key_Some)

lemma claim_ids_origin:
  "h \<in> set (claim_ids old_hunks claimed hs) \<Longrightarrow>
   (\<exists>g \<in> set hs. h_path h = h_path g \<and> h_line_info h = h_line_info g \<and>
      h_old_text h = h_old_text g \<and> h_new_text h = h_new_text g \<and>
      (h_id h = h_id g \<and> h_source h = h_source g \<or>
       h_id h \<in> h_id ` set old_hunks \<and> h_id h \<notin> set claimed))"
proof (induction old_hunks claimed hs rule: claim_ids.induct)
  case (2 old_hunks claimed g hs)
  show ?case
  proof (cases "find_matching_old_hunk g old_hunks")
    case None
    then show ?thesis using 2 by auto
  next
    case (Some best)
    then have "best \<in> set old_hunks" by (rule find_matching_in)
    then show ?thesis
      using 2 Some by (cases "h_id best \<in> set claimed") (auto simp: claim_def)
  qed
qed simp

lemma claim_ids_distinct:
  assumes "distinct (map h_id hs)" "\<forall>g \<in> set hs. n \<le> h_id g" "\<forall>g \<in> set old_hunks. h_id g < n"
  shows "distinct (map h_id (claim_ids old_hunks claimed hs))"
  using assms
proof (induction old_hunks claimed hs rule: claim_ids.induct)
  case (2 old_hunks claimed g hs)
  have keep: "h_id g \<notin> h_id ` set (claim_ids old_hunks claimed hs)"
    using 2(4,5,6) claim_ids_origin[of _ old_hunks claimed hs] by fastforce
  have best: "h_id best \<notin> h_id ` set (claim_ids old_hunks (h_id best # claimed) hs)"
    if "best \<in> set old_hunks" for best
    using 2(4,5,6) that claim_ids_origin[of _ old_hunks "h_id best # claimed" hs] by fastforce
  show ?case
    using 2 keep best find_matching_in[of g old_hunks]
    by (auto simp: claim_def split: option.splits)
qed simp

lemma length_claim_ids [simp]: "length (claim_ids old_hunks claimed hs) = length hs"
  by (induction old_hunks claimed hs rule: claim_ids.induct) (auto split: option.splits)

lemma diff_contents_ids:
  "diff_contents E next p b c src = (hs, next') \<Longrightarrow> map h_id hs = [next..<next'] \<and> next \<le> next'"
  by (induction E "next" p b c src rule: diff_contents.induct)
    (auto simp: file_created_def file_deleted_def upt_conv_Cons dest: compute_hunks_ids
      split: if_splits)

lemma diff_contents_path:
  "diff_contents E next p b c src = (hs, next') \<Longrightarrow> h \<in> set hs \<Longrightarrow> h_path h = p \<and> h_source h = src"
  by (induction E "next" p b c src rule: diff_contents.induct)
    (auto simp: file_created_def file_deleted_def dest: compute_hunks_source split: if_splits)

lemma diff_contents_patchable:
  "diff_contents E next p b c src = (hs, next') \<Longrightarrow> hs \<noteq> [] \<Longrightarrow> patchable b c"
  by (induction E "next" p b c src rule: diff_contents.induct) auto

lemma diff_contents_missing:
  "diff_contents E next p Missing c src = (hs, next') \<Longrightarrow> length hs \<le> 1"
  by (cases c) (auto split: if_splits)


section \<open>What the building blocks keep\<close>

lemmas ok_parts = ok_except_def state_ok_def bounded_def

lemma ok_keys: "ok_except X t \<Longrightarrow> distinct_keys (tk_file_states t)"
  by (simp add: ok_parts)

lemma ok_file: "ok_except X t \<Longrightarrow> file_state_of t p = Some st \<Longrightarrow> p \<notin> X \<Longrightarrow> file_ok p st"
  by (simp add: ok_parts files_ok_def file_state_of_def)

lemma ok_apart:
  "ok_except X t \<Longrightarrow> file_state_of t p = Some st \<Longrightarrow> file_state_of t q = Some st' \<Longrightarrow> p \<noteq> q \<Longrightarrow>
   g \<in> set (fs_hunks st) \<Longrightarrow> h \<in> set (fs_hunks st') \<Longrightarrow> h_id g \<noteq> h_id h"
  unfolding ok_parts ids_apart_def file_state_of_def by blast

lemma ok_index:
  "ok_except X t \<Longrightarrow> file_state_of t p = Some st \<Longrightarrow> h \<in> set (fs_hunks st) \<Longrightarrow>
   h_id h \<in> indexed_ids (tk_turn_index t) i \<Longrightarrow> prompt_index (h_source h) = Some i"
  unfolding ok_parts index_sound_def file_state_of_def by blast

lemma ok_below:
  "ok_except X t \<Longrightarrow> file_state_of t p = Some st \<Longrightarrow> h \<in> set (fs_hunks st) \<Longrightarrow> h_id h < tk_next_id t"
  unfolding ok_parts ids_below_def file_state_of_def by blast

lemma ok_index_below: "ok_except X t \<Longrightarrow> j \<in> indexed_ids (tk_turn_index t) i \<Longrightarrow> j < tk_next_id t"
  unfolding ok_parts index_below_def by blast

lemma ok_exceptI:
  assumes keys: "distinct_keys (tk_file_states t)"
    and files: "\<And>p st. file_state_of t p = Some st \<Longrightarrow> p \<notin> X \<Longrightarrow> file_ok p st"
    and apart: "\<And>p q st st' g h. file_state_of t p = Some st \<Longrightarrow> file_state_of t q = Some st' \<Longrightarrow> p \<noteq> q \<Longrightarrow>
         g \<in> set (fs_hunks st) \<Longrightarrow> h \<in> set (fs_hunks st') \<Longrightarrow> h_id g \<noteq> h_id h"
    and idx: "\<And>p st h i. file_state_of t p = Some st \<Longrightarrow> h \<in> set (fs_hunks st) \<Longrightarrow>
         h_id h \<in> indexed_ids (tk_turn_index t) i \<Longrightarrow> prompt_index (h_source h) = Some i"
    and below: "\<And>p st h. file_state_of t p = Some st \<Longrightarrow> h \<in> set (fs_hunks st) \<Longrightarrow> h_id h < tk_next_id t"
    and ibelow: "\<And>i j. j \<in> indexed_ids (tk_turn_index t) i \<Longrightarrow> j < tk_next_id t"
  shows "ok_except X t"
proof -
  have "files_ok X (tk_file_states t)" "index_sound (tk_file_states t) (tk_turn_index t)"
    "ids_below (tk_next_id t) (tk_file_states t)" "index_below (tk_next_id t) (tk_turn_index t)"
    using files idx below ibelow
    unfolding files_ok_def index_sound_def ids_below_def index_below_def file_state_of_def
    by blast+
  moreover have "ids_apart (tk_file_states t)"
    unfolding ids_apart_def using apart[unfolded file_state_of_def] by blast
  ultimately show ?thesis using keys by (simp add: ok_parts)
qed

text \<open>Storing a file with no new hunks, or forgetting one.\<close>

definition hunks_at :: "tracker \<Rightarrow> path \<Rightarrow> hunk list" where
  "hunks_at t p = (case file_state_of t p of None \<Rightarrow> [] | Some st \<Rightarrow> fs_hunks st)"

lemma hunks_at_Some [simp]: "file_state_of t p = Some st \<Longrightarrow> hunks_at t p = fs_hunks st"
  by (simp add: hunks_at_def)

lemma hunks_at_mem: "h \<in> set (hunks_at t p) \<Longrightarrow> \<exists>st. file_state_of t p = Some st \<and> h \<in> set (fs_hunks st)"
  by (cases "file_state_of t p") (auto simp: hunks_at_def)

lemma file_of_put:
  "file_state_of (put_file p st t) q = Some u \<Longrightarrow> set (fs_hunks st) \<subseteq> set (hunks_at t p) \<Longrightarrow>
   h \<in> set (fs_hunks u) \<Longrightarrow> \<exists>v. file_state_of t q = Some v \<and> h \<in> set (fs_hunks v)"
  using hunks_at_mem[of h t p] by (cases "q = p") (auto simp: shape)

lemma ok_put_file:
  assumes ok: "ok_except X t" and sub: "set (fs_hunks st) \<subseteq> set (hunks_at t p)"
    and p: "p \<in> X \<or> file_ok p st"
  shows "ok_except X (put_file p st t)"
proof (rule ok_exceptI)
  show "distinct_keys (tk_file_states (put_file p st t))"
    using ok_keys[OF ok] by (simp add: shape hash_map.inv_insert)
next
  fix q st' assume "file_state_of (put_file p st t) q = Some st'" "q \<notin> X"
  then show "file_ok q st'"
    using ok_file[OF ok, of q st'] p by (cases "q = p") (auto simp: shape)
next
  fix q r st1 st2 g h
  assume a: "file_state_of (put_file p st t) q = Some st1"
    "file_state_of (put_file p st t) r = Some st2" "q \<noteq> r"
    "g \<in> set (fs_hunks st1)" "h \<in> set (fs_hunks st2)"
  show "h_id g \<noteq> h_id h"
    using file_of_put[OF a(1) sub a(4)] file_of_put[OF a(2) sub a(5)] ok_apart[OF ok] a(3) by blast
next
  fix q st' h i
  assume a: "file_state_of (put_file p st t) q = Some st'" "h \<in> set (fs_hunks st')"
    "h_id h \<in> indexed_ids (tk_turn_index (put_file p st t)) i"
  show "prompt_index (h_source h) = Some i"
    using file_of_put[OF a(1) sub a(2)] ok_index[OF ok] a(3) by (auto simp: shape)
next
  fix q st' h
  assume a: "file_state_of (put_file p st t) q = Some st'" "h \<in> set (fs_hunks st')"
  show "h_id h < tk_next_id (put_file p st t)"
    using file_of_put[OF a(1) sub a(2)] ok_below[OF ok] by (auto simp: shape)
qed (use ok_index_below[OF ok] in \<open>simp add: shape\<close>)

lemma completeD:
  "complete S t \<Longrightarrow> file_state_of t p = Some st \<Longrightarrow> h \<in> set (fs_hunks st) \<Longrightarrow> h_id h \<notin> S \<Longrightarrow>
   prompt_index (h_source h) = Some i \<Longrightarrow> h_id h \<in> indexed_ids (tk_turn_index t) i"
  unfolding complete_def by blast

lemma completeI:
  "(\<And>p st h i. file_state_of t p = Some st \<Longrightarrow> h \<in> set (fs_hunks st) \<Longrightarrow> h_id h \<notin> S \<Longrightarrow>
     prompt_index (h_source h) = Some i \<Longrightarrow> h_id h \<in> indexed_ids (tk_turn_index t) i) \<Longrightarrow> complete S t"
  unfolding complete_def by blast

lemma complete_put_file:
  assumes "complete S t" "set (fs_hunks st) \<subseteq> set (hunks_at t p)"
  shows "complete S (put_file p st t)"
proof (rule completeI)
  fix q u h i
  assume a: "file_state_of (put_file p st t) q = Some u" "h \<in> set (fs_hunks u)" "h_id h \<notin> S"
    "prompt_index (h_source h) = Some i"
  show "h_id h \<in> indexed_ids (tk_turn_index (put_file p st t)) i"
    using file_of_put[OF a(1) assms(2) a(2)] completeD[OF assms(1)] a(3,4) by (auto simp: shape)
qed

lemma file_of_drop: "file_state_of (drop_file p t) q = Some u \<Longrightarrow> file_state_of t q = Some u"
  by (simp add: shape split: if_splits)

lemma ok_drop_file: 
  assumes ok: "ok_except X t"
  shows "ok_except X (drop_file p t)"
proof (rule ok_exceptI)
  show "distinct_keys (tk_file_states (drop_file p t))"
    using ok_keys[OF ok] by (simp add: shape hash_map.inv_remove)
qed (blast dest: file_of_drop intro: ok_file[OF ok],
    blast dest: file_of_drop ok_apart[OF ok], simp add: drop_file_shape(2), 
    blast dest: file_of_drop intro: ok_index[OF ok], simp add: drop_file_shape(3),
    blast dest: file_of_drop intro: ok_below[OF ok], simp add: drop_file_shape(2,3) ok_index_below[OF ok])

lemma complete_drop_file: "complete S t \<Longrightarrow> complete S (drop_file p t)"
  by (rule completeI) (auto dest: file_of_drop completeD simp: drop_file_shape(2))

lemma ok_except_mono: "ok_except X t \<Longrightarrow> X \<subseteq> Y \<Longrightarrow> ok_except Y t"
  unfolding ok_parts files_ok_def by blast

lemma complete_mono: "complete S t \<Longrightarrow> S \<subseteq> T \<Longrightarrow> complete T t"
  unfolding complete_def by blast

lemma ok_untracked: "ok_except {p} t \<Longrightarrow> file_state_of t p = None \<Longrightarrow> tracker_ok t"
  unfolding ok_parts files_ok_def file_state_of_def
  by (metis empty_iff insert_iff option.distinct(1))

section \<open>Recomputing a file\<close>

definition fresh_hunks :: "env \<Rightarrow> path \<Rightarrow> content_state option \<Rightarrow> hunk_source \<Rightarrow> tracker \<Rightarrow> hunk list \<times> hunk_id" where
  "fresh_hunks E p c src t =
     (case file_state_of t p of
        None \<Rightarrow> ([], tk_next_id t)
      | Some st \<Rightarrow> diff_contents E (tk_next_id t) p (fs_baseline st)
                    (case c of None \<Rightarrow> Missing | Some x \<Rightarrow> x) src)"

lemma recompute_None: "file_state_of t p = None \<Longrightarrow> recompute_hunks E p c src t = t"
  by (simp add: recompute_hunks_def)

lemma recompute_Some:
  assumes "file_state_of t p = Some st" "fresh_hunks E p c src t = (fresh, n)"
  defines "new_hunks \<equiv> claim_ids (fs_hunks st) [] fresh"
  defines "t' \<equiv> recompute_hunks E p c src t"
  shows "tk_file_states t' = AList.update p (st\<lparr>fs_current := (case c of None \<Rightarrow> Missing | Some x \<Rightarrow> x),
           fs_hunks := new_hunks\<rparr>) (tk_file_states t)"
    and "tk_turn_index t' = fold index_hunk new_hunks (fold unindex_hunk (fs_hunks st) (tk_turn_index t))"
    and "tk_next_id t' = n"
    and "tk_events t' = tk_events t @ hunk_diff_events p (fs_hunks st) new_hunks src"
    and "tk_disk t' = tk_disk t" "tk_mode t' = tk_mode t" "tk_stats t' = tk_stats t"
    and "tk_working_dir t' = tk_working_dir t"
  using assms
  by (simp_all add: recompute_hunks_def fresh_hunks_def Let_def send_events_def put_file_def)

lemma recompute_files:
  assumes "file_state_of t p = Some st" "fresh_hunks E p c src t = (fresh, n)"
  shows "file_state_of (recompute_hunks E p c src t) q =
    (if q = p then Some (st\<lparr>fs_current := (case c of None \<Rightarrow> Missing | Some x \<Rightarrow> x),
                          fs_hunks := claim_ids (fs_hunks st) [] fresh\<rparr>)
     else file_state_of t q)"
  using recompute_Some(1)[OF assms] by (simp add: file_state_of_def)

text \<open>The new hunks of a file, under the invariant of all other files.\<close>

lemma new_hunks_facts:
  assumes ok: "ok_except {p} t" and st: "file_state_of t p = Some st"
    and fresh: "fresh_hunks E p c src t = (fresh, n)"
  defines "new_hunks \<equiv> claim_ids (fs_hunks st) [] fresh"
  shows "distinct (map h_id new_hunks)" "tk_next_id t \<le> n"
    and "h \<in> set new_hunks \<Longrightarrow> h_path h = p \<and> h_id h < n \<and>
          (h_id h \<in> hunk_ids st \<or> tk_next_id t \<le> h_id h)"
    and "new_hunks \<noteq> [] \<Longrightarrow> patchable (fs_baseline st) (case c of None \<Rightarrow> Missing | Some x \<Rightarrow> x)"
    and "fs_baseline st = Missing \<Longrightarrow> length new_hunks \<le> 1"
proof -
  have dc: "diff_contents E (tk_next_id t) p (fs_baseline st)
      (case c of None \<Rightarrow> Missing | Some x \<Rightarrow> x) src = (fresh, n)"
    using st fresh by (simp add: fresh_hunks_def)
  have ids: "map h_id fresh = [tk_next_id t..<n]" and le: "tk_next_id t \<le> n"
    using diff_contents_ids[OF dc] by auto
  have range: "\<forall>g \<in> set fresh. tk_next_id t \<le> h_id g \<and> h_id g < n"
  proof
    fix g assume "g \<in> set fresh"
    then have "h_id g \<in> set (map h_id fresh)" by simp
    then show "tk_next_id t \<le> h_id g \<and> h_id g < n" unfolding ids by simp
  qed
  have old: "\<forall>g \<in> set (fs_hunks st). h_id g < tk_next_id t"
    using ok_below[OF ok st] by blast
  show "distinct (map h_id new_hunks)"
    unfolding new_hunks_def by (rule claim_ids_distinct[OF _ _ old]) (use ids range in auto)
  show "tk_next_id t \<le> n" by (rule le)
  show "h \<in> set new_hunks \<Longrightarrow> h_path h = p \<and> h_id h < n \<and>
          (h_id h \<in> hunk_ids st \<or> tk_next_id t \<le> h_id h)"
    using claim_ids_origin[of h "fs_hunks st" "[]" fresh] range old le diff_contents_path[OF dc]
    unfolding new_hunks_def by fastforce
  show "new_hunks \<noteq> [] \<Longrightarrow> patchable (fs_baseline st) (case c of None \<Rightarrow> Missing | Some x \<Rightarrow> x)"
    using diff_contents_patchable[OF dc] unfolding new_hunks_def by (cases fresh) auto
  show "fs_baseline st = Missing \<Longrightarrow> length new_hunks \<le> 1"
    using dc diff_contents_missing unfolding new_hunks_def by fastforce
qed

lemma recompute_index:
  assumes ok: "ok_except {p} t" and st: "file_state_of t p = Some st"
    and fresh: "fresh_hunks E p c src t = (fresh, n)"
  shows "indexed_ids (tk_turn_index (recompute_hunks E p c src t)) i =
    (indexed_ids (tk_turn_index t) i - {h_id h | h. h \<in> set (fs_hunks st) \<and> prompt_index (h_source h) = Some i}) \<union>
    {h_id h | h. h \<in> set (claim_ids (fs_hunks st) [] fresh) \<and> prompt_index (h_source h) = Some i}"
  by (simp add: recompute_Some(2)[OF st fresh] indexed_fold unindexed_fold)

lemma distinct_map_eq: "distinct (map f xs) \<Longrightarrow> x \<in> set xs \<Longrightarrow> y \<in> set xs \<Longrightarrow> f x = f y \<Longrightarrow> x = y"
  by (auto simp: distinct_map inj_on_def)

text \<open>A hunk after the recomputation: a new one of the file, or one of another file.\<close>

lemma recompute_hunk_cases:
  assumes st: "file_state_of t p = Some st" and fresh: "fresh_hunks E p c src t = (fresh, n)"
    and u: "file_state_of (recompute_hunks E p c src t) q = Some u" "h \<in> set (fs_hunks u)"
  obtains "q = p" "h \<in> set (claim_ids (fs_hunks st) [] fresh)"
  | "q \<noteq> p" "file_state_of t q = Some u"
  using u that by (cases "q = p") (auto simp: recompute_files[OF st fresh])

lemma new_hunk_apart:
  assumes ok: "ok_except {p} t" and st: "file_state_of t p = Some st"
    and fresh: "fresh_hunks E p c src t = (fresh, n)"
    and g: "g \<in> set (claim_ids (fs_hunks st) [] fresh)"
    and h: "file_state_of t q = Some u" "h \<in> set (fs_hunks u)" "q \<noteq> p"
  shows "h_id g \<noteq> h_id h"
proof -
  have "h_id h < tk_next_id t" by (rule ok_below[OF ok h(1,2)])
  moreover have "h_id g \<noteq> h_id h" if "h_id g \<in> hunk_ids st"
    using that ok_apart[OF ok st h(1) h(3)[symmetric] _ h(2)] by fastforce
  ultimately show ?thesis using new_hunks_facts(3)[OF ok st fresh g] by fastforce
qed

lemma recompute_index_sound:
  assumes ok: "ok_except {p} t" and st: "file_state_of t p = Some st"
    and fresh: "fresh_hunks E p c src t = (fresh, n)"
    and u: "file_state_of (recompute_hunks E p c src t) q = Some u" "h \<in> set (fs_hunks u)"
    and idx: "h_id h \<in> indexed_ids (tk_turn_index (recompute_hunks E p c src t)) i"
  shows "prompt_index (h_source h) = Some i"
proof (rule recompute_hunk_cases[OF st fresh u])
  assume q: "q = p" and h: "h \<in> set (claim_ids (fs_hunks st) [] fresh)"
  consider (new) g where "g \<in> set (claim_ids (fs_hunks st) [] fresh)" "h_id g = h_id h"
      "prompt_index (h_source g) = Some i"
    | (old) "h_id h \<in> indexed_ids (tk_turn_index t) i"
      "\<And>g. g \<in> set (fs_hunks st) \<Longrightarrow> prompt_index (h_source g) = Some i \<Longrightarrow> h_id g \<noteq> h_id h"
    using idx unfolding recompute_index[OF ok st fresh] by fastforce
  then show ?thesis
  proof cases
    case new
    then show ?thesis
      using distinct_map_eq[OF new_hunks_facts(1)[OF ok st fresh] new(1) h] by simp
  next
    case old
    have "h_id h < tk_next_id t" by (rule ok_index_below[OF ok old(1)])
    then obtain g where g: "g \<in> set (fs_hunks st)" "h_id g = h_id h"
      using new_hunks_facts(3)[OF ok st fresh h] by force
    then have "prompt_index (h_source g) = Some i"
      using ok_index[OF ok st g(1)] old(1) by simp
    then show ?thesis using old(2)[OF g(1)] g(2) by simp
  qed
next
  assume q: "q \<noteq> p" and u': "file_state_of t q = Some u"
  have "h_id g \<noteq> h_id h" if "g \<in> set (claim_ids (fs_hunks st) [] fresh)" for g
    by (rule new_hunk_apart[OF ok st fresh that u' u(2) q])
  then have "h_id h \<in> indexed_ids (tk_turn_index t) i"
    using idx unfolding recompute_index[OF ok st fresh] by fastforce
  then show ?thesis by (rule ok_index[OF ok u' u(2)])
qed

lemma recompute_ok [keeps]:
  assumes ok: "ok_except {p} t"
  shows "tracker_ok (recompute_hunks E p c src t)"
proof (cases "file_state_of t p")
  case None
  then show ?thesis using ok_untracked[OF ok] by (simp add: recompute_None)
next
  case st: (Some st)
  obtain fresh n where fresh: "fresh_hunks E p c src t = (fresh, n)" by force
  note nh = new_hunks_facts[OF ok st fresh]
  show ?thesis
  proof (rule ok_exceptI)
    show "distinct_keys (tk_file_states (recompute_hunks E p c src t))"
      using ok_keys[OF ok] by (simp add: recompute_Some(1)[OF st fresh] hash_map.inv_insert)
  next
    fix q u assume "file_state_of (recompute_hunks E p c src t) q = Some u" "q \<notin> {}"
    then show "file_ok q u"
      using nh(1,3,4,5) ok_file[OF ok, of q u]
      by (cases "q = p") (auto simp: recompute_files[OF st fresh] file_ok_def)
  next
    fix q r u v g h
    assume a: "file_state_of (recompute_hunks E p c src t) q = Some u"
      "file_state_of (recompute_hunks E p c src t) r = Some v" "q \<noteq> r"
      "g \<in> set (fs_hunks u)" "h \<in> set (fs_hunks v)"
    show "h_id g \<noteq> h_id h"
      by (rule recompute_hunk_cases[OF st fresh a(1,4)]; rule recompute_hunk_cases[OF st fresh a(2,5)])
        (use a(3-5) in \<open>auto dest: new_hunk_apart[OF ok st fresh] ok_apart[OF ok]\<close>)
  next
    fix q u h i
    assume "file_state_of (recompute_hunks E p c src t) q = Some u" "h \<in> set (fs_hunks u)"
      "h_id h \<in> indexed_ids (tk_turn_index (recompute_hunks E p c src t)) i"
    then show "prompt_index (h_source h) = Some i" by (rule recompute_index_sound[OF ok st fresh])
  next
    fix q u h
    assume a: "file_state_of (recompute_hunks E p c src t) q = Some u" "h \<in> set (fs_hunks u)"
    show "h_id h < tk_next_id (recompute_hunks E p c src t)"
      by (rule recompute_hunk_cases[OF st fresh a])
        (use nh(2,3) ok_below[OF ok] a(2) in \<open>fastforce simp: recompute_Some(3)[OF st fresh]\<close>)+
  next
    fix i j assume "j \<in> indexed_ids (tk_turn_index (recompute_hunks E p c src t)) i"
    then show "j < tk_next_id (recompute_hunks E p c src t)"
      using nh(2,3) ok_index_below[OF ok]
      unfolding recompute_index[OF ok st fresh] recompute_Some(3)[OF st fresh] by fastforce
  qed
qed

text \<open>Every agent hunk of the file is indexed afterwards.\<close>

lemma recompute_complete [keeps]:
  assumes ok: "ok_except {p} t" and c: "complete (h_id ` set (hunks_at t p)) t"
  shows "complete {} (recompute_hunks E p c' src t)"
proof (cases "file_state_of t p")
  case None
  then show ?thesis using c by (simp add: recompute_None hunks_at_def)
next
  case st: (Some st)
  obtain fresh n where fresh: "fresh_hunks E p c' src t = (fresh, n)" by force
  show ?thesis
  proof (rule completeI)
    fix q u h i
    assume u: "file_state_of (recompute_hunks E p c' src t) q = Some u" "h \<in> set (fs_hunks u)"
      and i: "prompt_index (h_source h) = Some i"
    show "h_id h \<in> indexed_ids (tk_turn_index (recompute_hunks E p c' src t)) i"
    proof (rule recompute_hunk_cases[OF st fresh u])
      assume "q = p" "h \<in> set (claim_ids (fs_hunks st) [] fresh)"
      then show ?thesis using i unfolding recompute_index[OF ok st fresh] by blast
    next
      assume q: "q \<noteq> p" and u': "file_state_of t q = Some u"
      have apart: "h_id g \<noteq> h_id h" if "g \<in> set (fs_hunks st)" for g
        using ok_apart[OF ok st u' q[symmetric] that u(2)] .
      have "h_id h \<in> indexed_ids (tk_turn_index t) i"
        by (rule completeD[OF c u' u(2) _ i]) (use apart in \<open>force simp: st\<close>)
      then show ?thesis using apart unfolding recompute_index[OF ok st fresh] by fastforce
    qed
  qed
qed

end
