(* ===== verification/Hunk_Safety.thy ===== *)
theory Hunk_Safety
  imports Hunk_Commands Hunk_Invariant
begin

text \<open>
  Every command keeps the invariant of the tracker, and, as long as no file operation
  fails, the completeness of the turn index. The flag \<open>b\<close> says whether completeness is
  part of the invariant.
\<close>

section \<open>The two invariants together\<close>

definition io_ok :: "env \<Rightarrow> bool" where
  "io_ok E \<longleftrightarrow> (\<forall>p. ev_write_error E p = None \<and> ev_delete_error E p = None)"

definition kept :: "bool \<Rightarrow> hunk_id set \<Rightarrow> tracker \<Rightarrow> bool" where
  "kept b S t \<longleftrightarrow> tracker_ok t \<and> (b \<longrightarrow> complete S t)"

definition dirty :: "bool \<Rightarrow> path \<Rightarrow> tracker \<Rightarrow> bool" where
  "dirty b p t \<longleftrightarrow> ok_except {p} t \<and> (b \<longrightarrow> complete (h_id ` set (hunks_at t p)) t)"

lemma kept_ok: "kept b S t \<Longrightarrow> tracker_ok t"
  by (simp add: kept_def)

lemma kept_frame [simp]:
  "kept b S (send_event e t) = kept b S t" "kept b S (send_events es t) = kept b S t"
  "kept b S (write_disk p s t) = kept b S t" "kept b S (remove_disk p t) = kept b S t"
  by (simp_all add: kept_def)

lemma kept_cong:
  "tk_file_states t = tk_file_states u \<Longrightarrow> tk_turn_index t = tk_turn_index u \<Longrightarrow>
   tk_next_id t = tk_next_id u \<Longrightarrow> kept b S t = kept b S u"
  using ok_except_cong complete_cong unfolding kept_def by blast

lemma kept_cache [simp]: "kept b S (cache_repo d t) = kept b S t"
  by (rule kept_cong) simp_all

lemma hunks_at_frame [simp]:
  "hunks_at (send_event e t) q = hunks_at t q" "hunks_at (send_events es t) q = hunks_at t q"
  "hunks_at (write_disk p s t) q = hunks_at t q" "hunks_at (remove_disk p t) q = hunks_at t q"
  "hunks_at (put_file p st t) q = (if q = p then fs_hunks st else hunks_at t q)"
  by (simp_all add: hunks_at_def file_state_of_def shape)

lemma dirty_frame [simp]:
  "dirty b q (send_event e t) = dirty b q t" "dirty b q (send_events es t) = dirty b q t"
  "dirty b q (write_disk p s t) = dirty b q t" "dirty b q (remove_disk p t) = dirty b q t"
  by (simp_all add: dirty_def)

lemma kept_dirty: "kept b {} t \<Longrightarrow> dirty b p t"
  unfolding kept_def dirty_def by (blast intro: ok_except_mono complete_mono)

lemma kept_recompute [keeps]: "dirty b p t \<Longrightarrow> kept b {} (recompute_hunks E p c src t)"
  unfolding kept_def dirty_def by (blast intro: recompute_ok recompute_complete)

lemma kept_put_file [keeps]:
  "kept b S t \<Longrightarrow> set (fs_hunks st) \<subseteq> set (hunks_at t p) \<Longrightarrow> file_ok p st \<Longrightarrow> kept b S (put_file p st t)"
  unfolding kept_def by (blast intro: ok_put_file complete_put_file)

lemma dirty_put_file [keeps]:
  assumes "kept b {} t" "set (fs_hunks st) \<subseteq> set (hunks_at t p)"
  shows "dirty b p (put_file p st t)"
  using assms ok_put_file[of "{p}" t st p] complete_put_file[of "{}" t st p]
    ok_except_mono[of "{}" t "{p}"] complete_mono[of "{}" "put_file p st t"]
  unfolding kept_def dirty_def by blast

text \<open>Files without hunks are well formed.\<close>

lemma file_ok_no_hunks [simp]: "fs_hunks st = [] \<Longrightarrow> file_ok p st"
  by (simp add: file_ok_def)

section \<open>Forgetting hunks\<close>

lemma supersede_shape [shape]:
  "tk_file_states (supersede_hunks p hs t) = tk_file_states t"
  "tk_next_id (supersede_hunks p hs t) = tk_next_id t"
  "tk_disk (supersede_hunks p hs t) = tk_disk t"
  "tk_mode (supersede_hunks p hs t) = tk_mode t"
  "tk_stats (supersede_hunks p hs t) = tk_stats t"
  "tk_turn_index (supersede_hunks p hs t) = fold unindex_hunk hs (tk_turn_index t)"
  "tk_events (supersede_hunks p hs t) = tk_events t @ removed_for p Superseded hs"
  by (induction hs arbitrary: t)
    (auto simp: supersede_hunks_def send_event_def removed_for_def)

lemma ok_smaller_index:
  assumes ok: "ok_except X t" and files: "tk_file_states u = tk_file_states t"
    and "next": "tk_next_id u = tk_next_id t"
    and sub: "\<And>i. indexed_ids (tk_turn_index u) i \<subseteq> indexed_ids (tk_turn_index t) i"
  shows "ok_except X u"
proof -
  have f: "file_state_of u = file_state_of t" by (rule ext) (simp add: file_state_of_def files)
  show ?thesis
    by (rule ok_exceptI, unfold f files "next")
      (use ok_keys[OF ok] ok_file[OF ok] ok_apart[OF ok] ok_index[OF ok] ok_below[OF ok]
        ok_index_below[OF ok] sub in \<open>blast+\<close>)
qed

lemma ok_supersede: "ok_except X t \<Longrightarrow> ok_except X (supersede_hunks p hs t)"
  by (rule ok_smaller_index) (auto simp: shape unindexed_fold)

text \<open>No tracked file holds a hunk with one of the ids.\<close>

definition ids_gone :: "hunk_id set \<Rightarrow> tracker \<Rightarrow> bool" where
  "ids_gone S t \<longleftrightarrow> (\<forall>p u h. file_state_of t p = Some u \<longrightarrow> h \<in> set (fs_hunks u) \<longrightarrow> h_id h \<notin> S)"

lemma complete_gone: "complete S t \<Longrightarrow> ids_gone S t \<Longrightarrow> complete {} t"
  unfolding complete_def ids_gone_def by blast

lemma complete_supersede:
  assumes c: "complete {} t" and gone: "ids_gone (h_id ` set hs) t"
  shows "complete {} (supersede_hunks p hs t)"
proof (rule completeI)
  fix q u h i
  assume a: "file_state_of (supersede_hunks p hs t) q = Some u" "h \<in> set (fs_hunks u)"
    "h_id h \<notin> {}" "prompt_index (h_source h) = Some i"
  then have u: "file_state_of t q = Some u" by (simp add: file_state_of_def shape)
  have "h_id h \<in> indexed_ids (tk_turn_index t) i" by (rule completeD[OF c u a(2-4)])
  moreover have "h_id h \<notin> h_id ` set hs" using gone u a(2) unfolding ids_gone_def by blast
  ultimately show "h_id h \<in> indexed_ids (tk_turn_index (supersede_hunks p hs t)) i"
    by (auto simp: shape unindexed_fold)
qed

lemma gone_put_file:
  assumes ok: "tracker_ok t" and st: "file_state_of t p = Some st" and S: "S \<subseteq> hunk_ids st"
    and dis: "\<And>h. h \<in> set (fs_hunks st') \<Longrightarrow> h_id h \<notin> S"
  shows "ids_gone S (put_file p st' t)"
  unfolding ids_gone_def
proof (intro allI impI)
  fix q u h assume a: "file_state_of (put_file p st' t) q = Some u" "h \<in> set (fs_hunks u)"
  show "h_id h \<notin> S"
  proof (cases "q = p")
    case True
    then show ?thesis using a dis by (simp add: shape)
  next
    case False
    then show ?thesis
      using a S ok_apart[OF ok st _ False[symmetric] _ a(2)] by (fastforce simp: shape)
  qed
qed

lemma gone_drop_file:
  assumes ok: "tracker_ok t" and st: "file_state_of t p = Some st"
  shows "ids_gone (hunk_ids st) (drop_file p t)"
  unfolding ids_gone_def
proof (intro allI impI)
  fix q u h assume a: "file_state_of (drop_file p t) q = Some u" "h \<in> set (fs_hunks u)"
  then have "q \<noteq> p" "file_state_of t q = Some u" by (auto simp: shape split: if_splits)
  then show "h_id h \<notin> hunk_ids st" using ok_apart[OF ok st _ _ _ a(2)] by fastforce
qed

lemma kept_clear [keeps]:
  assumes k: "kept b {} t" and st: "file_state_of t p = Some st" and "fs_hunks st' = []"
  shows "kept b {} (supersede_hunks p (fs_hunks st) (put_file p st' t))"
proof -
  have "kept b {} (put_file p st' t)" by (rule kept_put_file[OF k]) (use assms(3) in simp_all)
  moreover have "ids_gone (hunk_ids st) (put_file p st' t)"
    by (rule gone_put_file[OF kept_ok[OF k] st]) (use assms(3) in simp_all)
  ultimately show ?thesis unfolding kept_def by (blast intro: ok_supersede complete_supersede)
qed

lemma kept_drop [keeps]:
  assumes k: "kept b {} t" and st: "file_state_of t p = Some st"
  shows "kept b {} (supersede_hunks p (fs_hunks st) (drop_file p t))"
  using k gone_drop_file[OF kept_ok[OF k] st] unfolding kept_def
  by (blast intro: ok_supersede complete_supersede ok_drop_file complete_drop_file)

section \<open>File changes keep the invariant\<close>

lemma kept_read_baseline [keeps]: "kept b S t \<Longrightarrow> kept b S (snd (read_baseline E p t))"
  using read_baseline_cached[of E p t] by auto

lemma kept_read_baselines [keeps]: "kept b S t \<Longrightarrow> kept b S (snd (read_baselines_batch E ps t))"
  using read_baselines_batch_cached[of E ps t] by auto

lemma kept_preloaded [keeps]: "kept b S t \<Longrightarrow> kept b S (snd (preloaded_or_read E pre p t))"
  by (simp add: preloaded_or_read_def kept_read_baseline split: option.splits)

lemma file_state_of_read [simp]:
  "file_state_of (snd (read_baseline E p t)) q = file_state_of t q"
  "file_state_of (snd (preloaded_or_read E pre p t)) q = file_state_of t q"
  using read_baseline_cached[of E p t]
  by (auto simp: preloaded_or_read_def file_state_of_def split: option.splits)

lemma read_pair:
  "read_baseline E p t = (c, u) \<Longrightarrow> kept b S t \<Longrightarrow> kept b S u"
  "preloaded_or_read E pre p t = (c, u) \<Longrightarrow> kept b S t \<Longrightarrow> kept b S u"
  "read_baseline E p t = (c, u) \<Longrightarrow> file_state_of u q = file_state_of t q"
  "preloaded_or_read E pre p t = (c, u) \<Longrightarrow> file_state_of u q = file_state_of t q"
  using kept_read_baseline[of b S t E p] kept_preloaded[of b S t E pre p]
    file_state_of_read(1)[of E p t q] file_state_of_read(2)[of E pre p t q] by auto

lemma new_file_hunks [simp]: "fs_hunks (new_file bl c ag) = []"
  by (simp add: new_file_def)

lemma kept_record_agent_write [keeps]:
  assumes k: "kept b {} t"
  shows "kept b {} (record_agent_write E p content prompt previous t)"
proof -
  have diffable: "kept b {} (recompute_hunks E p c src t1)" if "dirty b p t1" for c src t1
    using that by (rule kept_recompute)
  have keep: "set (fs_hunks st) \<subseteq> set (hunks_at t p)" if "file_state_of t p = Some st" for st
    using that by simp
  show ?thesis
    using k keep
    by (auto simp: record_agent_write_def Let_def split: option.splits prod.splits if_splits
        intro!: kept_put_file kept_recompute dirty_put_file dest: read_pair(1))
qed

lemma kept_process_change [keeps]:
  assumes k: "kept b {} t"
  shows "kept b {} (process_file_change E p pre t)"
  using k
  by (auto simp: process_file_change_def Let_def split: option.splits prod.splits if_splits
      intro!: kept_put_file kept_recompute dirty_put_file kept_dirty dest: read_pair(1,2))

lemma kept_file_change [keeps]: "kept b {} t \<Longrightarrow> kept b {} (handle_file_change E p t)"
  by (simp add: handle_file_change_def kept_process_change)

lemma kept_process_changes [keeps]: "kept b {} t \<Longrightarrow> kept b {} (process_changes E bls ps t)"
  by (induction E bls ps t rule: process_changes.induct) (auto intro: kept_process_change)

lemma kept_changes_batch [keeps]: "kept b {} t \<Longrightarrow> kept b {} (handle_file_changes_batch E ps t)"
  using kept_read_baselines[of b "{}" t E "filter (needs_baseline t) ps"]
  by (auto simp: handle_file_changes_batch_def Let_def split: prod.splits intro!: kept_process_changes)

lemma kept_file_deleted [keeps]:
  assumes k: "kept b {} t"
  shows "kept b {} (handle_file_deleted E p t)"
  using k kept_dirty[OF k]
  by (auto simp: handle_file_deleted_def Let_def split: prod.splits
      intro!: kept_recompute dirty_put_file kept_file_change dest: read_pair(1))

lemma kept_reset_baseline [keeps]: "kept b {} t \<Longrightarrow> kept b {} (reset_baseline p t)"
  by (auto simp: reset_baseline_def split: option.splits intro!: kept_clear)

lemma kept_fold [keeps]:
  "(\<And>x t. kept b S t \<Longrightarrow> kept b S (f x t)) \<Longrightarrow> kept b S t \<Longrightarrow> kept b S (fold f xs t)"
  by (induction xs arbitrary: t) auto

lemma kept_caches [simp]:
  "kept b S (t\<lparr>tk_dirty_cache := d\<rparr>) = kept b S t" "kept b S (t\<lparr>tk_staged_cache := d\<rparr>) = kept b S t"
  "kept b S (t\<lparr>tk_sync_state := y\<rparr>) = kept b S t" "kept b S (t\<lparr>tk_mode := m\<rparr>) = kept b S t"
  "kept b S (t\<lparr>tk_stats := z\<rparr>) = kept b S t" "kept b S (t\<lparr>tk_disk := dk\<rparr>) = kept b S t"
  by (rule kept_cong; simp)+

lemma kept_dirty_cache [keeps]:
  assumes k: "kept b {} t"
  shows "kept b {} (refresh_git_dirty_cache E scope t)"
proof -
  obtain d s u where u: "scan_status E scope t = (d, s, u)" by (metis prod_cases3)
  obtain r where "u = cache_repo r t" using scan_status_cached[of E scope t] u by auto
  with k have "kept b {} u" by simp
  then show ?thesis
    using k by (auto simp: refresh_git_dirty_cache_def u Let_def intro!: kept_fold kept_file_change)
qed

lemma kept_refresh_file [keeps]:
  assumes k: "kept b {} t"
  shows "kept b {} (refresh_file E bls cs p t)"
proof (cases "file_state_of t p")
  case (Some st)
  then show ?thesis
    using k by (auto simp: refresh_file_def Let_def intro!: kept_clear[OF k Some] kept_drop[OF k Some]
        kept_recompute dirty_put_file)
qed (use k in \<open>simp add: refresh_file_def Let_def\<close>)

lemma kept_refresh_files [keeps]:
  assumes k: "kept b {} t"
  shows "kept b {} (refresh_files E skip t)"
  using k kept_read_baselines[OF k, of E "filter (\<lambda>p. p \<notin> set skip) (map fst (tk_file_states t))"]
  by (auto simp: refresh_files_def Let_def split: prod.splits intro!: kept_fold kept_refresh_file)

lemma kept_refresh_caches [keeps]: "kept b {} t \<Longrightarrow> kept b {} (refresh_caches E t)"
  by (simp add: refresh_caches_def kept_dirty_cache)

lemma kept_refresh_all [keeps]:
  assumes k: "kept b {} t"
  shows "kept b {} (refresh_all_baselines_except E skip t)"
proof -
  obtain y u where u: "read_repo_sync_state E t = (y, u)" by force
  obtain r where "u = cache_repo r t" using read_repo_sync_state_cached[of E t] u by auto
  with k have "kept b {} u" by simp
  then show ?thesis
    using k by (auto simp: refresh_all_baselines_except_def u split: option.splits
        intro!: kept_refresh_files kept_refresh_caches)
qed

lemma kept_stop_tracking [keeps]: "kept b {} t \<Longrightarrow> kept b {} (stop_tracking p t)"
  by (auto simp: stop_tracking_def split: option.splits intro!: kept_drop)

lemma kept_set_mode [keeps]: "kept b {} t \<Longrightarrow> kept b {} (set_mode E m t)"
  by (auto simp: set_mode_def Let_def intro!: kept_fold kept_stop_tracking kept_dirty_cache)

section \<open>Actions keep the invariant\<close>

lemma settle_shape [shape]:
  "tk_file_states (settle_hunk a h t) = tk_file_states t"
  "tk_next_id (settle_hunk a h t) = tk_next_id t"
  "tk_disk (settle_hunk a h t) = tk_disk t"
  "tk_events (settle_hunk a h t) = tk_events t"
  "tk_stats (settle_hunk a h t) = update_session_stats (h_line_info h) (a = Accept) (tk_stats t)"
  "tk_turn_index (settle_hunk a h t) = remove_from_turn_index (h_id h) (h_source h) (tk_turn_index t)"
  by (simp_all add: settle_hunk_def)

lemma indexed_settle:
  "indexed_ids (remove_from_turn_index j src ti) i =
   (if prompt_index src = Some i then indexed_ids ti i - {j} else indexed_ids ti i)"
  by (auto simp: remove_from_turn_index_def split: option.splits)

lemma kept_settle [keeps]:
  assumes "kept b S t"
  shows "kept b (insert (h_id h) S) (settle_hunk a h t)"
proof -
  have "tracker_ok (settle_hunk a h t)"
    by (rule ok_smaller_index[OF kept_ok[OF assms]]) (auto simp: shape indexed_settle)
  moreover have "complete (insert (h_id h) S) (settle_hunk a h t)" if c: "complete S t"
  proof (rule completeI)
    fix p st g i
    assume a: "file_state_of (settle_hunk a h t) p = Some st" "g \<in> set (fs_hunks st)"
      "h_id g \<notin> insert (h_id h) S" "prompt_index (h_source g) = Some i"
    then have "file_state_of t p = Some st" "h_id g \<notin> S" by (auto simp: file_state_of_def shape)
    from completeD[OF c this(1) a(2) this(2) a(4)]
    show "h_id g \<in> indexed_ids (tk_turn_index (settle_hunk a h t)) i"
      using a(3) by (auto simp: shape indexed_settle)
  qed
  ultimately show ?thesis using assms by (simp add: kept_def)
qed

lemma fold_settle_shape [shape]:
  "tk_file_states (fold (settle_hunk a) hs t) = tk_file_states t"
  "tk_disk (fold (settle_hunk a) hs t) = tk_disk t"
  "tk_events (fold (settle_hunk a) hs t) = tk_events t"
  "tk_next_id (fold (settle_hunk a) hs t) = tk_next_id t"
  by (induction hs arbitrary: t) (simp_all add: shape)

lemma kept_fold_settle [keeps]:
  "kept b S t \<Longrightarrow> kept b (h_id ` set hs \<union> S) (fold (settle_hunk a) hs t)"
proof (induction hs arbitrary: S t)
  case (Cons h hs)
  from Cons.IH[OF kept_settle[OF Cons.prems]] show ?case by (simp add: insert_commute)
qed simp

text \<open>Retaining the hunks outside \<open>ids\<close> removes the ones just settled.\<close>

lemma retain_subset: "set (retain_not ids hs) \<subseteq> set hs"
  by (auto simp: retain_not_def)

lemma file_ok_retain:
  assumes "file_ok p st" "fs_hunks st' = retain_not ids (fs_hunks st)"
    and "patchable (fs_baseline st') (fs_current st')" "fs_baseline st' \<noteq> Missing"
  shows "file_ok p st'"
  using assms by (auto simp: file_ok_def retain_not_def distinct_map_filterI)

lemma kept_retain:
  assumes k: "kept b S t" and st: "file_state_of t p = Some st" and S: "S \<subseteq> hunk_ids st"
    and h: "fs_hunks st' = retain_not ids (fs_hunks st)" "S \<subseteq> set ids" and ok: "file_ok p st'"
  shows "kept b {} (put_file p st' t)"
proof -
  have sub: "set (fs_hunks st') \<subseteq> set (hunks_at t p)"
    using h(1) retain_subset by (simp add: st)
  have "kept b S (put_file p st' t)" by (rule kept_put_file[OF k sub ok])
  moreover have "ids_gone S (put_file p st' t)"
    by (rule gone_put_file[OF kept_ok[OF k] st S]) (use h in \<open>auto simp: retain_not_def\<close>)
  ultimately show ?thesis unfolding kept_def by (blast intro: complete_gone)
qed

lemma dirty_retain:
  assumes k: "kept b S t" and st: "file_state_of t p = Some st" and S: "S \<subseteq> hunk_ids st"
    and h: "fs_hunks st' = retain_not ids (fs_hunks st)" "S \<subseteq> set ids"
  shows "dirty b p (put_file p st' t)"
proof -
  have sub: "set (fs_hunks st') \<subseteq> set (hunks_at t p)"
    using h(1) retain_subset by (simp add: st)
  have "ok_except {p} (put_file p st' t)"
    by (rule ok_put_file[OF ok_except_mono[OF kept_ok[OF k]] sub]) simp_all
  moreover have "ids_gone S (put_file p st' t)"
    by (rule gone_put_file[OF kept_ok[OF k] st S]) (use h in \<open>auto simp: retain_not_def\<close>)
  ultimately show ?thesis
    using k complete_put_file[OF _ sub, of S] unfolding kept_def dirty_def
    by (blast intro: complete_mono complete_gone)
qed

text \<open>Acting on one hunk is acting on a batch of one.\<close>

lemma desc_single [simp]: "by_old_start_desc [h] = [h]" "by_new_start_desc [h] = [h]"
  by (simp_all add: by_old_start_desc_def by_new_start_desc_def)

lemma accept_one_batch: "accept_hunk E p h t = accept_hunks_batch E p [h] t"
proof (cases "file_state_of t p")
  case (Some st)
  then show ?thesis
    by (cases "fs_baseline st")
      (simp_all add: accept_hunk_def accept_hunks_batch_def removed_for_def Let_def)
qed (simp add: accept_hunk_def accept_hunks_batch_def)

lemma reject_one_batch: "reject_hunk E p h t = reject_hunks_batch E p [h] t"
proof (cases "file_state_of t p")
  case (Some st)
  then show ?thesis
    by (cases "fs_current st"; cases "fs_baseline st")
      (simp_all add: reject_hunk_def reject_hunks_batch_def finish_reject_def finish_reject_batch_def
        send_event_def send_events_def removed_for_def Let_def split: prod.splits sum.splits option.splits)
qed (simp add: reject_hunk_def reject_hunks_batch_def)

lemma kept_accept_batch:
  assumes k: "kept b (h_id ` set hs) t" and st: "file_state_of t p = Some st"
    and hs: "hs \<noteq> []" "set hs \<subseteq> set (fs_hunks st)"
  shows "kept b {} (fst (accept_hunks_batch E p hs t))"
proof (cases "fs_baseline st = Missing")
  case True
  have f: "file_ok p st" using ok_file[OF kept_ok[OF k] st] by simp
  moreover have "fs_hunks st \<noteq> []" using hs by auto
  ultimately obtain c where "fs_current st = Full c"
    using True by (cases "fs_current st") (auto simp: file_ok_def)
  with f have "file_ok p (st\<lparr>fs_baseline := fs_current st, fs_baseline_accepted := True,
      fs_hunks := retain_not (map h_id hs) (fs_hunks st)\<rparr>)"
    by (rule_tac file_ok_retain) simp_all
  then show ?thesis
    using hs True st
    by (auto simp: accept_hunks_batch_def Let_def intro!: kept_retain[OF k st, where ids = "map h_id hs"])
next
  case False
  have S: "h_id ` set hs \<subseteq> hunk_ids st" using hs by blast
  show ?thesis
    using hs st False
    by (auto simp: accept_hunks_batch_def Let_def
        intro!: kept_recompute dirty_retain[OF k st S, where ids = "map h_id hs"])
qed

lemma finish_reject_batch_Some:
  "file_state_of t p = Some st \<Longrightarrow> finish_reject_batch p hs c t =
   send_events (removed_for p Rejected hs)
     (put_file p (st\<lparr>fs_current := c, fs_hunks := retain_not (map h_id hs) (fs_hunks st)\<rparr>) t)"
  by (simp add: finish_reject_batch_def)

lemma kept_fs_write:
  "fs_write E p s t = (u, r) \<Longrightarrow>
   tk_file_states u = tk_file_states t \<and> kept b S u = kept b S t \<and> (io_ok E \<longrightarrow> r = Inr ())"
  by (auto simp: fs_write_def io_ok_def shape split: option.splits)

lemma kept_fs_remove:
  "fs_remove E p t = (u, r) \<Longrightarrow>
   tk_file_states u = tk_file_states t \<and> kept b S u = kept b S t \<and> (io_ok E \<longrightarrow> r = Inr ())"
  by (auto simp: fs_remove_def io_ok_def shape split: option.splits)

lemma kept_finish_reject:
  assumes k: "kept b (h_id ` set hs) t" and st: "file_state_of t p = Some st"
    and hs: "hs \<noteq> []" "set hs \<subseteq> set (fs_hunks st)"
  shows "fs_current st = Missing \<Longrightarrow> fs_baseline st = Full x \<Longrightarrow>
           kept b {} (finish_reject_batch p hs (Full x) t)"
    and "fs_baseline st = Missing \<Longrightarrow> kept b {} (finish_reject_batch p hs Missing t)"
    and "dirty b p (finish_reject_batch p hs c t)"
proof -
  have f: "file_ok p st" using ok_file[OF kept_ok[OF k] st] by simp
  have S: "h_id ` set hs \<subseteq> hunk_ids st" using hs by blast
  show "kept b {} (finish_reject_batch p hs (Full x) t)"
    if "fs_current st = Missing" "fs_baseline st = Full x"
    using that by (auto simp: finish_reject_batch_Some[OF st]
        intro!: kept_retain[OF k st S, where ids = "map h_id hs"] file_ok_retain[OF f])
  show "kept b {} (finish_reject_batch p hs Missing t)" if "fs_baseline st = Missing"
  proof -
    have "length (fs_hunks st) \<le> 1" using f that by (simp add: file_ok_def)
    then have "retain_not (map h_id hs) (fs_hunks st) = []"
      using hs by (cases "fs_hunks st"; cases hs) (auto simp: retain_not_def)
    then show ?thesis
      by (auto simp: finish_reject_batch_Some[OF st]
          intro!: kept_retain[OF k st S, where ids = "map h_id hs"])
  qed
  show "dirty b p (finish_reject_batch p hs c t)"
    by (auto simp: finish_reject_batch_Some[OF st]
        intro!: dirty_retain[OF k st S, where ids = "map h_id hs"])
qed

lemma kept_reject_batch:
  assumes k: "kept b (h_id ` set hs) t" and st: "file_state_of t p = Some st"
    and hs: "hs \<noteq> []" "set hs \<subseteq> set (fs_hunks st)" and io: "b \<longrightarrow> io_ok E"
  shows "kept b {} (fst (reject_hunks_batch E p hs t))"
proof -
  have "fs_hunks st \<noteq> []" using hs by auto
  then have pat: "patchable (fs_baseline st) (fs_current st)"
    using ok_file[OF kept_ok[OF k] st] by (simp add: file_ok_def)
  have weak: "kept b S u \<Longrightarrow> kept b {} u" if "\<not> b" for S u
    using that by (simp add: kept_def)
  have carry: "kept b (h_id ` set hs) u \<and> file_state_of u p = Some st \<and> (b \<longrightarrow> r = Inr ())"
    if "fs_write E p s t = (u, r) \<or> fs_remove E p t = (u, r)" for s u r
    using that kept_fs_write[of E p s t u r] kept_fs_remove[of E p t u r] k st io
    unfolding file_state_of_def by metis
  show ?thesis
  proof (cases "fs_current st")
    case Missing
    then obtain x where x: "fs_baseline st = Full x" using pat by (cases "fs_baseline st") auto
    obtain u r where u: "fs_write E p x t = (u, r)" by force
    note c = carry[OF disjI1[OF u]]
    then show ?thesis
      using hs st Missing x u weak kept_finish_reject(1)[OF _ _ hs, of b u p x] c
      by (cases r) (auto simp: reject_hunks_batch_def)
  next
    case (Full y)
    show ?thesis
    proof (cases "fs_baseline st")
      case Missing
      obtain u r where u: "fs_remove E p t = (u, r)" by force
      note c = carry[OF disjI2[OF u]]
      show ?thesis
        using hs st Missing Full u weak kept_finish_reject(2)[OF _ _ hs, of b u p] c
        by (cases r) (auto simp: reject_hunks_batch_def)
    next
      case (Full z)
      obtain u r where u: "fs_write E p (fold (\<lambda>h c. patch_lines c (new_start (h_line_info h))
          (new_count (h_line_info h)) (case h_old_text h of None \<Rightarrow> [] | Some x \<Rightarrow> x))
          (by_new_start_desc hs) y) t = (u, r)" by force
      note c = carry[OF disjI1[OF u]]
      show ?thesis
        using hs st Full \<open>fs_current st = Full y\<close> u weak kept_finish_reject(3)[OF _ _ hs, of b u p] c
        by (cases r) (auto simp: reject_hunks_batch_def Let_def intro!: kept_recompute)
    qed (use pat Full in simp_all)
  qed (use pat in \<open>cases "fs_baseline st"; simp\<close>)+
qed

text \<open>A batch touches only its own file.\<close>

lemma recompute_other: "q \<noteq> p \<Longrightarrow> file_state_of (recompute_hunks E p c src t) q = file_state_of t q"
  by (cases "file_state_of t p"; cases "fresh_hunks E p c src t")
    (auto simp: recompute_None recompute_files)

lemma frame_files [simp]:
  "file_state_of (send_events es t) q = file_state_of t q"
  "file_state_of (send_event e t) q = file_state_of t q"
  by (simp_all add: file_state_of_def shape)

lemma accept_batch_other: "q \<noteq> p \<Longrightarrow> file_state_of (fst (accept_hunks_batch E p hs t)) q = file_state_of t q"
  by (auto simp: accept_hunks_batch_def Let_def recompute_other shape split: option.splits)

lemma finish_reject_other: "q \<noteq> p \<Longrightarrow> file_state_of (finish_reject_batch p hs c t) q = file_state_of t q"
  by (auto simp: finish_reject_batch_def shape split: option.splits)

lemma fs_files:
  "fs_write E p s t = (u, r) \<Longrightarrow> file_state_of u q = file_state_of t q"
  "fs_remove E p t = (u, r) \<Longrightarrow> file_state_of u q = file_state_of t q"
  by (auto simp: fs_write_def fs_remove_def file_state_of_def shape split: option.splits)

lemma reject_batch_other:
  assumes "q \<noteq> p"
  shows "file_state_of (fst (reject_hunks_batch E p hs t)) q = file_state_of t q"
proof (cases "hs = [] \<or> file_state_of t p = None")
  case False
  then obtain st where "file_state_of t p = Some st" by auto
  then show ?thesis
    using False assms
    by (cases "fs_current st"; cases "fs_baseline st")
      (auto simp: reject_hunks_batch_def Let_def recompute_other finish_reject_other
        split: prod.splits sum.splits dest: fs_files[where q = q])
qed (auto simp: reject_hunks_batch_def)

definition batch_ready :: "(path \<times> hunk list) list \<Rightarrow> tracker \<Rightarrow> bool" where
  "batch_ready files t \<longleftrightarrow>
     distinct (map fst files) \<and>
     (\<forall>(p, hs) \<in> set files. hs \<noteq> [] \<and> set hs \<subseteq> set (hunks_at t p))"

lemma kept_action_batch [keeps]:
  "kept b {} t \<Longrightarrow> batch_ready files t \<Longrightarrow> b \<longrightarrow> io_ok E \<Longrightarrow>
   kept b {} (fst (apply_action_batch E files a t))"
proof (induction files arbitrary: t)
  case (Cons f files)
  obtain p hs where f: "f = (p, hs)" by force
  define t1 where "t1 = fold (settle_hunk a) hs t"
  define res where "res = (case a of Accept \<Rightarrow> accept_hunks_batch E p hs t1
                                   | Reject \<Rightarrow> reject_hunks_batch E p hs t1)"
  have ready: "hs \<noteq> []" "set hs \<subseteq> set (hunks_at t p)"
    using Cons.prems(2) by (auto simp: batch_ready_def f)
  then obtain st where st: "file_state_of t p = Some st" by (cases "file_state_of t p") (auto simp: hunks_at_def)
  have k1: "kept b (h_id ` set hs) t1"
    using kept_fold_settle[OF Cons.prems(1), of hs a] by (simp add: t1_def)
  have st1: "file_state_of t1 q = file_state_of t q" for q
    by (simp add: t1_def file_state_of_def shape)
  have k2: "kept b {} (fst res)"
    using kept_accept_batch[OF k1, of p st E] kept_reject_batch[OF k1, of p st E] st st1 ready Cons.prems(3)
    by (simp add: res_def split: hunk_action.splits)
  have other: "file_state_of (fst res) q = file_state_of t q" if "q \<noteq> p" for q
    using that by (simp add: res_def accept_batch_other reject_batch_other st1 split: hunk_action.splits)
  have rest: "distinct (map fst files)" "p \<notin> fst ` set files"
    "\<And>q gs. (q, gs) \<in> set files \<Longrightarrow> gs \<noteq> [] \<and> set gs \<subseteq> set (hunks_at t q)"
    using Cons.prems(2) by (auto simp: batch_ready_def f)
  have "gs \<noteq> [] \<and> set gs \<subseteq> set (hunks_at (fst res) q)" if "(q, gs) \<in> set files" for q gs
  proof -
    have "q \<noteq> p" using that rest(2) by force
    then have "hunks_at (fst res) q = hunks_at t q" using other by (simp add: hunks_at_def)
    then show ?thesis using rest(3)[OF that] by simp
  qed
  then have "batch_ready files (fst res)"
    using rest(1) by (auto simp: batch_ready_def)
  from Cons.IH[OF k2 this Cons.prems(3)] have IH: "kept b {} (fst (apply_action_batch E files a (fst res)))" .
  have unf: "apply_action_batch E (f # files) a t =
      (case res of (t2, Inl e) \<Rightarrow> (t2, Inl e)
       | (t2, Inr _) \<Rightarrow> (case apply_action_batch E files a t2 of
             (t3, Inl e) \<Rightarrow> (t3, Inl e) | (t3, Inr ids) \<Rightarrow> (t3, Inr (map h_id hs @ ids))))"
    unfolding res_def t1_def f by (simp add: Let_def)
  obtain t2 r where r: "res = (t2, r)" by force
  obtain t3 r3 where r3: "apply_action_batch E files a t2 = (t3, r3)" by force
  show ?case
    using IH k2 unfolding unf r by (cases r; cases r3) (simp_all add: r3)
qed simp

lemma find_hunk_file_Some:
  "find_hunk_file i fss = Some (p, h) \<Longrightarrow> \<exists>st. (p, st) \<in> set fss \<and> h \<in> set (fs_hunks st) \<and> h_id h = i"
  by (induction i fss rule: find_hunk_file.induct) (auto split: option.splits dest: find_Some_in)

lemma in_files:
  "distinct_keys (tk_file_states t) \<Longrightarrow> (p, st) \<in> set (tk_file_states t) \<Longrightarrow> file_state_of t p = Some st"
  by (simp add: file_state_of_def)

lemma kept_hunk_action [keeps]:
  assumes k: "kept b {} t" and io: "b \<longrightarrow> io_ok E"
  shows "kept b {} (fst (apply_hunk_action E i a t))"
proof (cases "find_hunk_file i (tk_file_states t)")
  case (Some ph)
  obtain p h where ph: "ph = (p, h)" by force
  obtain st where h: "(p, st) \<in> set (tk_file_states t)" "h \<in> set (fs_hunks st)"
    using find_hunk_file_Some[of i "tk_file_states t" p h] Some ph by auto
  then have st: "file_state_of (settle_hunk a h t) p = Some st"
    using in_files[OF ok_keys[OF kept_ok[OF k]]] by (simp add: file_state_of_def shape)
  have "kept b (h_id ` set [h]) (settle_hunk a h t)"
    using kept_settle[OF k, of h a] by simp
  from kept_accept_batch[OF this st, of E] kept_reject_batch[OF this st, of E]
  show ?thesis
    using Some ph h io
    by (cases a) (simp_all add: apply_hunk_action_def accept_one_batch reject_one_batch Let_def)
qed (use k in \<open>simp add: apply_hunk_action_def\<close>)

lemma kept_file_action [keeps]:
  assumes k: "kept b {} t" and io: "b \<longrightarrow> io_ok E"
  shows "kept b {} (fst (apply_file_action E p a t))"
proof (cases "file_state_of t p")
  case (Some st)
  have "batch_ready [(p, fs_hunks st)] t" if "fs_hunks st \<noteq> []"
    using that by (simp add: batch_ready_def Some)
  then show ?thesis
    using k kept_action_batch[OF k _ io]
    by (simp add: apply_file_action_def Some del: apply_action_batch.simps)
qed (use k in \<open>simp add: apply_file_action_def\<close>)

lemma kept_all_action [keeps]:
  assumes k: "kept b {} t" and io: "b \<longrightarrow> io_ok E"
  shows "kept b {} (fst (apply_all_action E a t))"
proof -
  note keys = ok_keys[OF kept_ok[OF k]]
  let ?files = "map (\<lambda>(p, st). (p, fs_hunks st)) (filter (\<lambda>(p, st). fs_hunks st \<noteq> []) (tk_file_states t))"
  have "distinct_keys ?files" by (intro distinct_keys_map_pair distinct_keys_filter keys)
  then have "batch_ready ?files t"
    using in_files[OF keys] by (fastforce simp: batch_ready_def)
  then show ?thesis using k kept_action_batch[OF k _ io] by (simp add: apply_all_action_def Let_def)
qed

lemma kept_turn_action [keeps]:
  assumes k: "kept b {} t" and io: "b \<longrightarrow> io_ok E"
  shows "kept b {} (fst (apply_turn_action E i a t))"
proof -
  note keys = ok_keys[OF kept_ok[OF k]]
  let ?all = "map (\<lambda>(p, st). (p, turn_hunks i st)) (tk_file_states t)"
  have "distinct_keys (filter (\<lambda>(p, hs). hs \<noteq> []) ?all)"
    by (intro distinct_keys_map_pair distinct_keys_filter keys)
  then have "batch_ready (filter (\<lambda>(p, hs). hs \<noteq> []) ?all) t"
    using in_files[OF keys] by (fastforce simp: batch_ready_def turn_hunks_def)
  then show ?thesis using k kept_action_batch[OF k _ io] by (simp add: apply_turn_action_def Let_def)
qed

section \<open>Commands keep the invariant\<close>

text \<open>A snapshot that was taken of a well-formed tracker.\<close>

definition snapshot_ok :: "bool \<Rightarrow> snapshot \<Rightarrow> bool" where
  "snapshot_ok b sn \<longleftrightarrow>
     state_ok {} (sn_file_states sn) (sn_turn_index sn) \<and>
     (b \<longrightarrow> (\<forall>p st h i. map_of (sn_file_states sn) p = Some st \<longrightarrow> h \<in> set (fs_hunks st) \<longrightarrow>
        prompt_index (h_source h) = Some i \<longrightarrow> h_id h \<in> indexed_ids (sn_turn_index sn) i))"

fun command_ok :: "bool \<Rightarrow> command \<Rightarrow> bool" where
  "command_ok b (RestoreState sn) = snapshot_ok b sn"
| "command_ok b _ = True"

lemma restore_files:
  "state_ok {} (sn_file_states sn) ti \<Longrightarrow> tk_file_states (restore_snapshot sn t) = sn_file_states sn"
  by (simp add: restore_snapshot_def state_ok_def collect_map_distinct)

lemma index_ids_in: "j \<in> indexed_ids ti i \<Longrightarrow> j \<in> set (concat (map snd ti))"
proof (cases "map_of ti i")
  case (Some ids)
  then show "j \<in> indexed_ids ti i \<Longrightarrow> j \<in> set (concat (map snd ti))"
    using map_of_SomeD[OF Some] by (force simp: index_ids_def)
qed (simp add: index_ids_def)

lemma kept_restore [keeps]:
  assumes sn: "snapshot_ok b sn"
  shows "kept b {} (restore_snapshot sn t)"
proof -
  let ?n = "above_ids (tk_next_id t) (snapshot_ids sn)"
  have st: "state_ok {} (sn_file_states sn) (sn_turn_index sn)"
    using sn by (simp add: snapshot_ok_def)
  note files = restore_files[OF st, of t]
  have below: "\<forall>j \<in> set (snapshot_ids sn). j < ?n"
    using above_ids_bounds by blast
  have "ids_below ?n (sn_file_states sn)"
    unfolding ids_below_def
  proof (intro allI impI)
    fix p st h assume "map_of (sn_file_states sn) p = Some st" "h \<in> set (fs_hunks st)"
    then have "h_id h \<in> set (snapshot_ids sn)"
      unfolding snapshot_ids_def by (force dest: map_of_SomeD)
    then show "h_id h < ?n" using below by blast
  qed
  moreover have "index_below ?n (sn_turn_index sn)"
    using below index_ids_in unfolding index_below_def snapshot_ids_def by fastforce
  ultimately have "tracker_ok (restore_snapshot sn t)"
    using st files by (simp add: ok_except_def bounded_def restore_snapshot_def)
  moreover have "b \<longrightarrow> complete {} (restore_snapshot sn t)"
    using sn files by (simp add: snapshot_ok_def complete_def file_state_of_def restore_snapshot_def)
  ultimately show ?thesis by (simp add: kept_def)
qed

lemma kept_command [keeps]:
  assumes "kept b {} t" "command_ok b c" "b \<longrightarrow> io_ok E"
  shows "kept b {} (fst (handle_command E c t))"
  using assms
  by (cases c)
    (auto simp: refresh_all_baselines_def split: prod.splits
      intro: kept_record_agent_write kept_file_change kept_file_deleted kept_dirty_cache
        kept_reset_baseline kept_set_mode kept_refresh_all kept_restore
      dest: kept_hunk_action kept_file_action kept_all_action kept_turn_action
      dest!: arg_cong[of "_ :: tracker \<times> _" _ fst])

section \<open>Rounds keep the invariant\<close>

lemma kept_commands [keeps]:
  "kept b {} t \<Longrightarrow> list_all (command_ok b) cs \<Longrightarrow> b \<longrightarrow> io_ok E \<Longrightarrow>
   kept b {} (fst (handle_commands E cs t))"
proof (induction cs arbitrary: t)
  case (Cons c cs)
  obtain u r where u: "handle_command E c t = (u, r)" by force
  have "kept b {} u" using kept_command[OF Cons.prems(1) _ Cons.prems(3), of c] Cons.prems(2) u by simp
  then show ?case
    using Cons.IH[of u] Cons.prems u by (cases "handle_commands E cs u") simp
qed simp

lemma kept_pair_fold:
  "(\<And>x c t. kept b S t \<Longrightarrow> kept b S (snd (f x (c, t)))) \<Longrightarrow> kept b S (snd ct) \<Longrightarrow>
   kept b S (snd (fold f xs ct))"
proof (induction xs arbitrary: ct)
  case (Cons x xs)
  have "kept b S (snd (f x ct))" using Cons.prems(1)[of "snd ct" x "fst ct"] Cons.prems(2) by simp
  then show ?case using Cons.IH[OF Cons.prems(1)] by simp
qed simp

lemma kept_refresh_action: "kept b {} t \<Longrightarrow> kept b {} (snd (refresh_action E x (c, t)))"
  by (cases x; cases "snd x")
    (auto simp: refresh_action_def intro: kept_file_change kept_file_deleted)

lemma kept_plain_action: "kept b {} t \<Longrightarrow> kept b {} (snd (plain_action E x (c, t)))"
  by (cases x; cases "snd x") (auto simp: plain_action_def intro: kept_file_deleted)

lemma kept_batch_files [keeps]:
  assumes k: "kept b {} t"
  shows "kept b {} (batch_files E bt t)"
proof -
  define t1 where "t1 = (if bt_refresh_dirty bt \<and> \<not> bt_refresh_all bt
                         then refresh_git_dirty_cache E None t else t)"
  have k1: "kept b {} t1" using k by (simp add: t1_def kept_dirty_cache)
  have "kept b {} (snd (fold (refresh_action E) (bt_file_actions bt) ([], t1)))"
    "kept b {} (snd (fold (plain_action E) (bt_file_actions bt) ([], t1)))"
    by (rule kept_pair_fold; simp add: k1 kept_refresh_action kept_plain_action)+
  then show ?thesis
    unfolding batch_files_def t1_def[symmetric] Let_def
    by (auto split: prod.splits intro: kept_refresh_all kept_changes_batch)
qed

lemma add_command_other:
  "set (bt_other (add_command bt c)) \<subseteq> insert c (set (bt_other bt))"
  by (cases c) auto

lemma drain_other: "set (bt_other (drain_and_coalesce c cs)) \<subseteq> insert c (set cs)"
proof -
  have *: "set (bt_other (foldl add_command bt cs)) \<subseteq> set (bt_other bt) \<union> set cs" for bt
    by (induction cs arbitrary: bt) (use add_command_other in \<open>fastforce+\<close>)
  show ?thesis
    using *[of "add_command new_batch c"] add_command_other[of new_batch c]
    by (auto simp: drain_and_coalesce_def new_batch_def)
qed

lemma kept_round [keeps]:
  assumes k: "kept b {} t" and q: "list_all (command_ok b) q" and io: "b \<longrightarrow> io_ok E"
    and r: "actor_round E q t = (u, q', rs)"
  shows "kept b {} u" "list_all (command_ok b) q'"
proof -
  show "kept b {} u"
  proof (cases q)
    case (Cons c cs)
    have "list_all (command_ok b) (bt_other (drain_and_coalesce c cs))"
      using q drain_other[of c cs] by (auto simp: Cons list_all_iff)
    then show ?thesis
      using r q kept_commands[OF kept_batch_files[OF k, of E "drain_and_coalesce c cs"] _ io,
          of "bt_other (drain_and_coalesce c cs)"] kept_command[OF k _ io, of c]
      by (cases "handle_coalesced_batch E (drain_and_coalesce c cs) t"; cases "handle_command E c t")
        (auto simp: Cons handle_coalesced_batch_def dest: arg_cong[of _ _ fst] split: if_splits)
  qed (use k r in simp)
  show "list_all (command_ok b) q'"
    using r q by (cases q) (auto split: if_splits prod.splits)
qed

text \<open>The invariant of the actor: of its tracker and of what waits in its queue.\<close>

definition actor_inv :: "bool \<Rightarrow> actor \<Rightarrow> bool" where
  "actor_inv b a \<longleftrightarrow> kept b {} (ac_tracker a) \<and> list_all (command_ok b) (ac_queue a)"

fun input_ok :: "bool \<Rightarrow> actor_input \<Rightarrow> bool" where
  "input_ok b (Send c) = command_ok b c"
| "input_ok b (Round E) = (b \<longrightarrow> io_ok E)"
| "input_ok b (Outside p e) = True"

lemma actor_step_inv: "actor_inv b a \<Longrightarrow> input_ok b e \<Longrightarrow> actor_inv b (actor_step a e)"
proof (cases e)
  case (Round E)
  obtain u q rs where r: "actor_round E (ac_queue a) (ac_tracker a) = (u, q, rs)" by (metis prod_cases3)
  assume "actor_inv b a" "input_ok b e"
  then show ?thesis
    using kept_round[OF _ _ _ r, of b] by (simp add: Round r actor_inv_def)
qed (auto simp: actor_inv_def set_disk_def)

interpretation tracker: machine actor_step "actor_inv b" "input_ok b" for b
  by unfold_locales (rule actor_step_inv)

definition new_actor :: "env \<Rightarrow> path \<Rightarrow> tracking_mode \<Rightarrow> (path \<times> disk_entry) list \<Rightarrow> actor" where
  "new_actor E wd mode disk =
     \<lparr>ac_tracker = start_tracker E (new_tracker wd mode disk), ac_queue = [], ac_replies = []\<rparr>"

lemma kept_new_tracker: "kept b {} (new_tracker wd mode disk)"
  by (auto simp: new_tracker_def kept_def complete_def file_state_of_def index_ids_def
      intro: ok_exceptI)

lemma new_actor_inv: "actor_inv b (new_actor E wd mode disk)"
  by (simp add: actor_inv_def new_actor_def start_tracker_def kept_new_tracker kept_dirty_cache)

lemmas actor_run_inv = tracker.run_inv[OF new_actor_inv]

end
