(* ===== verification/Hunk_Review.thy ===== *)
theory Hunk_Review
  imports Hunk_Safety
begin

text \<open>
  What reviewing does to the texts: accepting every hunk of a file makes its baseline the
  current text, rejecting every hunk makes the current text, also on disk, the baseline,
  and accepting one hunk replaces exactly its lines.
\<close>

section \<open>Hunks as edits\<close>

text \<open>Ids and sources aside, the hunks a tracker holds for a file are those of its diff.\<close>

definition edit_of :: "hunk \<Rightarrow> line_info \<times> str option \<times> str" where
  "edit_of h = (h_line_info h, h_old_text h, h_new_text h)"

definition reflects :: "change list \<Rightarrow> hunk list \<Rightarrow> bool" where
  "reflects cs hs \<longleftrightarrow> map edit_of hs = map edit_of (build_all 0 0 [] External (change_runs cs 1 1 None))"

lemma edits_claim [simp]: "map edit_of (claim_ids old_hunks claimed hs) = map edit_of hs"
  by (induction old_hunks claimed hs rule: claim_ids.induct)
    (auto simp: claim_def edit_of_def split: option.splits)

lemma edits_build_all: "map edit_of (build_all now i p src bs) = map edit_of (build_all now' j q src' bs)"
  by (induction bs arbitrary: i j) (auto simp: build_def edit_of_def)

lemma foldr_edits:
  assumes "\<And>g h. edit_of g = edit_of h \<Longrightarrow> f g = f h"
  shows "map edit_of hs = map edit_of gs \<Longrightarrow> foldr f hs s = foldr f gs s"
proof (induction hs arbitrary: gs)
  case (Cons h hs)
  obtain g gs' where "gs = g # gs'"
    using Cons.prems by (cases gs) (simp_all del: map_eq_conv)
  with Cons.prems have g: "gs = g # gs'" "edit_of h = edit_of g" "map edit_of hs = map edit_of gs'"
    by simp_all
  then show ?case using Cons.IH[OF g(3)] assms[OF g(2)] by simp
qed simp

lemma accept_edit: "edit_of g = edit_of h \<Longrightarrow> accept_text g = accept_text h"
  by (auto simp: edit_of_def accept_text_def)

lemma reject_edit: "edit_of g = edit_of h \<Longrightarrow> reject_text g = reject_text h"
  by (auto simp: edit_of_def reject_text_def)

lemma starts_edits:
  assumes "map edit_of hs = map edit_of gs"
  shows "map (\<lambda>h. old_start (h_line_info h)) hs = map (\<lambda>h. old_start (h_line_info h)) gs"
    and "map (\<lambda>h. new_start (h_line_info h)) hs = map (\<lambda>h. new_start (h_line_info h)) gs"
  using arg_cong[OF assms, of "map (\<lambda>e. old_start (fst e))"]
    arg_cong[OF assms, of "map (\<lambda>e. new_start (fst e))"]
  by (simp_all add: comp_def edit_of_def)

lemma reflects_desc:
  assumes "reflects cs hs"
  shows "by_old_start_desc hs = rev hs" "by_new_start_desc hs = rev hs"
  using starts_edits[OF assms[unfolded reflects_def]] gaps_ascending[OF group_gaps[OF at_line_None, of cs 1 1]]
  by (simp_all add: by_old_start_desc_def by_new_start_desc_def sort_key_desc build_all_starts)

lemma fold_accept:
  "fold (\<lambda>h b. patch_lines b (old_start (h_line_info h)) (old_count (h_line_info h)) (h_new_text h)) hs b =
   fold accept_text hs b"
  by (rule fold_cong) (auto simp: accept_text_def)

lemma fold_reject:
  "fold (\<lambda>h c. patch_lines c (new_start (h_line_info h)) (new_count (h_line_info h))
      (case h_old_text h of None \<Rightarrow> [] | Some x \<Rightarrow> x)) hs c =
   fold reject_text hs c"
  by (rule fold_cong) (auto simp: reject_text_def)

text \<open>Texts that patching handles: terminated lines, no carriage return, something to patch,
  and no state in between that is a single blank line.\<close>

definition acceptable :: "str \<Rightarrow> str \<Rightarrow> change list \<Rightarrow> bool" where
  "acceptable b c cs \<longleftrightarrow>
     valid_script b c cs \<and> lf_text b \<and> lf_text c \<and> b \<noteq> [] \<and>
     no_collapse (change_runs cs 1 1 None) (split_inclusive NL b)"

definition rejectable :: "str \<Rightarrow> str \<Rightarrow> change list \<Rightarrow> bool" where
  "rejectable b c cs \<longleftrightarrow>
     valid_script b c cs \<and> lf_text b \<and> lf_text c \<and> c \<noteq> [] \<and>
     no_collapse (map flip_builder (change_runs cs 1 1 None)) (split_inclusive NL c)"

lemma accept_batch_text:
  assumes "reflects cs hs" "acceptable b c cs"
  shows "fold accept_text (by_old_start_desc hs) b = c"
proof -
  have "fold accept_text (by_old_start_desc hs) b = foldr accept_text hs b"
    by (simp add: reflects_desc[OF assms(1)] foldr_conv_fold)
  also have "\<dots> = foldr accept_text (build_all 0 0 [] External (change_runs cs 1 1 None)) b"
    by (rule foldr_edits[OF accept_edit assms(1)[unfolded reflects_def]])
  also have "\<dots> = c"
    using accept_all_text assms(2) by (simp add: acceptable_def)
  finally show ?thesis .
qed

lemma reject_batch_text:
  assumes "reflects cs hs" "rejectable b c cs"
  shows "fold reject_text (by_new_start_desc hs) c = b"
proof -
  have "fold reject_text (by_new_start_desc hs) c = foldr reject_text hs c"
    by (simp add: reflects_desc[OF assms(1)] foldr_conv_fold)
  also have "\<dots> = foldr reject_text (build_all 0 0 [] External (change_runs cs 1 1 None)) c"
    by (rule foldr_edits[OF reject_edit assms(1)[unfolded reflects_def]])
  also have "\<dots> = b"
    using reject_all_text assms(2) by (simp add: rejectable_def)
  finally show ?thesis .
qed

section \<open>Whole files\<close>

lemma recompute_equal:
  assumes "file_state_of t p = Some st" "fs_baseline st = Full c"
  shows "file_state_of (recompute_hunks E p (Some (Full c)) src t) p =
         Some (st\<lparr>fs_current := Full c, fs_hunks := []\<rparr>)"
proof -
  have "fresh_hunks E p (Some (Full c)) src t = ([], tk_next_id t)"
    using assms by (simp add: fresh_hunks_def compute_hunks_def)
  then show ?thesis using recompute_files[OF assms(1)] by simp
qed

lemma retain_none: "set (map h_id hs) \<subseteq> set ids \<Longrightarrow> retain_not ids hs = []"
  by (auto simp: retain_not_def filter_empty_conv)

lemma accept_file:
  assumes st: "file_state_of t p = Some st" "fs_baseline st = Full b" "fs_current st = Full c"
    and hs: "reflects cs (fs_hunks st)" "fs_hunks st \<noteq> []" and acc: "acceptable b c cs"
  shows "file_state_of (fst (accept_hunks_batch E p (fs_hunks st) t)) p =
           Some (st\<lparr>fs_baseline := Full c, fs_baseline_accepted := True, fs_hunks := []\<rparr>)"
    and "snd (accept_hunks_batch E p (fs_hunks st) t) = Inr ()"
    and "tk_disk (fst (accept_hunks_batch E p (fs_hunks st) t)) = tk_disk t"
proof -
  define ev where "ev = removed_for p Accepted (fs_hunks st) @ [BaselineUpdated p]"
  define t1 where "t1 = send_events ev (put_file p
    (st\<lparr>fs_baseline := Full c, fs_baseline_accepted := True, fs_hunks := []\<rparr>) t)"
  have run: "accept_hunks_batch E p (fs_hunks st) t =
      (recompute_hunks E p (Some (Full c)) (remaining_source t1 p) t1, Inr ())"
    using st hs accept_batch_text[OF hs(1) acc]
    by (simp add: accept_hunks_batch_def fold_accept Let_def t1_def ev_def retain_none)
  have t1: "file_state_of t1 p =
      Some (st\<lparr>fs_baseline := Full c, fs_baseline_accepted := True, fs_hunks := []\<rparr>)"
    by (simp add: t1_def shape)
  show "file_state_of (fst (accept_hunks_batch E p (fs_hunks st) t)) p =
           Some (st\<lparr>fs_baseline := Full c, fs_baseline_accepted := True, fs_hunks := []\<rparr>)"
    using recompute_equal[OF t1] st by (simp add: run)
  show "snd (accept_hunks_batch E p (fs_hunks st) t) = Inr ()" by (simp add: run)
  obtain fr n where "fresh_hunks E p (Some (Full c)) (remaining_source t1 p) t1 = (fr, n)" by force
  from recompute_Some(5)[OF t1 this]
  show "tk_disk (fst (accept_hunks_batch E p (fs_hunks st) t)) = tk_disk t"
    by (simp add: run t1_def shape)
qed

lemma reject_file:
  assumes st: "file_state_of t p = Some st" "fs_baseline st = Full b" "fs_current st = Full c"
    and hs: "reflects cs (fs_hunks st)" "fs_hunks st \<noteq> []" and rej: "rejectable b c cs"
    and io: "ev_write_error E p = None"
  shows "file_state_of (fst (reject_hunks_batch E p (fs_hunks st) t)) p =
           Some (st\<lparr>fs_current := Full b, fs_hunks := []\<rparr>)"
    and "snd (reject_hunks_batch E p (fs_hunks st) t) = Inr ()"
    and "tk_disk (fst (reject_hunks_batch E p (fs_hunks st) t)) = tk_disk (write_disk p b t)"
proof -
  define t1 where "t1 = send_events (removed_for p Rejected (fs_hunks st)) (put_file p
    (st\<lparr>fs_current := Full b, fs_hunks := []\<rparr>) (write_disk p b t))"
  have st': "file_state_of (write_disk p b t) p = Some st"
    using st(1) by (simp add: file_state_of_def shape)
  have run: "reject_hunks_batch E p (fs_hunks st) t =
      (recompute_hunks E p (Some (Full b)) (remaining_source t1 p) t1, Inr ())"
    using st hs io reject_batch_text[OF hs(1) rej] finish_reject_batch_Some[OF st']
    by (simp add: reject_hunks_batch_def fold_reject fs_write_def Let_def t1_def retain_none)
  have t1: "file_state_of t1 p = Some (st\<lparr>fs_current := Full b, fs_hunks := []\<rparr>)"
    by (simp add: t1_def shape)
  show "file_state_of (fst (reject_hunks_batch E p (fs_hunks st) t)) p =
           Some (st\<lparr>fs_current := Full b, fs_hunks := []\<rparr>)"
    using recompute_equal[OF t1] st by (simp add: run)
  show "snd (reject_hunks_batch E p (fs_hunks st) t) = Inr ()" by (simp add: run)
  obtain fr n where "fresh_hunks E p (Some (Full b)) (remaining_source t1 p) t1 = (fr, n)" by force
  from recompute_Some(5)[OF t1 this]
  show "tk_disk (fst (reject_hunks_batch E p (fs_hunks st) t)) = tk_disk (write_disk p b t)"
    by (simp add: run t1_def shape)
qed

section \<open>From an agent's write to a review\<close>

lemma runs_of_change:
  assumes "valid_script b c cs" "b \<noteq> c"
  shows "change_runs cs 1 1 None \<noteq> []"
proof
  assume "change_runs cs 1 1 None = []"
  then have "old_side cs = new_side cs" using replay_all[of cs] by simp
  then have "split_inclusive NL b = split_inclusive NL c"
    using assms(1) by (metis valid_script_def)
  with assms(2) show False by (metis concat_split_inclusive)
qed

lemma record_tracked:
  "file_state_of t p = Some st \<Longrightarrow> classify_string c = Full c \<Longrightarrow>
   record_agent_write E p c i prev t =
   recompute_hunks E p (Some (Full c)) (AgentEdit i) (put_file p (st\<lparr>fs_is_agent_file := True\<rparr>) t)"
  by (simp add: record_agent_write_def)

lemma max_sizes: "max_tracked_text_bytes = max_diff_file_size"
  by (simp add: max_tracked_text_bytes_def max_diff_file_size_def)

lemma recompute_reflects:
  assumes st: "file_state_of t p = Some st" "fs_baseline st = Full b"
    and c: "classify_string c = Full c" "b \<noteq> c" "length b \<le> max_diff_file_size"
    and d: "ev_diff E b c = Some cs"
  obtains hs where "file_state_of (recompute_hunks E p (Some (Full c)) src t) p =
      Some (st\<lparr>fs_current := Full c, fs_hunks := hs\<rparr>)" "reflects cs hs"
    "length hs = length (change_runs cs 1 1 None)"
    "tk_disk (recompute_hunks E p (Some (Full c)) src t) = tk_disk t"
proof -
  obtain fr n where fr: "fresh_hunks E p (Some (Full c)) src t = (fr, n)" by force
  have "length c \<le> max_diff_file_size" using c(1) max_sizes by (simp add: classify_string_Full)
  then have "fr = build_all (ev_now E) (tk_next_id t) p src (change_runs cs 1 1 None)"
    using fr st c(2,3) d by (simp add: fresh_hunks_def compute_hunks_def hunks_of_changes_group)
  then have "reflects cs (claim_ids (fs_hunks st) [] fr)"
    "length (claim_ids (fs_hunks st) [] fr) = length (change_runs cs 1 1 None)"
    unfolding reflects_def by (simp_all add: edits_build_all[of "ev_now E" "tk_next_id t" p src _ 0 0 "[]"]
        del: map_map map_eq_conv)
  then show ?thesis
    using that recompute_files[OF st(1) fr, of p] recompute_Some(5)[OF st(1) fr] by simp
qed

lemma file_action_batch:
  assumes "file_state_of t p = Some st" "fs_hunks st \<noteq> []"
  shows "apply_file_action E p a t =
    (case (case a of Accept \<Rightarrow> accept_hunks_batch E p (fs_hunks st) (fold (settle_hunk a) (fs_hunks st) t)
                   | Reject \<Rightarrow> reject_hunks_batch E p (fs_hunks st) (fold (settle_hunk a) (fs_hunks st) t)) of
       (u, Inl e) \<Rightarrow> (u, Inl e) | (u, Inr _) \<Rightarrow> (u, Inr (map h_id (fs_hunks st))))"
  using assms by (simp add: apply_file_action_def Let_def split: prod.splits sum.splits)

lemma write_disk_cong: "tk_disk t = tk_disk u \<Longrightarrow> tk_disk (write_disk p s t) = tk_disk (write_disk p s u)"
  by (auto simp: write_disk_def disk_at_def split: option.splits disk_entry.splits)

text \<open>The state an agent's write of a tracked file leaves behind.\<close>

lemma record_reflects:
  assumes "file_state_of t p = Some st" "fs_baseline st = Full b" "classify_string c = Full c" "b \<noteq> c"
    "length b \<le> max_diff_file_size" "ev_diff E b c = Some cs" "valid_script b c cs"
  obtains hs where "file_state_of (record_agent_write E p c i prev t) p =
      Some (st\<lparr>fs_is_agent_file := True, fs_current := Full c, fs_hunks := hs\<rparr>)"
    "reflects cs hs" "hs \<noteq> []" "tk_disk (record_agent_write E p c i prev t) = tk_disk t"
proof -
  have st: "file_state_of (put_file p (st\<lparr>fs_is_agent_file := True\<rparr>) t) p = Some (st\<lparr>fs_is_agent_file := True\<rparr>)"
    by (simp add: shape)
  obtain hs where hs: "file_state_of (record_agent_write E p c i prev t) p =
      Some (st\<lparr>fs_is_agent_file := True, fs_current := Full c, fs_hunks := hs\<rparr>)"
    "reflects cs hs" "length hs = length (change_runs cs 1 1 None)"
    "tk_disk (record_agent_write E p c i prev t) = tk_disk t"
    using recompute_reflects[OF st _ assms(3-6)] assms(2)
    by (auto simp: record_tracked[OF assms(1,3)] shape)
  moreover have "hs \<noteq> []" using hs(3) runs_of_change[OF assms(7,4)] by auto
  ultimately show ?thesis using that by blast
qed

lemma settled_file: "file_state_of (fold (settle_hunk a) hs t) p = file_state_of t p"
  by (simp add: file_state_of_def shape)

lemma accept_after_write:
  assumes "file_state_of t p = Some st" "fs_baseline st = Full b" "classify_string c = Full c" "b \<noteq> c"
    "length b \<le> max_diff_file_size" "ev_diff E b c = Some cs" "acceptable b c cs"
  shows "file_state_of (fst (apply_file_action E' p Accept (record_agent_write E p c i prev t))) p =
      Some (st\<lparr>fs_baseline := Full c, fs_current := Full c, fs_hunks := [], fs_is_agent_file := True,
               fs_baseline_accepted := True\<rparr>) \<and>
    tk_disk (fst (apply_file_action E' p Accept (record_agent_write E p c i prev t))) = tk_disk t"
proof -
  have v: "valid_script b c cs" using assms(7) by (simp add: acceptable_def)
  obtain hs where hs: "file_state_of (record_agent_write E p c i prev t) p =
      Some (st\<lparr>fs_is_agent_file := True, fs_current := Full c, fs_hunks := hs\<rparr>)"
    "reflects cs hs" "hs \<noteq> []" "tk_disk (record_agent_write E p c i prev t) = tk_disk t"
    using record_reflects[OF assms(1-6) v] by blast
  let ?u = "fold (settle_hunk Accept) hs (record_agent_write E p c i prev t)"
  have u: "file_state_of ?u p = Some (st\<lparr>fs_is_agent_file := True, fs_current := Full c, fs_hunks := hs\<rparr>)"
    using hs(1) by (simp add: settled_file)
  note af = accept_file[OF u, of b c cs E']
  show ?thesis
    using af hs assms(2,7) file_action_batch[OF hs(1), of E' Accept]
    by (cases "accept_hunks_batch E' p hs ?u") (simp add: shape)
qed

lemma reject_after_write:
  assumes "file_state_of t p = Some st" "fs_baseline st = Full b" "classify_string c = Full c" "b \<noteq> c"
    "length b \<le> max_diff_file_size" "ev_diff E b c = Some cs" "rejectable b c cs"
    "ev_write_error E' p = None"
  shows "file_state_of (fst (apply_file_action E' p Reject (record_agent_write E p c i prev t))) p =
      Some (st\<lparr>fs_current := Full b, fs_hunks := [], fs_is_agent_file := True\<rparr>) \<and>
    tk_disk (fst (apply_file_action E' p Reject (record_agent_write E p c i prev t))) =
      tk_disk (write_disk p b t)"
proof -
  have v: "valid_script b c cs" using assms(7) by (simp add: rejectable_def)
  obtain hs where hs: "file_state_of (record_agent_write E p c i prev t) p =
      Some (st\<lparr>fs_is_agent_file := True, fs_current := Full c, fs_hunks := hs\<rparr>)"
    "reflects cs hs" "hs \<noteq> []" "tk_disk (record_agent_write E p c i prev t) = tk_disk t"
    using record_reflects[OF assms(1-6) v] by blast
  let ?u = "fold (settle_hunk Reject) hs (record_agent_write E p c i prev t)"
  have u: "file_state_of ?u p = Some (st\<lparr>fs_is_agent_file := True, fs_current := Full c, fs_hunks := hs\<rparr>)"
    using hs(1) by (simp add: settled_file)
  have d: "tk_disk ?u = tk_disk t" using hs(4) by (simp add: shape)
  note rf = reject_file[OF u, of b c cs E']
  show ?thesis
    using rf hs assms(2,7,8) file_action_batch[OF hs(1), of E' Reject] write_disk_cong[OF d]
    by (cases "reject_hunks_batch E' p hs ?u") (simp add: shape)
qed

section \<open>One hunk\<close>

lemma build_all_nth:
  "k < length bs \<Longrightarrow> build_all now i p src bs ! k = build (i + k) now p src (bs ! k)"
  by (induction bs arbitrary: i k) (auto simp: nth_Cons split: nat.splits)

lemma reflects_nth:
  assumes "reflects cs hs" "k < length hs"
  shows "k < length (change_runs cs 1 1 None)"
    and "edit_of (hs ! k) = edit_of (build i now p src (change_runs cs 1 1 None ! k))"
proof -
  have len: "length hs = length (change_runs cs 1 1 None)"
    using arg_cong[OF assms(1)[unfolded reflects_def], of length] by simp
  then show k: "k < length (change_runs cs 1 1 None)" using assms(2) by simp
  have "map edit_of hs ! k = map edit_of (build_all 0 0 [] External (change_runs cs 1 1 None)) ! k"
    using assms(1) unfolding reflects_def by (rule arg_cong)
  then have "edit_of (hs ! k) = edit_of (build (0 + k) 0 [] External (change_runs cs 1 1 None ! k))"
    using assms(2) k by (simp only: nth_map length_build_all build_all_nth)
  then show "edit_of (hs ! k) = edit_of (build i now p src (change_runs cs 1 1 None ! k))"
    by (simp add: edit_of_def build_def)
qed

lemma find_hunk_file_in:
  "distinct_keys fss \<Longrightarrow> map_of fss p = Some st \<Longrightarrow> h \<in> set (fs_hunks st) \<Longrightarrow>
   (\<And>q u g. map_of fss q = Some u \<Longrightarrow> g \<in> set (fs_hunks u) \<Longrightarrow> h_id g = h_id h \<Longrightarrow> q = p \<and> g = h) \<Longrightarrow>
   find_hunk_file (h_id h) fss = Some (p, h)"
proof (induction fss)
  case (Cons x fss)
  obtain q u where x: "x = (q, u)" by force
  show ?case
  proof (cases "List.find (\<lambda>g. h_id g = h_id h) (fs_hunks u)")
    case None
    then have "h \<notin> set (fs_hunks u)" by (auto simp: find_None_iff)
    then have "q \<noteq> p" using Cons.prems(2,3) by (auto simp: x)
    moreover have "find_hunk_file (h_id h) fss = Some (p, h)"
    proof (rule Cons.IH)
      fix r v g assume "map_of fss r = Some v" "g \<in> set (fs_hunks v)" "h_id g = h_id h"
      moreover from this(1) have "r \<noteq> q" using Cons.prems(1) by (force simp: x dest: map_of_SomeD)
      ultimately show "r = p \<and> g = h" using Cons.prems(4)[of r v g] by (simp add: x)
    qed (use Cons.prems calculation in \<open>simp_all add: x\<close>)
    ultimately show ?thesis by (simp add: x None)
  next
    case (Some g)
    then have "g \<in> set (fs_hunks u)" "h_id g = h_id h" by (auto dest: find_Some_in)
    then show ?thesis using Cons.prems(4)[of q u g] Some by (simp add: x)
  qed
qed simp

text \<open>An id finds its hunk.\<close>

lemma ok_same_hunk:
  assumes ok: "tracker_ok t" and h: "file_state_of t p = Some st" "h \<in> set (fs_hunks st)"
    and g: "file_state_of t q = Some u" "g \<in> set (fs_hunks u)" "h_id g = h_id h"
  shows "q = p \<and> g = h"
proof -
  have "q = p" using ok_apart[OF ok g(1) h(1) _ g(2) h(2)] g(3) by blast
  moreover from this have "distinct (map h_id (fs_hunks st))"
    using ok_file[OF ok h(1)] by (simp add: file_ok_def)
  ultimately show ?thesis using distinct_map_eq[of h_id "fs_hunks st" g h] h g by simp
qed

lemma find_live_hunk:
  assumes ok: "tracker_ok t" and h: "file_state_of t p = Some st" "h \<in> set (fs_hunks st)"
  shows "find_hunk_file (h_id h) (tk_file_states t) = Some (p, h)"
  by (rule find_hunk_file_in[OF ok_keys[OF ok] h(1)[unfolded file_state_of_def] h(2)])
    (use ok_same_hunk[OF ok h] in \<open>simp add: file_state_of_def\<close>)

lemma accept_hunk_result:
  fixes E :: env
  assumes ok: "tracker_ok t" and st: "file_state_of t p = Some st" "fs_baseline st = Full b"
    and h: "h \<in> set (fs_hunks st)"
  defines "u \<equiv> fst (apply_hunk_action E (h_id h) Accept t)"
  shows "snd (apply_hunk_action E (h_id h) Accept t) = Inr ()"
    and "\<exists>hs. file_state_of u p = Some (st\<lparr>fs_baseline := Full (accept_text h b),
            fs_baseline_accepted := True, fs_hunks := hs\<rparr>)"
    and "q \<noteq> p \<Longrightarrow> file_state_of u q = file_state_of t q"
    and "tk_disk u = tk_disk t"
proof -
  define t0 where "t0 = settle_hunk Accept h t"
  define t1 where "t1 = send_events [HunkRemoved p (h_id h) Accepted, BaselineUpdated p] (put_file p
    (st\<lparr>fs_baseline := Full (accept_text h b), fs_baseline_accepted := True,
       fs_hunks := retain_not [h_id h] (fs_hunks st)\<rparr>) t0)"
  have files0: "file_state_of t0 r = file_state_of t r" for r
    by (simp add: t0_def file_state_of_def shape)
  have run: "apply_hunk_action E (h_id h) Accept t =
      (recompute_hunks E p (Some (fs_current st)) (remaining_source t1 p) t1, Inr ())"
    using st find_live_hunk[OF ok st(1) h]
    by (simp add: apply_hunk_action_def t0_def[symmetric] accept_hunk_def files0 Let_def t1_def
        accept_text_def)
  have t1: "file_state_of t1 p = Some (st\<lparr>fs_baseline := Full (accept_text h b),
      fs_baseline_accepted := True, fs_hunks := retain_not [h_id h] (fs_hunks st)\<rparr>)"
    by (simp add: t1_def shape)
  obtain fr n where fr: "fresh_hunks E p (Some (fs_current st)) (remaining_source t1 p) t1 = (fr, n)" by force
  show "snd (apply_hunk_action E (h_id h) Accept t) = Inr ()" by (simp add: run)
  show "\<exists>hs. file_state_of u p = Some (st\<lparr>fs_baseline := Full (accept_text h b),
            fs_baseline_accepted := True, fs_hunks := hs\<rparr>)"
    using recompute_files[OF t1 fr, of p] by (auto simp: u_def run)
  show "q \<noteq> p \<Longrightarrow> file_state_of u q = file_state_of t q"
    unfolding u_def run fst_conv recompute_files[OF t1 fr, of q] by (simp add: t1_def shape files0)
  show "tk_disk u = tk_disk t"
    unfolding u_def run fst_conv recompute_Some(5)[OF t1 fr] by (simp add: t1_def t0_def shape)
qed

text \<open>The text of a hunk of the diff replaces its lines.\<close>

lemma accept_nth_text:
  assumes "reflects cs hs" "k < length hs" "valid_script b c cs" "lf_text b" "lf_text c" "b \<noteq> []"
    and "replay1 (change_runs cs 1 1 None ! k) (split_inclusive NL b) \<noteq> [[NL]]"
  shows "accept_text (hs ! k) b = concat (replay1 (change_runs cs 1 1 None ! k) (split_inclusive NL b))"
  using accept_edit[OF reflects_nth(2)[OF assms(1,2)], of 0 0 "[]" External]
    accept_one_text[OF assms(3-6) _ assms(7)] reflects_nth(1)[OF assms(1,2)] by simp

end
