(* ===== verification/Hunk_Loc.thy ===== *)
theory Hunk_Loc
  imports Hunk_Actor
begin

text \<open>
  The lines-of-code sink (\<open>xai-hunk-tracker/src/loc/mod.rs\<close>): it turns the tracker's events
  into attribution records and aggregates. The records written are a list, oldest first;
  a failed write drops its record. The \<open>i64\<close> counters are integers: a file has at most
  \<open>2 ^ 20\<close> lines, so they do not overflow in fewer than \<open>2 ^ 43\<close> events of a hunk.
\<close>

section \<open>Records\<close>

datatype author_type = Agent | Human

datatype source_type = SrcAgentEdit | SrcExternalEditOnAgentFile | SrcExternal

datatype event_type = Added | Updated | Removed

fun show_author_type :: "author_type \<Rightarrow> string" where
  "show_author_type Agent = ''agent''"
| "show_author_type Human = ''human''"

fun show_source_type :: "source_type \<Rightarrow> string" where
  "show_source_type SrcAgentEdit = ''agent_edit''"
| "show_source_type SrcExternalEditOnAgentFile = ''external_edit_on_agent_file''"
| "show_source_type SrcExternal = ''external''"

fun show_event_type :: "event_type \<Rightarrow> string" where
  "show_event_type Added = ''added''"
| "show_event_type Updated = ''updated''"
| "show_event_type Removed = ''removed''"

record hunk_record =
  hr_hunk_id :: hunk_id
  hr_file_path :: path
  hr_hunk_start :: nat
  hr_hunk_end :: nat
  hr_lines_added :: int
  hr_lines_removed :: int
  hr_author_type :: "author_type option"
  hr_author_id :: "string option"
  hr_agent_id :: string
  hr_session_id :: string
  hr_timestamp :: nat
  hr_prompt_index :: "nat option"
  hr_source_type :: "source_type option"
  hr_event_type :: event_type
  hr_removal_reason :: "removal_reason option"

datatype loc_aggregate =
  LinesChanged author_type int int path
| LinesReverted int int

record loc_ctx =
  cx_session_id :: string
  cx_agent_id :: string
  cx_user_id :: "string option"
  cx_aggregates :: bool
  cx_now :: nat
  cx_write_ok :: "hunk_record \<Rightarrow> bool"

fun attribution :: "loc_ctx \<Rightarrow> hunk_source \<Rightarrow> author_type \<times> string option \<times> nat option \<times> source_type" where
  "attribution cx (AgentEdit i) = (Agent, Some (cx_agent_id cx), Some i, SrcAgentEdit)"
| "attribution cx ExternalEditOnAgentFile =
     (Human, cx_user_id cx, None, SrcExternalEditOnAgentFile)"
| "attribution cx External = (Human, cx_user_id cx, None, SrcExternal)"

definition from_hunk :: "loc_ctx \<Rightarrow> hunk \<Rightarrow> event_type \<Rightarrow> hunk_source \<Rightarrow> hunk_record" where
  "from_hunk cx h et src =
     (let (author, author_id, prompt, st) = attribution cx src;
          li = h_line_info h;
          (start, count) = (if new_count li = 0 then (old_start li, old_count li)
                            else (new_start li, new_count li));
          last = (if count = 0 then start else start + count - 1)
      in \<lparr>hr_hunk_id = h_id h, hr_file_path = h_path h, hr_hunk_start = start, hr_hunk_end = last,
          hr_lines_added = int (new_count li), hr_lines_removed = int (old_count li),
          hr_author_type = Some author, hr_author_id = author_id, hr_agent_id = cx_agent_id cx,
          hr_session_id = cx_session_id cx, hr_timestamp = h_created_at h,
          hr_prompt_index = prompt, hr_source_type = Some st, hr_event_type = et,
          hr_removal_reason = None\<rparr>)"

section \<open>The sink\<close>

record loc_sink =
  lk_acc :: "(hunk_id \<times> (int \<times> int)) list"
  lk_records :: "hunk_record list"
  lk_aggregates :: "loc_aggregate list"

definition new_sink :: loc_sink where
  "new_sink = \<lparr>lk_acc = [], lk_records = [], lk_aggregates = []\<rparr>"

definition write_record :: "loc_ctx \<Rightarrow> hunk_record \<Rightarrow> loc_sink \<Rightarrow> loc_sink" where
  "write_record cx r s = (if cx_write_ok cx r then s\<lparr>lk_records := lk_records s @ [r]\<rparr> else s)"

definition send_aggregate :: "loc_ctx \<Rightarrow> loc_aggregate \<Rightarrow> loc_sink \<Rightarrow> loc_sink" where
  "send_aggregate cx a s = (if cx_aggregates cx then s\<lparr>lk_aggregates := lk_aggregates s @ [a]\<rparr> else s)"

definition acc_add :: "hunk_id \<Rightarrow> int \<times> int \<Rightarrow> loc_sink \<Rightarrow> loc_sink" where
  "acc_add i d s =
     (let cur = (case map_of (lk_acc s) i of None \<Rightarrow> (0, 0) | Some c \<Rightarrow> c)
      in s\<lparr>lk_acc := AList.update i (fst cur + fst d, snd cur + snd d) (lk_acc s)\<rparr>)"

definition acc_remove :: "hunk_id \<Rightarrow> loc_sink \<Rightarrow> loc_sink" where
  "acc_remove i s = s\<lparr>lk_acc := AList.delete i (lk_acc s)\<rparr>"

definition changed_lines :: "hunk_record \<Rightarrow> author_type \<Rightarrow> loc_aggregate" where
  "changed_lines r dflt =
     LinesChanged (case hr_author_type r of None \<Rightarrow> dflt | Some a \<Rightarrow> a)
       (hr_lines_added r) (hr_lines_removed r) (hr_file_path r)"

definition removed_record ::
  "loc_ctx \<Rightarrow> path \<Rightarrow> hunk_id \<Rightarrow> removal_reason \<Rightarrow> int \<times> int \<Rightarrow> hunk_record" where
  "removed_record cx p i reason tot =
     \<lparr>hr_hunk_id = i, hr_file_path = p, hr_hunk_start = 0, hr_hunk_end = 0,
      hr_lines_added = - fst tot, hr_lines_removed = - snd tot,
      hr_author_type = None, hr_author_id = None, hr_agent_id = cx_agent_id cx,
      hr_session_id = cx_session_id cx, hr_timestamp = cx_now cx, hr_prompt_index = None,
      hr_source_type = None, hr_event_type = Removed, hr_removal_reason = Some reason\<rparr>"

definition revert_lines :: "loc_ctx \<Rightarrow> path \<Rightarrow> hunk_id \<Rightarrow> removal_reason \<Rightarrow> loc_sink \<Rightarrow> loc_sink" where
  "revert_lines cx p i reason s =
     (let s1 = acc_remove i s in
      case map_of (lk_acc s) i of
        None \<Rightarrow> s1
      | Some tot \<Rightarrow>
          if tot \<noteq> (0, 0) then
            write_record cx (removed_record cx p i reason tot)
              (send_aggregate cx (LinesReverted (max (fst tot) 0) (max (snd tot) 0)) s1)
          else s1)"

fun handle_event :: "loc_ctx \<Rightarrow> loc_sink \<Rightarrow> hunk_event \<Rightarrow> loc_sink" where
  "handle_event cx s (HunkAdded p h) =
     (let r = from_hunk cx h Added (h_source h) in
      write_record cx r (send_aggregate cx (changed_lines r Agent)
        (acc_add (h_id h) (hr_lines_added r, hr_lines_removed r) s)))"
| "handle_event cx s (HunkContentChanged p h trigger prev_added prev_removed) =
     (let r = (from_hunk cx h Updated trigger)
                \<lparr>hr_lines_added := int (new_count (h_line_info h)) - int prev_added,
                 hr_lines_removed := int (old_count (h_line_info h)) - int prev_removed\<rparr> in
      write_record cx r (send_aggregate cx (changed_lines r Human)
        (acc_add (h_id h) (hr_lines_added r, hr_lines_removed r) s)))"
| "handle_event cx s (HunkRemoved p i Accepted) = acc_remove i s"
| "handle_event cx s (HunkRemoved p i Rejected) = revert_lines cx p i Rejected s"
| "handle_event cx s (HunkRemoved p i Superseded) = revert_lines cx p i Superseded s"
| "handle_event cx s (HunkMoved _ _ _) = s"
| "handle_event cx s (FileAdded _ _) = s"
| "handle_event cx s (FileRemoved _) = s"
| "handle_event cx s (BaselineUpdated _) = s"

text \<open>\<open>run_loc_sink\<close>: the events received before the cancellation and, through
  \<open>drain_remaining\<close>, those still in the channel, in order.\<close>

definition run_loc_sink :: "loc_ctx \<Rightarrow> hunk_event list \<Rightarrow> hunk_event list \<Rightarrow> loc_sink" where
  "run_loc_sink cx received remaining =
     run (handle_event cx) (run (handle_event cx) new_sink received) remaining"

section \<open>Totals\<close>

text \<open>What \<open>SUM\<close> over the records gives for one hunk.\<close>

definition added_total :: "hunk_id \<Rightarrow> hunk_record list \<Rightarrow> int" where
  "added_total i rs = sum_list (map hr_lines_added (filter (\<lambda>r. hr_hunk_id r = i) rs))"

definition removed_total :: "hunk_id \<Rightarrow> hunk_record list \<Rightarrow> int" where
  "removed_total i rs = sum_list (map hr_lines_removed (filter (\<lambda>r. hr_hunk_id r = i) rs))"

definition open_total :: "loc_sink \<Rightarrow> hunk_id \<Rightarrow> int \<times> int" where
  "open_total s i = (case map_of (lk_acc s) i of None \<Rightarrow> (0, 0) | Some c \<Rightarrow> c)"

text \<open>What the events of a hunk had added up to when it was accepted.\<close>

fun accepted_step :: "loc_ctx \<Rightarrow> hunk_id \<Rightarrow> loc_sink \<times> int \<times> int \<Rightarrow> hunk_event \<Rightarrow> loc_sink \<times> int \<times> int" where
  "accepted_step cx i (s, a, r) e =
     (handle_event cx s e,
      (case e of
         HunkRemoved p j Accepted \<Rightarrow>
           if j = i then (a + fst (open_total s i), r + snd (open_total s i)) else (a, r)
       | _ \<Rightarrow> (a, r)))"

definition accepted_total :: "loc_ctx \<Rightarrow> hunk_id \<Rightarrow> hunk_event list \<Rightarrow> int \<times> int" where
  "accepted_total cx i es = snd (run (accepted_step cx i) (new_sink, 0, 0) es)"

lemma totals_append [simp]:
  "added_total i (rs @ [r]) = added_total i rs + (if hr_hunk_id r = i then hr_lines_added r else 0)"
  "removed_total i (rs @ [r]) = removed_total i rs + (if hr_hunk_id r = i then hr_lines_removed r else 0)"
  "added_total i [] = 0" "removed_total i [] = 0"
  by (auto simp: added_total_def removed_total_def)

lemma from_hunk_fields [simp]:
  "hr_hunk_id (from_hunk cx h et src) = h_id h"
  "hr_lines_added (from_hunk cx h et src) = int (new_count (h_line_info h))"
  "hr_lines_removed (from_hunk cx h et src) = int (old_count (h_line_info h))"
  "hr_file_path (from_hunk cx h et src) = h_path h"
  by (auto simp: from_hunk_def Let_def split: prod.splits)

definition sums_ok :: "hunk_id \<Rightarrow> loc_sink \<times> int \<times> int \<Rightarrow> bool" where
  "sums_ok i = (\<lambda>(s, a, r).
     distinct_keys (lk_acc s) \<and>
     added_total i (lk_records s) = fst (open_total s i) + a \<and>
     removed_total i (lk_records s) = snd (open_total s i) + r)"

definition reliable :: "loc_ctx \<Rightarrow> bool" where
  "reliable cx \<longleftrightarrow> (\<forall>r. cx_write_ok cx r)"

lemma sink_shape [shape]:
  "lk_acc (write_record cx r s) = lk_acc s"
  "lk_acc (send_aggregate cx a s) = lk_acc s"
  "lk_records (send_aggregate cx a s) = lk_records s"
  "lk_records (acc_add i d s) = lk_records s"
  "lk_records (acc_remove i s) = lk_records s"
  "lk_acc (acc_remove i s) = AList.delete i (lk_acc s)"
  by (simp_all add: write_record_def send_aggregate_def acc_add_def acc_remove_def Let_def)

lemma open_total_shape [shape]:
  "open_total (write_record cx r s) i = open_total s i"
  "open_total (send_aggregate cx a s) i = open_total s i"
  "distinct_keys (lk_acc s) \<Longrightarrow>
     open_total (acc_remove j s) i = (if i = j then (0, 0) else open_total s i)"
  "open_total (acc_add j d s) i =
     (if i = j then (fst (open_total s i) + fst d, snd (open_total s i) + snd d) else open_total s i)"
  by (auto simp: open_total_def shape acc_add_def Let_def)

lemma acc_keys [shape]:
  "distinct_keys (lk_acc s) \<Longrightarrow> distinct_keys (lk_acc (acc_add i d s))"
  "distinct_keys (lk_acc s) \<Longrightarrow> distinct_keys (lk_acc (acc_remove i s))"
  "distinct_keys m \<Longrightarrow> distinct_keys (AList.delete i m)"
  by (auto simp: acc_add_def acc_remove_def Let_def hash_map.inv_insert hash_map.inv_remove)

lemma write_records [shape]:
  "reliable cx \<Longrightarrow> lk_records (write_record cx r s) = lk_records s @ [r]"
  by (simp add: write_record_def reliable_def)

lemma sums_revert:
  assumes "reliable cx" "sums_ok i (s, a, r)"
  shows "sums_ok i (revert_lines cx p j reason s, a, r)"
proof -
  have d: "distinct_keys (lk_acc s)" using assms(2) by (simp add: sums_ok_def)
  show ?thesis
  proof (cases "map_of (lk_acc s) j")
    case None
    then have "open_total s j = (0, 0)" by (simp add: open_total_def)
    then show ?thesis
      using assms None d by (auto simp: revert_lines_def sums_ok_def shape Let_def)
  next
    case (Some tot)
    then have "open_total s j = tot" by (simp add: open_total_def)
    then show ?thesis
      using assms Some d
      by (cases "tot = (0, 0)")
        (auto simp: revert_lines_def sums_ok_def shape removed_record_def Let_def)
  qed
qed

lemma sums_step: "reliable cx \<Longrightarrow> sums_ok i st \<Longrightarrow> sums_ok i (accepted_step cx i st e)"
proof (induction cx i st e rule: accepted_step.induct)
  case (1 cx i s a r e)
  show ?case
  proof (cases e)
    case (HunkRemoved p j reason)
    then show ?thesis
      using 1 sums_revert[of cx i s a r p j]
      by (cases reason) (auto simp: sums_ok_def shape)
  qed (use 1 in \<open>auto simp: sums_ok_def shape Let_def\<close>)
qed

text \<open>The ghost counters do not disturb the sink.\<close>

lemma accepted_run: "fst (run (accepted_step cx i) (s, c) es) = run (handle_event cx) s es"
proof (induction es arbitrary: s c)
  case (Cons e es)
  obtain a r where "c = (a, r)" by force
  then show ?case using Cons by simp
qed simp

interpretation loc: machine "accepted_step cx i" "\<lambda>st. reliable cx \<longrightarrow> sums_ok i st" "\<lambda>_. True"
  for cx i
  by unfold_locales (simp add: sums_step)

lemma sums_run: "reliable cx \<Longrightarrow> sums_ok i (run (accepted_step cx i) (new_sink, 0, 0) es)"
  using loc.run_inv[of cx i "(new_sink, 0, 0)" es]
  by (simp add: sums_ok_def new_sink_def open_total_def list_all_iff)

lemma loc_sums:
  assumes "reliable cx"
  shows "(added_total i (lk_records (run (handle_event cx) new_sink es)),
          removed_total i (lk_records (run (handle_event cx) new_sink es))) =
         (fst (open_total (run (handle_event cx) new_sink es) i) + fst (accepted_total cx i es),
          snd (open_total (run (handle_event cx) new_sink es) i) + snd (accepted_total cx i es))"
  using sums_run[OF assms, of i es] accepted_run[of cx i new_sink "(0, 0)" es]
  by (auto simp: sums_ok_def accepted_total_def split: prod.splits)

end
