(* ===== verification/Hunk_Properties.thy ===== *)
theory Hunk_Properties
  imports Hunk_Review Hunk_Loc
begin

text \<open>
  The properties of the hunk tracker, with a concrete run of each that has hypotheses. The
  runs share one file with three lines, an agent's write that changes the second line and
  adds one, and the change script of the two texts.
\<close>

section \<open>A concrete file\<close>

definition demo_path :: path where "demo_path = [''w'', ''a'']"
definition demo_old :: str where "demo_old = [CHR ''a'', NL, CHR ''b'', NL, CHR ''c'', NL]"
definition demo_new :: str where
  "demo_new = [CHR ''a'', NL, CHR ''x'', NL, CHR ''c'', NL, CHR ''d'', NL]"

definition demo_script :: "change list" where
  "demo_script =
     [(Equal, [CHR ''a'', NL]), (Delete, [CHR ''b'', NL]), (Insert, [CHR ''x'', NL]),
      (Equal, [CHR ''c'', NL]), (Insert, [CHR ''d'', NL])]"

definition demo_env :: env where
  "demo_env =
     \<lparr>ev_diff = (\<lambda>b c. Some demo_script), ev_now = 7,
      ev_write_error = (\<lambda>p. None), ev_delete_error = (\<lambda>p. None),
      ev_canonicalize = (\<lambda>p. Some p), ev_discover = (\<lambda>p. Some [''w'']),
      ev_head = (\<lambda>p. Some (HeadBlob demo_old)), ev_head_oid = None, ev_index_mtime = None,
      ev_index_ok = True, ev_status = (\<lambda>ps. Some [])\<rparr>"

definition demo_tracker :: tracker where
  "demo_tracker = put_file demo_path (new_file (Full demo_old) (Full demo_old) True)
     (new_tracker [''w''] AgentOnly [(demo_path, DFile demo_new)])"

lemmas demo_defs = demo_path_def demo_old_def demo_new_def demo_script_def demo_env_def demo_tracker_def

lemma demo_file: "file_state_of demo_tracker demo_path = Some (new_file (Full demo_old) (Full demo_old) True)"
  by (simp add: demo_tracker_def shape)

lemma no_collapse_simps:
  "no_collapse [] L \<longleftrightarrow> L \<noteq> [[NL]]"
  "no_collapse (b # bs) L \<longleftrightarrow> replay (b # bs) L \<noteq> [[NL]] \<and> no_collapse bs L"
proof -
  show "no_collapse [] L \<longleftrightarrow> L \<noteq> [[NL]]" by (simp add: no_collapse_def)
  show "no_collapse (b # bs) L \<longleftrightarrow> replay (b # bs) L \<noteq> [[NL]] \<and> no_collapse bs L"
  proof
    assume "replay (b # bs) L \<noteq> [[NL]] \<and> no_collapse bs L"
    then have "replay (drop k (b # bs)) L \<noteq> [[NL]]" if "k \<le> length (b # bs)" for k
      using that by (cases k) (auto simp: no_collapse_def)
    then show "no_collapse (b # bs) L" unfolding no_collapse_def by blast
  qed (use no_collapse_Cons in blast)
qed

lemma demo_valid: "valid_script demo_old demo_new demo_script"
  by (simp add: valid_script_def demo_defs)

lemma demo_runs:
  "change_runs demo_script 1 1 None =
     [\<lparr>hb_old_start = 2, hb_new_start = 2, hb_old_lines = [[CHR ''b'', NL]], hb_new_lines = [[CHR ''x'', NL]]\<rparr>,
      \<lparr>hb_old_start = 4, hb_new_start = 4, hb_old_lines = [], hb_new_lines = [[CHR ''d'', NL]]\<rparr>]"
  by (simp add: demo_defs new_builder_def add_old_line_def add_new_line_def)

lemma demo_acceptable: "acceptable demo_old demo_new demo_script"
  unfolding acceptable_def demo_runs
  by (intro conjI demo_valid)
    (simp_all add: lf_text_def ends_with_def no_collapse_simps replay1_def splice_at_def demo_defs)

lemma demo_rejectable: "rejectable demo_old demo_new demo_script"
  unfolding rejectable_def demo_runs
  by (intro conjI demo_valid)
    (simp_all add: lf_text_def ends_with_def no_collapse_simps replay1_def splice_at_def
      flip_builder_def demo_defs)

lemma demo_classify: "classify_string demo_new = Full demo_new"
  by (simp add: classify_string_Full demo_defs is_lfs_pointer_def lfs_pointer_prefix_def
      is_binary_def max_tracked_text_bytes_def)

section \<open>Reviewing an agent's write\<close>

text \<open>C1: when an agent writes new text to a tracked file whose baseline is a text and all hunks of the file are
  then accepted, the baseline becomes exactly the written text, no hunk is left and the disk is
  untouched. It asks that both texts differ and are lines without carriage returns that all end in a line
  feed, that the baseline is not empty and of a size that is compared, that the written text is kept as text,
  that the difference has been computed, and that replaying its hunks never leaves a single empty line.\<close>

theorem accept_after_write_converges:
  assumes "file_state_of t p = Some st" "fs_baseline st = Full b" "classify_string c = Full c" "b \<noteq> c"
    "length b \<le> max_diff_file_size" "ev_diff E b c = Some cs" "acceptable b c cs"
  shows "file_state_of (fst (apply_file_action E' p Accept (record_agent_write E p c i prev t))) p =
      Some (st\<lparr>fs_baseline := Full c, fs_current := Full c, fs_hunks := [], fs_is_agent_file := True,
               fs_baseline_accepted := True\<rparr>) \<and>
    tk_disk (fst (apply_file_action E' p Accept (record_agent_write E p c i prev t))) = tk_disk t"
  by (rule accept_after_write[OF assms])

theorem accept_after_write_converges_witness:
  "file_state_of (fst (apply_file_action demo_env demo_path Accept
      (record_agent_write demo_env demo_path demo_new 3 None demo_tracker))) demo_path =
    Some (new_file (Full demo_old) (Full demo_old) True
      \<lparr>fs_baseline := Full demo_new, fs_current := Full demo_new, fs_hunks := [],
       fs_is_agent_file := True, fs_baseline_accepted := True\<rparr>)"
  by (rule accept_after_write_converges[OF demo_file _ demo_classify _ _ _ demo_acceptable, THEN conjunct1])
    (simp_all add: new_file_def max_diff_file_size_def demo_defs)

text \<open>C2: when all hunks of the file are rejected instead and the write succeeds, the current
  text and the file on disk become exactly the baseline again, which stays as it was. It asks the same of
  the texts, with the written text in place of the baseline as the one that is not empty.\<close>

theorem reject_after_write_restores:
  assumes "file_state_of t p = Some st" "fs_baseline st = Full b" "classify_string c = Full c" "b \<noteq> c"
    "length b \<le> max_diff_file_size" "ev_diff E b c = Some cs" "rejectable b c cs"
    "ev_write_error E' p = None"
  shows "file_state_of (fst (apply_file_action E' p Reject (record_agent_write E p c i prev t))) p =
      Some (st\<lparr>fs_current := Full b, fs_hunks := [], fs_is_agent_file := True\<rparr>) \<and>
    tk_disk (fst (apply_file_action E' p Reject (record_agent_write E p c i prev t))) =
      tk_disk (write_disk p b t)"
  by (rule reject_after_write[OF assms])

theorem reject_after_write_restores_witness:
  "file_state_of (fst (apply_file_action demo_env demo_path Reject
      (record_agent_write demo_env demo_path demo_new 3 None demo_tracker))) demo_path =
    Some (new_file (Full demo_old) (Full demo_old) True
      \<lparr>fs_current := Full demo_old, fs_hunks := [], fs_is_agent_file := True\<rparr>) \<and>
   tk_disk (fst (apply_file_action demo_env demo_path Reject
      (record_agent_write demo_env demo_path demo_new 3 None demo_tracker))) =
     [(demo_path, DFile demo_old)]"
proof -
  have "tk_disk (write_disk demo_path demo_old demo_tracker) = [(demo_path, DFile demo_old)]"
    by (simp add: write_disk_def disk_at_def demo_tracker_def shape new_tracker_def)
  then show ?thesis
    using reject_after_write_restores[OF demo_file _ demo_classify _ _ _ demo_rejectable,
        of demo_env demo_env 3 None]
    by (simp add: new_file_def max_diff_file_size_def demo_defs)
qed

text \<open>Accepting one hunk of a file replaces exactly that hunk's lines of the baseline; the
  current text, every other file and the disk stay as they were.\<close>

theorem accept_one_hunk_splices:
  assumes "tracker_ok t" "file_state_of t p = Some st" "fs_baseline st = Full b" "fs_current st = Full c"
    "reflects cs (fs_hunks st)" "k < length (fs_hunks st)"
    "valid_script b c cs" "lf_text b" "lf_text c" "b \<noteq> []"
    "replay1 (change_runs cs 1 1 None ! k) (split_inclusive NL b) \<noteq> [[NL]]"
  shows "\<exists>hs. file_state_of (fst (apply_hunk_action E (h_id (fs_hunks st ! k)) Accept t)) p =
      Some (st\<lparr>fs_baseline := Full (concat (replay1 (change_runs cs 1 1 None ! k) (split_inclusive NL b))),
               fs_baseline_accepted := True, fs_hunks := hs\<rparr>) \<and>
    tk_disk (fst (apply_hunk_action E (h_id (fs_hunks st ! k)) Accept t)) = tk_disk t \<and>
    (\<forall>q. q \<noteq> p \<longrightarrow>
       file_state_of (fst (apply_hunk_action E (h_id (fs_hunks st ! k)) Accept t)) q = file_state_of t q)"
proof -
  let ?h = "fs_hunks st ! k"
  have h: "?h \<in> set (fs_hunks st)" using assms(6) by simp
  show ?thesis
    using accept_hunk_result(2)[OF assms(1-3) h, of E] accept_hunk_result(4)[OF assms(1-3) h, of E]
      accept_hunk_result(3)[OF assms(1-3) h, of _ E] accept_nth_text[OF assms(5-11)]
    by simp
qed

definition demo_written :: tracker where
  "demo_written = record_agent_write demo_env demo_path demo_new 3 None demo_tracker"

lemma demo_kept: "kept True {} demo_written"
  unfolding demo_written_def demo_tracker_def
  by (intro kept_record_agent_write kept_put_file kept_new_tracker) simp_all

lemma demo_written_file:
  obtains hs where "file_state_of demo_written demo_path = Some (new_file (Full demo_old) (Full demo_old) True
      \<lparr>fs_is_agent_file := True, fs_current := Full demo_new, fs_hunks := hs\<rparr>)"
    "reflects demo_script hs" "length hs = 2"
proof -
  have "demo_old \<noteq> demo_new" "length demo_old \<le> max_diff_file_size"
    "ev_diff demo_env demo_old demo_new = Some demo_script"
    by (simp_all add: demo_defs max_diff_file_size_def)
  then obtain hs where hs: "file_state_of demo_written demo_path =
      Some (new_file (Full demo_old) (Full demo_old) True
        \<lparr>fs_is_agent_file := True, fs_current := Full demo_new, fs_hunks := hs\<rparr>)"
    "reflects demo_script hs"
    using record_reflects[OF demo_file _ demo_classify _ _ _ demo_valid, of demo_env 3 None]
    by (auto simp: demo_written_def new_file_def)
  moreover have "length hs = 2"
    using arg_cong[OF hs(2)[unfolded reflects_def], of length] by (simp only: length_map length_build_all demo_runs) simp
  ultimately show ?thesis using that by blast
qed

theorem accept_one_hunk_splices_witness:
  "\<exists>st hs. file_state_of demo_written demo_path = Some st \<and>
     file_state_of (fst (apply_hunk_action demo_env (h_id (fs_hunks st ! 0)) Accept demo_written)) demo_path =
       Some (st\<lparr>fs_baseline := Full [CHR ''a'', NL, CHR ''x'', NL, CHR ''c'', NL],
                fs_baseline_accepted := True, fs_hunks := hs\<rparr>)"
proof -
  obtain hs where hs: "file_state_of demo_written demo_path = Some (new_file (Full demo_old) (Full demo_old) True
      \<lparr>fs_is_agent_file := True, fs_current := Full demo_new, fs_hunks := hs\<rparr>)"
    "reflects demo_script hs" "length hs = 2" by (rule demo_written_file)
  have r: "replay1 (change_runs demo_script 1 1 None ! 0) (split_inclusive NL demo_old) =
      [[CHR ''a'', NL], [CHR ''x'', NL], [CHR ''c'', NL]]"
    unfolding demo_runs by (simp add: replay1_def splice_at_def demo_defs)
  have lf: "lf_text demo_old" "lf_text demo_new" "demo_old \<noteq> []"
    by (simp_all add: lf_text_def ends_with_def demo_defs)
  show ?thesis
    using accept_one_hunk_splices[OF kept_ok[OF demo_kept] hs(1), of demo_old demo_new demo_script 0 demo_env]
      hs demo_valid r lf
    by (simp add: new_file_def)
qed

section \<open>Every reachable state\<close>

text \<open>Runs of an actor: commands are sent, files change outside, rounds are executed.\<close>

definition demo_inputs :: "actor_input list" where
  "demo_inputs =
     [Outside demo_path (Some (DFile demo_new)),
      Send (RecordAgentWrite demo_path demo_new 3 (Some demo_old)), Send GetAllHunks,
      Round demo_env, Send (AllAction Accept), Round demo_env, Send (HandleFileChange demo_path),
      Round demo_env, Round demo_env]"

definition demo_actor :: actor where
  "demo_actor = run actor_step (new_actor demo_env [''w''] AgentOnly []) demo_inputs"

lemma reachable_kept:
  "list_all (input_ok b) es \<Longrightarrow> kept b {} (ac_tracker (run actor_step (new_actor E wd mode disk) es))"
  using actor_run_inv[of b es E wd mode disk] by (simp add: actor_inv_def)

lemma demo_inputs_ok: "list_all (input_ok b) demo_inputs"
  by (simp add: demo_inputs_def io_ok_def demo_env_def)

text \<open>C3: in every state an actor reaches, through any interleaving of commands (restored
  snapshots being well formed), outside changes and failing or succeeding file operations,
  each file is tracked once, its hunks carry its path, lie between two texts or a text and a
  missing file, hunk ids are unique across all files and below the id supply, and an id in
  the turn index names a live hunk only under the prompt that wrote it.\<close>

theorem reachable_tracker_ok:
  assumes "list_all (input_ok False) es"
  shows "tracker_ok (ac_tracker (run actor_step (new_actor E wd mode disk) es))"
  by (rule kept_ok[OF reachable_kept[OF assms]])

theorem reachable_tracker_ok_witness: "tracker_ok (ac_tracker demo_actor)"
  unfolding demo_actor_def by (rule reachable_tracker_ok) (rule demo_inputs_ok)

lemma all_hunks_mem:
  "distinct_keys (tk_file_states t) \<Longrightarrow>
   h \<in> set (get_all_hunks t) \<longleftrightarrow> (\<exists>p st. file_state_of t p = Some st \<and> h \<in> set (fs_hunks st))"
  unfolding get_all_hunks_def file_state_of_def by (auto dest: map_of_SomeD)

lemma get_hunk_live:
  assumes ok: "tracker_ok t" and h: "h \<in> set (get_all_hunks t)"
  shows "get_hunk t (h_id h) = Some h"
proof -
  obtain p st where st: "file_state_of t p = Some st" "h \<in> set (fs_hunks st)"
    using h all_hunks_mem[OF ok_keys[OF ok]] by blast
  obtain g where g: "get_hunk t (h_id h) = Some g"
    using h unfolding get_hunk_def by (cases "List.find (\<lambda>g. h_id g = h_id h) (get_all_hunks t)")
      (auto simp: find_None_iff)
  then have "g \<in> set (get_all_hunks t)" "h_id g = h_id h"
    unfolding get_hunk_def by (auto dest: find_Some_in)
  then show ?thesis
    using ok_same_hunk[OF ok st] all_hunks_mem[OF ok_keys[OF ok]] g by blast
qed

lemma get_hunk_Some: "get_hunk t i = Some h \<Longrightarrow> h \<in> set (get_all_hunks t) \<and> h_id h = i"
  unfolding get_hunk_def by (auto dest: find_Some_in)

text \<open>In every reachable state the id of a pending hunk leads back to that hunk, both for
  queries and for an action on it.\<close>

theorem reachable_ids_resolve:
  assumes "list_all (input_ok False) es"
    and "h \<in> set (get_all_hunks (ac_tracker (run actor_step (new_actor E wd mode disk) es)))"
  shows "get_hunk (ac_tracker (run actor_step (new_actor E wd mode disk) es)) (h_id h) = Some h \<and>
    find_hunk_file (h_id h) (tk_file_states (ac_tracker (run actor_step (new_actor E wd mode disk) es))) =
      Some (h_path h, h)"
proof -
  let ?t = "ac_tracker (run actor_step (new_actor E wd mode disk) es)"
  have ok: "tracker_ok ?t"
    by (rule kept_ok[OF reachable_kept[OF assms(1)]])
  obtain p st where st: "file_state_of ?t p = Some st" "h \<in> set (fs_hunks st)"
    using assms(2) all_hunks_mem[OF ok_keys[OF ok]] by blast
  then have "h_path h = p" using ok_file[OF ok] by (auto simp: file_ok_def)
  then show ?thesis
    using get_hunk_live[OF ok assms(2)] find_live_hunk[OF ok st] by simp
qed

text \<open>A run that leaves two hunks pending.\<close>

definition demo_pending :: "actor_input list" where
  "demo_pending = [Send (RecordAgentWrite demo_path demo_new 3 (Some demo_old)), Round demo_env]"

lemma demo_pending_tracker:
  "ac_tracker (run actor_step (new_actor demo_env [''w''] AgentOnly []) demo_pending) =
   record_agent_write demo_env demo_path demo_new 3 (Some demo_old) (new_tracker [''w''] AgentOnly [])"
  by (simp add: demo_pending_def new_actor_def start_tracker_def new_tracker_def)

lemma demo_head: "read_baseline demo_env demo_path (new_tracker [''w''] AgentOnly []) =
    (Full demo_old, cache_repo (Some (Discovered [])) (new_tracker [''w''] AgentOnly []))"
proof -
  have "classify_string demo_old = Full demo_old"
    by (simp add: classify_string_Full demo_defs is_lfs_pointer_def lfs_pointer_prefix_def
        is_binary_def max_tracked_text_bytes_def)
  moreover have "utf8_valid demo_old" by (simp add: demo_old_def in_range_def)
  ultimately have "classify_bytes demo_old = Full demo_old" by (simp add: classify_bytes_utf8)
  then show ?thesis
    by (simp add: read_baseline_def new_tracker_def demo_env_def canonicalize_or_self_def head_content_def
        canonicalize_or_parent_def demo_path_def)
qed

lemma demo_pending_hunks:
  "get_all_hunks (ac_tracker (run actor_step (new_actor demo_env [''w''] AgentOnly []) demo_pending)) \<noteq> []"
proof -
  let ?t = "put_file demo_path (new_file (Full demo_old) (Full demo_new) True)
      (cache_repo (Some (Discovered [])) (new_tracker [''w''] AgentOnly []))"
  let ?u = "recompute_hunks demo_env demo_path (Some (Full demo_new)) (AgentEdit 3)
      (send_event (FileAdded demo_path True) ?t)"
  have none: "file_state_of (new_tracker [''w''] AgentOnly []) demo_path = None"
    by (simp add: file_state_of_def new_tracker_def)
  have run: "record_agent_write demo_env demo_path demo_new 3 (Some demo_old)
      (new_tracker [''w''] AgentOnly []) = ?u"
    by (simp add: record_agent_write_def demo_classify demo_head none Let_def)
  have st: "file_state_of (send_event (FileAdded demo_path True) ?t) demo_path =
      Some (new_file (Full demo_old) (Full demo_new) True)"
    by (simp add: shape)
  have d: "demo_old \<noteq> demo_new" "length demo_old \<le> max_diff_file_size"
    "ev_diff demo_env demo_old demo_new = Some demo_script"
    by (simp_all add: demo_defs max_diff_file_size_def)
  obtain hs where hs: "file_state_of ?u demo_path = Some (new_file (Full demo_old) (Full demo_new) True
      \<lparr>fs_current := Full demo_new, fs_hunks := hs\<rparr>)" "length hs = 2"
    by (rule recompute_reflects[OF st _ demo_classify d, of "AgentEdit 3"])
      (simp_all add: new_file_def demo_runs[unfolded One_nat_def])
  then have "hs \<noteq> []" by auto
  have ok: "tracker_ok ?u"
    using kept_ok[OF reachable_kept[of False demo_pending demo_env "[''w'']" AgentOnly "[]"]]
    unfolding demo_pending_tracker run by (simp add: demo_pending_def)
  have "hd hs \<in> set (fs_hunks (new_file (Full demo_old) (Full demo_new) True
      \<lparr>fs_current := Full demo_new, fs_hunks := hs\<rparr>))"
    using \<open>hs \<noteq> []\<close> by simp
  with hs(1) have "hd hs \<in> set (get_all_hunks ?u)"
    unfolding all_hunks_mem[OF ok_keys[OF ok]] by blast
  then show ?thesis unfolding demo_pending_tracker run by auto
qed

theorem reachable_ids_resolve_witness:
  "\<exists>h. get_hunk (ac_tracker (run actor_step (new_actor demo_env [''w''] AgentOnly []) demo_pending)) (h_id h)
     = Some h"
proof -
  let ?t = "ac_tracker (run actor_step (new_actor demo_env [''w''] AgentOnly []) demo_pending)"
  have "hd (get_all_hunks ?t) \<in> set (get_all_hunks ?t)" using demo_pending_hunks by simp
  from reachable_ids_resolve[OF _ this] show ?thesis by (auto simp: demo_pending_def)
qed

lemma map_filter_mem: "x \<in> set (List.map_filter f xs) \<longleftrightarrow> (\<exists>y \<in> set xs. f y = Some x)"
  by (induction xs) (auto split: option.splits)

lemma turn_query_exact:
  assumes k: "kept True {} t"
  shows "set (get_hunks_for_turn t i) = {h \<in> set (get_all_hunks t). prompt_index (h_source h) = Some i}"
proof -
  note ok = kept_ok[OF k]
  have c: "complete {} t" using k by (simp add: kept_def)
  have turn: "set (get_hunks_for_turn t i) = {h. \<exists>j \<in> indexed_ids (tk_turn_index t) i. get_hunk t j = Some h}"
    by (cases "map_of (tk_turn_index t) i") (auto simp: get_hunks_for_turn_def index_ids_def map_filter_mem)
  show ?thesis
  proof (intro equalityI subsetI)
    fix h assume "h \<in> set (get_hunks_for_turn t i)"
    then have h: "h_id h \<in> indexed_ids (tk_turn_index t) i" "h \<in> set (get_all_hunks t)"
      unfolding turn using get_hunk_Some by auto
    then show "h \<in> {h \<in> set (get_all_hunks t). prompt_index (h_source h) = Some i}"
      using ok_index[OF ok] all_hunks_mem[OF ok_keys[OF ok]] by blast
  next
    fix h assume "h \<in> {h \<in> set (get_all_hunks t). prompt_index (h_source h) = Some i}"
    then have h: "h \<in> set (get_all_hunks t)" "prompt_index (h_source h) = Some i" by auto
    then obtain p st where "file_state_of t p = Some st" "h \<in> set (fs_hunks st)"
      using all_hunks_mem[OF ok_keys[OF ok]] by blast
    then have "h_id h \<in> indexed_ids (tk_turn_index t) i"
      using completeD[OF c _ _ _ h(2)] by blast
    then show "h \<in> set (get_hunks_for_turn t i)"
      unfolding turn using get_hunk_live[OF ok h(1)] by blast
  qed
qed

text \<open>As long as no file operation fails, the index answers the query for a turn exactly:
  its hunks are the pending hunks attributed to that prompt, in every reachable state.\<close>

theorem reachable_turn_query:
  assumes "list_all (input_ok True) es"
  shows "set (get_hunks_for_turn (ac_tracker (run actor_step (new_actor E wd mode disk) es)) i) =
    {h \<in> set (get_all_hunks (ac_tracker (run actor_step (new_actor E wd mode disk) es))).
       prompt_index (h_source h) = Some i}"
  by (rule turn_query_exact[OF reachable_kept[OF assms]])

theorem reachable_turn_query_witness:
  "set (get_hunks_for_turn (ac_tracker demo_actor) 3) =
     {h \<in> set (get_all_hunks (ac_tracker demo_actor)). prompt_index (h_source h) = Some 3}"
  unfolding demo_actor_def by (rule reachable_turn_query) (rule demo_inputs_ok)

end
