(* ===== verification/Hunk_Behaviour.thy ===== *)
theory Hunk_Behaviour
  imports Hunk_Properties
begin

text \<open>
  Further properties of the hunk tracker: attribution sums, failed file operations,
  snapshots, tracking modes and coalescing.
\<close>

section \<open>Attribution sums\<close>

text \<open>C4: with a writer that does not fail, the sum over the written records of a hunk is what
  the sink still holds open for it plus what it had accumulated whenever the hunk was
  accepted, however the events are split between the loop and the final drain.\<close>

theorem loc_records_sum:
  assumes "reliable cx"
  shows "(added_total i (lk_records (run_loc_sink cx received remaining)),
          removed_total i (lk_records (run_loc_sink cx received remaining))) =
    (fst (open_total (run_loc_sink cx received remaining) i) + fst (accepted_total cx i (received @ remaining)),
     snd (open_total (run_loc_sink cx received remaining) i) + snd (accepted_total cx i (received @ remaining)))"
  using loc_sums[OF assms, of i "received @ remaining"] by (simp add: run_loc_sink_def)

definition demo_ctx :: loc_ctx where
  "demo_ctx = \<lparr>cx_session_id = ''s'', cx_agent_id = ''m'', cx_user_id = None, cx_aggregates = True,
     cx_now = 9, cx_write_ok = (\<lambda>r. True)\<rparr>"

definition demo_hunk :: hunk where
  "demo_hunk = file_created 4 7 demo_path demo_new (AgentEdit 3)"

lemma demo_lines: "h_line_info demo_hunk = \<lparr>old_start = 0, old_count = 0, new_start = 1, new_count = 4\<rparr>"
  by (simp add: demo_hunk_def file_created_def demo_new_def text_lines_def str_lines_def)

lemma demo_reliable: "reliable demo_ctx"
  by (simp add: reliable_def demo_ctx_def)

theorem loc_records_sum_witness:
  "added_total 4 (lk_records (run_loc_sink demo_ctx [HunkAdded demo_path demo_hunk] [])) = 4"
proof -
  have "h_id demo_hunk = 4" by (simp add: demo_hunk_def file_created_def)
  then have "open_total (run_loc_sink demo_ctx [HunkAdded demo_path demo_hunk] []) 4 = (4, 0)"
    "accepted_total demo_ctx 4 [HunkAdded demo_path demo_hunk] = (0, 0)"
    by (simp_all add: run_loc_sink_def shape Let_def demo_lines accepted_total_def open_total_def new_sink_def
        acc_add_def)
  then show ?thesis
    using loc_records_sum[OF demo_reliable, of 4 "[HunkAdded demo_path demo_hunk]" "[]"] by simp
qed

lemma never_accepted:
  "\<forall>p. HunkRemoved p i Accepted \<notin> set es \<Longrightarrow> snd (run (accepted_step cx i) (s, a, r) es) = (a, r)"
proof (induction es arbitrary: s)
  case (Cons e es)
  then have "snd (accepted_step cx i (s, a, r) e) = (a, r)"
    by (auto split: hunk_event.splits removal_reason.splits)
  moreover obtain u where "accepted_step cx i (s, a, r) e = (u, a, r)"
    using calculation by (metis prod.collapse)
  ultimately show ?case using Cons by simp
qed simp

lemma reverted_closed:
  "distinct_keys (lk_acc s) \<Longrightarrow> open_total (revert_lines cx p i reason s) i = (0, 0)"
  by (auto simp: revert_lines_def shape Let_def split: option.splits)

text \<open>A hunk that was never accepted and is then rejected or superseded contributes
  nothing: its records sum to zero lines added and removed.\<close>

theorem loc_reverted_sums_to_zero:
  assumes "reliable cx" "\<forall>p. HunkRemoved p i Accepted \<notin> set es" "reason \<noteq> Accepted"
  shows "added_total i (lk_records (run_loc_sink cx (es @ [HunkRemoved p i reason]) [])) = 0 \<and>
         removed_total i (lk_records (run_loc_sink cx (es @ [HunkRemoved p i reason]) [])) = 0"
proof -
  let ?es = "es @ [HunkRemoved p i reason]"
  let ?s = "run (handle_event cx) new_sink es"
  have "\<forall>q. HunkRemoved q i Accepted \<notin> set ?es" using assms(2,3) by auto
  then have "accepted_total cx i ?es = (0, 0)"
    unfolding accepted_total_def by (rule never_accepted)
  moreover have "distinct_keys (lk_acc ?s)"
    using sums_run[OF assms(1), of i es] accepted_run[of cx i new_sink "(0, 0)" es]
    by (auto simp: sums_ok_def split: prod.splits)
  then have "open_total (run (handle_event cx) new_sink ?es) i = (0, 0)"
    using assms(3) by (cases reason) (simp_all add: reverted_closed)
  ultimately show ?thesis
    using loc_sums[OF assms(1), of i ?es] by (simp add: run_loc_sink_def)
qed

theorem loc_reverted_sums_to_zero_witness:
  "added_total 4 (lk_records (run_loc_sink demo_ctx
     ([HunkAdded demo_path demo_hunk] @ [HunkRemoved demo_path 4 Superseded]) [])) = 0"
  by (rule loc_reverted_sums_to_zero[OF demo_reliable, THEN conjunct1]) simp_all

section \<open>Failed file operations\<close>

text \<open>When the write of a rejected hunk fails, the error names the path and the files, the
  disk and the events are as before: the hunk stays pending. But it has already been counted
  as rejected and has left the turn index.\<close>

theorem reject_write_error:
  assumes "tracker_ok t" "file_state_of t p = Some st" "fs_baseline st = Full b" "fs_current st = Full c"
    "h \<in> set (fs_hunks st)" "ev_write_error E p = Some e"
  shows "snd (apply_hunk_action E (h_id h) Reject t) = Inl (WriteError p e) \<and>
    tk_file_states (fst (apply_hunk_action E (h_id h) Reject t)) = tk_file_states t \<and>
    tk_disk (fst (apply_hunk_action E (h_id h) Reject t)) = tk_disk t \<and>
    tk_events (fst (apply_hunk_action E (h_id h) Reject t)) = tk_events t \<and>
    tk_stats (fst (apply_hunk_action E (h_id h) Reject t)) =
      update_session_stats (h_line_info h) False (tk_stats t) \<and>
    (\<forall>i. h_id h \<notin> indexed_ids (tk_turn_index (fst (apply_hunk_action E (h_id h) Reject t))) i)"
proof -
  have run: "apply_hunk_action E (h_id h) Reject t = (settle_hunk Reject h t, Inl (WriteError p e))"
    using find_live_hunk[OF assms(1,2,5)] assms(2-4,6)
    by (simp add: apply_hunk_action_def reject_hunk_def fs_write_def file_state_of_def shape Let_def)
  have "prompt_index (h_source h) = Some i" if "h_id h \<in> indexed_ids (tk_turn_index t) i" for i
    by (rule ok_index[OF assms(1,2,5) that])
  then show ?thesis by (auto simp: run shape indexed_settle split: if_splits)
qed

definition demo_full :: env where
  "demo_full = demo_env\<lparr>ev_write_error := (\<lambda>p. Some (IoError ''disk full''))\<rparr>"

theorem reject_write_error_witness:
  "\<exists>st. file_state_of demo_written demo_path = Some st \<and>
     snd (apply_hunk_action demo_full (h_id (fs_hunks st ! 0)) Reject demo_written) =
       Inl (WriteError demo_path (IoError ''disk full''))"
proof -
  obtain hs where hs: "file_state_of demo_written demo_path = Some (new_file (Full demo_old) (Full demo_old) True
      \<lparr>fs_is_agent_file := True, fs_current := Full demo_new, fs_hunks := hs\<rparr>)"
    "reflects demo_script hs" "length hs = 2" by (rule demo_written_file)
  then have "hs ! 0 \<in> set hs" by (simp add: nth_mem)
  then show ?thesis
    using reject_write_error[OF kept_ok[OF demo_kept] hs(1), of demo_old demo_new "hs ! 0" demo_full]
      hs(1) by (simp add: new_file_def demo_full_def)
qed

section \<open>Snapshots\<close>

text \<open>Restoring a snapshot of a reachable tracker into any tracker brings back its files with
  their hunks, its turn index and its statistics, and the ids issued afterwards are new: the
  restored tracker satisfies the invariant.\<close>

theorem snapshot_roundtrip:
  assumes "tracker_ok t"
  shows "tk_file_states (restore_snapshot (take_snapshot t) u) = tk_file_states t \<and>
    tk_turn_index (restore_snapshot (take_snapshot t) u) = tk_turn_index t \<and>
    tk_stats (restore_snapshot (take_snapshot t) u) = tk_stats t \<and>
    tracker_ok (restore_snapshot (take_snapshot t) u)"
proof -
  have s: "state_ok {} (sn_file_states (take_snapshot t)) (sn_turn_index (take_snapshot t))"
    using assms by (simp add: take_snapshot_def ok_except_def)
  then have "snapshot_ok False (take_snapshot t)" by (simp add: snapshot_ok_def)
  from kept_ok[OF kept_restore[OF this]] restore_files[OF s, of u]
  show ?thesis by (simp add: take_snapshot_def restore_snapshot_def)
qed

theorem snapshot_roundtrip_witness:
  "tk_file_states (restore_snapshot (take_snapshot demo_written) demo_tracker) = tk_file_states demo_written"
  using snapshot_roundtrip[OF kept_ok[OF demo_kept]] by blast

text \<open>Moving a snapshot to another working directory.\<close>

lemma collect_rewrite:
  assumes "distinct_keys fss" "\<forall>(p, st) \<in> set fss. \<exists>r. p = old @ r"
  shows "collect_map (map (rewrite_entry old old new) fss) = map (rewrite_entry old old new) fss"
proof (rule collect_map_distinct)
  have r: "fst (rewrite_entry old old new (old @ r, st)) = new @ r" for r st
    by (simp add: rewrite_entry_def rewrite_single_path_def strip_prefix_Some[THEN iffD2] Let_def)
  have "inj_on (\<lambda>e. fst (rewrite_entry old old new e)) (set fss)"
  proof (rule inj_onI)
    fix x y assume xy: "x \<in> set fss" "y \<in> set fss"
      "fst (rewrite_entry old old new x) = fst (rewrite_entry old old new y)"
    obtain p u q v where x: "x = (p, u)" and y: "y = (q, v)" by force
    have "\<exists>a. p = old @ a" "\<exists>b. q = old @ b" using assms(2) xy(1,2) unfolding x y by blast+
    then have "p = q" using xy(3) r unfolding x y by auto
    then show "x = y" using assms(1) xy(1,2) x y by (metis eq_key_imp_eq_value)
  qed
  moreover have "distinct fss" using assms(1) by (simp add: distinct_map)
  ultimately show "distinct_keys (map (rewrite_entry old old new) fss)"
    by (simp add: distinct_map comp_def inj_on_def)
qed

text \<open>Rewriting the paths of a snapshot from one working directory to another and back gives
  the snapshot again, when its files lie under the first and its hunks carry their paths.\<close>

theorem rewrite_paths_roundtrip:
  assumes "state_ok {} (sn_file_states sn) (sn_turn_index sn)"
    and "\<forall>(p, st) \<in> set (sn_file_states sn). \<exists>r. p = old @ r"
  shows "rewrite_paths new new old (rewrite_paths old old new sn) = sn"
proof -
  let ?f = "rewrite_entry old old new" and ?g = "rewrite_entry new new old"
  let ?fss = "sn_file_states sn"
  have keys: "distinct_keys ?fss" using assms(1) by (simp add: state_ok_def)
  have undo: "?g (?f (p, st)) = (p, st)" "\<exists>r. fst (?f (p, st)) = new @ r" if "(p, st) \<in> set ?fss" for p st
  proof -
    obtain r where r: "p = old @ r" using assms(2) \<open>(p, st) \<in> set ?fss\<close> by blast
    have "map_of ?fss p = Some st" using keys that by simp
    then have paths: "map (\<lambda>h. h\<lparr>h_path := old @ r\<rparr>) (fs_hunks st) = fs_hunks st"
      using assms(1) r by (auto simp: state_ok_def files_ok_def file_ok_def intro!: map_idI)
    show "?g (?f (p, st)) = (p, st)"
      using paths by (simp add: r rewrite_entry_def rewrite_single_path_def
          strip_prefix_Some[THEN iffD2] Let_def comp_def)
    show "\<exists>r. fst (?f (p, st)) = new @ r"
      by (simp add: r rewrite_entry_def rewrite_single_path_def strip_prefix_Some[THEN iffD2] Let_def)
  qed
  have f: "collect_map (map ?f ?fss) = map ?f ?fss" by (rule collect_rewrite[OF keys assms(2)])
  have gf: "map ?g (map ?f ?fss) = ?fss" using undo(1) by (auto intro!: map_idI)
  have "collect_map (map ?g (map ?f ?fss)) = map ?g (map ?f ?fss)"
    unfolding gf by (rule collect_map_distinct[OF keys])
  then show ?thesis by (simp add: rewrite_paths_def f gf del: map_map)
qed

theorem rewrite_paths_roundtrip_witness:
  "rewrite_paths [''n''] [''n''] [''w''] (rewrite_paths [''w''] [''w''] [''n''] (take_snapshot demo_tracker)) =
     take_snapshot demo_tracker"
proof (rule rewrite_paths_roundtrip)
  have "tracker_ok demo_tracker"
    unfolding demo_tracker_def by (rule kept_ok[OF kept_put_file[OF kept_new_tracker]]) simp_all
  then show "state_ok {} (sn_file_states (take_snapshot demo_tracker)) (sn_turn_index (take_snapshot demo_tracker))"
    by (simp add: take_snapshot_def ok_except_def)
  show "\<forall>(p, st) \<in> set (sn_file_states (take_snapshot demo_tracker)). \<exists>r. p = [''w''] @ r"
    by (simp add: take_snapshot_def demo_tracker_def shape new_tracker_def demo_path_def)
qed

section \<open>Tracking modes\<close>

lemma delete_filter: "AList.delete k m = filter (\<lambda>(k', v). k' \<noteq> k) m"
  unfolding AList.delete_eq by (rule filter_cong) auto

lemma stop_tracking_files:
  "tk_file_states (stop_tracking p t) = filter (\<lambda>(q, st). q \<noteq> p) (tk_file_states t)"
proof (cases "file_state_of t p")
  case None
  then have "\<forall>x \<in> set (tk_file_states t). fst x \<noteq> p"
    by (auto simp: file_state_of_def map_of_eq_None_iff)
  then have "filter (\<lambda>(q, st). q \<noteq> p) (tk_file_states t) = tk_file_states t"
    by (auto intro!: filter_True)
  then show ?thesis using None by (simp add: stop_tracking_def)
qed (simp add: stop_tracking_def shape delete_filter)

lemma stop_all_files:
  "tk_file_states (fold stop_tracking ps t) = filter (\<lambda>(q, st). q \<notin> set ps) (tk_file_states t)"
  by (induction ps arbitrary: t) (auto simp: stop_tracking_files case_prod_beta intro!: filter_cong)

text \<open>Switching from all-dirty to agent-only tracking keeps exactly the files an agent wrote,
  unchanged, and forgets every other file with its hunks.\<close>

theorem agent_only_keeps_agent_files:
  assumes "tracker_ok t" "tk_mode t = AllDirty"
  shows "tk_file_states (set_mode E AgentOnly t) =
    filter (\<lambda>(p, st). fs_is_agent_file st) (tk_file_states t)"
proof -
  let ?ps = "map fst (filter (\<lambda>(p, st). \<not> fs_is_agent_file st) (tk_file_states t))"
  have mem: "p \<in> set ?ps \<longleftrightarrow> \<not> fs_is_agent_file st" if "(p, st) \<in> set (tk_file_states t)" for p st
    using that ok_keys[OF assms(1)] by (force dest: eq_key_imp_eq_value)
  have "tk_file_states (set_mode E AgentOnly t) = filter (\<lambda>(q, st). q \<notin> set ?ps) (tk_file_states t)"
    using assms(2) by (simp add: set_mode_def Let_def stop_all_files del: set_map)
  also have "\<dots> = filter (\<lambda>(p, st). fs_is_agent_file st) (tk_file_states t)"
    by (rule filter_cong[OF refl]) (use mem in \<open>auto simp del: set_map\<close>)
  finally show ?thesis .
qed

theorem agent_only_keeps_agent_files_witness:
  "tk_file_states (set_mode demo_env AgentOnly (demo_tracker\<lparr>tk_mode := AllDirty\<rparr>)) =
     tk_file_states demo_tracker"
proof -
  have "kept False {} demo_tracker"
    unfolding demo_tracker_def by (rule kept_put_file[OF kept_new_tracker]) simp_all
  then have "tracker_ok (demo_tracker\<lparr>tk_mode := AllDirty\<rparr>)"
    using kept_ok kept_caches(4) by blast
  from agent_only_keeps_agent_files[OF this, of demo_env] show ?thesis
    by (simp add: demo_tracker_def shape new_tracker_def new_file_def)
qed

section \<open>Coalescing\<close>

text \<open>The commands about one file: whether each is a deletion.\<close>

fun file_notes :: "path \<Rightarrow> command list \<Rightarrow> bool list" where
  "file_notes p [] = []"
| "file_notes p (HandleFileChange q # cs) = (if q = p then False # file_notes p cs else file_notes p cs)"
| "file_notes p (HandleFileDeleted q # cs) = (if q = p then True # file_notes p cs else file_notes p cs)"
| "file_notes p (c # cs) = file_notes p cs"

definition net_action :: "bool list \<Rightarrow> path_action option" where
  "net_action ds =
     (if ds = [] then None else if last ds then Some Deleted
      else if True \<in> set ds then Some DeletedThenChanged else Some Changed)"

lemma net_action_snoc:
  "net_action (ds @ [True]) = Some Deleted"
  "net_action (ds @ [False]) = Some (changed_action (net_action ds))"
proof -
  have "True \<in> set ds" if "ds \<noteq> []" "last ds" using last_in_set[OF that(1)] that(2) by simp
  then show "net_action (ds @ [False]) = Some (changed_action (net_action ds))"
    by (auto simp: net_action_def changed_action_def)
qed (simp add: net_action_def)

lemma file_notes_append: "file_notes p (cs @ ds) = file_notes p cs @ file_notes p ds"
  by (induction p cs rule: file_notes.induct) auto

lemma coalesce_snoc: "drain_and_coalesce c (cs @ [d]) = add_command (drain_and_coalesce c cs) d"
  by (simp add: drain_and_coalesce_def)

lemma batch_actions:
  "map_of (bt_file_actions (foldl add_command new_batch cs)) p = net_action (file_notes p cs)"
proof (induction cs rule: rev_induct)
  case Nil
  then show ?case by (simp add: new_batch_def net_action_def)
next
  case (snoc c cs)
  then show ?case by (cases c) (auto simp: file_notes_append net_action_snoc)
qed

lemma batch_rest:
  "bt_other (foldl add_command new_batch cs) = filter (\<lambda>c. \<not> is_coalescable c) cs \<and>
   bt_refresh_all (foldl add_command new_batch cs) = (RefreshAllBaselines \<in> set cs) \<and>
   bt_refresh_dirty (foldl add_command new_batch cs) = (RefreshGitDirtyCache \<in> set cs) \<and>
   bt_count (foldl add_command new_batch cs) = length cs"
proof (induction cs rule: rev_induct)
  case Nil
  then show ?case by (simp add: new_batch_def)
next
  case (snoc c cs)
  then show ?case by (cases c) auto
qed

text \<open>A coalesced batch holds the net effect of its commands: for each file a deletion exactly
  when the last notification of the file is one, a change after a deletion when a deletion
  precedes a final change, a change when there were only changes, nothing otherwise; the
  refreshes that were asked for; and every other command, once and in order.\<close>

theorem coalesced_batch_net_effect:
  "map_of (bt_file_actions (drain_and_coalesce c cs)) p = net_action (file_notes p (c # cs)) \<and>
   bt_other (drain_and_coalesce c cs) = filter (\<lambda>c. \<not> is_coalescable c) (c # cs) \<and>
   bt_refresh_all (drain_and_coalesce c cs) = (RefreshAllBaselines \<in> set (c # cs)) \<and>
   bt_refresh_dirty (drain_and_coalesce c cs) = (RefreshGitDirtyCache \<in> set (c # cs)) \<and>
   bt_count (drain_and_coalesce c cs) = length (c # cs)"
  using batch_actions[of "c # cs" p] batch_rest[of "c # cs"] by (simp add: drain_and_coalesce_def)

section \<open>One hunk and batches\<close>

text \<open>Accepting or rejecting a single hunk and a batch of that one hunk are the same
  operation, errors included.\<close>

theorem single_action_is_batch_of_one:
  "accept_hunk E p h t = accept_hunks_batch E p [h] t \<and> reject_hunk E p h t = reject_hunks_batch E p [h] t"
  by (simp add: accept_one_batch reject_one_batch)

text \<open>The batched reading of baselines gives every requested path what a single read gives
  it, also outside a repository.\<close>

theorem batched_baselines_agree:
  assumes "p \<in> set ps"
  shows "(case map_of (fst (read_baselines_batch E ps t)) p of None \<Rightarrow> Missing | Some c \<Rightarrow> c) =
         fst (read_baseline E p t)"
  by (rule read_baselines_batch_single[OF assms])

theorem batched_baselines_agree_witness:
  "(case map_of (fst (read_baselines_batch demo_env [demo_path] demo_tracker)) demo_path of
      None \<Rightarrow> Missing | Some c \<Rightarrow> c) = fst (read_baseline demo_env demo_path demo_tracker)"
  by (rule batched_baselines_agree) simp

text \<open>Reading a file in bounds classifies it as classifying all of its bytes does; text is
  kept only when it is valid UTF-8 within the limit.\<close>

theorem bounded_read_classifies:
  "read_file_bounded (Some (DFile b)) = classify_bytes b \<and>
   (read_file_bounded (Some (DFile b)) = Full s \<longrightarrow>
      s = b \<and> utf8_valid b \<and> length b \<le> max_tracked_text_bytes)"
  using read_file_classify[of b] classify_bytes_Full[of b s] classify_string_Full[of b s] by simp

theorem bounded_read_classifies_witness:
  "read_file_bounded (Some (DFile demo_new)) = Full demo_new \<and> utf8_valid demo_new"
proof -
  have "utf8_valid demo_new" by (simp add: demo_new_def in_range_def)
  then have "read_file_bounded (Some (DFile demo_new)) = Full demo_new"
    using read_file_classify classify_bytes_utf8 demo_classify by metis
  with bounded_read_classifies[of demo_new demo_new] show ?thesis by blast
qed

end
