(* ===== verification/Hunk_Display.thy ===== *)
theory Hunk_Display
  imports Hunk_Properties
begin

text \<open>
  The session summary counts what is pending: its turns together hold every hunk an agent
  wrote, once, and their line counts add up.
\<close>

definition agent_hunks :: "hunk list \<Rightarrow> hunk list" where
  "agent_hunks hs = filter (\<lambda>h. is_agent_edit (h_source h)) hs"

lemma agent_iff_prompt: "is_agent_edit src \<longleftrightarrow> prompt_index src \<noteq> None"
  by (cases src) auto

text \<open>Sums over the values of a map.\<close>

definition value_sum :: "('v \<Rightarrow> nat) \<Rightarrow> ('k \<times> 'v) list \<Rightarrow> nat" where
  "value_sum f m = sum_list (map (\<lambda>(k, v). f v) m)"

lemma value_sum_update:
  "value_sum f (AList.update k v m) + (case map_of m k of None \<Rightarrow> 0 | Some w \<Rightarrow> f w) =
   value_sum f m + f v"
  by (induction m) (auto simp: value_sum_def)

lemma value_sum_add:
  assumes "f v = (case map_of m k of None \<Rightarrow> 0 | Some w \<Rightarrow> f w) + d"
  shows "value_sum f (AList.update k v m) = value_sum f m + d"
  using value_sum_update[of f k v m] assms by simp

text \<open>One counter of the loop: it adds \<open>g h\<close> for every agent hunk \<open>h\<close>.\<close>

definition counts :: "(turn_data \<Rightarrow> nat) \<Rightarrow> (hunk \<Rightarrow> nat) \<Rightarrow> bool" where
  "counts f g \<longleftrightarrow> f empty_turn = 0 \<and> (\<forall>p h d. f (add_turn_hunk p h d) = f d + g h)"

lemma counts_fields:
  "counts (\<lambda>d. length (td_pending d)) (\<lambda>h. 1)"
  "counts td_lines_added (\<lambda>h. new_count (h_line_info h))"
  "counts td_lines_removed (\<lambda>h. old_count (h_line_info h))"
  by (simp_all add: counts_def empty_turn_def add_turn_hunk_def)

lemma summary_hunk_counts:
  assumes "counts f g"
  shows "value_sum f (sa_by_prompt (summary_hunk p h a)) =
    value_sum f (sa_by_prompt a) + (if is_agent_edit (h_source h) then g h else 0)"
proof (cases "prompt_index (h_source h)")
  case (Some i)
  have "f (add_turn_hunk p h (case map_of (sa_by_prompt a) i of None \<Rightarrow> empty_turn | Some d \<Rightarrow> d)) =
      (case map_of (sa_by_prompt a) i of None \<Rightarrow> 0 | Some w \<Rightarrow> f w) + g h"
    using assms by (auto simp: counts_def split: option.splits)
  from value_sum_add[of f, OF this] show ?thesis
    using Some by (simp add: summary_hunk_def agent_iff_prompt)
qed (simp add: summary_hunk_def agent_iff_prompt)

lemma summary_hunks_counts:
  "counts f g \<Longrightarrow> value_sum f (sa_by_prompt (fold (summary_hunk p) hs a)) =
    value_sum f (sa_by_prompt a) + sum_list (map g (agent_hunks hs))"
  by (induction hs arbitrary: a) (auto simp: summary_hunk_counts agent_hunks_def)

lemma summary_hunk_unattributed:
  "sa_unattributed (fold (summary_hunk p) hs a) =
    sa_unattributed a + length (filter (\<lambda>h. \<not> is_agent_edit (h_source h)) hs)"
proof (induction hs arbitrary: a)
  case (Cons h hs)
  have "sa_unattributed (summary_hunk p h a) =
      sa_unattributed a + (if is_agent_edit (h_source h) then 0 else 1)"
    by (auto simp: summary_hunk_def agent_iff_prompt split: option.splits)
  then show ?case using Cons[of "summary_hunk p h a"] by simp
qed simp

lemma summary_hunk_flag:
  "sa_has_agent (fold (summary_hunk p) hs a) = (sa_has_agent a \<or> agent_hunks hs \<noteq> [])"
proof (induction hs arbitrary: a)
  case (Cons h hs)
  have "sa_has_agent (summary_hunk p h a) = (sa_has_agent a \<or> is_agent_edit (h_source h))"
    by (auto simp: summary_hunk_def agent_iff_prompt split: option.splits)
  then show ?case using Cons[of "summary_hunk p h a"] by (auto simp: agent_hunks_def)
qed (simp add: agent_hunks_def)

lemma summary_hunk_files: "sa_files (fold (summary_hunk p) hs a) = sa_files a"
  by (induction hs arbitrary: a) (auto simp: summary_hunk_def split: option.splits)

lemma summary_file_parts:
  "counts f g \<Longrightarrow> value_sum f (sa_by_prompt (summary_file (p, st) a)) =
     value_sum f (sa_by_prompt a) + sum_list (map g (agent_hunks (fs_hunks st)))"
  "sa_unattributed (summary_file (p, st) a) =
     sa_unattributed a + length (filter (\<lambda>h. \<not> is_agent_edit (h_source h)) (fs_hunks st))"
  "sa_files (summary_file (p, st) a) =
     (if agent_hunks (fs_hunks st) \<noteq> [] then List.insert p (sa_files a) else sa_files a)"
  by (auto simp: summary_file_def Let_def summary_hunks_counts summary_hunk_unattributed
      summary_hunk_flag summary_hunk_files)

abbreviation file_hunks :: "(path \<times> file_state) list \<Rightarrow> hunk list" where
  "file_hunks fss \<equiv> concat (map (\<lambda>(p, st). fs_hunks st) fss)"

lemma summary_files_parts:
  "counts f g \<Longrightarrow> value_sum f (sa_by_prompt (fold summary_file fss a)) =
     value_sum f (sa_by_prompt a) + sum_list (map g (agent_hunks (file_hunks fss)))"
  "sa_unattributed (fold summary_file fss a) =
     sa_unattributed a + length (filter (\<lambda>h. \<not> is_agent_edit (h_source h)) (file_hunks fss))"
  by (induction fss arbitrary: a)
    (auto simp: summary_file_parts agent_hunks_def)

lemma summary_files_files:
  "distinct_keys fss \<Longrightarrow> set (sa_files a) \<inter> fst ` set fss = {} \<Longrightarrow>
   length (sa_files (fold summary_file fss a)) =
     length (sa_files a) + length (filter (\<lambda>(p, st). agent_hunks (fs_hunks st) \<noteq> []) fss)"
proof (induction fss arbitrary: a)
  case (Cons f fss)
  obtain p st where f: "f = (p, st)" by force
  let ?a = "summary_file (p, st) a"
  have "set (sa_files ?a) \<inter> fst ` set fss = {}"
    using Cons.prems by (auto simp: f summary_file_parts)
  then show ?case
    using Cons.IH[of ?a] Cons.prems by (auto simp: f summary_file_parts)
qed simp

lemma sum_list_sort_key: "sum_list (map f (sort_key k xs)) = (sum_list (map f xs) :: nat)"
proof -
  have "mset (map f (sort_key k xs)) = mset (map f xs)" by simp
  then show ?thesis by (metis sum_mset_sum_list)
qed

lemma turn_sums:
  "sum_list (map (\<lambda>ts. length (ts_pending_hunks ts)) (map turn_of m)) = value_sum (\<lambda>d. length (td_pending d)) m"
  "sum_list (map ts_lines_added (map turn_of m)) = value_sum td_lines_added m"
  "sum_list (map ts_lines_removed (map turn_of m)) = value_sum td_lines_removed m"
  by (induction m) (auto simp: value_sum_def turn_of_def)

text \<open>The session summary is complete: its pending hunks, added and removed lines are those of
  all pending agent hunks, the rest is counted as unattributed, the files counted are those
  with an agent hunk, the turns are sorted, and the statistics are the tracker's.\<close>

theorem session_summary_complete:
  assumes "tracker_ok t"
  shows "ss_pending_hunks (compute_session_summary t) = length (agent_hunks (get_all_hunks t)) \<and>
    ss_pending_lines_added (compute_session_summary t) =
      sum_list (map (\<lambda>h. new_count (h_line_info h)) (agent_hunks (get_all_hunks t))) \<and>
    ss_pending_lines_removed (compute_session_summary t) =
      sum_list (map (\<lambda>h. old_count (h_line_info h)) (agent_hunks (get_all_hunks t))) \<and>
    ss_pending_hunks (compute_session_summary t) + ss_unattributed_pending (compute_session_summary t) =
      length (get_all_hunks t) \<and>
    ss_files_with_pending (compute_session_summary t) =
      length (filter (\<lambda>(p, st). agent_hunks (fs_hunks st) \<noteq> []) (tk_file_states t)) \<and>
    sorted (map ts_prompt_index (ss_turns (compute_session_summary t))) \<and>
    ss_stats (compute_session_summary t) = tk_stats t"
proof -
  let ?a = "\<lparr>sa_by_prompt = [], sa_unattributed = 0, sa_has_agent = False, sa_files = []\<rparr>"
  have v0: "value_sum f [] = 0" for f :: "turn_data \<Rightarrow> nat" by (simp add: value_sum_def)
  have len: "length (agent_hunks hs) + length (filter (\<lambda>h. \<not> is_agent_edit (h_source h)) hs) = length hs" for hs
    by (simp add: agent_hunks_def sum_length_filter_compl)
  have ones: "sum_list (map (\<lambda>h. Suc 0) hs) = length hs" for hs :: "hunk list"
    by (induction hs) auto
  note parts = summary_files_parts(1)[OF counts_fields(1), of "tk_file_states t" ?a]
    summary_files_parts(1)[OF counts_fields(2), of "tk_file_states t" ?a]
    summary_files_parts(1)[OF counts_fields(3), of "tk_file_states t" ?a]
    summary_files_parts(2)[of "tk_file_states t" ?a]
    summary_files_files[OF ok_keys[OF assms], of ?a]
  show ?thesis
    using parts len[of "get_all_hunks t"]
    by (simp add: compute_session_summary_def Let_def sum_list_sort_key turn_sums v0
        get_all_hunks_def[symmetric] ones del: map_map)
qed

theorem session_summary_complete_witness:
  "ss_pending_hunks (compute_session_summary demo_written) = length (agent_hunks (get_all_hunks demo_written))"
  using session_summary_complete[OF kept_ok[OF demo_kept]] by blast

text \<open>
  What clients see of the hunks: their positions, the patches rendered for them, the
  stability of their ids, and the totals of the session summary.
\<close>

section \<open>Positions\<close>

definition hunk_before :: "hunk \<Rightarrow> hunk \<Rightarrow> bool" where
  "hunk_before g h \<longleftrightarrow>
     old_start (h_line_info g) + old_count (h_line_info g) < old_start (h_line_info h) \<and>
     new_start (h_line_info g) + new_count (h_line_info g) < new_start (h_line_info h)"

definition hunk_within :: "str \<Rightarrow> str \<Rightarrow> hunk \<Rightarrow> bool" where
  "hunk_within b c h \<longleftrightarrow>
     1 \<le> old_start (h_line_info h) \<and> 1 \<le> new_start (h_line_info h) \<and>
     old_start (h_line_info h) + old_count (h_line_info h) \<le> Suc (length (text_lines b)) \<and>
     new_start (h_line_info h) + new_count (h_line_info h) \<le> Suc (length (text_lines c)) \<and>
     0 < old_count (h_line_info h) + new_count (h_line_info h)"

lemma build_all_from:
  "h \<in> set (build_all now i p src bs) \<Longrightarrow>
   \<exists>b \<in> set bs. h_line_info h = \<lparr>old_start = hb_old_start b, old_count = length (hb_old_lines b),
     new_start = hb_new_start b, new_count = length (hb_new_lines b)\<rparr>"
  by (induction bs arbitrary: i) (auto simp: build_def)

lemma build_all_before: "sorted_wrt gap bs \<Longrightarrow> sorted_wrt hunk_before (build_all now i p src bs)"
proof (induction bs arbitrary: i)
  case (Cons b bs)
  have "hunk_before (build i now p src b) h" if h: "h \<in> set (build_all now (Suc i) p src bs)" for h
  proof -
    obtain g where "g \<in> set bs" "h_line_info h = \<lparr>old_start = hb_old_start g,
        old_count = length (hb_old_lines g), new_start = hb_new_start g,
        new_count = length (hb_new_lines g)\<rparr>"
      using build_all_from[OF h] by blast
    then show ?thesis using Cons.prems by (auto simp: hunk_before_def gap_def build_def)
  qed
  then show ?case using Cons by simp
qed simp

lemma length_text_lines: "length (text_lines s) = length (split_inclusive NL s)"
  by (simp add: text_lines_def str_lines_def)

lemma build_all_within:
  assumes "valid_script b c cs" "h \<in> set (build_all now i p src (change_runs cs 1 1 None))"
  shows "hunk_within b c h"
proof -
  obtain g where g: "g \<in> set (change_runs cs 1 1 None)"
    "h_line_info h = \<lparr>old_start = hb_old_start g, old_count = length (hb_old_lines g),
     new_start = hb_new_start g, new_count = length (hb_new_lines g)\<rparr>"
    using build_all_from[OF assms(2)] by blast
  show ?thesis
    using group_top[OF g(1)] assms(1) g(2)
    by (auto simp: hunk_within_def valid_script_def length_text_lines)
qed

text \<open>The hunks of a diff are in order and apart by at least one unchanged line on both
  sides, lie inside both texts, are never empty, and take consecutive fresh ids.\<close>

theorem diff_hunks_well_placed:
  assumes "diff b c = Some cs" "valid_script b c cs" "compute_hunks diff now next p b c src = (hs, n)"
  shows "sorted_wrt hunk_before hs \<and> list_all (hunk_within b c) hs \<and> map h_id hs = [next..<n]"
proof -
  have "hs = [] \<or> hs = build_all now next p src (change_runs cs 1 1 None)"
    using assms(1,3) by (auto simp: compute_hunks_def hunks_of_changes_group split: if_splits)
  then show ?thesis
    using build_all_before[OF group_gaps[OF at_line_None]] build_all_within[OF assms(2)]
      compute_hunks_ids[OF assms(3)] by (auto simp: list_all_iff)
qed

theorem diff_hunks_well_placed_witness:
  "list_all (hunk_within demo_old demo_new)
     (fst (compute_hunks (ev_diff demo_env) 7 0 demo_path demo_old demo_new External))"
proof -
  obtain hs n where hs: "compute_hunks (ev_diff demo_env) 7 0 demo_path demo_old demo_new External = (hs, n)"
    by force
  have "ev_diff demo_env demo_old demo_new = Some demo_script" by (simp add: demo_env_def)
  from diff_hunks_well_placed[OF this demo_valid hs] show ?thesis by (simp add: hs)
qed

section \<open>Patches\<close>

lemma patch_total:
  assumes "old_start (h_line_info h) - 1 + old_count (h_line_info h) \<le> length (text_lines b)"
    and "new_start (h_line_info h) - 1 + new_count (h_line_info h) \<le> length (text_lines c)"
  shows "generate_hunk_patch b c h \<noteq> None"
  using assms by (simp add: generate_hunk_patch_def checked_sub_def Let_def)

lemma all_some_total: "(\<forall>x \<in> set xs. x \<noteq> None) \<Longrightarrow> all_some xs \<noteq> None"
  by (induction xs rule: all_some.induct) auto

lemma within_edit: "edit_of g = edit_of h \<Longrightarrow> hunk_within b c g = hunk_within b c h"
  by (simp add: edit_of_def hunk_within_def)

lemma reflects_within:
  assumes "reflects cs hs" "valid_script b c cs" "h \<in> set hs"
  shows "hunk_within b c h"
proof -
  obtain k where k: "k < length hs" "h = hs ! k" using assms(3) by (metis in_set_conv_nth)
  have n: "k < length (change_runs cs 1 1 None)" by (rule reflects_nth(1)[OF assms(1) k(1)])
  have "build_all 0 0 [] External (change_runs cs 1 1 None) ! k \<in>
      set (build_all 0 0 [] External (change_runs cs 1 1 None))"
    using n by simp
  from build_all_within[OF assms(2) this]
  have "hunk_within b c (build k 0 [] External (change_runs cs 1 1 None ! k))"
    using build_all_nth[OF n, of 0 0 "[]" External] by simp
  then show ?thesis
    using within_edit[OF reflects_nth(2)[OF assms(1) k(1), of k 0 "[]" External]] k(2) by simp
qed

text \<open>Rendering a file whose hunks are those of its diff never panics: the context
  arithmetic of each patch stays within both texts.\<close>

theorem file_data_never_panics:
  assumes "file_state_of t p = Some st" "fs_baseline st = Full b" "fs_current st = Full c"
    "reflects cs (fs_hunks st)" "valid_script b c cs"
  shows "get_file_hunk_data t p \<noteq> None"
proof -
  have "hunk_with_patch st h \<noteq> None" if "h \<in> set (fs_hunks st)" for h
  proof -
    have "hunk_within b c h" by (rule reflects_within[OF assms(4,5) that])
    then have "generate_hunk_patch b c h \<noteq> None"
      by (intro patch_total) (auto simp: hunk_within_def)
    then show ?thesis using assms(2,3) by (simp add: hunk_with_patch_def)
  qed
  then have "all_some (map (hunk_with_patch st) (fs_hunks st)) \<noteq> None"
    by (intro all_some_total) auto
  then show ?thesis using assms(1) by (auto simp: get_file_hunk_data_def)
qed

theorem file_data_never_panics_witness: "get_file_hunk_data demo_written demo_path \<noteq> None"
proof -
  obtain hs where hs: "file_state_of demo_written demo_path = Some (new_file (Full demo_old) (Full demo_old) True
      \<lparr>fs_is_agent_file := True, fs_current := Full demo_new, fs_hunks := hs\<rparr>)"
    "reflects demo_script hs" "length hs = 2" by (rule demo_written_file)
  show ?thesis
    by (rule file_data_never_panics[OF hs(1) _ _ _ demo_valid]) (use hs(2) in \<open>simp_all add: new_file_def\<close>)
qed

section \<open>Stable ids\<close>

lemma min_by_key_unique:
  assumes "x \<in> set xs" "f x = 0" "\<And>y. y \<in> set xs \<Longrightarrow> f y = 0 \<Longrightarrow> y = x"
  shows "min_by_key f xs = Some x"
proof (cases "min_by_key f xs")
  case None
  then show ?thesis using assms(1) by auto
next
  case (Some y)
  from min_by_key_Some[OF this] have "y \<in> set xs" "f y = 0" using assms(1,2) by fastforce+
  then show ?thesis using Some assms(3) by simp
qed

lemma match_same_edit:
  assumes hs: "\<forall>g \<in> set hs. h_path g = p" "h \<in> set hs" "inj_on (\<lambda>g. new_start (h_line_info g)) (set hs)"
    and n: "h_path n = p" "edit_of n = edit_of h"
  shows "find_matching_old_hunk n hs = Some h"
proof -
  have m: "hunks_match_content h n" using hs(1,2) n by (simp add: hunks_match_content_def edit_of_def)
  have "min_by_key (\<lambda>g. abs_diff (new_start (h_line_info g)) (new_start (h_line_info n)))
      (filter (\<lambda>g. hunks_match_content g n) hs) = Some h"
  proof (rule min_by_key_unique)
    show "h \<in> set (filter (\<lambda>g. hunks_match_content g n) hs)" using hs(2) m by simp
    show "abs_diff (new_start (h_line_info h)) (new_start (h_line_info n)) = 0"
      using n(2) by (simp add: edit_of_def abs_diff_def)
    fix g assume "g \<in> set (filter (\<lambda>g. hunks_match_content g n) hs)"
      "abs_diff (new_start (h_line_info g)) (new_start (h_line_info n)) = 0"
    then have "g \<in> set hs" "new_start (h_line_info g) = new_start (h_line_info h)"
      using n(2) by (auto simp: edit_of_def abs_diff_def split: if_splits)
    then show "g = h" using hs(2,3) by (auto simp: inj_on_def)
  qed
  then show ?thesis using m hs(2) by (auto simp: find_matching_old_hunk_def Let_def filter_empty_conv)
qed

lemma claim_same_edits:
  assumes "\<forall>g \<in> set all. h_path g = p" "inj_on (\<lambda>g. new_start (h_line_info g)) (set all)"
    and "distinct (map h_id all)"
  shows "set hs \<subseteq> set all \<Longrightarrow> distinct (map h_id hs) \<Longrightarrow> \<forall>g \<in> set hs. h_id g \<notin> set claimed \<Longrightarrow>
    \<forall>n \<in> set ns. h_path n = p \<Longrightarrow> map edit_of ns = map edit_of hs \<Longrightarrow>
    map h_id (claim_ids all claimed ns) = map h_id hs"
proof (induction hs arbitrary: ns claimed)
  case (Cons h hs)
  obtain n ns' where ns: "ns = n # ns'" using Cons.prems(5) by (cases ns) (simp_all del: map_eq_conv)
  have e: "edit_of n = edit_of h" "map edit_of ns' = map edit_of hs"
    using Cons.prems(5) unfolding ns by simp_all
  have "find_matching_old_hunk n all = Some h"
    by (rule match_same_edit[OF assms(1) _ assms(2) _ e(1)]) (use Cons.prems(1,4) ns in auto)
  moreover have "map h_id (claim_ids all (h_id h # claimed) ns') = map h_id hs"
  proof (rule Cons.IH[OF _ _ _ _ e(2)])
    show "set hs \<subseteq> set all" "distinct (map h_id hs)" using Cons.prems(1,2) by simp_all
    show "\<forall>n \<in> set ns'. h_path n = p" using Cons.prems(4) ns by simp
    have "h_id h \<notin> h_id ` set hs" using Cons.prems(2) by simp
    then have "h_id g \<noteq> h_id h" if "g \<in> set hs" for g using that by (metis image_eqI)
    then show "\<forall>g \<in> set hs. h_id g \<notin> set (h_id h # claimed)" using Cons.prems(3) by simp
  qed
  ultimately show ?case using Cons.prems(3) by (simp add: ns claim_def)
qed simp

lemma reflects_starts_inj:
  assumes "reflects cs hs"
  shows "inj_on (\<lambda>g. new_start (h_line_info g)) (set hs)"
proof -
  have "map (\<lambda>h. new_start (h_line_info h)) hs = map hb_new_start (change_runs cs 1 1 None)"
    using starts_edits(2)[OF assms[unfolded reflects_def]] by (simp add: build_all_starts)
  moreover have "sorted_wrt (<) (map hb_new_start (change_runs cs 1 1 None))"
    using gaps_ascending[OF group_gaps[OF at_line_None, of cs 1 1]] by blast
  ultimately have "distinct (map (\<lambda>h. new_start (h_line_info h)) hs)"
    by (simp add: strict_sorted_iff)
  then show ?thesis by (simp add: distinct_map)
qed

text \<open>Recomputing a file whose texts did not change keeps the id, the position and the text
  of each of its hunks, in order, whoever triggered the recomputation.\<close>

theorem unchanged_file_keeps_ids:
  assumes "tracker_ok t" "file_state_of t p = Some st" "fs_baseline st = Full b" "fs_current st = Full c"
    "classify_string c = Full c" "b \<noteq> c" "length b \<le> max_diff_file_size"
    "ev_diff E b c = Some cs" "reflects cs (fs_hunks st)"
  shows "map h_id (hunks_at (recompute_hunks E p (Some (Full c)) src t) p) = map h_id (fs_hunks st) \<and>
    map edit_of (hunks_at (recompute_hunks E p (Some (Full c)) src t) p) = map edit_of (fs_hunks st)"
proof -
  obtain fr n where fr: "fresh_hunks E p (Some (Full c)) src t = (fr, n)" by force
  have "length c \<le> max_diff_file_size" using assms(5) max_sizes by (simp add: classify_string_Full)
  then have dc: "diff_contents E (tk_next_id t) p (Full b) (Full c) src = (fr, n)"
    and fr': "fr = build_all (ev_now E) (tk_next_id t) p src (change_runs cs 1 1 None)"
    using fr assms(2,3,6,7,8) by (simp_all add: fresh_hunks_def compute_hunks_def hunks_of_changes_group)
  have e: "map edit_of fr = map edit_of (fs_hunks st)"
    using assms(9) edits_build_all unfolding reflects_def fr' by metis
  have f: "file_ok p st" using ok_file[OF assms(1,2)] by simp
  have "map h_id (claim_ids (fs_hunks st) [] fr) = map h_id (fs_hunks st)"
    by (rule claim_same_edits[OF _ reflects_starts_inj[OF assms(9)] _ _ _ _ _ e])
      (use f diff_contents_path[OF dc] in \<open>auto simp: file_ok_def\<close>)
  moreover have "hunks_at (recompute_hunks E p (Some (Full c)) src t) p = claim_ids (fs_hunks st) [] fr"
    using recompute_files[OF assms(2) fr, of p] by simp
  ultimately show ?thesis using e by (simp del: map_eq_conv)
qed

theorem unchanged_file_keeps_ids_witness:
  "map h_id (hunks_at (recompute_hunks demo_env demo_path (Some (Full demo_new)) External demo_written) demo_path)
     = map h_id (hunks_at demo_written demo_path)"
proof -
  obtain hs where hs: "file_state_of demo_written demo_path = Some (new_file (Full demo_old) (Full demo_old) True
      \<lparr>fs_is_agent_file := True, fs_current := Full demo_new, fs_hunks := hs\<rparr>)"
    "reflects demo_script hs" "length hs = 2" by (rule demo_written_file)
  have d: "demo_old \<noteq> demo_new" "length demo_old \<le> max_diff_file_size"
    "ev_diff demo_env demo_old demo_new = Some demo_script"
    by (simp_all add: demo_defs max_diff_file_size_def)
  from unchanged_file_keeps_ids[OF kept_ok[OF demo_kept] hs(1) _ _ demo_classify d, of External] hs
  show ?thesis by (simp add: new_file_def)
qed

end
