(* ===== verification/Manager_Behaviour.thy ===== *)
theory Manager_Behaviour
  imports Manager_Properties
begin

text \<open>
  How grants, rules and modes of the permission manager play together: what a grant is good for
  afterwards, and rules and prohibitions that some path of the handler does not look at.
\<close>

section \<open>The path of a request\<close>

definition passed :: "'c perm_actor \<Rightarrow> 'c auto_result" where
  "passed A = \<lparr>ar_actor = A, ar_source = None, ar_ruling = None, ar_forced = None\<rparr>"

lemma passed_simps [simp]:
  "ar_actor (passed A) = A" "ar_source (passed A) = None" "ar_ruling (passed A) = None" "ar_forced (passed A) = None"
  by (simp_all add: passed_def)

definition served :: "('g, 'c) manager_config \<Rightarrow> 'c perm_actor \<Rightarrow> 'c request \<Rightarrow> bool" where
  "served C A r \<longleftrightarrow>
     \<not> rq_gone_queued r \<and> \<not> (rq_gone_scan r \<and> (\<exists>e. request_evaluation C A r = Some (e, True)))"

lemma served_request:
  assumes "served C A r"
  shows "handle_request C A r =
    (case early_ruling C A r (facts_of C A r) of
       Some x \<Rightarrow> ruled C A A (rq_access r) None x
     | None \<Rightarrow>
         (case auto_stage C A r (facts_of C A r) of
            None \<Rightarrow> abandoned C A A (rq_access r) None
          | Some t \<Rightarrow> after_auto C A t r (facts_of C A r)))"
  using assms by (auto simp: served_def handle_request_def Let_def split: option.splits)

lemma not_auto_stage: "\<not> ac_auto A \<or> \<not> admits_auto_classifier (rf_preflight f) \<Longrightarrow> auto_stage C A r f = Some (passed A)"
  by (auto simp: auto_stage_def passed_def Let_def)

lemma ruled_simps:
  "ruled C A B a source (d, approved, reason) = (B, emit_event C A B a source d approved False None reason, Some d)"
  by (simp add: ruled_def)

section \<open>Rules and prohibitions that are not looked at\<close>

lemma ask_preflight:
  assumes "mc_policy C = Some P" "rq_access r = WebSearch_Access q"
    and "evaluate_with_cwd (sh_policy (mc_shell C)) P (WebSearch_Access q) (Some (request_cwd C r)) = Some Ask"
  shows "request_preflight C A r = \<lparr>pf_direct = Some Ask, pf_bash = None, pf_file = None, pf_defers = False\<rparr>"
  using assms by (simp add: request_preflight_def evaluate_preflight_def Let_def)

text \<open>A policy that asks before a web search never leads to a prompt: in every mode the search is
  allowed at once.\<close>

theorem ask_rule_ignored_for_web_search:
  assumes "mc_policy C = Some P" "rq_access r = WebSearch_Access q" "\<not> rq_gone_queued r"
    and "evaluate_with_cwd (sh_policy (mc_shell C)) P (WebSearch_Access q) (Some (request_cwd C r)) = Some Ask"
  shows "\<exists>ev. handle_request C A r = (A, ev, Some Allow) \<and> \<not> pe_prompted ev"
proof -
  let ?f = "facts_of C A r"
  note p = ask_preflight[OF assms(1,2,4), of A]
  have served: "served C A r" using assms(2,3) by (simp add: served_def request_evaluation_def)
  have asked: "policy_decision (rf_preflight ?f) = Some Ask" "policy_forced_prompt (rf_preflight ?f)"
    "\<not> shell_forced_prompt (rf_preflight ?f)" "\<not> admits_auto_classifier (rf_preflight ?f)"
    by (simp_all add: p policy_decision_def policy_forced_prompt_def shell_forced_prompt_def
        shell_file_forced_prompt_def gate_asks_def admits_auto_classifier_def)
  show ?thesis
  proof (cases "ac_yolo A")
    case True
    then have "early_ruling C A r ?f = Some (Allow, True, ''yolo'')"
      using asked by (simp add: early_ruling_def policy_denial_def del: facts_of_simps)
    then show ?thesis by (simp add: served_request[OF served] ruled_simps)
  next
    case False
    then have "early_ruling C A r ?f = None"
      using asked by (simp add: early_ruling_def policy_denial_def session_grant_def no_floor_def del: facts_of_simps)
    moreover have "late_ruling r ?f False = None"
      using asked assms(2) by (simp add: late_ruling_def is_bash_def del: facts_of_simps)
    moreover have "settled C A (rq_access r) ?f False = Some (Allow, ''safe_command'')"
      using assms(2) by (simp add: settled_def pre_decision_def grant_allow_def Let_def)
    ultimately show ?thesis
      by (simp add: served_request[OF served] not_auto_stage asked after_auto_def ruled_simps Let_def del: facts_of_simps)
  qed
qed

theorem ask_rule_ignored_for_web_search_witness:
  "\<exists>ev. handle_request (with_policy [tool_rule Ask_Rule WebSearch_Tool] (demo_manager Prompt_Ask False))
     (demo_manager_actor (demo_manager Prompt_Ask False) False) (demo_request (WebSearch_Access (u ''x'')) RejectOnce) =
   (demo_manager_actor (demo_manager Prompt_Ask False) False, ev, Some Allow) \<and> \<not> pe_prompted ev"
  by (rule ask_rule_ignored_for_web_search[where q = "u ''x''" and
        P = "compile_policy (sh_policy (mc_shell (demo_manager Prompt_Ask False)))
          \<lparr>pc_rules = [tool_rule Ask_Rule WebSearch_Tool], pc_prompt = Prompt_Ask\<rparr>"])
    (simp_all add: with_policy_def demo_manager_def evaluate_with_cwd_def compile_policy_def rule_matcher_def
      tool_rule_def applies_def tool_filter_matches_def pattern_matches_def)

lemma no_policy_early:
  assumes "mc_policy C = None" "\<not> ac_yolo A"
  shows "early_ruling C A r (facts_of C A r) =
    map_option (\<lambda>(d, reason). (d, True, reason)) (session_grant C A r (facts_of C A r))"
  using assms by (simp add: early_ruling_def policy_denial_def no_policy split: option.split)

text \<open>Edits that the stored policy prohibits are rejected when the user is asked for permissions, but
  allowed without a prompt in auto mode.\<close>

theorem auto_mode_ignores_edit_prohibition:
  assumes "mc_policy C = None" "rq_access r = Edit_Access path" "\<not> rq_gone_queued r"
    and "ps_edit_policy (ac_state A) = Edit_Reject" "\<not> ac_allow_edits A" "\<not> protected_edit C r" "\<not> ac_yolo A"
  shows "\<exists>ev ev' why.
    handle_request C (A\<lparr>ac_auto := True\<rparr>) r = (A\<lparr>ac_auto := True\<rparr>, ev, Some Allow) \<and> \<not> pe_prompted ev \<and>
    handle_request C (A\<lparr>ac_auto := False\<rparr>) r = (A\<lparr>ac_auto := False\<rparr>, ev', Some (Reject why))"
proof -
  have served: "served C B r" for B using assms(2,3) by (simp add: served_def request_evaluation_def)
  have early: "early_ruling C (A\<lparr>ac_auto := b\<rparr>) r (facts_of C (A\<lparr>ac_auto := b\<rparr>) r) = None" for b
    using assms by (simp add: no_policy_early session_grant_def session_grant_pre_decision_def grant_if_def)
  have interactive: "\<not> access_requires_user_interaction (tool_name_for_access (Edit_Access path)) (Edit_Access path)"
    by (simp add: access_requires_user_interaction_def tool_name_for_access_def) code_simp
  have "auto_stage C (A\<lparr>ac_auto := True\<rparr>) r (facts_of C (A\<lparr>ac_auto := True\<rparr>) r) =
      Some ((passed (A\<lparr>ac_auto := True\<rparr>))\<lparr>ar_source := Some ''fast_path'', ar_ruling := Some (Allow, True, ''auto_fast_path'')\<rparr>)"
    using assms interactive by (simp add: auto_stage_def no_policy fast_path_of_access passed_def Let_def)
  moreover have "auto_stage C (A\<lparr>ac_auto := False\<rparr>) r (facts_of C (A\<lparr>ac_auto := False\<rparr>) r) = Some (passed (A\<lparr>ac_auto := False\<rparr>))"
    by (rule not_auto_stage) simp
  moreover have "late_ruling r (facts_of C B r) False = None" for B
    using assms by (simp add: late_ruling_def no_policy is_bash_def)
  moreover have "settled C (A\<lparr>ac_auto := False\<rparr>) (Edit_Access path) (facts_of C (A\<lparr>ac_auto := False\<rparr>) r) False =
      Some (Reject (u ''edits prohibited''), ''session_deny'')"
    using assms by (simp add: settled_def pre_decision_def edit_pre_decision_def)
  ultimately show ?thesis
    using assms(2) by (simp add: served_request[OF served] early after_auto_def ruled_simps Let_def)
qed

definition with_state :: "(permission_state \<Rightarrow> permission_state) \<Rightarrow> unit perm_actor \<Rightarrow> unit perm_actor" where
  "with_state g A = A\<lparr>ac_state := g (ac_state A)\<rparr>"

abbreviation ask_manager :: "(unit, unit) manager_config" where
  "ask_manager \<equiv> demo_manager Prompt_Ask False"

lemma with_state_simps [simp]:
  "ac_state (with_state g A) = g (ac_state A)" "ac_yolo (with_state g A) = ac_yolo A"
  "ac_auto (with_state g A) = ac_auto A" "ac_allow_edits (with_state g A) = ac_allow_edits A"
  by (simp_all add: with_state_def)

theorem auto_mode_ignores_edit_prohibition_witness:
  "\<exists>A ev. handle_request ask_manager (A\<lparr>ac_auto := True\<rparr>) (demo_request (Edit_Access (u ''x'')) RejectOnce) =
     (A\<lparr>ac_auto := True\<rparr>, ev, Some Allow) \<and> ps_edit_policy (ac_state A) = Edit_Reject"
proof -
  let ?A = "with_state (\<lambda>S. S\<lparr>ps_edit_policy := Edit_Reject\<rparr>) (demo_manager_actor ask_manager False)"
  have "\<not> protected_edit ask_manager (demo_request (Edit_Access (u ''x'')) RejectOnce)"
    by (simp add: protected_edit_def)
  then show ?thesis
    using auto_mode_ignores_edit_prohibition[of ask_manager "demo_request (Edit_Access (u ''x'')) RejectOnce" "u ''x''" ?A]
    by (intro exI[of _ ?A]) (auto simp: clamp_yolo_def)
qed

section \<open>Grants for commands\<close>

definition ask_mode :: "('g, 'c) manager_config \<Rightarrow> 'c perm_actor \<Rightarrow> bool" where
  "ask_mode C A \<longleftrightarrow> mc_policy C = None \<and> \<not> ac_yolo A \<and> \<not> ac_auto A"

text \<open>A command in ask mode without a policy: the grants, the sandbox, the grants again, then the user.\<close>

lemma ask_mode_command:
  assumes "ask_mode C A" "served C A r" "rq_access r = Bash_Access cmd" "request_evaluation C A r = Some (e, s)"
  shows "handle_request C A r =
    (case bash_grant_pre_decision cmd e (ac_state A) (mc_pinned C) pre_classifier of
       Some (d, reason) \<Rightarrow> ruled C A A (Bash_Access cmd) None (d, True, reason)
     | None \<Rightarrow>
         if rq_sandbox r \<and> \<not> floor_requires_prompt e
         then ruled C A A (Bash_Access cmd) None (Allow, True, ''sandbox_auto'')
         else (case bash_pre_decision C A cmd (facts_of C A r) False of
             Some (d, reason) \<Rightarrow> ruled C A A (Bash_Access cmd) None (d, True, reason)
           | None \<Rightarrow>
               if mc_prompt C = Prompt_Deny
               then ruled C A A (Bash_Access cmd) None
                 (PolicyDeny (u ''denied by prompt policy (tool not pre-approved)''), False, ''prompt_deny'')
               else prompt_stage C A (passed A) r (facts_of C A r)))"
proof -
  have none: "mc_policy C = None" "\<not> ac_yolo A" "\<not> ac_auto A" using assms(1) by (simp_all add: ask_mode_def)
  have grants: "session_grant C A r (facts_of C A r) = bash_grant_pre_decision cmd e (ac_state A) (mc_pinned C) pre_classifier"
    using none assms(3,4) by (simp add: session_grant_def no_floor_def no_policy protected_edit_def
        session_grant_pre_decision_def)
  have late: "late_ruling r (facts_of C A r) False =
      (if rq_sandbox r \<and> \<not> floor_requires_prompt e then Some (Allow, True, ''sandbox_auto'') else None)"
    using none assms(3,4) by (simp add: late_ruling_def no_policy is_bash_def sandbox_may_auto_allow_bash_def
        bash_request_floor_requires_prompt_def)
  have settled: "settled C A (Bash_Access cmd) (facts_of C A r) False = bash_pre_decision C A cmd (facts_of C A r) False"
    by (simp add: settled_def pre_decision_def split: option.split)
  show ?thesis
    using none(3) unfolding served_request[OF assms(2)] no_policy_early[OF none(1,2)] grants
    by (simp add: not_auto_stage after_auto_def late settled assms(3) Let_def split: option.split)
qed

lemma ask_mode_bash_pre_decision:
  assumes "ask_mode C A" "request_evaluation C A r = Some (e, s)"
  shows "bash_pre_decision C A cmd (facts_of C A r) False =
    (if floor_requires_prompt e then None
     else bash_grant_pre_decision cmd e (ac_state A) (mc_pinned C) (post_classify False))"
  using assms by (simp add: bash_pre_decision_def ask_mode_def no_policy)

text \<open>Outside auto mode the stored blanket permission for commands covers dangerous commands: one that
  has only this finding runs without a prompt.\<close>

theorem blanket_grant_runs_dangerous_commands:
  assumes "ask_mode C A" "served C A r" "rq_access r = Bash_Access cmd"
    and "request_evaluation C A r = Some (e, s)" "be_segments e = NeedsPrompts texts" "be_assessment e = {DangerousCommand}"
    and "ps_allow_bash (ac_state A)" "\<not> mc_pinned C"
  shows "\<exists>ev. handle_request C A r = (A, ev, Some Allow) \<and> \<not> pe_prompted ev"
proof -
  have "\<not> floor_requires_prompt e" using assms(6) by (simp add: floor_requires_prompt_def constrains_broad_grant_def)
  then show ?thesis
    using assms by (simp add: ask_mode_command[OF assms(1-4)] ask_mode_bash_pre_decision[OF assms(1,4)]
        bash_grant_pre_decision_def pre_classifier_def post_classify_def grant_if_def grant_allow_def
        persisted_bash_auto_allows_def ruled_simps)
qed

lemma rm_facts:
  "split_on 32 (u ''rm x'') = [u ''rm'', u ''x'']" "unwrap_wrappers [u ''rm'', u ''x''] = [u ''rm'', u ''x'']"
  "\<not> words_are_opaque_shell [u ''rm'', u ''x'']"
  "segment_exec_facts [u ''rm'', u ''x''] = \<lparr>sf_exec_risk = False, sf_has_git = False\<rparr>"
  "is_dangerous_command_words [u ''rm'', u ''x'']" "\<not> is_setup_command [u ''rm'', u ''x'']"
  "command_env_risk [u ''rm'', u ''x''] = Env_Safe" "join [32] [u ''rm'', u ''x''] = u ''rm x''"
  "u ''rm'' @ 32 # u ''x'' = u ''rm x''"
  "matches_command_prefix (u ''rm x'') (u ''rm'')"
  by code_simp+

lemma demo_rm:
  assumes "ps_allowed_commands S = []" "ps_disallowed_commands S = []" "ps_allowed_globs S = []"
  shows "evaluate_bash (mc_shell (demo_manager pp pin)) (u ''rm x'') S True =
     \<lparr>be_segments = NeedsPrompts [u ''rm x''], be_exact = False, be_granted = False,
      be_assessment = {DangerousCommand}, be_ambient = None\<rparr>"
  using assms by (simp add: evaluate_bash_def demo_manager_def judge_script_def scan_start_def note_segment_def
      judge_segment_def segment_granted_def found_if_def must_prompt_def script_findings_def script_env_risk_def
      env_risk_finding_def rm_facts Let_def)

lemma demo_rm_evaluation:
  assumes "ps_allowed_commands (ac_state A) = []" "ps_disallowed_commands (ac_state A) = []" "ps_allowed_globs (ac_state A) = []"
  shows "request_evaluation (demo_manager pp pin) A (demo_request (Bash_Access (u ''rm x'')) answer) =
    Some (\<lparr>be_segments = NeedsPrompts [u ''rm x''], be_exact = False, be_granted = False,
      be_assessment = {DangerousCommand}, be_ambient = None\<rparr>, False)"
  by (simp add: request_evaluation_def demo_rm[OF assms])

lemma demo_served [simp]: "served C A (demo_request a answer)"
  by (simp add: served_def)

lemma demo_ask [simp]: "ask_mode ask_manager (demo_manager_actor ask_manager False)"
  by (simp add: ask_mode_def clamp_yolo_def)

theorem blanket_grant_runs_dangerous_commands_witness:
  "\<exists>A ev. handle_request ask_manager A (demo_request (Bash_Access (u ''rm x'')) RejectOnce) = (A, ev, Some Allow)"
proof -
  let ?A = "with_state (\<lambda>S. S\<lparr>ps_allow_bash := True\<rparr>) (demo_manager_actor ask_manager False)"
  have "ask_mode ask_manager ?A" by (simp add: ask_mode_def clamp_yolo_def)
  moreover have "request_evaluation ask_manager ?A (demo_request (Bash_Access (u ''rm x'')) RejectOnce) =
      Some (\<lparr>be_segments = NeedsPrompts [u ''rm x''], be_exact = False, be_granted = False,
        be_assessment = {DangerousCommand}, be_ambient = None\<rparr>, False)"
    by (rule demo_rm_evaluation) simp_all
  ultimately show ?thesis
    using blanket_grant_runs_dangerous_commands[of ask_manager ?A "demo_request (Bash_Access (u ''rm x'')) RejectOnce" "u ''rm x''"]
    by (intro exI[of _ ?A]) auto
qed

lemma prompted_command:
  assumes "ask_mode C A" "rq_access r = Bash_Access cmd"
    and "handle_request C A r = (B, ev, Some d)" "pe_prompted ev"
  obtains e s A1 outcome where "request_evaluation C A r = Some (e, s)"
    "\<nexists>why. be_segments e = Segment_Reject why" "answer_bash r cmd (rq_answer r) A = (A1, d, outcome)"
    "ac_state B = ac_state A1" "ac_disk B = ac_disk A1" "ac_yolo B = ac_yolo A1" "ac_auto B = ac_auto A1"
proof -
  obtain e s where e: "request_evaluation C A r = Some (e, s)" using request_evaluation_bash[OF assms(2), of C A] by metis
  have served: "served C A r"
    using assms(3) e by (auto simp: served_def handle_request_def abandoned_def Let_def split: if_splits)
  note h = assms(3)[unfolded ask_mode_command[OF assms(1) served assms(2) e]]
  have quiet: "ruled C A A (Bash_Access cmd) None x \<noteq> (B, ev, Some d)" for x
    using assms(4) ruled_reply[of C A A "Bash_Access cmd" None x B ev d] by blast
  have "bash_grant_pre_decision cmd e (ac_state A) (mc_pinned C) pre_classifier = None"
    using h quiet by (auto split: option.splits)
  then have "\<nexists>why. be_segments e = Segment_Reject why" by (auto simp: bash_grant_pre_decision_def)
  moreover have "prompt_stage C A (passed A) r (facts_of C A r) = (B, ev, Some d)"
    using h quiet by (auto split: option.splits if_splits prod.splits)
  ultimately show thesis
    using that[OF e] assms(2) by (auto simp: prompt_stage_def answer_prompt_def Let_def split: if_splits prod.splits)
qed

lemma rejects_cong:
  assumes "ps_disallowed_commands S' = ps_disallowed_commands S"
  shows "(\<exists>why. be_segments (evaluate_bash E cmd S' sl) = Segment_Reject why) \<longleftrightarrow>
    (\<exists>why. be_segments (evaluate_bash E cmd S sl) = Segment_Reject why)"
  unfolding evaluate_rejects using assms by (simp add: segment_rejected_def)

lemma exact_grant_allows:
  assumes "ask_mode C A" "served C A r" "rq_access r = Bash_Access cmd" "cmd \<in> set (ps_allowed_commands (ac_state A))"
    and "\<nexists>why. be_segments (evaluate_bash (mc_shell C) cmd (ac_state A) True) = Segment_Reject why"
  shows "\<exists>ev. handle_request C A r = (A, ev, Some Allow) \<and> \<not> pe_prompted ev"
proof -
  obtain e s where e: "request_evaluation C A r = Some (e, s)" "be_exact e"
    "be_segments e = be_segments (evaluate_bash (mc_shell C) cmd (ac_state A) True)"
    using request_evaluation_bash[OF assms(3), of C A] assms(4) by metis
  have f: "\<not> floor_requires_prompt e" using e(2) by (simp add: floor_requires_prompt_def)
  have "\<nexists>why. be_segments e = Segment_Reject why" using assms(5) e(3) by simp
  then show ?thesis
    using e(2) f assms(4)
    by (cases "be_segments e"; cases "DangerousCommand \<in> be_assessment e"; cases "rq_sandbox r")
      (simp_all add: ask_mode_command[OF assms(1-3) e(1)] ask_mode_bash_pre_decision[OF assms(1) e(1)]
        bash_grant_pre_decision_def pre_classifier_def post_classify_def grant_if_def grant_allow_def
        persisted_bash_auto_allows_def ruled_simps)
qed

text \<open>C40: In ask mode without a policy, once the user has answered a prompt for a shell command with "always", the
  same command word for word runs without a prompt when it is asked for again next, by a requester that does not go away.
  Broader grants, by a prefix or a pattern, and policies that ask are not covered.\<close>

theorem granted_command_runs_again:
  assumes "ask_mode C A" "rq_access r = Bash_Access cmd" "rq_answer r = AllowAlways"
    and "handle_request C A r = (B, ev, Some Allow)" "pe_prompted ev"
    and "rq_access r' = Bash_Access cmd" "served C B r'"
  shows "\<exists>ev'. handle_request C B r' = (B, ev', Some Allow) \<and> \<not> pe_prompted ev'"
proof (rule exact_grant_allows[OF _ assms(7,6)])
  obtain e s A1 outcome where e: "request_evaluation C A r = Some (e, s)"
      "\<nexists>why. be_segments e = Segment_Reject why"
    and A1: "answer_bash r cmd (rq_answer r) A = (A1, Allow, outcome)"
    and B: "ac_state B = ac_state A1" "ac_yolo B = ac_yolo A1" "ac_auto B = ac_auto A1"
    using prompted_command[OF assms(1,2,4,5)] by metis
  have state: "ac_state B = allow_command cmd (ac_state A)" "ac_yolo B = ac_yolo A" "ac_auto B = ac_auto A"
    using A1 B assms(3) by (auto simp: answer_bash_def)
  show "ask_mode C B" using assms(1) state by (simp add: ask_mode_def)
  show "cmd \<in> set (ps_allowed_commands (ac_state B))" by (simp add: state allow_command_def)
  have "be_segments e = be_segments (evaluate_bash (mc_shell C) cmd (ac_state A) True)"
    using request_evaluation_bash[OF assms(2), of C A] e(1) by (metis fst_conv option.inject)
  then show "\<nexists>why. be_segments (evaluate_bash (mc_shell C) cmd (ac_state B) True) = Segment_Reject why"
    using e(2) rejects_cong[of "ac_state B" "ac_state A" "mc_shell C" cmd True] by (simp add: state allow_command_def)
qed

lemma demo_rm_prompts:
  "handle_request ask_manager (demo_manager_actor ask_manager False) (demo_request (Bash_Access (u ''rm x'')) answer) =
    prompt_stage ask_manager (demo_manager_actor ask_manager False) (passed (demo_manager_actor ask_manager False))
      (demo_request (Bash_Access (u ''rm x'')) answer)
      (facts_of ask_manager (demo_manager_actor ask_manager False) (demo_request (Bash_Access (u ''rm x'')) answer))"
proof -
  have e: "request_evaluation ask_manager (demo_manager_actor ask_manager False) (demo_request (Bash_Access (u ''rm x'')) answer) =
    Some (\<lparr>be_segments = NeedsPrompts [u ''rm x''], be_exact = False, be_granted = False,
      be_assessment = {DangerousCommand}, be_ambient = None\<rparr>, False)"
    by (rule demo_rm_evaluation) simp_all
  show ?thesis
    by (simp add: ask_mode_command[OF demo_ask demo_served demo_request_simps(1) e]
        ask_mode_bash_pre_decision[OF demo_ask e] bash_grant_pre_decision_def pre_classifier_def post_classify_def
        grant_if_def persisted_bash_auto_allows_def)
qed

theorem granted_command_runs_again_witness:
  "\<exists>B ev'. handle_request ask_manager B (demo_request (Bash_Access (u ''rm x'')) RejectOnce) = (B, ev', Some Allow)"
proof -
  let ?A = "demo_manager_actor ask_manager False" and ?r = "demo_request (Bash_Access (u ''rm x'')) AllowAlways"
  obtain B ev where h: "handle_request ask_manager ?A ?r = (B, ev, Some Allow)" "pe_prompted ev"
    by (auto simp: demo_rm_prompts prompt_stage_def answer_prompt_def answer_bash_def Let_def)
  show ?thesis
    using granted_command_runs_again[OF demo_ask demo_request_simps(1,8) h demo_request_simps(1) demo_served] by blast
qed

text \<open>A command rejected for the session is rejected for good: the prefix is in the file, and a
  manager started from it refuses every plain command that runs it.\<close>

theorem session_rejection_survives_restart:
  assumes "ask_mode C A" "rq_access r = Bash_Access cmd" "rq_answer r = RejectAlwaysBashCommand pre"
    and "handle_request C A r = (B, ev, Some d)" "pe_prompted ev" "rq_written r"
    and "plain_script (mc_shell C) cmd' tree cmds" "raw \<in> set cmds" "\<not> is_setup raw"
    and "matches_command_prefix (segment_text raw) pre"
  shows "\<exists>S. ac_disk B = Some S \<and>
    (\<exists>why. be_segments (evaluate_bash (mc_shell C) cmd' (ac_state (start_manager C yolo S (Some S) ok)) True) = Segment_Reject why)"
proof -
  obtain A1 outcome where A1: "answer_bash r cmd (rq_answer r) A = (A1, d, outcome)" "ac_disk B = ac_disk A1"
    using prompted_command[OF assms(1,2,4,5)] by metis
  let ?S = "add_disallowed pre (ac_state A)"
  have disk: "ac_disk B = Some ?S" using A1 assms(3,6) by (auto simp: answer_bash_def)
  have "pre \<in> set (ps_disallowed_commands (ac_state (start_manager C yolo ?S (Some ?S) ok)))"
    by (simp add: start_manager_def downgrade_edits_def add_disallowed_def Let_def)
  then have "\<exists>why. be_segments (evaluate_bash (mc_shell C) cmd' (ac_state (start_manager C yolo ?S (Some ?S) ok)) True) = Segment_Reject why"
    unfolding evaluate_rejects using assms(7-10) by (auto simp: segment_rejected_def)
  then show ?thesis using disk by blast
qed

theorem session_rejection_survives_restart_witness:
  "\<exists>(B :: unit perm_actor) S why. ac_disk B = Some S \<and> be_segments (evaluate_bash (mc_shell ask_manager) (u ''rm x'')
      (ac_state (start_manager ask_manager False S (Some S) True)) True) = Segment_Reject why"
proof -
  let ?A = "demo_manager_actor ask_manager False"
  let ?r = "demo_request (Bash_Access (u ''rm x'')) (RejectAlwaysBashCommand (u ''rm''))"
  obtain B ev d where h: "handle_request ask_manager ?A ?r = (B, ev, Some d)" "pe_prompted ev"
    by (auto simp: demo_rm_prompts prompt_stage_def answer_prompt_def answer_bash_def Let_def)
  have "plain_script (mc_shell ask_manager) (u ''rm x'') \<lparr>st_writes = [], st_assigned = [], st_opaque = False\<rparr>
      [[u ''rm'', u ''x'']]"
    by (simp add: plain_script_def demo_manager_def rm_facts)
  then obtain S why where "ac_disk B = Some S" "be_segments (evaluate_bash (mc_shell ask_manager) (u ''rm x'')
      (ac_state (start_manager ask_manager False S (Some S) True)) True) = Segment_Reject why"
    using session_rejection_survives_restart[OF demo_ask demo_request_simps(1,8) h demo_request_simps(9), of "u ''rm x''"
        "\<lparr>st_writes = [], st_assigned = [], st_opaque = False\<rparr>" "[[u ''rm'', u ''x'']]" "[u ''rm'', u ''x'']" False True]
    by (auto simp: rm_facts segment_text_def)
  then show ?thesis by blast
qed

lemma command_facts:
  "unwrap_wrappers [u ''command'', u ''rm'', a] = [u ''command'', u ''rm'', a]"
  "unwrap_wrappers [u ''rm'', a] = [u ''rm'', a]"
  "\<not> is_setup_command [u ''command'', u ''rm'', a]" "\<not> is_setup_command [u ''rm'', a]"
  by (simp_all add: unwrap_wrappers_def unwrap_wrappers_checked_def max_wrapper_depth_def numeral_eq_Suc Let_def
      strip_wrapper_command_def note_env_def head_name_def base_name_def is_setup_command_def u_def)

lemma rm_prefix:
  "matches_command_prefix (join [32] [u ''rm'', a]) (u ''rm'')"
  "\<not> matches_command_prefix (join [32] [u ''command'', u ''rm'', a]) (u ''rm'')"
  by (simp_all add: matches_command_prefix_def has_pre_def u_def)

lemma command_is_quiet: "segment_findings S [u ''command'', u ''rm'', a] = {}"
    "\<not> sf_has_git (segment_exec_facts [u ''command'', u ''rm'', a])"
proof -
  have norm: "normalize_for_exec_risk [u ''command'', u ''rm'', a] = Some [u ''rm'', a]"
    by (simp add: normalize_for_exec_risk_def max_normalize_rounds_def max_wrapper_depth_def
        max_transparent_prefix_depth_def peel_transparent_prefixes_def unwrap_wrappers_checked_def numeral_eq_Suc Let_def
        strip_wrapper_command_def note_env_def head_name_def base_name_def strip_transparent_prefix_def dashed_def
        has_pre_def u_def)
  then show "\<not> sf_has_git (segment_exec_facts [u ''command'', u ''rm'', a])"
    by (simp add: segment_exec_facts_def is_git_program_def normalized_program_name_def normalized_token_basename_def
        strip_exe_def base_name_def ascii_lower_def ends_in_def u_def)
  have "\<not> words_are_opaque_shell [u ''command'', u ''rm'', a]"
    by (simp add: words_are_opaque_shell_def is_potential_inline_def shell_dash_c_script_def is_shell_def head_name_def
        base_name_def u_def)
  moreover have "\<not> is_dangerous_command_words [u ''command'', u ''rm'', a]"
    by (simp add: is_dangerous_command_words_def dangerous_prefixes_def command_prefix_def has_pre_def u_def)
  moreover have "\<not> special_exec_surface [u ''command'', u ''rm'', a]"
    by (simp add: special_exec_surface_def kubectl_has_unsafe_flag_def rg_has_pre_flag_def ps_dumps_environment_def
        git_words_have_unsafe_query_option_def head_is_def u_def)
  moreover have "\<not> sf_exec_risk (segment_exec_facts [u ''command'', u ''rm'', a])"
    using norm by (simp add: segment_exec_facts_def segment_has_exec_risk_flag_def is_git_program_def is_sort_program_def
        normalized_program_name_def normalized_token_basename_def strip_exe_def base_name_def ascii_lower_def
        ends_in_def u_def)
  ultimately show "segment_findings S [u ''command'', u ''rm'', a] = {}"
    by (simp add: segment_findings_def command_facts)
qed

text \<open>A rejected prefix is looked for behind wrappers only, not behind the shell's own \<open>command\<close>: with
  the prefix \<open>rm\<close> rejected, \<open>rm a\<close> is refused, but \<open>command rm a\<close> runs in a sandbox without a prompt.\<close>

theorem rejection_evaded_behind_command:
  assumes "ask_mode C A" "served C A r" "rq_access r = Bash_Access cmd" "rq_sandbox r"
    and "plain_script (mc_shell C) cmd tree [[u ''command'', u ''rm'', a]]" "script_findings tree [[u ''command'', u ''rm'', a]] = {}"
    and "plain_script (mc_shell C) cmd' tree' [[u ''rm'', a]]"
    and "ps_disallowed_commands (ac_state A) = [u ''rm'']"
  shows "(\<exists>ev. handle_request C A r = (A, ev, Some Allow) \<and> \<not> pe_prompted ev) \<and>
    (\<exists>why. be_segments (evaluate_bash (mc_shell C) cmd' (ac_state A) True) = Segment_Reject why)"
proof
  let ?S = "ac_state A" and ?raw = "[u ''command'', u ''rm'', a]"
  let ?e = "evaluate_bash (mc_shell C) cmd ?S True"
  have ambient: "be_ambient ?e = None"
    using no_git_no_ambient[OF assms(5)] command_is_quiet(2) by simp
  then have e: "request_evaluation C A r = Some (?e, False)" using assms(3) by (simp add: request_evaluation_def)
  have quiet: "\<nexists>why. be_segments ?e = Segment_Reject why"
    unfolding evaluate_rejects using assms(5,8) rm_prefix(2)
    by (auto simp: plain_script_def segment_rejected_def segment_text_def command_facts)
  then have "be_assessment ?e = {}"
    using evaluate_findings[OF assms(5)] assms(6) command_is_quiet(1) by simp
  then have floor: "\<not> floor_requires_prompt ?e" by (simp add: floor_requires_prompt_def)
  have "d = Allow" if "bash_grant_pre_decision cmd ?e ?S (mc_pinned C) pre_classifier = Some (d, reason)" for d reason
    using bash_grant_cases[OF that] quiet by auto
  then show "\<exists>ev. handle_request C A r = (A, ev, Some Allow) \<and> \<not> pe_prompted ev"
    using floor assms(4) unfolding ask_mode_command[OF assms(1-3) e]
    by (auto simp: ruled_simps split: option.split)
  show "\<exists>why. be_segments (evaluate_bash (mc_shell C) cmd' ?S True) = Segment_Reject why"
    unfolding evaluate_rejects using assms(7,8) rm_prefix(1)
    by (auto simp: segment_rejected_def segment_text_def command_facts intro!: exI[of _ tree'] exI[of _ "[[u ''rm'', a]]"])
qed

theorem rejection_evaded_behind_command_witness:
  "\<exists>A ev. handle_request ask_manager A ((demo_request (Bash_Access (u ''command rm x'')) RejectOnce)\<lparr>rq_sandbox := True\<rparr>) =
     (A, ev, Some Allow) \<and> ps_disallowed_commands (ac_state A) = [u ''rm'']"
proof -
  let ?A = "with_state (add_disallowed (u ''rm'')) (demo_manager_actor ask_manager False)"
  let ?r = "(demo_request (Bash_Access (u ''command rm x'')) RejectOnce)\<lparr>rq_sandbox := True\<rparr>"
  let ?tree = "\<lparr>st_writes = [], st_assigned = [], st_opaque = False\<rparr>"
  have words: "split_on 32 (u ''command rm x'') = [u ''command'', u ''rm'', u ''x'']"
    "command_env_risk [u ''command'', u ''rm'', u ''x''] = Env_Safe" by code_simp+
  have plain: "plain_script (mc_shell ask_manager) (u ''command rm x'') ?tree [[u ''command'', u ''rm'', u ''x'']]"
    "plain_script (mc_shell ask_manager) (u ''rm x'') ?tree [[u ''rm'', u ''x'']]"
    by (simp_all add: plain_script_def demo_manager_def words rm_facts)
  have "ask_mode ask_manager ?A" "served ask_manager ?A ?r" "ps_disallowed_commands (ac_state ?A) = [u ''rm'']"
    by (simp_all add: ask_mode_def clamp_yolo_def served_def add_disallowed_def hs_insert_def)
  moreover have "script_findings ?tree [[u ''command'', u ''rm'', u ''x'']] = {}"
    by (simp add: script_findings_def script_env_risk_def words env_risk_finding_def)
  ultimately show ?thesis
    using rejection_evaded_behind_command[of ask_manager ?A ?r "u ''command rm x''" ?tree "u ''x''" "u ''rm x''" ?tree] plain
    by (intro exI[of _ ?A]) auto
qed

section \<open>Grants for MCP tools\<close>

lemma answer_tools:
  assumes "answer_other r (MCP_Access name input) out A = (B, d, outcome)"
  shows "(ps_mcp_tools (ac_state B) = ps_mcp_tools (ac_state A) \<or>
      set (ps_mcp_tools (ac_state B)) = insert name (set (ps_mcp_tools (ac_state A)))) \<and>
    (ps_mcp_servers (ac_state B) = ps_mcp_servers (ac_state A) \<or>
      (\<exists>server tool. parse_mcp_qualified_name name = Some (server, tool) \<and>
        set (ps_mcp_servers (ac_state B)) = insert server (set (ps_mcp_servers (ac_state A)))))"
  using assms by (auto simp: answer_other_def grant_server_def add_tool_def add_server_def
      split: prompt_outcome.splits option.splits if_splits)

lemma auto_stage_state: "auto_stage C A r f = Some t \<Longrightarrow> ac_state (ar_actor t) = ac_state A"
  by (auto simp: auto_stage_def follow_verdict_def Let_def
      split: if_splits auto_fast_path.splits classifier_verdict.splits)

definition answered :: "'c request \<Rightarrow> permission_state \<Rightarrow> permission_state \<Rightarrow> bool" where
  "answered r S S' \<longleftrightarrow>
     S' = S \<or> (\<exists>A B d outcome. answer_prompt r A = (B, d, outcome) \<and> ac_state A = S \<and> ac_state B = S')"

lemma prompt_stage_state: "answered r (ac_state (ar_actor t)) (ac_state (fst (prompt_stage C A t r f)))"
  by (auto simp: answered_def prompt_stage_def abandoned_def Let_def split: prod.split)

lemma ruled_state [simp]: "ac_state (fst (ruled C A B a source x)) = ac_state B"
  by (simp add: ruled_def split: prod.split)

lemma after_auto_state: "answered r (ac_state (ar_actor t)) (ac_state (fst (after_auto C A t r f)))"
  using prompt_stage_state[of r t C A f]
  by (auto simp: after_auto_def Let_def answered_def split: option.split prod.split)

lemma request_state: "answered r (ac_state A) (ac_state (fst (handle_request C A r)))"
proof (cases "early_ruling C A r (facts_of C A r) = None \<and> auto_stage C A r (facts_of C A r) \<noteq> None")
  case True
  then obtain t where t: "auto_stage C A r (facts_of C A r) = Some t" by blast
  then show ?thesis using True after_auto_state[of r t C A "facts_of C A r"] auto_stage_state[OF t]
    by (simp add: handle_request_def abandoned_def Let_def answered_def)
qed (auto simp: handle_request_def abandoned_def answered_def Let_def split: option.split)

text \<open>C39: whatever the client answers to a prompt for an MCP tool, the tools that need no further prompt
  are those of before, the tool itself, and at most the tools of its own server.\<close>

theorem mcp_grant_stays_on_its_server:
  assumes "rq_access r = MCP_Access name input"
    and "mcp_pre_decision other (ac_state (fst (handle_request C A r))) False False = Some Allow"
  shows "mcp_pre_decision other (ac_state A) False False = Some Allow \<or> other = name \<or>
    (\<exists>server tool tool'. parse_mcp_qualified_name name = Some (server, tool) \<and>
      parse_mcp_qualified_name other = Some (server, tool'))"
proof -
  let ?S = "ac_state A" and ?S' = "ac_state (fst (handle_request C A r))"
  have tools: "set (ps_mcp_tools ?S') \<subseteq> insert name (set (ps_mcp_tools ?S))" and
    servers: "set (ps_mcp_servers ?S') \<subseteq> set (ps_mcp_servers ?S) \<or>
      (\<exists>server tool. parse_mcp_qualified_name name = Some (server, tool) \<and>
        set (ps_mcp_servers ?S') \<subseteq> insert server (set (ps_mcp_servers ?S)))"
    using request_state[of r A C] assms(1) unfolding answered_def answer_prompt_def
    by (auto dest!: answer_tools)
  from assms(2) consider "other \<in> set (ps_mcp_tools ?S')"
    | server tool where "parse_mcp_qualified_name other = Some (server, tool)" "server \<in> set (ps_mcp_servers ?S')"
    by (auto simp: mcp_pre_decision_def mcp_server_prefix_allowed_def split: if_splits option.splits prod.splits)
  then show ?thesis
    using tools servers
    by cases (auto simp: mcp_pre_decision_def mcp_server_prefix_allowed_def split: option.splits)
qed

theorem mcp_grant_stays_on_its_server_witness:
  "\<exists>tool tool'. parse_mcp_qualified_name (u ''s__a'') = Some (u ''s'', tool) \<and>
     parse_mcp_qualified_name (u ''s__b'') = Some (u ''s'', tool') \<and>
     mcp_pre_decision (u ''s__b'') (ac_state (fst (handle_request ask_manager (demo_manager_actor ask_manager False)
       (demo_request (MCP_Access (u ''s__a'') []) (AllowAlwaysMcpServer (u ''s'')))))) False False = Some Allow"
proof -
  let ?A = "demo_manager_actor ask_manager False"
  let ?r = "demo_request (MCP_Access (u ''s__a'') []) (AllowAlwaysMcpServer (u ''s''))"
  have names: "parse_mcp_qualified_name (u ''s__a'') = Some (u ''s'', u ''a'')"
    "parse_mcp_qualified_name (u ''s__b'') = Some (u ''s'', u ''b'')" by code_simp+
  have none: "mcp_pre_decision n default_state False m = None" for n m
    by (simp add: mcp_pre_decision_def mcp_server_prefix_allowed_def default_state_def)
  have early: "early_ruling ask_manager ?A ?r (facts_of ask_manager ?A ?r) = None"
    by (simp add: no_policy_early clamp_yolo_def session_grant_def session_grant_pre_decision_def none)
  have late: "late_ruling ?r (facts_of ask_manager ?A ?r) False = None"
    "settled ask_manager ?A (MCP_Access (u ''s__a'') []) (facts_of ask_manager ?A ?r) False = None"
    by (simp_all add: late_ruling_def no_policy is_bash_def settled_def pre_decision_def none Let_def)
  have stage: "handle_request ask_manager ?A ?r = prompt_stage ask_manager ?A (passed ?A) ?r (facts_of ask_manager ?A ?r)"
    by (simp add: served_request[OF demo_served] early not_auto_stage clamp_yolo_def after_auto_def late Let_def)
  have "ac_state (fst (handle_request ask_manager ?A ?r)) = add_server (u ''s'') default_state"
    unfolding stage by (simp add: prompt_stage_def answer_prompt_def answer_other_def grant_server_def names Let_def)
  then have "mcp_pre_decision (u ''s__b'') (ac_state (fst (handle_request ask_manager ?A ?r))) False False = Some Allow"
    by (auto simp: names add_server_def mcp_pre_decision_def mcp_server_prefix_allowed_def hs_insert_def)
  from mcp_grant_stays_on_its_server[OF demo_request_simps(1) this] this show ?thesis using names none by auto
qed

end
