(* ===== verification/Patch_Seek.thy ===== *)
theory Patch_Seek
  imports Unicode_Text
begin

text \<open>
  The line matcher of the patch engine (\<open>apply_patch/seek_sequence.rs\<close>): four passes over
  the same positions, each comparing lines in a coarser normal form. The interface of
  the passes is \<open>coarsening\<close>: what one normal form identifies, the next one identifies.
\<close>

section \<open>Passes\<close>

definition match_at :: "(ustr \<Rightarrow> ustr) \<Rightarrow> ustr list \<Rightarrow> ustr list \<Rightarrow> nat \<Rightarrow> bool" where
  "match_at canon ls pat i \<longleftrightarrow> map canon (take (length pat) (drop i ls)) = map canon pat"

definition seek_pass :: "(ustr \<Rightarrow> ustr) \<Rightarrow> ustr list \<Rightarrow> ustr list \<Rightarrow> nat \<Rightarrow> nat option" where
  "seek_pass canon ls pat start =
     List.find (match_at canon ls pat) [start..<length ls - length pat + 1]"

definition norm_char :: "nat \<Rightarrow> nat" where
  "norm_char c =
     (if (8208 \<le> c \<and> c \<le> 8213) \<or> c = 8722 then 45
      else if 8216 \<le> c \<and> c \<le> 8219 then 39
      else if 8220 \<le> c \<and> c \<le> 8223 then 34
      else if c = 160 \<or> (8194 \<le> c \<and> c \<le> 8202) \<or> c = 8239 \<or> c = 8287 \<or> c = 12288 then 32
      else c)"

definition normalise :: "ustr \<Rightarrow> ustr" where
  "normalise s = map norm_char (trim s)"

definition search_start :: "ustr list \<Rightarrow> ustr list \<Rightarrow> nat \<Rightarrow> bool \<Rightarrow> nat" where
  "search_start ls pat start eof =
     (if eof \<and> length pat \<le> length ls then length ls - length pat else start)"

definition seek_sequence :: "ustr list \<Rightarrow> ustr list \<Rightarrow> nat \<Rightarrow> bool \<Rightarrow> nat option" where
  "seek_sequence ls pat start eof =
     (if pat = [] then Some start
      else if length ls < length pat then None
      else (let s = search_start ls pat start eof in
        case seek_pass id ls pat s of
          Some i \<Rightarrow> Some i
        | None \<Rightarrow> (case seek_pass trim_end ls pat s of
            Some i \<Rightarrow> Some i
          | None \<Rightarrow> (case seek_pass trim ls pat s of
              Some i \<Rightarrow> Some i
            | None \<Rightarrow> seek_pass normalise ls pat s))))"

section \<open>Coarser normal forms\<close>

locale coarsening =
  fixes fine coarse :: "ustr \<Rightarrow> ustr"
  assumes coarser: "fine s = fine t \<Longrightarrow> coarse s = coarse t"
begin

lemma map_coarser: "map fine xs = map fine ys \<Longrightarrow> map coarse xs = map coarse ys"
proof (induction xs arbitrary: ys)
  case (Cons x xs)
  then obtain y zs where "ys = y # zs" "fine x = fine y" "map fine xs = map fine zs"
    by (cases ys) simp_all
  then show ?case using Cons.IH[of zs] coarser[of x y] by simp
qed simp

lemma match: "match_at fine ls pat i \<Longrightarrow> match_at coarse ls pat i"
  unfolding match_at_def by (rule map_coarser)

end

interpretation rstrip: coarsening id trim_end
  by unfold_locales simp

interpretation both: coarsening trim_end trim
  by unfold_locales (rule trim_of_trim_end)

interpretation unicode: coarsening trim normalise
  by unfold_locales (simp add: normalise_def)

text \<open>The chain: whatever a pass matches, the last pass matches.\<close>

lemma match_normalise:
  "match_at id ls pat i \<Longrightarrow> match_at normalise ls pat i"
  "match_at trim_end ls pat i \<Longrightarrow> match_at normalise ls pat i"
  "match_at trim ls pat i \<Longrightarrow> match_at normalise ls pat i"
  by (blast intro: rstrip.match both.match unicode.match)+

section \<open>What a pass finds\<close>

lemma find_upt_None: "List.find P [a..<b] = None \<longleftrightarrow> (\<forall>i. a \<le> i \<and> i < b \<longrightarrow> \<not> P i)"
  by (auto simp: find_None_iff)

lemma find_upt_Some:
  "List.find P [a..<b] = Some i \<Longrightarrow> a \<le> i \<and> i < b \<and> P i \<and> (\<forall>j. a \<le> j \<and> j < i \<longrightarrow> \<not> P j)"
proof -
  assume "List.find P [a..<b] = Some i"
  then obtain k where k: "k < b - a" "P (a + k)" "i = a + k" "\<forall>j < k. \<not> P (a + j)"
    by (auto simp: find_Some_iff)
  have "\<not> P j" if "a \<le> j" "j < i" for j
    using k(4)[rule_format, of "j - a"] k(3) that by simp
  then show ?thesis using k by simp
qed

lemma seek_pass_Some:
  "seek_pass canon ls pat s = Some i \<Longrightarrow>
   s \<le> i \<and> i \<le> length ls - length pat \<and> match_at canon ls pat i \<and>
   (\<forall>j. s \<le> j \<and> j < i \<longrightarrow> \<not> match_at canon ls pat j)"
  unfolding seek_pass_def by (drule find_upt_Some) auto

lemma seek_pass_None:
  "seek_pass canon ls pat s = None \<longleftrightarrow>
   (\<forall>i. s \<le> i \<and> i \<le> length ls - length pat \<longrightarrow> \<not> match_at canon ls pat i)"
  unfolding seek_pass_def find_upt_None by (simp add: less_Suc_eq_le)

lemma seek_cases:
  assumes "seek_sequence ls pat start eof = Some i" "pat \<noteq> []"
  shows "length pat \<le> length ls \<and> (\<exists>canon \<in> {id, trim_end, trim, normalise}.
    seek_pass canon ls pat (search_start ls pat start eof) = Some i)"
  using assms by (auto simp: seek_sequence_def Let_def split: if_splits option.splits)

lemma seek_range:
  assumes "seek_sequence ls pat start eof = Some i" "pat \<noteq> []"
  shows "search_start ls pat start eof \<le> i \<and> i + length pat \<le> length ls"
  using seek_cases[OF assms] by (auto dest!: seek_pass_Some)

lemma seek_matches:
  assumes "seek_sequence ls pat start eof = Some i" "pat \<noteq> []"
  shows "match_at normalise ls pat i"
  using seek_cases[OF assms] by (auto dest!: seek_pass_Some intro: match_normalise)

lemma seek_le:
  "seek_sequence ls pat start eof = Some i \<Longrightarrow> start \<le> length ls \<Longrightarrow> i + length pat \<le> length ls"
  using seek_range[of ls pat start eof i] by (cases "pat = []") (auto simp: seek_sequence_def)

lemma seek_from: "seek_sequence ls pat start False = Some i \<Longrightarrow> start \<le> i"
  using seek_range[of ls pat start False i]
  by (cases "pat = []") (auto simp: seek_sequence_def search_start_def)

lemma seek_found_iff:
  assumes "pat \<noteq> []"
  shows "(\<exists>i. seek_sequence ls pat start eof = Some i) \<longleftrightarrow>
    (\<exists>i. search_start ls pat start eof \<le> i \<and> i + length pat \<le> length ls \<and> match_at normalise ls pat i)"
proof
  assume "\<exists>i. seek_sequence ls pat start eof = Some i"
  then show "\<exists>i. search_start ls pat start eof \<le> i \<and> i + length pat \<le> length ls \<and> match_at normalise ls pat i"
    using seek_range seek_matches assms by blast
next
  assume "\<exists>i. search_start ls pat start eof \<le> i \<and> i + length pat \<le> length ls \<and> match_at normalise ls pat i"
  then obtain i where i: "search_start ls pat start eof \<le> i" "i + length pat \<le> length ls"
    "match_at normalise ls pat i" by blast
  then have "i \<le> length ls - length pat" by simp
  then have "seek_pass normalise ls pat (search_start ls pat start eof) \<noteq> None"
    using i by (auto simp: seek_pass_None)
  then show "\<exists>i. seek_sequence ls pat start eof = Some i"
    using assms i(2) by (auto simp: seek_sequence_def Let_def split: option.splits)
qed

text \<open>An exact match wins over any fuzzy one, and the first exact match is taken.\<close>

lemma seek_exact_first:
  assumes "pat \<noteq> []" "search_start ls pat start eof \<le> i" "i + length pat \<le> length ls"
    "match_at id ls pat i"
  shows "\<exists>j. seek_sequence ls pat start eof = Some j \<and> j \<le> i \<and> match_at id ls pat j"
proof -
  have i: "i \<le> length ls - length pat" using assms(3) by simp
  then obtain j where j: "seek_pass id ls pat (search_start ls pat start eof) = Some j"
    using assms(2,4) by (cases "seek_pass id ls pat (search_start ls pat start eof)")
      (auto simp: seek_pass_None)
  then have "j \<le> i" using seek_pass_Some[OF j] assms(2,4) by (meson not_less)
  then show ?thesis using j seek_pass_Some[OF j] assms(1,3)
    by (auto simp: seek_sequence_def Let_def)
qed

end
