(* ===== verification/Patch_Parser.thy ===== *)
theory Patch_Parser
  imports Unicode_Text
begin

text \<open>
  The parser of the patch format
  (\<open>xai-grok-tools/src/implementations/codex/apply_patch/parser.rs\<close>, \<open>errors.rs\<close>). Both
  loops consume at least one line per round; that is their termination argument.
\<close>

section \<open>Patches\<close>

datatype parse_error =
  InvalidPatchError ustr
| InvalidHunkError ustr nat

record update_chunk =
  uc_context :: "ustr option"
  uc_old_lines :: "ustr list"
  uc_new_lines :: "ustr list"
  uc_end_of_file :: bool

datatype patch_hunk =
  AddFile ustr ustr
| DeleteFile ustr
| UpdateFile ustr "ustr option" "update_chunk list"

record parsed_patch =
  pp_hunks :: "patch_hunk list"
  pp_patch :: ustr

definition begin_patch_marker :: ustr where "begin_patch_marker = u ''*** Begin Patch''"
definition end_patch_marker :: ustr where "end_patch_marker = u ''*** End Patch''"
definition add_file_marker :: ustr where "add_file_marker = u ''*** Add File: ''"
definition delete_file_marker :: ustr where "delete_file_marker = u ''*** Delete File: ''"
definition update_file_marker :: ustr where "update_file_marker = u ''*** Update File: ''"
definition move_to_marker :: ustr where "move_to_marker = u ''*** Move to: ''"
definition eof_marker :: ustr where "eof_marker = u ''*** End of File''"
definition change_context_marker :: ustr where "change_context_marker = u ''@@ ''"
definition empty_change_context_marker :: ustr where "empty_change_context_marker = u ''@@''"

lemmas marker_defs = begin_patch_marker_def end_patch_marker_def add_file_marker_def
  delete_file_marker_def update_file_marker_def move_to_marker_def eof_marker_def
  change_context_marker_def empty_change_context_marker_def

section \<open>Messages\<close>

text \<open>The single quotes of the messages are the code point 39.\<close>

definition quoted :: "ustr \<Rightarrow> ustr" where
  "quoted s = [39] @ s @ [39]"

definition no_lines_message :: ustr where
  "no_lines_message = u ''Update hunk does not contain any lines''"

definition unexpected_line_message :: "ustr \<Rightarrow> ustr" where
  "unexpected_line_message l =
     u ''Unexpected line found in update hunk: '' @ quoted l @
     u ''. Every line should start with '' @ quoted (u '' '') @ u '' (context line), '' @
     quoted (u ''+'') @ u '' (added line), or '' @ quoted (u ''-'') @ u '' (removed line)''"

definition missing_context_message :: "ustr \<Rightarrow> ustr" where
  "missing_context_message l =
     u ''Expected update hunk to start with a @@ context marker, got: '' @ quoted l"

definition empty_update_message :: "ustr \<Rightarrow> ustr" where
  "empty_update_message path = u ''Update file hunk for path '' @ quoted path @ u '' is empty''"

definition invalid_header_message :: "ustr \<Rightarrow> ustr" where
  "invalid_header_message l =
     quoted l @ u '' is not a valid hunk header. Valid hunk headers: '' @
     quoted (u ''*** Add File: {path}'') @ u '', '' @ quoted (u ''*** Delete File: {path}'') @
     u '', '' @ quoted (u ''*** Update File: {path}'')"

definition first_line_message :: ustr where
  "first_line_message = u ''The first line of the patch must be '' @ quoted begin_patch_marker"

definition last_line_message :: ustr where
  "last_line_message = u ''The last line of the patch must be '' @ quoted end_patch_marker"

section \<open>One chunk\<close>

fun chunk_body :: "nat \<Rightarrow> ustr list \<Rightarrow> update_chunk \<Rightarrow> nat \<Rightarrow> parse_error + update_chunk \<times> nat" where
  "chunk_body line_number [] c n = Inr (c, n)"
| "chunk_body line_number (l # ls) c n =
     (if l = eof_marker then
        (if n = 0 then Inl (InvalidHunkError no_lines_message (line_number + 1))
         else Inr (c\<lparr>uc_end_of_file := True\<rparr>, n + 1))
      else case l of
        [] \<Rightarrow>
          chunk_body line_number ls (c\<lparr>uc_old_lines := uc_old_lines c @ [[]],
            uc_new_lines := uc_new_lines c @ [[]]\<rparr>) (n + 1)
      | x # rest \<Rightarrow>
          if x = 32 then
            chunk_body line_number ls (c\<lparr>uc_old_lines := uc_old_lines c @ [rest],
              uc_new_lines := uc_new_lines c @ [rest]\<rparr>) (n + 1)
          else if x = 43 then
            chunk_body line_number ls (c\<lparr>uc_new_lines := uc_new_lines c @ [rest]\<rparr>) (n + 1)
          else if x = 45 then
            chunk_body line_number ls (c\<lparr>uc_old_lines := uc_old_lines c @ [rest]\<rparr>) (n + 1)
          else if n = 0 then
            Inl (InvalidHunkError (unexpected_line_message l) (line_number + 1))
          else Inr (c, n))"

definition new_chunk :: "ustr option \<Rightarrow> update_chunk" where
  "new_chunk ctx = \<lparr>uc_context = ctx, uc_old_lines = [], uc_new_lines = [], uc_end_of_file = False\<rparr>"

definition chunk_after ::
  "ustr list \<Rightarrow> nat \<Rightarrow> ustr option \<Rightarrow> nat \<Rightarrow> parse_error + update_chunk \<times> nat" where
  "chunk_after ls line_number ctx start =
     (if length ls \<le> start then Inl (InvalidHunkError no_lines_message (line_number + 1))
      else case chunk_body line_number (drop start ls) (new_chunk ctx) 0 of
        Inl e \<Rightarrow> Inl e
      | Inr (c, n) \<Rightarrow> Inr (c, n + start))"

definition parse_update_file_chunk ::
  "ustr list \<Rightarrow> nat \<Rightarrow> bool \<Rightarrow> parse_error + update_chunk \<times> nat" where
  "parse_update_file_chunk ls line_number allow_missing_context =
     (case ls of
        [] \<Rightarrow> Inl (InvalidHunkError no_lines_message line_number)
      | l # _ \<Rightarrow>
          if l = empty_change_context_marker then chunk_after ls line_number None 1
          else case strip_pre change_context_marker l of
            Some ctx \<Rightarrow> chunk_after ls line_number (Some ctx) 1
          | None \<Rightarrow>
              if \<not> allow_missing_context
              then Inl (InvalidHunkError (missing_context_message l) line_number)
              else chunk_after ls line_number None 0)"

text \<open>A chunk is never empty, and parsing one consumes at least one line.\<close>

definition chunk_ok :: "update_chunk \<Rightarrow> bool" where
  "chunk_ok c \<longleftrightarrow> uc_old_lines c \<noteq> [] \<or> uc_new_lines c \<noteq> []"

lemma chunk_body_ok:
  "chunk_body k ls c n = Inr (c', n') \<Longrightarrow> (0 < n \<longrightarrow> chunk_ok c) \<Longrightarrow> ls \<noteq> [] \<Longrightarrow>
   chunk_ok c' \<and> 0 < n' \<and> n \<le> n'"
proof (induction k ls c n rule: chunk_body.induct)
  case (2 k l ls c n)
  have step: "chunk_ok c' \<and> 0 < n' \<and> n \<le> n'"
    if "chunk_body k ls d (n + 1) = Inr (c', n')" "chunk_ok d"
      "ls \<noteq> [] \<Longrightarrow> chunk_ok c' \<and> 0 < n' \<and> n + 1 \<le> n'" for d
    using that by (cases ls) auto
  show ?case
  proof (cases "l = eof_marker")
    case True
    then show ?thesis using "2.prems" by (auto simp: chunk_ok_def split: if_splits)
  next
    case False
    show ?thesis
    proof (cases l)
      case Nil
      show ?thesis
        by (rule step[OF _ _ "2.IH"(1)[OF False Nil]])
          (use "2.prems" False Nil in \<open>auto simp: chunk_ok_def\<close>)
    next
      case (Cons x rest)
      consider "x = 32" | "x = 43" | "x = 45" | "x \<noteq> 32" "x \<noteq> 43" "x \<noteq> 45" by blast
      then show ?thesis
      proof cases
        case 1
        show ?thesis
          by (rule step[OF _ _ "2.IH"(2)[OF False Cons 1]])
            (use "2.prems" False Cons 1 in \<open>auto simp: chunk_ok_def\<close>)
      next
        case 2
        then have "x \<noteq> 32" by simp
        show ?thesis
          by (rule step[OF _ _ "2.IH"(3)[OF False Cons \<open>x \<noteq> 32\<close> 2]])
            (use "2.prems" False Cons 2 in \<open>auto simp: chunk_ok_def\<close>)
      next
        case 3
        then have "x \<noteq> 32" "x \<noteq> 43" by simp_all
        show ?thesis
          by (rule step[OF _ _ "2.IH"(4)[OF False Cons \<open>x \<noteq> 32\<close> \<open>x \<noteq> 43\<close> 3]])
            (use "2.prems" False Cons 3 in \<open>auto simp: chunk_ok_def\<close>)
      next
        case 4
        then show ?thesis using "2.prems" False Cons by (auto split: if_splits)
      qed
    qed
  qed
qed simp

lemma parse_chunk_ok:
  assumes "parse_update_file_chunk ls k b = Inr (c, n)"
  shows "chunk_ok c \<and> 0 < n"
proof -
  have "\<exists>ctx start. chunk_after ls k ctx start = Inr (c, n)"
    using assms unfolding parse_update_file_chunk_def
    by (auto split: list.splits if_splits option.splits)
  then obtain ctx start m where start: "start < length ls" and n: "n = m + start"
    and body: "chunk_body k (drop start ls) (new_chunk ctx) 0 = Inr (c, m)"
    by (auto simp: chunk_after_def not_le split: if_splits sum.splits prod.splits)
  show ?thesis using chunk_body_ok[OF body] start n by simp
qed

section \<open>One hunk\<close>

text \<open>The chunks of an update, up to the next hunk header; the second result counts lines.\<close>

function update_chunks ::
  "nat \<Rightarrow> ustr list \<Rightarrow> nat \<Rightarrow> update_chunk list \<Rightarrow>
   parse_error + update_chunk list \<times> nat" where
  "update_chunks line_number [] parsed chunks = Inr (chunks, parsed)"
| "update_chunks line_number (l # ls) parsed chunks =
     (if trim l = [] then update_chunks line_number ls (parsed + 1) chunks
      else if strip_pre (u ''***'') l \<noteq> None then Inr (chunks, parsed)
      else case parse_update_file_chunk (l # ls) (line_number + parsed) (chunks = []) of
        Inl e \<Rightarrow> Inl e
      | Inr (c, n) \<Rightarrow> update_chunks line_number (drop n (l # ls)) (parsed + n) (chunks @ [c]))"
  by pat_completeness auto
termination
  by (relation "measure (\<lambda>(_, ls, _, _). length ls)") (auto dest: parse_chunk_ok)

text \<open>The added lines of a new file: contents and their number.\<close>

fun add_lines :: "ustr list \<Rightarrow> ustr \<times> nat" where
  "add_lines [] = ([], 0)"
| "add_lines (l # ls) =
     (case strip_pre (u ''+'') l of
        None \<Rightarrow> ([], 0)
      | Some r \<Rightarrow> (case add_lines ls of (t, n) \<Rightarrow> (r @ [LF] @ t, n + 1)))"

definition move_line :: "ustr list \<Rightarrow> ustr option" where
  "move_line ls = (case ls of [] \<Rightarrow> None | l # _ \<Rightarrow> strip_pre move_to_marker l)"

definition parse_update_hunk ::
  "ustr \<Rightarrow> ustr list \<Rightarrow> nat \<Rightarrow> parse_error + patch_hunk \<times> nat" where
  "parse_update_hunk path rest line_number =
     (let move = move_line rest;
          parsed = (if move = None then 1 else 2);
          body = (if move = None then rest else drop 1 rest)
      in case update_chunks line_number body parsed [] of
        Inl e \<Rightarrow> Inl e
      | Inr (chunks, n) \<Rightarrow>
          if chunks = [] then Inl (InvalidHunkError (empty_update_message path) line_number)
          else Inr (UpdateFile path move chunks, n))"

definition parse_one_hunk ::
  "ustr list \<Rightarrow> nat \<Rightarrow> parse_error + patch_hunk \<times> nat" where
  "parse_one_hunk ls line_number =
     (let first = trim (hd ls); rest = tl ls in
      case strip_pre add_file_marker first of
        Some path \<Rightarrow> (case add_lines rest of (t, n) \<Rightarrow> Inr (AddFile path t, n + 1))
      | None \<Rightarrow> (case strip_pre delete_file_marker first of
          Some path \<Rightarrow> Inr (DeleteFile path, 1)
        | None \<Rightarrow> (case strip_pre update_file_marker first of
            Some path \<Rightarrow> parse_update_hunk path rest line_number
          | None \<Rightarrow> Inl (InvalidHunkError (invalid_header_message first) line_number))))"

lemma update_chunks_ok:
  "update_chunks k ls n cs = Inr (cs', n') \<Longrightarrow> list_all chunk_ok cs \<Longrightarrow>
   list_all chunk_ok cs' \<and> n \<le> n'"
proof (induction k ls n cs rule: update_chunks.induct)
  case (2 k l ls n cs)
  show ?case
  proof (cases "trim l = []")
    case True
    then show ?thesis using 2 by auto
  next
    case False
    show ?thesis
    proof (cases "strip_pre (u ''***'') l = None")
      case nostop: True
      obtain c m where p: "parse_update_file_chunk (l # ls) (k + n) (cs = []) = Inr (c, m)"
        using "2.prems"(1) False nostop by (auto split: sum.splits)
      then have "update_chunks k (drop m (l # ls)) (n + m) (cs @ [c]) = Inr (cs', n')"
        using "2.prems"(1) False nostop by simp
      moreover have "chunk_ok c" using parse_chunk_ok[OF p] by simp
      ultimately show ?thesis
        using "2.IH"(2)[OF False _ p refl] nostop "2.prems"(2) by simp
    qed (use 2 False in auto)
  qed
qed simp

definition hunk_ok :: "patch_hunk \<Rightarrow> bool" where
  "hunk_ok h \<longleftrightarrow> (case h of
      AddFile _ t \<Rightarrow> t = [] \<or> last t = LF
    | DeleteFile _ \<Rightarrow> True
    | UpdateFile _ _ cs \<Rightarrow> cs \<noteq> [] \<and> list_all chunk_ok cs)"

lemma add_lines_ok: "fst (add_lines ls) = [] \<or> last (fst (add_lines ls)) = LF"
  by (induction ls) (auto split: option.splits prod.splits)

lemma parse_one_hunk_ok:
  assumes "parse_one_hunk ls k = Inr (h, n)"
  shows "hunk_ok h \<and> 0 < n"
proof -
  consider (add) path t m where "h = AddFile path t" "add_lines (tl ls) = (t, m)" "n = m + 1"
    | (del) path where "h = DeleteFile path" "n = 1"
    | (upd) path where "parse_update_hunk path (tl ls) k = Inr (h, n)"
    using assms by (auto simp: parse_one_hunk_def Let_def split: option.splits prod.splits)
  then show ?thesis
  proof cases
    case add
    then show ?thesis using add_lines_ok[of "tl ls"] by (simp add: hunk_ok_def)
  next
    case upd
    obtain move body p where step: "(case update_chunks k body p [] of Inl e \<Rightarrow> Inl e | Inr (cs, m) \<Rightarrow>
        if cs = [] then Inl (InvalidHunkError (empty_update_message path) k)
        else Inr (UpdateFile path move cs, m)) = Inr (h, n)" and "0 < (p :: nat)"
    proof (cases "move_line (tl ls)")
      case None
      then show ?thesis using upd that[of None "tl ls" 1] by (simp add: parse_update_hunk_def)
    next
      case (Some x)
      then show ?thesis using upd that[of "Some x" "drop 1 (tl ls)" 2]
        by (simp add: parse_update_hunk_def)
    qed
    moreover obtain cs where u: "update_chunks k body p [] = Inr (cs, n)" "cs \<noteq> []"
      and "h = UpdateFile path move cs"
      using step by (auto split: sum.splits if_splits)
    ultimately show ?thesis using update_chunks_ok[OF u(1)] by (simp add: hunk_ok_def)
  qed (simp add: hunk_ok_def)
qed

section \<open>Whole patches\<close>

datatype parse_mode = Strict | Lenient

definition check_start_and_end_lines_strict ::
  "ustr option \<Rightarrow> ustr option \<Rightarrow> parse_error + unit" where
  "check_start_and_end_lines_strict first_line last_line =
     (let first = map_option trim first_line; last' = map_option trim last_line in
      if first = Some begin_patch_marker \<and> last' = Some end_patch_marker then Inr ()
      else if first \<noteq> None \<and> first \<noteq> Some begin_patch_marker
      then Inl (InvalidPatchError first_line_message)
      else Inl (InvalidPatchError last_line_message))"

definition check_patch_boundaries_strict :: "ustr list \<Rightarrow> parse_error + unit" where
  "check_patch_boundaries_strict ls =
     (if ls = [] then check_start_and_end_lines_strict None None
      else check_start_and_end_lines_strict (Some (hd ls)) (Some (last ls)))"

definition heredoc_openers :: "ustr list" where
  "heredoc_openers = [u ''<<EOF'', u ''<<'' @ quoted (u ''EOF''), u ''<<'' @ [34] @ u ''EOF'' @ [34]]"

definition check_patch_boundaries_lenient ::
  "ustr list \<Rightarrow> parse_error \<Rightarrow> parse_error + ustr list" where
  "check_patch_boundaries_lenient ls original_error =
     (if 2 \<le> length ls \<and> hd ls \<in> set heredoc_openers \<and> ends_in (u ''EOF'') (last ls) \<and> 4 \<le> length ls
      then (let inner = butlast (tl ls) in
            case check_patch_boundaries_strict inner of
              Inr _ \<Rightarrow> Inr inner
            | Inl e \<Rightarrow> Inl e)
      else Inl original_error)"

function parse_hunks ::
  "ustr list \<Rightarrow> nat \<Rightarrow> patch_hunk list \<Rightarrow> parse_error + patch_hunk list" where
  "parse_hunks [] line_number hunks = Inr hunks"
| "parse_hunks (l # ls) line_number hunks =
     (case parse_one_hunk (l # ls) line_number of
        Inl e \<Rightarrow> Inl e
      | Inr (h, n) \<Rightarrow> parse_hunks (drop n (l # ls)) (line_number + n) (hunks @ [h]))"
  by pat_completeness auto
termination
  by (relation "measure (\<lambda>(ls, _, _). length ls)") (auto dest: parse_one_hunk_ok)

definition boundary_lines :: "parse_mode \<Rightarrow> ustr list \<Rightarrow> parse_error + ustr list" where
  "boundary_lines mode ls =
     (case check_patch_boundaries_strict ls of
        Inr _ \<Rightarrow> Inr ls
      | Inl e \<Rightarrow> (case mode of
          Strict \<Rightarrow> Inl e
        | Lenient \<Rightarrow> check_patch_boundaries_lenient ls e))"

definition parse_patch_text :: "ustr \<Rightarrow> parse_mode \<Rightarrow> parse_error + parsed_patch" where
  "parse_patch_text patch mode =
     (case boundary_lines mode (ulines (trim patch)) of
        Inl e \<Rightarrow> Inl e
      | Inr ls \<Rightarrow> (case parse_hunks (butlast (tl ls)) 2 [] of
          Inl e \<Rightarrow> Inl e
        | Inr hunks \<Rightarrow> Inr \<lparr>pp_hunks = hunks, pp_patch = join [LF] ls\<rparr>))"

definition parse_patch :: "ustr \<Rightarrow> parse_error + parsed_patch" where
  "parse_patch patch = parse_patch_text patch Lenient"

text \<open>The lines that pass the boundary check are at least two, so the slice that drops the first
  and the last of them is in range.\<close>

lemma begin_neq_end: "begin_patch_marker \<noteq> end_patch_marker"
  by (simp add: marker_defs u_def)

lemma strict_boundaries_two:
  "check_patch_boundaries_strict ls = Inr x \<Longrightarrow> 2 \<le> length ls"
  using begin_neq_end
  by (cases ls; cases "tl ls")
    (auto simp: check_patch_boundaries_strict_def check_start_and_end_lines_strict_def Let_def
      split: if_splits)

lemma boundary_lines_two: "boundary_lines m ls = Inr ls' \<Longrightarrow> 2 \<le> length ls'"
  by (auto simp: boundary_lines_def check_patch_boundaries_lenient_def Let_def
      split: sum.splits parse_mode.splits if_splits dest!: strict_boundaries_two)

lemma parse_hunks_ok:
  "parse_hunks ls k hs = Inr hs' \<Longrightarrow> list_all hunk_ok hs \<Longrightarrow> list_all hunk_ok hs'"
  by (induction ls k hs rule: parse_hunks.induct)
    (auto split: sum.splits prod.splits dest: parse_one_hunk_ok)

end
