(* ===== verification/Patch_Apply.thy ===== *)
theory Patch_Apply
  imports Patch_Seek Patch_Parser
begin

text \<open>
  Applying the chunks of an update to the lines of a file (\<open>apply_patch/apply.rs\<close>). A
  panic of \<open>Vec::insert\<close> is the value \<open>None\<close>.
\<close>

datatype apply_patch_error =
  Parse parse_error
| ComputeReplacements ustr
| Io ustr ustr "ustr option"

type_synonym replacement = "nat \<times> nat \<times> ustr list"

section \<open>Computing replacements\<close>

definition context_message :: "ustr \<Rightarrow> ustr \<Rightarrow> ustr" where
  "context_message ctx path = u ''Failed to find context '' @ quoted ctx @ u '' in '' @ path"

definition lines_message :: "ustr \<Rightarrow> ustr list \<Rightarrow> ustr" where
  "lines_message path old = u ''Failed to find expected lines in '' @ path @ u '':'' @ [LF] @ join [LF] old"

definition context_index :: "ustr list \<Rightarrow> ustr \<Rightarrow> update_chunk \<Rightarrow> nat \<Rightarrow> apply_patch_error + nat" where
  "context_index ls path c line_index =
     (case uc_context c of
        None \<Rightarrow> Inr line_index
      | Some ctx \<Rightarrow>
          (case seek_sequence ls [ctx] line_index False of
             Some i \<Rightarrow> Inr (i + 1)
           | None \<Rightarrow> Inl (ComputeReplacements (context_message ctx path))))"

definition insertion_index :: "ustr list \<Rightarrow> nat" where
  "insertion_index ls = (if ls \<noteq> [] \<and> last ls = [] then length ls - 1 else length ls)"

text \<open>The old lines, or without their last empty line when they are not found with it.\<close>

definition without_final_empty :: "ustr list \<Rightarrow> ustr list" where
  "without_final_empty ls = (if ls \<noteq> [] \<and> last ls = [] then butlast ls else ls)"

definition find_old :: "ustr list \<Rightarrow> update_chunk \<Rightarrow> nat \<Rightarrow> nat option \<times> ustr list \<times> ustr list" where
  "find_old ls c line_index =
     (let old = uc_old_lines c; new = uc_new_lines c; eof = uc_end_of_file c;
          found = seek_sequence ls old line_index eof in
      if found = None \<and> old \<noteq> [] \<and> last old = [] then
        (seek_sequence ls (butlast old) line_index eof, butlast old, without_final_empty new)
      else (found, old, new))"

definition replace_chunk ::
  "ustr list \<Rightarrow> ustr \<Rightarrow> update_chunk \<Rightarrow> nat \<Rightarrow> apply_patch_error + replacement \<times> nat" where
  "replace_chunk ls path c line_index =
     (if uc_old_lines c = [] then Inr ((insertion_index ls, 0, uc_new_lines c), line_index)
      else case find_old ls c line_index of
        (Some start, pat, new) \<Rightarrow> Inr ((start, length pat, new), start + length pat)
      | (None, _, _) \<Rightarrow> Inl (ComputeReplacements (lines_message path (uc_old_lines c))))"

fun chunk_replacements ::
  "ustr list \<Rightarrow> ustr \<Rightarrow> update_chunk list \<Rightarrow> nat \<Rightarrow> apply_patch_error + replacement list" where
  "chunk_replacements ls path [] line_index = Inr []"
| "chunk_replacements ls path (c # cs) line_index =
     (case context_index ls path c line_index of
        Inl e \<Rightarrow> Inl e
      | Inr i \<Rightarrow> (case replace_chunk ls path c i of
          Inl e \<Rightarrow> Inl e
        | Inr (r, j) \<Rightarrow> (case chunk_replacements ls path cs j of
            Inl e \<Rightarrow> Inl e
          | Inr rs \<Rightarrow> Inr (r # rs))))"

definition compute_replacements ::
  "ustr list \<Rightarrow> ustr \<Rightarrow> update_chunk list \<Rightarrow> apply_patch_error + replacement list" where
  "compute_replacements ls path cs =
     (case chunk_replacements ls path cs 0 of
        Inl e \<Rightarrow> Inl e
      | Inr rs \<Rightarrow> Inr (sort_key fst rs))"

section \<open>Applying replacements\<close>

fun remove_lines :: "nat \<Rightarrow> nat \<Rightarrow> 'a list \<Rightarrow> 'a list" where
  "remove_lines start 0 ls = ls"
| "remove_lines start (Suc n) ls =
     remove_lines start n (if start < length ls then take start ls @ drop (start + 1) ls else ls)"

fun insert_lines :: "nat \<Rightarrow> 'a list \<Rightarrow> 'a list \<Rightarrow> 'a list option" where
  "insert_lines start [] ls = Some ls"
| "insert_lines start (x # xs) ls =
     (if start \<le> length ls then insert_lines (start + 1) xs (take start ls @ x # drop start ls)
      else None)"

fun apply_each :: "replacement list \<Rightarrow> ustr list \<Rightarrow> ustr list option" where
  "apply_each [] ls = Some ls"
| "apply_each ((start, n, new) # rs) ls =
     (case insert_lines start new (remove_lines start n ls) of
        None \<Rightarrow> None
      | Some ls' \<Rightarrow> apply_each rs ls')"

definition apply_replacements :: "ustr list \<Rightarrow> replacement list \<Rightarrow> ustr list option" where
  "apply_replacements ls rs = apply_each (rev rs) ls"

definition original_lines :: "ustr \<Rightarrow> ustr list" where
  "original_lines t = without_final_empty (split_on LF t)"

definition finish_lines :: "ustr list \<Rightarrow> ustr" where
  "finish_lines ls = join [LF] (if ls \<noteq> [] \<and> last ls = [] then ls else ls @ [[]])"

definition derive_new_contents ::
  "ustr \<Rightarrow> ustr \<Rightarrow> update_chunk list \<Rightarrow> (apply_patch_error + ustr) option" where
  "derive_new_contents original path cs =
     (case compute_replacements (original_lines original) path cs of
        Inl e \<Rightarrow> Some (Inl e)
      | Inr rs \<Rightarrow> map_option (Inr \<circ> finish_lines) (apply_replacements (original_lines original) rs))"

section \<open>Removing and inserting\<close>

lemma remove_lines_take: "remove_lines s n ls = take s ls @ drop (s + n) ls"
  by (induction s n ls rule: remove_lines.induct) (auto simp: min_def add.commute)

lemma insert_lines_take: "s \<le> length ls \<Longrightarrow> insert_lines s xs ls = Some (take s ls @ xs @ drop s ls)"
  by (induction s xs ls rule: insert_lines.induct) (auto simp: min_def)

lemma apply_each_append:
  "apply_each (rs @ qs) ls = (case apply_each rs ls of None \<Rightarrow> None | Some ls' \<Rightarrow> apply_each qs ls')"
  by (induction rs ls rule: apply_each.induct) (auto split: option.splits)

lemma apply_one:
  "s \<le> length ls \<Longrightarrow> apply_each [(s, n, new)] ls = Some (take s ls @ new @ drop (s + n) ls)"
  by (simp add: remove_lines_take insert_lines_take min_def)

text \<open>Replacements in order of their start, each start inside the text, never panic: applying
  those behind a position keeps everything before it.\<close>

lemma apply_sorted_total:
  assumes "sorted (map fst rs)" "\<forall>r \<in> set rs. k \<le> fst r \<and> fst r \<le> length ls" "k \<le> length ls"
  shows "\<exists>ls'. apply_each (rev rs) ls = Some ls' \<and> k \<le> length ls' \<and> take k ls' = take k ls"
  using assms
proof (induction rs arbitrary: k)
  case (Cons r rs)
  obtain s n new where r: "r = (s, n, new)" by (cases r) auto
  have "\<forall>q \<in> set rs. s \<le> fst q \<and> fst q \<le> length ls" "s \<le> length ls" "k \<le> s"
    using Cons.prems r by auto
  then obtain ls' where ls': "apply_each (rev rs) ls = Some ls'" "s \<le> length ls'" "take s ls' = take s ls"
    using Cons.IH[of s] Cons.prems(1) by auto
  have "take k ls' = take k ls" using arg_cong[OF ls'(3), of "take k"] \<open>k \<le> s\<close> by (simp add: min_def)
  then show ?case using ls' \<open>k \<le> s\<close> \<open>s \<le> length ls\<close>
    by (simp add: r apply_each_append apply_one del: apply_each.simps)
qed simp

section \<open>The forward specification\<close>

text \<open>One pass over the old lines: copy up to a replacement, write its lines, skip what it
  replaces.\<close>

fun splice :: "nat \<Rightarrow> replacement list \<Rightarrow> ustr list \<Rightarrow> ustr list" where
  "splice i [] ls = drop i ls"
| "splice i ((s, n, new) # rs) ls = take (s - i) (drop i ls) @ new @ splice (s + n) rs ls"

fun disjoint_from :: "nat \<Rightarrow> nat \<Rightarrow> replacement list \<Rightarrow> bool" where
  "disjoint_from i L [] \<longleftrightarrow> i \<le> L"
| "disjoint_from i L ((s, n, new) # rs) \<longleftrightarrow> i \<le> s \<and> disjoint_from (s + n) L rs"

lemma disjoint_le: "disjoint_from i L rs \<Longrightarrow> i \<le> L"
  by (induction i L rs rule: disjoint_from.induct) auto

lemma apply_splice:
  "disjoint_from i (length ls) rs \<Longrightarrow> apply_each (rev rs) ls = Some (take i ls @ splice i rs ls)"
proof (induction i rs ls rule: splice.induct)
  case (2 i s n new rs ls)
  then have le: "i \<le> s" "s + n \<le> length ls" by (auto dest: disjoint_le)
  have "take i ls @ take (s - i) (drop i ls) = take s ls"
    using le(1) by (metis le_add_diff_inverse take_add)
  then show ?case using 2 le
    by (simp add: apply_each_append apply_one min_def del: apply_each.simps)
qed simp

section \<open>The computed replacements\<close>

lemma context_index_le:
  "context_index ls path c i = Inr j \<Longrightarrow> i \<le> length ls \<Longrightarrow> i \<le> j \<and> j \<le> length ls"
  by (auto simp: context_index_def split: option.splits dest: seek_le seek_from)

lemma find_old_le:
  assumes "find_old ls c i = (Some s, pat, new)" "i \<le> length ls"
  shows "s + length pat \<le> length ls \<and> (\<not> uc_end_of_file c \<longrightarrow> i \<le> s)"
  using assms
  by (auto simp: find_old_def Let_def split: if_splits dest: seek_le)
    (metis (full_types) seek_from)+

lemma insertion_index_le: "insertion_index ls \<le> length ls"
  by (simp add: insertion_index_def)

lemma replace_chunk_le:
  assumes "replace_chunk ls path c i = Inr ((s, n, new), j)" "i \<le> length ls"
  shows "s + n \<le> length ls \<and> j \<le> length ls"
  using assms insertion_index_le[of ls]
  by (auto simp: replace_chunk_def split: if_splits option.splits prod.splits dest: find_old_le)

lemma chunk_replacements_le:
  "chunk_replacements ls path cs i = Inr rs \<Longrightarrow> i \<le> length ls \<Longrightarrow>
   \<forall>(s, n, new) \<in> set rs. s + n \<le> length ls"
proof (induction ls path cs i arbitrary: rs rule: chunk_replacements.induct)
  case (2 ls path c cs i)
  obtain j r k qs where j: "context_index ls path c i = Inr j" and r: "replace_chunk ls path c j = Inr (r, k)"
    and q: "chunk_replacements ls path cs k = Inr qs" and rs: "rs = r # qs"
    using "2.prems"(1) by (auto split: sum.splits)
  obtain s n new where r': "r = (s, n, new)" by (cases r) auto
  have "j \<le> length ls" using context_index_le[OF j "2.prems"(2)] by simp
  then have "s + n \<le> length ls \<and> k \<le> length ls" using replace_chunk_le r r' by blast
  then show ?case using "2.IH"[OF j r refl q] rs r' by auto
qed simp

lemma compute_replacements_le:
  assumes "compute_replacements ls path cs = Inr rs"
  shows "sorted (map fst rs) \<and> (\<forall>(s, n, new) \<in> set rs. s + n \<le> length ls)"
  using assms chunk_replacements_le[of ls path cs 0]
  by (auto simp: compute_replacements_def split: sum.splits)

lemma apply_computed_total:
  assumes "compute_replacements ls path cs = Inr rs"
  shows "\<exists>ls'. apply_replacements ls rs = Some ls'"
proof -
  have "sorted (map fst rs)" "\<forall>r \<in> set rs. 0 \<le> fst r \<and> fst r \<le> length ls"
    using compute_replacements_le[OF assms] by auto
  from apply_sorted_total[OF this] show ?thesis unfolding apply_replacements_def by auto
qed

lemma finish_lines_ends: "finish_lines ls = [] \<or> ends_with LF (finish_lines ls)"
proof -
  have "join [LF] (ms @ [[]]) = [] \<or> ends_with LF (join [LF] (ms @ [[]]))" for ms
    by (cases "ms = []") (simp_all add: join_append)
  moreover obtain ms where "(if ls \<noteq> [] \<and> last ls = [] then ls else ls @ [[]]) = ms @ [[]]"
    by (metis append_butlast_last_id)
  ultimately show ?thesis by (simp add: finish_lines_def)
qed

section \<open>When the replacements are disjoint\<close>

text \<open>Without end-of-file chunks, and with pure additions only behind a last line that is not
  empty, the stable sort brings the replacements into an order in which they are disjoint.\<close>

definition plain_chunk :: "ustr list \<Rightarrow> update_chunk \<Rightarrow> bool" where
  "plain_chunk ls c \<longleftrightarrow>
     \<not> uc_end_of_file c \<and> (uc_old_lines c = [] \<longrightarrow> ls = [] \<or> last ls \<noteq> [])"

fun chained :: "nat \<Rightarrow> nat \<Rightarrow> replacement list \<Rightarrow> bool" where
  "chained L i [] \<longleftrightarrow> i \<le> L"
| "chained L i ((s, n, new) # rs) \<longleftrightarrow>
     s = L \<and> n = 0 \<and> chained L i rs \<or> i \<le> s \<and> s + n \<le> L \<and> chained L (s + n) rs"

lemma chained_mono: "chained L b rs \<Longrightarrow> a \<le> b \<Longrightarrow> chained L a rs"
proof (induction rs arbitrary: a b)
  case (Cons r rs)
  obtain s n new where r: "r = (s, n, new)" by (cases r) auto
  show ?case
  proof (cases "b \<le> s \<and> s + n \<le> L \<and> chained L (s + n) rs")
    case True
    then show ?thesis using Cons.prems(2) by (simp add: r)
  next
    case False
    then show ?thesis using Cons.prems Cons.IH[of b a] by (simp add: r) blast
  qed
qed simp

lemma replace_chunk_plain:
  assumes "replace_chunk ls path c i = Inr ((s, n, new), j)" "i \<le> length ls" "plain_chunk ls c"
  shows "s = length ls \<and> n = 0 \<and> j = i \<or> i \<le> s \<and> s + n \<le> length ls \<and> j = s + n"
proof (cases "uc_old_lines c = []")
  case True
  then show ?thesis using assms by (auto simp: replace_chunk_def plain_chunk_def insertion_index_def)
next
  case False
  then obtain pat where "find_old ls c i = (Some s, pat, new)" "n = length pat" "j = s + length pat"
    using assms(1) by (auto simp: replace_chunk_def split: option.splits prod.splits)
  then show ?thesis using find_old_le[of ls c i s pat new] assms(2,3) by (simp add: plain_chunk_def)
qed

lemma chunk_replacements_chained:
  "chunk_replacements ls path cs i = Inr rs \<Longrightarrow> i \<le> length ls \<Longrightarrow> list_all (plain_chunk ls) cs \<Longrightarrow>
   i \<le> k \<Longrightarrow> k \<le> i \<Longrightarrow> chained (length ls) k rs"
proof (induction ls path cs i arbitrary: rs k rule: chunk_replacements.induct)
  case (2 ls path c cs i)
  obtain j r l qs where j: "context_index ls path c i = Inr j" and r: "replace_chunk ls path c j = Inr (r, l)"
    and q: "chunk_replacements ls path cs l = Inr qs" and rs: "rs = r # qs"
    using "2.prems"(1) by (auto split: sum.splits)
  obtain s n new where r': "r = (s, n, new)" by (cases r) auto
  have ij: "i \<le> j" "j \<le> length ls" using context_index_le[OF j "2.prems"(2)] by auto
  have ch: "chained (length ls) l qs" if "l \<le> length ls"
    using "2.IH"[OF j r refl q that] "2.prems"(3) by simp
  consider "s = length ls" "n = 0" "l = j" | "j \<le> s" "s + n \<le> length ls" "l = s + n"
    using replace_chunk_plain[OF r[unfolded r'] ij(2)] "2.prems"(3) by auto
  then show ?case
  proof cases
    case 1
    then show ?thesis using ch ij "2.prems"(4,5) chained_mono[of "length ls" j qs k] by (simp add: rs r')
  next
    case 2
    then show ?thesis using ch ij "2.prems"(4,5) by (simp add: rs r')
  qed
qed simp

lemma insort_front:
  "disjoint_from (s + n) L ys \<Longrightarrow> insort_key fst (s, n, new) ys = (s, n, new) # ys"
  by (cases ys) auto

lemma insort_end: "disjoint_from i L ys \<Longrightarrow> disjoint_from i L (insort_key fst (L, 0, new) ys)"
  by (induction i L ys rule: disjoint_from.induct) (auto dest: disjoint_le)

lemma sort_chained: "chained L i rs \<Longrightarrow> disjoint_from i L (sort_key fst rs)"
proof (induction L i rs rule: chained.induct)
  case (2 L i s n new rs)
  then show ?case
    by (auto simp: insort_end insort_front)
qed simp

lemma derive_splice:
  assumes "list_all (plain_chunk (original_lines t)) cs"
    and "compute_replacements (original_lines t) path cs = Inr rs"
  shows "disjoint_from 0 (length (original_lines t)) rs \<and>
    derive_new_contents t path cs = Some (Inr (finish_lines (splice 0 rs (original_lines t))))"
proof -
  let ?ls = "original_lines t"
  obtain qs where "chunk_replacements ?ls path cs 0 = Inr qs" "rs = sort_key fst qs"
    using assms(2) by (auto simp: compute_replacements_def split: sum.splits)
  then have d: "disjoint_from 0 (length ?ls) rs"
    using chunk_replacements_chained[OF _ _ assms(1)] by (simp add: sort_chained)
  then show ?thesis using apply_splice[OF d] assms(2)
    by (simp add: derive_new_contents_def apply_replacements_def)
qed

text \<open>The lines of a terminated text without a blank last line, and back.\<close>

lemma original_lines_terminated:
  assumes "\<forall>l \<in> set ls. LF \<notin> set l"
  shows "original_lines (concat (map (\<lambda>l. l @ [LF]) ls)) = ls"
proof -
  have s: "split_on LF (l @ LF # t) = l # split_on LF t" if "LF \<notin> set l" for l t :: ustr
    using that by (induction l) auto
  have "split_on LF (concat (map (\<lambda>l. l @ [LF]) ls)) = ls @ [[]]"
    using assms by (induction ls) (simp_all add: s)
  then show ?thesis by (simp add: original_lines_def without_final_empty_def)
qed

lemma finish_lines_terminated:
  assumes "ls = [] \<or> last ls \<noteq> []"
  shows "finish_lines ls = concat (map (\<lambda>l. l @ [LF]) ls)"
proof (cases "ls = []")
  case False
  then show ?thesis using assms join_lines[of ls LF] by (simp add: finish_lines_def join_append)
qed (simp add: finish_lines_def)

end
