(* ===== verification/Patch_Tool.thy ===== *)
theory Patch_Tool
  imports Patch_Apply Utf8_Text Path_Text Hunk_Types
begin

text \<open>
  The \<open>apply_patch\<close> tool (\<open>apply_patch/tool.rs\<close>): parse, compute every change in memory,
  then write. The file system behind \<open>AsyncFileSystem\<close> is a map from path strings to bytes;
  its errors are oracles on the path. Creating parent directories has no effect on the
  map. Paths are UTF-8 strings with the Unix rules of \<open>Path::join\<close>, and two spellings are two paths.
\<close>

section \<open>Environment and state\<close>

record tool_env =
  te_read_error :: "ustr \<Rightarrow> ustr option"
  te_missing :: ustr
  te_mkdir_error :: "ustr \<Rightarrow> ustr option"
  te_write_error :: "ustr \<Rightarrow> ustr option"
  te_delete_error :: "ustr \<Rightarrow> ustr option"
  te_call_id :: ustr
  te_cwd :: ustr

record file_written =
  fw_call_id :: ustr
  fw_path :: ustr
  fw_content :: ustr
  fw_previous :: "ustr option"
  fw_is_new :: bool

record file_result =
  fr_path :: ustr
  fr_action :: ustr
  fr_old_text :: "ustr option"
  fr_new_text :: ustr
  fr_move_to :: "ustr option"

record tool_state =
  to_files :: "(ustr \<times> bytes) list"
  to_notes :: "file_written list"

datatype tool_output =
  Success "file_result list" ustr
| ParseFailed ustr
| ApplicationError ustr
| EmptyPatch ustr

datatype file_change =
  Add ustr ustr
| Delete_File ustr ustr
| Update ustr ustr ustr
| Move ustr ustr ustr ustr

section \<open>File system\<close>

definition read_file_as_string :: "tool_env \<Rightarrow> (ustr \<times> bytes) list \<Rightarrow> ustr \<Rightarrow> ustr + ustr" where
  "read_file_as_string E fs p =
     (case te_read_error E p of
        Some e \<Rightarrow> Inl e
      | None \<Rightarrow> (case map_of fs p of None \<Rightarrow> Inl (te_missing E) | Some b \<Rightarrow> Inr (decode_lossy b)))"

definition write_file :: "tool_env \<Rightarrow> ustr \<Rightarrow> ustr \<Rightarrow> tool_state \<Rightarrow> tool_state \<times> (ustr + unit)" where
  "write_file E p t s =
     (case te_write_error E p of
        Some e \<Rightarrow> (s, Inl e)
      | None \<Rightarrow> (s\<lparr>to_files := AList.update p (encode t) (to_files s)\<rparr>, Inr ()))"

definition delete_file :: "tool_env \<Rightarrow> ustr \<Rightarrow> tool_state \<Rightarrow> tool_state \<times> (ustr + unit)" where
  "delete_file E p s =
     (case te_delete_error E p of
        Some e \<Rightarrow> (s, Inl e)
      | None \<Rightarrow>
          if map_of (to_files s) p = None then (s, Inl (te_missing E))
          else (s\<lparr>to_files := AList.delete p (to_files s)\<rparr>, Inr ()))"

text \<open>The path without its last component, when there is one that is not empty.\<close>

definition ensure_parent_dirs :: "tool_env \<Rightarrow> ustr \<Rightarrow> ustr + unit" where
  "ensure_parent_dirs E p = (case te_mkdir_error E p of Some e \<Rightarrow> Inl e | None \<Rightarrow> Inr ())"

section \<open>Computing the changes\<close>

definition read_message :: "ustr \<Rightarrow> ustr \<Rightarrow> ustr" where
  "read_message p e = u ''Failed to read file: '' @ p @ u '', '' @ e"

definition read_update_message :: "ustr \<Rightarrow> ustr \<Rightarrow> ustr" where
  "read_update_message p e = u ''Failed to read file to update: '' @ p @ u '', '' @ e"

fun parse_error_text :: "parse_error \<Rightarrow> ustr" where
  "parse_error_text (InvalidPatchError m) = u ''invalid patch: '' @ m"
| "parse_error_text (InvalidHunkError m n) = u ''invalid hunk at line '' @ u (dec n) @ u '', '' @ m"

fun apply_error_text :: "apply_patch_error \<Rightarrow> ustr" where
  "apply_error_text (Parse e) = parse_error_text e"
| "apply_error_text (ComputeReplacements m) = m"
| "apply_error_text (Io c m p) = c @ u '': '' @ m"

fun compute_change ::
  "tool_env \<Rightarrow> (ustr \<times> bytes) list \<Rightarrow> patch_hunk \<Rightarrow> (ustr + file_change) option" where
  "compute_change E fs (AddFile p t) = Some (Inr (Add (join_path (te_cwd E) p) t))"
| "compute_change E fs (DeleteFile p) =
     (let q = join_path (te_cwd E) p in
      case read_file_as_string E fs q of
        Inl e \<Rightarrow> Some (Inl (read_message q e))
      | Inr t \<Rightarrow> Some (Inr (Delete_File q t)))"
| "compute_change E fs (UpdateFile p mv cs) =
     (let q = join_path (te_cwd E) p in
      case read_file_as_string E fs q of
        Inl e \<Rightarrow> Some (Inl (read_update_message q e))
      | Inr t \<Rightarrow> (case derive_new_contents t q cs of
          None \<Rightarrow> None
        | Some (Inl e) \<Rightarrow> Some (Inl (apply_error_text e))
        | Some (Inr t') \<Rightarrow> Some (Inr (case mv of
            Some d \<Rightarrow> Move q (join_path (te_cwd E) d) t t'
          | None \<Rightarrow> Update q t t'))))"

fun compute_all_changes ::
  "tool_env \<Rightarrow> (ustr \<times> bytes) list \<Rightarrow> patch_hunk list \<Rightarrow> (ustr + file_change list) option" where
  "compute_all_changes E fs [] = Some (Inr [])"
| "compute_all_changes E fs (h # hs) =
     (case compute_change E fs h of
        None \<Rightarrow> None
      | Some (Inl e) \<Rightarrow> Some (Inl e)
      | Some (Inr ch) \<Rightarrow> (case compute_all_changes E fs hs of
          None \<Rightarrow> None
        | Some (Inl e) \<Rightarrow> Some (Inl e)
        | Some (Inr chs) \<Rightarrow> Some (Inr (ch # chs))))"

section \<open>Writing them\<close>

definition notify :: "tool_env \<Rightarrow> ustr \<Rightarrow> ustr \<Rightarrow> ustr option \<Rightarrow> bool \<Rightarrow> tool_state \<Rightarrow> tool_state" where
  "notify E p t prev new s = s\<lparr>to_notes := to_notes s @
     [\<lparr>fw_call_id = te_call_id E, fw_path = p, fw_content = t, fw_previous = prev, fw_is_new = new\<rparr>]\<rparr>"

fun apply_change ::
  "tool_env \<Rightarrow> file_change \<Rightarrow> tool_state \<Rightarrow> tool_state \<times> (ustr + file_result)" where
  "apply_change E (Add p t) s =
     (case ensure_parent_dirs E p of
        Inl e \<Rightarrow> (s, Inl e)
      | Inr _ \<Rightarrow> (case write_file E p t s of
          (s1, Inl e) \<Rightarrow> (s1, Inl e)
        | (s1, Inr _) \<Rightarrow> (notify E p t None True s1,
            Inr \<lparr>fr_path = p, fr_action = u ''added'', fr_old_text = None, fr_new_text = t,
                 fr_move_to = None\<rparr>)))"
| "apply_change E (Delete_File p t) s =
     (case delete_file E p s of
        (s1, Inl e) \<Rightarrow> (s1, Inl e)
      | (s1, Inr _) \<Rightarrow> (notify E p [] (Some t) False s1,
          Inr \<lparr>fr_path = p, fr_action = u ''deleted'', fr_old_text = Some t, fr_new_text = [],
               fr_move_to = None\<rparr>))"
| "apply_change E (Update p t t') s =
     (case write_file E p t' s of
        (s1, Inl e) \<Rightarrow> (s1, Inl e)
      | (s1, Inr _) \<Rightarrow> (notify E p t' (Some t) False s1,
          Inr \<lparr>fr_path = p, fr_action = u ''modified'', fr_old_text = Some t, fr_new_text = t',
               fr_move_to = None\<rparr>))"
| "apply_change E (Move p d t t') s =
     (case ensure_parent_dirs E d of
        Inl e \<Rightarrow> (s, Inl e)
      | Inr _ \<Rightarrow> (case write_file E d t' s of
          (s1, Inl e) \<Rightarrow> (s1, Inl e)
        | (s1, Inr _) \<Rightarrow> (case delete_file E p s1 of
            (s2, Inl e) \<Rightarrow> (s2, Inl e)
          | (s2, Inr _) \<Rightarrow> (notify E p [] (Some t) False (notify E d t' None True s2),
              Inr \<lparr>fr_path = p, fr_action = u ''moved'', fr_old_text = Some t, fr_new_text = t',
                   fr_move_to = Some d\<rparr>))))"

fun apply_changes ::
  "tool_env \<Rightarrow> file_change list \<Rightarrow> tool_state \<Rightarrow> tool_state \<times> (ustr + file_result list)" where
  "apply_changes E [] s = (s, Inr [])"
| "apply_changes E (c # cs) s =
     (case apply_change E c s of
        (s1, Inl e) \<Rightarrow> (s1, Inl e)
      | (s1, Inr r) \<Rightarrow> (case apply_changes E cs s1 of
          (s2, Inl e) \<Rightarrow> (s2, Inl e)
        | (s2, Inr rs) \<Rightarrow> (s2, Inr (r # rs))))"

section \<open>The tool\<close>

definition summary_line :: "file_result \<Rightarrow> ustr" where
  "summary_line r =
     (if fr_action r = u ''added'' then u ''A''
      else if fr_action r = u ''deleted'' then u ''D'' else u ''M'') @ u '' '' @ fr_path r @ [LF]"

definition build_summary :: "file_result list \<Rightarrow> ustr" where
  "build_summary rs = u ''Success. Updated the following files:'' @ [LF] @ concat (map summary_line rs)"

fun parse_failure_text :: "parse_error \<Rightarrow> ustr" where
  "parse_failure_text (InvalidPatchError m) = u ''Invalid patch: '' @ m"
| "parse_failure_text (InvalidHunkError m n) =
     u ''Invalid patch hunk on line '' @ u (dec n) @ u '': '' @ m"

definition run_tool :: "tool_env \<Rightarrow> ustr \<Rightarrow> tool_state \<Rightarrow> (tool_state \<times> (ustr + tool_output)) option" where
  "run_tool E patch s =
     (case parse_patch patch of
        Inl e \<Rightarrow> Some (s, Inr (ParseFailed (parse_failure_text e)))
      | Inr parsed \<Rightarrow>
          if pp_hunks parsed = [] then Some (s, Inr (EmptyPatch (u ''No files were modified.'')))
          else (case compute_all_changes E (to_files s) (pp_hunks parsed) of
              None \<Rightarrow> None
            | Some (Inl msg) \<Rightarrow> Some (s, Inr (ApplicationError msg))
            | Some (Inr changes) \<Rightarrow>
                (case apply_changes E changes s of
                   (s', Inl e) \<Rightarrow> Some (s', Inl e)
                 | (s', Inr rs) \<Rightarrow> Some (s', Inr (Success rs (build_summary rs))))))"

end
