(* ===== verification/Patch_Print.thy ===== *)
theory Patch_Print
  imports Patch_Parser
begin

text \<open>
  A printer for the patch grammar at the head of \<open>parser.rs\<close>, and the proof that
  \<open>parse_patch\<close> inverts it. The printer is the specification side: the repository has no
  printer of its own, the model that calls the tool writes the text.
\<close>

section \<open>Printing\<close>

definition print_chunk :: "update_chunk \<Rightarrow> ustr list" where
  "print_chunk c =
     [case uc_context c of None \<Rightarrow> empty_change_context_marker | Some x \<Rightarrow> change_context_marker @ x] @
     map (Cons 45) (uc_old_lines c) @ map (Cons 43) (uc_new_lines c) @
     (if uc_end_of_file c then [eof_marker] else [])"

fun print_hunk :: "patch_hunk \<Rightarrow> ustr list" where
  "print_hunk (AddFile p t) = (add_file_marker @ p) # map (Cons 43) (ulines t)"
| "print_hunk (DeleteFile p) = [delete_file_marker @ p]"
| "print_hunk (UpdateFile p mv cs) =
     [update_file_marker @ p] @ (case mv of None \<Rightarrow> [] | Some q \<Rightarrow> [move_to_marker @ q]) @
     concat (map print_chunk cs)"

definition print_lines :: "patch_hunk list \<Rightarrow> ustr list" where
  "print_lines hs = [begin_patch_marker] @ concat (map print_hunk hs) @ [end_patch_marker]"

definition print_patch :: "patch_hunk list \<Rightarrow> ustr" where
  "print_patch hs = join [LF] (print_lines hs)"

section \<open>What can be printed\<close>

definition line_ok :: "ustr \<Rightarrow> bool" where
  "line_ok l \<longleftrightarrow> LF \<notin> set l \<and> 13 \<notin> set l"

definition path_ok :: "ustr \<Rightarrow> bool" where
  "path_ok p \<longleftrightarrow> p \<noteq> [] \<and> line_ok p \<and> \<not> is_ws (last p)"

definition chunk_printable :: "update_chunk \<Rightarrow> bool" where
  "chunk_printable c \<longleftrightarrow> chunk_ok c \<and> list_all line_ok (uc_old_lines c) \<and>
     list_all line_ok (uc_new_lines c) \<and> pred_option line_ok (uc_context c)"

fun printable :: "patch_hunk \<Rightarrow> bool" where
  "printable (AddFile p t) \<longleftrightarrow> path_ok p \<and> 13 \<notin> set t \<and> (t = [] \<or> ends_with LF t)"
| "printable (DeleteFile p) \<longleftrightarrow> path_ok p"
| "printable (UpdateFile p mv cs) \<longleftrightarrow>
     path_ok p \<and> pred_option line_ok mv \<and> cs \<noteq> [] \<and> list_all chunk_printable cs"

section \<open>Chunks\<close>

text \<open>The lines that may follow a chunk: a context marker or a hunk header.\<close>

definition header_line :: "ustr \<Rightarrow> bool" where
  "header_line l \<longleftrightarrow> (\<exists>r. l = u ''***'' @ r) \<and> l \<noteq> eof_marker"

definition stops :: "ustr list \<Rightarrow> bool" where
  "stops ls \<longleftrightarrow> ls = [] \<or> header_line (hd ls)"

lemma stars: "u ''***'' = [42, 42, 42]" "eof_marker = 42 # tl eof_marker" "u ''+'' = [43]"
  by (simp_all add: u_def eof_marker_def)

lemma not_eof [simp]: "c \<noteq> 42 \<Longrightarrow> c # l \<noteq> eof_marker"
  by (subst stars(2)) simp

lemma chunk_body_old:
  "chunk_body k (map (Cons 45) ls @ rest) c n =
   chunk_body k rest (c\<lparr>uc_old_lines := uc_old_lines c @ ls\<rparr>) (n + length ls)"
  by (induction ls arbitrary: c n) simp_all

lemma chunk_body_new:
  "chunk_body k (map (Cons 43) ls @ rest) c n =
   chunk_body k rest (c\<lparr>uc_new_lines := uc_new_lines c @ ls\<rparr>) (n + length ls)"
  by (induction ls arbitrary: c n) simp_all

text \<open>After at least one line, a context marker or a header ends the chunk.\<close>

lemma chunk_body_stop:
  assumes "0 < n" "rest = [] \<or> header_line (hd rest) \<or> (\<exists>r. hd rest = 64 # r)"
  shows "chunk_body k rest c n = Inr (c, n)"
proof (cases rest)
  case (Cons l ls)
  then obtain x r where "l = x # r" "x = 42 \<or> x = 64" "l \<noteq> eof_marker"
    using assms(2) by (auto simp: header_line_def stars(1))
  then show ?thesis using Cons assms(1) by auto
qed simp

lemma chunk_body_print:
  assumes "chunk_ok c" "rest = [] \<or> header_line (hd rest) \<or> (\<exists>r. hd rest = 64 # r)"
  shows "chunk_body k (map (Cons 45) (uc_old_lines c) @ map (Cons 43) (uc_new_lines c) @
      (if uc_end_of_file c then [eof_marker] else []) @ rest) (new_chunk (uc_context c)) 0 =
    Inr (c, length (print_chunk c) - 1)"
proof -
  have pos: "0 < length (uc_old_lines c) + length (uc_new_lines c)"
    using assms(1) by (auto simp: chunk_ok_def)
  show ?thesis
  proof (cases "uc_end_of_file c")
    case True
    then show ?thesis using pos
      by (simp add: chunk_body_old chunk_body_new print_chunk_def new_chunk_def)
  next
    case False
    then show ?thesis using pos assms(2)
      by (simp add: chunk_body_old chunk_body_new print_chunk_def new_chunk_def chunk_body_stop)
  qed
qed

lemma context_marks:
  "empty_change_context_marker = [64, 64]" "change_context_marker = [64, 64, 32]"
  by (simp_all add: empty_change_context_marker_def change_context_marker_def u_def)

lemma parse_chunk_print:
  assumes "chunk_ok c" "rest = [] \<or> header_line (hd rest) \<or> (\<exists>r. hd rest = 64 # r)"
  shows "parse_update_file_chunk (print_chunk c @ rest) k b = Inr (c, length (print_chunk c))"
proof -
  define body where "body = map (Cons 45) (uc_old_lines c) @ map (Cons 43) (uc_new_lines c) @
    (if uc_end_of_file c then [eof_marker] else [])"
  have len: "length (print_chunk c) = Suc (length body)" "body \<noteq> []"
    using assms(1) by (auto simp: print_chunk_def body_def chunk_ok_def)
  have body: "chunk_body k (body @ rest) (new_chunk (uc_context c)) 0 = Inr (c, length body)"
    using chunk_body_print[OF assms, of k] len(1) by (simp add: body_def)
  have after: "chunk_after (l # body @ rest) k (uc_context c) 1 = Inr (c, Suc (length body))" for l
    using body len(2) by (cases body) (simp_all add: chunk_after_def)
  show ?thesis
    by (cases "uc_context c") (use after len in
      \<open>simp_all add: parse_update_file_chunk_def print_chunk_def body_def context_marks\<close>)
qed

lemma trim_nonblank: "\<not> is_ws c \<Longrightarrow> trim (c # l) \<noteq> []"
  by (auto simp: trim_def trim_start_def trim_end_def dropWhile_eq_Nil_conv)

lemma chunk_head: "\<exists>r ls. print_chunk c = (64 # r) # ls"
  by (cases "uc_context c") (simp_all add: print_chunk_def context_marks)

lemma at_not_ws: "\<not> is_ws 64" "\<not> is_ws 42"
  by (simp_all add: is_ws_def)

lemma update_chunks_stop:
  "rest = [] \<or> header_line (hd rest) \<Longrightarrow> update_chunks k rest n cs = Inr (cs, n)"
  by (cases rest) (auto simp: header_line_def stars(1) trim_nonblank at_not_ws)

lemma update_chunks_print:
  assumes "list_all chunk_ok cs" "rest = [] \<or> header_line (hd rest)"
  shows "update_chunks k (concat (map print_chunk cs) @ rest) n acc =
    Inr (acc @ cs, n + length (concat (map print_chunk cs)))"
  using assms(1)
proof (induction cs arbitrary: n acc)
  case Nil
  then show ?case using assms(2) by (simp add: update_chunks_stop)
next
  case (Cons c cs)
  let ?rest = "concat (map print_chunk cs) @ rest"
  have "?rest = [] \<or> header_line (hd ?rest) \<or> (\<exists>r. hd ?rest = 64 # r)"
  proof (cases cs)
    case (Cons d ds)
    then show ?thesis using chunk_head[of d] by auto
  qed (use assms(2) in auto)
  then have p: "parse_update_file_chunk (print_chunk c @ ?rest) j b = Inr (c, length (print_chunk c))" for j b
    using Cons.prems by (intro parse_chunk_print) simp_all
  obtain r ls where h: "print_chunk c = (64 # r) # ls" using chunk_head by blast
  have "update_chunks k (print_chunk c @ ?rest) n acc =
    update_chunks k ?rest (n + length (print_chunk c)) (acc @ [c])"
    using p h by (simp add: trim_nonblank at_not_ws stars(1))
  then show ?case using Cons by simp
qed

section \<open>Hunks\<close>

lemma strip_pre_other:
  "strip_pre add_file_marker (delete_file_marker @ p) = None"
  "strip_pre add_file_marker (update_file_marker @ p) = None"
  "strip_pre delete_file_marker (update_file_marker @ p) = None"
  by (simp_all add: add_file_marker_def delete_file_marker_def update_file_marker_def u_def)

lemma marker_heads:
  "add_file_marker = 42 # tl add_file_marker"
  "delete_file_marker = 42 # tl delete_file_marker"
  "update_file_marker = 42 # tl update_file_marker"
  by (simp_all add: add_file_marker_def delete_file_marker_def update_file_marker_def u_def)

lemma trim_marker:
  assumes "path_ok p" "m = 42 # tl m"
  shows "trim (m @ p) = m @ p"
proof (rule trim_clean)
  show "m @ p \<noteq> []" using assms(1) by (simp add: path_ok_def)
  have "hd (m @ p) = 42" by (subst assms(2)) simp
  then show "\<not> is_ws (hd (m @ p))" using at_not_ws by simp
  show "\<not> is_ws (last (m @ p))" using assms(1) by (simp add: path_ok_def)
qed

lemma hunk_header: "header_line (add_file_marker @ p)" "header_line (delete_file_marker @ p)"
    "header_line (update_file_marker @ p)"
  by (simp_all add: header_line_def add_file_marker_def delete_file_marker_def update_file_marker_def
      eof_marker_def u_def)

lemma print_hunk_head: "\<exists>l ls. print_hunk h = l # ls \<and> header_line l"
  by (cases h) (simp_all add: hunk_header)

lemma add_lines_print:
  assumes "rest = [] \<or> header_line (hd rest)"
  shows "add_lines (map (Cons 43) ls @ rest) = (concat (map (\<lambda>l. l @ [LF]) ls), length ls)"
proof (induction ls)
  case Nil
  show ?case using assms by (cases rest) (auto simp: header_line_def stars(1,3))
qed (simp add: stars(3))

text \<open>Terminated text without carriage returns is the lines it prints, each with its newline.\<close>

lemma ulines_concat:
  assumes "13 \<notin> set t" "t = [] \<or> ends_with LF t"
  shows "concat (map (\<lambda>l. l @ [LF]) (ulines t)) = t"
proof -
  have "strip_terminator LF 13 l @ [LF] = l" if l: "l \<in> set (split_inclusive LF t)" for l
  proof -
    have "13 \<notin> set l"
      using assms(1) l by (metis UN_I concat_split_inclusive set_concat)
    moreover obtain b where "l = b @ [LF]" using split_inclusive_lines[OF assms(2) l]
      by (auto simp: is_line_def)
    ultimately show ?thesis by (simp add: strip_terminator_line)
  qed
  then have "map (\<lambda>l. strip_terminator LF 13 l @ [LF]) (split_inclusive LF t) = split_inclusive LF t"
    by (simp add: map_idI)
  then show ?thesis by (simp add: ulines_def str_lines_def o_def)
qed

lemma move_line_chunk: "cs \<noteq> [] \<Longrightarrow> move_line (concat (map print_chunk cs) @ rest) = None"
proof (cases cs)
  case (Cons c ds)
  obtain r ls where "print_chunk c = (64 # r) # ls" using chunk_head by blast
  then show ?thesis using Cons by (simp add: move_line_def move_to_marker_def u_def)
qed simp

lemma parse_update_print:
  assumes "list_all chunk_ok cs" "cs \<noteq> []" "rest = [] \<or> header_line (hd rest)"
  shows "parse_update_hunk p (tl (print_hunk (UpdateFile p mv cs)) @ rest) k =
    Inr (UpdateFile p mv cs, length (print_hunk (UpdateFile p mv cs)))"
proof (cases mv)
  case None
  then show ?thesis using assms
    by (simp add: parse_update_hunk_def move_line_chunk update_chunks_print)
next
  case (Some q)
  then show ?thesis using assms
    by (simp add: parse_update_hunk_def move_line_def update_chunks_print)
qed

lemma parse_hunk_print:
  assumes "printable h" "rest = [] \<or> header_line (hd rest)"
  shows "parse_one_hunk (print_hunk h @ rest) k = Inr (h, length (print_hunk h))"
proof (cases h)
  case (AddFile p t)
  then have "path_ok p" "13 \<notin> set t" "t = [] \<or> ends_with LF t" using assms(1) by simp_all
  then show ?thesis using AddFile
    by (simp add: parse_one_hunk_def trim_marker[OF _ marker_heads(1)] add_lines_print[OF assms(2)]
        ulines_concat)
next
  case (DeleteFile p)
  then show ?thesis using assms(1)
    by (simp add: parse_one_hunk_def trim_marker[OF _ marker_heads(2)] strip_pre_other)
next
  case (UpdateFile p mv cs)
  then have c: "list_all chunk_ok cs" "cs \<noteq> []" and p: "path_ok p"
    using assms(1) by (auto simp: chunk_printable_def list_all_iff)
  have "hd (print_hunk h @ rest) = update_file_marker @ p"
    "tl (print_hunk h @ rest) = tl (print_hunk (UpdateFile p mv cs)) @ rest"
    using UpdateFile by simp_all
  then show ?thesis using UpdateFile p parse_update_print[OF c assms(2), of p mv k]
    by (simp add: parse_one_hunk_def trim_marker[OF _ marker_heads(3)] strip_pre_other)
qed

lemma parse_hunks_print:
  "list_all printable hs \<Longrightarrow> parse_hunks (concat (map print_hunk hs)) k acc = Inr (acc @ hs)"
proof (induction hs arbitrary: k acc)
  case (Cons h hs)
  let ?rest = "concat (map print_hunk hs)"
  have "?rest = [] \<or> header_line (hd ?rest)"
  proof (cases hs)
    case (Cons g gs)
    then show ?thesis using print_hunk_head[of g] by auto
  qed simp
  then have p: "parse_one_hunk (print_hunk h @ ?rest) k = Inr (h, length (print_hunk h))"
    using Cons.prems by (intro parse_hunk_print) simp_all
  obtain l ls where "print_hunk h = l # ls" using print_hunk_head by blast
  then show ?case using p Cons by simp
qed simp

section \<open>Lines\<close>

lemma ulines_join:
  assumes "\<forall>l \<in> set ls. line_ok l" "ls \<noteq> []" "last ls \<noteq> []"
  shows "ulines (join [LF] ls) = ls"
proof -
  obtain ms l where ls: "ls = ms @ [l]" using assms(2) by (cases ls rule: rev_cases) auto
  have j: "join [LF] ls = concat (map (\<lambda>l. l @ [LF]) ms) @ l"
  proof (cases "ms = []")
    case False
    then show ?thesis using join_lines[of ms LF] by (simp add: ls join_append)
  qed (simp add: ls)
  have line: "\<forall>x \<in> set (map (\<lambda>l. l @ [LF]) ms). is_line LF x"
    using assms(1) by (auto simp: ls is_line_def line_ok_def)
  have "split_inclusive LF (join [LF] ls) = map (\<lambda>l. l @ [LF]) ms @ [l]"
    using assms(1,3) unfolding j split_inclusive_concat_lines[OF line]
    by (simp add: ls split_inclusive_no_nl line_ok_def)
  then show ?thesis using assms(1)
    by (auto simp: ulines_def str_lines_def ls line_ok_def strip_terminator_line
        strip_terminator_no_nl intro!: map_idI)
qed

lemma line_ok_simps [simp]:
  "line_ok []"
  "line_ok (c # l) \<longleftrightarrow> c \<noteq> LF \<and> c \<noteq> 13 \<and> line_ok l"
  "line_ok (a @ b) \<longleftrightarrow> line_ok a \<and> line_ok b"
  by (auto simp: line_ok_def)

lemma line_ok_markers:
  "line_ok begin_patch_marker" "line_ok end_patch_marker" "line_ok add_file_marker"
  "line_ok delete_file_marker" "line_ok update_file_marker" "line_ok move_to_marker"
  "line_ok eof_marker" "line_ok change_context_marker" "line_ok empty_change_context_marker"
  by (simp_all add: marker_defs u_def)

lemma ulines_ok:
  assumes "13 \<notin> set t" "t = [] \<or> ends_with LF t" "l \<in> set (ulines t)"
  shows "line_ok l"
proof -
  obtain m where m: "m \<in> set (split_inclusive LF t)" "l = strip_terminator LF 13 m"
    using assms(3) by (auto simp: ulines_def str_lines_def)
  have "13 \<notin> set m" using assms(1) m(1) by (metis UN_I concat_split_inclusive set_concat)
  moreover obtain b where "m = b @ [LF]" "LF \<notin> set b"
    using split_inclusive_lines[OF assms(2) m(1)] by (auto simp: is_line_def)
  ultimately show ?thesis using m(2) by (simp add: strip_terminator_line line_ok_def)
qed

lemma print_chunk_ok: "chunk_printable c \<Longrightarrow> l \<in> set (print_chunk c) \<Longrightarrow> line_ok l"
  by (auto simp: chunk_printable_def print_chunk_def list_all_iff line_ok_markers
      split: option.splits if_splits)

lemma print_hunk_ok: "printable h \<Longrightarrow> l \<in> set (print_hunk h) \<Longrightarrow> line_ok l"
  by (cases h) (auto simp: path_ok_def line_ok_markers list_all_iff
      dest: ulines_ok print_chunk_ok split: option.splits)

lemma begin_end_trim:
  "trim begin_patch_marker = begin_patch_marker" "trim end_patch_marker = end_patch_marker"
  by (rule trim_clean; simp add: begin_patch_marker_def end_patch_marker_def u_def is_ws_def)+

text \<open>Parsing a printed patch gives the patch back, with the printed text as its normal form.\<close>

lemma trim_print: "trim (print_patch hs) = print_patch hs"
proof -
  let ?mid = "concat (map print_hunk hs) @ [end_patch_marker]"
  have p: "print_patch hs = begin_patch_marker @ [LF] @ join [LF] ?mid"
    by (simp add: print_patch_def print_lines_def join_Cons)
  have "join [LF] ?mid = end_patch_marker \<or> (\<exists>w. join [LF] ?mid = w @ end_patch_marker)"
  proof (cases "concat (map print_hunk hs) = []")
    case True
    then show ?thesis unfolding True by simp
  next
    case False
    then show ?thesis by (subst join_append) simp_all
  qed
  then obtain w where w: "join [LF] ?mid = w @ end_patch_marker" by (metis append_Nil)
  have ne: "begin_patch_marker \<noteq> []" "end_patch_marker \<noteq> []"
    "\<not> is_ws (hd begin_patch_marker)" "\<not> is_ws (last end_patch_marker)"
    by (simp_all add: begin_patch_marker_def end_patch_marker_def u_def is_ws_def)
  show ?thesis unfolding p w using ne by (intro trim_clean) (simp_all add: hd_append)
qed

lemma parse_print:
  assumes "list_all printable hs"
  shows "parse_patch (print_patch hs) = Inr \<lparr>pp_hunks = hs, pp_patch = print_patch hs\<rparr>"
proof -
  have "\<forall>l \<in> set (print_lines hs). line_ok l"
    using assms by (auto simp: print_lines_def line_ok_markers list_all_iff dest: print_hunk_ok)
  moreover have "last (print_lines hs) \<noteq> []" "print_lines hs \<noteq> []"
    by (simp_all add: print_lines_def end_patch_marker_def u_def)
  ultimately have lines: "ulines (trim (print_patch hs)) = print_lines hs"
    by (simp only: trim_print) (simp add: print_patch_def ulines_join)
  have b: "boundary_lines Lenient (print_lines hs) = Inr (print_lines hs)"
    by (simp add: boundary_lines_def check_patch_boundaries_strict_def print_lines_def
        check_start_and_end_lines_strict_def begin_end_trim)
  have mid: "butlast (tl (print_lines hs)) = concat (map print_hunk hs)"
    by (simp add: print_lines_def)
  show ?thesis
    by (simp add: parse_patch_def parse_patch_text_def lines b mid parse_hunks_print[OF assms])
      (simp add: print_patch_def)
qed

end
