(* ===== verification/Patch_Facts.thy ===== *)
theory Patch_Facts
  imports Patch_Tool Patch_Print
begin

text \<open>
  Lemmas on the whole \<open>apply_patch\<close> pipeline: deriving contents is total, one chunk that
  matches exactly is a block replacement, and writing changes touches only their paths.
\<close>

section \<open>Deriving contents\<close>

lemma derive_total: "\<exists>r. derive_new_contents t path cs = Some r \<and> (\<forall>t'. r = Inr t' \<longrightarrow> t' = [] \<or> ends_with LF t')"
proof (cases "compute_replacements (original_lines t) path cs")
  case (Inl e)
  then show ?thesis by (simp add: derive_new_contents_def)
next
  case (Inr rs)
  then obtain ls where "apply_replacements (original_lines t) rs = Some ls"
    using apply_computed_total by blast
  then show ?thesis using Inr finish_lines_ends by (simp add: derive_new_contents_def)
qed

abbreviation terminated :: "ustr list \<Rightarrow> ustr" where
  "terminated ls \<equiv> concat (map (\<lambda>l. l @ [LF]) ls)"

definition first_exact :: "ustr list \<Rightarrow> ustr list \<Rightarrow> ustr list \<Rightarrow> bool" where
  "first_exact pre old post \<longleftrightarrow>
     old \<noteq> [] \<and> (\<forall>j < length pre. \<not> match_at id (pre @ old @ post) old j)"

lemma seek_first_exact:
  assumes "first_exact pre old post"
  shows "seek_sequence (pre @ old @ post) old 0 False = Some (length pre)"
proof -
  have "match_at id (pre @ old @ post) old (length pre)" by (simp add: match_at_def)
  then obtain j where "seek_sequence (pre @ old @ post) old 0 False = Some j" "j \<le> length pre"
    "match_at id (pre @ old @ post) old j"
    using seek_exact_first[of old "pre @ old @ post" 0 False "length pre"] assms
    by (auto simp: first_exact_def search_start_def)
  then show ?thesis using assms by (cases "j = length pre") (auto simp: first_exact_def)
qed

lemma derive_one_chunk:
  assumes "\<forall>l \<in> set (pre @ old @ post). LF \<notin> set l" "first_exact pre old post"
    and "c = \<lparr>uc_context = None, uc_old_lines = old, uc_new_lines = new, uc_end_of_file = False\<rparr>"
    and "pre @ new @ post = [] \<or> last (pre @ new @ post) \<noteq> []"
  shows "derive_new_contents (terminated (pre @ old @ post)) path [c] =
    Some (Inr (terminated (pre @ new @ post)))"
proof -
  let ?ls = "pre @ old @ post"
  have ls: "original_lines (terminated ?ls) = ?ls" by (rule original_lines_terminated[OF assms(1)])
  have "replace_chunk ?ls path c 0 = Inr ((length pre, length old, new), length pre + length old)"
    using assms(2) by (simp add: assms(3) replace_chunk_def find_old_def seek_first_exact first_exact_def)
  then have "compute_replacements ?ls path [c] = Inr [(length pre, length old, new)]"
    by (simp add: compute_replacements_def context_index_def assms(3))
  moreover have "apply_replacements ?ls [(length pre, length old, new)] = Some (pre @ new @ post)"
    by (simp add: apply_replacements_def apply_one del: apply_each.simps)
  ultimately show ?thesis
    by (simp only: derive_new_contents_def ls) (simp add: finish_lines_terminated[OF assms(4)])
qed

section \<open>Computing changes is total\<close>

lemma compute_change_total: "\<exists>r. compute_change E fs h = Some r"
proof (cases h)
  case (UpdateFile p mv cs)
  show ?thesis
  proof (cases "read_file_as_string E fs (join_path (te_cwd E) p)")
    case (Inr t)
    obtain r where "derive_new_contents t (join_path (te_cwd E) p) cs = Some r" using derive_total by blast
    then show ?thesis using Inr UpdateFile by (cases r) (simp_all add: Let_def)
  qed (simp add: UpdateFile Let_def)
qed (auto simp: Let_def split: sum.splits)

lemma compute_all_total: "\<exists>r. compute_all_changes E fs hs = Some r"
proof (induction hs)
  case (Cons h hs)
  then show ?case using compute_change_total[of E fs h] by (auto split: sum.splits)
qed simp

lemma run_tool_total: "\<exists>s' r. run_tool E patch s = Some (s', r) \<and>
    (\<forall>out. r = Inr out \<longrightarrow> (\<forall>rs t. out \<noteq> Success rs t) \<longrightarrow> s' = s)"
proof (cases "parse_patch patch")
  case (Inr parsed)
  obtain r where "compute_all_changes E (to_files s) (pp_hunks parsed) = Some r"
    using compute_all_total by blast
  then show ?thesis using Inr
    by (auto simp: run_tool_def split: sum.splits prod.splits)
qed (simp add: run_tool_def)

section \<open>Only the named paths are written\<close>

fun change_paths :: "file_change \<Rightarrow> ustr set" where
  "change_paths (Add p _) = {p}"
| "change_paths (Delete_File p _) = {p}"
| "change_paths (Update p _ _) = {p}"
| "change_paths (Move p d _ _) = {p, d}"

fun hunk_paths :: "ustr \<Rightarrow> patch_hunk \<Rightarrow> ustr set" where
  "hunk_paths cwd (AddFile p _) = {join_path cwd p}"
| "hunk_paths cwd (DeleteFile p) = {join_path cwd p}"
| "hunk_paths cwd (UpdateFile p mv _) =
     {join_path cwd p} \<union> (case mv of None \<Rightarrow> {} | Some d \<Rightarrow> {join_path cwd d})"

lemma write_file_other:
  "write_file E p t s = (s', r) \<Longrightarrow> q \<noteq> p \<Longrightarrow> map_of (to_files s') q = map_of (to_files s) q"
  by (auto simp: write_file_def update_conv split: option.splits)

lemma delete_file_other:
  "delete_file E p s = (s', r) \<Longrightarrow> q \<noteq> p \<Longrightarrow> map_of (to_files s') q = map_of (to_files s) q"
  by (auto simp: delete_file_def delete_conv split: option.splits if_splits)

lemma notify_files [simp]: "to_files (notify E p t prev new s) = to_files s"
  by (simp add: notify_def)

lemma apply_change_other:
  assumes "apply_change E c s = (s', r)" "q \<notin> change_paths c"
  shows "map_of (to_files s') q = map_of (to_files s) q"
  using assms
  by (cases c) (auto simp: write_file_other delete_file_other split: sum.splits prod.splits)

lemma apply_changes_other:
  "apply_changes E cs s = (s', r) \<Longrightarrow> \<forall>c \<in> set cs. q \<notin> change_paths c \<Longrightarrow>
   map_of (to_files s') q = map_of (to_files s) q"
proof (induction cs arbitrary: s r)
  case (Cons c cs)
  obtain s1 r1 where "apply_change E c s = (s1, r1)" by force
  moreover obtain s2 r2 where "apply_changes E cs s1 = (s2, r2)" by force
  ultimately show ?case
    using Cons.prems Cons.IH[of s1 r2] apply_change_other[of E c s s1 r1 q]
    by (auto split: sum.splits)
qed simp

lemma compute_change_paths:
  "compute_change E fs h = Some (Inr c) \<Longrightarrow> change_paths c = hunk_paths (te_cwd E) h"
  by (cases h) (auto simp: Let_def split: sum.splits option.splits)

lemma compute_all_paths:
  "compute_all_changes E fs hs = Some (Inr cs) \<Longrightarrow>
   (\<Union>c \<in> set cs. change_paths c) = (\<Union>h \<in> set hs. hunk_paths (te_cwd E) h)"
proof (induction hs arbitrary: cs)
  case (Cons h hs)
  then obtain d ds where "compute_change E fs h = Some (Inr d)"
    "compute_all_changes E fs hs = Some (Inr ds)" "cs = d # ds"
    by (auto split: option.splits sum.splits)
  then show ?case using Cons.IH[of ds] by (simp add: compute_change_paths)
qed simp

lemma run_tool_other:
  assumes "parse_patch patch = Inr parsed" "run_tool E patch s = Some (s', r)"
    "\<forall>h \<in> set (pp_hunks parsed). q \<notin> hunk_paths (te_cwd E) h"
  shows "map_of (to_files s') q = map_of (to_files s) q"
proof (cases "pp_hunks parsed = [] \<or> (\<exists>e. compute_all_changes E (to_files s) (pp_hunks parsed) = Some (Inl e))")
  case True
  then show ?thesis using assms(1,2) by (auto simp: run_tool_def split: if_splits)
next
  case False
  then obtain cs where cs: "compute_all_changes E (to_files s) (pp_hunks parsed) = Some (Inr cs)"
    using compute_all_total[of E "to_files s" "pp_hunks parsed"]
    by (metis sumE)
  obtain s2 r2 where a: "apply_changes E cs s = (s2, r2)" by force
  have "s' = s2" using assms(1,2) False cs a by (auto simp: run_tool_def split: sum.splits)
  moreover have "\<forall>c \<in> set cs. q \<notin> change_paths c" using compute_all_paths[OF cs] assms(3) by blast
  ultimately show ?thesis using apply_changes_other[OF a] by simp
qed

section \<open>Running a printed patch\<close>

lemma run_printed:
  assumes "list_all printable hs" "hs \<noteq> []" "compute_all_changes E (to_files s) hs = Some (Inr cs)"
    "apply_changes E cs s = (s', Inr rs)"
  shows "run_tool E (print_patch hs) s = Some (s', Inr (Success rs (build_summary rs)))"
  using assms by (simp add: run_tool_def parse_print)

lemma read_encoded:
  "te_read_error E p = None \<Longrightarrow> map_of fs p = Some (encode t) \<Longrightarrow> list_all scalar t \<Longrightarrow>
   read_file_as_string E fs p = Inr t"
  by (simp add: read_file_as_string_def decode_encode)

lemma compute_update:
  "read_file_as_string E fs (join_path (te_cwd E) p) = Inr t \<Longrightarrow>
   derive_new_contents t (join_path (te_cwd E) p) cs = Some (Inr t') \<Longrightarrow>
   compute_change E fs (UpdateFile p None cs) = Some (Inr (Update (join_path (te_cwd E) p) t t'))"
  by (simp add: Let_def)

lemma apply_update:
  "te_write_error E p = None \<Longrightarrow>
   \<exists>s' r. apply_change E (Update p t t') s = (s', Inr r) \<and>
     to_files s' = AList.update p (encode t') (to_files s)"
  by (simp add: write_file_def)

text \<open>An exact edit of one block: the file is written and one notification goes out.\<close>

text \<open>What the tool reports of an edited file.\<close>

definition edit_result :: "ustr \<Rightarrow> ustr list \<Rightarrow> ustr list \<Rightarrow> file_result" where
  "edit_result q before_lines after_lines =
     \<lparr>fr_path = q, fr_action = u ''modified'', fr_old_text = Some (terminated before_lines),
      fr_new_text = terminated after_lines, fr_move_to = None\<rparr>"

lemma run_exact_edit:
  assumes "map_of (to_files s) (join_path (te_cwd E) p) = Some (encode (terminated (pre @ old @ post)))"
    and "te_read_error E (join_path (te_cwd E) p) = None" "te_write_error E (join_path (te_cwd E) p) = None"
    and "first_exact pre old post" "\<forall>l \<in> set (pre @ old @ post). LF \<notin> set l \<and> list_all scalar l"
    and "c = \<lparr>uc_context = None, uc_old_lines = old, uc_new_lines = new, uc_end_of_file = False\<rparr>"
    and "printable (UpdateFile p None [c])" "pre @ new @ post = [] \<or> last (pre @ new @ post) \<noteq> []"
  shows "run_tool E (print_patch [UpdateFile p None [c]]) s =
    Some (notify E (join_path (te_cwd E) p) (terminated (pre @ new @ post))
        (Some (terminated (pre @ old @ post))) False
        (s\<lparr>to_files := AList.update (join_path (te_cwd E) p) (encode (terminated (pre @ new @ post))) (to_files s)\<rparr>),
      Inr (Success [edit_result (join_path (te_cwd E) p) (pre @ old @ post) (pre @ new @ post)]
        (build_summary [edit_result (join_path (te_cwd E) p) (pre @ old @ post) (pre @ new @ post)])))"
proof -
  let ?q = "join_path (te_cwd E) p" and ?t = "terminated (pre @ old @ post)"
    and ?t' = "terminated (pre @ new @ post)"
  have "list_all scalar ?t" using assms(5) by (auto simp: list_all_iff scalar_def)
  then have read: "read_file_as_string E (to_files s) ?q = Inr ?t"
    by (rule read_encoded[OF assms(2,1)])
  have "derive_new_contents ?t ?q [c] = Some (Inr ?t')"
    by (rule derive_one_chunk[OF _ assms(4,6,8)]) (use assms(5) in auto)
  then have "compute_all_changes E (to_files s) [UpdateFile p None [c]] = Some (Inr [Update ?q ?t ?t'])"
    by (simp add: compute_update[OF read] del: compute_change.simps)
  moreover have "apply_changes E [Update ?q ?t ?t'] s =
      (notify E ?q ?t' (Some ?t) False (s\<lparr>to_files := AList.update ?q (encode ?t') (to_files s)\<rparr>),
       Inr [edit_result ?q (pre @ old @ post) (pre @ new @ post)])"
    using assms(3) by (simp add: write_file_def edit_result_def)
  moreover have "list_all printable [UpdateFile p None [c]]" using assms(7) by simp
  ultimately show ?thesis using run_printed[of "[UpdateFile p None [c]]" E s] by blast
qed

end
