(* ===== verification/Patch_Properties.thy ===== *)
theory Patch_Properties
  imports Patch_Facts
begin

text \<open>
  What the \<open>apply_patch\<close> tool promises: its parser inverts the grammar, its matcher is
  complete and prefers exact matches, applying replacements never panics, and a run either
  writes only what the patch names or touches nothing.
\<close>

section \<open>An example\<close>

definition pt_env :: tool_env where
  "pt_env = \<lparr>te_read_error = (\<lambda>_. None), te_missing = u ''missing'', te_mkdir_error = (\<lambda>_. None),
     te_write_error = (\<lambda>_. None), te_delete_error = (\<lambda>_. None), te_call_id = [], te_cwd = [47]\<rparr>"

definition pt_path :: ustr where "pt_path = [102]"

definition pt_chunk :: update_chunk where
  "pt_chunk = \<lparr>uc_context = None, uc_old_lines = [[98]], uc_new_lines = [[120], [121]],
     uc_end_of_file = False\<rparr>"

definition pt_text :: ustr where "pt_text = terminated ([[97]] @ [[98]] @ [[99]])"

definition pt_state :: tool_state where
  "pt_state = \<lparr>to_files = [(join_path [47] pt_path, encode pt_text)], to_notes = []\<rparr>"

lemma pt_printable:
  "printable (UpdateFile pt_path None [pt_chunk])"
  "printable (UpdateFile pt_path (Some pt_path) [pt_chunk])"
  by (simp_all add: pt_path_def path_ok_def is_ws_def pt_chunk_def chunk_printable_def chunk_ok_def)

section \<open>Parsing\<close>

text \<open>C34: parsing the text of a patch gives back exactly its hunks, and the text as the
  normalised patch, for every patch whose paths and lines can be written on a line.\<close>

theorem parse_inverts_print:
  assumes "list_all printable hs"
  shows "parse_patch (print_patch hs) = Inr \<lparr>pp_hunks = hs, pp_patch = print_patch hs\<rparr>"
  by (rule parse_print[OF assms])

theorem parse_inverts_print_witness:
  "parse_patch (print_patch [UpdateFile pt_path None [pt_chunk], DeleteFile pt_path]) =
   Inr \<lparr>pp_hunks = [UpdateFile pt_path None [pt_chunk], DeleteFile pt_path],
        pp_patch = print_patch [UpdateFile pt_path None [pt_chunk], DeleteFile pt_path]\<rparr>"
  by (rule parse_inverts_print) (use pt_printable(1) in \<open>simp add: pt_path_def path_ok_def is_ws_def\<close>)

text \<open>Whatever text is parsed, an update has at least one chunk, every chunk has a line to
  find or to add, and the contents of an added file end in a newline.\<close>

theorem parsed_hunks_well_formed:
  assumes "parse_patch t = Inr parsed"
  shows "list_all hunk_ok (pp_hunks parsed)"
proof -
  obtain ls hs where "parse_hunks (butlast (tl ls)) 2 [] = Inr hs" "pp_hunks parsed = hs"
    using assms by (auto simp: parse_patch_def parse_patch_text_def split: sum.splits)
  then show ?thesis using parse_hunks_ok[of "butlast (tl ls)" 2 "[]" hs] by simp
qed

theorem parsed_hunks_well_formed_witness:
  "list_all hunk_ok (pp_hunks \<lparr>pp_hunks = [UpdateFile pt_path None [pt_chunk]],
     pp_patch = print_patch [UpdateFile pt_path None [pt_chunk]]\<rparr>)"
  by (rule parsed_hunks_well_formed[OF parse_print]) (use pt_printable(1) in simp)

section \<open>Matching\<close>

text \<open>A pattern is found exactly when some position from the search start on matches it up
  to trimming and punctuation; what is found lies inside the file and matches; and when the
  pattern occurs literally, the match found is literal.\<close>

theorem seek_complete_and_exact_first:
  assumes "pat \<noteq> []"
  shows "((\<exists>i. seek_sequence ls pat start eof = Some i) \<longleftrightarrow>
      (\<exists>i. search_start ls pat start eof \<le> i \<and> i + length pat \<le> length ls \<and> match_at normalise ls pat i)) \<and>
    (\<forall>i. seek_sequence ls pat start eof = Some i \<longrightarrow>
      search_start ls pat start eof \<le> i \<and> i + length pat \<le> length ls \<and> match_at normalise ls pat i) \<and>
    (\<forall>k. search_start ls pat start eof \<le> k \<and> k + length pat \<le> length ls \<and> match_at id ls pat k \<longrightarrow>
      (\<exists>j. seek_sequence ls pat start eof = Some j \<and> j \<le> k \<and> match_at id ls pat j))"
  using seek_found_iff[OF assms] seek_range[OF _ assms] seek_matches[OF _ assms]
    seek_exact_first[OF assms] by blast

text \<open>A fuzzy match: a typographic dash and trailing blanks.\<close>

theorem seek_complete_and_exact_first_witness:
  "\<exists>i. seek_sequence [[97], [8211, 32]] [[45]] 0 False = Some i"
proof -
  have "match_at normalise [[97], [8211, 32]] [[45]] 1"
    by (simp add: match_at_def normalise_def trim_def trim_start_def trim_end_def is_ws_def norm_char_def)
  then have "\<exists>i. search_start [[97], [8211, 32]] [[45]] 0 False \<le> i \<and>
      i + length [[45 :: nat]] \<le> length [[97 :: nat], [8211, 32]] \<and>
      match_at normalise [[97], [8211, 32]] [[45]] i"
    by (intro exI[of _ 1]) (simp add: search_start_def)
  then show ?thesis
    using seek_complete_and_exact_first[of "[[45]]" "[[97], [8211, 32]]" 0 False] by blast
qed

section \<open>Applying\<close>

text \<open>Deriving the new contents of a file never panics, whatever the chunks and their order,
  and the result is empty or ends in a newline.\<close>

theorem derive_never_panics:
  "\<exists>r. derive_new_contents t path cs = Some r \<and> (case r of Inl e \<Rightarrow> True | Inr t' \<Rightarrow> t' = [] \<or> ends_with LF t')"
  using derive_total[of t path cs] by (auto split: sum.splits)

text \<open>C33: for chunks of which none is an end-of-file chunk and none only adds lines unless the last line of the
  file is not empty, the replacements computed, when they can be, are disjoint and inside the file, and applying them backwards in
  place is the one forward pass that copies what no chunk replaces.\<close>

theorem derive_is_forward_splice:
  assumes "list_all (plain_chunk (original_lines t)) cs"
    and "compute_replacements (original_lines t) path cs = Inr rs"
  shows "disjoint_from 0 (length (original_lines t)) rs \<and>
    derive_new_contents t path cs = Some (Inr (finish_lines (splice 0 rs (original_lines t))))"
  by (rule derive_splice[OF assms])

lemma pt_lines: "original_lines pt_text = [[97], [98], [99]]"
  unfolding pt_text_def by (subst original_lines_terminated) simp_all

lemma pt_replacements: "compute_replacements (original_lines pt_text) pt_path [pt_chunk] = Inr [(1, 1, [[120], [121]])]"
  unfolding pt_lines
  by (simp add: compute_replacements_def context_index_def replace_chunk_def find_old_def Let_def
      pt_chunk_def seek_sequence_def search_start_def seek_pass_def match_at_def upt_rec)

theorem derive_is_forward_splice_witness:
  "derive_new_contents pt_text pt_path [pt_chunk] = Some (Inr (terminated [[97], [120], [121], [99]]))"
proof -
  have "list_all (plain_chunk (original_lines pt_text)) [pt_chunk]"
    by (simp add: plain_chunk_def pt_chunk_def)
  from derive_is_forward_splice[OF this pt_replacements] show ?thesis
    by (simp add: pt_lines finish_lines_def)
qed

section \<open>Running\<close>

text \<open>A run never panics, and unless it reports success or an I/O error no file has changed
  and no notification was sent: parse errors, empty patches and chunks that do not apply
  leave everything as it was.\<close>

theorem failed_run_touches_nothing:
  "\<exists>s' r. run_tool E patch s = Some (s', r) \<and>
     (case r of Inr (Success rs t) \<Rightarrow> True | Inr _ \<Rightarrow> s' = s | Inl e \<Rightarrow> True)"
proof -
  obtain s' r where "run_tool E patch s = Some (s', r)"
    "\<forall>out. r = Inr out \<longrightarrow> (\<forall>rs t. out \<noteq> Success rs t) \<longrightarrow> s' = s"
    using run_tool_total by blast
  then show ?thesis by (auto split: sum.splits tool_output.splits)
qed

text \<open>A run changes no file that the patch does not name, also when it fails half way with an
  I/O error.\<close>

theorem run_changes_only_named_files:
  assumes "parse_patch patch = Inr parsed" "run_tool E patch s = Some (s', r)"
    "\<forall>h \<in> set (pp_hunks parsed). q \<notin> hunk_paths (te_cwd E) h"
  shows "map_of (to_files s') q = map_of (to_files s) q"
  by (rule run_tool_other[OF assms])

lemma pt_parse: "parse_patch (print_patch [UpdateFile pt_path None [pt_chunk]]) =
  Inr \<lparr>pp_hunks = [UpdateFile pt_path None [pt_chunk]],
    pp_patch = print_patch [UpdateFile pt_path None [pt_chunk]]\<rparr>"
  by (rule parse_print) (use pt_printable(1) in simp)

theorem run_changes_only_named_files_witness:
  "\<exists>s' r. run_tool pt_env (print_patch [UpdateFile pt_path None [pt_chunk]]) pt_state = Some (s', r) \<and>
     map_of (to_files s') [120] = map_of (to_files pt_state) [120]"
proof -
  obtain s' r where run: "run_tool pt_env (print_patch [UpdateFile pt_path None [pt_chunk]]) pt_state = Some (s', r)"
    using run_tool_total by blast
  then show ?thesis
    using run_changes_only_named_files[OF pt_parse run, of "[120]"]
    by (simp add: join_path_def pt_env_def pt_path_def)
qed

text \<open>C32: the whole pipeline on one exact edit: when the file is there as lines of Unicode text that end in
  line feeds, reading and writing it work, the old lines of the chunk occur literally, and the lines that
  result are none or end in one that is not empty, then the printed patch is parsed, matched at the
  first occurrence and written: the file then holds the text with these lines replaced, the other files
  are unchanged, one notification with the texts before and after is sent, and the result reports
  exactly this change of this file and its summary. (A last line that is empty is lost:
  \<open>apply.rs\<close> takes it for the end of the file.)\<close>

theorem exact_edit_is_applied:
  assumes "map_of (to_files s) (join_path (te_cwd E) p) = Some (encode (terminated (pre @ old @ post)))"
    and "te_read_error E (join_path (te_cwd E) p) = None" "te_write_error E (join_path (te_cwd E) p) = None"
    and "first_exact pre old post" "\<forall>l \<in> set (pre @ old @ post). LF \<notin> set l \<and> list_all scalar l"
    and "c = \<lparr>uc_context = None, uc_old_lines = old, uc_new_lines = new, uc_end_of_file = False\<rparr>"
    and "printable (UpdateFile p None [c])" "pre @ new @ post = [] \<or> last (pre @ new @ post) \<noteq> []"
  shows "\<exists>s'. run_tool E (print_patch [UpdateFile p None [c]]) s =
      Some (s', Inr (Success [edit_result (join_path (te_cwd E) p) (pre @ old @ post) (pre @ new @ post)]
        (build_summary [edit_result (join_path (te_cwd E) p) (pre @ old @ post) (pre @ new @ post)]))) \<and>
    map_of (to_files s') = (map_of (to_files s))(join_path (te_cwd E) p \<mapsto> encode (terminated (pre @ new @ post))) \<and>
    to_notes s' = to_notes s @ [\<lparr>fw_call_id = te_call_id E, fw_path = join_path (te_cwd E) p,
      fw_content = terminated (pre @ new @ post), fw_previous = Some (terminated (pre @ old @ post)), fw_is_new = False\<rparr>]"
  using run_exact_edit[OF assms] by (simp add: notify_def update_conv')

theorem exact_edit_is_applied_witness:
  "\<exists>s'. run_tool pt_env (print_patch [UpdateFile pt_path None [pt_chunk]]) pt_state =
      Some (s', Inr (Success [edit_result (join_path (te_cwd pt_env) pt_path) ([[97]] @ [[98]] @ [[99]]) ([[97]] @ [[120], [121]] @ [[99]])]
        (build_summary [edit_result (join_path (te_cwd pt_env) pt_path) ([[97]] @ [[98]] @ [[99]]) ([[97]] @ [[120], [121]] @ [[99]])]))) \<and>
    map_of (to_files s') = (map_of (to_files pt_state))(join_path (te_cwd pt_env) pt_path \<mapsto>
      encode (terminated ([[97]] @ [[120], [121]] @ [[99]]))) \<and>
    to_notes s' = to_notes pt_state @ [\<lparr>fw_call_id = te_call_id pt_env, fw_path = join_path (te_cwd pt_env) pt_path,
      fw_content = terminated ([[97]] @ [[120], [121]] @ [[99]]),
      fw_previous = Some (terminated ([[97]] @ [[98]] @ [[99]])), fw_is_new = False\<rparr>]"
proof (rule exact_edit_is_applied)
  show "map_of (to_files pt_state) (join_path (te_cwd pt_env) pt_path) =
      Some (encode (terminated ([[97]] @ [[98]] @ [[99]])))"
    by (simp add: pt_state_def pt_env_def pt_text_def)
  show "first_exact [[97]] [[98]] [[99]]" by (simp add: first_exact_def match_at_def)
  show "pt_chunk = \<lparr>uc_context = None, uc_old_lines = [[98]], uc_new_lines = [[120], [121]],
     uc_end_of_file = False\<rparr>" by (rule pt_chunk_def)
qed (simp_all add: pt_env_def pt_printable(1)[simplified] scalar_def)

section \<open>Two defects\<close>

text \<open>Every original is read before anything is written, so of two updates of the same file in
  one patch only the second takes effect: the run succeeds and the file holds the second
  edit of the original text.\<close>

theorem second_update_discards_first:
  assumes "list_all printable [UpdateFile p None cs, UpdateFile p None ds]"
    and "read_file_as_string E (to_files s) (join_path (te_cwd E) p) = Inr t"
    and "te_write_error E (join_path (te_cwd E) p) = None"
    and "derive_new_contents t (join_path (te_cwd E) p) cs = Some (Inr t1)"
    and "derive_new_contents t (join_path (te_cwd E) p) ds = Some (Inr t2)"
  shows "\<exists>s' rs. run_tool E (print_patch [UpdateFile p None cs, UpdateFile p None ds]) s =
      Some (s', Inr (Success rs (build_summary rs))) \<and>
    map_of (to_files s') (join_path (te_cwd E) p) = Some (encode t2)"
proof -
  let ?q = "join_path (te_cwd E) p"
  have comp: "compute_all_changes E (to_files s) [UpdateFile p None cs, UpdateFile p None ds] =
      Some (Inr [Update ?q t t1, Update ?q t t2])"
    by (simp add: compute_update[OF assms(2,4)] compute_update[OF assms(2,5)] del: compute_change.simps)
  obtain s1 r1 where s1: "apply_change E (Update ?q t t1) s = (s1, Inr r1)"
    using apply_update[OF assms(3)] by blast
  obtain s2 r2 where s2: "apply_change E (Update ?q t t2) s1 = (s2, Inr r2)"
    "to_files s2 = AList.update ?q (encode t2) (to_files s1)"
    using apply_update[OF assms(3)] by blast
  have "apply_changes E [Update ?q t t1, Update ?q t t2] s = (s2, Inr [r1, r2])"
    "map_of (to_files s2) ?q = Some (encode t2)"
    using s1 s2 by (simp_all add: update_conv del: apply_change.simps)
  then show ?thesis using run_printed[OF assms(1) _ comp] by blast
qed

theorem second_update_discards_first_witness:
  "\<exists>s' rs. run_tool pt_env (print_patch [UpdateFile pt_path None [pt_chunk], UpdateFile pt_path None [pt_chunk]]) pt_state =
      Some (s', Inr (Success rs (build_summary rs))) \<and>
    map_of (to_files s') (join_path (te_cwd pt_env) pt_path) =
      Some (encode (terminated [[97], [120], [121], [99]]))"
proof (rule second_update_discards_first)
  show "read_file_as_string pt_env (to_files pt_state) (join_path (te_cwd pt_env) pt_path) = Inr pt_text"
    by (rule read_encoded) (simp_all add: pt_env_def pt_state_def pt_text_def scalar_def)
  show d: "derive_new_contents pt_text (join_path (te_cwd pt_env) pt_path) [pt_chunk] =
      Some (Inr (terminated [[97], [120], [121], [99]]))"
    using derive_one_chunk[of "[[97]]" "[[98]]" "[[99]]" pt_chunk "[[120], [121]]"]
    by (simp add: pt_text_def pt_chunk_def first_exact_def match_at_def)
  then show "derive_new_contents pt_text (join_path (te_cwd pt_env) pt_path) [pt_chunk] =
      Some (Inr (terminated [[97], [120], [121], [99]]))" .
qed (use pt_printable(1) in \<open>simp_all add: pt_env_def\<close>)

text \<open>An update that moves a file to its own path succeeds and deletes the file: the new
  contents are written first and the source is deleted afterwards.\<close>

theorem move_onto_itself_deletes:
  assumes "printable (UpdateFile p (Some p) cs)"
    and "read_file_as_string E (to_files s) (join_path (te_cwd E) p) = Inr t"
    and "derive_new_contents t (join_path (te_cwd E) p) cs = Some (Inr t')"
    and "te_mkdir_error E (join_path (te_cwd E) p) = None" "te_write_error E (join_path (te_cwd E) p) = None"
      "te_delete_error E (join_path (te_cwd E) p) = None"
  shows "\<exists>s' rs. run_tool E (print_patch [UpdateFile p (Some p) cs]) s =
      Some (s', Inr (Success rs (build_summary rs))) \<and>
    map_of (to_files s') (join_path (te_cwd E) p) = None"
proof -
  let ?q = "join_path (te_cwd E) p"
  have comp: "compute_all_changes E (to_files s) [UpdateFile p (Some p) cs] = Some (Inr [Move ?q ?q t t'])"
    using assms(2,3) by (simp add: Let_def)
  obtain s' r where "apply_change E (Move ?q ?q t t') s = (s', Inr r)" "map_of (to_files s') ?q = None"
    using assms(4-6)
    by (simp add: ensure_parent_dirs_def write_file_def delete_file_def update_conv delete_conv)
  then have "apply_changes E [Move ?q ?q t t'] s = (s', Inr [r])" "map_of (to_files s') ?q = None"
    by (simp_all del: apply_change.simps)
  moreover have "list_all printable [UpdateFile p (Some p) cs]" using assms(1) by simp
  ultimately show ?thesis using run_printed[OF _ _ comp] by blast
qed

theorem move_onto_itself_deletes_witness:
  "\<exists>s' rs. run_tool pt_env (print_patch [UpdateFile pt_path (Some pt_path) [pt_chunk]]) pt_state =
      Some (s', Inr (Success rs (build_summary rs))) \<and>
    map_of (to_files s') (join_path (te_cwd pt_env) pt_path) = None"
proof (rule move_onto_itself_deletes[OF pt_printable(2)])
  show "read_file_as_string pt_env (to_files pt_state) (join_path (te_cwd pt_env) pt_path) = Inr pt_text"
    by (rule read_encoded) (simp_all add: pt_env_def pt_state_def pt_text_def scalar_def)
  show "derive_new_contents pt_text (join_path (te_cwd pt_env) pt_path) [pt_chunk] =
      Some (Inr (terminated [[97], [120], [121], [99]]))"
    using derive_one_chunk[of "[[97]]" "[[98]]" "[[99]]" pt_chunk "[[120], [121]]"]
    by (simp add: pt_text_def pt_chunk_def first_exact_def match_at_def)
qed (simp_all add: pt_env_def)

end
