(* ===== verification/Patch_Review.thy ===== *)
theory Patch_Review
  imports Hunk_Properties Patch_Properties
begin

text \<open>
  The composition of the patch tool, the notification bridge and the hunk tracker: an applied edit is
  what the user reviews.
\<close>

section \<open>From a patch to its review\<close>

text \<open>
  \<open>xai-grok-shell/src/tools/notification_bridge.rs\<close> hands every \<open>FileWritten\<close> notification to the
  hunk tracker as an agent write of the current prompt. Texts become UTF-8 bytes, paths their
  components.
\<close>

definition utf8_str :: "ustr \<Rightarrow> str" where
  "utf8_str t = map char_of (encode t)"

definition path_of :: "ustr \<Rightarrow> path" where
  "path_of p = map utf8_str (filter (\<lambda>c. c \<noteq> []) (split_on 47 p))"

definition forward_note :: "env \<Rightarrow> nat \<Rightarrow> file_written \<Rightarrow> tracker \<Rightarrow> tracker" where
  "forward_note E i n t =
     record_agent_write E (path_of (fw_path n)) (utf8_str (fw_content n)) i
       (map_option utf8_str (fw_previous n)) t"

definition forward_notes :: "env \<Rightarrow> nat \<Rightarrow> file_written list \<Rightarrow> tracker \<Rightarrow> tracker" where
  "forward_notes E i ns t = fold (forward_note E i) ns t"

text \<open>C5: an exact edit applied by the patch tool is what the user reviews: the tool writes the file, reports
  the change and sends one notification, and once that has reached the tracker, accepting the file
  makes the written text its baseline with nothing left to review, and rejecting it writes the text from
  before the patch back to disk. It asks that the file had no hunks to review (its baseline is the
  text before the patch), that both texts differ, are lines without carriage returns that all end in a line
  feed, not empty and of a size that is compared, that the difference between them has been computed and
  replaying its hunks never leaves a single empty line, that the resulting lines are none or end in one
  that is not empty, and that reading and writing work.\<close>

theorem applied_patch_reaches_review:
  assumes "map_of (to_files s) (join_path (te_cwd T) p) = Some (encode (terminated (pre @ old @ post)))"
    and "te_read_error T (join_path (te_cwd T) p) = None" "te_write_error T (join_path (te_cwd T) p) = None"
    and "first_exact pre old post" "\<forall>l \<in> set (pre @ old @ post). LF \<notin> set l \<and> list_all scalar l"
    and "c = \<lparr>uc_context = None, uc_old_lines = old, uc_new_lines = new, uc_end_of_file = False\<rparr>"
    and "printable (UpdateFile p None [c])" "pre @ new @ post = [] \<or> last (pre @ new @ post) \<noteq> []"
    and "to_notes s = []"
    and tracked: "file_state_of t (path_of (join_path (te_cwd T) p)) = Some st"
      "fs_baseline st = Full (utf8_str (terminated (pre @ old @ post)))"
    and texts: "classify_string (utf8_str (terminated (pre @ new @ post))) =
        Full (utf8_str (terminated (pre @ new @ post)))"
      "utf8_str (terminated (pre @ old @ post)) \<noteq> utf8_str (terminated (pre @ new @ post))"
      "length (utf8_str (terminated (pre @ old @ post))) \<le> max_diff_file_size"
    and script: "ev_diff E (utf8_str (terminated (pre @ old @ post))) (utf8_str (terminated (pre @ new @ post))) = Some cs"
      "acceptable (utf8_str (terminated (pre @ old @ post))) (utf8_str (terminated (pre @ new @ post))) cs"
      "rejectable (utf8_str (terminated (pre @ old @ post))) (utf8_str (terminated (pre @ new @ post))) cs"
    and "ev_write_error E' (path_of (join_path (te_cwd T) p)) = None"
  shows "\<exists>s' rs. run_tool T (print_patch [UpdateFile p None [c]]) s = Some (s', Inr (Success rs (build_summary rs))) \<and>
    rs = [edit_result (join_path (te_cwd T) p) (pre @ old @ post) (pre @ new @ post)] \<and>
    file_state_of (fst (apply_file_action E' (path_of (join_path (te_cwd T) p)) Accept
        (forward_notes E i (to_notes s') t))) (path_of (join_path (te_cwd T) p)) =
      Some (st\<lparr>fs_baseline := Full (utf8_str (terminated (pre @ new @ post))),
               fs_current := Full (utf8_str (terminated (pre @ new @ post))),
               fs_hunks := [], fs_is_agent_file := True, fs_baseline_accepted := True\<rparr>) \<and>
    tk_disk (fst (apply_file_action E' (path_of (join_path (te_cwd T) p)) Reject
        (forward_notes E i (to_notes s') t))) =
      tk_disk (write_disk (path_of (join_path (te_cwd T) p)) (utf8_str (terminated (pre @ old @ post))) t)"
proof -
  let ?q = "join_path (te_cwd T) p" and ?old = "terminated (pre @ old @ post)" and ?new = "terminated (pre @ new @ post)"
  let ?s' = "notify T ?q ?new (Some ?old) False
    (s\<lparr>to_files := AList.update ?q (encode ?new) (to_files s)\<rparr>)"
  have "forward_notes E i (to_notes ?s') t =
      record_agent_write E (path_of ?q) (utf8_str ?new) i (Some (utf8_str ?old)) t"
    using assms(9) by (simp add: forward_notes_def forward_note_def notify_def)
  moreover have "file_state_of (fst (apply_file_action E' (path_of ?q) Accept
      (record_agent_write E (path_of ?q) (utf8_str ?new) i (Some (utf8_str ?old)) t))) (path_of ?q) =
    Some (st\<lparr>fs_baseline := Full (utf8_str ?new), fs_current := Full (utf8_str ?new), fs_hunks := [],
             fs_is_agent_file := True, fs_baseline_accepted := True\<rparr>)"
    using accept_after_write[OF tracked texts script(1,2)] by blast
  moreover have "tk_disk (fst (apply_file_action E' (path_of ?q) Reject
      (record_agent_write E (path_of ?q) (utf8_str ?new) i (Some (utf8_str ?old)) t))) =
    tk_disk (write_disk (path_of ?q) (utf8_str ?old) t)"
    using reject_after_write[OF tracked texts script(1,3) assms(18)] by blast
  moreover define rs where "rs = [edit_result ?q (pre @ old @ post) (pre @ new @ post)]"
  moreover have "run_tool T (print_patch [UpdateFile p None [c]]) s = Some (?s', Inr (Success rs (build_summary rs)))"
    using run_exact_edit[OF assms(1-8)] by (simp add: rs_def)
  ultimately show ?thesis by (intro exI[of _ ?s'] exI[of _ rs]) simp
qed

definition review_env :: tool_env where
  "review_env = pt_env\<lparr>te_cwd := [47, 119]\<rparr>"

definition review_chunk :: update_chunk where
  "review_chunk = \<lparr>uc_context = None, uc_old_lines = [[98], [99]], uc_new_lines = [[120], [99], [100]],
     uc_end_of_file = False\<rparr>"

definition review_state :: tool_state where
  "review_state = \<lparr>to_files = [([47, 119, 47, 97], encode (terminated [[97], [98], [99]]))], to_notes = []\<rparr>"

lemma review_texts:
  "utf8_str (terminated ([[97]] @ [[98], [99]] @ [])) = demo_old"
  "utf8_str (terminated ([[97]] @ [[120], [99], [100]] @ [])) = demo_new"
  by (simp_all add: utf8_str_def encode_def encode_char_def demo_defs char_of_def bit_0)

lemma review_path: "join_path (te_cwd review_env) [97] = [47, 119, 47, 97]" "path_of [47, 119, 47, 97] = demo_path"
  by (simp_all add: join_path_def review_env_def pt_env_def path_of_def utf8_str_def encode_def
      encode_char_def demo_path_def char_of_def bit_0)

theorem applied_patch_reaches_review_witness:
  "\<exists>s' rs. run_tool review_env (print_patch [UpdateFile [97] None [review_chunk]]) review_state =
      Some (s', Inr (Success rs (build_summary rs))) \<and>
    fs_hunks (the (file_state_of (fst (apply_file_action demo_env demo_path Accept
        (forward_notes demo_env 3 (to_notes s') demo_tracker))) demo_path)) = []"
proof -
  note th = applied_patch_reaches_review[where T = review_env and p = "[97]" and pre = "[[97]]"
    and old = "[[98], [99]]" and new = "[[120], [99], [100]]" and post = "[]" and c = review_chunk
    and s = review_state and t = demo_tracker and E = demo_env and E' = demo_env and i = 3,
    unfolded review_path review_texts, OF _ _ _ _ _ _ _ _ _ demo_file _ demo_classify _ _ _
    demo_acceptable demo_rejectable]
  have "printable (UpdateFile [97] None [review_chunk])"
    by (simp add: path_ok_def is_ws_def review_chunk_def chunk_printable_def chunk_ok_def)
  moreover have "first_exact [[97]] [[98], [99]] []" by (simp add: first_exact_def match_at_def)
  ultimately have "\<exists>s' rs. run_tool review_env (print_patch [UpdateFile [97] None [review_chunk]]) review_state =
      Some (s', Inr (Success rs (build_summary rs))) \<and>
    file_state_of (fst (apply_file_action demo_env demo_path Accept
        (forward_notes demo_env 3 (to_notes s') demo_tracker))) demo_path =
      Some (new_file (Full demo_old) (Full demo_old) True\<lparr>fs_baseline := Full demo_new,
        fs_current := Full demo_new, fs_hunks := [], fs_is_agent_file := True, fs_baseline_accepted := True\<rparr>)"
    using th by (force simp: review_state_def review_env_def pt_env_def review_chunk_def scalar_def
        new_file_def max_diff_file_size_def demo_defs)
  then show ?thesis by force
qed

end
