(* ===== verification/Perm_Properties.thy ===== *)
theory Perm_Properties
  imports Perm_Facts Shell_Properties
begin

text \<open>
  The properties of the permission policy: what a decision means, what an allowed script has been
  checked for, and what the gate makes of a denied command wherever a script hides it.
\<close>

section \<open>Decisions\<close>

text \<open>A policy rejects a request exactly when a deny rule applies to it, asks exactly when no deny
  rule but an ask rule applies, and allows it exactly when neither applies and the request is
  permitted: an allow rule applies or, for a shell command, every command of the chain is allowed.\<close>

theorem deny_before_ask_before_allow:
  "((\<exists>reason. evaluate_with_cwd E P a cwd = Some (Reject reason)) \<longleftrightarrow> some_rule E P a cwd Deny_Rule) \<and>
   (evaluate_with_cwd E P a cwd = Some Ask \<longleftrightarrow>
      \<not> some_rule E P a cwd Deny_Rule \<and> some_rule E P a cwd Ask_Rule) \<and>
   (evaluate_with_cwd E P a cwd = Some Allow \<longleftrightarrow>
      \<not> some_rule E P a cwd Deny_Rule \<and> \<not> some_rule E P a cwd Ask_Rule \<and> permits E P a cwd)"
  using evaluate_spec[of E P a cwd] by (auto split: if_splits)

lemma escalate_cong:
  assumes "set (pc_rules c) = set (pc_rules c')"
  shows "gate_weight (escalate E (compile_policy E c) ws) = gate_weight (escalate E (compile_policy E c') ws)"
  using evaluate_spec[of E "compile_policy E c" "Bash_Access (join [32] ws)" None]
    evaluate_spec[of E "compile_policy E c'" "Bash_Access (join [32] ws)" None]
  by (auto simp: escalate_def evaluate_def evaluate_cong[OF assms] split: if_splits)

lemma command_words_cong:
  assumes esc: "\<And>ws. gate_weight (escalate E P ws) = gate_weight (escalate E Q ws)"
    and inner: "\<And>s. gate_weight (inner_script f s) = gate_weight (inner_script g s)"
  shows "gate_weight (evaluate_command_words E P f ws) = gate_weight (evaluate_command_words E Q g ws)"
  unfolding evaluate_command_words_def Let_def
  by (simp add: gate.heavier esc inner split: inline_script.split option.split)

lemma fold_cong_weight:
  assumes "\<And>x. gate_weight (f x) = gate_weight (g x)" "gate_weight d = gate_weight e"
  shows "gate_weight (fold (\<lambda>x d. combine_gate_decisions d (f x)) xs d) =
    gate_weight (fold (\<lambda>x d. combine_gate_decisions d (g x)) xs e)"
  using assms(2) by (induction xs arbitrary: d e) (simp_all add: gate.heavier assms(1))

lemma segments_cong:
  assumes "set (pc_rules c) = set (pc_rules c')"
  shows "gate_weight (evaluate_bash_command_segments E (compile_policy E c) d cmd) =
    gate_weight (evaluate_bash_command_segments E (compile_policy E c') d cmd)"
proof (induction d arbitrary: cmd)
  case 0
  show ?case
    by (simp add: script_gate_def fold_cong_weight[OF command_words_cong[OF escalate_cong[OF assms]]] split: option.split)
next
  case (Suc d)
  have "gate_weight (inner_script (Some (evaluate_bash_command_segments E (compile_policy E c) d)) s) =
    gate_weight (inner_script (Some (evaluate_bash_command_segments E (compile_policy E c') d)) s)" for s
    using Suc by (simp add: inner_script_def)
  then show ?case
    by (simp add: script_gate_def fold_cong_weight[OF command_words_cong[OF escalate_cong[OF assms]]] split: option.split)
qed

text \<open>The order and repetition of the rules do not matter: two configurations with the same rules
  decide every request alike, up to the reason of a rejection, and the gate on shell scripts weighs
  every script alike.\<close>

theorem rule_order_is_irrelevant:
  assumes "set (pc_rules c) = set (pc_rules c')"
  shows "(evaluate_with_cwd E (compile_policy E c) a cwd = evaluate_with_cwd E (compile_policy E c') a cwd \<or>
      (\<exists>r r'. evaluate_with_cwd E (compile_policy E c) a cwd = Some (Reject r) \<and>
        evaluate_with_cwd E (compile_policy E c') a cwd = Some (Reject r'))) \<and>
    gate_weight (evaluate_bash_command_gate E (compile_policy E c) cmd) =
    gate_weight (evaluate_bash_command_gate E (compile_policy E c') cmd)"
proof
  show "evaluate_with_cwd E (compile_policy E c) a cwd = evaluate_with_cwd E (compile_policy E c') a cwd \<or>
      (\<exists>r r'. evaluate_with_cwd E (compile_policy E c) a cwd = Some (Reject r) \<and>
        evaluate_with_cwd E (compile_policy E c') a cwd = Some (Reject r'))"
    using evaluate_spec[of E "compile_policy E c" a cwd] evaluate_spec[of E "compile_policy E c'" a cwd]
      evaluate_cong[OF assms, of E a cwd] by (auto split: if_splits)
  show "gate_weight (evaluate_bash_command_gate E (compile_policy E c) cmd) =
    gate_weight (evaluate_bash_command_gate E (compile_policy E c') cmd)"
    using segments_cong[OF assms, of E] compile_same_rules(3)[OF assms, of E]
    by (simp add: evaluate_bash_command_gate_def)
qed

definition rule :: "rule_action \<Rightarrow> tool_filter \<Rightarrow> string \<Rightarrow> permission_rule" where
  "rule act tool p = \<lparr>pr_action = act, pr_tool = tool, pr_pattern = Some (u p), pr_mode = Glob_Mode\<rparr>"

definition rules :: "permission_rule list \<Rightarrow> permission_config" where
  "rules rs = \<lparr>pc_rules = rs, pc_prompt = Prompt_Ask\<rparr>"

definition demo_policy_env :: "unit policy_env" where
  "demo_policy_env = \<lparr>pv_compile = (\<lambda>_. None), pv_matches = (\<lambda>_ _ _. False),
     pv_commands = (\<lambda>cmd. Some [split_on 32 cmd]), pv_host = (\<lambda>_. None), pv_lower = id\<rparr>"

abbreviation demo_policy :: "permission_rule list \<Rightarrow> unit compiled_policy" where
  "demo_policy rs \<equiv> compile_policy demo_policy_env (rules rs)"

lemmas demo_eval = rules_def rule_def compile_policy_def restricts_def applies_def tool_filter_matches_def
  pattern_matches_def rule_matcher_def demo_policy_env_def glob_matches_def has_pre_def trim_start_def is_ws_def u_def

theorem rule_order_is_irrelevant_witness:
  "gate_weight (evaluate_bash_command_gate demo_policy_env
     (demo_policy [rule Deny_Rule Bash_Tool ''rm'', rule Ask_Rule Bash_Tool ''git'']) (u ''git rm'')) =
   gate_weight (evaluate_bash_command_gate demo_policy_env
     (demo_policy [rule Ask_Rule Bash_Tool ''git'', rule Deny_Rule Bash_Tool ''rm'']) (u ''git rm''))"
  using rule_order_is_irrelevant[of "rules [rule Deny_Rule Bash_Tool ''rm'', rule Ask_Rule Bash_Tool ''git'']"
      "rules [rule Ask_Rule Bash_Tool ''git'', rule Deny_Rule Bash_Tool ''rm'']" demo_policy_env]
  by (auto simp: rules_def)

text \<open>No search of file contents goes round a rule on reading: where reading a path is rejected so
  is searching it, and where searching a path is allowed, reading it is neither rejected nor asked.\<close>

theorem grep_heeds_read_rules:
  "((\<exists>r. evaluate_with_cwd E P (Read_Access (Some p)) cwd = Some (Reject r)) \<longrightarrow>
    (\<exists>r. evaluate_with_cwd E P (Grep_Access (Some p) g) cwd = Some (Reject r))) \<and>
   (evaluate_with_cwd E P (Grep_Access (Some p) g) cwd = Some Allow \<longrightarrow>
    evaluate_with_cwd E P (Read_Access (Some p)) cwd \<in> {None, Some Allow})"
proof -
  have "applies E (Read_Access (Some p)) cwd cr \<Longrightarrow> applies E (Grep_Access (Some p) g) cwd cr" for cr
    by (auto simp: applies_def tool_filter_matches_def pattern_matches_def split: tool_filter.splits option.splits)
  then have some: "some_rule E P (Read_Access (Some p)) cwd act \<Longrightarrow> some_rule E P (Grep_Access (Some p) g) cwd act" for act
    by (auto simp: some_rule_def)
  show ?thesis
    using evaluate_spec[of E P "Read_Access (Some p)" cwd] evaluate_spec[of E P "Grep_Access (Some p) g" cwd] some
    by (auto split: if_splits)
qed

theorem grep_heeds_read_rules_witness:
  "\<exists>r. evaluate_with_cwd demo_policy_env (demo_policy
      [\<lparr>pr_action = Deny_Rule, pr_tool = Read_Tool, pr_pattern = None, pr_mode = Glob_Mode\<rparr>])
    (Grep_Access (Some (u ''/etc'')) None) None = Some (Reject r)"
proof -
  have "\<exists>r. evaluate_with_cwd demo_policy_env (demo_policy
      [\<lparr>pr_action = Deny_Rule, pr_tool = Read_Tool, pr_pattern = None, pr_mode = Glob_Mode\<rparr>])
    (Read_Access (Some (u ''/etc''))) None = Some (Reject r)"
    by (simp add: evaluate_with_cwd_def compile_policy_def rules_def applies_def tool_filter_matches_def
        pattern_matches_def)
  then show ?thesis using grep_heeds_read_rules by blast
qed

text \<open>Parsing the text of a rule gives back the rule.\<close>

theorem parse_inverts_rule_text:
  assumes "rule_printable r"
  shows "parse_permission_rule (rule_text r) (pr_action r) = Inr r"
  by (rule parse_rule_text[OF assms])

theorem parse_inverts_rule_text_witness:
  "parse_permission_rule (rule_text (rule Deny_Rule Bash_Tool ''rm (a)'')) Deny_Rule =
     Inr (rule Deny_Rule Bash_Tool ''rm (a)'')"
  using parse_inverts_rule_text[of "rule Deny_Rule Bash_Tool ''rm (a)''"]
  by (simp add: rule_def rule_printable_def rule_content_def u_def is_ws_def ends_in_def)

section \<open>The preflight\<close>

lemma weight_reject:
  "decision_weight (map_option into_decision g) = (if g = None then 0 else if \<exists>r. g = Some (Gate_Reject r) then 4 else 3)"
  by (cases g rule: option.exhaust; simp add: decision_weight_def; rename_tac d; case_tac d; simp)

lemma evaluate_cases:
  obtains (reject) reason where "evaluate_with_cwd E P a cwd = Some (Reject reason)"
  | (ask) "evaluate_with_cwd E P a cwd = Some Ask"
  | (allow) "evaluate_with_cwd E P a cwd = Some Allow"
  | (silent) "evaluate_with_cwd E P a cwd = None"
  using evaluate_spec[of E P a cwd] by (auto split: if_splits)

lemma into_decision_simps [simp]:
  "into_decision d = Reject r \<longleftrightarrow> d = Gate_Reject r" "into_decision d \<noteq> Allow"
  "into_decision d = Ask \<longleftrightarrow> is_ask d"
  by (cases d; simp)+

lemma preflight_parts:
  assumes "p = evaluate_preflight E file_gate (Some P) (Bash_Access cmd) cwd auto_mode"
  shows "pf_direct p = evaluate_with_cwd E P (Bash_Access cmd) (Some cwd)"
    "pf_bash p = evaluate_bash_command_gate E P cmd" "pf_file p = file_gate cmd cwd"
    "pf_defers p \<longleftrightarrow> auto_mode \<and> (pf_bash p = Some AskFailClosed \<or> pf_file p = Some AskFailClosed) \<and>
      \<not> (pf_direct p = Some Ask \<or> pf_bash p = Some AskRuleMatch \<or> pf_file p = Some AskRuleMatch)"
  unfolding assms by (simp_all add: evaluate_preflight_def Let_def)

lemma preflight_direct:
  assumes "p = evaluate_preflight E file_gate (Some P) (Bash_Access cmd) cwd auto_mode"
  shows "pf_direct p \<in> {None, Some Allow, Some Ask} \<or> (\<exists>r. pf_direct p = Some (Reject r))"
  unfolding preflight_parts(1)[OF assms]
  by (rule evaluate_cases[of E P "Bash_Access cmd" "Some cwd"]) auto

lemma gate_verdicts:
  "g = None \<or> g = Some AskRuleMatch \<or> g = Some AskFailClosed \<or> (\<exists>r. g = Some (Gate_Reject r))"
  by (cases g rule: option.exhaust; simp; metis gate_decision.exhaust)

lemma preflight_rejects:
  assumes "p = evaluate_preflight E file_gate (Some P) (Bash_Access cmd) cwd auto_mode"
  shows "(\<exists>r. policy_decision p = Some (Reject r)) \<longleftrightarrow>
      (\<exists>r. pf_direct p = Some (Reject r)) \<or> (\<exists>r. pf_bash p = Some (Gate_Reject r)) \<or>
      (\<exists>r. pf_file p = Some (Gate_Reject r))"
  using preflight_direct[OF assms] gate_verdicts[of "pf_bash p"] gate_verdicts[of "pf_file p"]
  unfolding policy_decision_def by (elim disjE exE insertE emptyE; simp)

text \<open>The decision of the preflight is the strongest of its three verdicts, a rejection before an
  ask before an allowance, and an ask that no rule asked for, only a gate that could not see
  through the script, may be left to the classifier, in auto mode only.\<close>

theorem preflight_decision:
  assumes "p = evaluate_preflight E file_gate (Some P) (Bash_Access cmd) cwd auto_mode"
  shows "((\<exists>r. policy_decision p = Some (Reject r)) \<longleftrightarrow>
      (\<exists>r. pf_direct p = Some (Reject r)) \<or> (\<exists>r. pf_bash p = Some (Gate_Reject r)) \<or>
      (\<exists>r. pf_file p = Some (Gate_Reject r))) \<and>
    (policy_decision p = Some Allow \<longleftrightarrow> pf_direct p = Some Allow \<and> pf_bash p = None \<and> pf_file p = None) \<and>
    (policy_decision p = Some Ask \<longrightarrow>
      (admits_auto_classifier p \<longleftrightarrow>
        auto_mode \<and> pf_direct p \<noteq> Some Ask \<and> pf_bash p \<noteq> Some AskRuleMatch \<and> pf_file p \<noteq> Some AskRuleMatch))"
  using preflight_rejects[OF assms] preflight_direct[OF assms] gate_verdicts[of "pf_bash p"]
    gate_verdicts[of "pf_file p"] preflight_parts(4)[OF assms]
  unfolding policy_decision_def admits_auto_classifier_def policy_forced_prompt_def
  by (elim disjE exE insertE emptyE; simp)

theorem preflight_decision_witness:
  "\<exists>r. policy_decision (evaluate_preflight demo_policy_env (\<lambda>_ _. Some AskFailClosed)
      (Some (demo_policy [rule Deny_Rule Bash_Tool ''rm''])) (Bash_Access (u ''rm'')) (u ''/'') True) = Some (Reject r)"
proof -
  let ?p = "evaluate_preflight demo_policy_env (\<lambda>_ _. Some AskFailClosed)
      (Some (demo_policy [rule Deny_Rule Bash_Tool ''rm''])) (Bash_Access (u ''rm'')) (u ''/'') True"
  have "\<exists>r. pf_direct ?p = Some (Reject r)"
    by (simp add: evaluate_preflight_def Let_def evaluate_with_cwd_def demo_eval)
  then show ?thesis using preflight_decision[OF refl, of demo_policy_env "\<lambda>_ _. Some AskFailClosed"
      "demo_policy [rule Deny_Rule Bash_Tool ''rm'']" "u ''rm''" "u ''/''" True] by blast
qed

section \<open>A demonstration\<close>

abbreviation demo_words :: words where "demo_words \<equiv> [u ''bash'', u ''-c'', u ''ls'']"

abbreviation demo_script :: ustr where "demo_script \<equiv> u ''bash -c ls''"

lemma demo_commands:
  "pv_commands demo_policy_env demo_script = Some [demo_words]"
  "pv_commands demo_policy_env (u ''ls'') = Some [[u ''ls'']]"
  by (simp_all add: demo_policy_env_def u_def)

lemma demo_normal: "normalize_command_words demo_words = unpeeled demo_words"
  "normalize_command_words [u ''ls''] = unpeeled [u ''ls'']"
  by (simp_all add: normalize_plain head_eval)

lemma demo_inline:
  "shell_dash_c_script [Literal (u ''bash''), Literal (u ''-c''), Literal (u ''ls'')] = Script 2"
  "shell_dash_c_script [Literal (u ''ls'')] = NotInline"
  "env_split_string_script demo_words = None" "env_split_string_script [u ''ls''] = None"
  by (simp_all add: shell_dash_c_script_def is_shell_def base_name_def option_turn_def script_at_def
      plain_end_def dashed_def double_dashed_def has_pre_def u_def env_split_string_script_def head_name_def)

lemma demo_inner: "inline_of demo_words = Some (u ''ls'')" "packed_of demo_words = None"
  "inline_of [u ''ls''] = None" "packed_of [u ''ls''] = None"
  by (simp_all add: inline_of_def packed_of_def demo_normal demo_inline)

lemma script_runs: "runs demo_policy_env 1 demo_script [u ''ls'']"
  using runs.inner[OF demo_commands(1), of demo_words "u ''ls''" 0 "[u ''ls'']"]
    runs.direct[OF demo_commands(2), of "[u ''ls'']" 0] by (simp add: demo_inner)

lemma demo_all_runs:
  assumes "runs demo_policy_env m demo_script ws"
  shows "length ws - length (full_peel ws) < max_normalize_rounds"
proof -
  have inner: "ws = [u ''ls'']" if "runs demo_policy_env m (u ''ls'') ws" for m
    using that by (rule runs_elim) (auto simp: demo_commands demo_inner)
  have "ws = demo_words \<or> ws = [u ''ls'']"
    using assms
  proof (rule runs_elim)
    fix segs w script n
    assume "pv_commands demo_policy_env demo_script = Some segs" "w \<in> set segs"
      "inline_of w = Some script \<or> packed_of w = Some script" "runs demo_policy_env n script ws"
    moreover from this have "w = demo_words" by (auto simp: demo_commands)
    ultimately show ?thesis using inner by (simp add: demo_inner)
  qed (auto simp: demo_commands)
  then show ?thesis
    by (auto simp: max_normalize_rounds_def max_wrapper_depth_def max_transparent_prefix_depth_def)
qed

section \<open>Scripts\<close>

text \<open>C35: a script that runs a command to which a deny rule applies is rejected, wherever the command stands in a
  chain, in an inline \<open>sh -c\<close> script or an \<open>env -S\<close> one, when it is nested at most eight scripts
  deep and the rule applies to its words as they are written or as the code normalizes them, which peels a
  bounded number of wrappers. It says nothing of deeper scripts, of wrappers that the normalization does not
  know or does not get to the end of, or of text the shell parser gives no commands for.\<close>

theorem denied_command_rejects_script:
  assumes "runs E n cmd ws" "n \<le> max_inline_shell_depth"
    and "some_rule E (compile_policy E c) (Bash_Access (join [32] ws)) None Deny_Rule \<or>
      some_rule E (compile_policy E c) (Bash_Access (join [32] (nc_words (normalize_command_words ws)))) None Deny_Rule"
  shows "\<exists>r. policy_decision (evaluate_preflight E file_gate (Some (compile_policy E c)) (Bash_Access cmd) cwd auto_mode) =
    Some (Reject r)"
proof -
  let ?p = "evaluate_preflight E file_gate (Some (compile_policy E c)) (Bash_Access cmd) cwd auto_mode"
  have "3 \<le> gate_weight (evaluate_bash_command_segments E (compile_policy E c) max_inline_shell_depth cmd)"
    using gate_heeds_runs[OF assms(1,2), of "compile_policy E c"] assms(3) escalate_weight(1) le_trans by blast
  moreover have "cp_bash (compile_policy E c)" using assms(3) denied_bash_restricts by blast
  ultimately have "\<exists>r. pf_bash ?p = Some (Gate_Reject r)"
    by (simp add: preflight_parts(2)[OF refl] evaluate_bash_command_gate_def gate_reject_iff)
  then show ?thesis using preflight_rejects[OF refl] by blast
qed

theorem denied_command_rejects_script_witness:
  "\<exists>r. policy_decision (evaluate_preflight demo_policy_env (\<lambda>_ _. None)
      (Some (demo_policy [rule Deny_Rule Bash_Tool ''ls''])) (Bash_Access demo_script) (u ''/'') False) = Some (Reject r)"
proof -
  have "some_rule demo_policy_env (demo_policy [rule Deny_Rule Bash_Tool ''ls'']) (Bash_Access (join [32] [u ''ls''])) None Deny_Rule"
    by (simp add: some_rule_def demo_eval)
  then show ?thesis
    by (intro denied_command_rejects_script[OF script_runs]) (simp_all add: max_inline_shell_depth_def)
qed

text \<open>Where the gate has no objection to a script, it has seen every command the script runs, at any
  depth: each one normalizes without a flag, and no deny or ask rule applies to it, as written or
  with all its wrappers and prefixes peeled.\<close>

theorem silent_gate_has_seen_all:
  assumes "runs E n cmd ws" "evaluate_bash_command_gate E (compile_policy E c) cmd = None"
    "list_ex (\<lambda>r. restricts r \<and> pr_tool r \<in> {Bash_Tool, Any_Tool}) (pc_rules c)"
  shows "clean (normalize_command_words ws) \<and>
    list_all (\<lambda>s. \<not> some_rule E (compile_policy E c) (Bash_Access (join [32] s)) None Deny_Rule \<and>
      \<not> some_rule E (compile_policy E c) (Bash_Access (join [32] s)) None Ask_Rule) [ws, full_peel ws]"
proof -
  have "evaluate_bash_command_segments E (compile_policy E c) max_inline_shell_depth cmd = None"
    using assms(2,3) by (simp add: evaluate_bash_command_gate_def compile_policy_def)
  from silent_gate_runs[OF assms(1) this] show ?thesis by (simp add: escalate_weight(2))
qed

theorem silent_gate_has_seen_all_witness:
  "\<not> some_rule demo_policy_env (demo_policy [rule Deny_Rule Bash_Tool ''rm'']) (Bash_Access (u ''ls'')) None Deny_Rule"
proof -
  let ?P = "demo_policy [rule Deny_Rule Bash_Tool ''rm'']"
  have e: "escalate demo_policy_env ?P [u ''ls''] = None" "escalate demo_policy_env ?P demo_words = None"
    by (simp_all add: escalate_def evaluate_def evaluate_with_cwd_def demo_eval)
  have "evaluate_bash_command_segments demo_policy_env ?P (Suc (Suc n)) demo_script = None" for n
    by (simp add: script_gate_def demo_commands evaluate_command_words_def demo_normal demo_inline e
        ask_floor_def inner_script_def Let_def)
  from this[of 6] have "evaluate_bash_command_gate demo_policy_env ?P demo_script = None"
    by (simp add: evaluate_bash_command_gate_def max_inline_shell_depth_def)
  from silent_gate_has_seen_all[OF script_runs this] show ?thesis by (simp add: rules_def rule_def restricts_def)
qed



section \<open>A hidden command\<close>

abbreviation deep_words :: "words \<Rightarrow> words" where
  "deep_words ws \<equiv> concat (replicate max_normalize_rounds hide) @ ws"

text \<open>The gate asks about an \<open>env -S\<close> whose payload it cannot read, but says nothing of the same command
  behind one \<open>timeout 1 command\<close> for each round of the normalization, so a deny rule on the packed
  command is passed by.\<close>

theorem deep_prefixes_silence_gate:
  assumes "opaque_env ws" "\<not> dashed (hd ws)" "es_script (env_scan ws) = None" "cp_bash P"
    and "pv_commands E short = Some [ws]" "pv_commands E long = Some [deep_words ws]"
    and "escalate E P ws = None" "escalate E P (deep_words ws) = None"
  shows "evaluate_bash_command_gate E P short \<noteq> None \<and> evaluate_bash_command_gate E P long = None"
proof
  let ?inner = "gate_level E P max_inline_shell_depth"
  note deep = deep_prefixes_hide_env[OF assms(1,2)]
  have "heeds (Some AskFailClosed) (script_gate E P ?inner short)"
    using command_heeds(4)[of ws E P ?inner] segment_heeds[OF assms(5), of ws P ?inner] deep by force
  then show "evaluate_bash_command_gate E P short \<noteq> None"
    using gate_some_iff[of "script_gate E P ?inner short"] assms(4)
    by (simp add: evaluate_bash_command_gate_def gate_level_eq)
  have env: "head_name ws = Some (u ''env'')" using assms(1) by (simp add: opaque_env_def)
  then have "shell_dash_c_script (map Literal ws) = NotInline"
    by (cases ws) (simp_all add: head_name_def shell_dash_c_script_def is_shell_def u_def)
  moreover have "env_split_string_script ws = None" using assms(3) by (simp add: env_split_string_script_def)
  ultimately have "evaluate_command_words E P ?inner (deep_words ws) = None"
    using deep assms(7,8) by (simp add: evaluate_command_words_def Let_def ask_floor_def)
  then show "evaluate_bash_command_gate E P long = None"
    using assms(6) by (simp add: evaluate_bash_command_gate_def gate_level_eq script_gate_def)
qed

definition packed_words :: words where
  "packed_words = [u ''env'', u ''-S'', [114, 109, 32, 39, 120, 39]]"

definition packed_env :: "unit policy_env" where
  "packed_env = demo_policy_env\<lparr>pv_commands :=
     (\<lambda>cmd. Some [if cmd = u ''long'' then deep_words packed_words else packed_words])\<rparr>"

theorem deep_prefixes_silence_gate_witness:
  "evaluate_bash_command_gate packed_env (demo_policy [rule Deny_Rule Bash_Tool ''rm'']) (u ''short'') \<noteq> None \<and>
   evaluate_bash_command_gate packed_env (demo_policy [rule Deny_Rule Bash_Tool ''rm'']) (u ''long'') = None"
proof (rule deep_prefixes_silence_gate[where ws = packed_words])
  have scan: "env_scan packed_words = scan_split None None (tl packed_words)"
    by (simp add: packed_words_def env_scan_def env_turn_def short_turn_def classify_env_short_def
        decode_env_option_token_def dashed_def double_dashed_def has_pre_def u_def next_payload_def
        take_high_confidence_payload_def is_high_confidence_env_s_payload_def)
  then show "opaque_env packed_words" "es_script (env_scan packed_words) = None"
    by (simp_all add: opaque_env_def head_name_def packed_words_def base_name_def u_def)
  show "\<not> dashed (hd packed_words)" by (simp add: packed_words_def dashed_def has_pre_def u_def)
  have "\<exists>rest. concat (replicate (Suc n) hide) @ packed_words = u ''timeout'' # rest" for n by simp
  from this[of 15] have long: "\<exists>rest. deep_words packed_words = u ''timeout'' # rest"
    by (simp add: max_normalize_rounds_def max_wrapper_depth_def max_transparent_prefix_depth_def)
  have e: "escalate packed_env (demo_policy [rule Deny_Rule Bash_Tool ''rm'']) (w # ws) = None"
    if "w = u ''timeout'' \<or> w = u ''env''" for w ws
    using that by (cases ws) (auto simp: escalate_def evaluate_def evaluate_with_cwd_def packed_env_def demo_eval)
  show "escalate packed_env (demo_policy [rule Deny_Rule Bash_Tool ''rm'']) (deep_words packed_words) = None"
    using long e by auto
  show "escalate packed_env (demo_policy [rule Deny_Rule Bash_Tool ''rm'']) packed_words = None"
    unfolding packed_words_def by (rule e) simp
qed (simp_all add: packed_env_def demo_eval)

end
