(* ===== verification/Plan_Mode.thy ===== *)
theory Plan_Mode
  imports Path_Text Prelude
begin

text \<open>
  Plan mode (\<open>xai-grok-shell/src/session/plan_mode.rs\<close>): the life cycle of the mode, and the session
  around it (\<open>session_mode.rs\<close>, \<open>session_setup.rs\<close>, \<open>turn_end.rs\<close>, \<open>notification_bridge.rs\<close>, and of
  \<open>tool_calls.rs\<close> the decision on a plan whose dialog is shown again after a resume) that tells the
  model about it by reminders. Rendering a template is a parameter that may fail; the texts of the
  reminders are their kinds. What the model has been told is read off the signals in its
  conversation.
\<close>

section \<open>The tracker\<close>

datatype plan_state = Plan_Inactive | Plan_Pending | Plan_Active | Plan_ExitPending

datatype plan_signal = Full_Reminder | Sparse_Reminder | Reentry_Reminder | Exit_Reminder | Tool_Entered | Tool_Exited
| Plan_Approved

text \<open>A buffered reminder carries the value of \<open>pt_previously\<close> to go back to.\<close>

record plan_tracker =
  pt_state :: plan_state
  pt_previously :: bool
  pt_count :: nat
  pt_exit :: bool
  pt_awaiting :: bool
  pt_pending :: "(plan_signal \<times> bool) option"
  pt_file :: ustr

record plan_snapshot =
  sn_state :: plan_state
  sn_previously :: bool
  sn_count :: nat
  sn_exit :: bool
  sn_awaiting :: bool

definition plan_file_in :: "ustr \<Rightarrow> ustr" where
  "plan_file_in dir = join_path dir (u ''plan.md'')"

definition plan_tracker_at :: "ustr \<Rightarrow> plan_tracker" where
  "plan_tracker_at dir =
     \<lparr>pt_state = Plan_Inactive, pt_previously = False, pt_count = 0, pt_exit = False, pt_awaiting = False,
      pt_pending = None, pt_file = plan_file_in dir\<rparr>"

definition tracker_from_snapshot :: "ustr \<Rightarrow> plan_snapshot \<Rightarrow> plan_tracker" where
  "tracker_from_snapshot dir s =
     \<lparr>pt_state = (case sn_state s of Plan_Pending \<Rightarrow> Plan_Inactive | Plan_ExitPending \<Rightarrow> Plan_Inactive | x \<Rightarrow> x),
      pt_previously = sn_previously s, pt_count = sn_count s,
      pt_exit = (sn_exit s \<or> sn_state s = Plan_ExitPending), pt_awaiting = sn_awaiting s,
      pt_pending = None, pt_file = plan_file_in dir\<rparr>"

definition snapshot_of :: "plan_tracker \<Rightarrow> plan_snapshot" where
  "snapshot_of t =
     \<lparr>sn_state = pt_state t, sn_previously = pt_previously t, sn_count = pt_count t, sn_exit = pt_exit t,
      sn_awaiting = pt_awaiting t\<rparr>"

definition plan_is_active :: "plan_tracker \<Rightarrow> bool" where
  "plan_is_active t \<longleftrightarrow> pt_state t = Plan_Active"

definition is_plan_file_write :: "ustr \<Rightarrow> ustr \<Rightarrow> bool" where
  "is_plan_file_write target file \<longleftrightarrow> components target = components file"

definition should_auto_approve_edit :: "plan_tracker \<Rightarrow> ustr \<Rightarrow> bool" where
  "should_auto_approve_edit t path \<longleftrightarrow> plan_is_active t \<and> is_plan_file_write path (pt_file t)"

definition is_reentry :: "plan_tracker \<Rightarrow> bool" where
  "is_reentry t \<longleftrightarrow> pt_previously t \<and> pt_state t = Plan_Pending"

text \<open>Each operation returns the tracker, and whether it changed where the code says so.\<close>

definition enter_pending :: "plan_tracker \<Rightarrow> plan_tracker \<times> bool" where
  "enter_pending t =
     (case pt_state t of
        Plan_Inactive \<Rightarrow> (t\<lparr>pt_state := Plan_Pending, pt_exit := False\<rparr>, True)
      | Plan_ExitPending \<Rightarrow> (t\<lparr>pt_state := Plan_Active, pt_exit := False\<rparr>, True)
      | _ \<Rightarrow> (t, False))"

definition activate :: "plan_tracker \<Rightarrow> plan_tracker \<times> bool" where
  "activate t =
     (if pt_state t \<noteq> Plan_Pending then (t, False)
      else (t\<lparr>pt_state := Plan_Active, pt_previously := True, pt_count := 0\<rparr>, True))"

definition activate_mid_turn :: "plan_signal \<Rightarrow> plan_tracker \<Rightarrow> plan_tracker \<times> bool" where
  "activate_mid_turn reminder t =
     (if pt_state t \<noteq> Plan_Pending then (t, False)
      else (t\<lparr>pt_state := Plan_Active, pt_previously := True, pt_count := 0,
              pt_pending := Some (reminder, pt_previously t)\<rparr>, True))"

definition take_pending_activation :: "plan_tracker \<Rightarrow> plan_tracker \<times> plan_signal option" where
  "take_pending_activation t = (t\<lparr>pt_pending := None\<rparr>, map_option fst (pt_pending t))"

definition activate_from_tool :: "plan_tracker \<Rightarrow> plan_tracker \<times> bool" where
  "activate_from_tool t =
     (if pt_state t \<noteq> Plan_Inactive then (t, False)
      else (t\<lparr>pt_state := Plan_Active, pt_previously := True, pt_count := 0, pt_exit := False\<rparr>, True))"

definition deactivate_approved :: "plan_tracker \<Rightarrow> plan_tracker \<times> bool" where
  "deactivate_approved t =
     (if pt_state t \<noteq> Plan_Active then (t, False)
      else (t\<lparr>pt_state := Plan_Inactive, pt_count := 0, pt_awaiting := False, pt_pending := None\<rparr>, True))"

definition user_exit :: "bool \<Rightarrow> plan_tracker \<Rightarrow> plan_tracker" where
  "user_exit in_flight t =
     (let t1 = t\<lparr>pt_awaiting := False, pt_pending := None\<rparr> in
      case (pt_pending t, pt_state t) of
        (Some (_, before), Plan_Active) \<Rightarrow> t1\<lparr>pt_state := Plan_Inactive, pt_previously := before\<rparr>
      | (_, Plan_Pending) \<Rightarrow> t1\<lparr>pt_state := Plan_Inactive\<rparr>
      | (_, Plan_Active) \<Rightarrow>
          if in_flight then t1\<lparr>pt_state := Plan_ExitPending\<rparr>
          else t1\<lparr>pt_state := Plan_Inactive, pt_exit := True\<rparr>
      | _ \<Rightarrow> t1)"

definition complete_deferred_exit :: "plan_tracker \<Rightarrow> plan_tracker" where
  "complete_deferred_exit t =
     (if pt_state t \<noteq> Plan_ExitPending then t else t\<lparr>pt_state := Plan_Inactive, pt_exit := True\<rparr>)"

definition queue_exit_reminder :: "plan_tracker \<Rightarrow> plan_tracker" where
  "queue_exit_reminder t = t\<lparr>pt_exit := True\<rparr>"

definition record_reminder_injected :: "plan_tracker \<Rightarrow> plan_tracker" where
  "record_reminder_injected t = t\<lparr>pt_count := pt_count t + 1\<rparr>"

definition clear_pending_exit_reminder :: "plan_tracker \<Rightarrow> plan_tracker" where
  "clear_pending_exit_reminder t = t\<lparr>pt_exit := False\<rparr>"

definition reset_after_compaction :: "plan_tracker \<Rightarrow> plan_tracker" where
  "reset_after_compaction t =
     (if pt_state t = Plan_Active then t\<lparr>pt_count := 0, pt_pending := None\<rparr> else t)"

definition set_awaiting_plan_approval :: "bool \<Rightarrow> plan_tracker \<Rightarrow> plan_tracker" where
  "set_awaiting_plan_approval b t = t\<lparr>pt_awaiting := b\<rparr>"

section \<open>The session\<close>

text \<open>The queue holds the turns that a decision on a resumed plan has started: \<open>True\<close> for the one that says
  that the plan was approved.\<close>

record plan_session =
  se_dir :: ustr
  se_tracker :: plan_tracker
  se_signals :: "plan_signal list"
  se_running :: bool
  se_queue :: "bool list"

definition on_tracker :: "(plan_tracker \<Rightarrow> plan_tracker) \<Rightarrow> plan_session \<Rightarrow> plan_session" where
  "on_tracker f s = s\<lparr>se_tracker := f (se_tracker s)\<rparr>"

definition signal :: "plan_signal \<Rightarrow> plan_session \<Rightarrow> plan_session" where
  "signal x s = s\<lparr>se_signals := se_signals s @ [x]\<rparr>"

text \<open>A reminder is counted when it could be rendered.\<close>

definition remind :: "(plan_signal \<Rightarrow> bool) \<Rightarrow> plan_signal \<Rightarrow> plan_session \<Rightarrow> plan_session" where
  "remind renders x s = (if renders x then on_tracker record_reminder_injected (signal x s) else s)"

definition activation_template :: "plan_tracker \<Rightarrow> plan_signal" where
  "activation_template t = (if is_reentry t then Reentry_Reminder else Full_Reminder)"

definition turn_reminder :: "plan_tracker \<Rightarrow> plan_signal" where
  "turn_reminder t = (if even (pt_count t) then Full_Reminder else Sparse_Reminder)"

definition inject_plan_mode_reminders :: "(plan_signal \<Rightarrow> bool) \<Rightarrow> plan_session \<Rightarrow> plan_session" where
  "inject_plan_mode_reminders renders s =
     (let t = se_tracker s; first = activation_template t; entering = (pt_state t = Plan_Pending);
          s1 = (if entering then remind renders first (on_tracker (fst \<circ> activate) s) else s);
          s2 = (if \<not> (entering \<and> renders first) \<and> plan_is_active (se_tracker s1)
                then remind renders (turn_reminder (se_tracker s1)) s1 else s1)
      in if pt_exit (se_tracker s2)
         then on_tracker clear_pending_exit_reminder (if renders Exit_Reminder then signal Exit_Reminder s2 else s2)
         else s2)"

definition activate_plan_mode_mid_turn :: "(plan_signal \<Rightarrow> bool) \<Rightarrow> plan_session \<Rightarrow> plan_session" where
  "activate_plan_mode_mid_turn renders s =
     (let t = se_tracker s; first = activation_template t in
      if pt_state t \<noteq> Plan_Pending then s
      else if renders first then on_tracker (fst \<circ> activate_mid_turn first) s
      else on_tracker (fst \<circ> activate) s)"

definition flush_pending :: "plan_session \<Rightarrow> plan_session" where
  "flush_pending s =
     (case take_pending_activation (se_tracker s) of
        (t, None) \<Rightarrow> s
      | (t, Some x) \<Rightarrow> on_tracker record_reminder_injected (signal x (s\<lparr>se_tracker := t\<rparr>)))"

text \<open>When a session is resumed whose plan waits for approval, the dialog is shown again; where there is no
  plan, only the flag is cleared. The decision of the dialog is awaited and can come at any later moment,
  after the user has left plan mode too, so nothing is asked of the state: with it the flag is cleared,
  and approving or revising starts a turn.\<close>

datatype resume_action = Leave_And_Implement | Stay_And_Revise | Leave_Only

definition leave_plan_mode_to_default :: "plan_session \<Rightarrow> plan_session" where
  "leave_plan_mode_to_default s = on_tracker (fst \<circ> deactivate_approved) s"

definition start_resume_turn :: "bool \<Rightarrow> plan_session \<Rightarrow> plan_session" where
  "start_resume_turn approved s = s\<lparr>se_queue := se_queue s @ [approved]\<rparr>"

definition resume_plan_approval :: "resume_action \<Rightarrow> plan_session \<Rightarrow> plan_session" where
  "resume_plan_approval action s =
     (let s1 = on_tracker (set_awaiting_plan_approval False) s in
      case action of
        Leave_Only \<Rightarrow> leave_plan_mode_to_default s1
      | Stay_And_Revise \<Rightarrow> start_resume_turn False s1
      | Leave_And_Implement \<Rightarrow> start_resume_turn True (leave_plan_mode_to_default s1))"

text \<open>Such a turn is synthetic: it declares no mode.\<close>

definition run_resume_turn :: "(plan_signal \<Rightarrow> bool) \<Rightarrow> plan_session \<Rightarrow> plan_session" where
  "run_resume_turn renders s =
     (case se_queue s of
        [] \<Rightarrow> s
      | approved # rest \<Rightarrow>
          let s1 = inject_plan_mode_reminders renders (s\<lparr>se_queue := rest\<rparr>) in
          (if approved then signal Plan_Approved s1 else s1)\<lparr>se_running := True\<rparr>)"

text \<open>What the client, the model and the turns do. A prompt may declare its mode. A queued turn can be removed
  by the user. A restart finds the snapshot of the last state, which every transition has stored, and
  an empty queue.\<close>

datatype plan_event =
  Toggle_On | Toggle_Off | Prompt "bool option" | Flush | Turn_End | Enter_Tool | Exit_Tool bool | Compacted
| Approval_Parked bool | Restart | Resume_Decision resume_action | Resume_Turn | Remove_Queued nat

definition leave :: "bool \<Rightarrow> plan_session \<Rightarrow> plan_session" where
  "leave in_flight s =
     (if pt_state (se_tracker s) \<noteq> Plan_Inactive then on_tracker (user_exit in_flight) s else s)"

definition reconcile :: "bool option \<Rightarrow> plan_session \<Rightarrow> plan_session" where
  "reconcile declared s =
     (case declared of
        None \<Rightarrow> s
      | Some plan \<Rightarrow> if plan then on_tracker (fst \<circ> enter_pending) s else leave False s)"

fun plan_step :: "(plan_signal \<Rightarrow> bool) \<Rightarrow> plan_event \<Rightarrow> plan_session \<Rightarrow> plan_session" where
  "plan_step renders Toggle_On s =
     (let s1 = on_tracker (fst \<circ> enter_pending) s in
      if snd (enter_pending (se_tracker s)) \<and> se_running s then activate_plan_mode_mid_turn renders s1 else s1)"
| "plan_step renders Toggle_Off s = leave (se_running s) s"
| "plan_step renders (Prompt declared) s =
     inject_plan_mode_reminders renders (reconcile declared s)\<lparr>se_running := True\<rparr>"
| "plan_step renders Flush s = flush_pending s"
| "plan_step renders Turn_End s = (on_tracker complete_deferred_exit s)\<lparr>se_running := False\<rparr>"
| "plan_step renders Enter_Tool s =
     (case activate_from_tool (se_tracker s) of
        (t, changed) \<Rightarrow> if changed then signal Tool_Entered (s\<lparr>se_tracker := t\<rparr>) else s)"
| "plan_step renders (Exit_Tool silent) s =
     (case deactivate_approved (se_tracker s) of
        (t, changed) \<Rightarrow>
          if \<not> changed then s
          else if silent then s\<lparr>se_tracker := queue_exit_reminder t\<rparr>
          else signal Tool_Exited (s\<lparr>se_tracker := t\<rparr>))"
| "plan_step renders Compacted s = on_tracker reset_after_compaction s"
| "plan_step renders (Approval_Parked b) s = on_tracker (set_awaiting_plan_approval b) s"
| "plan_step renders Restart s =
     s\<lparr>se_tracker := tracker_from_snapshot (se_dir s) (snapshot_of (se_tracker s)), se_running := False,
       se_queue := []\<rparr>"
| "plan_step renders (Resume_Decision action) s = resume_plan_approval action s"
| "plan_step renders Resume_Turn s = run_resume_turn renders s"
| "plan_step renders (Remove_Queued i) s = s\<lparr>se_queue := take i (se_queue s) @ drop (Suc i) (se_queue s)\<rparr>"

definition start_session :: "ustr \<Rightarrow> plan_session" where
  "start_session dir = \<lparr>se_dir = dir, se_tracker = plan_tracker_at dir, se_signals = [], se_running = False, se_queue = []\<rparr>"

section \<open>What the model has been told\<close>

fun opens :: "plan_signal \<Rightarrow> bool" where
  "opens Exit_Reminder = False"
| "opens Tool_Exited = False"
| "opens Plan_Approved = False"
| "opens x = True"

definition told :: "plan_session \<Rightarrow> bool" where
  "told s \<longleftrightarrow> se_signals s \<noteq> [] \<and> opens (last (se_signals s))"

end
