(* ===== verification/Plan_Properties.thy ===== *)
theory Plan_Properties
  imports Plan_Mode
begin

text \<open>
  The properties of plan mode: the invariant of its tracker, and what the model has been told when
  the mode is off.
\<close>

lemmas plan_defs = enter_pending_def activate_def activate_mid_turn_def take_pending_activation_def
  activate_from_tool_def deactivate_approved_def user_exit_def complete_deferred_exit_def
  queue_exit_reminder_def record_reminder_injected_def clear_pending_exit_reminder_def
  reset_after_compaction_def set_awaiting_plan_approval_def tracker_from_snapshot_def snapshot_of_def
  plan_is_active_def

lemmas session_defs = on_tracker_def signal_def remind_def inject_plan_mode_reminders_def
  activate_plan_mode_mid_turn_def flush_pending_def leave_def reconcile_def Let_def

lemmas resume_defs = resume_plan_approval_def leave_plan_mode_to_default_def start_resume_turn_def

section \<open>The invariant\<close>

definition plan_tracker_ok :: "ustr \<Rightarrow> plan_tracker \<Rightarrow> bool" where
  "plan_tracker_ok dir t \<longleftrightarrow>
     pt_file t = plan_file_in dir \<and> (pt_pending t \<noteq> None \<longrightarrow> pt_state t = Plan_Active) \<and>
     (pt_state t \<in> {Plan_Active, Plan_ExitPending} \<longrightarrow> pt_previously t)"

lemma reconcile_ok:
  assumes "plan_tracker_ok dir (se_tracker s)"
  shows "plan_tracker_ok dir (se_tracker (reconcile d s)) \<and> se_dir (reconcile d s) = se_dir s"
  using assms by (cases "pt_state (se_tracker s)"; cases "pt_pending (se_tracker s)")
    (auto simp: plan_tracker_ok_def reconcile_def leave_def on_tracker_def enter_pending_def user_exit_def Let_def split: option.split)

lemma remind_shape [simp]:
  "pt_state (se_tracker (remind renders x s)) = pt_state (se_tracker s)"
  "pt_pending (se_tracker (remind renders x s)) = pt_pending (se_tracker s)"
  "pt_previously (se_tracker (remind renders x s)) = pt_previously (se_tracker s)"
  "pt_exit (se_tracker (remind renders x s)) = pt_exit (se_tracker s)"
  "pt_file (se_tracker (remind renders x s)) = pt_file (se_tracker s)" "se_dir (remind renders x s) = se_dir s"
  by (simp_all add: remind_def on_tracker_def signal_def record_reminder_injected_def)

lemma inject_shape:
  assumes "s' = inject_plan_mode_reminders renders s"
  shows "pt_state (se_tracker s') = (if pt_state (se_tracker s) = Plan_Pending then Plan_Active else pt_state (se_tracker s))"
    "pt_pending (se_tracker s') = pt_pending (se_tracker s)" "\<not> pt_exit (se_tracker s')"
    "pt_previously (se_tracker s') = (pt_previously (se_tracker s) \<or> pt_state (se_tracker s) = Plan_Pending)"
    "pt_file (se_tracker s') = pt_file (se_tracker s)" "se_dir s' = se_dir s"
  using assms by (simp_all add: inject_plan_mode_reminders_def on_tracker_def signal_def activate_def
      clear_pending_exit_reminder_def Let_def)

lemma inject_ok:
  "plan_tracker_ok dir (se_tracker s) \<Longrightarrow> plan_tracker_ok dir (se_tracker (inject_plan_mode_reminders renders s))"
  by (auto simp: plan_tracker_ok_def inject_shape[OF refl])

lemma run_resume_turn_shape:
  "se_tracker (run_resume_turn renders s) =
     (if se_queue s = [] then se_tracker s
      else se_tracker (inject_plan_mode_reminders renders (s\<lparr>se_queue := tl (se_queue s)\<rparr>)))"
  "se_dir (run_resume_turn renders s) = se_dir s"
  by (simp_all add: run_resume_turn_def signal_def inject_shape(6)[OF refl] Let_def split: list.split)

lemma tracker_ok_step:
  assumes "plan_tracker_ok (se_dir s) (se_tracker s)"
  shows "plan_tracker_ok (se_dir (plan_step renders e s)) (se_tracker (plan_step renders e s)) \<and>
    se_dir (plan_step renders e s) = se_dir s"
proof (cases e)
  case (Prompt d)
  then show ?thesis using inject_ok reconcile_ok[OF assms] by (simp add: inject_shape(6)[OF refl])
next
  case Resume_Turn
  then show ?thesis using assms inject_ok[of "se_dir s" "s\<lparr>se_queue := tl (se_queue s)\<rparr>" renders]
    by (simp add: run_resume_turn_shape)
next
  case (Resume_Decision a)
  then show ?thesis using assms by (cases a; cases "pt_state (se_tracker s)")
    (auto simp: plan_tracker_ok_def plan_defs on_tracker_def resume_defs Let_def)
qed (use assms in \<open>cases "pt_state (se_tracker s)"; cases "pt_pending (se_tracker s)";
  auto simp: plan_tracker_ok_def plan_defs on_tracker_def signal_def activate_plan_mode_mid_turn_def flush_pending_def
    leave_def Let_def plan_file_in_def\<close>)+

fun run_plan :: "(plan_signal \<Rightarrow> bool) \<Rightarrow> plan_event list \<Rightarrow> plan_session \<Rightarrow> plan_session" where
  "run_plan renders [] s = s"
| "run_plan renders (e # es) s = run_plan renders es (plan_step renders e s)"

lemma run_plan_ok: "plan_tracker_ok (se_dir s) (se_tracker s) \<Longrightarrow>
    plan_tracker_ok (se_dir s) (se_tracker (run_plan renders es s))"
  by (induction es arbitrary: s) (simp, metis run_plan.simps(2) tracker_ok_step)

text \<open>Whatever happens in a session, a buffered activation reminder exists only while the mode is
  active, an active or ending mode is known to have been entered, and the plan file is the one of
  the session's directory.\<close>

theorem reachable_tracker_shape:
  "let t = se_tracker (run_plan renders es (start_session dir)) in
     pt_file t = plan_file_in dir \<and> (pt_pending t \<noteq> None \<longrightarrow> pt_state t = Plan_Active) \<and>
     (pt_state t \<in> {Plan_Active, Plan_ExitPending} \<longrightarrow> pt_previously t)"
  using run_plan_ok[of "start_session dir" renders es]
  by (simp add: start_session_def plan_tracker_at_def plan_tracker_ok_def Let_def)

theorem reachable_tracker_shape_witness:
  "pt_state (se_tracker (run_plan (\<lambda>_. True) [Prompt None, Toggle_On] (start_session (u ''/s'')))) = Plan_Active"
  using reachable_tracker_shape[of "\<lambda>_. True" "[Prompt None, Toggle_On]" "u ''/s''"]
  by (simp add: start_session_def plan_tracker_at_def plan_defs session_defs)

section \<open>Being told\<close>

text \<open>The runs in which the mode is not switched on again while the model still has to hear that it is
  off, no turn starts over a buffered reminder, the plan is not abandoned in the dialog of a resumed
  session, and the turn that says that the plan was approved is not lost from the queue.\<close>

inductive plan_reach :: "(plan_signal \<Rightarrow> bool) \<Rightarrow> ustr \<Rightarrow> plan_session \<Rightarrow> bool" for renders dir where
  start: "plan_reach renders dir (start_session dir)"
| step: "plan_reach renders dir s \<Longrightarrow>
    (e = Toggle_On \<Longrightarrow> pt_state (se_tracker s) = Plan_Inactive \<Longrightarrow> \<not> pt_exit (se_tracker s)) \<Longrightarrow>
    (\<And>d. e = Prompt d \<or> e = Resume_Turn \<Longrightarrow> pt_pending (se_tracker s) = None) \<Longrightarrow>
    e \<noteq> Resume_Decision Leave_Only \<Longrightarrow>
    (\<And>i. e = Restart \<or> e = Remove_Queued i \<Longrightarrow> True \<notin> set (se_queue s)) \<Longrightarrow>
    plan_reach renders dir (plan_step renders e s)"

definition told_ok :: "plan_session \<Rightarrow> bool" where
  "told_ok s \<longleftrightarrow>
     (told s \<and> pt_state (se_tracker s) \<in> {Plan_Inactive, Plan_Pending} \<longrightarrow>
        pt_exit (se_tracker s) \<or> True \<in> set (se_queue s)) \<and>
     (pt_pending (se_tracker s) \<noteq> None \<longrightarrow> \<not> told s \<or> True \<in> set (se_queue s))"

lemma told_simps [simp]:
  "told (s\<lparr>se_tracker := t\<rparr>) = told s" "told (s\<lparr>se_running := b\<rparr>) = told s"
  "told (s\<lparr>se_queue := q\<rparr>) = told s"
  "told (s\<lparr>se_signals := xs @ [x]\<rparr>) = opens x"
  by (simp_all add: told_def)

lemma opens_template [simp]: "opens (activation_template t)" "opens (turn_reminder t)"
  by (simp_all add: activation_template_def turn_reminder_def)

lemma remind_told [simp]: "told (remind renders x s) = (if renders x then opens x else told s)"
  by (simp add: remind_def on_tracker_def signal_def)

lemma inject_queue [simp]: "se_queue (inject_plan_mode_reminders renders s) = se_queue s"
  by (simp add: inject_plan_mode_reminders_def remind_def on_tracker_def signal_def Let_def)

lemma reconcile_queue [simp]: "se_queue (reconcile d s) = se_queue s"
  by (simp add: reconcile_def leave_def on_tracker_def split: option.split)

lemma inject_told:
  assumes "renders Exit_Reminder" "told s \<Longrightarrow> pt_state (se_tracker s) = Plan_Inactive \<Longrightarrow> pt_exit (se_tracker s)"
    and "pt_state (se_tracker s) = Plan_Inactive"
  shows "\<not> told (inject_plan_mode_reminders renders s)"
  using assms by (auto simp: inject_plan_mode_reminders_def on_tracker_def signal_def plan_is_active_def Let_def)

lemma reconcile_told:
  assumes "told_ok s" "pt_pending (se_tracker s) = None"
  shows "pt_pending (se_tracker (reconcile d s)) = None \<and>
    (told (reconcile d s) \<longrightarrow> pt_state (se_tracker (reconcile d s)) = Plan_Inactive \<longrightarrow>
      pt_exit (se_tracker (reconcile d s)) \<or> True \<in> set (se_queue s))"
  using assms by (cases "pt_state (se_tracker s)")
    (auto simp: told_ok_def reconcile_def leave_def on_tracker_def enter_pending_def user_exit_def Let_def split: option.split)

lemma told_ok_step:
  assumes "renders Exit_Reminder" "told_ok s" "plan_tracker_ok dir (se_tracker s)"
    and "e = Toggle_On \<Longrightarrow> pt_state (se_tracker s) = Plan_Inactive \<Longrightarrow> \<not> pt_exit (se_tracker s)"
    and "\<And>d. e = Prompt d \<or> e = Resume_Turn \<Longrightarrow> pt_pending (se_tracker s) = None"
    and "e \<noteq> Resume_Decision Leave_Only"
    and "\<And>i. e = Restart \<or> e = Remove_Queued i \<Longrightarrow> True \<notin> set (se_queue s)"
  shows "told_ok (plan_step renders e s)"
proof (cases e)
  case (Prompt d)
  let ?s = "reconcile d s"
  have r: "pt_pending (se_tracker ?s) = None"
    "told ?s \<Longrightarrow> pt_state (se_tracker ?s) = Plan_Inactive \<Longrightarrow> pt_exit (se_tracker ?s) \<or> True \<in> set (se_queue s)"
    using reconcile_told[OF assms(2), of d] assms(5) Prompt by auto
  show ?thesis
    using Prompt inject_told[of renders ?s, OF assms(1)] r
    by (cases "True \<in> set (se_queue s)") (auto simp: told_ok_def inject_shape[OF refl])
next
  case Resume_Turn
  show ?thesis
  proof (cases "se_queue s")
    case Nil
    then show ?thesis using Resume_Turn assms(2) by (simp add: run_resume_turn_def)
  next
    case (Cons approved rest)
    let ?s = "s\<lparr>se_queue := rest\<rparr>"
    have "pt_pending (se_tracker s) = None" using assms(5) Resume_Turn by blast
    then show ?thesis
      using Cons Resume_Turn assms(2) inject_told[of renders ?s, OF assms(1)]
      by (cases approved; cases "True \<in> set rest")
        (auto simp: told_ok_def run_resume_turn_def signal_def inject_shape[OF refl] Let_def)
  qed
next
  case (Resume_Decision a)
  then show ?thesis using assms(2,6) by (cases a; cases "pt_state (se_tracker s)")
    (auto simp: told_ok_def plan_defs on_tracker_def resume_defs Let_def)
qed (use assms in \<open>cases "pt_state (se_tracker s)"; cases "pt_pending (se_tracker s)";
  auto simp: told_ok_def plan_tracker_ok_def plan_defs on_tracker_def signal_def activate_plan_mode_mid_turn_def
    flush_pending_def leave_def Let_def\<close>)+

text \<open>C29: whenever plan mode is off but the model was last told that it is on, the exit reminder is armed for
  the next turn or the turn that tells it that the plan was approved is in the queue. This holds in the runs
  in which the mode is not switched on again before the model has heard that it is off, no turn
  starts over a buffered activation reminder, the plan is not abandoned in the dialog shown again after a
  resume (then the model is never told: \<open>abandoned_on_resume_is_not_told\<close>), and the turn for an
  approved plan is neither removed from the queue nor lost by a restart; and the exit reminder renders.\<close>

theorem model_is_told_of_exits:
  assumes "plan_reach renders dir s" "renders Exit_Reminder"
    and "told s" "pt_state (se_tracker s) = Plan_Inactive"
  shows "pt_exit (se_tracker s) \<or> True \<in> set (se_queue s)"
proof -
  have "told_ok s \<and> plan_tracker_ok (se_dir s) (se_tracker s)"
    using assms(1)
  proof induction
    case start
    then show ?case by (simp add: told_ok_def told_def start_session_def plan_tracker_at_def plan_tracker_ok_def)
  next
    case (step s e)
    then show ?case using told_ok_step[of renders s "se_dir s" e] tracker_ok_step[of s renders e] assms(2) by metis
  qed
  then show ?thesis using assms(3,4) by (simp add: told_ok_def)
qed

lemma demo_plan:
  "se_tracker (run_plan (\<lambda>_. True) [Toggle_On, Prompt None, Turn_End, Toggle_Off] (start_session dir)) =
     (plan_tracker_at dir)\<lparr>pt_previously := True, pt_count := 1, pt_exit := True\<rparr>"
  "se_signals (run_plan (\<lambda>_. True) [Toggle_On, Prompt None, Turn_End, Toggle_Off] (start_session dir)) = [Full_Reminder]"
  "se_queue (run_plan (\<lambda>_. True) [Toggle_On, Prompt None, Turn_End, Toggle_Off] (start_session dir)) = []"
  by (simp_all add: start_session_def plan_tracker_at_def plan_defs session_defs activation_template_def is_reentry_def)

lemma demo_plan_reach:
  "plan_reach (\<lambda>_. True) dir (run_plan (\<lambda>_. True) [Toggle_On, Prompt None, Turn_End, Toggle_Off] (start_session dir))"
  unfolding run_plan.simps
  by (intro plan_reach.step plan_reach.start)
    (simp_all add: start_session_def plan_tracker_at_def plan_defs session_defs activation_template_def is_reentry_def)

theorem model_is_told_of_exits_witness:
  "pt_exit (se_tracker (run_plan (\<lambda>_. True) [Toggle_On, Prompt None, Turn_End, Toggle_Off] (start_session (u ''/s''))))"
proof -
  let ?s = "run_plan (\<lambda>_. True) [Toggle_On, Prompt None, Turn_End, Toggle_Off] (start_session (u ''/s''))"
  have "told ?s" "pt_state (se_tracker ?s) = Plan_Inactive" "se_queue ?s = []"
    by (simp_all only: demo_plan told_def) (simp_all add: plan_tracker_at_def)
  then show ?thesis using model_is_told_of_exits[OF demo_plan_reach[of "u ''/s''"]] by auto
qed

text \<open>Abandoning the plan in the dialog that a resumed session shows again ends the mode without a tool result
  and without a reminder: the model goes on believing that it may not edit.\<close>

lemma abandoned_on_resume_is_not_told:
  assumes "told s" "pt_state (se_tracker s) = Plan_Active" "\<not> pt_exit (se_tracker s)" "declared \<noteq> Some True"
  shows "let s' = run_plan renders [Resume_Decision Leave_Only, Prompt declared] s in
    told s' \<and> pt_state (se_tracker s') = Plan_Inactive \<and> \<not> pt_exit (se_tracker s')"
  using assms by (auto simp: plan_defs session_defs resume_defs told_def split: option.splits)

lemma demo_abandoned_on_resume:
  "let s = run_plan (\<lambda>_. True) [Toggle_On, Prompt None, Approval_Parked True, Restart, Resume_Decision Leave_Only,
      Prompt None] (start_session dir) in
    told s \<and> pt_state (se_tracker s) = Plan_Inactive \<and> \<not> pt_exit (se_tracker s)"
  by (simp add: start_session_def plan_tracker_at_def plan_defs session_defs resume_defs told_def
      activation_template_def is_reentry_def)

text \<open>Switching the mode on and off again before the next prompt loses the reminder: the model goes on
  believing that it may not edit, and no reminder is left to tell it otherwise.\<close>

theorem quick_toggle_loses_exit_reminder:
  assumes "told s" "pt_state (se_tracker s) = Plan_Inactive" "\<not> se_running s" "declared \<noteq> Some True"
  shows "let s' = run_plan renders [Toggle_On, Toggle_Off, Prompt declared] s in
    told s' \<and> pt_state (se_tracker s') = Plan_Inactive \<and> \<not> pt_exit (se_tracker s')"
  using assms by (auto simp: plan_defs session_defs told_def split: option.splits)

theorem quick_toggle_loses_exit_reminder_witness:
  "\<exists>s. told s \<and> pt_state (se_tracker s) = Plan_Inactive \<and> \<not> pt_exit (se_tracker s)"
proof -
  let ?s = "run_plan (\<lambda>_. True) [Toggle_On, Prompt None, Turn_End, Toggle_Off] (start_session (u ''/s''))"
  have "told ?s" "pt_state (se_tracker ?s) = Plan_Inactive"
    by (simp_all only: demo_plan told_def) (simp_all add: plan_tracker_at_def)
  moreover have "\<not> se_running ?s" by (simp add: start_session_def plan_tracker_at_def plan_defs session_defs)
  ultimately show ?thesis using quick_toggle_loses_exit_reminder[of ?s None "\<lambda>_. True"] by (auto simp: Let_def)
qed

end
