(* ===== verification/Rewind_Points.thy ===== *)
theory Rewind_Points
  imports Prelude Path_Text Utf8_Text
begin

text \<open>
  The data of session rewind, \<open>xai-grok-workspace/src/session/file_state.rs\<close>: flexible paths, file
  snapshots, rewind points and the fold of points that a rewind of the conversation alone makes.

  A path is its list of components, which is what equality and hashing of \<open>Path\<close> look at. Texts of
  files are sequences of Unicode scalars, and times are numbers.
\<close>

section \<open>Paths\<close>

type_synonym fpath = "path_comp list"

definition rooted :: "fpath \<Rightarrow> bool" where
  "rooted p \<longleftrightarrow> p \<noteq> [] \<and> hd p = Root_Dir"

text \<open>\<open>Path::join\<close>: an absolute argument replaces the base, a leading dot disappears.\<close>

definition join_comps :: "fpath \<Rightarrow> fpath \<Rightarrow> fpath" where
  "join_comps base p =
     (if rooted p \<or> base = [] then p else base @ (if p \<noteq> [] \<and> hd p = Cur_Dir then tl p else p))"

text \<open>\<open>RelPathBuf::from_absolute\<close>: strip the root, refuse what is still absolute.\<close>

definition from_absolute :: "fpath \<Rightarrow> fpath \<Rightarrow> fpath option" where
  "from_absolute root p =
     (if take (length root) p \<noteq> root then None
      else let r = drop (length root) p in if rooted r then None else Some r)"

datatype flexible_path = Relative fpath | Absolute fpath

fun to_absolute :: "fpath \<Rightarrow> flexible_path \<Rightarrow> fpath" where
  "to_absolute root (Relative p) = join_comps root p"
| "to_absolute root (Absolute p) = p"

fun try_to_relative :: "fpath \<Rightarrow> flexible_path \<Rightarrow> flexible_path" where
  "try_to_relative root (Relative p) = Relative p"
| "try_to_relative root (Absolute p) =
     (case from_absolute root p of Some r \<Rightarrow> Relative r | None \<Rightarrow> Absolute p)"

fun is_relative :: "flexible_path \<Rightarrow> bool" where
  "is_relative (Relative p) = True"
| "is_relative (Absolute p) = False"

section \<open>Snapshots and points\<close>

record file_snapshot =
  snap_path :: flexible_path
  snap_content :: "ustr option"
  captured_at :: nat

type_synonym snapshots = "(flexible_path \<times> file_snapshot) list"

record rewind_point =
  point_index :: nat
  created_at :: nat
  file_snapshots :: snapshots
  after_snapshots :: snapshots

definition new_snapshot :: "nat \<Rightarrow> flexible_path \<Rightarrow> ustr option \<Rightarrow> file_snapshot" where
  "new_snapshot now p c = \<lparr>snap_path = p, snap_content = c, captured_at = now\<rparr>"

definition new_point :: "nat \<Rightarrow> nat \<Rightarrow> rewind_point" where
  "new_point now i = \<lparr>point_index = i, created_at = now, file_snapshots = [], after_snapshots = []\<rparr>"

text \<open>\<open>entry(k).or_insert(v)\<close>: the first value of a key stays.\<close>

definition or_insert :: "'k \<Rightarrow> 'v \<Rightarrow> ('k \<times> 'v) list \<Rightarrow> ('k \<times> 'v) list" where
  "or_insert k v m = (if has_key m k then m else AList.update k v m)"

definition add_snapshot :: "file_snapshot \<Rightarrow> rewind_point \<Rightarrow> rewind_point" where
  "add_snapshot s p = p\<lparr>file_snapshots := or_insert (snap_path s) s (file_snapshots p)\<rparr>"

definition set_after_snapshot :: "file_snapshot \<Rightarrow> rewind_point \<Rightarrow> rewind_point" where
  "set_after_snapshot s p = p\<lparr>after_snapshots := AList.update (snap_path s) s (after_snapshots p)\<rparr>"

definition get_snapshot :: "flexible_path \<Rightarrow> rewind_point \<Rightarrow> file_snapshot option" where
  "get_snapshot k p = map_of (file_snapshots p) k"

definition snapshot_paths :: "rewind_point \<Rightarrow> flexible_path list" where
  "snapshot_paths p = map fst (file_snapshots p)"

text \<open>Moving every snapshot to its relative path: a later entry overwrites an earlier one at the same path.\<close>

definition normalize_snapshots :: "fpath \<Rightarrow> snapshots \<Rightarrow> snapshots" where
  "normalize_snapshots root m =
     fold (\<lambda>(k, s). AList.update (try_to_relative root k) (s\<lparr>snap_path := try_to_relative root k\<rparr>)) m []"

definition normalize_to_relative :: "fpath \<Rightarrow> rewind_point \<Rightarrow> rewind_point" where
  "normalize_to_relative root p =
     p\<lparr>file_snapshots := normalize_snapshots root (file_snapshots p),
       after_snapshots := normalize_snapshots root (after_snapshots p)\<rparr>"

section \<open>Folding points\<close>

text \<open>Before-snapshots keep the earliest, after-snapshots the latest.\<close>

definition absorb :: "rewind_point \<Rightarrow> rewind_point \<Rightarrow> rewind_point" where
  "absorb p q =
     p\<lparr>file_snapshots := fold (\<lambda>(k, s). or_insert k s) (file_snapshots q) (file_snapshots p),
       after_snapshots := fold (\<lambda>(k, s). AList.update k s) (after_snapshots q) (after_snapshots p)\<rparr>"

text \<open>\<open>dedup_by_key\<close>: of neighbours with one key the first stays.\<close>

fun dedup_by_key :: "('a \<Rightarrow> 'k) \<Rightarrow> 'a list \<Rightarrow> 'a list" where
  "dedup_by_key f (x # y # xs) =
     (if f x = f y then dedup_by_key f (x # xs) else x # dedup_by_key f (y # xs))"
| "dedup_by_key f xs = xs"

text \<open>\<open>iter_mut().find(..)\<close>: change the first element that satisfies the test.\<close>

fun map_first :: "('a \<Rightarrow> bool) \<Rightarrow> ('a \<Rightarrow> 'a) \<Rightarrow> 'a list \<Rightarrow> 'a list" where
  "map_first P f [] = []"
| "map_first P f (x # xs) = (if P x then f x # xs else x # map_first P f xs)"

definition merge_rewind_points_from :: "rewind_point list \<Rightarrow> nat \<Rightarrow> rewind_point list" where
  "merge_rewind_points_from points target =
     (if target = 0 then []
      else let sorted_points = dedup_by_key point_index (sort_key point_index points);
               kept = takeWhile (\<lambda>p. point_index p < target) sorted_points;
               to_merge = dropWhile (\<lambda>p. point_index p < target) sorted_points
           in map_first (\<lambda>p. point_index p = target - 1) (\<lambda>p. foldl absorb p to_merge) kept)"

section \<open>Cells that are written one at a time\<close>

text \<open>What the loops of rewind need of the maps and of the disk they write to: a write changes one
  cell. A loop over distinct keys then leaves each of them with what was written there.\<close>

locale cells =
  fixes get :: "'s \<Rightarrow> 'k \<Rightarrow> 'v option"
    and put :: "'k \<Rightarrow> 'w \<Rightarrow> 's \<Rightarrow> 's"
    and val :: "'w \<Rightarrow> 'v option"
  assumes get_put: "get (put k w s) k' = (if k' = k then val w else get s k')"
begin

lemma get_fold_put:
  "distinct_keys kws \<Longrightarrow> get (fold (\<lambda>(k, w). put k w) kws s) k =
     (case map_of kws k of Some w \<Rightarrow> val w | None \<Rightarrow> get s k)"
proof (induction kws arbitrary: s)
  case (Cons x kws)
  obtain a b where x: "x = (a, b)" by (cases x)
  have "map_of kws a = None" using Cons.prems x by (simp add: map_of_eq_None_iff)
  then show ?case using Cons x by (auto simp: get_put split: option.splits)
qed simp

lemma put_twice: "get (put k w (put k w' s)) = get (put k w s)"
  by (rule ext) (simp add: get_put)

end

interpretation map_cells: cells map_of AList.update Some
  by unfold_locales simp

lemmas map_of_fold_update = map_cells.get_fold_put

section \<open>Facts\<close>

lemma map_of_or_insert [simp]:
  "map_of (or_insert k v m) k' = (if k' = k \<and> map_of m k = None then Some v else map_of m k')"
  by (auto simp: or_insert_def has_key_def)

lemma distinct_or_insert [keeps]: "distinct_keys m \<Longrightarrow> distinct_keys (or_insert k v m)"
  by (simp add: or_insert_def distinct_update)

lemma keys_or_insert: "fst ` set (or_insert k v m) = insert k (fst ` set m)"
  by (auto simp: or_insert_def has_key_iff dom_update)

lemma map_of_fold_or_insert:
  "distinct_keys q \<Longrightarrow> map_of (fold (\<lambda>(k, s). or_insert k s) q m) k =
     (case map_of m k of Some v \<Rightarrow> Some v | None \<Rightarrow> map_of q k)"
proof (induction q arbitrary: m)
  case (Cons x q)
  obtain a b where x: "x = (a, b)" by (cases x)
  have "map_of q a = None" using Cons.prems x by (simp add: map_of_eq_None_iff)
  then show ?case using Cons x by (auto split: option.splits)
qed (simp split: option.split)

lemma distinct_fold_or_insert: "distinct_keys m \<Longrightarrow> distinct_keys (fold (\<lambda>(k, s). or_insert k s) q m)"
  by (induction q arbitrary: m) (auto intro: distinct_or_insert)

lemma distinct_fold_update: "distinct_keys m \<Longrightarrow> distinct_keys (fold (\<lambda>(k, s). AList.update k s) q m)"
  by (induction q arbitrary: m) (auto intro: distinct_update)

definition point_ok :: "rewind_point \<Rightarrow> bool" where
  "point_ok p \<longleftrightarrow> distinct_keys (file_snapshots p) \<and> distinct_keys (after_snapshots p)"

lemma point_okI [intro]:
  "distinct_keys (file_snapshots p) \<Longrightarrow> distinct_keys (after_snapshots p) \<Longrightarrow> point_ok p"
  by (simp add: point_ok_def)

lemma point_ok_new [keeps]: "point_ok (new_point now i)"
  by (simp add: point_ok_def new_point_def)

lemma point_ok_add [keeps]: "point_ok p \<Longrightarrow> point_ok (add_snapshot s p)"
  by (simp add: point_ok_def add_snapshot_def distinct_or_insert)

lemma point_ok_after [keeps]: "point_ok p \<Longrightarrow> point_ok (set_after_snapshot s p)"
  by (simp add: point_ok_def set_after_snapshot_def distinct_update)

lemma point_ok_absorb [keeps]: "point_ok p \<Longrightarrow> point_ok (absorb p q)"
  by (simp add: point_ok_def absorb_def distinct_fold_or_insert distinct_fold_update)

lemma point_ok_foldl_absorb [keeps]: "point_ok p \<Longrightarrow> point_ok (foldl absorb p qs)"
  by (induction qs arbitrary: p) (auto intro: point_ok_absorb)

lemma index_shape [shape]:
  "point_index (add_snapshot s p) = point_index p"
  "point_index (set_after_snapshot s p) = point_index p"
  "point_index (absorb p q) = point_index p"
  "point_index (new_point now i) = i"
  "point_index (normalize_to_relative root p) = point_index p"
  "file_snapshots (new_point now i) = []"
  "file_snapshots (set_after_snapshot s p) = file_snapshots p"
  "after_snapshots (add_snapshot s p) = after_snapshots p"
  by (simp_all add: add_snapshot_def set_after_snapshot_def absorb_def new_point_def normalize_to_relative_def)

lemma index_foldl_absorb [shape]: "point_index (foldl absorb p qs) = point_index p"
  by (induction qs arbitrary: p) (simp_all add: shape)

lemma before_absorb:
  "point_ok q \<Longrightarrow> map_of (file_snapshots (absorb p q)) k =
     (case map_of (file_snapshots p) k of Some v \<Rightarrow> Some v | None \<Rightarrow> map_of (file_snapshots q) k)"
  by (simp add: absorb_def point_ok_def map_of_fold_or_insert)

lemma after_absorb:
  "point_ok q \<Longrightarrow> map_of (after_snapshots (absorb p q)) k =
     (case map_of (after_snapshots q) k of Some v \<Rightarrow> Some v | None \<Rightarrow> map_of (after_snapshots p) k)"
  by (simp add: absorb_def point_ok_def map_of_fold_update)

text \<open>The earliest before-snapshot of a path in a list of points, and the latest after-snapshot.\<close>

fun earliest :: "flexible_path \<Rightarrow> rewind_point list \<Rightarrow> file_snapshot option" where
  "earliest k [] = None"
| "earliest k (p # ps) = (case map_of (file_snapshots p) k of Some s \<Rightarrow> Some s | None \<Rightarrow> earliest k ps)"

fun latest :: "flexible_path \<Rightarrow> rewind_point list \<Rightarrow> file_snapshot option" where
  "latest k [] = None"
| "latest k (p # ps) = (case latest k ps of Some s \<Rightarrow> Some s | None \<Rightarrow> map_of (after_snapshots p) k)"

lemma earliest_append:
  "earliest k (ps @ qs) = (case earliest k ps of Some s \<Rightarrow> Some s | None \<Rightarrow> earliest k qs)"
  by (induction ps) (auto split: option.splits)

lemma latest_append:
  "latest k (ps @ qs) = (case latest k qs of Some s \<Rightarrow> Some s | None \<Rightarrow> latest k ps)"
  by (induction ps) (auto split: option.splits)

lemma earliest_foldl_absorb:
  "list_all point_ok qs \<Longrightarrow> map_of (file_snapshots (foldl absorb p qs)) k = earliest k (p # qs)"
  by (induction qs arbitrary: p) (auto simp: before_absorb split: option.splits)

lemma latest_foldl_absorb:
  "list_all point_ok qs \<Longrightarrow> map_of (after_snapshots (foldl absorb p qs)) k = latest k (p # qs)"
  by (induction qs arbitrary: p) (auto simp: after_absorb split: option.splits)

lemma to_absolute_from_absolute:
  assumes "root \<noteq> []" "from_absolute root p = Some r" "Cur_Dir \<notin> set p"
  shows "to_absolute root (Relative r) = p"
proof -
  have r: "r = drop (length root) p" "\<not> rooted r" "take (length root) p = root"
    using assms(2) by (auto simp: from_absolute_def Let_def split: if_splits)
  moreover have "r = [] \<or> hd r \<noteq> Cur_Dir" using assms(3) r(1) by (metis hd_in_set in_set_dropD)
  moreover have "root @ r = p" using r(1,3) by (metis append_take_drop_id)
  ultimately show ?thesis using assms(1) by (auto simp: join_comps_def)
qed

end
