(* ===== verification/Rewind_Json.thy ===== *)
theory Rewind_Json
  imports Rewind_Points
begin

text \<open>
  How rewind points are stored: one JSON object per line of \<open>rewind_points.jsonl\<close>
  (\<open>flexible_path_serde\<close>, \<open>flexible_path_map_serde\<close>, the derived instances and the readers of
  \<open>session/file_state.rs\<close>). The parser of JSON texts and the format of times are parameters; what
  serde derives for a struct is written out: named fields in any order or an array in order, unknown
  fields skipped, a repeated field an error.
\<close>

datatype json =
  JNull
| JBool bool
| JNat nat
| JOther ustr
| JStr ustr
| JArr "json list"
| JObj "(ustr \<times> json) list"

section \<open>Writing\<close>

fun flexible_text :: "flexible_path \<Rightarrow> ustr" where
  "flexible_text (Relative p) = path_text p"
| "flexible_text (Absolute p) = path_text p"

definition flexible_of :: "ustr \<Rightarrow> flexible_path" where
  "flexible_of s = (if is_absolute s then Absolute (components s) else Relative (components s))"

definition encode_snapshot :: "(nat \<Rightarrow> ustr) \<Rightarrow> file_snapshot \<Rightarrow> json" where
  "encode_snapshot show_time s = JObj
     [(u ''path'', JStr (flexible_text (snap_path s))),
      (u ''content'', case snap_content s of None \<Rightarrow> JNull | Some c \<Rightarrow> JStr c),
      (u ''captured_at'', JStr (show_time (captured_at s)))]"

definition encode_snapshots :: "(nat \<Rightarrow> ustr) \<Rightarrow> snapshots \<Rightarrow> json" where
  "encode_snapshots show_time m =
     JObj (map (\<lambda>(k, s). (flexible_text k, encode_snapshot show_time s)) m)"

definition encode_point :: "(nat \<Rightarrow> ustr) \<Rightarrow> rewind_point \<Rightarrow> json" where
  "encode_point show_time p = JObj
     [(u ''prompt_index'', JNat (point_index p)),
      (u ''created_at'', JStr (show_time (created_at p))),
      (u ''file_snapshots'', encode_snapshots show_time (file_snapshots p)),
      (u ''after_snapshots'', encode_snapshots show_time (after_snapshots p))]"

section \<open>Reading\<close>

definition struct_fields :: "ustr list \<Rightarrow> json \<Rightarrow> (ustr \<times> json) list option" where
  "struct_fields names v =
     (case v of
        JObj kvs \<Rightarrow> if distinct (filter (\<lambda>k. k \<in> set names) (map fst kvs)) then Some kvs else None
      | JArr xs \<Rightarrow> if length xs \<le> length names then Some (zip names xs) else None
      | _ \<Rightarrow> None)"

definition decode_usize :: "json \<Rightarrow> nat option" where
  "decode_usize v = (case v of JNat n \<Rightarrow> if n < 2 ^ 64 then Some n else None | _ \<Rightarrow> None)"

definition decode_time :: "(ustr \<Rightarrow> nat option) \<Rightarrow> json \<Rightarrow> nat option" where
  "decode_time parse_time v = (case v of JStr s \<Rightarrow> parse_time s | _ \<Rightarrow> None)"

definition decode_path :: "json \<Rightarrow> flexible_path option" where
  "decode_path v = (case v of JStr s \<Rightarrow> Some (flexible_of s) | _ \<Rightarrow> None)"

definition decode_content :: "json option \<Rightarrow> ustr option option" where
  "decode_content v =
     (case v of None \<Rightarrow> Some None | Some JNull \<Rightarrow> Some None | Some (JStr s) \<Rightarrow> Some (Some s) | _ \<Rightarrow> None)"

definition decode_snapshot :: "(ustr \<Rightarrow> nat option) \<Rightarrow> json \<Rightarrow> file_snapshot option" where
  "decode_snapshot parse_time v =
     (case struct_fields [u ''path'', u ''content'', u ''captured_at''] v of
        None \<Rightarrow> None
      | Some kvs \<Rightarrow>
          (case (Option.bind (map_of kvs (u ''path'')) decode_path,
                 decode_content (map_of kvs (u ''content'')),
                 Option.bind (map_of kvs (u ''captured_at'')) (decode_time parse_time)) of
             (Some p, Some c, Some t) \<Rightarrow> Some \<lparr>snap_path = p, snap_content = c, captured_at = t\<rparr>
           | _ \<Rightarrow> None))"

text \<open>The map is read with text keys first, then moved to paths.\<close>

fun decode_entries :: "(ustr \<Rightarrow> nat option) \<Rightarrow> (ustr \<times> json) list \<Rightarrow> (ustr \<times> file_snapshot) list option" where
  "decode_entries parse_time [] = Some []"
| "decode_entries parse_time ((k, v) # kvs) =
     (case (decode_snapshot parse_time v, decode_entries parse_time kvs) of
        (Some s, Some m) \<Rightarrow> Some (if has_key m k then m else (k, s) # m)
      | _ \<Rightarrow> None)"

definition decode_snapshots :: "(ustr \<Rightarrow> nat option) \<Rightarrow> json \<Rightarrow> snapshots option" where
  "decode_snapshots parse_time v =
     (case v of
        JObj kvs \<Rightarrow> map_option (\<lambda>m. fold (\<lambda>(k, s). AList.update (flexible_of k) s) m [])
                      (decode_entries parse_time kvs)
      | _ \<Rightarrow> None)"

definition decode_point :: "(ustr \<Rightarrow> nat option) \<Rightarrow> json \<Rightarrow> rewind_point option" where
  "decode_point parse_time v =
     (case struct_fields [u ''prompt_index'', u ''created_at'', u ''file_snapshots'', u ''after_snapshots''] v of
        None \<Rightarrow> None
      | Some kvs \<Rightarrow>
          (case (Option.bind (map_of kvs (u ''prompt_index'')) decode_usize,
                 Option.bind (map_of kvs (u ''created_at'')) (decode_time parse_time),
                 Option.bind (map_of kvs (u ''file_snapshots'')) (decode_snapshots parse_time),
                 (case map_of kvs (u ''after_snapshots'') of None \<Rightarrow> Some []
                  | Some w \<Rightarrow> decode_snapshots parse_time w)) of
             (Some i, Some t, Some b, Some a) \<Rightarrow>
               Some \<lparr>point_index = i, created_at = t, file_snapshots = b, after_snapshots = a\<rparr>
           | _ \<Rightarrow> None))"

text \<open>\<open>RewindPointMeta\<close> and the row it is read from: the map is only counted.\<close>

record rewind_point_meta =
  meta_index :: nat
  meta_created_at :: nat
  num_file_snapshots :: nat

definition decode_count :: "json \<Rightarrow> nat option" where
  "decode_count v = (case v of JObj kvs \<Rightarrow> Some (length kvs) | _ \<Rightarrow> None)"

definition decode_meta :: "(ustr \<Rightarrow> nat option) \<Rightarrow> json \<Rightarrow> rewind_point_meta option" where
  "decode_meta parse_time v =
     (case struct_fields [u ''prompt_index'', u ''created_at'', u ''file_snapshots''] v of
        None \<Rightarrow> None
      | Some kvs \<Rightarrow>
          (case (Option.bind (map_of kvs (u ''prompt_index'')) decode_usize,
                 Option.bind (map_of kvs (u ''created_at'')) (decode_time parse_time),
                 Option.bind (map_of kvs (u ''file_snapshots'')) decode_count) of
             (Some i, Some t, Some n) \<Rightarrow>
               Some \<lparr>meta_index = i, meta_created_at = t, num_file_snapshots = n\<rparr>
           | _ \<Rightarrow> None))"

section \<open>The file\<close>

datatype jsonl_source = Not_Found | Unreadable | Contents ustr

record json_env =
  je_parse_time :: "ustr \<Rightarrow> nat option"
  je_from_str :: "ustr \<Rightarrow> json option"

text \<open>A missing file is empty, an I/O error is passed on, a malformed line is skipped.\<close>

definition read_rewind_jsonl_lines ::
  "json_env \<Rightarrow> (json \<Rightarrow> 'a option) \<Rightarrow> jsonl_source \<Rightarrow> 'a list option" where
  "read_rewind_jsonl_lines J decode src =
     (case src of
        Not_Found \<Rightarrow> Some []
      | Unreadable \<Rightarrow> None
      | Contents t \<Rightarrow> Some (List.map_filter (\<lambda>l. Option.bind (je_from_str J l) decode)
          (filter (\<lambda>l. l \<noteq> []) (map trim (split_inclusive LF t)))))"

definition read_rewind_points_file :: "json_env \<Rightarrow> jsonl_source \<Rightarrow> rewind_point list option" where
  "read_rewind_points_file J = read_rewind_jsonl_lines J (decode_point (je_parse_time J))"

definition scan_rewind_point_metas :: "json_env \<Rightarrow> jsonl_source \<Rightarrow> rewind_point_meta list option" where
  "scan_rewind_point_metas J = read_rewind_jsonl_lines J (decode_meta (je_parse_time J))"

section \<open>What is written is read back\<close>

definition name_ok :: "ustr \<Rightarrow> bool" where
  "name_ok s \<longleftrightarrow> s \<noteq> [] \<and> s \<noteq> [46] \<and> s \<noteq> [46, 46] \<and> 47 \<notin> set s"

fun inner_ok :: "path_comp \<Rightarrow> bool" where
  "inner_ok (Normal s) = name_ok s"
| "inner_ok Parent_Dir = True"
| "inner_ok _ = False"

text \<open>The paths that the text of some path has: a root or a dot only in front.\<close>

definition comps_ok :: "fpath \<Rightarrow> bool" where
  "comps_ok p \<longleftrightarrow> (case p of [] \<Rightarrow> True | c # cs \<Rightarrow>
     (c = Root_Dir \<or> c = Cur_Dir \<or> inner_ok c) \<and> list_all inner_ok cs)"

fun flexible_ok :: "flexible_path \<Rightarrow> bool" where
  "flexible_ok (Relative p) = (comps_ok p \<and> \<not> rooted p)"
| "flexible_ok (Absolute p) = (comps_ok p \<and> rooted p)"

lemma split_on_plain: "sep \<notin> set s \<Longrightarrow> split_on sep s = [s]"
  by (induction s) auto

lemma split_on_cut: "sep \<notin> set m \<Longrightarrow> split_on sep (m @ sep # r) = m # split_on sep r"
  by (induction m) auto

lemma split_on_join:
  "ls \<noteq> [] \<Longrightarrow> (\<forall>l \<in> set ls. sep \<notin> set l) \<Longrightarrow> split_on sep (join [sep] ls) = ls"
proof (induction ls)
  case (Cons l ls)
  then show ?case by (cases "ls = []") (auto simp: split_on_plain split_on_cut join_Cons)
qed simp

lemma inner_text:
  assumes "inner_ok c"
  shows "comp_text c \<noteq> []" "comp_text c \<noteq> [46]" "47 \<notin> set (comp_text c)" "comp_of (comp_text c) = c"
  using assms by (cases c; auto simp: name_ok_def comp_of_def)+

lemma inner_texts:
  "list_all inner_ok cs \<Longrightarrow> map comp_of (filter (\<lambda>s. s \<noteq> [] \<and> s \<noteq> [46]) (map comp_text cs)) = cs"
  by (induction cs) (auto simp: inner_text)

lemma hd_join: "l \<noteq> [] \<Longrightarrow> hd (join [sep] (l # ls)) = hd l"
  by (cases ls) (auto simp: join_Cons)

lemma components_path_text:
  assumes "comps_ok p"
  shows "components (path_text p) = p"
proof (cases p)
  case Nil
  then show ?thesis by (simp add: path_text_def components_def is_absolute_def)
next
  case (Cons c cs)
  have inner: "list_all inner_ok cs" and c: "c = Root_Dir \<or> c = Cur_Dir \<or> inner_ok c"
    using assms Cons by (auto simp: comps_ok_def)
  have texts: "\<forall>l \<in> set (map comp_text (c # cs)). 47 \<notin> set l"
    using inner c by (auto simp: list_all_iff inner_text)
  show ?thesis
  proof (cases "p = [Root_Dir]")
    case True
    then show ?thesis by (simp add: path_text_def components_def is_absolute_def comp_of_def)
  next
    case False
    then have p: "path_text p = join [47] (map comp_text (c # cs))" using Cons by (simp add: path_text_def)
    have parts: "split_on 47 (path_text p) = map comp_text (c # cs)"
      unfolding p using texts by (intro split_on_join) auto
    have cs: "c = Root_Dir \<Longrightarrow> cs \<noteq> []" using False Cons by auto
    have abs: "is_absolute (path_text p) \<longleftrightarrow> c = Root_Dir"
    proof (cases "c = Root_Dir")
      case True
      then obtain d ds where "cs = d # ds" using cs by (cases cs) auto
      then show ?thesis using True p by (simp add: is_absolute_def)
    next
      case False
      then have "comp_text c \<noteq> []" "47 \<notin> set (comp_text c)" using c texts by (auto simp: inner_text)
      then have "hd (path_text p) \<noteq> 47"
        using p hd_join[of "comp_text c" 47 "map comp_text cs"] by (metis hd_in_set list.simps(9))
      then show ?thesis using False by (simp add: is_absolute_def)
    qed
    show ?thesis
    proof (cases "inner_ok c")
      case True
      then show ?thesis using parts abs Cons inner inner_texts[of "c # cs"]
        by (auto simp: components_def Let_def inner_text)
    next
      case False
      then show ?thesis using parts abs Cons inner inner_texts[of cs] c by (auto simp: components_def Let_def)
    qed
  qed
qed

lemma components_rooted: "rooted (components s) \<longleftrightarrow> is_absolute s"
proof -
  have "Root_Dir \<notin> set (map comp_of ss)" for ss by (auto simp: comp_of_def)
  then have "map comp_of ss \<noteq> [] \<Longrightarrow> hd (map comp_of ss) \<noteq> Root_Dir" for ss by (metis list.set_sel(1))
  then show ?thesis by (auto simp: components_def rooted_def Let_def simp del: map_eq_Cons_conv)
qed

lemma is_absolute_path_text: "comps_ok p \<Longrightarrow> is_absolute (path_text p) \<longleftrightarrow> rooted p"
  using components_rooted[of "path_text p"] by (simp add: components_path_text)

lemma flexible_text_inverts: "flexible_ok p \<Longrightarrow> flexible_of (flexible_text p) = p"
  by (cases p) (auto simp: flexible_of_def components_path_text is_absolute_path_text)

lemma flexible_text_inj: "flexible_ok p \<Longrightarrow> flexible_ok q \<Longrightarrow> flexible_text p = flexible_text q \<Longrightarrow> p = q"
  by (metis flexible_text_inverts)

section \<open>Round trip\<close>

text \<open>The points a tracker holds: each snapshot under its own path, every path one that a text can name.\<close>

definition storable :: "rewind_point \<Rightarrow> bool" where
  "storable p \<longleftrightarrow> point_index p < 2 ^ 64 \<and> point_ok p \<and>
     list_all (\<lambda>(k, s). flexible_ok k \<and> flexible_ok (snap_path s)) (file_snapshots p @ after_snapshots p)"

lemma field_names [simp]:
  "distinct [u ''path'', u ''content'', u ''captured_at'']"
  "distinct [u ''prompt_index'', u ''created_at'', u ''file_snapshots'', u ''after_snapshots'']"
  by (simp_all add: u_def)

lemma decode_encode_snapshot:
  assumes "\<And>t. parse_time (show_time t) = Some t" "flexible_ok (snap_path s)"
  shows "decode_snapshot parse_time (encode_snapshot show_time s) = Some s"
  using assms(2) by (cases "snap_content s")
    (simp_all add: decode_snapshot_def encode_snapshot_def struct_fields_def decode_path_def
      decode_content_def decode_time_def assms(1) flexible_text_inverts u_def)

lemma decode_encode_entries:
  assumes time: "\<And>t. parse_time (show_time t) = Some t"
    and "list_all (\<lambda>(k, s). flexible_ok k \<and> flexible_ok (snap_path s)) m" "distinct_keys m"
  shows "decode_entries parse_time (map (\<lambda>(k, s). (flexible_text k, encode_snapshot show_time s)) m) =
    Some (map (\<lambda>(k, s). (flexible_text k, s)) m)"
  using assms(2,3)
proof (induction m)
  case (Cons x m)
  obtain k s where x: "x = (k, s)" by (cases x)
  have "\<not> has_key (map (\<lambda>(k, s). (flexible_text k, s)) m) (flexible_text k)"
    using Cons.prems x by (force simp: has_key_iff list_all_iff dest: flexible_text_inj)
  then show ?case using Cons x by (simp add: decode_encode_snapshot[OF time])
qed simp

lemma fold_update_fresh:
  "distinct_keys (m @ n) \<Longrightarrow> fold (\<lambda>(k, s). AList.update k s) n m = m @ n"
proof (induction n arbitrary: m)
  case (Cons x n)
  obtain k s where x: "x = (k, s)" by (cases x)
  have "AList.update k s m = m @ [(k, s)]" if "k \<notin> fst ` set m" for k and s :: 'b and m :: "('a \<times> 'b) list"
    using that by (induction m) auto
  then have "AList.update k s m = m @ [x]" using Cons.prems x by auto
  then show ?case using Cons.IH[of "m @ [x]"] Cons.prems x by simp
qed simp

lemma decode_encode_snapshots:
  assumes time: "\<And>t. parse_time (show_time t) = Some t"
    and ok: "list_all (\<lambda>(k, s). flexible_ok k \<and> flexible_ok (snap_path s)) m" "distinct_keys m"
  shows "decode_snapshots parse_time (encode_snapshots show_time m) = Some m"
proof -
  have "fold (\<lambda>(k, s). AList.update (flexible_of k) s) (map (\<lambda>(k, s). (flexible_text k, s)) m) n =
      fold (\<lambda>(k, s). AList.update k s) m n" for n
    using ok(1) by (induction m arbitrary: n) (auto simp: flexible_text_inverts)
  then show ?thesis using ok fold_update_fresh[of "[]" m]
    by (simp add: decode_snapshots_def encode_snapshots_def decode_encode_entries[OF time])
qed

lemma decode_encode_point:
  assumes time: "\<And>t. parse_time (show_time t) = Some t" and "storable p"
  shows "decode_point parse_time (encode_point show_time p) = Some p"
  using assms(2) unfolding storable_def point_ok_def
  by (simp add: decode_point_def encode_point_def struct_fields_def decode_usize_def decode_time_def
      time decode_encode_snapshots[OF time] u_def)

end
