(* ===== verification/Rewind_Tracker.thy ===== *)
theory Rewind_Tracker
  imports Rewind_Json
begin

text \<open>
  The file state tracker of \<open>xai-grok-workspace/src/session/file_state.rs\<close> and the file system it reads
  (\<open>file_system/fs.rs\<close>). A disk maps absolute paths to bytes; which operations fail, and what a
  failed write leaves behind, is up to the environment. The locks of the tracker make each operation
  one step.
\<close>

section \<open>The file system\<close>

type_synonym disk = "fpath \<Rightarrow> bytes option"

datatype fs_error = Io_Failed | Not_Utf8

record rewind_env =
  re_root :: fpath
  re_read_error :: "fpath \<Rightarrow> bool"
  re_exists_error :: "fpath \<Rightarrow> bool"
  re_write_error :: "fpath \<Rightarrow> bool"
  re_delete_error :: "fpath \<Rightarrow> bool"
  re_after_failure :: "fpath \<Rightarrow> bytes option \<Rightarrow> bytes option"
  re_key_order :: "flexible_path list \<Rightarrow> flexible_path list"
  re_source :: "fpath \<Rightarrow> jsonl_source"
  re_json :: json_env

text \<open>\<open>String::from_utf8\<close>: only the encoding of a text is read.\<close>

definition bytes_to_string :: "bytes \<Rightarrow> fs_error + ustr" where
  "bytes_to_string b =
     (let s = decode_lossy b in if list_all scalar s \<and> encode s = b then Inr s else Inl Not_Utf8)"

text \<open>Plain ASCII reads as itself, which is how the definition is evaluated on it.\<close>

lemma ascii_text: "list_all (\<lambda>x. x < 128) b \<Longrightarrow> decode_lossy b = b \<and> list_all scalar b \<and> encode b = b"
proof -
  assume ascii: "list_all (\<lambda>x. x < 128) b"
  then have "list_all scalar b" by (auto simp: list_all_iff scalar_def)
  moreover have "encode b = b" using ascii by (induction b) (auto simp: encode_def encode_char_def)
  ultimately show ?thesis using decode_encode[of b] by simp
qed

lemma bytes_to_string_code [code]:
  "bytes_to_string b =
     (if list_all (\<lambda>x. x < 128) b then Inr b
      else let s = decode_lossy b in if list_all scalar s \<and> encode s = b then Inr s else Inl Not_Utf8)"
  using ascii_text[of b] by (simp add: bytes_to_string_def)

definition try_read_file :: "rewind_env \<Rightarrow> disk \<Rightarrow> fpath \<Rightarrow> fs_error + bytes option" where
  "try_read_file E d p = (if re_read_error E p then Inl Io_Failed else Inr (d p))"

definition try_read_to_string :: "rewind_env \<Rightarrow> disk \<Rightarrow> fpath \<Rightarrow> fs_error + ustr option" where
  "try_read_to_string E d p =
     (case try_read_file E d p of
        Inl e \<Rightarrow> Inl e
      | Inr None \<Rightarrow> Inr None
      | Inr (Some b) \<Rightarrow> map_sum id Some (bytes_to_string b))"

definition write_bytes :: "rewind_env \<Rightarrow> fpath \<Rightarrow> bytes \<Rightarrow> disk \<Rightarrow> disk \<times> bool" where
  "write_bytes E p b d =
     (if re_write_error E p then (d(p := re_after_failure E p (d p)), False) else (d(p := Some b), True))"

definition exists_at :: "rewind_env \<Rightarrow> disk \<Rightarrow> fpath \<Rightarrow> fs_error + bool" where
  "exists_at E d p = (if re_exists_error E p then Inl Io_Failed else Inr (d p \<noteq> None))"

definition delete_at :: "rewind_env \<Rightarrow> fpath \<Rightarrow> disk \<Rightarrow> disk \<times> bool" where
  "delete_at E p d = (if re_delete_error E p \<or> d p = None then (d, False) else (d(p := None), True))"

definition unwrap_or :: "'a \<Rightarrow> 'e + 'a \<Rightarrow> 'a" where
  "unwrap_or x r = (case r of Inl _ \<Rightarrow> x | Inr y \<Rightarrow> y)"

section \<open>The tracker\<close>

record file_tracker =
  rewind_points :: "(nat \<times> rewind_point) list"
  current_prompt_index :: "nat option"
  lazy_source :: "fpath option"

definition new_file_tracker :: file_tracker where
  "new_file_tracker = \<lparr>rewind_points = [], current_prompt_index = None, lazy_source = None\<rparr>"

definition with_lazy_source :: "fpath \<Rightarrow> file_tracker" where
  "with_lazy_source p = \<lparr>rewind_points = [], current_prompt_index = None, lazy_source = Some p\<rparr>"

text \<open>Points in memory win over points on disk; the source is given up only once it has been read.\<close>

definition ensure_historical_loaded :: "rewind_env \<Rightarrow> file_tracker \<Rightarrow> file_tracker" where
  "ensure_historical_loaded E t =
     (case lazy_source t of
        None \<Rightarrow> t
      | Some path \<Rightarrow> (case read_rewind_points_file (re_json E) (re_source E path) of
          None \<Rightarrow> t
        | Some loaded \<Rightarrow>
            t\<lparr>rewind_points := fold (\<lambda>p. or_insert (point_index p) p) loaded (rewind_points t),
              lazy_source := None\<rparr>))"

definition begin_prompt :: "nat \<Rightarrow> nat \<Rightarrow> file_tracker \<Rightarrow> file_tracker" where
  "begin_prompt now i t =
     t\<lparr>current_prompt_index := Some i,
       rewind_points := or_insert i (new_point now i) (rewind_points t)\<rparr>"

definition update_point :: "nat \<Rightarrow> (rewind_point \<Rightarrow> rewind_point) \<Rightarrow> file_tracker \<Rightarrow> file_tracker" where
  "update_point i f t =
     (case map_of (rewind_points t) i of
        None \<Rightarrow> t
      | Some p \<Rightarrow> t\<lparr>rewind_points := AList.update i (f p) (rewind_points t)\<rparr>)"

definition capture_after :: "rewind_env \<Rightarrow> nat \<Rightarrow> disk \<Rightarrow> nat \<Rightarrow> flexible_path \<Rightarrow> file_tracker \<Rightarrow> file_tracker" where
  "capture_after E now d i k =
     update_point i (set_after_snapshot
       (new_snapshot now k (unwrap_or None (try_read_to_string E d (to_absolute (re_root E) k)))))"

definition end_prompt :: "rewind_env \<Rightarrow> nat \<Rightarrow> disk \<Rightarrow> nat \<Rightarrow> file_tracker \<Rightarrow> file_tracker" where
  "end_prompt E now d i t =
     (let t' = t\<lparr>current_prompt_index := None\<rparr>;
          keys = (case map_of (rewind_points t') i of None \<Rightarrow> [] | Some p \<Rightarrow> snapshot_paths p)
      in fold (capture_after E now d i) keys t')"

text \<open>\<open>capture_file_state\<close> and \<open>capture_file_state_with_fs\<close>: paths outside the working directory and
  calls outside a prompt are skipped.\<close>

definition capture_file_state ::
  "rewind_env \<Rightarrow> nat \<Rightarrow> disk \<Rightarrow> fpath \<Rightarrow> fpath \<Rightarrow> file_tracker \<Rightarrow> fs_error + file_tracker" where
  "capture_file_state E now d path cwd t =
     (case from_absolute cwd path of
        None \<Rightarrow> Inr t
      | Some rel \<Rightarrow> (case current_prompt_index t of
          None \<Rightarrow> Inr t
        | Some i \<Rightarrow> (case try_read_to_string E d path of
            Inl e \<Rightarrow> Inl e
          | Inr c \<Rightarrow> Inr (update_point i (add_snapshot (new_snapshot now (Relative rel) c)) t))))"

definition add_before_snapshot_for_prompt ::
  "nat \<Rightarrow> nat \<Rightarrow> fpath \<Rightarrow> fpath \<Rightarrow> ustr option \<Rightarrow> file_tracker \<Rightarrow> file_tracker" where
  "add_before_snapshot_for_prompt now i path cwd c t =
     (case from_absolute cwd path of
        None \<Rightarrow> t
      | Some rel \<Rightarrow> update_point i (add_snapshot (new_snapshot now (Relative rel) c))
          (t\<lparr>rewind_points := or_insert i (new_point now i) (rewind_points t)\<rparr>))"

definition get_rewind_points :: "rewind_env \<Rightarrow> file_tracker \<Rightarrow> file_tracker \<times> rewind_point list" where
  "get_rewind_points E t =
     (let t' = ensure_historical_loaded E t in (t', sort_key point_index (map snd (rewind_points t'))))"

definition meta_of :: "rewind_point \<Rightarrow> rewind_point_meta" where
  "meta_of p = \<lparr>meta_index = point_index p, meta_created_at = created_at p,
     num_file_snapshots = length (file_snapshots p)\<rparr>"

text \<open>The picker reads the source without consuming it.\<close>

definition get_rewind_point_metas :: "rewind_env \<Rightarrow> file_tracker \<Rightarrow> rewind_point_meta list" where
  "get_rewind_point_metas E t =
     (let own = map (\<lambda>(i, p). (point_index p, meta_of p)) (rewind_points t);
          scanned = (case lazy_source t of None \<Rightarrow> []
            | Some path \<Rightarrow> (case scan_rewind_point_metas (re_json E) (re_source E path) of
                None \<Rightarrow> [] | Some ms \<Rightarrow> ms))
      in sort_key meta_index (map snd (fold (\<lambda>m. or_insert (meta_index m) m) scanned own)))"

definition get_rewind_point :: "nat \<Rightarrow> file_tracker \<Rightarrow> rewind_point option" where
  "get_rewind_point i t = map_of (rewind_points t) i"

definition truncate_from :: "rewind_env \<Rightarrow> nat \<Rightarrow> file_tracker \<Rightarrow> file_tracker" where
  "truncate_from E i t =
     (let t' = ensure_historical_loaded E t
      in t'\<lparr>rewind_points := filter (\<lambda>(j, p). j < i) (rewind_points t')\<rparr>)"

definition merge_and_remove_from :: "rewind_env \<Rightarrow> nat \<Rightarrow> file_tracker \<Rightarrow> file_tracker" where
  "merge_and_remove_from E i t =
     (let t' = ensure_historical_loaded E t
      in t'\<lparr>rewind_points := fold (\<lambda>p. AList.update (point_index p) p)
              (merge_rewind_points_from (map snd (rewind_points t')) i) []\<rparr>)"

definition max_prompt_index :: "rewind_env \<Rightarrow> file_tracker \<Rightarrow> file_tracker \<times> nat option" where
  "max_prompt_index E t =
     (let t' = ensure_historical_loaded E t; is = map fst (rewind_points t')
      in (t', if is = [] then None else Some (Max (set is))))"

definition normalize_all_to_relative :: "rewind_env \<Rightarrow> fpath \<Rightarrow> file_tracker \<Rightarrow> file_tracker" where
  "normalize_all_to_relative E root t =
     (let t' = ensure_historical_loaded E t
      in t'\<lparr>rewind_points := map_values (\<lambda>_. normalize_to_relative root) (rewind_points t')\<rparr>)"

definition get_rewind_points_normalized ::
  "rewind_env \<Rightarrow> fpath \<Rightarrow> file_tracker \<Rightarrow> file_tracker \<times> rewind_point list" where
  "get_rewind_points_normalized E root t =
     (let t' = ensure_historical_loaded E t
      in (t', sort_key point_index (map (normalize_to_relative root) (map snd (rewind_points t')))))"

section \<open>The invariant of the tracker\<close>

text \<open>Every point is filed under its own index, and holds one snapshot per path.\<close>

definition file_tracker_ok :: "file_tracker \<Rightarrow> bool" where
  "file_tracker_ok t \<longleftrightarrow> distinct_keys (rewind_points t) \<and>
     (\<forall>(i, p) \<in> set (rewind_points t). point_index p = i \<and> point_ok p)"

lemma tracker_okI:
  "distinct_keys (rewind_points t) \<Longrightarrow>
    (\<And>i p. (i, p) \<in> set (rewind_points t) \<Longrightarrow> point_index p = i \<and> point_ok p) \<Longrightarrow> file_tracker_ok t"
  by (auto simp: file_tracker_ok_def)

lemma tracker_okD:
  "file_tracker_ok t \<Longrightarrow> map_of (rewind_points t) i = Some p \<Longrightarrow> point_index p = i \<and> point_ok p"
  by (auto simp: file_tracker_ok_def dest: map_of_SomeD)

lemma set_update_subset: "set (AList.update k v m) \<subseteq> insert (k, v) (set m)"
  by (induction m) auto

lemma set_or_insert_subset: "set (or_insert k v m) \<subseteq> insert (k, v) (set m)"
  using set_update_subset[of k v m] by (auto simp: or_insert_def)

lemma ok_new [keeps]: "file_tracker_ok new_file_tracker" "file_tracker_ok (with_lazy_source p)"
  by (simp_all add: file_tracker_ok_def new_file_tracker_def with_lazy_source_def)

lemma ok_or_insert [keeps]:
  "file_tracker_ok t \<Longrightarrow> point_ok p \<Longrightarrow> point_index p = i \<Longrightarrow>
    file_tracker_ok (t\<lparr>rewind_points := or_insert i p (rewind_points t)\<rparr>)"
  using set_or_insert_subset[of i p "rewind_points t"]
  by (auto simp: file_tracker_ok_def intro: distinct_or_insert)

lemma ok_loaded:
  "file_tracker_ok t \<Longrightarrow> list_all point_ok ps \<Longrightarrow>
    file_tracker_ok (t\<lparr>rewind_points := fold (\<lambda>p. or_insert (point_index p) p) ps (rewind_points t)\<rparr>)"
proof (induction ps arbitrary: t)
  case (Cons p ps)
  then show ?case using Cons.IH[OF ok_or_insert[OF Cons.prems(1) _ refl]] by simp
qed simp

lemma ok_other [keeps]:
  "file_tracker_ok (t\<lparr>lazy_source := s\<rparr>) = file_tracker_ok t"
  "file_tracker_ok (t\<lparr>current_prompt_index := c\<rparr>) = file_tracker_ok t"
  by (simp_all add: file_tracker_ok_def)

lemma ok_update_point [keeps]:
  assumes "file_tracker_ok t" "\<And>p. point_ok p \<Longrightarrow> point_ok (f p) \<and> point_index (f p) = point_index p"
  shows "file_tracker_ok (update_point i f t)"
proof (cases "map_of (rewind_points t) i")
  case (Some p)
  then show ?thesis using assms tracker_okD[OF assms(1) Some] set_update_subset[of i "f p" "rewind_points t"]
    by (auto simp: update_point_def file_tracker_ok_def intro: distinct_update)
qed (use assms in \<open>simp add: update_point_def\<close>)

lemma decoded_point_ok:
  assumes "decode_point parse_time v = Some p"
  shows "point_ok p"
proof -
  have "distinct_keys m" if "decode_snapshots parse_time w = Some m" for w m
  proof -
    have "distinct_keys (fold (\<lambda>(k, s). AList.update (flexible_of k) s) kvs n)" if "distinct_keys n" for kvs n
      using that by (induction kvs arbitrary: n) (auto intro: distinct_update)
    from this[of "[]"] show ?thesis using that by (auto simp: decode_snapshots_def split: json.splits)
  qed
  then show ?thesis using assms
    by (auto simp: decode_point_def point_ok_def split: option.splits Option.bind_splits)
qed

lemma read_points_ok: "read_rewind_points_file J src = Some ps \<Longrightarrow> list_all point_ok ps"
  by (cases src) (auto simp: read_rewind_points_file_def read_rewind_jsonl_lines_def list_all_iff
      map_filter_def decoded_point_ok split: option.splits Option.bind_splits)

lemma ok_ensure [keeps]: "file_tracker_ok t \<Longrightarrow> file_tracker_ok (ensure_historical_loaded E t)"
  by (auto simp: ensure_historical_loaded_def keeps read_points_ok split: option.split
      intro!: ok_loaded[THEN ok_other(1)[THEN iffD2], simplified])

lemma ok_begin [keeps]: "file_tracker_ok t \<Longrightarrow> file_tracker_ok (begin_prompt now i t)"
  using ok_or_insert[of t "new_point now i" i] ok_other(2)
  by (fastforce simp: begin_prompt_def file_tracker_ok_def point_ok_new shape)

lemma ok_end [keeps]: "file_tracker_ok t \<Longrightarrow> file_tracker_ok (end_prompt E now d i t)"
proof -
  have "file_tracker_ok (fold (capture_after E now d i) ks t)" if "file_tracker_ok t" for ks t
    using that by (induction ks arbitrary: t) (auto simp: capture_after_def keeps shape)
  then show "file_tracker_ok t \<Longrightarrow> ?thesis" by (simp add: end_prompt_def Let_def keeps)
qed

lemma ok_capture [keeps]:
  "file_tracker_ok t \<Longrightarrow> capture_file_state E now d path cwd t = Inr t' \<Longrightarrow> file_tracker_ok t'"
  by (auto simp: capture_file_state_def keeps shape split: option.splits sum.splits)

lemma ok_add_before [keeps]:
  "file_tracker_ok t \<Longrightarrow> file_tracker_ok (add_before_snapshot_for_prompt now i path cwd c t)"
  by (auto simp: add_before_snapshot_for_prompt_def keeps shape split: option.splits)

lemma ok_truncate [keeps]: "file_tracker_ok t \<Longrightarrow> file_tracker_ok (truncate_from E i t)"
  using ok_ensure[of t E] by (auto simp: truncate_from_def file_tracker_ok_def Let_def distinct_keys_filter)

lemma set_dedup_by_key: "set (dedup_by_key f xs) \<subseteq> set xs"
  by (induction f xs rule: dedup_by_key.induct) auto

lemma list_all_map_first:
  "list_all P xs \<Longrightarrow> (\<And>x. P x \<Longrightarrow> P (f x)) \<Longrightarrow> list_all P (map_first Q f xs)"
  by (induction xs) auto

lemma merged_ok:
  assumes "list_all point_ok ps"
  shows "list_all point_ok (merge_rewind_points_from ps i)"
proof -
  let ?qs = "dedup_by_key point_index (sort_key point_index ps)"
  have "list_all point_ok ?qs"
    using assms set_dedup_by_key[of point_index "sort_key point_index ps"] by (auto simp: list_all_iff)
  then have "list_all point_ok (takeWhile (\<lambda>p. point_index p < i) ?qs)"
    by (auto simp: list_all_iff dest: set_takeWhileD)
  from list_all_map_first[OF this, of "\<lambda>p. foldl absorb p (dropWhile (\<lambda>p. point_index p < i) ?qs)"]
  show ?thesis by (simp add: merge_rewind_points_from_def Let_def keeps)
qed

lemma ok_store [keeps]:
  assumes "file_tracker_ok t" "point_ok p"
  shows "file_tracker_ok (t\<lparr>rewind_points := AList.update (point_index p) p (rewind_points t)\<rparr>)"
  using assms set_update_subset[of "point_index p" p "rewind_points t"]
  by (auto simp: file_tracker_ok_def intro: distinct_update)

lemma ok_rebuilt:
  "list_all point_ok ps \<Longrightarrow> file_tracker_ok t \<Longrightarrow>
    file_tracker_ok (t\<lparr>rewind_points := fold (\<lambda>p. AList.update (point_index p) p) ps (rewind_points t)\<rparr>)"
proof (induction ps arbitrary: t)
  case (Cons p ps)
  then show ?case using Cons.IH[OF _ ok_store[of t p]] by simp
qed simp

lemma ok_merge [keeps]:
  assumes "file_tracker_ok t"
  shows "file_tracker_ok (merge_and_remove_from E i t)"
proof -
  let ?t = "ensure_historical_loaded E t"
  have "list_all point_ok (map snd (rewind_points ?t))"
    using ok_ensure[OF assms, of E] by (auto simp: file_tracker_ok_def list_all_iff)
  from ok_rebuilt[OF merged_ok[OF this], of "?t\<lparr>rewind_points := []\<rparr>" i] show ?thesis
    by (simp add: merge_and_remove_from_def Let_def file_tracker_ok_def)
qed

lemma distinct_normalize: "distinct_keys (normalize_snapshots root m)"
proof -
  have "distinct_keys (fold (\<lambda>(k, s). AList.update (f k) (g k s)) m n)"
    if "distinct_keys n" for f :: "flexible_path \<Rightarrow> flexible_path" and g and n :: snapshots
    using that by (induction m arbitrary: n) (auto intro: distinct_update)
  then show ?thesis by (simp add: normalize_snapshots_def)
qed

lemma ok_normalize [keeps]:
  assumes "file_tracker_ok t"
  shows "file_tracker_ok (normalize_all_to_relative E root t)"
proof -
  let ?t = "ensure_historical_loaded E t"
  have "distinct_keys (rewind_points ?t)" "\<forall>(i, p) \<in> set (rewind_points ?t). point_index p = i"
    using ok_ensure[OF assms, of E] by (auto simp: file_tracker_ok_def)
  then show ?thesis
    by (intro tracker_okI) (simp add: normalize_all_to_relative_def Let_def,
      auto simp: normalize_all_to_relative_def Let_def map_values_def point_ok_def
        normalize_to_relative_def distinct_normalize)
qed

end
