(* ===== verification/Rewind_Files.thy ===== *)
theory Rewind_Files
  imports Rewind_Tracker "HOL-Library.Multiset"
begin

text \<open>
  Rewinding the files of a session: \<open>rewind_files\<close> of \<open>xai-grok-workspace/src/session/file_state.rs\<close> and
  the file part of \<open>handle_rewind\<close> in \<open>xai-grok-shell/src/session/acp_session_impl/rewind.rs\<close>. The order in
  which a hash map is walked is a parameter.
\<close>

section \<open>What to revert\<close>

definition files_to_revert :: "rewind_point list \<Rightarrow> nat \<Rightarrow> (flexible_path \<times> ustr option) list" where
  "files_to_revert points target =
     fold (\<lambda>p m. fold (\<lambda>(k, s). or_insert k (snap_content s)) (file_snapshots p) m)
       (filter (\<lambda>p. target \<le> point_index p) points) []"

definition iterate :: "rewind_env \<Rightarrow> (flexible_path \<times> 'v) list \<Rightarrow> (flexible_path \<times> 'v) list" where
  "iterate E m = map (\<lambda>k. (k, the (map_of m k))) (re_key_order E (map fst m))"

definition after_content :: "rewind_point list \<Rightarrow> flexible_path \<Rightarrow> ustr option" where
  "after_content points k = (case latest k points of None \<Rightarrow> None | Some s \<Rightarrow> snap_content s)"

datatype conflict_type = Deleted_Externally | Created_Externally | Modified_Externally

definition conflict_of :: "ustr option \<Rightarrow> ustr option \<Rightarrow> conflict_type option" where
  "conflict_of now after =
     (if now = after then None
      else Some (if now = None \<and> after \<noteq> None then Deleted_Externally
                 else if now \<noteq> None \<and> after = None then Created_Externally
                 else Modified_Externally))"

record rewind_log =
  rl_reverted :: "ustr list"
  rl_clean :: "ustr list"
  rl_conflicts :: "(ustr \<times> conflict_type) list"
  rl_errors :: bool

definition empty_log :: rewind_log where
  "empty_log = \<lparr>rl_reverted = [], rl_clean = [], rl_conflicts = [], rl_errors = False\<rparr>"

definition current_content :: "rewind_env \<Rightarrow> disk \<Rightarrow> flexible_path \<Rightarrow> ustr option" where
  "current_content E d k = unwrap_or None (try_read_to_string E d (to_absolute (re_root E) k))"

definition check_file ::
  "rewind_env \<Rightarrow> rewind_point list \<Rightarrow> disk \<Rightarrow> flexible_path \<Rightarrow> rewind_log \<Rightarrow> rewind_log" where
  "check_file E points d k log =
     (case conflict_of (current_content E d k) (after_content points k) of
        None \<Rightarrow> log\<lparr>rl_clean := rl_clean log @ [flexible_text k]\<rparr>
      | Some c \<Rightarrow> log\<lparr>rl_conflicts := rl_conflicts log @ [(flexible_text k, c)]\<rparr>)"

definition restore_file :: "rewind_env \<Rightarrow> flexible_path \<Rightarrow> ustr option \<Rightarrow> disk \<Rightarrow> disk \<times> bool" where
  "restore_file E k c d =
     (let p = to_absolute (re_root E) k in
      case c of
        Some t \<Rightarrow> write_bytes E p (encode t) d
      | None \<Rightarrow> if unwrap_or False (exists_at E d p) then delete_at E p d else (d, True))"

section \<open>The workspace side\<close>

definition revert_step ::
  "rewind_env \<Rightarrow> rewind_point list \<Rightarrow> flexible_path \<times> ustr option \<Rightarrow> disk \<times> rewind_log \<Rightarrow> disk \<times> rewind_log" where
  "revert_step E points kc st =
     (case kc of (k, c) \<Rightarrow> case st of (d, log) \<Rightarrow>
        let log' = check_file E points d k log in
        case restore_file E k c d of (d', ok) \<Rightarrow>
          (d', if ok then log'\<lparr>rl_reverted := rl_reverted log' @ [flexible_text k]\<rparr>
               else log'\<lparr>rl_errors := True\<rparr>))"

record file_rewind_response =
  fr_success :: bool
  fr_target :: nat
  fr_reverted :: "ustr list"
  fr_clean :: "ustr list"
  fr_conflicts :: "(ustr \<times> conflict_type) list"
  fr_error :: "ustr option"

definition rewind_files ::
  "rewind_env \<Rightarrow> nat \<Rightarrow> file_tracker \<times> disk \<Rightarrow> (file_tracker \<times> disk) \<times> file_rewind_response" where
  "rewind_files E target st =
     (case st of (t, d) \<Rightarrow>
      case get_rewind_points E t of (t', points) \<Rightarrow>
      case fold (revert_step E points) (iterate E (files_to_revert points target)) (d, empty_log) of (d', log) \<Rightarrow>
        ((if rl_errors log then t' else truncate_from E target t', d'),
         \<lparr>fr_success = (\<not> rl_errors log), fr_target = target, fr_reverted = rl_reverted log,
          fr_clean = rl_clean log, fr_conflicts = rl_conflicts log,
          fr_error = (if rl_errors log then Some (u ''Some files could not be reverted'') else None)\<rparr>))"

section \<open>The shell side\<close>

text \<open>The shell looks at every file before it writes any, and goes on after an error.\<close>

definition preview_files :: "rewind_env \<Rightarrow> rewind_point list \<Rightarrow> disk \<Rightarrow> (flexible_path \<times> ustr option) list \<Rightarrow> rewind_log" where
  "preview_files E points d fs = fold (\<lambda>(k, c). check_file E points d k) (iterate E fs) empty_log"

definition force_step ::
  "rewind_env \<Rightarrow> flexible_path \<times> ustr option \<Rightarrow> disk \<times> ustr list \<Rightarrow> disk \<times> ustr list" where
  "force_step E kc st =
     (case kc of (k, c) \<Rightarrow> case st of (d, reverted) \<Rightarrow>
        case restore_file E k c d of (d', ok) \<Rightarrow>
          (d', if ok \<or> c = None then reverted @ [flexible_text k] else reverted))"

definition force_revert ::
  "rewind_env \<Rightarrow> (flexible_path \<times> ustr option) list \<Rightarrow> disk \<Rightarrow> disk \<times> ustr list" where
  "force_revert E fs d = fold (force_step E) (iterate E fs) (d, [])"

section \<open>Walking a map\<close>

definition fair_order :: "rewind_env \<Rightarrow> bool" where
  "fair_order E \<longleftrightarrow> (\<forall>ks. mset (re_key_order E ks) = mset ks)"

lemma fair_set: "fair_order E \<Longrightarrow> set (re_key_order E ks) = set ks"
  by (metis fair_order_def mset_eq_setD)

lemma fair_distinct: "fair_order E \<Longrightarrow> distinct ks \<Longrightarrow> distinct (re_key_order E ks)"
  by (metis fair_order_def mset_eq_imp_distinct_iff)

lemma keys_iterate: "map fst (iterate E m) = re_key_order E (map fst m)"
  by (simp add: iterate_def comp_def)

lemma map_of_iterate:
  fixes m :: "(flexible_path \<times> 'v) list"
  assumes "fair_order E" "distinct_keys m"
  shows "map_of (iterate E m) k = map_of m k"
proof (cases "map_of m k")
  case None
  then have "k \<notin> set (map fst (iterate E m))" using assms(1)
    by (simp only: keys_iterate fair_set set_map map_of_eq_None_iff simp_thms)
  then have "map_of (iterate E m) k = None" by (simp add: map_of_eq_None_iff)
  then show ?thesis using None by simp
next
  case (Some v)
  then have "k \<in> set (re_key_order E (map fst m))"
    using assms(1) by (force simp: fair_set dest: map_of_SomeD)
  moreover have "map_of (map (\<lambda>k. (k, f k)) ks) k = (if k \<in> set ks then Some (f k) else None)"
    for f :: "flexible_path \<Rightarrow> 'v" and ks
    by (induction ks) auto
  ultimately show ?thesis using Some by (simp add: iterate_def)
qed

lemma distinct_iterate: "fair_order E \<Longrightarrow> distinct_keys m \<Longrightarrow> distinct_keys (iterate E m)"
  by (simp add: keys_iterate fair_distinct)

section \<open>The map of files\<close>

lemma map_of_files_step:
  "distinct_keys q \<Longrightarrow> map_of (fold (\<lambda>(k, s). or_insert k (snap_content s)) q m) k =
     (case map_of m k of Some c \<Rightarrow> Some c | None \<Rightarrow> map_option snap_content (map_of q k))"
proof (induction q arbitrary: m)
  case (Cons x q)
  obtain a b where x: "x = (a, b)" by (cases x)
  have "map_of q a = None" using Cons.prems x by (simp add: map_of_eq_None_iff)
  then show ?case using Cons x by (auto split: option.splits)
qed (simp split: option.split)

lemma map_of_files_to_revert:
  assumes "list_all point_ok points"
  shows "map_of (files_to_revert points n) k =
    map_option snap_content (earliest k (filter (\<lambda>p. n \<le> point_index p) points))"
proof -
  have "map_of (fold (\<lambda>p m. fold (\<lambda>(k, s). or_insert k (snap_content s)) (file_snapshots p) m) ps m) k =
      (case map_of m k of Some c \<Rightarrow> Some c | None \<Rightarrow> map_option snap_content (earliest k ps))"
    if "list_all point_ok ps" for ps m
    using that by (induction ps arbitrary: m) (auto simp: map_of_files_step point_ok_def split: option.splits)
  from this[of "filter (\<lambda>p. n \<le> point_index p) points" "[]"] show ?thesis
    using assms by (auto simp: files_to_revert_def list_all_iff)
qed

lemma distinct_files_to_revert: "distinct_keys (files_to_revert points n)"
proof -
  have step: "distinct_keys (fold (\<lambda>(k, s). or_insert k (f s)) q m)" if "distinct_keys m"
    for f :: "file_snapshot \<Rightarrow> ustr option" and q m
    using that by (induction q arbitrary: m) (auto intro: distinct_or_insert)
  have "distinct_keys (fold (\<lambda>p m. fold (\<lambda>(k, s). or_insert k (snap_content s)) (file_snapshots p) m) ps m)"
    if "distinct_keys m" for ps m
    using that by (induction ps arbitrary: m) (auto intro: step)
  from this[of "[]"] show ?thesis by (simp add: files_to_revert_def)
qed

section \<open>The disk after a revert\<close>

interpretation disk_cells: cells "\<lambda>d p. d p" "\<lambda>p c (d :: disk). d(p := map_option encode c)" "map_option encode"
  by unfold_locales simp

definition fails_at :: "rewind_env \<Rightarrow> fpath \<Rightarrow> bool" where
  "fails_at E p \<longleftrightarrow> re_write_error E p \<or> re_delete_error E p \<or> re_exists_error E p"

lemma restore_ok:
  "\<not> fails_at E (to_absolute (re_root E) k) \<Longrightarrow>
    restore_file E k c d = (d(to_absolute (re_root E) k := map_option encode c), True)"
  by (auto simp: restore_file_def fails_at_def write_bytes_def exists_at_def delete_at_def unwrap_or_def
      Let_def fun_eq_iff split: option.split)

lemma restore_elsewhere:
  "p \<noteq> to_absolute (re_root E) k \<Longrightarrow> fst (restore_file E k c d) p = d p"
  by (auto simp: restore_file_def write_bytes_def exists_at_def delete_at_def unwrap_or_def
      Let_def split: option.split)

text \<open>The keys a tracker of a session gives: relative, without dots; they name different files.\<close>

definition own_key :: "flexible_path \<Rightarrow> bool" where
  "own_key k \<longleftrightarrow> (case k of Relative r \<Rightarrow> \<not> rooted r \<and> Cur_Dir \<notin> set r | Absolute _ \<Rightarrow> False)"

lemma own_absolute:
  "own_key (Relative r) \<Longrightarrow> root \<noteq> [] \<Longrightarrow> to_absolute root (Relative r) = root @ r"
  by (cases r) (auto simp: own_key_def join_comps_def)

lemma own_key_inj:
  "own_key k \<Longrightarrow> own_key k' \<Longrightarrow> root \<noteq> [] \<Longrightarrow> to_absolute root k = to_absolute root k' \<Longrightarrow> k = k'"
  by (cases k; cases k') (auto simp: own_absolute own_key_def simp del: to_absolute.simps)

lemma distinct_absolute:
  assumes "list_all own_key (map fst m)" "distinct_keys m" "root \<noteq> []"
  shows "distinct (map (\<lambda>(k, c). to_absolute root k) m)"
proof -
  have "inj_on (to_absolute root) (set (map fst m))"
    using assms(1,3) own_key_inj by (auto simp: inj_on_def list_all_iff)
  then show ?thesis using assms(2) distinct_map[of "to_absolute root" "map fst m"]
    by (simp add: comp_def split_def)
qed

text \<open>A loop over entries at different files: an entry whose operations work is restored, an entry
  that fails only touches its own file.\<close>

lemma force_fold_elsewhere:
  "p \<notin> (\<lambda>(k, c). to_absolute (re_root E) k) ` set es \<Longrightarrow> fst (fold (force_step E) es st) p = fst st p"
proof (induction es arbitrary: st)
  case (Cons e es)
  obtain k c d r where "e = (k, c)" "st = (d, r)" by (cases e, cases st)
  then show ?case using Cons restore_elsewhere[of p E k c d]
    by (auto simp: force_step_def split: prod.splits)
qed simp

lemma force_fold_at:
  assumes "(k, c) \<in> set es" "distinct (map (\<lambda>(k, c). to_absolute (re_root E) k) es)"
    and "\<not> fails_at E (to_absolute (re_root E) k)"
  shows "fst (fold (force_step E) es st) (to_absolute (re_root E) k) = map_option encode c"
  using assms(1,2)
proof (induction es arbitrary: st)
  case (Cons e es)
  let ?p = "to_absolute (re_root E) k"
  show ?case
  proof (cases "e = (k, c)")
    case True
    then have "?p \<notin> (\<lambda>(k, c). to_absolute (re_root E) k) ` set es" using Cons.prems(2) by simp
    then have "fst (fold (force_step E) (e # es) st) ?p = fst (force_step E e st) ?p"
      by (simp add: force_fold_elsewhere)
    also have "\<dots> = map_option encode c"
      using True by (cases st) (simp add: force_step_def restore_ok[OF assms(3)])
    finally show ?thesis .
  next
    case False
    then have "(k, c) \<in> set es" using Cons.prems(1) by simp
    then show ?thesis using Cons.IH Cons.prems(2) by simp
  qed
qed simp

text \<open>Both sides write the same files.\<close>

lemma same_disk: "fst (fold (revert_step E points) es (d, log)) = fst (fold (force_step E) es (d, r))"
proof (induction es arbitrary: d log r)
  case (Cons e es)
  then show ?case by (cases e) (auto simp: revert_step_def force_step_def Let_def split: prod.split)
qed simp

lemma revert_errors:
  "rl_errors (snd (fold (revert_step E points) es (d, log))) \<Longrightarrow>
    rl_errors log \<or> (\<exists>(k, c) \<in> set es. fails_at E (to_absolute (re_root E) k))"
proof (induction es arbitrary: d log)
  case (Cons e es)
  obtain k c where e: "e = (k, c)" by (cases e)
  obtain d' log' where step: "revert_step E points e (d, log) = (d', log')" by fastforce
  have "rl_errors log' \<Longrightarrow> rl_errors log \<or> fails_at E (to_absolute (re_root E) k)"
    using step e restore_ok[of E k c d]
    by (auto simp: revert_step_def check_file_def Let_def split: prod.splits if_splits option.splits)
  then show ?case using Cons e step by fastforce
qed simp

lemma revert_no_errors:
  "list_all (\<lambda>(k, c). \<not> fails_at E (to_absolute (re_root E) k)) es \<Longrightarrow>
    \<not> rl_errors (snd (fold (revert_step E points) es (d, empty_log)))"
  using revert_errors[of E points es d empty_log] by (auto simp: empty_log_def list_all_iff)

text \<open>The file at a path after a revert of a map of own keys.\<close>

definition reverted_disk :: "fpath \<Rightarrow> (flexible_path \<times> ustr option) list \<Rightarrow> disk \<Rightarrow> disk" where
  "reverted_disk root fs d p =
     (case from_absolute root p of
        None \<Rightarrow> d p
      | Some r \<Rightarrow> (case map_of fs (Relative r) of None \<Rightarrow> d p | Some c \<Rightarrow> map_option encode c))"

lemma own_from_absolute:
  assumes "own_key k" "root \<noteq> []" "to_absolute root k = p"
  shows "\<exists>r. k = Relative r \<and> from_absolute root p = Some r"
  using assms by (cases k) (auto simp: own_absolute from_absolute_def own_key_def simp del: to_absolute.simps)

lemma from_absolute_own: "from_absolute root p = Some r \<Longrightarrow> p = root @ r \<and> \<not> rooted r"
  by (auto simp: from_absolute_def Let_def split: if_splits) (metis append_take_drop_id)

lemma force_revert_disk:
  assumes order: "fair_order E" and fs: "distinct_keys fs" "list_all own_key (map fst fs)"
    and root: "re_root E \<noteq> []" and healthy: "\<forall>k \<in> fst ` set fs. \<not> fails_at E (to_absolute (re_root E) k)"
  shows "fst (force_revert E fs d) = reverted_disk (re_root E) fs d"
proof
  fix p
  let ?es = "iterate E fs"
  have keys: "set (map fst ?es) = fst ` set fs" by (simp add: keys_iterate fair_set[OF order])
  have own: "list_all own_key (map fst ?es)" using fs(2) keys by (auto simp: list_all_iff)
  have dist: "distinct (map (\<lambda>(k, c). to_absolute (re_root E) k) ?es)"
    using distinct_absolute[OF own distinct_iterate[OF order fs(1)] root] .
  show "fst (force_revert E fs d) p = reverted_disk (re_root E) fs d p"
  proof (cases "p \<in> (\<lambda>(k, c). to_absolute (re_root E) k) ` set ?es")
    case True
    then obtain k c where kc: "(k, c) \<in> set ?es" "to_absolute (re_root E) k = p" by auto
    have k: "k \<in> fst ` set fs" using kc(1) keys by force
    obtain r where r: "k = Relative r" "from_absolute (re_root E) p = Some r"
      using own_from_absolute[of k "re_root E" p] own kc root by (force simp: list_all_iff)
    have "map_of fs k = Some c"
      using kc(1) map_of_iterate[OF order fs(1), of k] distinct_iterate[OF order fs(1)] by simp
    moreover have "\<not> fails_at E (to_absolute (re_root E) k)" using healthy k by blast
    ultimately show ?thesis
      using force_fold_at[OF kc(1) dist, of "(d, [])"] kc(2) r
      by (simp add: force_revert_def reverted_disk_def)
  next
    case False
    have "map_of fs (Relative r) = None" if "from_absolute (re_root E) p = Some r" for r
    proof (rule ccontr)
      assume "map_of fs (Relative r) \<noteq> None"
      then obtain c where c: "(Relative r, c) \<in> set ?es"
        using map_of_iterate[OF order fs(1), of "Relative r"] by (metis map_of_SomeD not_None_eq)
      then have "own_key (Relative r)" using own by (force simp: list_all_iff)
      then have "to_absolute (re_root E) (Relative r) = p"
        using own_absolute root from_absolute_own[OF that] by metis
      then show False using False c by force
    qed
    then show ?thesis using force_fold_elsewhere[OF False, of "(d, [])"]
      by (auto simp: force_revert_def reverted_disk_def split: option.split)
  qed
qed

end
