(* ===== verification/Rewind_Session.thy ===== *)
theory Rewind_Session
  imports Rewind_Files
begin

text \<open>
  The files of a session over its turns: what the session actor, the notification bridge and a forced
  rewind do to the tracker and the disk (\<open>acp_session_impl/turn.rs\<close>, \<open>tools/notification_bridge.rs\<close>,
  \<open>acp_session_impl/rewind.rs\<close>). An agent write is a tool that writes a file and reports it; the report, the
  content before and whether the file is new, is whatever the tool says. An outside write is anything
  else that changes the disk.
\<close>

section \<open>Events\<close>

text \<open>The bridge takes a snapshot when the notification says what was there before.\<close>

definition forward_written ::
  "nat \<Rightarrow> fpath \<Rightarrow> nat \<Rightarrow> fpath \<Rightarrow> ustr option \<Rightarrow> bool \<Rightarrow> file_tracker \<Rightarrow> file_tracker" where
  "forward_written now cwd i p previous is_new t =
     (if previous \<noteq> None \<or> is_new then add_before_snapshot_for_prompt now i p cwd previous t else t)"

record session_files =
  sf_tracker :: file_tracker
  sf_disk :: disk
  sf_turn :: nat
  sf_next :: nat

datatype rewind_mode = Mode_All | Conversation_Only | Files_Only

datatype file_event =
  Turn_Start nat
| Agent_Write nat fpath "ustr option" "ustr option" bool
| Outside_Write fpath "bytes option"
| Turn_End nat
| Rewind rewind_mode nat

text \<open>A forced \<open>handle_rewind\<close>, as far as the tracker, the disk and the prompt index go.\<close>

definition rewind_effect :: "rewind_env \<Rightarrow> rewind_mode \<Rightarrow> nat \<Rightarrow> session_files \<Rightarrow> session_files" where
  "rewind_effect E mode n s =
     (if mode \<noteq> Files_Only \<and> sf_next s \<le> n then s
      else if mode = Conversation_Only
      then s\<lparr>sf_tracker := merge_and_remove_from E n (sf_tracker s), sf_next := n\<rparr>
      else (case get_rewind_points E (sf_tracker s) of (t', points) \<Rightarrow>
        s\<lparr>sf_tracker := truncate_from E n t',
          sf_disk := fst (force_revert E (files_to_revert points n) (sf_disk s)),
          sf_next := (if mode = Files_Only then sf_next s else n)\<rparr>))"

fun file_step :: "rewind_env \<Rightarrow> session_files \<Rightarrow> file_event \<Rightarrow> session_files" where
  "file_step E s (Turn_Start now) =
     s\<lparr>sf_tracker := begin_prompt now (sf_next s) (sf_tracker s), sf_turn := sf_next s, sf_next := Suc (sf_next s)\<rparr>"
| "file_step E s (Agent_Write now p c previous is_new) =
     s\<lparr>sf_disk := (sf_disk s)(p := map_option encode c),
       sf_tracker := forward_written now (re_root E) (sf_turn s) p previous is_new (sf_tracker s)\<rparr>"
| "file_step E s (Outside_Write p b) = s\<lparr>sf_disk := (sf_disk s)(p := b)\<rparr>"
| "file_step E s (Turn_End now) =
     s\<lparr>sf_tracker := end_prompt E now (sf_disk s) (sf_turn s) (sf_tracker s)\<rparr>"
| "file_step E s (Rewind mode n) = rewind_effect E mode n s"

text \<open>Which events a session produces: tools write during a turn, rewinds come between turns.\<close>

definition plain_path :: "fpath \<Rightarrow> bool" where
  "plain_path p \<longleftrightarrow> rooted p \<and> Cur_Dir \<notin> set p"

fun allowed :: "session_files \<Rightarrow> file_event \<Rightarrow> bool" where
  "allowed s (Turn_Start now) = (current_prompt_index (sf_tracker s) = None)"
| "allowed s (Agent_Write now p c previous is_new) = (current_prompt_index (sf_tracker s) \<noteq> None \<and> plain_path p)"
| "allowed s (Outside_Write p b) = True"
| "allowed s (Turn_End now) = (current_prompt_index (sf_tracker s) \<noteq> None)"
| "allowed s (Rewind mode n) = (current_prompt_index (sf_tracker s) = None)"

fun orderly :: "rewind_env \<Rightarrow> session_files \<Rightarrow> file_event list \<Rightarrow> bool" where
  "orderly E s [] = True"
| "orderly E s (e # es) = (allowed s e \<and> orderly E (file_step E s e) es)"

text \<open>A tool reports a file truly when it says what was there before and calls the file new only when
  there was none. The patch tool does not for an added file that exists (\<open>apply_patch/tool.rs\<close>).\<close>

definition truthful :: "session_files \<Rightarrow> fpath \<Rightarrow> ustr option \<Rightarrow> bool \<Rightarrow> bool" where
  "truthful s p previous is_new \<longleftrightarrow>
     previous = map_option decode_lossy (sf_disk s p) \<and> is_new = (sf_disk s p = None)"

fun true_report :: "fpath \<Rightarrow> session_files \<Rightarrow> file_event \<Rightarrow> bool" where
  "true_report p s (Agent_Write now q c previous is_new) = (q = p \<longrightarrow> truthful s p previous is_new)"
| "true_report p s e = True"

fun reports_truly :: "rewind_env \<Rightarrow> fpath \<Rightarrow> session_files \<Rightarrow> file_event list \<Rightarrow> bool" where
  "reports_truly E p s [] = True"
| "reports_truly E p s (e # es) = (true_report p s e \<and> reports_truly E p (file_step E s e) es)"

section \<open>The points a tracker stands for\<close>

text \<open>Those in memory, and those of the source that memory does not hide.\<close>

definition history :: "rewind_env \<Rightarrow> file_tracker \<Rightarrow> nat \<Rightarrow> rewind_point option" where
  "history E t =
     (case lazy_source t of
        None \<Rightarrow> Map.empty
      | Some path \<Rightarrow> (case read_rewind_points_file (re_json E) (re_source E path) of
          None \<Rightarrow> Map.empty
        | Some ps \<Rightarrow> map_of (map (\<lambda>p. (point_index p, p)) ps)))"

definition view :: "rewind_env \<Rightarrow> file_tracker \<Rightarrow> nat \<Rightarrow> rewind_point option" where
  "view E t = history E t ++ map_of (rewind_points t)"

lemma map_of_fold_points:
  "map_of (fold (\<lambda>p. or_insert (f p) p) ps m) = map_of (map (\<lambda>p. (f p, p)) ps) ++ map_of m"
proof (induction ps arbitrary: m)
  case (Cons p ps)
  then show ?case by (auto simp: fun_eq_iff map_add_def split: option.splits)
qed simp

lemma map_of_ensure: "map_of (rewind_points (ensure_historical_loaded E t)) = view E t"
  by (auto simp: ensure_historical_loaded_def view_def history_def map_of_fold_points split: option.split)

lemma history_ensure:
  "history E (ensure_historical_loaded E t) = Map.empty"
  by (auto simp: ensure_historical_loaded_def history_def split: option.splits)

lemma view_ensure: "view E (ensure_historical_loaded E t) = view E t"
  by (simp add: view_def[of E "ensure_historical_loaded E t"] history_ensure map_of_ensure)

lemma history_keep [simp]:
  "history E (t\<lparr>rewind_points := m\<rparr>) = history E t"
  "history E (t\<lparr>current_prompt_index := c\<rparr>) = history E t"
  by (simp_all add: history_def)

lemma view_begin:
  "view E (begin_prompt now i t) = (view E t)(i \<mapsto>
     (case map_of (rewind_points t) i of None \<Rightarrow> new_point now i | Some p \<Rightarrow> p))"
  by (auto simp: view_def begin_prompt_def map_add_def fun_eq_iff history_def split: option.splits)

lemma view_update:
  "map_of (rewind_points t) i = Some p \<Longrightarrow> view E (update_point i f t) = (view E t)(i \<mapsto> f p)"
  by (auto simp: view_def update_point_def map_add_def fun_eq_iff split: option.splits)

lemma map_of_filter_less:
  "map_of (filter (\<lambda>(j, p). j < n) m) i = (if (i :: nat) < n then map_of m i else None)"
  by (induction m) auto

lemma view_truncate: "view E (truncate_from E n t) i = (if i < n then view E t i else None)"
proof -
  have "view E (truncate_from E n t) = map_of (rewind_points (truncate_from E n t))"
    by (simp add: view_def truncate_from_def Let_def history_ensure)
  then show ?thesis by (simp add: truncate_from_def Let_def map_of_filter_less map_of_ensure)
qed

lemma current_keep [simp]:
  "current_prompt_index (ensure_historical_loaded E t) = current_prompt_index t"
  "current_prompt_index (update_point i f t) = current_prompt_index t"
  "current_prompt_index (truncate_from E n t) = current_prompt_index t"
  "current_prompt_index (merge_and_remove_from E n t) = current_prompt_index t"
  "current_prompt_index (add_before_snapshot_for_prompt now i p cwd c t) = current_prompt_index t"
  by (auto simp: ensure_historical_loaded_def update_point_def truncate_from_def merge_and_remove_from_def
      add_before_snapshot_for_prompt_def Let_def split: option.split)

section \<open>First snapshots\<close>

text \<open>The first snapshot of a path from a prompt on, among the points of a session.\<close>

definition before_of :: "(nat \<Rightarrow> rewind_point option) \<Rightarrow> nat \<Rightarrow> flexible_path \<Rightarrow> file_snapshot option" where
  "before_of V i k = (case V i of None \<Rightarrow> None | Some p \<Rightarrow> map_of (file_snapshots p) k)"

definition first_at ::
  "(nat \<Rightarrow> rewind_point option) \<Rightarrow> nat \<Rightarrow> flexible_path \<Rightarrow> nat \<Rightarrow> file_snapshot \<Rightarrow> bool" where
  "first_at V n k i s \<longleftrightarrow> n \<le> i \<and> before_of V i k = Some s \<and>
     (\<forall>j. n \<le> j \<longrightarrow> j < i \<longrightarrow> before_of V j k = None)"

definition untouched :: "(nat \<Rightarrow> rewind_point option) \<Rightarrow> nat \<Rightarrow> flexible_path \<Rightarrow> bool" where
  "untouched V n k \<longleftrightarrow> (\<forall>j. n \<le> j \<longrightarrow> before_of V j k = None)"

lemma touched_first:
  assumes "\<not> untouched V n k"
  shows "\<exists>i s. first_at V n k i s"
proof -
  define P where "P i \<longleftrightarrow> n \<le> i \<and> before_of V i k \<noteq> None" for i
  have "\<exists>i. P i" using assms by (auto simp: untouched_def P_def)
  then obtain i where i: "P i" "\<And>j. j < i \<Longrightarrow> \<not> P j" using exists_least_iff[of P] by blast
  then obtain s where "before_of V i k = Some s" "n \<le> i" by (auto simp: P_def)
  then have "first_at V n k i s" using i(2) unfolding first_at_def P_def by blast
  then show ?thesis by blast
qed

lemma first_touched: "first_at V n k i s \<Longrightarrow> \<not> untouched V n k"
  by (auto simp: first_at_def untouched_def)

lemma first_unique: "first_at V n k i s \<Longrightarrow> first_at V n k j s' \<Longrightarrow> i = j \<and> s = s'"
  unfolding first_at_def by (cases i j rule: linorder_cases) auto

lemma earliest_sorted:
  assumes "sorted_wrt (<) (map point_index qs)"
  shows "earliest k qs = Some s \<longleftrightarrow>
     (\<exists>p \<in> set qs. map_of (file_snapshots p) k = Some s \<and>
        (\<forall>q \<in> set qs. point_index q < point_index p \<longrightarrow> map_of (file_snapshots q) k = None))"
  using assms
proof (induction qs)
  case (Cons p qs)
  have later: "\<forall>q \<in> set qs. point_index p < point_index q" using Cons.prems by simp
  show ?case
  proof (cases "map_of (file_snapshots p) k")
    case None
    then show ?thesis using Cons later by auto
  next
    case (Some s')
    have "\<forall>q \<in> set qs. \<not> point_index q < point_index p" using later by auto
    then show ?thesis using Some later by force
  qed
qed simp

text \<open>The sorted list of points that a rewind looks at has exactly these.\<close>

lemma sorted_points:
  assumes "file_tracker_ok t"
  defines "qs \<equiv> sort_key point_index (map snd (rewind_points t))"
  shows "sorted_wrt (<) (map point_index qs)" "p \<in> set qs \<longleftrightarrow> map_of (rewind_points t) (point_index p) = Some p"
proof -
  have index: "map point_index (map snd (rewind_points t)) = map fst (rewind_points t)"
    using assms(1) by (auto simp: file_tracker_ok_def)
  have "distinct (map point_index qs)"
    using assms(1) index unfolding qs_def file_tracker_ok_def
    by (metis (no_types, lifting) distinct_map distinct_sort inj_on_cong set_sort)
  then show "sorted_wrt (<) (map point_index qs)"
    unfolding qs_def by (simp add: strict_sorted_iff)
  show "p \<in> set qs \<longleftrightarrow> map_of (rewind_points t) (point_index p) = Some p"
    using assms(1) by (force simp: qs_def file_tracker_ok_def image_iff dest: map_of_SomeD)
qed

end
