(* ===== verification/Rewind_Facts.thy ===== *)
theory Rewind_Facts
  imports Rewind_Session
begin

text \<open>
  What the events of a session keep: the invariant of its tracker, and for a prompt \<open>n\<close> that the snapshots
  taken since, or the disk where there are none, still tell what every file was when \<open>n\<close> started.
\<close>

section \<open>Views\<close>

lemma first_at_cong:
  assumes "\<And>j. n \<le> j \<Longrightarrow> before_of V' j k = before_of V j k"
  shows "first_at V' n k i s = first_at V n k i s" "untouched V' n k = untouched V n k"
  using assms unfolding first_at_def untouched_def by (metis less_imp_le)+

lemma before_of_Some: "before_of V i k = Some s \<longleftrightarrow> (\<exists>p. V i = Some p \<and> map_of (file_snapshots p) k = Some s)"
  by (auto simp: before_of_def split: option.splits)

lemma before_of_None: "before_of V i k = None \<longleftrightarrow> (\<forall>p. V i = Some p \<longrightarrow> map_of (file_snapshots p) k = None)"
  by (auto simp: before_of_def split: option.splits)

lemma earliest_points:
  assumes ok: "file_tracker_ok t" and eq: "get_rewind_points E t = (t', points)"
  shows "earliest k (filter (\<lambda>p. n \<le> point_index p) points) = Some s \<longleftrightarrow> (\<exists>i. first_at (view E t) n k i s)"
proof -
  let ?t = "ensure_historical_loaded E t"
  have pts: "points = sort_key point_index (map snd (rewind_points ?t))"
    using eq by (auto simp: get_rewind_points_def Let_def)
  note sorted = sorted_points[OF ok_ensure[OF ok, of E], folded pts]
  have mem: "p \<in> set points \<longleftrightarrow> view E t (point_index p) = Some p" for p
    using sorted(2)[of p] by (simp add: map_of_ensure)
  have ix: "view E t i = Some p \<Longrightarrow> point_index p = i" for i p
    using tracker_okD[OF ok_ensure[OF ok, of E], of i p] by (simp add: map_of_ensure)
  have "sorted_wrt (<) (map point_index (filter (\<lambda>p. n \<le> point_index p) points))"
    using sorted(1) sorted_wrt_filter[of "\<lambda>p q. point_index p < point_index q" points]
    by (simp add: sorted_wrt_map)
  from earliest_sorted[OF this, of k s] have "earliest k (filter (\<lambda>p. n \<le> point_index p) points) = Some s \<longleftrightarrow>
      (\<exists>p. n \<le> point_index p \<and> view E t (point_index p) = Some p \<and> map_of (file_snapshots p) k = Some s \<and>
        (\<forall>q. n \<le> point_index q \<longrightarrow> view E t (point_index q) = Some q \<longrightarrow> point_index q < point_index p \<longrightarrow>
          map_of (file_snapshots q) k = None))"
    by (simp add: mem Bex_def Ball_def conj_ac imp_conjL)
  also have "\<dots> \<longleftrightarrow> (\<exists>i. first_at (view E t) n k i s)"
  proof
    assume "\<exists>p. n \<le> point_index p \<and> view E t (point_index p) = Some p \<and> map_of (file_snapshots p) k = Some s \<and>
        (\<forall>q. n \<le> point_index q \<longrightarrow> view E t (point_index q) = Some q \<longrightarrow> point_index q < point_index p \<longrightarrow>
          map_of (file_snapshots q) k = None)"
    then obtain p where p: "n \<le> point_index p" "view E t (point_index p) = Some p"
        "map_of (file_snapshots p) k = Some s"
      "\<And>q. n \<le> point_index q \<Longrightarrow> view E t (point_index q) = Some q \<Longrightarrow> point_index q < point_index p \<Longrightarrow>
          map_of (file_snapshots q) k = None" by blast
    have "map_of (file_snapshots q) k = None" if "n \<le> j" "j < point_index p" "view E t j = Some q" for j q
      using p(4)[of q] that ix[OF that(3)] by simp
    then have "first_at (view E t) n k (point_index p) s" unfolding first_at_def before_of_Some before_of_None using p(1-3) by blast
    then show "\<exists>i. first_at (view E t) n k i s" by blast
  next
    assume "\<exists>i. first_at (view E t) n k i s"
    then obtain i p where i: "n \<le> i" "view E t i = Some p" "map_of (file_snapshots p) k = Some s"
      "\<forall>j q. n \<le> j \<longrightarrow> j < i \<longrightarrow> view E t j = Some q \<longrightarrow> map_of (file_snapshots q) k = None"
      unfolding first_at_def before_of_Some before_of_None by blast
    then show "\<exists>p. n \<le> point_index p \<and> view E t (point_index p) = Some p \<and> map_of (file_snapshots p) k = Some s \<and>
        (\<forall>q. n \<le> point_index q \<longrightarrow> view E t (point_index q) = Some q \<longrightarrow> point_index q < point_index p \<longrightarrow>
          map_of (file_snapshots q) k = None)"
      using ix[OF i(2)] by (intro exI[of _ p]) simp
  qed
  finally show ?thesis .
qed

lemma files_of_view:
  assumes "file_tracker_ok t" "get_rewind_points E t = (t', points)"
  shows "map_of (files_to_revert points n) k = Some c \<longleftrightarrow>
    (\<exists>i s. first_at (view E t) n k i s \<and> snap_content s = c)"
proof -
  have "\<forall>p \<in> set (map snd (rewind_points (ensure_historical_loaded E t))). point_ok p"
    using ok_ensure[OF assms(1), of E] by (fastforce simp: file_tracker_ok_def)
  then have "list_all point_ok points"
    using assms(2) by (auto simp: get_rewind_points_def Let_def list_all_iff)
  then show ?thesis using earliest_points[OF assms] by (auto simp: map_of_files_to_revert)
qed

lemma files_of_view_None:
  assumes "file_tracker_ok t" "get_rewind_points E t = (t', points)"
  shows "map_of (files_to_revert points n) k = None \<longleftrightarrow> untouched (view E t) n k"
  using files_of_view[OF assms, of n k] touched_first first_touched by (metis not_Some_eq)

section \<open>Folding prompts\<close>

lemma dedup_distinct: "sorted_wrt (<) (map f xs) \<Longrightarrow> dedup_by_key f xs = (xs :: 'a list)" for f :: "'a \<Rightarrow> nat"
  by (induction f xs rule: dedup_by_key.induct) auto

lemma map_first_distinct:
  "distinct (map f xs) \<Longrightarrow> map_first (\<lambda>x. f x = a) g xs = map (\<lambda>x. if f x = a then g x else x) xs"
proof (induction xs)
  case (Cons x xs)
  have "map (\<lambda>y. if f y = a then g y else y) xs = xs" if "f x = a"
    using Cons.prems that by (intro map_idI) (auto simp: image_iff)
  then show ?case using Cons by auto
qed simp

lemma sorted_split:
  assumes "sorted_wrt (<) (map f xs)"
  shows "takeWhile (\<lambda>x. f x < (n :: nat)) xs = filter (\<lambda>x. f x < n) xs \<and>
    dropWhile (\<lambda>x. f x < n) xs = filter (\<lambda>x. n \<le> f x) xs"
  using assms
proof (induction xs)
  case (Cons x xs)
  have "filter (\<lambda>x. f x < n) xs = []" "filter (\<lambda>x. n \<le> f x) xs = xs" if "\<not> f x < n"
    using Cons.prems that by (auto simp: filter_empty_conv filter_id_conv)
  then show ?case using Cons by auto
qed simp

lemma map_of_indexed:
  "distinct (map f ps) \<Longrightarrow> map_of (map (\<lambda>p. (f p, p)) ps) i = Some p \<longleftrightarrow> p \<in> set ps \<and> f p = i"
  by (subst map_of_eq_Some_iff) (auto simp: comp_def)

lemma view_merge:
  assumes ok: "file_tracker_ok t" and n: "0 < n"
  obtains qs where "list_all point_ok qs" "sorted_wrt (<) (map point_index qs)"
    "\<And>q. q \<in> set qs \<longleftrightarrow> n \<le> point_index q \<and> view E t (point_index q) = Some q"
    "view E (merge_and_remove_from E n t) =
       (\<lambda>i. if i < n - 1 then view E t i else if i = n - 1 then map_option (\<lambda>p. foldl absorb p qs) (view E t i) else None)"
proof -
  let ?t = "ensure_historical_loaded E t"
  let ?V = "view E t"
  define qs where "qs = sort_key point_index (map snd (rewind_points ?t))"
  note ok' = ok_ensure[OF ok, of E]
  note sorted = sorted_points[OF ok', folded qs_def]
  have mem: "p \<in> set qs \<longleftrightarrow> ?V (point_index p) = Some p" for p
    using sorted(2)[of p] by (simp add: map_of_ensure)
  have ix: "?V i = Some p \<Longrightarrow> point_index p = i \<and> point_ok p" for i p
    using tracker_okD[OF ok', of i p] by (simp add: map_of_ensure)
  define late where "late = filter (\<lambda>p. n \<le> point_index p) qs"
  let ?early = "filter (\<lambda>p. point_index p < n) qs"
  let ?new = "map (\<lambda>p. if point_index p = n - 1 then foldl absorb p late else p) ?early"
  have dist: "distinct (map point_index qs)" using sorted(1) by (simp add: strict_sorted_iff)
  have merged: "merge_rewind_points_from (map snd (rewind_points ?t)) n = ?new"
    using n sorted(1) dist
    by (simp add: merge_rewind_points_from_def Let_def flip: qs_def)
      (simp add: dedup_distinct sorted_split map_first_distinct distinct_map_filterI late_def)
  have ixs: "map point_index ?new = map point_index ?early" by (simp add: shape comp_def)
  have dist': "distinct (map point_index ?new)" unfolding ixs using dist by (rule distinct_map_filterI)
  have fold: "fold (\<lambda>p. AList.update (point_index p) p) ps m =
      fold (\<lambda>(k, p). AList.update k p) (map (\<lambda>p. (point_index p, p)) ps) m" for ps m
    by (induction ps arbitrary: m) auto
  have view: "view E (merge_and_remove_from E n t) i = map_of (map (\<lambda>p. (point_index p, p)) ?new) i" for i
  proof -
    have "view E (merge_and_remove_from E n t) =
        map_of (fold (\<lambda>p. AList.update (point_index p) p) ?new [])"
      by (simp add: view_def merge_and_remove_from_def Let_def history_ensure merged)
    then show ?thesis using dist' map_cells.get_fold_put[of "map (\<lambda>p. (point_index p, p)) ?new" "[]" i]
      by (simp add: fold comp_def split: option.splits)
  qed
  have get: "view E (merge_and_remove_from E n t) i = Some p \<longleftrightarrow> p \<in> set ?new \<and> point_index p = i" for i p
    unfolding view by (rule map_of_indexed[OF dist'])
  have mem_new: "p \<in> set ?new \<longleftrightarrow> (\<exists>q. ?V (point_index q) = Some q \<and> point_index q < n \<and>
      p = (if point_index q = n - 1 then foldl absorb q late else q))" for p
    using mem by (auto simp: image_iff)
  have all: "view E (merge_and_remove_from E n t) i =
      (if i < n - 1 then ?V i else if i = n - 1 then map_option (\<lambda>p. foldl absorb p late) (?V i) else None)" for i
  proof -
    consider "i < n - 1" | "i = n - 1" | "n \<le> i" using n by linarith
    then show ?thesis
    proof cases
      case 1
      have "p \<in> set ?new \<and> point_index p = i \<longleftrightarrow> ?V i = Some p" for p
      proof
        assume "p \<in> set ?new \<and> point_index p = i"
        then show "?V i = Some p" using 1 mem_new[of p] by (auto simp: index_foldl_absorb split: if_splits)
      next
        assume "?V i = Some p"
        then have "point_index p = i" "?V (point_index p) = Some p" using ix[of i p] by simp_all
        moreover from this have "p \<in> set ?new" unfolding mem_new using 1 by (intro exI[of _ p]) simp
        ultimately show "p \<in> set ?new \<and> point_index p = i" by simp
      qed
      then have "view E (merge_and_remove_from E n t) i = Some p \<longleftrightarrow> ?V i = Some p" for p
        using get[of i p] by simp
      then show ?thesis using 1 by (metis not_Some_eq)
    next
      case 2
      show ?thesis
      proof (cases "?V i")
        case None
        have "\<not> (p \<in> set ?new \<and> point_index p = i)" for p
        proof
          assume p: "p \<in> set ?new \<and> point_index p = i"
          then obtain q where q: "?V (point_index q) = Some q" "point_index q < n"
            "p = (if point_index q = n - 1 then foldl absorb q late else q)" using mem_new by blast
          then have "point_index q = i" using p by (simp add: index_foldl_absorb split: if_splits)
          then show False using q None by simp
        qed
        then have "view E (merge_and_remove_from E n t) i \<noteq> Some p" for p using get[of i p] by simp
        then have "view E (merge_and_remove_from E n t) i = None" by (metis not_Some_eq)
        then show ?thesis using 2 None by simp
      next
        case (Some p0)
        have "foldl absorb p0 late \<in> set ?new"
          unfolding mem_new using n Some 2 ix[OF Some] by (intro exI[of _ p0]) simp
        then show ?thesis using get[of i "foldl absorb p0 late"] 2 n Some ix[OF Some] by (simp add: index_foldl_absorb)
      qed
    next
      case 3
      have "\<not> (p \<in> set ?new \<and> point_index p = i)" for p
      proof
        assume p: "p \<in> set ?new \<and> point_index p = i"
        then obtain q where "point_index q < n" "p = (if point_index q = n - 1 then foldl absorb q late else q)"
          using mem_new by blast
        then have "point_index p < n" by (simp add: index_foldl_absorb split: if_splits)
        then show False using 3 p by simp
      qed
      then have "view E (merge_and_remove_from E n t) i \<noteq> Some p" for p using get[of i p] by simp
      then have "view E (merge_and_remove_from E n t) i = None" by (metis not_Some_eq)
      moreover have "\<not> i < n - 1" "i \<noteq> n - 1" using 3 n by linarith+
      ultimately show ?thesis by simp
    qed
  qed
  show ?thesis
  proof (rule that[of late])
    have "point_ok q" if "q \<in> set late" for q using that mem[of q] ix[of "point_index q" q] by (simp add: late_def)
    then show "list_all point_ok late" by (simp add: list_all_iff)
    show "sorted_wrt (<) (map point_index late)"
      using sorted(1) sorted_wrt_filter[of "\<lambda>p q. point_index p < point_index q" qs]
      by (simp add: sorted_wrt_map late_def)
    show "q \<in> set late \<longleftrightarrow> n \<le> point_index q \<and> ?V (point_index q) = Some q" for q using mem by (auto simp: late_def)
  qed (use all in auto)
qed

end
