(* ===== verification/Rewind_Invariant.thy ===== *)
theory Rewind_Invariant
  imports Rewind_Facts
begin

text \<open>
  The invariant of a session's files and tracker, and what every event keeps of the promise that a rewind
  makes: for each file the first snapshot since a prompt, or the disk when there is none, is its content
  when that prompt started.
\<close>

definition session_ok :: "rewind_env \<Rightarrow> session_files \<Rightarrow> bool" where
  "session_ok E s \<longleftrightarrow> file_tracker_ok (sf_tracker s) \<and>
     (\<forall>i p. view E (sf_tracker s) i = Some p \<longrightarrow> i < sf_next s) \<and>
     (\<forall>i k. before_of (view E (sf_tracker s)) i k \<noteq> None \<longrightarrow> own_key k) \<and>
     (\<forall>i. current_prompt_index (sf_tracker s) = Some i \<longrightarrow>
        i = sf_turn s \<and> Suc i = sf_next s \<and> map_of (rewind_points (sf_tracker s)) i \<noteq> None)"

text \<open>No point is missing since prompt \<open>n\<close>.\<close>

definition unbroken :: "rewind_env \<Rightarrow> nat \<Rightarrow> session_files \<Rightarrow> bool" where
  "unbroken E n s \<longleftrightarrow> n < sf_next s \<and>
     (\<forall>i. n \<le> i \<longrightarrow> i < sf_next s \<longrightarrow> view E (sf_tracker s) i \<noteq> None)"

definition since :: "rewind_env \<Rightarrow> nat \<Rightarrow> bytes option \<Rightarrow> fpath \<Rightarrow> session_files \<Rightarrow> bool" where
  "since E n content p s \<longleftrightarrow> (\<forall>r. from_absolute (re_root E) p = Some r \<longrightarrow>
     (\<forall>i c. first_at (view E (sf_tracker s)) n (Relative r) i c \<longrightarrow> map_option encode (snap_content c) = content) \<and>
     (untouched (view E (sf_tracker s)) n (Relative r) \<longrightarrow> sf_disk s p = content))"

lemma session_okD:
  assumes "session_ok E s"
  shows "file_tracker_ok (sf_tracker s)"
    "view E (sf_tracker s) i = Some p \<Longrightarrow> i < sf_next s"
    "before_of (view E (sf_tracker s)) i k \<noteq> None \<Longrightarrow> own_key k"
    "current_prompt_index (sf_tracker s) = Some i \<Longrightarrow>
       i = sf_turn s \<and> Suc i = sf_next s \<and> map_of (rewind_points (sf_tracker s)) i \<noteq> None"
  using assms unfolding session_ok_def by blast+

lemma memory_in_view: "map_of (rewind_points t) i = Some p \<Longrightarrow> view E t i = Some p"
  by (simp add: view_def)

section \<open>Starting and ending a turn\<close>

lemma next_free: "session_ok E s \<Longrightarrow> view E (sf_tracker s) (sf_next s) = None"
  using session_okD(2)[of E s "sf_next s"] by (metis less_irrefl not_None_eq)

lemma start_view:
  assumes "session_ok E s"
  shows "view E (sf_tracker (file_step E s (Turn_Start now))) =
    (view E (sf_tracker s))(sf_next s \<mapsto> new_point now (sf_next s))"
proof -
  have "map_of (rewind_points (sf_tracker s)) (sf_next s) = None"
    using next_free[OF assms] memory_in_view by (metis not_None_eq option.distinct(1))
  then show ?thesis by (simp add: view_begin)
qed

lemma start_before:
  assumes "session_ok E s"
  shows "before_of (view E (sf_tracker (file_step E s (Turn_Start now)))) i k = before_of (view E (sf_tracker s)) i k"
  using next_free[OF assms] unfolding start_view[OF assms] by (simp add: before_of_def shape)

lemma start_ok:
  assumes "session_ok E s"
  shows "session_ok E (file_step E s (Turn_Start now))"
proof -
  let ?s = "file_step E s (Turn_Start now)"
  have "file_tracker_ok (sf_tracker ?s)" using ok_begin[OF session_okD(1)[OF assms]] by simp
  moreover have "i < sf_next ?s" if "view E (sf_tracker ?s) i = Some p" for i p
    using that session_okD(2)[OF assms, of i p] unfolding start_view[OF assms] by (auto split: if_splits)
  moreover have "own_key k" if "before_of (view E (sf_tracker ?s)) i k \<noteq> None" for i k
    using that session_okD(3)[OF assms] unfolding start_before[OF assms] by blast
  moreover have "i = sf_turn ?s \<and> Suc i = sf_next ?s \<and> map_of (rewind_points (sf_tracker ?s)) i \<noteq> None"
    if "current_prompt_index (sf_tracker ?s) = Some i" for i
    using that by (simp add: begin_prompt_def)
  ultimately show ?thesis unfolding session_ok_def by blast
qed

lemma since_cong:
  assumes "\<And>i k. before_of (view E (sf_tracker s')) i k = before_of (view E (sf_tracker s)) i k"
    and "sf_disk s' p = sf_disk s p"
  shows "since E n D p s' = since E n D p s"
  using first_at_cong[of n "view E (sf_tracker s')" _ "view E (sf_tracker s)", OF assms(1)] assms(2)
  unfolding since_def by simp

lemma start_since: "session_ok E s \<Longrightarrow> since E n D p s \<Longrightarrow> since E n D p (file_step E s (Turn_Start now))"
  using since_cong[of E "file_step E s (Turn_Start now)" s p] start_before by simp

lemma capture_before: "before_of (view E (capture_after E now d i k t)) j k' = before_of (view E t) j k'"
proof (cases "map_of (rewind_points t) i")
  case None
  then show ?thesis by (simp add: capture_after_def update_point_def)
next
  case (Some p)
  then show ?thesis by (simp add: capture_after_def view_update shape before_of_def memory_in_view)
qed

lemma capture_dom: "dom (view E (capture_after E now d i k t)) = dom (view E t)"
proof (cases "map_of (rewind_points t) i")
  case None
  then show ?thesis by (simp add: capture_after_def update_point_def)
next
  case (Some p)
  then show ?thesis using memory_in_view[OF Some, of E] by (auto simp: capture_after_def view_update)
qed

lemma end_view:
  "before_of (view E (end_prompt E now d i t)) j k = before_of (view E t) j k"
  "dom (view E (end_prompt E now d i t)) = dom (view E t)"
  "current_prompt_index (end_prompt E now d i t) = None"
proof -
  have "before_of (view E (fold (capture_after E now d i) ks t)) j k = before_of (view E t) j k \<and>
      dom (view E (fold (capture_after E now d i) ks t)) = dom (view E t) \<and>
      current_prompt_index (fold (capture_after E now d i) ks t) = current_prompt_index t" for ks t
    by (induction ks arbitrary: t) (simp_all add: capture_before capture_dom, simp add: capture_after_def)
  then show "before_of (view E (end_prompt E now d i t)) j k = before_of (view E t) j k"
    "dom (view E (end_prompt E now d i t)) = dom (view E t)"
    "current_prompt_index (end_prompt E now d i t) = None"
    by (simp_all add: end_prompt_def Let_def view_def)
qed

lemma end_ok:
  assumes "session_ok E s"
  shows "session_ok E (file_step E s (Turn_End now))"
proof -
  let ?t = "end_prompt E now (sf_disk s) (sf_turn s) (sf_tracker s)"
  have "i < sf_next s" if "view E ?t i = Some p" for i p
    using that session_okD(2)[OF assms] end_view(2)[of E now "sf_disk s" "sf_turn s" "sf_tracker s"] by blast
  then show ?thesis
    using ok_end[OF session_okD(1)[OF assms]] session_okD(3)[OF assms] by (simp add: session_ok_def end_view)
qed

lemma end_since: "since E n D p s \<Longrightarrow> since E n D p (file_step E s (Turn_End now))"
  using since_cong[of E "file_step E s (Turn_End now)" s p] by (simp add: end_view)

section \<open>Writes\<close>

lemma own_plain: "plain_path p \<Longrightarrow> from_absolute root p = Some r \<Longrightarrow> own_key (Relative r)"
  using from_absolute_own[of root p r] by (auto simp: own_key_def plain_path_def)

text \<open>The snapshot of a write that reports anything enters the point of the running turn.\<close>

lemma write_tracker:
  "sf_tracker (file_step E s (Agent_Write now p c previous is_new)) =
     (if previous \<noteq> None \<or> is_new
      then add_before_snapshot_for_prompt now (sf_turn s) p (re_root E) previous (sf_tracker s) else sf_tracker s)"
  by (simp add: forward_written_def)

lemma write_outside:
  "from_absolute (re_root E) p = None \<Longrightarrow>
    sf_tracker (file_step E s (Agent_Write now p c previous is_new)) = sf_tracker s"
  unfolding write_tracker by (simp add: add_before_snapshot_for_prompt_def)

lemma write_view:
  assumes ok: "session_ok E s" and current: "current_prompt_index (sf_tracker s) \<noteq> None"
    and rel: "from_absolute (re_root E) p = Some r" and told: "previous \<noteq> None \<or> is_new"
  obtains p0 where "view E (sf_tracker s) (sf_turn s) = Some p0"
    "view E (sf_tracker (file_step E s (Agent_Write now p c previous is_new))) = (view E (sf_tracker s))(sf_turn s \<mapsto>
       add_snapshot (new_snapshot now (Relative r) previous) p0)"
proof -
  obtain p0 where p0: "map_of (rewind_points (sf_tracker s)) (sf_turn s) = Some p0"
    using session_okD(4)[OF ok] current by fastforce
  have noop: "(sf_tracker s)\<lparr>rewind_points := or_insert (sf_turn s) q (rewind_points (sf_tracker s))\<rparr> = sf_tracker s" for q
    using p0 by (simp add: or_insert_def has_key_def)
  show ?thesis
    by (rule that[OF memory_in_view[OF p0]], unfold write_tracker if_P[OF told])
      (simp add: add_before_snapshot_for_prompt_def rel noop view_update[OF p0])
qed

lemma write_silent:
  "\<not> (previous \<noteq> None \<or> is_new) \<Longrightarrow>
    sf_tracker (file_step E s (Agent_Write now p c previous is_new)) = sf_tracker s"
  unfolding write_tracker by (rule if_not_P)

lemma write_before:
  assumes "session_ok E s" "current_prompt_index (sf_tracker s) \<noteq> None" "from_absolute (re_root E) p = Some r"
  shows "before_of (view E (sf_tracker (file_step E s (Agent_Write now p c previous is_new)))) i k =
    (if i = sf_turn s \<and> k = Relative r \<and> (previous \<noteq> None \<or> is_new) \<and> before_of (view E (sf_tracker s)) i k = None
     then Some (new_snapshot now (Relative r) previous) else before_of (view E (sf_tracker s)) i k)"
proof (cases "previous \<noteq> None \<or> is_new")
  case True
  show ?thesis
    by (rule write_view[OF assms True, of now c])
      (use True in \<open>auto simp: before_of_def add_snapshot_def new_snapshot_def simp del: file_step.simps\<close>)
next
  case False
  then show ?thesis by (simp only: write_silent[OF False] simp_thms if_False)
qed

lemma write_dom:
  assumes "session_ok E s" "current_prompt_index (sf_tracker s) \<noteq> None" "from_absolute (re_root E) p = Some r"
  shows "dom (view E (sf_tracker (file_step E s (Agent_Write now p c previous is_new)))) = dom (view E (sf_tracker s))"
proof (cases "previous \<noteq> None \<or> is_new")
  case True
  show ?thesis by (rule write_view[OF assms True, of now c]) (auto simp del: file_step.simps)
next
  case False
  show ?thesis by (simp only: write_silent[OF False])
qed

lemma write_ok:
  assumes ok: "session_ok E s" and current: "current_prompt_index (sf_tracker s) \<noteq> None" and p: "plain_path p"
  shows "session_ok E (file_step E s (Agent_Write now p c previous is_new))"
proof (cases "from_absolute (re_root E) p")
  case None
  then show ?thesis using ok write_outside[OF None, of s now c previous is_new] by (simp add: session_ok_def)
next
  case (Some r)
  let ?s = "file_step E s (Agent_Write now p c previous is_new)"
  have "file_tracker_ok (sf_tracker ?s)"
    unfolding write_tracker using ok_add_before session_okD(1)[OF ok] by simp
  moreover have "i < sf_next s" if "view E (sf_tracker ?s) i = Some q" for i q
    using that session_okD(2)[OF ok] write_dom[OF ok current Some, of now c previous is_new] by blast
  moreover have "own_key k" if "before_of (view E (sf_tracker ?s)) i k \<noteq> None" for i k
    using that session_okD(3)[OF ok] own_plain[OF p Some] unfolding write_before[OF ok current Some]
    by (auto split: if_splits)
  moreover have "i = sf_turn s \<and> Suc i = sf_next s \<and> map_of (rewind_points (sf_tracker ?s)) i \<noteq> None"
    if "current_prompt_index (sf_tracker ?s) = Some i" for i
    using that session_okD(4)[OF ok, of i]
    by (auto simp: forward_written_def add_before_snapshot_for_prompt_def update_point_def split: option.splits if_splits)
  ultimately show ?thesis unfolding session_ok_def by simp
qed

text \<open>Files whose bytes are the encoding of a text come back as they were.\<close>

definition textual :: "bytes option \<Rightarrow> bool" where
  "textual b \<longleftrightarrow> (\<forall>x. b = Some x \<longrightarrow> encode (decode_lossy x) = x)"

lemma textual_encode: "list_all scalar t \<Longrightarrow> textual (Some (encode t))"
  by (simp add: textual_def decode_encode)

lemma textual_back: "textual b \<Longrightarrow> map_option encode (map_option decode_lossy b) = b"
  by (cases b) (auto simp: textual_def)

lemma from_absolute_inj: "from_absolute root p = Some r \<Longrightarrow> from_absolute root q = Some r \<Longrightarrow> p = q"
  using from_absolute_own by metis

lemma write_since:
  assumes ok: "session_ok E s" and current: "current_prompt_index (sf_tracker s) \<noteq> None"
    and n: "n < sf_next s" and since: "since E n D q s" and bytes: "textual D"
    and true: "q = p \<longrightarrow> truthful s p previous is_new"
  shows "since E n D q (file_step E s (Agent_Write now p c previous is_new))"
  unfolding since_def
proof (intro allI impI)
  fix r' assume r': "from_absolute (re_root E) q = Some r'"
  let ?s = "file_step E s (Agent_Write now p c previous is_new)"
  let ?V = "view E (sf_tracker s)" and ?V' = "view E (sf_tracker ?s)"
  have disk: "sf_disk ?s = (sf_disk s)(p := map_option encode c)" by simp
  have old: "first_at ?V n (Relative r') i x \<Longrightarrow> map_option encode (snap_content x) = D"
    "untouched ?V n (Relative r') \<Longrightarrow> sf_disk s q = D" for i x
    using since r' by (auto simp: since_def)
  show "(\<forall>i x. first_at ?V' n (Relative r') i x \<longrightarrow> map_option encode (snap_content x) = D) \<and>
      (untouched ?V' n (Relative r') \<longrightarrow> sf_disk ?s q = D)"
  proof (cases "from_absolute (re_root E) p = Some r'")
    case False
    then have "q \<noteq> p" using r' by auto
    moreover have "before_of ?V' i (Relative r') = before_of ?V i (Relative r')" for i
      using False write_before[OF ok current, of p] write_outside[of E p s now c previous is_new]
      by (cases "from_absolute (re_root E) p") (auto simp del: file_step.simps)
    ultimately show ?thesis using old first_at_cong[of n ?V' "Relative r'" ?V] unfolding disk by simp
  next
    case True
    then have q: "q = p" using from_absolute_inj[OF r'] by blast
    then have told: "previous = map_option decode_lossy (sf_disk s p)" "previous \<noteq> None \<or> is_new"
      using true by (auto simp: truthful_def)
    let ?snap = "new_snapshot now (Relative r') previous"
    note before = write_before[OF ok current True, of now c previous is_new]
    have turn: "n \<le> sf_turn s" "before_of ?V i k \<noteq> None \<Longrightarrow> i \<le> sf_turn s" for i k
      using n current session_okD(4)[OF ok] session_okD(2)[OF ok]
      by (fastforce simp: before_of_def split: option.splits)+
    obtain i x where first: "first_at ?V' n (Relative r') i x" "map_option encode (snap_content x) = D"
    proof (cases "untouched ?V n (Relative r')")
      case True
      then have "first_at ?V' n (Relative r') (sf_turn s) ?snap"
        using turn(1) told(2) unfolding first_at_def untouched_def before by simp
      moreover have "map_option encode (snap_content ?snap) = D"
        using old(2)[OF True] q told(1) textual_back[OF bytes] by (simp add: new_snapshot_def)
      ultimately show ?thesis by (rule that)
    next
      case False
      then obtain j y where j: "first_at ?V n (Relative r') j y" using touched_first by blast
      then have "j \<le> sf_turn s" using turn(2)[of j "Relative r'"] by (simp add: first_at_def)
      then have "first_at ?V' n (Relative r') j y" using j unfolding first_at_def before by auto
      then show ?thesis using that old(1)[OF j] by blast
    qed
    then show ?thesis using first_unique first_touched by metis
  qed
qed

section \<open>Rewinds\<close>

definition healthy :: "rewind_env \<Rightarrow> bool" where
  "healthy E \<longleftrightarrow> fair_order E \<and> rooted (re_root E) \<and> (\<forall>p. \<not> fails_at E p)"

lemma files_own:
  assumes ok: "session_ok E s" and points: "get_rewind_points E (sf_tracker s) = (t', points)"
  shows "list_all own_key (map fst (files_to_revert points n))"
proof -
  have "own_key k" if "k \<in> fst ` set (files_to_revert points n)" for k
  proof -
    have "map_of (files_to_revert points n) k \<noteq> None" using that by (simp add: map_of_eq_None_iff)
    then obtain i x where "first_at (view E (sf_tracker s)) n k i x"
      using files_of_view[OF session_okD(1)[OF ok] points] by (metis not_None_eq)
    then show ?thesis using session_okD(3)[OF ok, of i k] by (simp add: first_at_def)
  qed
  then show ?thesis by (auto simp: list_all_iff)
qed

text \<open>The disk after the files of the prompts from \<open>n\<close> on were reverted.\<close>

lemma revert_disk:
  assumes "healthy E" and ok: "session_ok E s" and points: "get_rewind_points E (sf_tracker s) = (t', points)"
    and r: "from_absolute (re_root E) p = Some r"
  shows "first_at (view E (sf_tracker s)) n (Relative r) i x \<Longrightarrow>
      fst (force_revert E (files_to_revert points n) d) p = map_option encode (snap_content x)"
    "untouched (view E (sf_tracker s)) n (Relative r) \<Longrightarrow>
      fst (force_revert E (files_to_revert points n) d) p = d p"
proof -
  have root: "re_root E \<noteq> []" using assms(1) by (auto simp: healthy_def rooted_def)
  have disk: "fst (force_revert E (files_to_revert points n) d) = reverted_disk (re_root E) (files_to_revert points n) d"
    using assms(1) root by (intro force_revert_disk distinct_files_to_revert files_own[OF ok points])
      (auto simp: healthy_def)
  note files = files_of_view[OF session_okD(1)[OF ok] points]
  show "fst (force_revert E (files_to_revert points n) d) p = map_option encode (snap_content x)"
    if "first_at (view E (sf_tracker s)) n (Relative r) i x"
  proof -
    have "map_of (files_to_revert points n) (Relative r) = Some (snap_content x)" using that files by blast
    then show ?thesis unfolding disk by (simp add: reverted_disk_def r)
  qed
  show "fst (force_revert E (files_to_revert points n) d) p = d p"
    if "untouched (view E (sf_tracker s)) n (Relative r)"
  proof -
    have "map_of (files_to_revert points n) (Relative r) = None"
      using that files_of_view_None[OF session_okD(1)[OF ok] points] by blast
    then show ?thesis unfolding disk by (simp add: reverted_disk_def r)
  qed
qed

text \<open>Reverting from a prompt brings back what its files were when it started.\<close>

lemma revert_since:
  assumes "healthy E" "session_ok E s" "get_rewind_points E (sf_tracker s) = (t', points)"
    and r: "from_absolute (re_root E) p = Some r" and since: "since E n D p s"
  shows "fst (force_revert E (files_to_revert points n) (sf_disk s)) p = D"
proof (cases "untouched (view E (sf_tracker s)) n (Relative r)")
  case True
  then show ?thesis using since r revert_disk(2)[OF assms(1-4) True] by (simp add: since_def)
next
  case False
  then obtain i x where first: "first_at (view E (sf_tracker s)) n (Relative r) i x" using touched_first by blast
  then show ?thesis using since r revert_disk(1)[OF assms(1-4) first] by (auto simp: since_def)
qed

lemma truncate_before:
  "before_of (view E (truncate_from E m (ensure_historical_loaded E t))) i k =
    (if i < m then before_of (view E t) i k else None)"
  by (simp add: before_of_def view_truncate view_ensure)

lemma merge_before:
  assumes ok: "file_tracker_ok t" and m: "0 < m"
  shows "before_of (view E (merge_and_remove_from E m t)) i k = Some s \<longleftrightarrow>
    i < m \<and> (before_of (view E t) i k = Some s \<or>
      i = m - 1 \<and> view E t i \<noteq> None \<and> before_of (view E t) i k = None \<and> (\<exists>j. first_at (view E t) m k j s))"
proof -
  let ?V = "view E t"
  obtain qs where qs: "list_all point_ok qs" "sorted_wrt (<) (map point_index qs)"
    "\<And>q. q \<in> set qs \<longleftrightarrow> m \<le> point_index q \<and> ?V (point_index q) = Some q"
    and view: "view E (merge_and_remove_from E m t) = (\<lambda>i. if i < m - 1 then ?V i else if i = m - 1
       then map_option (\<lambda>p. foldl absorb p qs) (?V i) else None)"
    using view_merge[OF ok m] by blast
  have ix: "?V i = Some p \<Longrightarrow> point_index p = i" for i p
    using tracker_okD[OF ok_ensure[OF ok, of E], of i p] by (simp add: map_of_ensure)
  have late: "earliest k qs = Some s \<longleftrightarrow> (\<exists>j. first_at ?V m k j s)"
  proof
    assume "earliest k qs = Some s"
    then obtain p where p: "p \<in> set qs" "map_of (file_snapshots p) k = Some s"
      "\<forall>q \<in> set qs. point_index q < point_index p \<longrightarrow> map_of (file_snapshots q) k = None"
      using earliest_sorted[OF qs(2)] by blast
    have "before_of ?V j k = None" if "m \<le> j" "j < point_index p" for j
    proof -
      have "map_of (file_snapshots q) k = None" if "?V j = Some q" for q
        using p(3) qs(3)[of q] ix[OF that] that \<open>m \<le> j\<close> \<open>j < point_index p\<close> by simp
      then show ?thesis by (auto simp: before_of_None)
    qed
    then have "first_at ?V m k (point_index p) s"
      using p qs(3)[of p] unfolding first_at_def before_of_Some by blast
    then show "\<exists>j. first_at ?V m k j s" by blast
  next
    assume "\<exists>j. first_at ?V m k j s"
    then obtain j p where j: "m \<le> j" "?V j = Some p" "map_of (file_snapshots p) k = Some s"
      "\<And>l. m \<le> l \<Longrightarrow> l < j \<Longrightarrow> before_of ?V l k = None"
      unfolding first_at_def before_of_Some by blast
    have "map_of (file_snapshots q) k = None" if "q \<in> set qs" "point_index q < j" for q
      using j(4)[of "point_index q"] that qs(3)[of q] by (auto simp: before_of_None)
    then show "earliest k qs = Some s"
      using earliest_sorted[OF qs(2), of k s] qs(3)[of p] j(1-3) ix[OF j(2)] by auto
  qed
  have fold: "map_of (file_snapshots (foldl absorb p qs)) k =
      (case map_of (file_snapshots p) k of Some x \<Rightarrow> Some x | None \<Rightarrow> earliest k qs)" for p
    using earliest_foldl_absorb[OF qs(1), of p k] by simp
  consider "i < m - 1" | "i = m - 1" | "m \<le> i" using m by linarith
  then show ?thesis
  proof cases
    case 2
    then show ?thesis using m late by (cases "?V i") (auto simp: view before_of_def fold split: option.splits)
  qed (use m in \<open>auto simp: view before_of_def\<close>)
qed

lemma merge_dom:
  assumes "file_tracker_ok t" "0 < m"
  shows "view E (merge_and_remove_from E m t) i \<noteq> None \<longleftrightarrow> i < m \<and> view E t i \<noteq> None"
  using assms(2) by (rule_tac view_merge[OF assms, of E]) auto

lemma rewind_ok:
  assumes ok: "session_ok E s" and idle: "current_prompt_index (sf_tracker s) = None"
  shows "session_ok E (rewind_effect E mode n s)"
proof -
  have loaded: "file_tracker_ok (truncate_from E n (ensure_historical_loaded E (sf_tracker s)))"
    using session_okD(1)[OF ok] by (simp add: keeps)
  have cut: "session_ok E (s\<lparr>sf_tracker := truncate_from E n (ensure_historical_loaded E (sf_tracker s)),
      sf_disk := d, sf_next := b\<rparr>)" if "b = n \<or> b = sf_next s" for b d
    using that loaded session_okD(2,3)[OF ok] idle
    by (auto simp: session_ok_def truncate_before view_truncate view_ensure split: if_splits)
  have merge: "session_ok E (s\<lparr>sf_tracker := merge_and_remove_from E n (sf_tracker s), sf_next := n\<rparr>)"
  proof -
    let ?t = "merge_and_remove_from E n (sf_tracker s)"
    have "i < n" if "view E ?t i = Some p" for i p
    proof (cases "n = 0")
      case True
      then show ?thesis using that
        by (simp add: view_def merge_and_remove_from_def merge_rewind_points_from_def Let_def history_ensure)
    next
      case False
      then show ?thesis using that merge_dom[OF session_okD(1)[OF ok], of n E i] by simp
    qed
    moreover have "own_key k" if "before_of (view E ?t) i k \<noteq> None" for i k
    proof (cases "n = 0")
      case True
      then show ?thesis using that
        by (simp add: view_def merge_and_remove_from_def merge_rewind_points_from_def Let_def history_ensure before_of_def)
    next
      case False
      then show ?thesis using that merge_before[OF session_okD(1)[OF ok], of n E i k] session_okD(3)[OF ok]
        unfolding first_at_def by (metis not_None_eq neq0_conv)
    qed
    ultimately show ?thesis using session_okD(1)[OF ok] idle by (simp add: session_ok_def keeps)
  qed
  have "s\<lparr>sf_tracker := t, sf_disk := d, sf_next := sf_next s\<rparr> = s\<lparr>sf_tracker := t, sf_disk := d\<rparr>" for t d
    by (cases s) simp
  then show ?thesis
    using cut[of n] cut[of "sf_next s"] merge ok by (auto simp: rewind_effect_def get_rewind_points_def Let_def)
qed

lemma rewind_since:
  assumes health: "healthy E" and ok: "session_ok E s" and whole: "unbroken E n s"
    and m: "n < m" and mode: "mode \<noteq> Files_Only" and since: "since E n D p s"
  shows "since E n D p (rewind_effect E mode m s)" "unbroken E n (rewind_effect E mode m s)"
proof -
  let ?V = "view E (sf_tracker s)" and ?s = "rewind_effect E mode m s"
  let ?V' = "view E (sf_tracker ?s)"
  note okt = session_okD(1)[OF ok]
  obtain t' points where points: "get_rewind_points E (sf_tracker s) = (t', points)" by fastforce
  have t': "t' = ensure_historical_loaded E (sf_tracker s)" using points by (simp add: get_rewind_points_def Let_def)
  have both: "since E n D p ?s \<and> unbroken E n ?s"
  proof (cases "sf_next s \<le> m")
    case True
    then show ?thesis using since whole mode by (simp add: rewind_effect_def)
  next
    case early: False
    show ?thesis
    proof (cases "mode = Conversation_Only")
      case True
      then have s: "?s = s\<lparr>sf_tracker := merge_and_remove_from E m (sf_tracker s), sf_next := m\<rparr>"
        using early by (simp add: rewind_effect_def)
      have prev: "?V (m - 1) \<noteq> None" using whole m early by (simp add: unbroken_def)
      have before: "before_of ?V' i k = Some x \<longleftrightarrow> i < m \<and> (before_of ?V i k = Some x \<or>
          i = m - 1 \<and> before_of ?V i k = None \<and> (\<exists>j. first_at ?V m k j x))" for i k x
        using merge_before[OF okt, of m E i k x] m prev unfolding s by auto
      have none: "before_of ?V' i k = None" if "i < m" "i \<noteq> m - 1" "before_of ?V i k = None" for i k
        using before[of i k] that by (metis not_None_eq option.distinct(1))
      have first: "\<exists>j. first_at ?V' n k j x" if "first_at ?V n k i x" for k i x
      proof (cases "i < m")
        case True
        then have "first_at ?V' n k i x" using that none m unfolding first_at_def before by auto
        then show ?thesis by blast
      next
        case False
        then have "first_at ?V m k i x" "before_of ?V (m - 1) k = None" using that m by (auto simp: first_at_def)
        then have "before_of ?V' (m - 1) k = Some x" using m unfolding before by auto
        then have "first_at ?V' n k (m - 1) x" using that none m False unfolding first_at_def by auto
        then show ?thesis by blast
      qed
      have calm: "untouched ?V' n k" if "untouched ?V n k" for k
      proof -
        have "before_of ?V' i k \<noteq> Some x" if "n \<le> i" for i x
          using \<open>untouched ?V n k\<close> that m unfolding before untouched_def first_at_def by auto
        then show ?thesis unfolding untouched_def by (metis not_None_eq)
      qed
      have "since E n D p ?s"
        unfolding since_def
      proof (intro allI impI)
        fix r assume r: "from_absolute (re_root E) p = Some r"
        have disk: "sf_disk ?s = sf_disk s" by (simp add: s)
        show "(\<forall>i c. first_at ?V' n (Relative r) i c \<longrightarrow> map_option encode (snap_content c) = D) \<and>
          (untouched ?V' n (Relative r) \<longrightarrow> sf_disk ?s p = D)"
        proof (cases "untouched ?V n (Relative r)")
          case True
          then show ?thesis using since r calm first_touched unfolding since_def disk by blast
        next
          case False
          then obtain i c where c: "first_at ?V n (Relative r) i c" using touched_first by blast
          then obtain j where "first_at ?V' n (Relative r) j c" using first by blast
          then show ?thesis using c since r first_unique first_touched unfolding since_def by blast
        qed
      qed
      moreover have "unbroken E n ?s"
      proof -
        have "?V' i \<noteq> None" if "n \<le> i" "i < m" for i
          using that whole m early merge_dom[OF okt, of m E i] by (simp add: s unbroken_def)
        then show ?thesis using m by (simp add: unbroken_def s)
      qed
      ultimately show ?thesis by blast
    next
      case False
      then have s: "?s = s\<lparr>sf_tracker := truncate_from E m t',
          sf_disk := fst (force_revert E (files_to_revert points m) (sf_disk s)), sf_next := m\<rparr>"
        using early mode by (cases mode) (auto simp: rewind_effect_def points)
      have before: "before_of ?V' i k = (if i < m then before_of ?V i k else None)" for i k
        unfolding s t' by (simp add: truncate_before)
      have "since E n D p ?s"
        unfolding since_def
      proof (intro allI impI)
        fix r assume r: "from_absolute (re_root E) p = Some r"
        show "(\<forall>i c. first_at ?V' n (Relative r) i c \<longrightarrow> map_option encode (snap_content c) = D) \<and>
          (untouched ?V' n (Relative r) \<longrightarrow> sf_disk ?s p = D)"
        proof (cases "\<exists>i c. i < m \<and> first_at ?V n (Relative r) i c")
          case True
          then obtain i c where c: "i < m" "first_at ?V n (Relative r) i c" by blast
          then have "first_at ?V' n (Relative r) i c" unfolding first_at_def before by auto
          then show ?thesis using since r c first_unique first_touched unfolding since_def by metis
        next
          case False
          have "untouched ?V' n (Relative r)"
          proof (rule ccontr)
            assume "\<not> untouched ?V' n (Relative r)"
            then obtain i c where c: "first_at ?V' n (Relative r) i c" using touched_first by blast
            then have "i < m" by (simp add: first_at_def before split: if_splits)
            moreover from this have "first_at ?V n (Relative r) i c" using c by (auto simp: first_at_def before)
            ultimately show False using False by blast
          qed
          moreover have "sf_disk ?s p = D"
          proof (cases "untouched ?V n (Relative r)")
            case True
            then have "untouched ?V m (Relative r)" using m by (auto simp: untouched_def)
            then show ?thesis using revert_disk(2)[OF health ok points r] since r True
              by (simp add: s since_def)
          next
            case touched: False
            then obtain i c where c: "first_at ?V n (Relative r) i c" using touched_first by blast
            then have "first_at ?V m (Relative r) i c" using False m by (auto simp: first_at_def not_less)
            then show ?thesis using revert_disk(1)[OF health ok points r] since r c
              by (simp add: s since_def)
          qed
          ultimately show ?thesis using first_touched by blast
        qed
      qed
      moreover have "unbroken E n ?s"
        using whole m early unfolding s t' by (auto simp: unbroken_def view_truncate view_ensure)
      ultimately show ?thesis by blast
    qed
  qed
  then show "since E n D p ?s" "unbroken E n ?s" by blast+
qed

end
