(* ===== verification/Rewind_Properties.thy ===== *)
theory Rewind_Properties
  imports Rewind_Invariant
begin

text \<open>
  What rewinding achieves: files come back as they were when a prompt started, a failed rewind can be
  repeated, stored points are read back; and the runs where it loses something.
\<close>

section \<open>Files come back\<close>

lemma orderly_ok: "session_ok E s \<Longrightarrow> allowed s e \<Longrightarrow> session_ok E (file_step E s e)"
proof (cases e)
  case (Outside_Write p b)
  then show "session_ok E s \<Longrightarrow> ?thesis" by (simp add: session_ok_def)
qed (simp_all add: start_ok write_ok end_ok rewind_ok del: file_step.simps(1,2,4))

text \<open>C10: whatever a session does in an order the session actor produces - turns, agent writes, edits from
  outside, rewinds of every kind - its tracker files every point under its own index, below the next
  prompt, with one snapshot per relative path, and the point of a running turn is there to receive its
  snapshots.\<close>

theorem reachable_session_ok:
  assumes "session_ok E s" "orderly E s es"
  shows "session_ok E (run (file_step E) s es)"
  using assms by (induction es arbitrary: s) (auto intro: orderly_ok)

lemma fresh_session_ok:
  "session_ok E \<lparr>sf_tracker = new_file_tracker, sf_disk = d, sf_turn = 0, sf_next = 0\<rparr>"
  by (simp add: session_ok_def keeps view_def history_def before_of_def new_file_tracker_def file_tracker_ok_def)

definition demo_rewind_env :: rewind_env where
  "demo_rewind_env = \<lparr>re_root = [Root_Dir, Normal [119]], re_read_error = (\<lambda>_. False),
     re_exists_error = (\<lambda>_. False), re_write_error = (\<lambda>_. False), re_delete_error = (\<lambda>_. False),
     re_after_failure = (\<lambda>_ b. b), re_key_order = (\<lambda>ks. ks), re_source = (\<lambda>_. Not_Found),
     re_json = \<lparr>je_parse_time = (\<lambda>_. None), je_from_str = (\<lambda>_. None)\<rparr>\<rparr>"

definition demo_file :: "nat \<Rightarrow> fpath" where
  "demo_file c = [Root_Dir, Normal [119], Normal [c]]"

definition demo_disk :: disk where
  "demo_disk = (\<lambda>_. None)(demo_file 97 := Some [104, 105])"

definition demo_session :: session_files where
  "demo_session = \<lparr>sf_tracker = new_file_tracker, sf_disk = demo_disk, sf_turn = 0, sf_next = 0\<rparr>"

definition demo_events :: "file_event list" where
  "demo_events = [Agent_Write 1 (demo_file 97) (Some [120]) (Some [104, 105]) False, Turn_End 2, Turn_Start 3,
     Outside_Write (demo_file 98) (Some [255]), Agent_Write 4 (demo_file 97) None (Some [120]) False,
     Agent_Write 4 (demo_file 98) (Some [122]) None True, Turn_End 5, Rewind Conversation_Only 1,
     Turn_Start 6, Agent_Write 7 (demo_file 97) (Some [121]) None True, Turn_End 8]"

lemma demo_healthy: "healthy demo_rewind_env"
  by (simp add: healthy_def fair_order_def rooted_def fails_at_def demo_rewind_env_def)

lemma demo_session_ok: "session_ok E demo_session"
  unfolding demo_session_def by (rule fresh_session_ok)

lemma demo_orderly: "orderly demo_rewind_env demo_session (Turn_Start 0 # demo_events)"
  by code_simp

theorem reachable_session_ok_witness:
  "session_ok demo_rewind_env (run (file_step demo_rewind_env) demo_session (Turn_Start 0 # demo_events))"
  using reachable_session_ok[OF demo_session_ok demo_orderly] .

text \<open>The events after prompt \<open>n\<close> that a rewind to \<open>n\<close> can see through.\<close>

fun keeps_prompt :: "nat \<Rightarrow> file_event \<Rightarrow> bool" where
  "keeps_prompt n (Rewind mode m) = (n < m \<and> mode \<noteq> Files_Only)"
| "keeps_prompt n e = True"

lemma step_since:
  assumes "healthy E" "session_ok E s" "allowed s e" "keeps_prompt n e" "unbroken E n s"
    and "\<forall>b. e \<noteq> Outside_Write p b" "textual D" "since E n D p s" "true_report p s e"
  shows "since E n D p (file_step E s e) \<and> unbroken E n (file_step E s e)"
proof (cases e)
  case (Turn_Start now)
  have "unbroken E n (file_step E s (Turn_Start now))"
    using assms(5) start_view[OF assms(2), of now] by (simp add: unbroken_def less_Suc_eq)
  then show ?thesis using Turn_Start start_since[OF assms(2,8)] by simp
next
  case (Agent_Write now q c previous is_new)
  have current: "current_prompt_index (sf_tracker s) \<noteq> None" using assms(3) Agent_Write by simp
  have "dom (view E (sf_tracker (file_step E s e))) = dom (view E (sf_tracker s))"
    using write_dom[OF assms(2) current, of q _ now c previous is_new] write_outside[of E q s now c previous is_new] Agent_Write
    by (cases "from_absolute (re_root E) q") auto
  then have "unbroken E n (file_step E s e)" using assms(5) Agent_Write by (auto simp: unbroken_def)
  moreover have "p = q \<longrightarrow> truthful s q previous is_new" using assms(9) Agent_Write by auto
  ultimately show ?thesis using Agent_Write write_since[OF assms(2) current _ assms(8,7)] assms(5)
    by (simp add: unbroken_def)
next
  case (Outside_Write q b)
  then show ?thesis using assms(5,6,8) by (auto simp: since_def unbroken_def)
next
  case (Turn_End now)
  have "dom (view E (sf_tracker (file_step E s e))) = dom (view E (sf_tracker s))"
    using Turn_End by (simp add: end_view)
  then have "unbroken E n (file_step E s e)" using assms(5) Turn_End by (auto simp: unbroken_def)
  then show ?thesis using Turn_End end_since[OF assms(8)] by simp
next
  case (Rewind mode m)
  then show ?thesis using rewind_since[OF assms(1,2,5) _ _ assms(8), of m mode] assms(4) by simp
qed

lemma run_since:
  assumes "healthy E" "session_ok E s" "orderly E s es" "\<forall>e \<in> set es. keeps_prompt n e" "unbroken E n s"
    and "\<forall>e \<in> set es. \<forall>b. e \<noteq> Outside_Write p b" "textual D" "since E n D p s" "reports_truly E p s es"
  shows "since E n D p (run (file_step E) s es) \<and> unbroken E n (run (file_step E) s es)"
  using assms(2-6,8,9)
proof (induction es arbitrary: s)
  case (Cons e es)
  have "allowed s e" "keeps_prompt n e" "\<forall>b. e \<noteq> Outside_Write p b" "true_report p s e"
    using Cons.prems by simp_all
  from step_since[OF assms(1) Cons.prems(1) this(1,2) Cons.prems(4) this(3) assms(7) Cons.prems(6) this(4)]
  show ?case using Cons orderly_ok[OF Cons.prems(1)] by simp
qed simp

lemma rewind_disk:
  assumes "mode \<noteq> Conversation_Only" "n < sf_next s" "get_rewind_points E (sf_tracker s) = (t', points)"
  shows "sf_disk (file_step E s (Rewind mode n)) = fst (force_revert E (files_to_revert points n) (sf_disk s))"
  using assms by (simp add: rewind_effect_def)

text \<open>C6: rewinding to a prompt brings a file of the working directory back to what it was when that
  prompt started, under these conditions: every operation on files works, the file was text, since the
  prompt only the agent changed it and each tool reported truly what the file was before, and no
  rewind of the files alone and none to that prompt or an earlier one came in between. It holds after any number of further
  turns, agent writes and deletions, later rewinds of the conversation with or without the files, edits
  of other files from outside and untrue reports of other files.\<close>

theorem rewind_restores_files:
  assumes "healthy E" "session_ok E s" "orderly E s (Turn_Start now # es)"
    and "\<forall>e \<in> set es. keeps_prompt (sf_next s) e" "\<forall>e \<in> set es. \<forall>b. e \<noteq> Outside_Write p b"
    and "from_absolute (re_root E) p = Some r" "textual (sf_disk s p)" "mode \<noteq> Conversation_Only"
    and "reports_truly E p s (Turn_Start now # es)"
  shows "sf_disk (file_step E (run (file_step E) s (Turn_Start now # es)) (Rewind mode (sf_next s))) p = sf_disk s p"
proof -
  let ?n = "sf_next s" and ?s = "file_step E s (Turn_Start now)" and ?D = "sf_disk s p"
  have "before_of (view E (sf_tracker s)) i k = None" if "?n \<le> i" for i k
    using session_okD(2)[OF assms(2), of i] that by (fastforce simp: before_of_None)
  then have "since E ?n ?D p s" by (auto simp: since_def first_at_def)
  then have first: "since E ?n ?D p ?s" by (rule start_since[OF assms(2)])
  have whole: "unbroken E ?n ?s" using start_view[OF assms(2), of now] by (simp add: unbroken_def less_Suc_eq)
  have ok: "session_ok E ?s" using start_ok[OF assms(2)] .
  have order: "orderly E ?s es" and told: "reports_truly E p ?s es" using assms(3,9) by simp_all
  let ?t = "run (file_step E) ?s es"
  have since: "since E ?n ?D p ?t" and more: "?n < sf_next ?t"
    using run_since[OF assms(1) ok order assms(4) whole assms(5,7) first told] by (simp_all add: unbroken_def)
  have okt: "session_ok E ?t" using ok order by (rule reachable_session_ok)
  obtain t' points where points: "get_rewind_points E (sf_tracker ?t) = (t', points)" by fastforce
  have "sf_disk (file_step E ?t (Rewind mode ?n)) p = ?D"
    unfolding rewind_disk[OF assms(8) more points] by (rule revert_since[OF assms(1) okt points assms(6) since])
  then show ?thesis by simp
qed

theorem rewind_restores_files_witness:
  "sf_disk (file_step demo_rewind_env (run (file_step demo_rewind_env) demo_session
     (Turn_Start 0 # demo_events)) (Rewind Mode_All 0)) (demo_file 97) = Some [104, 105]"
proof -
  have "from_absolute (re_root demo_rewind_env) (demo_file 97) = Some [Normal [97]]"
    by (simp add: from_absolute_def demo_rewind_env_def demo_file_def rooted_def)
  moreover have "textual (sf_disk demo_session (demo_file 97))"
    using textual_encode[of "[104, 105]"]
    by (simp add: demo_session_def demo_disk_def encode_def encode_char_def scalar_def)
  moreover have "reports_truly demo_rewind_env (demo_file 97) demo_session (Turn_Start 0 # demo_events)" by code_simp
  ultimately show ?thesis
    using rewind_restores_files[OF demo_healthy demo_session_ok demo_orderly, of "demo_file 97" "[Normal [97]]" Mode_All]
    by (simp add: demo_session_def demo_events_def demo_disk_def demo_file_def)
qed

section \<open>A failed rewind\<close>

lemma rewind_files_disk:
  assumes "get_rewind_points E t = (t', points)"
  shows "snd (fst (rewind_files E n (t, d))) = fst (force_revert E (files_to_revert points n) d)"
  using same_disk[of E points "iterate E (files_to_revert points n)" d empty_log "[]"]
  by (auto simp: rewind_files_def assms force_revert_def split: prod.split)

lemma rewind_files_tracker:
  assumes "get_rewind_points E t = (t', points)"
  shows "fst (fst (rewind_files E n (t, d))) =
    (if fr_success (snd (rewind_files E n (t, d))) then truncate_from E n t' else t')"
  by (simp add: rewind_files_def assms split: prod.split)

lemma rewind_files_success:
  assumes "get_rewind_points E t = (t', points)"
  shows "fr_success (snd (rewind_files E n (t, d))) \<longleftrightarrow>
    \<not> rl_errors (snd (fold (revert_step E points) (iterate E (files_to_revert points n)) (d, empty_log)))"
  by (auto simp: rewind_files_def assms split: prod.split)

lemma ensure_twice: "ensure_historical_loaded E (ensure_historical_loaded E t) = ensure_historical_loaded E t"
  by (auto simp: ensure_historical_loaded_def split: option.splits)

lemma get_points_env:
  "re_source E' = re_source E \<Longrightarrow> re_json E' = re_json E \<Longrightarrow> get_rewind_points E' t = get_rewind_points E t"
  by (simp add: get_rewind_points_def ensure_historical_loaded_def cong: option.case_cong)

lemma get_points_again:
  assumes "get_rewind_points E t = (t', points)" "re_source E' = re_source E" "re_json E' = re_json E"
  shows "get_rewind_points E' t' = (t', points)"
  using assms(1) get_points_env[OF assms(2,3)] by (auto simp: get_rewind_points_def Let_def ensure_twice)

lemma reverted_cong:
  assumes "\<And>p. \<forall>r. from_absolute root p = Some r \<longrightarrow> map_of fs (Relative r) = None \<Longrightarrow> d p = d' p"
  shows "reverted_disk root fs d = reverted_disk root fs d'"
proof
  fix p
  show "reverted_disk root fs d p = reverted_disk root fs d' p"
    using assms[of p] by (cases "from_absolute root p") (simp_all add: reverted_disk_def split: option.split)
qed

text \<open>C8: \<open>rewind_files\<close> can be repeated after an error: when it reports failure the tracker still has every
  point, those from the stored file included, and no other; and calling it again once the file system
  works and the stored file is the same succeeds and restores every file, the ones that failed and the
  ones that a failed write had damaged, so that the disk is the one a single call without errors leaves.\<close>

theorem failed_rewind_can_be_retried:
  assumes "session_ok E s" "fair_order E" "\<not> fr_success (snd (rewind_files E n (sf_tracker s, d)))"
    and "healthy E'" "re_root E' = re_root E" "re_source E' = re_source E" "re_json E' = re_json E"
  shows "view E (fst (fst (rewind_files E n (sf_tracker s, d)))) = view E (sf_tracker s) \<and>
    snd (get_rewind_points E (fst (fst (rewind_files E n (sf_tracker s, d))))) = snd (get_rewind_points E (sf_tracker s)) \<and>
    fr_success (snd (rewind_files E' n (fst (rewind_files E n (sf_tracker s, d))))) \<and>
    snd (fst (rewind_files E' n (fst (rewind_files E n (sf_tracker s, d))))) =
    snd (fst (rewind_files E' n (sf_tracker s, d)))"
proof -
  define d1 where "d1 = snd (fst (rewind_files E n (sf_tracker s, d)))"
  obtain t' points where points: "get_rewind_points E (sf_tracker s) = (t', points)" by fastforce
  have points': "get_rewind_points E' (sf_tracker s) = (t', points)"
    using points get_points_env[OF assms(6,7)] by simp
  let ?fs = "files_to_revert points n"
  have kept: "fst (rewind_files E n (sf_tracker s, d)) = (t', d1)"
    using rewind_files_tracker[OF points, of n d] assms(3) by (simp add: d1_def prod_eq_iff)
  note again = get_points_again[OF points assms(6,7)]
  have root: "re_root E' \<noteq> []" using assms(4) by (auto simp: healthy_def rooted_def)
  have own: "list_all own_key (map fst ?fs)" by (rule files_own[OF assms(1) points])
  have disk: "fst (force_revert E' ?fs x) = reverted_disk (re_root E') ?fs x" for x
    using assms(4) root by (intro force_revert_disk distinct_files_to_revert own) (auto simp: healthy_def)
  have "d1 p = d p" if "\<forall>r. from_absolute (re_root E) p = Some r \<longrightarrow> map_of ?fs (Relative r) = None" for p
  proof -
    have "p \<notin> (\<lambda>(k, c). to_absolute (re_root E) k) ` set (iterate E ?fs)"
    proof
      assume "p \<in> (\<lambda>(k, c). to_absolute (re_root E) k) ` set (iterate E ?fs)"
      then obtain k c where k: "(k, c) \<in> set (iterate E ?fs)" "to_absolute (re_root E) k = p" by auto
      have "k \<in> set (map fst ?fs)"
        using k(1) keys_iterate[of E ?fs] fair_set[OF assms(2)] by (metis fst_conv imageI list.set_map)
      then have "own_key k" "map_of ?fs k \<noteq> None" using own by (auto simp: list_all_iff map_of_eq_None_iff)
      then show False using that own_from_absolute[of k "re_root E" p] k(2) root assms(5) by auto
    qed
    then show ?thesis
      using force_fold_elsewhere[of p E "iterate E ?fs" "(d, [])"] rewind_files_disk[OF points, of n d]
      by (simp add: force_revert_def d1_def)
  qed
  then have same: "reverted_disk (re_root E') ?fs d1 = reverted_disk (re_root E') ?fs d"
    unfolding assms(5) by (rule reverted_cong)
  have "\<not> rl_errors (snd (fold (revert_step E' points) (iterate E' ?fs) (d1, empty_log)))"
    using assms(4) by (intro revert_no_errors) (auto simp: healthy_def list_all_iff)
  then have success: "fr_success (snd (rewind_files E' n (t', d1)))" by (simp only: rewind_files_success[OF again] simp_thms)
  have "view E t' = view E (sf_tracker s)"
    using points by (auto simp: get_rewind_points_def Let_def view_ensure)
  then show ?thesis unfolding kept using success same get_points_again[OF points refl refl]
    by (simp only: rewind_files_disk[OF again] rewind_files_disk[OF points'] disk simp_thms fst_conv snd_conv points)
qed

definition broken_env :: rewind_env where
  "broken_env = demo_rewind_env\<lparr>re_write_error := (\<lambda>p. p = demo_file 97), re_after_failure := (\<lambda>_ _. Some [])\<rparr>"

definition edited_session :: session_files where
  "edited_session = run (file_step demo_rewind_env) demo_session
     [Turn_Start 0, Agent_Write 1 (demo_file 97) (Some [120]) (Some [104, 105]) False,
      Agent_Write 2 (demo_file 98) (Some [121]) None True, Turn_End 3]"

lemma edited_session_ok: "session_ok E edited_session"
proof -
  have "session_ok demo_rewind_env edited_session"
    unfolding edited_session_def by (rule reachable_session_ok[OF demo_session_ok]) code_simp
  moreover have "lazy_source (sf_tracker edited_session) = None" by code_simp
  ultimately show ?thesis by (simp add: session_ok_def view_def history_def)
qed

theorem failed_rewind_can_be_retried_witness:
  "snd (fst (rewind_files demo_rewind_env 0 (fst (rewind_files broken_env 0
     (sf_tracker edited_session, sf_disk edited_session))))) (demo_file 97) = Some [104, 105]"
proof -
  have "\<not> fr_success (snd (rewind_files broken_env 0 (sf_tracker edited_session, sf_disk edited_session)))"
    by code_simp
  then have "snd (fst (rewind_files demo_rewind_env 0 (fst (rewind_files broken_env 0
      (sf_tracker edited_session, sf_disk edited_session))))) =
    snd (fst (rewind_files demo_rewind_env 0 (sf_tracker edited_session, sf_disk edited_session)))"
    using failed_rewind_can_be_retried[OF edited_session_ok _ _ demo_healthy, of broken_env 0 "sf_disk edited_session"]
    by (simp add: broken_env_def demo_rewind_env_def fair_order_def)
  moreover have "snd (fst (rewind_files demo_rewind_env 0 (sf_tracker edited_session, sf_disk edited_session)))
      (demo_file 97) = Some [104, 105]" by code_simp
  ultimately show ?thesis by simp
qed

section \<open>Where a rewind loses something\<close>

text \<open>A forced rewind of the shell drops the points also when a file could not be written, and
  reports success: repeating it finds nothing to restore. \<open>rewind_files\<close> keeps them.\<close>

lemma forced_rewind_forgets_failures:
  "sf_disk (run (file_step broken_env) edited_session [Rewind Mode_All 0]) (demo_file 97) = Some [] \<and>
   rewind_points (sf_tracker (run (file_step broken_env) edited_session [Rewind Mode_All 0])) = []"
  by code_simp

text \<open>A rewind of the files alone leaves a gap in the points. A later rewind of the conversation folds
  the point behind the gap into nothing, and a rewind to the first prompt no longer restores the file.\<close>

definition gap_events :: "file_event list" where
  "gap_events = [Turn_Start 0, Turn_End 1, Turn_Start 2, Turn_End 3, Rewind Files_Only 1,
     Turn_Start 4, Agent_Write 5 (demo_file 97) (Some [120]) (Some [104, 105]) False, Turn_End 6, Rewind Conversation_Only 2]"

lemma folding_across_a_gap_loses_snapshots:
  "orderly demo_rewind_env demo_session gap_events \<and>
   sf_disk (run (file_step demo_rewind_env) demo_session (gap_events @ [Rewind Mode_All 0])) (demo_file 97) = Some [120]"
  by code_simp

text \<open>Without the rewind of the files alone the same session is undone.\<close>

lemma folding_keeps_snapshots:
  "sf_disk (run (file_step demo_rewind_env) demo_session
     (filter (\<lambda>e. e \<noteq> Rewind Files_Only 1) gap_events @ [Rewind Mode_All 0])) (demo_file 97) = Some [104, 105]"
  by (simp add: gap_events_def) code_simp

text \<open>A session that was resumed while its file could not be read: the rewind restores nothing
  and reports success.\<close>

lemma unreadable_history_is_ignored:
  assumes "re_source E path = Unreadable" "fair_order E"
  shows "rewind_files E n (with_lazy_source path, d) = ((with_lazy_source path, d),
    \<lparr>fr_success = True, fr_target = n, fr_reverted = [], fr_clean = [], fr_conflicts = [], fr_error = None\<rparr>)"
proof -
  have same: "ensure_historical_loaded E (with_lazy_source path) = with_lazy_source path"
    by (simp add: ensure_historical_loaded_def with_lazy_source_def assms(1) read_rewind_points_file_def
        read_rewind_jsonl_lines_def)
  have points: "get_rewind_points E (with_lazy_source path) = (with_lazy_source path, [])"
    unfolding get_rewind_points_def Let_def same by (simp add: with_lazy_source_def)
  have "iterate E [] = ([] :: (flexible_path \<times> ustr option) list)" using fair_set[OF assms(2), of "[]"] by (simp add: iterate_def)
  moreover have "truncate_from E n (with_lazy_source path) = with_lazy_source path"
    unfolding truncate_from_def Let_def same by (simp add: with_lazy_source_def)
  ultimately show ?thesis
    by (simp add: rewind_files_def points files_to_revert_def empty_log_def)
qed

text \<open>
  Stored rewind points: a file of points is read back as it was written, the picker shows every point
  that can be loaded, and what old sessions with absolute paths can run into.
\<close>

section \<open>Reading back a file\<close>

text \<open>What a JSON text written on one line looks like.\<close>

definition one_line :: "ustr \<Rightarrow> bool" where
  "one_line s \<longleftrightarrow> s \<noteq> [] \<and> LF \<notin> set s \<and> \<not> is_ws (hd s) \<and> \<not> is_ws (last s)"

lemma trim_one_line: "one_line s \<Longrightarrow> trim s = s"
proof -
  assume s: "one_line s"
  then have "dropWhile is_ws s = s" by (cases s) (simp_all add: one_line_def)
  moreover have "dropWhile is_ws (rev s) = rev s"
    using s by (cases s rule: rev_cases) (simp_all add: one_line_def)
  ultimately show "trim s = s" by (simp add: trim_def trim_start_def trim_end_def)
qed

lemma trim_LF: "trim (l @ [LF]) = trim l"
proof (cases "\<forall>c \<in> set l. is_ws c")
  case True
  then have "dropWhile is_ws (l @ [LF]) = []" "dropWhile is_ws l = []" by (auto simp: dropWhile_eq_Nil_conv is_ws_def)
  then show ?thesis by (simp only: trim_def trim_start_def)
next
  case False
  then obtain c where "c \<in> set l" "\<not> is_ws c" by blast
  then have "dropWhile is_ws (l @ [LF]) = dropWhile is_ws l @ [LF]" by (rule dropWhile_append1)
  then show ?thesis by (simp add: trim_def trim_start_def trim_end_def is_ws_def)
qed

lemma split_terminated_tail:
  assumes "\<forall>l \<in> set ls. LF \<notin> set l" "LF \<notin> set rest"
  shows "split_inclusive LF (concat (map (\<lambda>l. l @ [LF]) ls) @ rest) =
    map (\<lambda>l. l @ [LF]) ls @ (if rest = [] then [] else [rest])"
proof -
  have one: "split_inclusive LF (l @ LF # xs) = (l @ [LF]) # split_inclusive LF xs" if "LF \<notin> set l" for l xs
    using that by (induction l) auto
  have "split_inclusive LF rest = (if rest = [] then [] else [rest])"
    using assms(2) by (induction rest) (auto split: list.splits if_splits)
  then show ?thesis using assms(1) by (induction ls) (auto simp: one)
qed

text \<open>What one line of the file gives.\<close>

definition line_points :: "json_env \<Rightarrow> ustr \<Rightarrow> rewind_point list" where
  "line_points J l = (if trim l = [] then []
     else case Option.bind (je_from_str J (trim l)) (decode_point (je_parse_time J)) of None \<Rightarrow> [] | Some p \<Rightarrow> [p])"

lemma read_by_lines:
  "read_rewind_points_file J (Contents t) = Some (concat (map (line_points J) (split_inclusive LF t)))"
proof -
  have "List.map_filter f (filter (\<lambda>l. l \<noteq> []) (map trim ls)) =
      concat (map (\<lambda>l. if trim l = [] then [] else case f (trim l) of None \<Rightarrow> [] | Some p \<Rightarrow> [p]) ls)"
    for f :: "ustr \<Rightarrow> rewind_point option" and ls
    by (induction ls) (auto simp: List.map_filter_def split: option.splits)
  moreover have "line_points J = (\<lambda>l. if trim l = [] then [] else
      case Option.bind (je_from_str J (trim l)) (decode_point (je_parse_time J)) of None \<Rightarrow> [] | Some p \<Rightarrow> [p])"
    by (simp add: fun_eq_iff line_points_def)
  ultimately show ?thesis by (simp add: read_rewind_points_file_def read_rewind_jsonl_lines_def)
qed

text \<open>The lines of a file: the JSON of a point, or a line that gives none.\<close>

definition entry_text :: "(nat \<Rightarrow> ustr) \<Rightarrow> (json \<Rightarrow> ustr) \<Rightarrow> rewind_point + ustr \<Rightarrow> ustr" where
  "entry_text show_time to_string e = (case e of Inl p \<Rightarrow> to_string (encode_point show_time p) | Inr l \<Rightarrow> l)"

definition entry_points :: "rewind_point + ustr \<Rightarrow> rewind_point list" where
  "entry_points e = (case e of Inl p \<Rightarrow> [p] | Inr l \<Rightarrow> [])"

definition useless_line :: "json_env \<Rightarrow> ustr \<Rightarrow> bool" where
  "useless_line J l \<longleftrightarrow> LF \<notin> set l \<and> (trim l = [] \<or> je_from_str J (trim l) = None)"

lemma useless_points: "useless_line J l \<Longrightarrow> line_points J l = []"
  by (auto simp: useless_line_def line_points_def)

text \<open>C9: stored points are read back: a file whose lines are, in any order and number, the stored JSON of
  points and lines that are blank or not JSON, with or without a last line that was cut off before its
  line feed and is not JSON, is read as exactly the list of these points in their order, every
  path, text and time included; in particular a plain file of one point per line. Of the JSON library it
  asks that it writes these values on one line and reads them back, of the time format that it can be
  parsed, and of the points that their paths and times can be stored.\<close>

theorem stored_points_are_read_back:
  assumes "\<And>t. je_parse_time J (show_time t) = Some t"
    and "\<forall>p \<in> set (concat (map entry_points es)). storable p \<and> one_line (to_string (encode_point show_time p)) \<and>
      je_from_str J (to_string (encode_point show_time p)) = Some (encode_point show_time p)"
    and "\<forall>l. Inr l \<in> set es \<longrightarrow> useless_line J l" "useless_line J rest"
  shows "read_rewind_points_file J (Contents (concat (map (\<lambda>e. entry_text show_time to_string e @ [LF]) es) @ rest)) =
    Some (concat (map entry_points es))"
proof -
  let ?text = "entry_text show_time to_string"
  have each: "LF \<notin> set (?text e) \<and> line_points J (?text e @ [LF]) = entry_points e" if "e \<in> set es" for e
  proof (cases e)
    case (Inl p)
    then have "p \<in> set (concat (map entry_points es))" using that by (force simp: entry_points_def)
    then have p: "storable p" "one_line (?text e)" "je_from_str J (?text e) = Some (encode_point show_time p)"
      using assms(2) Inl by (auto simp: entry_text_def)
    have "?text e \<noteq> []" "LF \<notin> set (?text e)" using p(2) by (simp_all add: one_line_def)
    then show ?thesis using Inl trim_one_line[OF p(2)] p(3) decode_encode_point[OF assms(1) p(1)]
      by (simp add: line_points_def trim_LF entry_points_def)
  next
    case (Inr l)
    then have "useless_line J l" using assms(3) that by simp
    moreover from this have "LF \<notin> set l" by (simp add: useless_line_def)
    moreover have "line_points J (l @ [LF]) = line_points J l" by (simp add: line_points_def trim_LF)
    ultimately show ?thesis using Inr useless_points[of J l] by (simp add: entry_text_def entry_points_def)
  qed
  have "map (\<lambda>e. line_points J (?text e @ [LF])) es = map entry_points es" using each by (intro map_cong) auto
  moreover have "split_inclusive LF (concat (map (\<lambda>l. l @ [LF]) (map ?text es)) @ rest) =
      map (\<lambda>l. l @ [LF]) (map ?text es) @ (if rest = [] then [] else [rest])"
    using each assms(4) by (intro split_terminated_tail) (auto simp: useless_line_def)
  ultimately show ?thesis using useless_points[OF assms(4)]
    by (simp add: read_by_lines comp_def del: map_eq_conv)
qed

definition demo_point :: rewind_point where
  "demo_point = \<lparr>point_index = 3, created_at = 40,
     file_snapshots = [(Relative [Normal [97]], new_snapshot 41 (Relative [Normal [97]]) (Some [104]))],
     after_snapshots = [(Absolute [Root_Dir, Normal [98]], new_snapshot 42 (Absolute [Root_Dir, Normal [98]]) None)]\<rparr>"

definition demo_json :: json_env where
  "demo_json = \<lparr>je_parse_time = (\<lambda>s. if s = [] then None else Some (hd s)),
     je_from_str = (\<lambda>s. if s = [123, 125] then Some (encode_point (\<lambda>t. [t]) demo_point) else None)\<rparr>"

theorem stored_points_are_read_back_witness:
  "read_rewind_points_file demo_json (Contents [123, 125, 10, 120, 10, 32, 10, 123, 125, 10, 123]) = Some [demo_point, demo_point] \<and>
   read_rewind_points_file demo_json (Contents [123, 125, 10]) = Some [demo_point]"
proof -
  have ok: "storable demo_point" by (simp add: demo_point_def storable_def point_ok_def new_snapshot_def
      comps_ok_def name_ok_def rooted_def)
  have useless: "useless_line demo_json [120]" "useless_line demo_json [32]" "useless_line demo_json [123]" "useless_line demo_json []"
    by (simp_all add: useless_line_def demo_json_def trim_def trim_start_def trim_end_def is_ws_def)
  note stored = stored_points_are_read_back[of demo_json "\<lambda>t. [t]" _ "\<lambda>_. [123, 125]"]
  show ?thesis
    using stored[of "[Inl demo_point, Inr [120], Inr [32], Inl demo_point]" "[123]"] stored[of "[Inl demo_point]" "[]"] ok useless
    by (simp add: demo_json_def entry_points_def entry_text_def one_line_def is_ws_def)
qed

section \<open>The picker\<close>

text \<open>Every line that loads is shown, with its index and time.\<close>

lemma picker_shows_every_point:
  assumes "v = JObj kvs" "decode_point parse_time v = Some p"
  shows "\<exists>m. decode_meta parse_time v = Some m \<and> meta_index m = point_index p \<and> meta_created_at m = created_at p"
proof -
  have sub: "distinct (filter (\<lambda>k. k \<in> A) ks)" if "distinct (filter (\<lambda>k. k \<in> B) ks)" "A \<subseteq> B" for A B and ks :: "ustr list"
    using that by (induction ks) (auto split: if_splits)
  have fields: "distinct (filter (\<lambda>k. k \<in> set [u ''prompt_index'', u ''created_at'', u ''file_snapshots'', u ''after_snapshots'']) (map fst kvs))"
    using assms by (simp only: decode_point_def struct_fields_def json.case) (auto split: if_splits)
  then have "distinct (filter (\<lambda>k. k \<in> set [u ''prompt_index'', u ''created_at'', u ''file_snapshots'']) (map fst kvs))"
    by (rule sub) auto
  moreover have "decode_snapshots parse_time w = Some b \<Longrightarrow> \<exists>n. decode_count w = Some n" for w b
    by (cases w) (auto simp: decode_snapshots_def decode_count_def)
  ultimately show ?thesis using assms fields
    by (simp only: decode_point_def decode_meta_def struct_fields_def json.case)
      (fastforce split: option.splits Option.bind_splits simp: bind_eq_Some_conv)
qed

text \<open>The picker also shows points that cannot be loaded: it counts the snapshots without reading them.\<close>

lemma picker_shows_unloadable_point:
  assumes "parse_time [48] = Some 0"
  defines "v \<equiv> JObj [(u ''prompt_index'', JNat 2), (u ''created_at'', JStr [48]),
     (u ''file_snapshots'', JObj [([97], JNull)])]"
  shows "decode_meta parse_time v = Some \<lparr>meta_index = 2, meta_created_at = 0, num_file_snapshots = 1\<rparr>"
    "decode_point parse_time v = None"
  unfolding v_def
  by (simp_all add: decode_meta_def decode_point_def struct_fields_def decode_usize_def decode_time_def
      decode_count_def decode_snapshots_def decode_snapshot_def assms(1) u_def)

section \<open>Absolute and relative names of one file\<close>

text \<open>A session from before relative paths were stored: the point of prompt 0 names the file by its
  absolute path, that of prompt 1 by its relative one. Both are reverted, and the order in which a hash
  map is walked decides whether the file comes back as it was before prompt 0 or before prompt 1.\<close>

definition mixed_tracker :: file_tracker where
  "mixed_tracker = \<lparr>rewind_points =
     [(0, add_snapshot (new_snapshot 0 (Absolute (demo_file 97)) (Some [48])) (new_point 0 0)),
      (1, add_snapshot (new_snapshot 0 (Relative [Normal [97]]) (Some [49])) (new_point 0 1))],
     current_prompt_index = None, lazy_source = None\<rparr>"

lemma mixed_paths_depend_on_order:
  "snd (fst (rewind_files demo_rewind_env 0 (mixed_tracker, demo_disk))) (demo_file 97) = Some [49]"
  "snd (fst (rewind_files (demo_rewind_env\<lparr>re_key_order := rev\<rparr>) 0 (mixed_tracker, demo_disk))) (demo_file 97) = Some [48]"
  by code_simp+

text \<open>Normalizing the points first, as is done before they are stored, names the file once.\<close>

lemma normalized_paths_do_not:
  "snd (fst (rewind_files demo_rewind_env 0
     (normalize_all_to_relative demo_rewind_env (re_root demo_rewind_env) mixed_tracker, demo_disk))) (demo_file 97) = Some [48]"
  by code_simp

end
