(* ===== verification/Rewind_Patch.thy ===== *)
theory Rewind_Patch
  imports Rewind_Properties Patch_Properties
begin

text \<open>
  The patch tool, the notification bridge and the rewind tracker together: a patch that ran is, for the
  rewind, a sequence of agent writes, so a rewind undoes it; and the one kind of patch it does not undo.
\<close>

section \<open>Path texts and components\<close>

text \<open>The tool names files by path texts, the tracker by their components. A canonical text is the
  one its components are written as.\<close>

definition canonical :: "ustr \<Rightarrow> bool" where
  "canonical q \<longleftrightarrow> is_absolute q \<and> comps_ok (components q) \<and> path_text (components q) = q"

definition disk_of :: "(ustr \<times> bytes) list \<Rightarrow> disk" where
  "disk_of files c = (if comps_ok c then map_of files (path_text c) else None)"

lemma canonical_plain: "canonical q \<Longrightarrow> plain_path (components q)"
proof -
  assume q: "canonical q"
  then have root: "rooted (components q)" by (simp add: canonical_def components_rooted)
  then obtain cs where cs: "components q = Root_Dir # cs"
    by (cases "components q") (auto simp: rooted_def)
  have "list_all inner_ok cs" using q cs by (simp add: canonical_def comps_ok_def)
  then have "Cur_Dir \<notin> set cs" by (auto simp: list_all_iff)
  then show ?thesis using root cs by (simp add: plain_path_def)
qed

lemma canonical_eq: "canonical q \<Longrightarrow> comps_ok c \<Longrightarrow> path_text c = q \<longleftrightarrow> c = components q"
  by (metis canonical_def components_path_text)

lemma disk_at: "canonical q \<Longrightarrow> disk_of files (components q) = map_of files q"
  by (simp add: disk_of_def canonical_def)

lemma disk_update: "canonical q \<Longrightarrow> disk_of (AList.update q b files) = (disk_of files)(components q := Some b)"
  by (auto simp: disk_of_def fun_eq_iff canonical_eq) (auto simp: canonical_def)

lemma disk_delete: "canonical q \<Longrightarrow> disk_of (AList.delete q files) = (disk_of files)(components q := None)"
  by (auto simp: disk_of_def fun_eq_iff canonical_eq)

section \<open>A patch as agent writes\<close>

definition forward_note_to_files :: "nat \<Rightarrow> fpath \<Rightarrow> nat \<Rightarrow> file_written \<Rightarrow> file_tracker \<Rightarrow> file_tracker" where
  "forward_note_to_files now cwd i n =
     forward_written now cwd i (components (fw_path n)) (fw_previous n) (fw_is_new n)"

definition forward_notes_to_files :: "nat \<Rightarrow> fpath \<Rightarrow> nat \<Rightarrow> file_written list \<Rightarrow> file_tracker \<Rightarrow> file_tracker" where
  "forward_notes_to_files now cwd i ns t = fold (forward_note_to_files now cwd i) ns t"

fun touched_paths :: "file_change \<Rightarrow> ustr list" where
  "touched_paths (Add p t) = [p]"
| "touched_paths (Delete_File p t) = [p]"
| "touched_paths (Update p t t') = [p]"
| "touched_paths (Move p d t t') = [p, d]"

fun created_paths :: "file_change \<Rightarrow> ustr list" where
  "created_paths (Add p t) = [p]"
| "created_paths (Move p d t t') = [d]"
| "created_paths _ = []"

fun read_from :: "(ustr \<times> bytes) list \<Rightarrow> file_change \<Rightarrow> bool" where
  "read_from files (Add p t) = True"
| "read_from files (Delete_File p t) = (map_option decode_lossy (map_of files p) = Some t)"
| "read_from files (Update p t t') = (map_option decode_lossy (map_of files p) = Some t)"
| "read_from files (Move p d t t') = (map_option decode_lossy (map_of files p) = Some t)"

fun change_writes :: "nat \<Rightarrow> file_change \<Rightarrow> file_event list" where
  "change_writes now (Add p t) = [Agent_Write now (components p) (Some t) None True]"
| "change_writes now (Delete_File p t) = [Agent_Write now (components p) None (Some t) False]"
| "change_writes now (Update p t t') = [Agent_Write now (components p) (Some t') (Some t) False]"
| "change_writes now (Move p d t t') =
     [Agent_Write now (components d) (Some t') None True, Agent_Write now (components p) None (Some t) False]"

text \<open>What a session has seen of a patch: the disk is the one the tool works on, and the notifications
  sent so far have reached the tracker.\<close>

definition after_patch :: "nat \<Rightarrow> rewind_env \<Rightarrow> session_files \<Rightarrow> tool_state \<Rightarrow> session_files" where
  "after_patch now E s ts = s\<lparr>sf_disk := disk_of (to_files ts),
     sf_tracker := forward_notes_to_files now (re_root E) (sf_turn s) (to_notes ts) (sf_tracker s)\<rparr>"

text \<open>A change that was applied is the agent writes it reports, whatever was on disk.\<close>

lemma change_is_writes:
  assumes run: "apply_change T ch ts = (ts', Inr r)" and paths: "\<forall>q \<in> set (touched_paths ch). canonical q"
  shows "run (file_step E) (after_patch now E s ts) (change_writes now ch) = after_patch now E s ts'"
  using assms by (cases ch) (auto simp: disk_update disk_delete ensure_parent_dirs_def write_file_def delete_file_def
      notify_def after_patch_def forward_notes_to_files_def forward_note_to_files_def split: option.splits if_splits)

text \<open>It reports truly what it read before and what it created where nothing was.\<close>

lemma change_reports_truly:
  assumes paths: "\<forall>q \<in> set (touched_paths ch). canonical q" "distinct (touched_paths ch)"
    and old: "read_from (to_files ts) ch" "\<forall>q \<in> set (created_paths ch). map_of (to_files ts) q = None"
  shows "reports_truly E p (after_patch now E s ts) (change_writes now ch)"
proof (cases ch)
  case (Move q d t t')
  then have "components q \<noteq> components d" using paths by (auto simp: canonical_def)
  then show ?thesis using Move paths old by (auto simp: truthful_def after_patch_def disk_at)
qed (use paths old in \<open>auto simp: truthful_def after_patch_def disk_at\<close>)

lemma reports_truly_append:
  "reports_truly E p s (es @ es') \<longleftrightarrow> reports_truly E p s es \<and> reports_truly E p (run (file_step E) s es) es'"
  by (induction es arbitrary: s) auto

text \<open>A change leaves other files and what it would read of them alone.\<close>

lemma change_elsewhere:
  assumes "apply_change T ch ts = (ts', Inr r)" "q \<notin> set (touched_paths ch)"
  shows "map_of (to_files ts') q = map_of (to_files ts) q"
  using assms by (cases ch) (auto simp: ensure_parent_dirs_def write_file_def delete_file_def notify_def
      split: option.splits if_splits)

lemma read_elsewhere:
  assumes "\<And>q. q \<in> set (touched_paths ch) \<Longrightarrow> map_of files' q = map_of files q"
  shows "read_from files' ch = read_from files ch"
  using assms by (cases ch) auto

lemma changes_are_writes:
  assumes "apply_changes T chs ts = (ts', Inr rs)" "\<forall>ch \<in> set chs. \<forall>q \<in> set (touched_paths ch). canonical q"
  shows "run (file_step E) (after_patch now E s ts) (concat (map (change_writes now) chs)) = after_patch now E s ts'"
  using assms
proof (induction chs arbitrary: ts rs)
  case (Cons ch chs)
  obtain ts1 r rs' where one: "apply_change T ch ts = (ts1, Inr r)" and rest: "apply_changes T chs ts1 = (ts', Inr rs')"
    using Cons.prems(1) by (auto split: prod.splits sum.splits)
  have "run (file_step E) (after_patch now E s ts1) (concat (map (change_writes now) chs)) = after_patch now E s ts'"
    using Cons.prems(2) by (intro Cons.IH[OF rest]) auto
  moreover have "run (file_step E) (after_patch now E s ts) (change_writes now ch) = after_patch now E s ts1"
    using Cons.prems by (intro change_is_writes[OF one]) auto
  ultimately show ?case by simp
qed simp

lemma changes_report_truly:
  assumes "apply_changes T chs ts = (ts', Inr rs)"
    and "\<forall>ch \<in> set chs. \<forall>q \<in> set (touched_paths ch). canonical q" "distinct (concat (map touched_paths chs))"
    and "\<forall>ch \<in> set chs. read_from (to_files ts) ch \<and> (\<forall>q \<in> set (created_paths ch). map_of (to_files ts) q = None)"
  shows "reports_truly E p (after_patch now E s ts) (concat (map (change_writes now) chs))"
  using assms
proof (induction chs arbitrary: ts rs)
  case (Cons ch chs)
  obtain ts1 r rs' where one: "apply_change T ch ts = (ts1, Inr r)" and rest: "apply_changes T chs ts1 = (ts', Inr rs')"
    using Cons.prems(1) by (auto split: prod.splits sum.splits)
  have same: "map_of (to_files ts1) q = map_of (to_files ts) q" if "ch' \<in> set chs" "q \<in> set (touched_paths ch')" for ch' q
    using change_elsewhere[OF one, of q] Cons.prems(3) that by fastforce
  have sub: "set (created_paths ch') \<subseteq> set (touched_paths ch')" for ch' by (cases ch') auto
  have "read_from (to_files ts1) ch' \<and> (\<forall>q \<in> set (created_paths ch'). map_of (to_files ts1) q = None)"
    if "ch' \<in> set chs" for ch'
    using read_elsewhere[of ch' "to_files ts1" "to_files ts"] same[OF that] sub[of ch'] Cons.prems(4) that by auto
  then have "reports_truly E p (after_patch now E s ts1) (concat (map (change_writes now) chs))"
    using Cons.prems(2,3) by (intro Cons.IH[OF rest]) auto
  moreover have "run (file_step E) (after_patch now E s ts) (change_writes now ch) = after_patch now E s ts1"
    using Cons.prems by (intro change_is_writes[OF one]) auto
  moreover have "reports_truly E p (after_patch now E s ts) (change_writes now ch)"
    using Cons.prems by (intro change_reports_truly) auto
  ultimately show ?case by (simp add: reports_truly_append)
qed simp

lemma computed_read:
  assumes "compute_change T files h = Some (Inr ch)"
  shows "read_from files ch"
proof (cases h)
  case (UpdateFile p mv cs)
  then show ?thesis using assms by (cases mv)
    (auto simp: read_file_as_string_def Let_def split: option.splits sum.splits)
qed (use assms in \<open>auto simp: read_file_as_string_def Let_def split: option.splits sum.splits\<close>)

lemma all_computed_read:
  "compute_all_changes T files hs = Some (Inr chs) \<Longrightarrow> \<forall>ch \<in> set chs. read_from files ch"
  by (induction hs arbitrary: chs) (auto dest: computed_read split: option.splits sum.splits)

text \<open>A patch whose files are all different and that creates its new files where there are none.\<close>

definition separate_changes :: "tool_env \<Rightarrow> ustr \<Rightarrow> tool_state \<Rightarrow> bool" where
  "separate_changes T patch ts \<longleftrightarrow>
     (\<exists>parsed chs. parse_patch patch = Inr parsed \<and>
        compute_all_changes T (to_files ts) (pp_hunks parsed) = Some (Inr chs) \<and>
        (\<forall>ch \<in> set chs. \<forall>q \<in> set (touched_paths ch). canonical q) \<and> distinct (concat (map touched_paths chs)) \<and>
        (\<forall>ch \<in> set chs. \<forall>q \<in> set (created_paths ch). map_of (to_files ts) q = None))"

text \<open>For a session, a run of the patch tool whose notifications went through the bridge is a sequence of
  agent writes: there are write events, all at files of the patch, that lead the session to the same disk
  and the same tracker. Their reports are true when the patch touches each file once and does
  not create a file over another.\<close>

definition patch_writes :: "nat \<Rightarrow> tool_env \<Rightarrow> ustr \<Rightarrow> tool_state \<Rightarrow> file_event list" where
  "patch_writes now T patch ts =
     (case parse_patch patch of Inl e \<Rightarrow> [] | Inr parsed \<Rightarrow>
       (case compute_all_changes T (to_files ts) (pp_hunks parsed) of
         Some (Inr chs) \<Rightarrow> concat (map (change_writes now) chs) | _ \<Rightarrow> []))"

lemma patch_is_agent_writes:
  assumes "run_tool T patch ts = Some (ts', Inr (Success rs summary))" "separate_changes T patch ts"
    and "to_notes ts = []" "sf_disk s = disk_of (to_files ts)"
  shows "\<forall>e \<in> set (patch_writes now T patch ts). \<exists>p c v b. e = Agent_Write now p c v b \<and> plain_path p"
    "run (file_step E) s (patch_writes now T patch ts) = s\<lparr>sf_disk := disk_of (to_files ts'),
      sf_tracker := forward_notes_to_files now (re_root E) (sf_turn s) (to_notes ts') (sf_tracker s)\<rparr>"
    "reports_truly E p s (patch_writes now T patch ts)"
proof -
  obtain parsed chs where chs: "parse_patch patch = Inr parsed"
    "compute_all_changes T (to_files ts) (pp_hunks parsed) = Some (Inr chs)"
    "\<forall>ch \<in> set chs. \<forall>q \<in> set (touched_paths ch). canonical q" "distinct (concat (map touched_paths chs))"
    "\<forall>ch \<in> set chs. \<forall>q \<in> set (created_paths ch). map_of (to_files ts) q = None"
    using assms(2) unfolding separate_changes_def by blast
  obtain rs' where run: "apply_changes T chs ts = (ts', Inr rs')"
    using assms(1) chs(1,2) by (auto simp: run_tool_def split: if_splits prod.splits sum.splits)
  have start: "after_patch now E s ts = s"
    using assms(3,4) by (simp add: after_patch_def forward_notes_to_files_def)
  have writes: "patch_writes now T patch ts = concat (map (change_writes now) chs)"
    using chs(1,2) by (simp add: patch_writes_def)
  show "run (file_step E) s (patch_writes now T patch ts) = s\<lparr>sf_disk := disk_of (to_files ts'),
      sf_tracker := forward_notes_to_files now (re_root E) (sf_turn s) (to_notes ts') (sf_tracker s)\<rparr>"
    using changes_are_writes[OF run chs(3), of E now s] start by (simp add: writes after_patch_def)
  show "reports_truly E p s (patch_writes now T patch ts)"
    using changes_report_truly[OF run chs(3,4), of E p now s] all_computed_read[OF chs(2)] chs(5) start
    by (simp add: writes)
  have "\<exists>p c v b. e = Agent_Write now p c v b \<and> plain_path p" if "e \<in> set (change_writes now ch)" "ch \<in> set chs" for e ch
    using that chs(3) canonical_plain by (cases ch) auto
  then show "\<forall>e \<in> set (patch_writes now T patch ts). \<exists>p c v b. e = Agent_Write now p c v b \<and> plain_path p"
    by (auto simp: writes)
qed

section \<open>Undoing a patch\<close>

lemma write_current: "current_prompt_index (sf_tracker (file_step E s (Agent_Write now p c v b))) =
    current_prompt_index (sf_tracker s)"
  by (simp add: forward_written_def)

lemma orderly_writes:
  assumes "\<forall>e \<in> set es. \<exists>p c v b. e = Agent_Write now p c v b \<and> plain_path p"
    and "current_prompt_index (sf_tracker s) \<noteq> None"
  shows "orderly E s (es @ [Turn_End now])"
  using assms
proof (induction es arbitrary: s)
  case (Cons e es)
  then obtain p c v b where e: "e = Agent_Write now p c v b" "plain_path p" by auto
  have "current_prompt_index (sf_tracker (file_step E s e)) \<noteq> None"
    using Cons.prems(2) unfolding e write_current .
  then show ?case using Cons e by (simp del: file_step.simps)
qed simp

text \<open>C7: a patch that touches each file once and adds or moves no file over an existing one is undone:
  when a turn ran the patch tool with success, all its notifications reached the tracker and the turn ended,
  rewinding to that turn brings back every file of the working directory that was text - the updated, the
  moved and the deleted ones included - and removes the files the patch added, provided every operation
  on files works. Without the condition on existing files it does not hold: see the last lemma.\<close>

theorem rewind_undoes_patch:
  assumes "healthy E" "session_ok E s" "current_prompt_index (sf_tracker s) = None"
    and "run_tool T patch ts = Some (ts', Inr (Success rs summary))" "separate_changes T patch ts"
    and "to_notes ts = []" "sf_disk s = disk_of (to_files ts)"
    and "from_absolute (re_root E) p = Some r" "textual (sf_disk s p)"
  shows "sf_disk (file_step E (file_step E (after_patch now E (file_step E s (Turn_Start now)) ts') (Turn_End now))
    (Rewind Mode_All (sf_next s))) p = sf_disk s p"
proof -
  let ?s = "file_step E s (Turn_Start now)" and ?es = "patch_writes now T patch ts"
  have disk: "sf_disk ?s = disk_of (to_files ts)" using assms(7) by simp
  note es = patch_is_agent_writes[OF assms(4-6) disk]
  have after: "run (file_step E) ?s ?es = after_patch now E ?s ts'" using es(2)[where E = E and now = now] by (simp add: after_patch_def)
  have "orderly E ?s (?es @ [Turn_End now])"
    using orderly_writes[OF es(1)] by (simp add: begin_prompt_def)
  then have order: "orderly E s (Turn_Start now # ?es @ [Turn_End now])" using assms(3) by simp
  have calm: "\<forall>e \<in> set (?es @ [Turn_End now]). keeps_prompt (sf_next s) e"
    "\<forall>e \<in> set (?es @ [Turn_End now]). \<forall>b. e \<noteq> Outside_Write p b" using es(1)[where now = now] by force+
  have "reports_truly E p s (Turn_Start now # ?es @ [Turn_End now])"
    using es(3)[where E = E and p = p and now = now] by (simp add: reports_truly_append del: file_step.simps)
  from rewind_restores_files[OF assms(1,2) order calm assms(8,9) _ this, of Mode_All] show ?thesis
    using after by (simp del: file_step.simps)
qed

definition rewind_tool_env :: tool_env where
  "rewind_tool_env = pt_env\<lparr>te_cwd := [47, 119]\<rparr>"

definition patched_state :: tool_state where
  "patched_state = \<lparr>to_files = [([47, 119, 47, 97], [104, 105])], to_notes = []\<rparr>"

definition patched_session :: session_files where
  "patched_session = \<lparr>sf_tracker = new_file_tracker, sf_disk = disk_of (to_files patched_state), sf_turn = 0, sf_next = 0\<rparr>"

definition demo_patch :: "patch_hunk list" where
  "demo_patch = [DeleteFile [97], AddFile [98] [120, 10]]"

lemma demo_patch_paths:
  "join_path [47, 119] [97] = [47, 119, 47, 97]" "join_path [47, 119] [98] = [47, 119, 47, 98]"
  by (simp_all add: join_path_def)

lemma demo_patch_changes:
  "compute_all_changes rewind_tool_env (to_files patched_state) demo_patch =
    Some (Inr [Delete_File [47, 119, 47, 97] [104, 105], Add [47, 119, 47, 98] [120, 10]])"
  using ascii_text[of "[104, 105]"]
  by (simp add: demo_patch_def rewind_tool_env_def pt_env_def demo_patch_paths patched_state_def
      read_file_as_string_def Let_def)

lemma demo_patch_parsed:
  "parse_patch (print_patch demo_patch) = Inr \<lparr>pp_hunks = demo_patch, pp_patch = print_patch demo_patch\<rparr>"
  by (rule parse_print) (simp add: demo_patch_def path_ok_def line_ok_def is_ws_def ends_with_def)

lemma demo_canonical: "canonical [47, 119, 47, 97]" "canonical [47, 119, 47, 98]"
  by (simp_all add: canonical_def is_absolute_def components_def comp_of_def comps_ok_def name_ok_def path_text_def)

lemma demo_components: "components [47, 119, 47, 97] = demo_file 97" "components [47, 119, 47, 98] = demo_file 98"
  by (simp_all add: components_def is_absolute_def comp_of_def demo_file_def)

theorem rewind_undoes_patch_witness:
  "\<exists>ts' rs summary. run_tool rewind_tool_env (print_patch demo_patch) patched_state = Some (ts', Inr (Success rs summary)) \<and>
    map_of (to_files ts') [47, 119, 47, 97] = None \<and>
    sf_disk (file_step demo_rewind_env (file_step demo_rewind_env (after_patch 1 demo_rewind_env
      (file_step demo_rewind_env patched_session (Turn_Start 1)) ts') (Turn_End 1)) (Rewind Mode_All 0)) (demo_file 97) =
    Some [104, 105]"
proof -
  have applied: "\<exists>ts' rs. apply_changes rewind_tool_env [Delete_File [47, 119, 47, 97] [104, 105], Add [47, 119, 47, 98] [120, 10]]
      patched_state = (ts', Inr rs) \<and> map_of (to_files ts') [47, 119, 47, 97] = None"
    by (simp add: delete_file_def write_file_def ensure_parent_dirs_def notify_def patched_state_def
        rewind_tool_env_def pt_env_def)
  then obtain ts' rs where ts': "run_tool rewind_tool_env (print_patch demo_patch) patched_state =
      Some (ts', Inr (Success rs (build_summary rs)))" "map_of (to_files ts') [47, 119, 47, 97] = None"
    using demo_patch_changes demo_patch_parsed by (auto simp: run_tool_def demo_patch_def)
  have "separate_changes rewind_tool_env (print_patch demo_patch) patched_state"
    unfolding separate_changes_def using demo_patch_parsed demo_patch_changes demo_canonical
    by (auto simp: patched_state_def)
  moreover have "session_ok demo_rewind_env patched_session"
    unfolding patched_session_def by (rule fresh_session_ok)
  moreover have disk: "sf_disk patched_session (demo_file 97) = Some [104, 105]"
    using disk_at[OF demo_canonical(1), of "to_files patched_state"]
    by (simp add: patched_session_def demo_components patched_state_def)
  moreover have "from_absolute (re_root demo_rewind_env) (demo_file 97) = Some [Normal [97]]"
    by (simp add: from_absolute_def demo_rewind_env_def demo_file_def rooted_def)
  moreover have "textual (sf_disk patched_session (demo_file 97))"
    unfolding disk using ascii_text[of "[104, 105]"] by (simp add: textual_def)
  ultimately have "sf_disk (file_step demo_rewind_env (file_step demo_rewind_env (after_patch 1 demo_rewind_env
      (file_step demo_rewind_env patched_session (Turn_Start 1)) ts') (Turn_End 1))
      (Rewind Mode_All (sf_next patched_session))) (demo_file 97) = sf_disk patched_session (demo_file 97)"
    by (intro rewind_undoes_patch[OF demo_healthy _ _ ts'(1)])
      (simp_all add: patched_session_def new_file_tracker_def patched_state_def)
  then show ?thesis using ts' disk by (intro exI[of _ ts'] exI[of _ rs] exI[of _ "build_summary rs"])
      (simp add: patched_session_def del: file_step.simps)
qed

text \<open>A patch that adds a file over another reports it as new. The rewind then deletes the file that was
  there before the patch.\<close>

definition overwriting_change :: file_change where
  "overwriting_change = Add [47, 119, 47, 97] [120]"

lemma rewind_deletes_overwritten_file:
  "sf_disk patched_session (demo_file 97) = Some [104, 105] \<and>
   sf_disk (file_step demo_rewind_env (file_step demo_rewind_env (after_patch 1 demo_rewind_env
      (file_step demo_rewind_env patched_session (Turn_Start 1))
      (fst (apply_change rewind_tool_env overwriting_change patched_state))) (Turn_End 1)) (Rewind Mode_All 0))
     (demo_file 97) = None"
  by code_simp

end
