(* ===== verification/State_Properties.thy ===== *)
theory State_Properties
  imports Safe_Commands Perm_State
begin

text \<open>The properties of the built-in command lists.\<close>

text \<open>The lists agree: what is always safe is safe, and nothing that is safe is dangerous, whatever
  words follow; a default always-allow scope covers at least one and at most all words.\<close>

theorem command_lists_agree:
  "(is_always_safe_command_words ws \<longrightarrow> is_safe_command_words ws) \<and>
   \<not> (is_safe_command_words ws \<and> is_dangerous_command_words ws) \<and>
   (ws \<noteq> [] \<longrightarrow> 1 \<le> default_always_allow_scope ws) \<and> default_always_allow_scope ws \<le> length ws"
proof -
  have "length (takeWhile dashed (drop 2 ws)) \<le> length ws - 2"
    using length_takeWhile_le[of dashed "drop 2 ws"] by simp
  then have "ws \<noteq> [] \<Longrightarrow> 1 \<le> default_always_allow_scope ws \<and> default_always_allow_scope ws \<le> length ws"
    by (cases ws; cases "tl ws") (auto simp: default_always_allow_scope_def)
  moreover have "default_always_allow_scope [] = 0" by (simp add: default_always_allow_scope_def)
  ultimately show ?thesis using always_safe_is_safe safe_not_dangerous by (cases "ws = []") auto
qed

lemmas word_eval = u_def dashed_def double_dashed_def has_pre_def option_name_def

theorem command_lists_agree_witness:
  "is_safe_command_words [u ''ls''] \<and> \<not> is_dangerous_command_words [u ''ls'']"
proof -
  have "is_always_safe_command_words [u ''ls'']"
    by (simp add: is_always_safe_command_words_def special_surface_def rg_has_pre_flag_def
        kubectl_has_unsafe_flag_def ps_dumps_environment_def head_is_def always_safe_commands_def
        command_prefix_def word_eval)
  then show ?thesis using command_lists_agree[of "[u ''ls'']"] by blast
qed

section \<open>Read-only queries that are not\<close>

lemma git_query:
  assumes "v \<in> set safe_git_subcommands" "\<not> dashed v"
  shows "git_words_are_read_only_query (u ''git'' # v # ws) \<longleftrightarrow>
    \<not> list_ex git_query_option_is_unsafe (v # ws) \<and> \<not> (v = u ''grep'' \<and> list_ex (has_pre (u ''-O'')) (v # ws))"
proof -
  have v: "v \<noteq> u ''-''" "v \<noteq> u ''--''" using assms(2) by (auto simp: word_eval)
  then have "git_safe_query_verb_index (u ''git'' # v # ws) = Some 1"
    using assms(2) by (cases ws) (simp_all add: git_safe_query_verb_index_def)
  moreover have "\<not> git_has_exec_risk_global (u ''git'' # v # ws)"
    using v assms(2) by (simp add: git_has_exec_risk_global_def)
  ultimately show ?thesis
    using assms(1) by (auto simp: git_words_are_read_only_query_def git_words_have_unsafe_query_option_def)
qed

lemma grep_is_query: "u ''grep'' \<in> set safe_git_subcommands" "\<not> dashed (u ''grep'')"
  "\<not> git_query_option_is_unsafe (u ''grep'')" "\<not> has_pre (u ''-O'') (u ''grep'')"
  "u ''branch'' \<in> set safe_git_subcommands" "\<not> dashed (u ''branch'')" "\<not> git_query_option_is_unsafe (u ''branch'')"
  by (simp_all add: safe_git_subcommands_def git_query_option_is_unsafe_def git_query_unsafe_options_def word_eval)

lemma option_name_Cons: "option_name (c # w) = (if c = 61 then [] else c # option_name w)"
  by (simp add: option_name_def)

lemma bundle_not_unsafe: "\<not> git_query_option_is_unsafe (u ''-n'' @ p)"
  by (simp add: git_query_option_is_unsafe_def git_query_unsafe_options_def option_name_Cons has_pre_def u_def)

lemma safe_git_words: "git_words_are_read_only_query ws \<Longrightarrow> is_safe_command_words ws"
  by (auto simp: is_safe_command_words_def special_surface_def rg_has_pre_flag_def kubectl_has_unsafe_flag_def
      ps_dumps_environment_def head_is_def git_words_are_read_only_query_def u_def split: if_splits)

text \<open>C2: \<open>git grep -O\<close> with a pager is taken off the safe list because it runs the pager, but the same
  option bundled behind another, as in \<open>-nO\<close>, is not seen, so \<open>git grep -nOpager pattern\<close> counts as
  a read-only query and is safe for any pager.\<close>

theorem bundled_pager_is_read_only:
  assumes "\<not> git_query_option_is_unsafe pattern" "\<not> has_pre (u ''-O'') pattern"
  shows "\<not> git_words_are_read_only_query [u ''git'', u ''grep'', u ''-O'' @ pager, pattern] \<and>
    is_safe_command_words [u ''git'', u ''grep'', u ''-nO'' @ pager, pattern]"
proof
  have "has_pre (u ''-O'') (u ''-O'' @ pager)" by (simp add: has_pre_def u_def)
  then show "\<not> git_words_are_read_only_query [u ''git'', u ''grep'', u ''-O'' @ pager, pattern]"
    using git_query[OF grep_is_query(1,2)] by simp
  have nO: "u ''-nO'' @ pager = u ''-n'' @ (79 # pager)" by (simp add: u_def)
  have "\<not> has_pre (u ''-O'') (u ''-n'' @ (79 # pager))" by (simp add: has_pre_def u_def)
  then have "git_words_are_read_only_query [u ''git'', u ''grep'', u ''-nO'' @ pager, pattern]"
    using git_query[OF grep_is_query(1,2)] grep_is_query(3,4) bundle_not_unsafe assms unfolding nO by simp
  then show "is_safe_command_words [u ''git'', u ''grep'', u ''-nO'' @ pager, pattern]" by (rule safe_git_words)
qed

theorem bundled_pager_is_read_only_witness:
  "is_safe_command_words [u ''git'', u ''grep'', u ''-nO'' @ u ''sh'', u ''x'']"
  using bundled_pager_is_read_only[of "u ''x''" "u ''sh''"]
  by (simp add: git_query_option_is_unsafe_def word_eval)

text \<open>C3: \<open>git branch\<close> is on the table of read-only verbs with every option, so deleting, renaming or
  creating a branch is safe for any name.\<close>

theorem branch_deletion_is_read_only:
  assumes "\<not> git_query_option_is_unsafe name" "\<not> git_query_option_is_unsafe opt"
  shows "is_safe_command_words [u ''git'', u ''branch'', opt, name]"
proof (rule safe_git_words)
  show "git_words_are_read_only_query [u ''git'', u ''branch'', opt, name]"
    using git_query[OF grep_is_query(5,6)] grep_is_query(7) assms by (simp add: u_def)
qed

theorem branch_deletion_is_read_only_witness:
  "is_safe_command_words [u ''git'', u ''branch'', u ''-D'', u ''main'']"
  using branch_deletion_is_read_only[of "u ''main''" "u ''-D''"]
  by (simp add: git_query_option_is_unsafe_def git_query_unsafe_options_def word_eval)

lemma undashed_not_unsafe: "\<not> dashed w \<Longrightarrow> \<not> git_query_option_is_unsafe w"
  by (cases w) (auto simp: git_query_option_is_unsafe_def git_query_unsafe_options_def option_name_Cons
      option_name_def dashed_def has_pre_def u_def)

lemma status_query:
  assumes "\<not> dashed dir"
  shows "git_words_are_read_only_query [u ''git'', u ''-C'', dir, u ''status'']"
proof -
  have "\<not> git_has_exec_risk_global [u ''git'', u ''-C'', dir, u ''status'']"
    using assms by (simp add: git_has_exec_risk_global_def is_attached_git_config_c_def
        is_git_config_env_flag_def is_git_repo_retarget_flag_def is_accepted_long_option_prefix_def
        attached_git_c_path_def behind_global_def git_global_option_takes_value_def valued_git_globals_def word_eval)
  moreover have "git_safe_query_verb_index [u ''git'', u ''-C'', dir, u ''status''] = Some 3"
    by (simp add: git_safe_query_verb_index_def word_eval)
  moreover have "\<not> git_query_option_is_unsafe (u ''-C'')" "\<not> git_query_option_is_unsafe (u ''status'')"
    by (simp_all add: git_query_option_is_unsafe_def git_query_unsafe_options_def word_eval)
  moreover have "u ''status'' \<in> set safe_git_subcommands" "u ''status'' \<noteq> u ''grep''"
    by (simp_all add: safe_git_subcommands_def u_def)
  ultimately show ?thesis using undashed_not_unsafe[OF assms]
    by (simp add: git_words_are_read_only_query_def git_words_have_unsafe_query_option_def)
qed

text \<open>The default scope of a safe query behind \<open>git -C\<close> is \<open>git -C\<close> itself: the query is safe, but the
  granted prefix also covers pushing from that directory, which is on neither the dangerous list nor
  a special surface.\<close>

theorem default_scope_covers_push:
  assumes "is_static_path_operand dir"
  shows "is_safe_command_words [u ''git'', u ''-C'', dir, u ''status''] \<and>
    default_always_allow_scope [u ''git'', u ''-C'', dir, u ''status''] = 2 \<and>
    command_prefix (join [32] [u ''git'', u ''-C'', dir, u ''push'']) (join [32] (take 2 [u ''git'', u ''-C'', dir, u ''status''])) \<and>
    \<not> is_dangerous_command_words [u ''git'', u ''-C'', dir, u ''push''] \<and>
    \<not> special_surface [u ''git'', u ''-C'', dir, u ''push'']"
proof (intro conjI)
  show safe: "is_safe_command_words [u ''git'', u ''-C'', dir, u ''status'']"
    using assms status_query safe_git_words by (simp add: is_static_path_operand_def)
  have "\<not> is_safe_command_words_str (u ''git'')" "\<not> is_safe_command_words_str (join [32] [u ''git'', u ''-C''])"
    by (simp_all add: is_safe_command_words_str_def safe_prefixes_def command_prefix_def
        is_safe_git_query_prefix_def safe_git_subcommands_def has_pre_def u_def)
  moreover have "\<not> dashed dir" using assms by (simp add: is_static_path_operand_def)
  ultimately show "default_always_allow_scope [u ''git'', u ''-C'', dir, u ''status''] = 2"
    by (simp add: default_always_allow_scope_def)
  show "command_prefix (join [32] [u ''git'', u ''-C'', dir, u ''push''])
      (join [32] (take 2 [u ''git'', u ''-C'', dir, u ''status'']))"
    by (simp add: command_prefix_def has_pre_def u_def)
  show "\<not> is_dangerous_command_words [u ''git'', u ''-C'', dir, u ''push'']"
    by (simp add: is_dangerous_command_words_def dangerous_prefixes_def command_prefix_def has_pre_def u_def)
  show "\<not> special_surface [u ''git'', u ''-C'', dir, u ''push'']"
    by (simp add: special_surface_def rg_has_pre_flag_def kubectl_has_unsafe_flag_def ps_dumps_environment_def head_is_def u_def)
qed

theorem default_scope_covers_push_witness:
  "default_always_allow_scope [u ''git'', u ''-C'', u ''repo'', u ''status''] = 2"
  using default_scope_covers_push[of "u ''repo''"] by (simp add: is_static_path_operand_def word_eval)

text \<open>
  The names and hosts the permission manager grants by: qualified names of MCP tools, and the
  allowlist of hosts against the entries it was built from.
\<close>

section \<open>Qualified names\<close>

lemma delimiters_mem: "i \<in> set (delimiters s) \<longleftrightarrow> i + 1 < length s \<and> s ! i = 95 \<and> s ! (i + 1) = 95"
  by (auto simp: delimiters_def)

lemma delimiter_split:
  assumes "i \<in> set (delimiters s)"
  shows "s = take i s @ [95, 95] @ drop (i + 2) s"
proof -
  have i: "i < length s" "Suc i < length s" "s ! i = 95" "s ! Suc i = 95" using assms by (simp_all add: delimiters_mem)
  then have "drop i s = [95, 95] @ drop (i + 2) s"
    using Cons_nth_drop_Suc[of i s] Cons_nth_drop_Suc[of "Suc i" s] by simp
  then show ?thesis by (metis append_take_drop_id)
qed

text \<open>A qualified name parses exactly when it is a server and a tool, both nonempty, around the only
  place where two underscores stand in a row, and a well-formed identifier; so the server and the
  tool determine the name.\<close>

theorem qualified_name_parses:
  "parse_mcp_qualified_name name = Some (server, tool) \<longleftrightarrow>
     name = server @ [95, 95] @ tool \<and> server \<noteq> [] \<and> tool \<noteq> [] \<and> is_well_formed_tool_id name \<and>
     delimiters name = [length server]"
proof
  assume p: "parse_mcp_qualified_name name = Some (server, tool)"
  then obtain i where i: "delimiters name = [i]" "server = take i name" "tool = drop (i + 2) name"
    "server \<noteq> []" "tool \<noteq> []" "is_well_formed_tool_id name"
    by (auto simp: parse_mcp_qualified_name_def Let_def split: list.splits if_splits)
  then have "i \<in> set (delimiters name)" by simp
  then show "name = server @ [95, 95] @ tool \<and> server \<noteq> [] \<and> tool \<noteq> [] \<and> is_well_formed_tool_id name \<and>
      delimiters name = [length server]"
    using i delimiter_split[of i name] by (auto simp: delimiters_mem min_def)
next
  assume "name = server @ [95, 95] @ tool \<and> server \<noteq> [] \<and> tool \<noteq> [] \<and> is_well_formed_tool_id name \<and>
    delimiters name = [length server]"
  then show "parse_mcp_qualified_name name = Some (server, tool)"
    by (auto simp: parse_mcp_qualified_name_def Let_def)
qed

section \<open>The allowlist of hosts\<close>

text \<open>What one entry permits, read off its text.\<close>

definition entry_permits :: "'g policy_env \<Rightarrow> ustr \<Rightarrow> ustr \<Rightarrow> ustr \<Rightarrow> bool" where
  "entry_permits E host path raw \<longleftrightarrow>
     (let n = normalize_domain E raw; prefix = trim_end_char 47 (path_part n) in
      n \<noteq> [] \<and> host_part n = host \<and> (prefix = [] \<or> under_prefix path prefix))"

definition permitted_by :: "host_entry option \<Rightarrow> ustr \<Rightarrow> bool" where
  "permitted_by e path =
     (case e of None \<Rightarrow> False | Some AnyPath \<Rightarrow> True | Some (PathPrefixes ps) \<Rightarrow> list_ex (under_prefix path) ps)"

lemma path_part_slash: "path_part s \<noteq> [] \<Longrightarrow> hd (path_part s) = 47"
  unfolding path_part_def by (induction s) auto

lemma trim_end_char_prefix: "\<exists>n. s = trim_end_char c s @ replicate n c"
proof -
  have "takeWhile ((=) c) (rev s) = replicate (length (takeWhile ((=) c) (rev s))) c"
    by (rule replicate_eqI[symmetric, THEN sym]) (auto dest: set_takeWhileD)
  moreover have "s = rev (dropWhile ((=) c) (rev s)) @ rev (takeWhile ((=) c) (rev s))"
    by (metis rev_append rev_rev_ident takeWhile_dropWhile_id)
  ultimately show ?thesis unfolding trim_end_char_def by (metis rev_replicate)
qed

lemma trimmed_not_slash: "trim_end_char 47 s \<noteq> [47]"
proof
  assume a: "trim_end_char 47 s = [47]"
  then have "dropWhile ((=) 47) (rev s) = [47]" unfolding trim_end_char_def by (simp add: rev_swap)
  then show False using hd_dropWhile[of "(=) 47" "rev s"] by simp
qed

lemma trimmed_path_slash:
  assumes "trim_end_char 47 (path_part n) \<noteq> []"
  shows "hd (trim_end_char 47 (path_part n)) = 47"
proof -
  obtain k where k: "path_part n = trim_end_char 47 (path_part n) @ replicate k 47"
    using trim_end_char_prefix by blast
  then have "path_part n \<noteq> []" using assms by auto
  then show ?thesis using k assms path_part_slash[of n] by (metis hd_append2)
qed

lemma trim_end_Nil [simp]: "trim_end_char c [] = []"
  by (simp add: trim_end_char_def)

lemma add_entry_permits:
  "permitted_by (add_entry E raw m host) path \<longleftrightarrow> permitted_by (m host) path \<or> entry_permits E host path raw"
proof -
  have "hd (trim_end_char 47 (path_part (normalize_domain E raw))) = 47"
    if "trim_end_char 47 (path_part (normalize_domain E raw)) \<noteq> []" using that by (rule trimmed_path_slash)
  then show ?thesis
    by (auto simp: add_entry_def entry_permits_def permitted_by_def add_prefix_def trimmed_not_slash Let_def list_ex_iff
        split: option.splits host_entry.splits if_splits)
qed

lemma fold_permits:
  "permitted_by (fold (add_entry E) raws m host) path \<longleftrightarrow>
     permitted_by (m host) path \<or> (\<exists>raw \<in> set raws. entry_permits E host path raw)"
  by (induction raws arbitrary: m) (auto simp: add_entry_permits)

text \<open>The allowlist permits a URL exactly when one of the entries does, whatever their order and
  however entries for the same host overlap.\<close>

theorem allowlist_permits_what_entries_permit:
  "matcher_check E (new_matcher E raws) (Some raw_host) path \<longleftrightarrow>
     (\<exists>raw \<in> set raws. entry_permits E (normalize_domain E raw_host) (pv_lower E path) raw)"
  using fold_permits[of E raws Map.empty "normalize_domain E raw_host" "pv_lower E path"]
  by (simp add: matcher_check_def new_matcher_def permitted_by_def)

end
