(* ===== verification/Tool_Access.thy ===== *)
theory Tool_Access
  imports Manager_Behaviour Patch_Facts Plan_Properties
begin

text \<open>
  From the input of a tool to the access that the permission manager is asked for
  (\<open>permission/types.rs\<close>, over the variants of \<open>xai-grok-tools/src/types/tool_io.rs\<close>), and the gate of plan
  mode on it (\<open>tool_calls.rs\<close> in \<open>xai-grok-shell\<close>). An input carries the fields the translation or the
  tool itself needs.
\<close>

section \<open>Inputs\<close>

datatype tool_input =
  In_ReadFile ustr | In_SearchReplace ustr | In_Bash ustr | In_Grep "ustr option" "ustr option" | In_ListDir ustr
| In_TodoWrite | In_Skill | In_MCPTool ustr ustr | In_TaskOutput | In_WaitTasks | In_KillTask | In_Task
| In_WebSearch ustr | In_ImageGen | In_ImageEdit | In_ImageToVideo | In_ReferenceToVideo | In_WebFetch ustr
| In_Write ustr | In_ApplyPatch ustr | In_HashlineEdit ustr | In_CodexListDir ustr | In_CodexGrepFiles ustr
| In_CodexReadFile ustr | In_MemorySearch | In_MemoryGet | In_SearchTool | In_UseTool ustr ustr
| In_EnterPlanMode | In_ExitPlanMode | In_AskUserQuestion | In_Lsp | In_Monitor ustr | In_SchedulerCreate
| In_SchedulerDelete | In_SchedulerList | In_UpdateGoal | In_Workflow | In_Dynamic ustr

definition access_of_input :: "tool_input \<Rightarrow> access_kind" where
  "access_of_input x =
     (case x of
        In_ReadFile p \<Rightarrow> Read_Access (Some p)
      | In_ListDir p \<Rightarrow> Read_Access (Some p)
      | In_Grep path glob \<Rightarrow> Grep_Access path glob
      | In_WebSearch q \<Rightarrow> WebSearch_Access q
      | In_SearchReplace p \<Rightarrow> Edit_Access p
      | In_ApplyPatch _ \<Rightarrow> Edit_Access (u ''apply_patch'')
      | In_HashlineEdit p \<Rightarrow> Edit_Access p
      | In_Write p \<Rightarrow> Edit_Access p
      | In_Bash cmd \<Rightarrow> Bash_Access cmd
      | In_Monitor cmd \<Rightarrow> Bash_Access cmd
      | In_MCPTool name input \<Rightarrow> MCP_Access name input
      | In_UseTool name input \<Rightarrow> MCP_Access name input
      | In_WebFetch url \<Rightarrow> WebFetch_Access url
      | _ \<Rightarrow> Read_Access None)"

datatype plan_gate = Gate_Allow | RejectNonPlanFile

definition plan_mode_edit_gate :: "plan_tracker \<Rightarrow> access_kind \<Rightarrow> plan_gate" where
  "plan_mode_edit_gate t a =
     (if \<not> plan_is_active t then Gate_Allow
      else case a of
          Edit_Access path \<Rightarrow> if \<not> should_auto_approve_edit t path then RejectNonPlanFile else Gate_Allow
        | _ \<Rightarrow> Gate_Allow)"

section \<open>Plan mode\<close>

lemma split_on_append: "\<exists>zs. zs \<noteq> [] \<and> split_on sep (xs @ sep # ys) = zs @ split_on sep ys"
proof (induction xs)
  case (Cons x xs)
  then obtain z zs where "split_on sep (xs @ sep # ys) = z # zs @ split_on sep ys"
    by (metis append_Cons neq_Nil_conv)
  then show ?case
    by (cases "x = sep") (auto intro: exI[of _ "[] # z # zs"] exI[of _ "(x # z) # zs"])
qed (auto intro: exI[of _ "[[]]"])

lemma last_split_on: "last (split_on sep (xs @ sep # ys)) = last (split_on sep ys)"
  using split_on_append[of sep xs ys] by (auto simp: last_append)

lemma split_on_single: "sep \<notin> set s \<Longrightarrow> split_on sep s = [s]"
  by (induction s) auto

lemma plan_file_last: "last (split_on 47 (plan_file_in dir)) = u ''plan.md''"
proof -
  have s: "split_on 47 (u ''plan.md'') = [u ''plan.md'']" "u ''plan.md'' \<noteq> []" "hd (u ''plan.md'') \<noteq> 47"
    by (simp_all add: split_on_single u_def)
  consider "dir = []" | d where "dir = d @ [47]" | "dir \<noteq> []" "last dir \<noteq> 47"
    by (metis append_butlast_last_id)
  then show ?thesis
    by cases (use s in \<open>simp_all add: plan_file_in_def join_path_def last_split_on\<close>)
qed

lemma last_filter: "xs \<noteq> [] \<Longrightarrow> P (last xs) \<Longrightarrow> last (filter P xs) = last xs \<and> filter P xs \<noteq> []"
  by (induction xs rule: rev_induct) auto

lemma plan_file_components: "last (components (plan_file_in dir)) = Normal (u ''plan.md'')"
proof -
  have "u ''plan.md'' \<noteq> []" "u ''plan.md'' \<noteq> [46]" "u ''plan.md'' \<noteq> [46, 46]" by (simp_all add: u_def)
  then show ?thesis
    using last_filter[of "split_on 47 (plan_file_in dir)" "\<lambda>s. s \<noteq> [] \<and> s \<noteq> [46]"]
    by (simp add: components_def plan_file_last Let_def last_map comp_of_def)
qed

text \<open>C30: while plan mode is active, in every session, the gate lets an edit tool through only for the plan
  file of the session, and never the patch tool.\<close>

theorem plan_mode_edits_only_the_plan_file:
  assumes "t = se_tracker (run_plan renders es (start_session dir))" "plan_is_active t"
  shows "plan_mode_edit_gate t (access_of_input (In_ApplyPatch patch)) = RejectNonPlanFile \<and>
    (plan_mode_edit_gate t (Edit_Access path) = Gate_Allow \<longleftrightarrow> components path = components (plan_file_in dir))"
proof -
  have dest: "pt_file t = plan_file_in dir"
    using run_plan_ok[of "start_session dir" renders es] assms(1)
    by (simp add: start_session_def plan_tracker_at_def plan_tracker_ok_def)
  have "components (u ''apply_patch'') = [Normal (u ''apply_patch'')]"
    by (simp add: components_def split_on_single comp_of_def is_absolute_def u_def)
  then have "last (components (u ''apply_patch'')) \<noteq> last (components (plan_file_in dir))"
    by (simp add: plan_file_components) (simp add: u_def)
  then have "components (u ''apply_patch'') \<noteq> components (plan_file_in dir)" by auto
  then show ?thesis
    using assms(2) dest by (simp add: plan_mode_edit_gate_def access_of_input_def should_auto_approve_edit_def
        is_plan_file_write_def)
qed

theorem plan_mode_edits_only_the_plan_file_witness:
  "\<exists>renders es. let t = se_tracker (run_plan renders es (start_session (u ''/s''))) in
     plan_is_active t \<and> plan_mode_edit_gate t (access_of_input (In_ApplyPatch [])) = RejectNonPlanFile \<and>
     plan_mode_edit_gate t (Edit_Access (u ''/s/plan.md'')) = Gate_Allow"
proof -
  let ?t = "se_tracker (run_plan (\<lambda>_. True) [Toggle_On, Prompt None] (start_session (u ''/s'')))"
  have active: "plan_is_active ?t" by code_simp
  have "components (u ''/s/plan.md'') = components (plan_file_in (u ''/s''))" by code_simp
  then have "plan_mode_edit_gate ?t (access_of_input (In_ApplyPatch [])) = RejectNonPlanFile \<and>
      plan_mode_edit_gate ?t (Edit_Access (u ''/s/plan.md'')) = Gate_Allow"
    using plan_mode_edits_only_the_plan_file[OF refl active, of "[]" "u ''/s/plan.md''"] by blast
  then show ?thesis using active unfolding Let_def by blast
qed

end
