(* ===== verification/Tool_Calls.thy ===== *)
theory Tool_Calls
  imports Tool_Access Patch_Review
begin

text \<open>
  What stands between the model and a tool (\<open>tool_calls.rs\<close> in \<open>xai-grok-shell\<close>, \<open>request_with_path_context\<close>
  in \<open>permission/manager.rs\<close>): the gate of plan mode, the hooks, the way around the permission manager for
  the plan file, the manager, and what its decision does to the turn. A hook denial, the rendered
  message of the gate and the turns for the classifier are inputs; the tracker may change while the hooks run.
\<close>

section \<open>Preparing a call\<close>

datatype tool_loop =
  Loop_Continue | Loop_HookDenied ustr | Loop_PermissionReject ustr ustr | Loop_Cancelled | Loop_Followup ustr

datatype ('g, 'c) permission_handle = Allow_All | Manager_Gone | Manager "('g, 'c) manager_config"

record preparation =
  pp_name :: ustr
  pp_input :: tool_input
  pp_cwd :: ustr
  pp_display :: "ustr option"
  pp_hook :: "(ustr \<times> ustr) option"
  pp_rendered :: "ustr option"
  pp_turns :: "classifier_turn list"

definition plan_mode_edit_rejected_message :: "preparation \<Rightarrow> plan_tracker \<Rightarrow> ustr" where
  "plan_mode_edit_rejected_message p t =
     (case pp_rendered p of
        Some s \<Rightarrow> s
      | None \<Rightarrow> u ''Rejected: file edits are not allowed in plan mode - the only editable file is the plan file ('' @
          pt_file t @ u '').'')"

definition plan_file_auto_approve :: "plan_tracker \<Rightarrow> access_kind \<Rightarrow> bool" where
  "plan_file_auto_approve t a =
     (case a of Edit_Access path \<Rightarrow> should_auto_approve_edit t path | _ \<Rightarrow> False)"

text \<open>A dropped answer is a rejection.\<close>

definition request_with_path_context ::
  "('g, 'c) permission_handle \<Rightarrow> 'c request \<Rightarrow> 'c perm_actor \<Rightarrow> 'c perm_actor \<times> decision" where
  "request_with_path_context H r A =
     (case H of
        Allow_All \<Rightarrow> (A, Allow)
      | Manager_Gone \<Rightarrow> (A, decision.Reject (u ''permission manager unavailable''))
      | Manager C \<Rightarrow>
          (case handle_request C A r of
             (B, _, Some d) \<Rightarrow> (B, d)
           | (B, _, None) \<Rightarrow> (B, decision.Reject (u ''failed to receive permission decision''))))"

text \<open>\<open>None\<close> lets the call go on.\<close>

definition follow_decision :: "ustr \<Rightarrow> decision \<Rightarrow> (tool_loop \<times> ustr) option" where
  "follow_decision name d =
     (case d of
        PolicyDeny reason \<Rightarrow> Some (Loop_Continue, u ''Tool `'' @ name @ u ''` was not executed: '' @ reason)
      | decision.Reject reason \<Rightarrow> Some (Loop_PermissionReject name reason, reason @ u '' for tool `'' @ name @ u ''`'')
      | Cancelled \<Rightarrow> Some (Loop_Cancelled, u ''User cancelled the execution for tool `'' @ name @ u ''`'')
      | FollowupMessage msg \<Rightarrow>
          Some (Loop_Followup msg, u ''The user elected to avoid running the '' @ name @
            u '' tool. The tool was not executed. Please refer to the user's message for next steps.'')
      | Allow \<Rightarrow> None
      | Ask \<Rightarrow> None)"

definition request_of :: "preparation \<Rightarrow> 'c request \<Rightarrow> 'c request" where
  "request_of p r =
     r\<lparr>rq_access := access_of_input (pp_input p), rq_context := Some (pp_cwd p, pp_display p)\<rparr>"

definition refresh_transcript :: "preparation \<Rightarrow> 'c perm_actor \<Rightarrow> 'c perm_actor" where
  "refresh_transcript p A = (if ac_auto A \<and> pp_turns p \<noteq> [] then A\<lparr>ac_turns := pp_turns p\<rparr> else A)"

definition prepare_tool_call ::
  "('g, 'c) permission_handle \<Rightarrow> plan_tracker \<Rightarrow> plan_tracker \<Rightarrow> preparation \<Rightarrow> 'c request \<Rightarrow> 'c perm_actor \<Rightarrow>
     'c perm_actor \<times> (tool_loop \<times> ustr) option" where
  "prepare_tool_call H t t' p r A =
     (let a = access_of_input (pp_input p) in
      if plan_mode_edit_gate t a \<noteq> Gate_Allow then (A, Some (Loop_Continue, plan_mode_edit_rejected_message p t))
      else case pp_hook p of
          Some (hook, reason) \<Rightarrow> (A, Some (Loop_HookDenied hook, u ''Hook denied: '' @ reason))
        | None \<Rightarrow>
            if plan_file_auto_approve t' a then (A, None)
            else case request_with_path_context H (request_of p r) (refresh_transcript p A) of
                (B, d) \<Rightarrow> (B, follow_decision (pp_name p) d))"

section \<open>Only an allowance lets a tool run\<close>

lemma request_of_simps [simp]:
  "rq_access (request_of p r) = access_of_input (pp_input p)"
  "request_cwd C (request_of p r) = pp_cwd p"
  "rq_gone_queued (request_of p r) = rq_gone_queued r" "rq_gone_scan (request_of p r) = rq_gone_scan r"
  by (simp_all add: request_of_def request_cwd_def)

lemma refresh_modes [simp]: "ac_yolo (refresh_transcript p A) = ac_yolo A" "ac_auto (refresh_transcript p A) = ac_auto A"
  by (simp_all add: refresh_transcript_def)

lemma grants_never_ask:
  "bash_grant_pre_decision cmd e S pinned opts = Some (d, reason) \<Longrightarrow> d \<noteq> Ask"
  "session_grant_pre_decision E W a ev S edits static pinned = Some (d, reason) \<Longrightarrow> d \<noteq> Ask"
  by (auto simp: session_grant_pre_decision_def grant_allow_def grant_if_def dest: bash_grant_cases
      mcp_pre_decision_Allow split: access_kind.splits option.splits if_splits)

lemma early_never_asks: "early_ruling C A r f = Some (d, approved, reason) \<Longrightarrow> d \<noteq> Ask"
  by (auto simp: early_ruling_def policy_denial_def session_grant_def dest: grants_never_ask
      split: option.splits decision.splits if_splits)

lemma auto_never_asks: "auto_stage C A r f = Some t \<Longrightarrow> ar_ruling t = Some (d, approved, reason) \<Longrightarrow> d \<noteq> Ask"
  by (auto simp: auto_stage_def follow_verdict_def Let_def split: if_splits auto_fast_path.splits classifier_verdict.splits)

lemma late_never_asks: "late_ruling r f forced = Some (d, approved, reason) \<Longrightarrow> d \<noteq> Ask"
  by (auto simp: late_ruling_def split: option.splits if_splits)

lemma pre_decision_never_asks: "pre_decision C A a f forced = Some (d, reason) \<Longrightarrow> d \<noteq> Ask"
  by (auto simp: pre_decision_def edit_pre_decision_def bash_pre_decision_def grant_allow_def Let_def
      dest: grants_never_ask mcp_pre_decision_Allow split: access_kind.splits option.splits if_splits)

lemma answer_never_asks: "answer_prompt r A = (B, d, outcome) \<Longrightarrow> d \<noteq> Ask"
  by (auto simp: answer_prompt_def answer_bash_def answer_other_def rejected_def prompt_failed_def
      split: access_kind.splits prompt_outcome.splits)

lemma prompt_never_asks: "prompt_stage C A t r f = (B, ev, Some d) \<Longrightarrow> d \<noteq> Ask"
  by (auto simp: prompt_stage_def abandoned_def Let_def dest: answer_never_asks split: if_splits prod.splits)

lemma after_auto_never_asks:
  assumes "auto_stage C A r f = Some t" "after_auto C A t r f = (B, ev, Some d)"
  shows "d \<noteq> Ask"
  using assms(2) by (auto simp: after_auto_def Let_def split: option.splits if_splits
      dest!: ruled_reply dest: auto_never_asks[OF assms(1)] late_never_asks settled_pre_decision
      pre_decision_never_asks prompt_never_asks)

lemma manager_never_asks [simp]: "handle_request C A r \<noteq> (B, ev, Some Ask)"
  by (auto simp: handle_request_def Let_def split: option.splits if_splits
      dest!: ruled_reply dest: early_never_asks after_auto_never_asks)

lemma goes_on:
  "snd (prepare_tool_call H t t' p r A) = None \<longleftrightarrow>
     plan_mode_edit_gate t (access_of_input (pp_input p)) = Gate_Allow \<and> pp_hook p = None \<and>
     (plan_file_auto_approve t' (access_of_input (pp_input p)) \<or>
      follow_decision (pp_name p) (snd (request_with_path_context H (request_of p r) (refresh_transcript p A))) = None)"
  by (simp add: prepare_tool_call_def Let_def split: option.split prod.split)

lemma denied_reply:
  assumes "mc_policy C = Some P"
    and "some_rule (sh_policy (mc_shell C)) P (rq_access r) (Some (request_cwd C r)) Deny_Rule"
  shows "follow_decision name (snd (request_with_path_context (Manager C) r A)) \<noteq> None"
  using denied_request[OF assms, of A] by (auto simp: request_with_path_context_def follow_decision_def)

lemma allowed_reply:
  "handle_request C A r = (B, ev, Some Allow) \<Longrightarrow>
     follow_decision name (snd (request_with_path_context (Manager C) r A)) = None"
  by (simp add: request_with_path_context_def follow_decision_def)

lemma no_plan_file [simp]:
  "\<not> plan_is_active t \<Longrightarrow> \<not> plan_file_auto_approve t a" "\<not> plan_file_auto_approve t (Read_Access x)"
  "\<not> plan_is_active t \<Longrightarrow> plan_mode_edit_gate t a = Gate_Allow" "plan_mode_edit_gate t (Read_Access x) = Gate_Allow"
  by (simp_all add: plan_file_auto_approve_def plan_mode_edit_gate_def should_auto_approve_edit_def split: access_kind.split)

text \<open>C23: a tool call goes on only if no hook denied it, plan mode allows it, and either it writes the plan file
  in plan mode or the manager, where there is one, answered that it is allowed.\<close>

theorem prepared_call_is_cleared:
  assumes "prepare_tool_call H t t' p r A = (B, None)"
  shows "pp_hook p = None \<and>
    (plan_is_active t \<longrightarrow> (\<forall>path. access_of_input (pp_input p) = Edit_Access path \<longrightarrow>
       components path = components (pt_file t))) \<and>
    (plan_file_auto_approve t' (access_of_input (pp_input p)) \<and> B = A \<or> H = Allow_All \<or>
     (\<exists>C ev. H = Manager C \<and>
        handle_request C (refresh_transcript p A) (request_of p r) = (B, ev, Some Allow)))"
proof -
  let ?a = "access_of_input (pp_input p)"
  have open_gate: "plan_mode_edit_gate t ?a = Gate_Allow" and hook: "pp_hook p = None"
    using assms by (auto simp: prepare_tool_call_def Let_def split: if_splits option.splits)
  have gate: "plan_is_active t \<longrightarrow> (\<forall>path. ?a = Edit_Access path \<longrightarrow> components path = components (pt_file t))"
    using open_gate by (auto simp: plan_mode_edit_gate_def should_auto_approve_edit_def is_plan_file_write_def
        split: if_splits)
  show ?thesis
  proof (cases "plan_file_auto_approve t' ?a")
    case True
    then show ?thesis using assms gate hook open_gate by (simp add: prepare_tool_call_def)
  next
    case False
    then obtain d where "request_with_path_context H (request_of p r) (refresh_transcript p A) = (B, d)"
      "follow_decision (pp_name p) d = None"
      using assms open_gate hook by (auto simp: prepare_tool_call_def split: prod.splits)
    then show ?thesis using gate hook
      by (auto simp: request_with_path_context_def follow_decision_def
          split: permission_handle.splits prod.splits option.splits decision.splits)
  qed
qed

text \<open>C24: a call that a deny rule of the policy applies to never goes on, in any mode, with any grant and
  whatever the hooks and the user would say, unless it edits the plan file in plan mode; when neither plan
  mode nor a hook stops it before and the requester is there, the model is told that the tool was not
  executed and the turn continues. No grant changes. The exception for the plan file is what the code does
  and contradicts the user guide: see \<open>denied_call_runs_only_on_plan_file\<close>.\<close>

theorem denied_call_is_stopped:
  assumes "mc_policy C = Some P"
    and "some_rule (sh_policy (mc_shell C)) P (access_of_input (pp_input p)) (Some (pp_cwd p)) Deny_Rule"
    and "\<not> plan_file_auto_approve t' (access_of_input (pp_input p))"
  shows "\<exists>B loop msg. prepare_tool_call (Manager C) t t' p r A = (B, Some (loop, msg)) \<and> ac_state B = ac_state A \<and>
    (plan_mode_edit_gate t (access_of_input (pp_input p)) = Gate_Allow \<and> pp_hook p = None \<and>
       \<not> rq_gone_queued r \<and> \<not> rq_gone_scan r \<longrightarrow>
     loop = Loop_Continue \<and> (\<exists>reason. msg = u ''Tool `'' @ pp_name p @ u ''` was not executed: '' @ reason))"
proof (cases "plan_mode_edit_gate t (access_of_input (pp_input p)) = Gate_Allow \<and> pp_hook p = None")
  case True
  obtain ev x where x: "handle_request C (refresh_transcript p A) (request_of p r) = (refresh_transcript p A, ev, x)"
      "x = None \<or> (\<exists>reason. x = Some (PolicyDeny reason))"
    using denied_request[of C P "request_of p r" "refresh_transcript p A"] assms(1,2) by auto
  have "\<not> rq_gone_queued r \<and> \<not> rq_gone_scan r \<longrightarrow> x \<noteq> None"
    using denied_answered[of C P "request_of p r" "refresh_transcript p A"] assms(1,2) x(1) by auto
  then show ?thesis using True assms(3) x
    by (auto simp: prepare_tool_call_def request_with_path_context_def follow_decision_def refresh_transcript_def)
next
  case False
  then show ?thesis by (cases "pp_hook p") (auto simp: prepare_tool_call_def Let_def split: prod.split)
qed

text \<open>The exact condition: a denied call runs when it edits the plan file while plan mode is active and no
  hook stops it, because then the manager is not asked.\<close>

lemma denied_call_runs_only_on_plan_file:
  assumes "mc_policy C = Some P"
    and "some_rule (sh_policy (mc_shell C)) P (access_of_input (pp_input p)) (Some (pp_cwd p)) Deny_Rule"
  shows "snd (prepare_tool_call (Manager C) t t' p r A) = None \<longleftrightarrow>
    plan_mode_edit_gate t (access_of_input (pp_input p)) = Gate_Allow \<and> pp_hook p = None \<and>
    plan_file_auto_approve t' (access_of_input (pp_input p))"
  using denied_reply[of C P "request_of p r" "pp_name p" "refresh_transcript p A"] assms by (auto simp: goes_on)

definition demo_call :: "tool_input \<Rightarrow> preparation" where
  "demo_call x = \<lparr>pp_name = u ''tool'', pp_input = x, pp_cwd = u ''/w'', pp_display = None, pp_hook = None,
     pp_rendered = None, pp_turns = []\<rparr>"

definition planning :: plan_tracker where
  "planning = se_tracker (run_plan (\<lambda>_. True) [Toggle_On, Prompt None] (start_session (u ''/s'')))"

definition idle_manager :: "bool \<Rightarrow> unit perm_actor" where
  "idle_manager yolo = start_manager (demo_manager Prompt_Ask False) yolo default_state None True"

lemma idle_manager_modes [simp]: "ac_yolo (idle_manager yolo) = yolo" "\<not> ac_auto (idle_manager yolo)"
  by (simp_all add: idle_manager_def clamp_yolo_def)

lemma planning_facts:
  "plan_mode_edit_gate planning (Edit_Access (u ''/s/plan.md'')) = Gate_Allow"
  "plan_file_auto_approve planning (Edit_Access (u ''/s/plan.md''))"
  "\<not> plan_file_auto_approve planning (Edit_Access (u ''/w/a''))"
  by code_simp+

theorem prepared_call_is_cleared_witness:
  "\<exists>r. snd (prepare_tool_call (Manager (demo_manager Prompt_Ask False)) planning planning
      (demo_call (In_Write (u ''/s/plan.md''))) (r :: unit request) (idle_manager False)) = None \<and>
    pp_hook (demo_call (In_Write (u ''/s/plan.md''))) = None"
proof -
  let ?r = "demo_request (Read_Access None) AllowOnce"
  have call: "prepare_tool_call (Manager (demo_manager Prompt_Ask False)) planning planning
      (demo_call (In_Write (u ''/s/plan.md''))) ?r (idle_manager False) =
      (idle_manager False, None)"
    by (simp add: prepare_tool_call_def demo_call_def access_of_input_def planning_facts)
  then show ?thesis using prepared_call_is_cleared[OF call] by (intro exI[of _ ?r]) simp
qed

text \<open>A policy that denies every edit, always-approve mode, and plan mode: a write elsewhere is stopped, the
  plan file is written all the same.\<close>

lemma deny_edits:
  "some_rule (sh_policy (mc_shell (with_policy [tool_rule Deny_Rule Edit_Tool] (demo_manager Prompt_Ask False))))
     (the (mc_policy (with_policy [tool_rule Deny_Rule Edit_Tool] (demo_manager Prompt_Ask False))))
     (access_of_input (pp_input (demo_call (In_Write q)))) (Some (pp_cwd (demo_call (In_Write q)))) Deny_Rule"
  unfolding demo_rule by (simp add: applies_def tool_rule_def demo_call_def access_of_input_def
      tool_filter_matches_def pattern_matches_def)

theorem denied_call_is_stopped_witness:
  "\<exists>B reason. prepare_tool_call (Manager (with_policy [tool_rule Deny_Rule Edit_Tool] (demo_manager Prompt_Ask False)))
      (plan_tracker_at (u ''/s'')) planning (demo_call (In_Write (u ''/w/a'')))
      (demo_request (Read_Access None) AllowOnce) (idle_manager True) =
    (B, Some (Loop_Continue, u ''Tool `tool` was not executed: '' @ reason))"
proof -
  let ?C = "with_policy [tool_rule Deny_Rule Edit_Tool] (demo_manager Prompt_Ask False)"
  have "mc_policy ?C = Some (the (mc_policy ?C))" by (simp add: with_policy_def)
  moreover have "\<not> plan_file_auto_approve planning (access_of_input (pp_input (demo_call (In_Write (u ''/w/a'')))))"
    by (simp add: demo_call_def access_of_input_def planning_facts)
  moreover have "\<not> plan_is_active (plan_tracker_at (u ''/s''))" by (simp add: plan_tracker_at_def plan_is_active_def)
  ultimately show ?thesis
    using denied_call_is_stopped[OF _ deny_edits, of planning "u ''/w/a''" "plan_tracker_at (u ''/s'')"
        "demo_request (Read_Access None) AllowOnce" "idle_manager True"]
    by (fastforce simp: demo_call_def demo_request_def u_def)
qed

lemma denied_plan_file_is_written:
  "snd (prepare_tool_call (Manager (with_policy [tool_rule Deny_Rule Edit_Tool] (demo_manager Prompt_Ask False)))
     planning planning (demo_call (In_Write (u ''/s/plan.md''))) r A) = None"
  using denied_call_runs_only_on_plan_file[OF _ deny_edits, of planning planning "u ''/s/plan.md''" r A]
  by (simp add: with_policy_def demo_call_def access_of_input_def planning_facts)

section \<open>Inputs whose access hides the target\<close>

lemma unruled_edit_under_yolo:
  assumes "mc_policy C = Some P" "rq_access r = Edit_Access path" "\<not> rq_gone_queued r" "ac_yolo A"
    and "evaluate_with_cwd (sh_policy (mc_shell C)) P (Edit_Access path) (Some (request_cwd C r)) = None"
  shows "\<exists>ev. handle_request C A r = (A, ev, Some Allow)"
proof -
  have "request_preflight C A r = \<lparr>pf_direct = None, pf_bash = None, pf_file = None, pf_defers = False\<rparr>"
    using assms(1,2,5) by (simp add: request_preflight_def evaluate_preflight_def Let_def)
  then have "early_ruling C A r (facts_of C A r) = Some (Allow, True, ''yolo'')"
    using assms(4) by (simp add: early_ruling_def policy_denial_def)
  moreover have "served C A r" using assms(2,3) by (simp add: served_def request_evaluation_def)
  ultimately show ?thesis by (simp add: served_request ruled_simps)
qed

text \<open>In always-approve mode a policy that denies edits of a file, but says nothing of the word
  \<open>apply_patch\<close>, stops the edit tool on that file and lets a patch change it.\<close>

theorem patch_escapes_edit_rules:
  assumes "mc_policy C = Some P" "ac_yolo A" "\<not> rq_gone_queued r" "\<not> plan_is_active t" "\<not> plan_is_active t'"
    and "some_rule (sh_policy (mc_shell C)) P (Edit_Access (join_path (te_cwd T) q)) (Some (pp_cwd p)) Deny_Rule"
    and "evaluate_with_cwd (sh_policy (mc_shell C)) P (Edit_Access (u ''apply_patch'')) (Some (pp_cwd p)) = None"
    and "pp_hook p = None"
    and patch: "map_of (to_files s) (join_path (te_cwd T) q) = Some (encode (terminated (pre @ old @ post)))"
      "te_read_error T (join_path (te_cwd T) q) = None" "te_write_error T (join_path (te_cwd T) q) = None"
      "first_exact pre old post" "\<forall>l \<in> set (pre @ old @ post). LF \<notin> set l \<and> list_all scalar l"
      "c = \<lparr>uc_context = None, uc_old_lines = old, uc_new_lines = new, uc_end_of_file = False\<rparr>"
      "printable (UpdateFile q None [c])" "pre @ new @ post = [] \<or> last (pre @ new @ post) \<noteq> []"
  shows "snd (prepare_tool_call (Manager C) t t' (p\<lparr>pp_input := In_SearchReplace (join_path (te_cwd T) q)\<rparr>) r A) \<noteq> None \<and>
    snd (prepare_tool_call (Manager C) t t' (p\<lparr>pp_input := In_ApplyPatch (print_patch [UpdateFile q None [c]])\<rparr>) r A) = None \<and>
    (\<exists>s' out. run_tool T (print_patch [UpdateFile q None [c]]) s = Some (s', Inr out) \<and>
       map_of (to_files s') (join_path (te_cwd T) q) = Some (encode (terminated (pre @ new @ post))))"
proof -
  let ?p = "p\<lparr>pp_input := In_ApplyPatch (print_patch [UpdateFile q None [c]])\<rparr>"
  obtain ev where "handle_request C (refresh_transcript ?p A) (request_of ?p r) = (refresh_transcript ?p A, ev, Some Allow)"
    using unruled_edit_under_yolo[of C P "request_of ?p r" "u ''apply_patch''" "refresh_transcript ?p A"] assms(1-3,7)
    by (auto simp: access_of_input_def)
  then have "snd (prepare_tool_call (Manager C) t t' ?p r A) = None"
    using assms(4,5,8) by (simp add: goes_on allowed_reply)
  moreover have "snd (prepare_tool_call (Manager C) t t' (p\<lparr>pp_input := In_SearchReplace (join_path (te_cwd T) q)\<rparr>) r A) \<noteq> None"
    using denied_reply[of C P "request_of (p\<lparr>pp_input := In_SearchReplace (join_path (te_cwd T) q)\<rparr>) r"] assms(1,5,6)
    by (simp add: goes_on access_of_input_def)
  moreover obtain rs where "run_tool T (print_patch [UpdateFile q None [c]]) s =
    Some (notify T (join_path (te_cwd T) q) (terminated (pre @ new @ post)) (Some (terminated (pre @ old @ post))) False
        (s\<lparr>to_files := AList.update (join_path (te_cwd T) q) (encode (terminated (pre @ new @ post))) (to_files s)\<rparr>),
      Inr (Success rs (build_summary rs)))"
    using run_exact_edit[OF patch] by blast
  ultimately show ?thesis by (simp add: notify_def update_conv')
qed

text \<open>When every rule of the policy is about the path of a read, the read tool is stopped by a deny rule on
  the path and the read tool of the Codex set runs on the same path.\<close>

theorem codex_read_escapes_path_rules:
  assumes "mc_policy C = Some (compile_policy (sh_policy (mc_shell C)) cfg)"
    and "\<forall>x \<in> set (pc_rules cfg). pr_tool x = Read_Tool \<and> (\<exists>s. pr_pattern x = Some s \<and> s \<noteq> u ''*'')"
    and "some_rule (sh_policy (mc_shell C)) (compile_policy (sh_policy (mc_shell C)) cfg)
      (Read_Access (Some q)) (Some (pp_cwd p)) Deny_Rule"
    and "\<not> ac_auto A" "\<not> rq_gone_queued r" "pp_hook p = None"
  shows "snd (prepare_tool_call (Manager C) t t' (p\<lparr>pp_input := In_ReadFile q\<rparr>) r A) \<noteq> None \<and>
    snd (prepare_tool_call (Manager C) t t' (p\<lparr>pp_input := In_CodexReadFile q\<rparr>) r A) = None"
proof -
  let ?P = "compile_policy (sh_policy (mc_shell C)) cfg" and ?p = "p\<lparr>pp_input := In_CodexReadFile q\<rparr>"
  let ?r = "request_of ?p r" and ?A = "refresh_transcript ?p A"
  have "\<not> applies (sh_policy (mc_shell C)) (Read_Access None) cwd cr" if "cr \<in> set (cp_rules ?P)" for cwd cr
    using that assms(2) by (auto simp: compile_policy_def applies_def pattern_matches_def)
  then have "evaluate_with_cwd (sh_policy (mc_shell C)) ?P (Read_Access None) cwd = None" for cwd
    using evaluate_spec[of "sh_policy (mc_shell C)" ?P "Read_Access None" cwd]
    by (auto simp: some_rule_def permits_def split: if_splits)
  then have bare: "request_preflight C ?A ?r = \<lparr>pf_direct = None, pf_bash = None, pf_file = None, pf_defers = False\<rparr>"
    using assms(1) by (simp add: request_preflight_def evaluate_preflight_def access_of_input_def Let_def)
  have served: "served C ?A ?r" using assms(5) by (simp add: served_def request_evaluation_def access_of_input_def)
  have "\<exists>ev. handle_request C ?A ?r = (?A, ev, Some Allow)"
    using assms(4) by (simp add: served_request[OF served] early_ruling_def policy_denial_def session_grant_def
        session_grant_pre_decision_def no_floor_def bare not_auto_stage after_auto_def late_ruling_def is_bash_def
        settled_def pre_decision_def grant_allow_def ruled_simps access_of_input_def Let_def)
  then have "snd (prepare_tool_call (Manager C) t t' ?p r A) = None"
    using assms(6) by (auto simp: goes_on access_of_input_def dest: allowed_reply)
  moreover have "snd (prepare_tool_call (Manager C) t t' (p\<lparr>pp_input := In_ReadFile q\<rparr>) r A) \<noteq> None"
    using denied_reply[of C ?P "request_of (p\<lparr>pp_input := In_ReadFile q\<rparr>) r"] assms(1,3)
    by (simp add: goes_on access_of_input_def)
  ultimately show ?thesis by blast
qed

section \<open>The rules at work\<close>

definition strict_manager :: "tool_filter \<Rightarrow> (unit, unit) manager_config" where
  "strict_manager tool = with_policy [\<lparr>pr_action = Deny_Rule, pr_tool = tool, pr_pattern = Some (u ''/w/a''), pr_mode = Glob_Mode\<rparr>]
     ((demo_manager Prompt_Ask False)\<lparr>mc_shell := (mc_shell (demo_manager Prompt_Ask False))\<lparr>sh_policy :=
        (sh_policy (mc_shell (demo_manager Prompt_Ask False)))\<lparr>pv_compile := (\<lambda>_. Some ()), pv_matches := (\<lambda>_ _ p. p = u ''/w/a'')\<rparr>\<rparr>\<rparr>)"

lemma strict_rules:
  "some_rule (sh_policy (mc_shell (strict_manager Edit_Tool))) (the (mc_policy (strict_manager Edit_Tool)))
     (Edit_Access (u ''/w/a'')) (Some (u ''/w'')) Deny_Rule"
  "some_rule (sh_policy (mc_shell (strict_manager Read_Tool))) (the (mc_policy (strict_manager Read_Tool)))
     (Read_Access (Some (u ''/w/a''))) (Some (u ''/w'')) Deny_Rule"
  "evaluate_with_cwd (sh_policy (mc_shell (strict_manager Edit_Tool))) (the (mc_policy (strict_manager Edit_Tool)))
     (Edit_Access (u ''apply_patch'')) (Some (u ''/w'')) = None"
  by code_simp+

theorem patch_escapes_edit_rules_witness:
  "\<exists>patch C A r s' out. snd (prepare_tool_call (Manager C) (plan_tracker_at (u ''/s'')) (plan_tracker_at (u ''/s'')) (demo_call (In_SearchReplace (u ''/w/a''))) (r :: unit request) (A :: unit perm_actor)) \<noteq> None \<and>
    snd (prepare_tool_call (Manager (C :: (unit, unit) manager_config)) (plan_tracker_at (u ''/s'')) (plan_tracker_at (u ''/s'')) (demo_call (In_ApplyPatch patch)) r A) = None \<and>
    run_tool review_env patch review_state = Some (s', Inr out) \<and>
    map_of (to_files s') (u ''/w/a'') = Some (encode (terminated [[97], [120], [99], [100]]))"
proof -
  let ?C = "strict_manager Edit_Tool" and ?A = "idle_manager True"
  let ?r = "demo_request (Read_Access None) AllowOnce"
  have "printable (UpdateFile [97] None [review_chunk])"
    by (simp add: path_ok_def is_ws_def review_chunk_def chunk_printable_def chunk_ok_def)
  moreover have "first_exact [[97]] [[98], [99]] []" by (simp add: first_exact_def match_at_def)
  moreover have "mc_policy ?C = Some (the (mc_policy ?C))" by (simp add: strict_manager_def with_policy_def)
  moreover have "u ''/w/a'' = [47, 119, 47, 97]" "u ''/w'' = [47, 119]" by (simp_all add: u_def)
  ultimately show ?thesis
    using strict_rules(1,3) patch_escapes_edit_rules[where C = ?C and P = "the (mc_policy ?C)" and A = ?A and r = ?r
        and t = "plan_tracker_at (u ''/s'')" and t' = "plan_tracker_at (u ''/s'')" and T = review_env and q = "[97]" and p = "demo_call In_Lsp" and s = review_state
        and pre = "[[97]]" and old = "[[98], [99]]" and new = "[[120], [99], [100]]" and post = "[]" and c = review_chunk,
        unfolded review_path]
    by (force simp: review_state_def review_env_def pt_env_def review_chunk_def scalar_def demo_call_def plan_tracker_at_def plan_is_active_def)
qed

theorem codex_read_escapes_path_rules_witness:
  "snd (prepare_tool_call (Manager (strict_manager Read_Tool)) planning planning (demo_call (In_ReadFile (u ''/w/a'')))
     (demo_request (Read_Access None) AllowOnce) (idle_manager False)) \<noteq> None \<and>
   snd (prepare_tool_call (Manager (strict_manager Read_Tool)) planning planning (demo_call (In_CodexReadFile (u ''/w/a'')))
     (demo_request (Read_Access None) AllowOnce) (idle_manager False)) = None"
proof -
  let ?C = "strict_manager Read_Tool"
  define cfg where "cfg = \<lparr>pc_rules = [\<lparr>pr_action = Deny_Rule, pr_tool = Read_Tool, pr_pattern = Some (u ''/w/a''),
    pr_mode = Glob_Mode\<rparr>], pc_prompt = Prompt_Ask\<rparr>"
  have policy: "mc_policy ?C = Some (compile_policy (sh_policy (mc_shell ?C)) cfg)"
    by (simp add: strict_manager_def with_policy_def cfg_def)
  have "\<forall>x \<in> set (pc_rules cfg). pr_tool x = Read_Tool \<and> (\<exists>s. pr_pattern x = Some s \<and> s \<noteq> u ''*'')"
    by (simp add: cfg_def u_def)
  then show ?thesis
    using codex_read_escapes_path_rules[of ?C cfg "u ''/w/a''" "demo_call In_Lsp" "idle_manager False"
        "demo_request (Read_Access None) AllowOnce" planning planning] strict_rules(2) policy
    by (simp add: demo_call_def)
qed

end
