(* ===== verification/Spec2Isabelle.thy ===== *)
theory Spec2Isabelle
  imports Prelude
    Auto_Mode
    Bash_Evaluation
    Bash_Facts
    Breaker
    Breaker_Config
    Breaker_Facts
    Breaker_Properties
    Breaker_Race
    Breaker_Window
    Chat_Actor
    Chat_Compaction
    Chat_Compaction_Properties
    Chat_Items
    Chat_Properties
    Chat_Repair
    Chat_Repair_Properties
    Chat_Request
    Chat_State
    Chat_Usage
    Exec_Risk
    Handle_Flags
    Hunk_Actions
    Hunk_Actor
    Hunk_Behaviour
    Hunk_Commands
    Hunk_Diff
    Hunk_Display
    Hunk_Files
    Hunk_Git
    Hunk_Invariant
    Hunk_Loc
    Hunk_Mutations
    Hunk_Properties
    Hunk_Queries
    Hunk_Replay
    Hunk_Review
    Hunk_Safety
    Hunk_Types
    Manager_Behaviour
    Manager_Facts
    Manager_Properties
    Patch_Apply
    Patch_Facts
    Patch_Parser
    Patch_Print
    Patch_Properties
    Patch_Review
    Patch_Seek
    Patch_Tool
    Path_Text
    Perm_Facts
    Perm_Gate
    Perm_Grants
    Perm_Manager
    Perm_Policy
    Perm_Properties
    Perm_Rules
    Perm_State
    Plan_Mode
    Plan_Properties
    Rewind_Facts
    Rewind_Files
    Rewind_Invariant
    Rewind_Json
    Rewind_Patch
    Rewind_Points
    Rewind_Properties
    Rewind_Session
    Rewind_Tracker
    Rust_Text
    Safe_Commands
    State_Properties
    Shell_Properties
    Shell_Words
    Tool_Access
    Tool_Calls
    Unicode_Text
    Utf8_Text
begin

text \<open>
  A verification library of parts of \<open>grok-pi\<close>, a terminal coding agent in Rust.

  The agent edits files through tools. The \<open>apply_patch\<close> tool parses a patch, computes the new text of
  every file in memory, writes the files and emits one \<open>FileWritten\<close> notification per write. The
  notification bridge of the shell hands these to the hunk tracker, an actor that keeps a baseline
  and a current text for each file, turns their difference into hunks attributed to prompts, and lets
  the user accept or reject them one by one, per file, per turn or all together. Before a tool runs, its
  call has to pass the gate of plan mode, the hooks and the permission manager, an actor that combines a
  configured policy, an analysis of shell commands, stored grants, a classifier and the answers of the
  user. A session can be rewound to an earlier prompt. The conversation itself is kept by a
  further actor, which repairs, prunes and compacts it. Requests to the services behind the agent go through circuit breakers.

  \<^bold>\<open>Hunk tracker\<close> (\<open>src/crates/codegen/xai-hunk-tracker/src\<close>).
  \<open>Hunk_Types\<close>: the data of \<open>types.rs\<close>, \<open>events.rs\<close> and \<open>actor/state.rs\<close>.
  \<open>Hunk_Files\<close>: reading and classifying file contents, \<open>actor/file_utils.rs\<close>.
  \<open>Hunk_Diff\<close>: from a line script to hunks, and line patches, \<open>diff.rs\<close>; \<open>Hunk_Replay\<close> shows
  that patching with all hunks, or reverting all of them, replays the script.
  \<open>Hunk_Actor\<close>: the record of the actor and \<open>recompute_hunks\<close>, \<open>actor/hunks.rs\<close>.
  \<open>Hunk_Actions\<close>: accept and reject with their I/O errors, \<open>actor/actions.rs\<close>.
  \<open>Hunk_Git\<close>: repository discovery, baselines and status scans, \<open>actor/git.rs\<close>.
  \<open>Hunk_Mutations\<close>: agent writes, file notifications, refreshes, the mode, \<open>actor/mutations.rs\<close>.
  \<open>Hunk_Queries\<close>: queries and snapshots, \<open>actor/queries.rs\<close> and \<open>actor/mod.rs\<close>.
  \<open>Hunk_Commands\<close>: the command handler and the coalescing loop, \<open>commands.rs\<close>, \<open>actor/mod.rs\<close>.
  \<open>Hunk_Loc\<close>: the lines-of-code sink, \<open>loc/mod.rs\<close>.
  \<open>Hunk_Invariant\<close> and \<open>Hunk_Safety\<close> show that every command keeps the invariants of the actor,
  \<open>Hunk_Review\<close> what a review round achieves; \<open>Hunk_Properties\<close>, \<open>Hunk_Behaviour\<close> and
  \<open>Hunk_Display\<close> hold the properties.

  \<^bold>\<open>Patch tool\<close> (\<open>src/crates/codegen/xai-grok-tools/src/implementations/codex/apply_patch\<close>).
  \<open>Patch_Parser\<close>: \<open>parser.rs\<close>, every error with its message and line. \<open>Patch_Print\<close>: a printer of
  patches, the specification side of the round trip. \<open>Patch_Seek\<close>: \<open>seek_sequence.rs\<close>.
  \<open>Patch_Apply\<close>: \<open>apply.rs\<close>, with the forward splice it refines. \<open>Patch_Tool\<close>: \<open>tool.rs\<close> over a map
  from paths to bytes. \<open>Patch_Facts\<close> and \<open>Patch_Properties\<close>: what a run does, defects included.

  \<^bold>\<open>Circuit breaker\<close> (\<open>src/crates/common/xai-circuit-breaker/src\<close>).
  \<open>Breaker_Window\<close>: \<open>window.rs\<close>, with the failure rate as a correctly rounded double.
  \<open>Breaker\<close>: \<open>breaker.rs\<close> and \<open>state.rs\<close> for one thread over a sequence of clock readings.
  \<open>Breaker_Race\<close>: \<open>try_half_open_probe\<close> by many threads, interleaved at its atomic operations, takeovers of
  an old claim included, while a transition of another thread may reset the counter at any moment.
  \<open>Breaker_Config\<close>: \<open>config.rs\<close>, \<open>retry_policy.rs\<close>, \<open>grpc.rs\<close>, \<open>registry.rs\<close>.
  \<open>Breaker_Facts\<close> and \<open>Breaker_Properties\<close>: the invariant, for a breaker used by one thread at a time, and
  the properties.

  \<^bold>\<open>Permissions\<close> (\<open>src/crates/codegen/xai-grok-workspace/src/permission\<close>).
  \<open>Shell_Words\<close>: peeling wrappers and shell prefixes off a command, \<open>bash_command_splitting.rs\<close>, with
  \<open>Shell_Properties\<close>. \<open>Path_Text\<close>: lexical paths.
  \<open>Perm_Rules\<close>: rules and their text, \<open>types.rs\<close>, \<open>rules.rs\<close>; \<open>Perm_Policy\<close>: \<open>policy.rs\<close>; \<open>Perm_Gate\<close>:
  \<open>gate_preflight.rs\<close>; \<open>Perm_Facts\<close> and \<open>Perm_Properties\<close>: a denied command is rejected in
  every script the bounded analysis reaches, an allowed chain is allowed throughout as long as its wrappers are
  few, the order of rules is irrelevant.
  \<open>Exec_Risk\<close>: \<open>exec_risk.rs\<close>; \<open>Safe_Commands\<close>: the built-in lists of \<open>manager.rs\<close>, with \<open>State_Properties\<close>.
  \<open>Perm_State\<close>: stored grants, findings, names of MCP tools, the domain allowlist, with \<open>State_Properties\<close>.
  \<open>Bash_Evaluation\<close>: \<open>evaluate_bash\<close>, with \<open>Bash_Facts\<close>; \<open>Perm_Grants\<close>: what grants settle.
  \<open>Auto_Mode\<close>: the interface of the classifier and the fast path, \<open>auto_mode/mod.rs\<close>.
  \<open>Perm_Manager\<close>: the actor of \<open>manager.rs\<close>, one definition per stage of a request and per command.
  \<open>Manager_Facts\<close>: its invariant and where a ruling comes from; \<open>Manager_Properties\<close>: an unprompted
  command is vouched for, denials of the classifier are bounded, a denial of the policy is final;
  \<open>Manager_Behaviour\<close>: what grants are good for later, and rules that some path does not look at.
  \<open>Handle_Flags\<close>: the handles of the actor and their shared flags, interleaved store by store.

  \<^bold>\<open>Plan mode\<close> (\<open>src/crates/codegen/xai-grok-shell/src/session/plan_mode.rs\<close> and its callers).
  \<open>Plan_Mode\<close>: the tracker and the session around it: toggles, prompts, tools, restarts, the decision of the
  dialog shown again after a resume and the turns it queues; \<open>Plan_Properties\<close>: its invariant, in which
  runs the model is told that plan mode ended, and the exits of which it is not.

  \<^bold>\<open>Rewind\<close> (\<open>src/crates/codegen/xai-grok-workspace/src/session/file_state.rs\<close> and the file part of
  \<open>rewind.rs\<close> in \<open>src/crates/codegen/xai-grok-shell/src/session/acp_session_impl\<close>). Before a turn changes a
  file its content is kept in the rewind point of the turn, and a rewind writes the earliest snapshots back.
  \<open>Rewind_Points\<close>: paths, snapshots, points and the fold of points. \<open>Rewind_Json\<close>: the stored lines, as serde
  writes and reads them. \<open>Rewind_Tracker\<close>: \<open>FileStateTracker\<close> over a disk that may fail.
  \<open>Rewind_Files\<close>: \<open>rewind_files\<close> and the preview and forced revert of the shell. \<open>Rewind_Session\<close>: turns,
  agent writes, outside writes and rewinds as events over tracker and disk; a write carries the report of
  its tool, true or not. \<open>Rewind_Facts\<close> and
  \<open>Rewind_Invariant\<close>: the points a tracker stands for, in memory or still on disk, and what each event keeps
  of them; \<open>Rewind_Properties\<close>: a rewind restores what a prompt found when the reports were true, a failed
  one loses no point and can be repeated, stored points are read back; \<open>Rewind_Patch\<close>: rewinding undoes a run
  of the patch tool that overwrites no file by adding or moving one.

  \<^bold>\<open>Conversation\<close> (\<open>src/crates/codegen/xai-chat-state/src\<close> and \<open>conversation.rs\<close> in
  \<open>src/crates/codegen/xai-grok-sampling-types/src\<close>). An actor keeps the items of the chat, counts their tokens,
  mirrors them to a history file and builds the requests to the model.
  \<open>Chat_Items\<close>: items, token estimates, and where a rewind cuts a conversation. \<open>Chat_Repair\<close>: unanswered calls,
  duplicate and displaced results; \<open>Chat_Repair_Properties\<close>: a repaired history pairs calls and results.
  \<open>Chat_Request\<close>: pruning, image eviction, the memory reminder. \<open>Chat_Usage\<close>: the ledgers of \<open>usage.rs\<close>.
  \<open>Chat_State\<close>: the state and its mutations, \<open>actor/state.rs\<close>, \<open>actor/mutations.rs\<close>, \<open>actor/queries.rs\<close>.
  \<open>Chat_Compaction\<close>: \<open>compaction_utils.rs\<close>. \<open>Chat_Actor\<close>: the commands and their handler, the request builder.
  \<open>Chat_Properties\<close>: a turn capture holds the turn, the history file follows the conversation;
  \<open>Chat_Compaction_Properties\<close>: requests and compacted histories pair calls and results, a fitted conversation
  keeps whole turns, a cleaned summary has no control token, recent results are spared, ledgers add up.

  \<^bold>\<open>Composition\<close>. \<open>Patch_Review\<close> joins the patch tool, the bridge
  (\<open>src/crates/codegen/xai-grok-shell/src/tools/notification_bridge.rs\<close>) and the hunk tracker.
  \<open>Tool_Access\<close> and \<open>Tool_Calls\<close> join the inputs of the tools, plan mode, the hooks and the manager
  (\<open>tool_calls.rs\<close>), down to a patch that runs: a call goes on only when it is cleared, and a denied one is
  stopped, the plan file in plan mode excepted.

  \<^bold>\<open>Conventions\<close>. Byte strings are \<open>str\<close>, texts of Unicode scalars \<open>ustr\<close> with their UTF-8 encoding
  in \<open>Utf8_Text\<close>; \<open>Rust_Text\<close> and \<open>Unicode_Text\<close> hold what the code uses of the standard library
  (\<open>lines\<close>, \<open>split\<close>, \<open>trim\<close>, \<open>parse\<close>). Hash maps are association lists with distinct keys. A panic is
  \<open>None\<close>, a \<open>Result\<close> a sum. Line and byte counts of the tracker and the patch engine are unbounded,
  bounded in the code by memory; counters that can wrap are words. All functions are total. The only
  bounds on rounds are those of the code: eight wrappers and eight shell prefixes at a time, sixteen rounds
  of the two together, and the depth of inline scripts; what happens behind them is part of the model.
  A request of the manager carries what the world does to it: whether the requester has gone at
  each point where the code looks, the verdict of the classifier, the answer of the user, and whether the state
  could be written.

  \<^bold>\<open>Parameters\<close>. The line diff is the crate \<open>similar\<close>: the tracker uses its script, with the law that
  deleting and inserting what it says turns one text into the other. The git library, the file
  system's errors, clock readings and the parser of decimal doubles are functions in an environment
  record, and nothing is assumed of them unless a hypothesis says so. The same holds for the crates
  of the permission code: \<open>glob\<close>, \<open>url\<close>, \<open>tree-sitter-bash\<close> (the commands of a script and facts of its
  tree), \<open>git2\<close>, the lower-casing of hosts, the gate on files named in a shell command, the protection of
  paths, the classifier, JSON texts, and the rendering of reminders; and, for rewind, of the format of times,
  which operations on files fail and what a failed write leaves, and the order in which a hash map is walked;
  and, for the conversation, of the length of the JSON of items and of what goes wrong with an append to the history file.

  \<^bold>\<open>Locales\<close>. \<open>coarsening\<close> is the contract between two passes of the matcher, interpreted on the three
  pairs of normal forms; \<open>sample_window\<close> what the breaker needs of its window, interpreted on
  the counted queue; \<open>strongest\<close> a choice of the strongest verdict, interpreted on the gate and on the
  combined decisions; \<open>cells\<close> maps written one key at a time, interpreted on association lists and on the disk;
  \<open>ledger_field\<close> one counter of a usage ledger, interpreted on its eight counters;
  those of the tracker are stated next to the operations that provide them.

  \<^bold>\<open>Not modelled\<close>. Channels, handles and tasks around the actor; the JSONL writer; unified-diff printing
  (the crate \<open>similar\<close>); serialisation; log lines. Of the permission code: the walk over the syntax tree of a
  shell command, the files the policy is read from, the prompt protocol and the hub, latencies and
  queue depths of events, and \<open>Shutdown\<close>, which ends the loop of the manager. Of rewind: checkpoints of hunks
  and of git, the task that writes points to disk, links in paths. Of the conversation: its handle and channels,
  transcript files, the rendering of reminders, the call of the model, and the replay of a conversation by the shell. The terminal interface, the
  model clients, MCP servers and the remaining tools are listed in the manifest.
\<close>

end
